(* ===== verification/Prelude.thy ===== *)
theory Prelude
  imports Main "HOL-Library.Word" "HOL-Library.AList" "HOL-Library.Sublist"
begin

text \<open>
  The vocabulary shared by every component: machine integers at their width with the
  checked and saturating operations of the Rust standard library, the string functions the
  handlers use, the two container shapes (\<open>DashMap\<close>/\<open>HashMap\<close> as an association list with
  distinct keys, \<open>BTreeMap\<close> as a list sorted by key), and the two interface locales of the
  containers: \<open>kv_store\<close> (lookup, insert, remove, size) and \<open>evicting_store\<close> (a store that
  shrinks itself to a cap by removing its oldest entry).
\<close>

named_theorems int_simps \<open>machine-integer operations read as integers\<close>
named_theorems store_simps \<open>lookups after inserts and removals\<close>
named_theorems wf_intros \<open>preservation of well-formedness\<close>

section \<open>Machine integers\<close>

type_synonym u8 = "8 word"
type_synonym u32 = "32 word"
type_synonym u64 = "64 word"
type_synonym u128 = "128 word"
type_synonym i64 = int
type_synonym i128 = int

text \<open>Unsigned integers are words. Rust's \<open>checked_*\<close> give \<open>None\<close> on overflow.\<close>

definition checked_add :: "'a::len word \<Rightarrow> 'a word \<Rightarrow> 'a word option" where
  "checked_add a b = (if uint a + uint b < 2 ^ LENGTH('a) then Some (a + b) else None)"

definition checked_mul :: "'a::len word \<Rightarrow> 'a word \<Rightarrow> 'a word option" where
  "checked_mul a b = (if uint a * uint b < 2 ^ LENGTH('a) then Some (a * b) else None)"

definition saturating_add :: "'a::len word \<Rightarrow> 'a word \<Rightarrow> 'a word" where
  "saturating_add a b = (case checked_add a b of Some c \<Rightarrow> c | None \<Rightarrow> - 1)"

definition saturating_sub :: "'a::len word \<Rightarrow> 'a word \<Rightarrow> 'a word" where
  "saturating_sub a b = (if b \<le> a then a - b else 0)"

definition div_ceil :: "'a::len word \<Rightarrow> 'a word \<Rightarrow> 'a word" where
  "div_ceil a b = (if a mod b = 0 then a div b else a div b + 1)"

text \<open>Signed integers are mathematical integers with their range written out.\<close>

definition in_i64 :: "int \<Rightarrow> bool" where
  "in_i64 x \<longleftrightarrow> - (2 ^ 63) \<le> x \<and> x < 2 ^ 63"

definition in_i128 :: "int \<Rightarrow> bool" where
  "in_i128 x \<longleftrightarrow> - (2 ^ 127) \<le> x \<and> x < 2 ^ 127"

definition i64_try_from :: "int \<Rightarrow> i64 option" where
  "i64_try_from x = (if in_i64 x then Some x else None)"

definition i128_try_from :: "int \<Rightarrow> i128 option" where
  "i128_try_from x = (if in_i128 x then Some x else None)"

definition i64_saturating_add :: "i64 \<Rightarrow> i64 \<Rightarrow> i64" where
  "i64_saturating_add a b = max (- (2 ^ 63)) (min (2 ^ 63 - 1) (a + b))"

definition i64_wrapping_neg :: "i64 \<Rightarrow> i64" where
  "i64_wrapping_neg a = (if a = - (2 ^ 63) then a else - a)"

definition unsigned_abs :: "i64 \<Rightarrow> u64" where
  "unsigned_abs a = word_of_int \<bar>a\<bar>"

lemma checked_add_SomeD: "checked_add a b = Some c \<Longrightarrow> uint c = uint a + uint b"
  by (auto simp: checked_add_def uint_word_ariths split: if_splits)

lemma checked_mul_SomeD: "checked_mul a b = Some c \<Longrightarrow> uint c = uint a * uint b"
  by (auto simp: checked_mul_def uint_word_ariths split: if_splits)

lemma uint_saturating_add [int_simps]:
  "uint (saturating_add a b) = min (uint a + uint b) (2 ^ LENGTH('a) - 1)"
  for a b :: "'a::len word"
  using zmod_minus1 [of "2 ^ LENGTH('a)"]
  by (auto simp: saturating_add_def checked_add_def uint_word_ariths)

lemma uint_saturating_sub [int_simps]:
  "uint (saturating_sub a b) = max 0 (uint a - uint b)"
proof (cases "b \<le> a")
  case True
  then show ?thesis
    by (simp add: saturating_sub_def uint_sub_lem [THEN iffD1] word_le_def)
next
  case False
  then show ?thesis
    by (simp add: saturating_sub_def word_le_def)
qed

lemma saturating_sub_le: "saturating_sub a b \<le> a"
  using uint_saturating_sub [of a b] by (simp add: word_le_def)

lemma saturating_add_ge: "a \<le> saturating_add a b"
proof -
  have "uint a < 2 ^ LENGTH('a)" by (rule uint_lt2p)
  then show ?thesis
    using uint_saturating_add [of a b] by (simp add: word_le_def)
qed

lemma in_i64_saturating_add [wf_intros]: "in_i64 (i64_saturating_add a b)"
  by (auto simp: in_i64_def i64_saturating_add_def)

lemma i64_saturating_add_id: "in_i64 (a + b) \<Longrightarrow> i64_saturating_add a b = a + b"
  by (auto simp: in_i64_def i64_saturating_add_def)

lemma i64_try_from_Some [simp]: "i64_try_from x = Some y \<longleftrightarrow> in_i64 x \<and> y = x"
  by (auto simp: i64_try_from_def)

lemma i128_try_from_Some [simp]: "i128_try_from x = Some y \<longleftrightarrow> in_i128 x \<and> y = x"
  by (auto simp: i128_try_from_def)

lemma i64_try_from_None [simp]: "i64_try_from x = None \<longleftrightarrow> \<not> in_i64 x"
  by (auto simp: i64_try_from_def)

lemma i128_try_from_None [simp]: "i128_try_from x = None \<longleftrightarrow> \<not> in_i128 x"
  by (auto simp: i128_try_from_def)

lemma uint_unsigned_abs: "in_i64 a \<Longrightarrow> uint (unsigned_abs a) = \<bar>a\<bar>"
  by (auto simp: unsigned_abs_def in_i64_def uint_word_of_int intro!: mod_pos_pos_trivial)

lemma in_i64_sint: "in_i64 (sint (w :: u64))"
  using sint_greater_eq [of w] sint_less [of w] by (simp add: in_i64_def)

lemma sint_small:
  assumes "uint (w :: u64) < 2 ^ 63"
  shows "sint w = uint w"
proof -
  have "- 9223372036854775808 \<le> uint w" using uint_ge_0 [of w] by linarith
  with assms show ?thesis by (simp add: sint_uint signed_take_bit_int_eq_self)
qed

lemma uint_u64_bound: "uint (w :: u64) < 2 ^ 64"
  using uint_lt2p [of w] by simp

lemma uint_u128_bound: "uint (w :: u128) < 2 ^ 128"
  using uint_lt2p [of w] by simp

section \<open>Strings\<close>

text \<open>
  A Rust \<open>String\<close> is a list of bytes. \<open>ascii_lower\<close> and \<open>ascii_upper\<close> stand for
  \<open>to_lowercase\<close>/\<open>to_uppercase\<close>: the code compares their results with ASCII keywords only,
  and no other character maps to a letter of those keywords.
\<close>

definition lower_char :: "char \<Rightarrow> char" where
  "lower_char c = (let n = (of_char c :: nat) in if 65 \<le> n \<and> n \<le> 90 then char_of (n + 32) else c)"

definition upper_char :: "char \<Rightarrow> char" where
  "upper_char c = (let n = (of_char c :: nat) in if 97 \<le> n \<and> n \<le> 122 then char_of (n - 32) else c)"

definition ascii_lower :: "string \<Rightarrow> string" where
  "ascii_lower s = map lower_char s"

definition ascii_upper :: "string \<Rightarrow> string" where
  "ascii_upper s = map upper_char s"

definition is_digit :: "char \<Rightarrow> bool" where
  "is_digit c = (let n = (of_char c :: nat) in 48 \<le> n \<and> n \<le> 57)"

definition digit_val :: "char \<Rightarrow> nat" where
  "digit_val c = of_char c - 48"

definition digit_char :: "nat \<Rightarrow> char" where
  "digit_char d = char_of (48 + d)"

text \<open>\<open>{}\<close> of an unsigned integer: its decimal digits.\<close>

fun show_nat :: "nat \<Rightarrow> string" where
  "show_nat n = (if n < 10 then [digit_char n] else show_nat (n div 10) @ [digit_char (n mod 10)])"

declare show_nat.simps [simp del]

definition show_int :: "int \<Rightarrow> string" where
  "show_int i = (if i < 0 then ''-'' @ show_nat (nat (- i)) else show_nat (nat i))"

definition show_word :: "'a::len word \<Rightarrow> string" where
  "show_word w = show_nat (unat w)"

text \<open>
  \<open>str::parse\<close> of the integer types: an optional sign (a minus only for the signed types),
  then one or more digits, and the value in range.
\<close>

definition digits_val :: "string \<Rightarrow> nat" where
  "digits_val s = foldl (\<lambda>n c. 10 * n + digit_val c) 0 s"

definition parse_digits :: "string \<Rightarrow> nat option" where
  "parse_digits s = (if s \<noteq> [] \<and> list_all is_digit s then Some (digits_val s) else None)"

definition strip_plus :: "string \<Rightarrow> string" where
  "strip_plus s = (case s of c # r \<Rightarrow> if c = CHR ''+'' then r else s | [] \<Rightarrow> s)"

definition parse_unsigned :: "nat \<Rightarrow> string \<Rightarrow> nat option" where
  "parse_unsigned w s =
     (case parse_digits (strip_plus s) of
        None \<Rightarrow> None
      | Some n \<Rightarrow> if n < 2 ^ w then Some n else None)"

definition parse_signed :: "nat \<Rightarrow> string \<Rightarrow> int option" where
  "parse_signed w s =
     (case s of
        c # r \<Rightarrow>
          if c = CHR ''-''
          then (case parse_digits r of
                  None \<Rightarrow> None
                | Some n \<Rightarrow> if int n \<le> 2 ^ (w - 1) then Some (- int n) else None)
          else (case parse_digits (strip_plus s) of
                  None \<Rightarrow> None
                | Some n \<Rightarrow> if int n < 2 ^ (w - 1) then Some (int n) else None)
      | [] \<Rightarrow> None)"

definition parse_u64 :: "string \<Rightarrow> u64 option" where
  "parse_u64 s = map_option word_of_nat (parse_unsigned 64 s)"

definition parse_u32 :: "string \<Rightarrow> nat option" where
  "parse_u32 s = parse_unsigned 32 s"

definition parse_i32 :: "string \<Rightarrow> int option" where
  "parse_i32 s = parse_signed 32 s"

definition parse_usize :: "string \<Rightarrow> nat option" where
  "parse_usize s = parse_unsigned 64 s"

text \<open>\<open>str::split\<close> with a one-character separator, and \<open>str::split_once\<close>.\<close>

fun split_on :: "char \<Rightarrow> string \<Rightarrow> string list" where
  "split_on c [] = [[]]"
| "split_on c (x # xs) =
     (if x = c then [] # split_on c xs
      else (case split_on c xs of [] \<Rightarrow> [[x]] | p # ps \<Rightarrow> (x # p) # ps))"

definition split_once :: "char \<Rightarrow> string \<Rightarrow> (string \<times> string) option" where
  "split_once c s =
     (if c \<in> set s
      then Some (takeWhile (\<lambda>x. x \<noteq> c) s, tl (dropWhile (\<lambda>x. x \<noteq> c) s))
      else None)"

fun join_with :: "string \<Rightarrow> string list \<Rightarrow> string" where
  "join_with d [] = []"
| "join_with d [p] = p"
| "join_with d (p # q # ps) = p @ d @ join_with d (q # ps)"

definition is_space :: "char \<Rightarrow> bool" where
  "is_space c = (let n = (of_char c :: nat) in n = 32 \<or> (9 \<le> n \<and> n \<le> 13))"

definition trim :: "string \<Rightarrow> string" where
  "trim s = rev (dropWhile is_space (rev (dropWhile is_space s)))"

definition starts_with :: "string \<Rightarrow> string \<Rightarrow> bool" where
  "starts_with p s \<longleftrightarrow> take (length p) s = p"

definition strip_prefix_str :: "string \<Rightarrow> string \<Rightarrow> string option" where
  "strip_prefix_str p s = (if starts_with p s then Some (drop (length p) s) else None)"

definition contains_str :: "string \<Rightarrow> string \<Rightarrow> bool" where
  "contains_str s sub \<longleftrightarrow> sublist sub s"

lemma digit_char_props:
  assumes "d < 10"
  shows "is_digit (digit_char d)" and "digit_val (digit_char d) = d"
  using assms by (simp_all add: is_digit_def digit_val_def digit_char_def of_char_of)

lemma digits_val_append: "digits_val (s @ [c]) = 10 * digits_val s + digit_val c"
  by (simp add: digits_val_def)

lemma show_nat_nonempty: "show_nat n \<noteq> []"
  by (subst show_nat.simps) simp

lemma show_nat_digits: "list_all is_digit (show_nat n)"
proof (induction n rule: show_nat.induct)
  case (1 n)
  then show ?case
    by (subst show_nat.simps) (auto simp: digit_char_props)
qed

lemma digits_val_show_nat: "digits_val (show_nat n) = n"
proof (induction n rule: show_nat.induct)
  case (1 n)
  show ?case
  proof (cases "n < 10")
    case True
    then show ?thesis by (subst show_nat.simps) (simp add: digits_val_def digit_char_props)
  next
    case False
    with 1 have "digits_val (show_nat (n div 10)) = n div 10" by simp
    with False show ?thesis
      by (subst show_nat.simps) (simp add: digits_val_append digit_char_props)
  qed
qed

lemma strip_plus_digits: "list_all is_digit s \<Longrightarrow> strip_plus s = s"
  by (cases s) (auto simp: strip_plus_def is_digit_def)

lemma parse_digits_show_nat: "parse_digits (show_nat n) = Some n"
  by (simp add: parse_digits_def show_nat_nonempty show_nat_digits digits_val_show_nat)

lemma parse_unsigned_show_nat: "n < 2 ^ w \<Longrightarrow> parse_unsigned w (show_nat n) = Some n"
  by (simp add: parse_unsigned_def strip_plus_digits show_nat_digits parse_digits_show_nat)

lemma parse_u64_show_word: "parse_u64 (show_word (x :: u64)) = Some x"
proof -
  have "unat x < 2 ^ 64" using unsigned_less [of x, where ?'a = nat] by simp
  then show ?thesis
    by (simp add: parse_u64_def show_word_def parse_unsigned_show_nat)
qed

lemma split_on_nonempty: "split_on c s \<noteq> []"
  by (induction c s rule: split_on.induct) (auto split: list.splits)

lemma split_on_notin: "c \<notin> set s \<Longrightarrow> split_on c s = [s]"
  by (induction c s rule: split_on.induct) auto

lemma split_on_append:
  "c \<notin> set p \<Longrightarrow> split_on c (p @ c # s) = p # split_on c s"
  by (induction p) auto

lemma join_split_on: "join_with [c] (split_on c s) = s"
proof (induction c s rule: split_on.induct)
  case (2 c x xs)
  show ?case
  proof (cases "split_on c xs")
    case Nil
    then show ?thesis by (simp add: split_on_nonempty)
  next
    case (Cons p ps)
    with 2 show ?thesis by (cases ps) auto
  qed
qed simp

lemma digit_not_dash: "is_digit c \<Longrightarrow> c \<noteq> CHR ''-''"
  by (auto simp: is_digit_def)

lemma show_word_no_dash: "CHR ''-'' \<notin> set (show_word w)"
  using show_nat_digits [of "unat w"] digit_not_dash
  by (auto simp: show_word_def list_all_iff)

section \<open>Containers\<close>

text \<open>
  A \<open>DashMap\<close> or \<open>HashMap\<close> is an association list with distinct keys. Its order stands for
  the unspecified iteration order of the hash map: every result is stated for all lists, so
  for every iteration order.
\<close>

type_synonym ('k, 'v) dashmap = "('k \<times> 'v) list"

definition dm_ok :: "('k, 'v) dashmap \<Rightarrow> bool" where
  "dm_ok m \<longleftrightarrow> distinct (map fst m)"

abbreviation dm_get :: "('k, 'v) dashmap \<Rightarrow> 'k \<Rightarrow> 'v option" where
  "dm_get m k \<equiv> map_of m k"

abbreviation dm_insert :: "'k \<Rightarrow> 'v \<Rightarrow> ('k, 'v) dashmap \<Rightarrow> ('k, 'v) dashmap" where
  "dm_insert k v m \<equiv> AList.update k v m"

abbreviation dm_remove :: "'k \<Rightarrow> ('k, 'v) dashmap \<Rightarrow> ('k, 'v) dashmap" where
  "dm_remove k m \<equiv> AList.delete k m"

abbreviation dm_values :: "('k, 'v) dashmap \<Rightarrow> 'v list" where
  "dm_values m \<equiv> map snd m"

lemma dm_get_insert [store_simps]: "dm_get (dm_insert k v m) = (dm_get m)(k \<mapsto> v)"
  by (rule update_conv')

lemma dm_get_remove [store_simps]: "dm_get (dm_remove k m) = (dm_get m)(k := None)"
  by (rule delete_conv')

lemma dm_ok_insert [wf_intros]: "dm_ok m \<Longrightarrow> dm_ok (dm_insert k v m)"
  by (simp add: dm_ok_def distinct_update)

lemma dm_ok_remove [wf_intros]: "dm_ok m \<Longrightarrow> dm_ok (dm_remove k m)"
  by (simp add: dm_ok_def distinct_delete)

lemma dm_ok_Nil [simp]: "dm_ok []"
  by (simp add: dm_ok_def)

lemma dm_length_card: "dm_ok m \<Longrightarrow> length m = card (dom (dm_get m))"
  using distinct_card [of "map fst m"] by (simp add: dm_ok_def dom_map_of_conv_image_fst)

lemma dm_get_mem: "dm_ok m \<Longrightarrow> (k, v) \<in> set m \<longleftrightarrow> dm_get m k = Some v"
  by (simp add: dm_ok_def)

text \<open>A \<open>BTreeMap\<close> is an association list sorted by strictly increasing key.\<close>

type_synonym ('k, 'v) btree = "('k \<times> 'v) list"

definition bt_ok :: "('k::linorder, 'v) btree \<Rightarrow> bool" where
  "bt_ok t \<longleftrightarrow> sorted_wrt (<) (map fst t)"

fun bt_put :: "'k::linorder \<Rightarrow> 'v \<Rightarrow> ('k, 'v) btree \<Rightarrow> ('k, 'v) btree" where
  "bt_put k v [] = [(k, v)]"
| "bt_put k v ((a, b) # t) =
     (if k < a then (k, v) # (a, b) # t
      else if k = a then (k, v) # t
      else (a, b) # bt_put k v t)"

definition bt_del :: "'k \<Rightarrow> ('k, 'v) btree \<Rightarrow> ('k, 'v) btree" where
  "bt_del k t = filter (\<lambda>p. fst p \<noteq> k) t"

lemma bt_get_put [store_simps]: "map_of (bt_put k v t) = (map_of t)(k \<mapsto> v)"
  by (induction k v t rule: bt_put.induct) (auto simp: fun_eq_iff)

lemma bt_keys_put: "set (map fst (bt_put k v t)) = insert k (set (map fst t))"
  by (induction k v t rule: bt_put.induct) auto

lemma bt_ok_put [wf_intros]: "bt_ok t \<Longrightarrow> bt_ok (bt_put k v t)"
proof (induction k v t rule: bt_put.induct)
  case (2 k v a b t)
  have keys: "fst ` set (bt_put k v t) = insert k (fst ` set t)"
    using bt_keys_put [of k v t] by simp
  from 2 show ?case
    by (auto simp: bt_ok_def keys intro: less_trans)
qed (simp add: bt_ok_def)

lemma bt_get_del [store_simps]: "map_of (bt_del k t) = (map_of t)(k := None)"
  by (induction t) (auto simp: bt_del_def fun_eq_iff)

lemma bt_ok_del [wf_intros]: "bt_ok t \<Longrightarrow> bt_ok (bt_del k t)"
  by (induction t) (auto simp: bt_ok_def bt_del_def)

lemma bt_ok_distinct: "bt_ok t \<Longrightarrow> distinct (map fst t)"
  by (auto simp: bt_ok_def strict_sorted_iff)

lemma bt_ok_tl: "bt_ok t \<Longrightarrow> bt_ok (tl t)"
  by (cases t) (auto simp: bt_ok_def)

lemma bt_tl_is_del: "bt_ok ((k, v) # t) \<Longrightarrow> bt_del k ((k, v) # t) = t"
  by (auto simp: bt_ok_def bt_del_def intro!: filter_True)

section \<open>Interfaces of the containers\<close>

text \<open>
  What the components rely on when they keep their state in a keyed container: a lookup
  sees exactly the inserts and removals made, and the size is the number of keys.
\<close>

locale kv_store =
  fixes get :: "'s \<Rightarrow> 'k \<Rightarrow> 'v option"
    and put :: "'k \<Rightarrow> 'v \<Rightarrow> 's \<Rightarrow> 's"
    and del :: "'k \<Rightarrow> 's \<Rightarrow> 's"
    and size_of :: "'s \<Rightarrow> nat"
    and inv :: "'s \<Rightarrow> bool"
  assumes get_put: "inv s \<Longrightarrow> get (put k v s) = (get s)(k \<mapsto> v)"
    and get_del: "inv s \<Longrightarrow> get (del k s) = (get s)(k := None)"
    and inv_put: "inv s \<Longrightarrow> inv (put k v s)"
    and inv_del: "inv s \<Longrightarrow> inv (del k s)"
    and size_card: "inv s \<Longrightarrow> size_of s = card (dom (get s))"
    and finite_dom: "inv s \<Longrightarrow> finite (dom (get s))"
begin

lemma size_put:
  "inv s \<Longrightarrow> size_of (put k v s) = (if get s k = None then Suc (size_of s) else size_of s)"
  by (auto simp: size_card inv_put get_put finite_dom insert_absorb domIff)

lemma size_put_le: "inv s \<Longrightarrow> size_of (put k v s) \<le> Suc (size_of s)"
  by (simp add: size_put)

lemma size_del:
  "inv s \<Longrightarrow> size_of (del k s) = (if get s k = None then size_of s else size_of s - 1)"
  by (auto simp: size_card inv_del get_del finite_dom domIff)

lemma size_del_present: "inv s \<Longrightarrow> get s k \<noteq> None \<Longrightarrow> Suc (size_of (del k s)) = size_of s"
  by (auto simp: size_card inv_del get_del finite_dom domI intro!: card_Suc_Diff1)

lemma size_pos_ex: "inv s \<Longrightarrow> 0 < size_of s \<Longrightarrow> \<exists>k. get s k \<noteq> None"
  by (metis card.empty domIff dom_eq_empty_conv less_numeral_extra(3) size_card)

end

text \<open>
  A store with a retention cap. \<open>shrink\<close> is the code's eviction loop: while the store is
  over its cap it removes the entry \<open>victim\<close> selects, which is one of least \<open>age\<close>. The
  loop therefore ends at the cap, keeps only entries that were there, and every evicted
  entry is no younger than every kept one.
\<close>

locale evicting_store = kv_store get put del size_of inv
  for get :: "'s \<Rightarrow> 'k \<Rightarrow> 'v option" and put del size_of and inv :: "'s \<Rightarrow> bool" +
  fixes cap :: nat
    and victim :: "'s \<Rightarrow> 'k option"
    and age :: "'k \<Rightarrow> 'v \<Rightarrow> 'a::linorder"
    and shrink :: "'s \<Rightarrow> 's"
  assumes victim_ex: "inv s \<Longrightarrow> 0 < size_of s \<Longrightarrow> \<exists>k v. victim s = Some k \<and> get s k = Some v"
    and victim_oldest: "inv s \<Longrightarrow> victim s = Some k \<Longrightarrow> get s k = Some v \<Longrightarrow>
      get s k' = Some v' \<Longrightarrow> age k v \<le> age k' v'"
    and shrink_step: "inv s \<Longrightarrow> cap < size_of s \<Longrightarrow> victim s = Some k \<Longrightarrow>
      shrink s = shrink (del k s)"
    and shrink_stop: "inv s \<Longrightarrow> size_of s \<le> cap \<Longrightarrow> shrink s = s"
begin

lemma shrink_induct [consumes 1, case_names stop step]:
  assumes "inv s"
    and stop: "\<And>s. inv s \<Longrightarrow> size_of s \<le> cap \<Longrightarrow> P s"
    and step: "\<And>s k v. inv s \<Longrightarrow> cap < size_of s \<Longrightarrow> victim s = Some k \<Longrightarrow>
      get s k = Some v \<Longrightarrow> shrink s = shrink (del k s) \<Longrightarrow> P (del k s) \<Longrightarrow> P s"
  shows "P s"
  using \<open>inv s\<close>
proof (induction "size_of s" arbitrary: s rule: less_induct)
  case less
  show ?case
  proof (cases "size_of s \<le> cap")
    case True
    with less.prems show ?thesis by (rule stop)
  next
    case False
    then obtain k v where kv: "victim s = Some k" "get s k = Some v"
      using victim_ex [OF less.prems] by auto
    have "size_of (del k s) < size_of s"
      using size_del_present [OF less.prems, of k] kv by simp
    then have "P (del k s)"
      using less.hyps inv_del [OF less.prems] by blast
    with False kv less.prems show ?thesis
      using step [OF less.prems _ kv shrink_step [OF less.prems _ kv(1)]] by simp
  qed
qed

lemma inv_shrink: "inv s \<Longrightarrow> inv (shrink s)"
  by (induction s rule: shrink_induct) (simp_all add: shrink_stop)

lemma size_shrink: "inv s \<Longrightarrow> size_of (shrink s) = min cap (size_of s)"
proof (induction s rule: shrink_induct)
  case (step s k v)
  then have "Suc (size_of (del k s)) = size_of s" by (simp add: size_del_present)
  with step show ?case by (simp add: min_def)
qed (simp add: shrink_stop)

lemma size_shrink_le: "inv s \<Longrightarrow> size_of (shrink s) \<le> cap"
  by (simp add: size_shrink)

lemma shrink_sub: "inv s \<Longrightarrow> get (shrink s) k = Some v \<Longrightarrow> get s k = Some v"
  by (induction s rule: shrink_induct) (auto simp: shrink_stop get_del split: if_splits)

lemma shrink_keeps_youngest:
  "inv s \<Longrightarrow> get s k = Some v \<Longrightarrow> get (shrink s) k = None \<Longrightarrow> get (shrink s) k' = Some v' \<Longrightarrow>
   age k v \<le> age k' v'"
proof (induction s rule: shrink_induct)
  case (step s j w)
  have "get (del j s) k' = Some v'"
    using step by (auto intro: shrink_sub [OF inv_del])
  then have k': "get s k' = Some v'"
    using step(1) by (simp add: get_del split: if_splits)
  show ?case
  proof (cases "k = j")
    case True
    with step k' show ?thesis using victim_oldest [of s j v k' v'] by simp
  next
    case False
    with step show ?thesis by (simp add: get_del)
  qed
qed (simp add: shrink_stop)

lemma shrink_id: "inv s \<Longrightarrow> size_of s \<le> cap \<Longrightarrow> get (shrink s) = get s"
  by (simp add: shrink_stop)

text \<open>One insert into a store within its cap evicts at most one entry.\<close>

lemma put_shrink_within:
  "inv s \<Longrightarrow> size_of s \<le> cap \<Longrightarrow> size_of s - size_of (shrink (put k v s)) \<le> 1"
  by (simp add: size_shrink inv_put size_put)

lemma youngest_survives:
  assumes "inv s" and "0 < cap" and "get s k = Some v"
    and "\<And>k' v'. get s k' = Some v' \<Longrightarrow> k' \<noteq> k \<Longrightarrow> age k' v' < age k v"
  shows "get (shrink s) k = Some v"
proof (rule ccontr)
  assume "get (shrink s) k \<noteq> Some v"
  then have gone: "get (shrink s) k = None"
    using shrink_sub [OF assms(1), of k] assms(3) by (cases "get (shrink s) k") auto
  have "0 < size_of (shrink s)"
    using assms(1-3) size_del_present [of s k] by (simp add: size_shrink)
  then obtain k' v' where k': "get (shrink s) k' = Some v'"
    using size_pos_ex [OF inv_shrink [OF assms(1)]] by auto
  have "age k v \<le> age k' v'"
    using shrink_keeps_youngest [OF assms(1,3) gone k'] .
  moreover have "age k' v' < age k v"
    using assms(4) shrink_sub [OF assms(1) k'] k' gone by fastforce
  ultimately show False by simp
qed

end

interpretation dm: kv_store dm_get dm_insert dm_remove length dm_ok
  by unfold_locales
    (simp_all only: dm_get_insert dm_get_remove dm_ok_insert dm_ok_remove dm_length_card
      finite_dom_map_of)

lemma bt_length_card: "bt_ok t \<Longrightarrow> length t = card (dom (map_of t))"
  using dm_length_card [of t] by (simp add: dm_ok_def bt_ok_distinct)

interpretation bt: kv_store map_of bt_put bt_del length bt_ok
  by unfold_locales
    (simp_all add: bt_get_put bt_get_del bt_ok_put bt_ok_del bt_length_card finite_dom_map_of)

section \<open>Interface of a reverse index\<close>

text \<open>
  A primary store from ids to values and an index from the slot a value occupies back to its
  id are \<open>linked\<close> when each determines the other.
\<close>

definition linked :: "('v \<Rightarrow> 'k) \<Rightarrow> ('i \<Rightarrow> 'v option) \<Rightarrow> ('k \<Rightarrow> 'i option) \<Rightarrow> bool" where
  "linked slot prim idx \<longleftrightarrow>
     (\<forall>i v. prim i = Some v \<longrightarrow> idx (slot v) = Some i) \<and>
     (\<forall>k i. idx k = Some i \<longrightarrow> (\<exists>v. prim i = Some v \<and> slot v = k))"

lemma linked_empty [simp]: "linked slot (\<lambda>_. None) (\<lambda>_. None)"
  by (simp add: linked_def)

lemma linked_slot_unique:
  "linked slot prim idx \<Longrightarrow> prim i = Some v \<Longrightarrow> prim j = Some w \<Longrightarrow> slot v = slot w \<Longrightarrow> i = j"
  by (metis linked_def option.inject)

lemma linked_remove:
  assumes "linked slot prim idx" and "prim i = Some v"
  shows "linked slot (prim(i := None)) (idx(slot v := None))"
proof -
  have "idx (slot v) = Some i" using assms by (simp add: linked_def)
  then show ?thesis
    using assms by (auto simp: linked_def split: if_splits) (metis option.inject)+
qed

lemma linked_insert:
  assumes "linked slot prim idx" and "prim i = None" and "idx (slot v) = None"
  shows "linked slot (prim(i \<mapsto> v)) (idx(slot v \<mapsto> i))"
  using assms by (auto simp: linked_def split: if_splits) force+

lemma linked_update:
  "linked slot prim idx \<Longrightarrow> prim i = Some v \<Longrightarrow> slot w = slot v \<Longrightarrow> linked slot (prim(i \<mapsto> w)) idx"
  by (auto simp: linked_def split: if_splits) (metis option.inject)

text \<open>
  What a component promises that keeps such a pair in its state: \<open>forget\<close> drops an id from
  the primary store together with the slot of its value.
\<close>

locale two_way_index =
  fixes prim :: "'s \<Rightarrow> 'i \<Rightarrow> 'v option"
    and idx :: "'s \<Rightarrow> 'k \<Rightarrow> 'i option"
    and slot :: "'v \<Rightarrow> 'k"
    and forget :: "'i \<Rightarrow> 's \<Rightarrow> 's"
  assumes prim_forget: "prim (forget i s) = (prim s)(i := None)"
    and idx_forget_None: "prim s i = None \<Longrightarrow> idx (forget i s) = idx s"
    and idx_forget_Some: "prim s i = Some v \<Longrightarrow> idx (forget i s) = (idx s)(slot v := None)"
begin

lemma linked_forget:
  "linked slot (prim s) (idx s) \<Longrightarrow> linked slot (prim (forget i s)) (idx (forget i s))"
  by (cases "prim s i")
    (simp_all add: prim_forget idx_forget_None idx_forget_Some linked_remove fun_upd_idem)

lemma linked_forget_all:
  "linked slot (prim s) (idx s) \<Longrightarrow> linked slot (prim (fold forget ids s)) (idx (fold forget ids s))"
  by (induction ids arbitrary: s) (simp_all add: linked_forget)

lemma prim_forget_all: "prim (fold forget ids s) = (\<lambda>i. if i \<in> set ids then None else prim s i)"
  by (induction ids arbitrary: s) (auto simp: prim_forget fun_eq_iff)

lemma forget_everything:
  assumes "linked slot (prim s) (idx s)" and "\<And>i. prim s i \<noteq> None \<Longrightarrow> i \<in> set ids"
  shows "prim (fold forget ids s) = (\<lambda>_. None) \<and> idx (fold forget ids s) = (\<lambda>_. None)"
proof -
  have "prim (fold forget ids s) = (\<lambda>_. None)"
    using assms(2) unfolding prim_forget_all fun_eq_iff by meson
  then show ?thesis
    using linked_forget_all [OF assms(1), of ids] by (auto simp: linked_def fun_eq_iff)
qed

end

section \<open>Interface of a state machine with an invariant\<close>

text \<open>
  A component driven by a list of commands: what its first state satisfies and every
  command keeps holds after any run.
\<close>

locale command_machine =
  fixes exec :: "'c \<Rightarrow> 's \<Rightarrow> 's"
    and inv :: "'s \<Rightarrow> bool"
  assumes exec_inv: "inv s \<Longrightarrow> inv (exec c s)"
begin

lemma run_inv: "inv s \<Longrightarrow> inv (fold exec cs s)"
  by (induction cs arbitrary: s) (simp_all add: exec_inv)

lemma run_prefix_inv: "inv s \<Longrightarrow> inv (fold exec (take n cs) s)"
  by (rule run_inv)

end

end
