(* ===== verification/Models.thy ===== *)
theory Models
  imports Prelude
begin

text \<open>
  The data model of \<open>src/src/models.rs\<close>: the wire enumerations with their \<open>Display\<close> and
  \<open>FromStr\<close>, the tracked-order and execution records, the bulk-order DTOs and permissions.
  The two records that carry arithmetic, \<open>PositionInfo\<close> and \<open>OhlcBar\<close>, have theories of
  their own (\<open>Position\<close>, \<open>Ohlc\<close>).
\<close>

section \<open>Enumerations\<close>

datatype order_side = Buy | Sell

datatype wire_style = WireCall | WirePut

datatype market_order_status = MarketFilled | MarketPartial | MarketRejected

datatype api_tif = ApiGtc | ApiIoc | ApiFok | ApiGtd

datatype limit_order_status = LimitAccepted | LimitFilled | LimitPartial | LimitRejected

datatype order_status = Pending | Active | Partial | Filled | Canceled

datatype order_tif = TrackedGtc | TrackedIoc | TrackedFok | TrackedGtd

datatype modify_status = Modified | ModifyRejected

datatype bulk_status = BulkAccepted | BulkRejected

datatype permission = PermRead | PermTrade | PermAdmin

datatype snapshot_depth = DepthTop | DepthLevels nat | DepthFull

fun order_side_display :: "order_side \<Rightarrow> string" where
  "order_side_display Buy = ''buy''"
| "order_side_display Sell = ''sell''"

fun wire_style_display :: "wire_style \<Rightarrow> string" where
  "wire_style_display WireCall = ''call''"
| "wire_style_display WirePut = ''put''"

fun market_order_status_display :: "market_order_status \<Rightarrow> string" where
  "market_order_status_display MarketFilled = ''filled''"
| "market_order_status_display MarketPartial = ''partial''"
| "market_order_status_display MarketRejected = ''rejected''"

fun api_tif_display :: "api_tif \<Rightarrow> string" where
  "api_tif_display ApiGtc = ''GTC''"
| "api_tif_display ApiIoc = ''IOC''"
| "api_tif_display ApiFok = ''FOK''"
| "api_tif_display ApiGtd = ''GTD''"

fun limit_order_status_display :: "limit_order_status \<Rightarrow> string" where
  "limit_order_status_display LimitAccepted = ''accepted''"
| "limit_order_status_display LimitFilled = ''filled''"
| "limit_order_status_display LimitPartial = ''partial''"
| "limit_order_status_display LimitRejected = ''rejected''"

fun order_status_display :: "order_status \<Rightarrow> string" where
  "order_status_display Pending = ''pending''"
| "order_status_display Active = ''active''"
| "order_status_display Partial = ''partial''"
| "order_status_display Filled = ''filled''"
| "order_status_display Canceled = ''canceled''"

definition order_status_from_str :: "string \<Rightarrow> string + order_status" where
  "order_status_from_str s =
     (let l = ascii_lower s in
      if l = ''pending'' then Inr Pending
      else if l = ''active'' then Inr Active
      else if l = ''partial'' then Inr Partial
      else if l = ''filled'' then Inr Filled
      else if l = ''canceled'' \<or> l = ''cancelled'' then Inr Canceled
      else Inl (''Invalid order status: '' @ s))"

fun order_tif_display :: "order_tif \<Rightarrow> string" where
  "order_tif_display TrackedGtc = ''GTC''"
| "order_tif_display TrackedIoc = ''IOC''"
| "order_tif_display TrackedFok = ''FOK''"
| "order_tif_display TrackedGtd = ''GTD''"

fun modify_status_display :: "modify_status \<Rightarrow> string" where
  "modify_status_display Modified = ''modified''"
| "modify_status_display ModifyRejected = ''rejected''"

definition snapshot_depth_from_str :: "string \<Rightarrow> string + snapshot_depth" where
  "snapshot_depth_from_str s =
     (let l = ascii_lower s in
      if l = ''top'' \<or> l = ''1'' then Inr DepthTop
      else if l = ''full'' \<or> l = ''all'' then Inr DepthFull
      else (case parse_usize l of
              Some n \<Rightarrow> Inr (DepthLevels n)
            | None \<Rightarrow> Inl (''invalid depth: '' @ l)))"

fun snapshot_depth_to_usize :: "snapshot_depth \<Rightarrow> nat" where
  "snapshot_depth_to_usize DepthTop = 1"
| "snapshot_depth_to_usize (DepthLevels n) = n"
| "snapshot_depth_to_usize DepthFull = 2 ^ 64 - 1"

section \<open>Requests and responses\<close>

record add_order_request =
  ao_side :: order_side
  ao_price :: u128
  ao_quantity :: u64
  ao_tif :: "api_tif option"
  ao_expire_at :: "string option"

record add_order_response =
  aor_order_id :: string
  aor_status :: limit_order_status
  aor_filled_quantity :: u64
  aor_remaining_quantity :: u64
  aor_message :: string

record cancel_order_response =
  cor_success :: bool
  cor_message :: string

record market_order_request =
  mo_side :: order_side
  mo_quantity :: u64

record fill_info =
  fi_price :: u128
  fi_quantity :: u64

record market_order_response =
  mor_order_id :: string
  mor_status :: market_order_status
  mor_filled_quantity :: u64
  mor_remaining_quantity :: u64
  mor_fills :: "fill_info list"

record modify_order_request =
  mod_price :: "u128 option"
  mod_quantity :: "u64 option"

record modify_order_response =
  modr_order_id :: string
  modr_status :: modify_status
  modr_new_price :: "u128 option"
  modr_new_quantity :: "u64 option"
  modr_priority_changed :: bool
  modr_message :: string

section \<open>Stored records\<close>

record last_trade_info =
  lt_symbol :: string
  lt_price :: u64
  lt_quantity :: u64
  lt_side :: order_side
  lt_timestamp_ms :: u64
  lt_trade_id :: string

record last_trade_response =
  ltr_symbol :: string
  ltr_price :: u64
  ltr_quantity :: u64
  ltr_side :: order_side
  ltr_timestamp_ms :: u64
  ltr_trade_id :: string

definition last_trade_response_from :: "last_trade_info \<Rightarrow> last_trade_response" where
  "last_trade_response_from i =
     \<lparr>ltr_symbol = lt_symbol i, ltr_price = lt_price i, ltr_quantity = lt_quantity i,
      ltr_side = lt_side i, ltr_timestamp_ms = lt_timestamp_ms i, ltr_trade_id = lt_trade_id i\<rparr>"

record order_fill_info =
  of_price :: u128
  of_quantity :: u64
  of_timestamp_ms :: u64

record order_info =
  oi_order_id :: string
  oi_symbol :: string
  oi_underlying :: string
  oi_expiration :: string
  oi_strike :: u64
  oi_style :: string
  oi_side :: order_side
  oi_price :: u128
  oi_original_quantity :: u64
  oi_remaining_quantity :: u64
  oi_filled_quantity :: u64
  oi_status :: order_status
  oi_tif :: order_tif
  oi_created_at_ms :: u64
  oi_updated_at_ms :: u64
  oi_fills :: "order_fill_info list"

record order_status_response =
  osr_order_id :: string
  osr_symbol :: string
  osr_side :: order_side
  osr_price :: u128
  osr_original_quantity :: u64
  osr_remaining_quantity :: u64
  osr_filled_quantity :: u64
  osr_status :: order_status
  osr_tif :: order_tif
  osr_created_at :: string
  osr_updated_at :: string
  osr_fills :: "order_fill_info list"

text \<open>
  \<open>rfc3339 ms\<close> stands for chrono's \<open>Utc.timestamp_millis_opt(ms).single().to_rfc3339()\<close>:
  \<open>None\<close> where chrono has no such instant. A time beyond \<open>i64\<close> also gives the empty string.
\<close>

definition format_ms :: "(i64 \<Rightarrow> string option) \<Rightarrow> u64 \<Rightarrow> string" where
  "format_ms rfc3339 ms =
     (case i64_try_from (uint ms) of
        None \<Rightarrow> []
      | Some t \<Rightarrow> (case rfc3339 t of None \<Rightarrow> [] | Some d \<Rightarrow> d))"

definition order_status_response_from ::
  "(i64 \<Rightarrow> string option) \<Rightarrow> order_info \<Rightarrow> order_status_response" where
  "order_status_response_from rfc3339 i =
     \<lparr>osr_order_id = oi_order_id i, osr_symbol = oi_symbol i, osr_side = oi_side i,
      osr_price = oi_price i, osr_original_quantity = oi_original_quantity i,
      osr_remaining_quantity = oi_remaining_quantity i,
      osr_filled_quantity = oi_filled_quantity i, osr_status = oi_status i, osr_tif = oi_tif i,
      osr_created_at = format_ms rfc3339 (oi_created_at_ms i),
      osr_updated_at = format_ms rfc3339 (oi_updated_at_ms i),
      osr_fills = oi_fills i\<rparr>"

record order_list_response =
  ol_orders :: "order_status_response list"
  ol_total :: nat
  ol_limit :: nat
  ol_offset :: nat

record order_list_query =
  olq_underlying :: "string option"
  olq_status :: "string option"
  olq_side :: "string option"
  olq_limit :: nat
  olq_offset :: nat

definition default_limit :: nat where
  "default_limit = 100"

record execution_info =
  ex_execution_id :: string
  ex_order_id :: string
  ex_symbol :: string
  ex_side :: order_side
  ex_price :: u64
  ex_quantity :: u64
  ex_timestamp_ms :: u64
  ex_counterparty :: "string option"
  ex_is_maker :: bool
  ex_fee :: u64
  ex_edge :: "i64 option"

record executions_query =
  eq_from :: "string option"
  eq_to :: "string option"
  eq_underlying :: "string option"
  eq_symbol :: "string option"
  eq_side :: "string option"
  eq_limit :: u64
  eq_offset :: u64

definition default_executions_limit :: u64 where
  "default_executions_limit = 1000"

section \<open>Bulk orders\<close>

record bulk_order_item =
  bi_underlying :: string
  bi_expiration :: string
  bi_strike :: u64
  bi_style :: wire_style
  bi_side :: order_side
  bi_price :: u128
  bi_quantity :: u64

record bulk_order_request =
  br_orders :: "bulk_order_item list"
  br_atomic :: bool

record bulk_result_item =
  bri_index :: nat
  bri_order_id :: "string option"
  bri_status :: bulk_status
  bri_error :: "string option"

record bulk_order_response =
  bor_success_count :: nat
  bor_failure_count :: nat
  bor_results :: "bulk_result_item list"
  bor_rolled_back :: bool
  bor_rollback_warnings :: "string list"

record bulk_cancel_result =
  bcr_order_id :: string
  bcr_canceled :: bool
  bcr_error :: "string option"

record bulk_cancel_response =
  bc_success_count :: nat
  bc_failure_count :: nat
  bc_results :: "bulk_cancel_result list"

record cancel_all_query =
  ca_underlying :: "string option"
  ca_expiration :: "string option"
  ca_side :: "string option"
  ca_style :: "string option"

record cancel_all_response =
  car_canceled_count :: nat
  car_failed_count :: nat

section \<open>Round trips\<close>

lemma ascii_lower_simps [simp]:
  "ascii_lower [] = []"
  "ascii_lower (c # s) = lower_char c # ascii_lower s"
  by (simp_all add: ascii_lower_def)

lemma ascii_lower_idem: "ascii_lower (ascii_lower s) = ascii_lower s"
proof -
  have "lower_char (lower_char c) = lower_char c" for c
    by (auto simp: lower_char_def Let_def of_char_of)
  then show ?thesis by (simp add: ascii_lower_def)
qed

end
