(* ===== verification/Errors.thy ===== *)
theory Errors
  imports Models
begin

text \<open>
  \<open>ApiError\<close> of \<open>src/src/error.rs\<close>: the error values every handler returns, their
  \<open>Display\<close> text and their HTTP response. A response is a status, headers and a body. The
  handlers of the other theories return \<open>api_error + 'a\<close>.
\<close>

datatype api_error =
    UnderlyingNotFound string
  | ExpirationNotFound string
  | StrikeNotFound u64
  | InvalidRequest string
  | Internal string
  | OrderBook string
  | Database string
  | NotFound string
  | Unauthorized string
  | Forbidden string
  | RateLimitExceeded (rl_limit: u32) (rl_remaining: u32) (rl_reset: u64) (rl_retry_after: u64)

fun api_error_display :: "api_error \<Rightarrow> string" where
  "api_error_display (UnderlyingNotFound s) = ''underlying not found: '' @ s"
| "api_error_display (ExpirationNotFound s) = ''expiration not found: '' @ s"
| "api_error_display (StrikeNotFound k) = ''strike not found: '' @ show_word k"
| "api_error_display (InvalidRequest s) = ''invalid request: '' @ s"
| "api_error_display (Internal s) = ''internal server error: '' @ s"
| "api_error_display (OrderBook s) = ''orderbook error: '' @ s"
| "api_error_display (Database s) = ''database error: '' @ s"
| "api_error_display (NotFound s) = ''not found: '' @ s"
| "api_error_display (Unauthorized s) = ''unauthorized: '' @ s"
| "api_error_display (Forbidden s) = ''forbidden: '' @ s"
| "api_error_display (RateLimitExceeded _ _ _ _) = ''rate limit exceeded''"

datatype resp_body =
    ErrorBody (eb_error: string) (eb_code: string)
  | RateLimitBody (rb_error: string) (rb_code: string) (rb_limit: u32) (rb_remaining: u32)
      (rb_reset: u64) (rb_retry_after: u64)
  | OtherBody string

record http_response =
  resp_status :: nat
  resp_headers :: "(string \<times> string) list"
  resp_body :: resp_body

text \<open>The detail of \<open>Internal\<close> and \<open>Database\<close> goes to the log only.\<close>

fun into_response :: "api_error \<Rightarrow> http_response" where
  "into_response (RateLimitExceeded l m r a) =
     \<lparr>resp_status = 429,
      resp_headers = [(''X-RateLimit-Limit'', show_word l), (''X-RateLimit-Remaining'', show_word m),
                      (''X-RateLimit-Reset'', show_word r), (''Retry-After'', show_word a)],
      resp_body = RateLimitBody ''Rate limit exceeded'' ''RATE_LIMIT_EXCEEDED'' l m r a\<rparr>"
| "into_response e =
     (let (status, code, err) =
        (case e of
           UnderlyingNotFound _ \<Rightarrow> (404, ''UNDERLYING_NOT_FOUND'', api_error_display e)
         | ExpirationNotFound _ \<Rightarrow> (404, ''EXPIRATION_NOT_FOUND'', api_error_display e)
         | StrikeNotFound _ \<Rightarrow> (404, ''STRIKE_NOT_FOUND'', api_error_display e)
         | InvalidRequest _ \<Rightarrow> (400, ''INVALID_REQUEST'', api_error_display e)
         | OrderBook _ \<Rightarrow> (400, ''ORDERBOOK_ERROR'', api_error_display e)
         | NotFound _ \<Rightarrow> (404, ''NOT_FOUND'', api_error_display e)
         | Unauthorized _ \<Rightarrow> (401, ''UNAUTHORIZED'', api_error_display e)
         | Forbidden _ \<Rightarrow> (403, ''FORBIDDEN'', api_error_display e)
         | Internal _ \<Rightarrow> (500, ''INTERNAL_ERROR'', ''internal server error'')
         | Database _ \<Rightarrow> (500, ''DATABASE_ERROR'', ''database error'')
         | RateLimitExceeded _ _ _ _ \<Rightarrow> (0, [], []))
      in \<lparr>resp_status = status, resp_headers = [], resp_body = ErrorBody err code\<rparr>)"

definition from_orderbook_error :: "string \<Rightarrow> api_error" where
  "from_orderbook_error display = OrderBook display"

definition is_5xx :: "http_response \<Rightarrow> bool" where
  "is_5xx r \<longleftrightarrow> 500 \<le> resp_status r \<and> resp_status r < 600"

text \<open>
  No internal detail reaches a client: a response is a 5xx exactly for \<open>Internal\<close> and
  \<open>Database\<close>, and then it is one of two fixed responses, whatever the detail string; every
  other error is a 4xx response.
\<close>

theorem server_errors_opaque:
  "(is_5xx (into_response e) \<longleftrightarrow> (\<exists>d. e = Internal d \<or> e = Database d))
   \<and> (is_5xx (into_response e) \<longrightarrow> into_response e = into_response (Internal [])
        \<or> into_response e = into_response (Database []))
   \<and> (\<not> is_5xx (into_response e) \<longrightarrow> 400 \<le> resp_status (into_response e) \<and> resp_status (into_response e) < 500)"
  by (cases e) (simp_all add: is_5xx_def)

lemma server_errors_opaque_witness:
  "resp_body (into_response (Database ''password of db-7'')) = ErrorBody ''database error'' ''DATABASE_ERROR''"
proof -
  have "is_5xx (into_response (Database ''password of db-7''))"
    by (simp add: is_5xx_def)
  with server_errors_opaque [of "Database ''password of db-7''"]
  have "into_response (Database ''password of db-7'') = into_response (Internal [])
      \<or> into_response (Database ''password of db-7'') = into_response (Database [])"
    by blast
  then show ?thesis by simp
qed

end
