(* ===== verification/Auth.thy ===== *)
theory Auth
  imports Errors "HOL-Library.Product_Lexorder"
begin

text \<open>
  \<open>src/src/auth.rs\<close>: the constant-time secret comparison, the JWT claims and their
  permissions, token minting and verification over a JWT library, and the sliding-window
  rate limiter with its tracked-key cap. The limiter's operations take the clock as an
  argument; one that reads it several times takes a function from the number of the read.
\<close>

section \<open>Secrets, claims and tokens\<close>

text \<open>The loop of \<open>constant_time_eq\<close>: every byte of the secret, and 0 beyond the candidate.\<close>

fun ct_loop :: "u8 \<Rightarrow> nat \<Rightarrow> u8 list \<Rightarrow> u8 list \<Rightarrow> u8" where
  "ct_loop diff i [] candidate = diff"
| "ct_loop diff i (expected # rest) candidate =
     (let actual = (if i < length candidate then candidate ! i else 0)
      in ct_loop (or diff (xor expected actual)) (Suc i) rest candidate)"

definition constant_time_eq :: "u8 list \<Rightarrow> u8 list \<Rightarrow> bool" where
  "constant_time_eq secret candidate =
     (ct_loop (if length secret = length candidate then 0 else 1) 0 secret candidate = 0)"

record claims =
  cl_sub :: string
  cl_iss :: string
  cl_iat :: u64
  cl_exp :: u64
  cl_permissions :: "permission list"

definition has_permission :: "claims \<Rightarrow> permission \<Rightarrow> bool" where
  "has_permission c p \<longleftrightarrow> p \<in> set (cl_permissions c) \<or> PermAdmin \<in> set (cl_permissions c)"

text \<open>
  The JWT library, with the server's keys and validation rules inside: signing may fail,
  and decoding gives the claims or the kind of the failure.
\<close>

datatype jwt_error = ExpiredSignature | InvalidIssuer | InvalidSignature | OtherJwtError

record jwt_lib =
  jwt_encode :: "claims \<Rightarrow> string option"
  jwt_decode :: "string \<Rightarrow> jwt_error + claims"

record jwt_auth =
  ja_lib :: jwt_lib
  ja_issuer :: string
  ja_default_ttl_secs :: u64

definition mint_token ::
  "jwt_auth \<Rightarrow> u64 \<Rightarrow> string \<Rightarrow> permission list \<Rightarrow> u64 \<Rightarrow> api_error + (string \<times> u64)" where
  "mint_token ja now uuid permissions ttl_secs =
     (case checked_add now ttl_secs of
        None \<Rightarrow> Inl (InvalidRequest ''token ttl overflow'')
      | Some expiry \<Rightarrow>
          (let c = \<lparr>cl_sub = uuid, cl_iss = ja_issuer ja, cl_iat = now, cl_exp = expiry,
                    cl_permissions = permissions\<rparr>
           in case jwt_encode (ja_lib ja) c of
                None \<Rightarrow> Inl (Internal ''failed to sign token'')
              | Some token \<Rightarrow> Inr (token, expiry)))"

fun verify_reason :: "jwt_error \<Rightarrow> string" where
  "verify_reason ExpiredSignature = ''expired token''"
| "verify_reason InvalidIssuer = ''invalid token issuer''"
| "verify_reason InvalidSignature = ''invalid token signature''"
| "verify_reason OtherJwtError = ''invalid token''"

definition verify_token :: "jwt_auth \<Rightarrow> string \<Rightarrow> api_error + claims" where
  "verify_token ja token =
     (case jwt_decode (ja_lib ja) token of
        Inr c \<Rightarrow> Inr c
      | Inl e \<Rightarrow> Inl (Unauthorized (verify_reason e)))"

section \<open>The rate limiter\<close>

definition rate_limit_window_ms :: u64 where "rate_limit_window_ms = 60000"
definition max_tracked_keys :: nat where "max_tracked_keys = 100000"
definition lru_sample_size :: nat where "lru_sample_size = 8"

record rate_limit_decision =
  rd_allowed :: bool
  rd_remaining :: u32
  rd_reset_secs :: u64

text \<open>\<open>tracked\<close> is an atomic \<open>usize\<close>; \<open>fetch_sub\<close> wraps at 0.\<close>

record rate_limiter =
  rl_windows :: "(string, u64 list) dashmap"
  rl_tracked :: nat

definition limiter_new :: rate_limiter where
  "limiter_new = \<lparr>rl_windows = [], rl_tracked = 0\<rparr>"

definition usize_fetch_sub :: "nat \<Rightarrow> nat" where
  "usize_fetch_sub n = (n + (2 ^ 64 - 1)) mod 2 ^ 64"

definition prune_window :: "u64 \<Rightarrow> u64 list \<Rightarrow> u64 list" where
  "prune_window window_start window = dropWhile (\<lambda>front. front < window_start) window"

definition prune_and_record ::
  "u64 list \<Rightarrow> u64 \<Rightarrow> u64 \<Rightarrow> u32 \<Rightarrow> u64 list \<times> rate_limit_decision" where
  "prune_and_record window now window_start limit =
     (let window = prune_window window_start window;
          allowed = length window < unat limit;
          window = (if allowed then window @ [now] else window);
          count = (if length window < 2 ^ 32 then word_of_nat (length window) else - 1);
          reset_ms = (case window of
                        [] \<Rightarrow> saturating_add now rate_limit_window_ms
                      | front # _ \<Rightarrow> saturating_add front rate_limit_window_ms)
      in (window, \<lparr>rd_allowed = allowed, rd_remaining = saturating_sub limit count,
                   rd_reset_secs = div_ceil reset_ms 1000\<rparr>))"

text \<open>\<open>sweep_expired\<close>: prune every bucket, drop the empty ones, resync the counter.\<close>

definition sweep_expired :: "u64 \<Rightarrow> rate_limiter \<Rightarrow> rate_limiter \<times> nat" where
  "sweep_expired now rl =
     (let window_start = saturating_sub now rate_limit_window_ms;
          before = length (rl_windows rl);
          windows = filter (\<lambda>(_, w). w \<noteq> [])
                      (map (\<lambda>(k, w). (k, prune_window window_start w)) (rl_windows rl))
      in (\<lparr>rl_windows = windows, rl_tracked = length windows\<rparr>, before - length windows))"

definition evict_key :: "u64 \<Rightarrow> u64 list \<Rightarrow> bool \<times> nat \<times> u64" where
  "evict_key window_start window =
     (let newest = (if window = [] then 0 else last window)
      in (newest \<ge> window_start, length (takeWhile (\<lambda>ts. ts \<ge> window_start) (rev window)), newest))"

definition evict_victim :: "u64 \<Rightarrow> string \<Rightarrow> (string, u64 list) dashmap \<Rightarrow> string option" where
  "evict_victim window_start exclude windows =
     (let sample = take lru_sample_size (filter (\<lambda>(k, _). k \<noteq> exclude) windows)
      in if sample = [] then None
         else Some (fst (arg_min_list (\<lambda>(_, w). evict_key window_start w) sample)))"

definition evict_idlest_of_sample :: "u64 \<Rightarrow> string \<Rightarrow> rate_limiter \<Rightarrow> rate_limiter" where
  "evict_idlest_of_sample now exclude rl =
     (let window_start = saturating_sub now rate_limit_window_ms
      in case evict_victim window_start exclude (rl_windows rl) of
           None \<Rightarrow> rl
         | Some key \<Rightarrow>
             (if dm_get (rl_windows rl) key \<noteq> None
              then \<lparr>rl_windows = dm_remove key (rl_windows rl),
                    rl_tracked = usize_fetch_sub (rl_tracked rl)\<rparr>
              else rl))"

text \<open>
  The admission loop: up to \<open>n\<close> tries to win a slot, reclaiming space between them. The
  clock reads of the two reclaim steps of a round are \<open>clock i\<close> and \<open>clock (i + 1)\<close>.
\<close>

fun admit_loop :: "nat \<Rightarrow> nat \<Rightarrow> (nat \<Rightarrow> u64) \<Rightarrow> string \<Rightarrow> rate_limiter \<Rightarrow> rate_limiter \<times> bool" where
  "admit_loop 0 i clock key rl = (rl, False)"
| "admit_loop (Suc n) i clock key rl =
     (if rl_tracked rl < max_tracked_keys
      then (rl\<lparr>rl_tracked := rl_tracked rl + 1\<rparr>, True)
      else (let (rl', swept) = sweep_expired (clock i) rl;
                rl'' = (if swept = 0 then evict_idlest_of_sample (clock (i + 1)) key rl' else rl')
            in admit_loop n (i + 2) clock key rl''))"

definition check_and_record_status ::
  "(nat \<Rightarrow> u64) \<Rightarrow> string \<Rightarrow> u32 \<Rightarrow> rate_limiter \<Rightarrow> rate_limiter \<times> rate_limit_decision" where
  "check_and_record_status clock key limit rl =
     (let now = clock 0;
          window_start = saturating_sub now rate_limit_window_ms
      in case dm_get (rl_windows rl) key of
           Some w \<Rightarrow>
             (let (w', d) = prune_and_record w now window_start limit
              in (rl\<lparr>rl_windows := dm_insert key w' (rl_windows rl)\<rparr>, d))
         | None \<Rightarrow>
             (let (rl, admitted) = admit_loop 3 1 clock key rl
              in if \<not> admitted
                 then (rl, \<lparr>rd_allowed = False, rd_remaining = 0,
                            rd_reset_secs = div_ceil (saturating_add now rate_limit_window_ms) 1000\<rparr>)
                 else (case dm_get (rl_windows rl) key of
                         Some w \<Rightarrow>
                           (let (w', d) = prune_and_record w now window_start limit
                            in (\<lparr>rl_windows = dm_insert key w' (rl_windows rl),
                                 rl_tracked = usize_fetch_sub (rl_tracked rl)\<rparr>, d))
                       | None \<Rightarrow>
                           (let (w', d) = prune_and_record [] now window_start limit
                            in (rl\<lparr>rl_windows := dm_insert key w' (rl_windows rl)\<rparr>, d)))))"

definition check_and_record :: "(nat \<Rightarrow> u64) \<Rightarrow> string \<Rightarrow> u32 \<Rightarrow> rate_limiter \<Rightarrow> rate_limiter \<times> bool" where
  "check_and_record clock key limit rl =
     (let (rl, d) = check_and_record_status clock key limit rl in (rl, rd_allowed d))"

definition limiter_clear :: "string \<Rightarrow> rate_limiter \<Rightarrow> rate_limiter" where
  "limiter_clear key rl = rl\<lparr>rl_windows := dm_remove key (rl_windows rl)\<rparr>"

section \<open>The comparison and the claims\<close>

lemma or_eq_0: "or a b = 0 \<longleftrightarrow> a = 0 \<and> b = 0" for a b :: "'a::len word"
  by (auto simp: bit_eq_iff bit_simps)

lemma xor_eq_0: "xor a b = 0 \<longleftrightarrow> a = b" for a b :: "'a::len word"
  by (auto simp: bit_eq_iff bit_simps)

lemma ct_loop_zero:
  "ct_loop diff i secret candidate = 0 \<longleftrightarrow>
     diff = 0 \<and> (\<forall>j < length secret.
        secret ! j = (if i + j < length candidate then candidate ! (i + j) else 0))"
proof (induction secret arbitrary: diff i)
  case (Cons e rest)
  show ?case
    by (simp add: Let_def Cons.IH or_eq_0 xor_eq_0 All_less_Suc2)
qed simp

lemma ct_eq_iff: "constant_time_eq secret candidate \<longleftrightarrow> secret = candidate"
  by (auto simp: constant_time_eq_def ct_loop_zero list_eq_iff_nth_eq)

lemma mint_token_Inr:
  assumes "mint_token ja now uuid perms ttl = Inr (token, expiry)"
  obtains c where "jwt_encode (ja_lib ja) c = Some token" "cl_permissions c = perms" "cl_sub c = uuid"
    "cl_iss c = ja_issuer ja" "cl_iat c = now" "cl_exp c = expiry" "uint expiry = uint now + uint ttl"
  using assms by (auto simp: mint_token_def Let_def checked_add_SomeD split: option.splits)

section \<open>The sliding window\<close>

definition window_start_of :: "u64 \<Rightarrow> u64" where
  "window_start_of now = saturating_sub now rate_limit_window_ms"

lemma window_start_mono: "a \<le> b \<Longrightarrow> window_start_of a \<le> window_start_of b"
  by (simp add: window_start_of_def word_le_def uint_saturating_sub)

lemma window_start_le: "window_start_of t \<le> t"
  by (simp add: window_start_of_def saturating_sub_le)

text \<open>
  Requests for one key at the given times: the window the limiter keeps, and the times it
  admitted.
\<close>

definition window_step :: "u32 \<Rightarrow> u64 list \<times> u64 list \<Rightarrow> u64 \<Rightarrow> u64 list \<times> u64 list" where
  "window_step limit = (\<lambda>(window, admitted) now.
     (let (window, d) = prune_and_record window now (window_start_of now) limit
      in (window, if rd_allowed d then admitted @ [now] else admitted)))"

definition window_run :: "u32 \<Rightarrow> u64 list \<Rightarrow> u64 list \<times> u64 list" where
  "window_run limit reqs = foldl (window_step limit) ([], []) reqs"

definition in_window :: "u64 \<Rightarrow> u64 list \<Rightarrow> u64 list" where
  "in_window t xs = filter (\<lambda>x. window_start_of t \<le> x \<and> x \<le> t) xs"

lemma prune_sorted: "sorted xs \<Longrightarrow> prune_window a xs = filter (\<lambda>x. a \<le> x) xs"
  by (induction xs) (auto simp: prune_window_def not_less intro!: filter_True [symmetric])

lemma prune_and_record_result:
  "rd_allowed (snd (prune_and_record w now ws limit)) \<longleftrightarrow> length (prune_window ws w) < unat limit"
  "fst (prune_and_record w now ws limit) =
     prune_window ws w @ (if length (prune_window ws w) < unat limit then [now] else [])"
  by (simp_all add: prune_and_record_def Let_def)

lemma window_step_result:
  "window_step limit (w, adm) now =
     (prune_window (window_start_of now) w @
        (if length (prune_window (window_start_of now) w) < unat limit then [now] else []),
      adm @ (if length (prune_window (window_start_of now) w) < unat limit then [now] else []))"
  using prune_and_record_result [of w now "window_start_of now" limit]
  by (cases "prune_and_record w now (window_start_of now) limit") (simp add: window_step_def)

lemma window_run_invariant:
  assumes "sorted reqs" and "window_run limit reqs = (w, adm)"
  shows "sorted adm \<and> set adm \<subseteq> set reqs \<and>
    (reqs \<noteq> [] \<longrightarrow> w = filter (\<lambda>x. window_start_of (last reqs) \<le> x) adm) \<and>
    (reqs = [] \<longrightarrow> w = []) \<and> length w \<le> unat limit"
  using assms
proof (induction reqs arbitrary: w adm rule: rev_induct)
  case Nil
  then show ?case by (simp add: window_run_def)
next
  case (snoc now reqs)
  obtain v ad where run: "window_run limit reqs = (v, ad)" by fastforce
  have srt: "sorted reqs" and late: "\<And>x. x \<in> set reqs \<Longrightarrow> x \<le> now"
    using snoc.prems(1) by (auto simp: sorted_append)
  note IH = snoc.IH [OF srt run]
  let ?ws = "window_start_of now"
  let ?p = "filter (\<lambda>x. ?ws \<le> x) ad"
  have v_sorted: "sorted v" using IH by (cases "reqs = []") (auto simp: sorted_wrt_filter)
  have "prune_window ?ws v = ?p"
  proof (cases "reqs = []")
    case True
    with IH show ?thesis by (auto simp: prune_window_def)
  next
    case False
    then have "window_start_of (last reqs) \<le> ?ws"
      using late by (intro window_start_mono) simp
    then show ?thesis
      using IH False v_sorted by (auto simp: prune_sorted intro!: filter_cong)
  qed
  then have step: "w = ?p @ (if length ?p < unat limit then [now] else [])"
      "adm = ad @ (if length ?p < unat limit then [now] else [])"
    using snoc.prems(2) run by (simp_all add: window_run_def window_step_result split: if_splits)
  have "length ?p \<le> length v"
    using \<open>prune_window ?ws v = ?p\<close> by (metis length_dropWhile_le prune_window_def)
  then have "length w \<le> unat limit" using step IH by auto
  moreover have "sorted adm" and "set adm \<subseteq> set (reqs @ [now])"
    using step IH late by (auto simp: sorted_append)
  moreover have "w = filter (\<lambda>x. ?ws \<le> x) adm"
    using step window_start_le by simp
  ultimately show ?case by simp
qed

lemma window_run_limit:
  assumes "sorted reqs"
  shows "length (in_window t (snd (window_run limit reqs))) \<le> unat limit"
  using assms
proof (induction reqs rule: rev_induct)
  case Nil
  show ?case by (simp add: window_run_def in_window_def)
next
  case (snoc now reqs)
  obtain v ad where run: "window_run limit reqs = (v, ad)" by fastforce
  obtain w adm where run': "window_run limit (reqs @ [now]) = (w, adm)" by fastforce
  have srt: "sorted reqs" using snoc.prems by (simp add: sorted_append)
  have IH: "length (in_window t ad) \<le> unat limit" using snoc.IH [OF srt] run by simp
  have adm: "adm = ad \<or> adm = ad @ [now]"
    using run run' by (simp add: window_run_def window_step_result split: if_splits)
  show ?case
  proof (cases "adm = ad @ [now] \<and> now \<le> t")
    case False
    with adm have "in_window t adm = in_window t ad" by (auto simp: in_window_def)
    with IH run' show ?thesis by simp
  next
    case True
    then have "window_start_of now \<le> window_start_of t" by (intro window_start_mono) simp
    then have "length (in_window t adm) \<le> length (filter (\<lambda>x. window_start_of now \<le> x) adm)"
      unfolding in_window_def
      by (induction adm) auto
    moreover have "w = filter (\<lambda>x. window_start_of now \<le> x) adm \<and> length w \<le> unat limit"
      using window_run_invariant [OF snoc.prems run'] by (simp only: last_snoc) blast
    ultimately show ?thesis using run' by (metis order_trans snd_conv)
  qed
qed

section \<open>The tracked-key cap\<close>

definition limiter_ok :: "rate_limiter \<Rightarrow> bool" where
  "limiter_ok rl \<longleftrightarrow> dm_ok (rl_windows rl) \<and> rl_tracked rl = length (rl_windows rl)
     \<and> rl_tracked rl \<le> max_tracked_keys"

lemma usize_fetch_sub_pos: "0 < n \<Longrightarrow> n < 2 ^ 64 \<Longrightarrow> usize_fetch_sub n = n - 1"
proof -
  assume n: "0 < n" "n < 2 ^ 64"
  then have "n + (2 ^ 64 - 1) = (n - 1) + 2 ^ 64" by simp
  then have "usize_fetch_sub n = ((n - 1) + 2 ^ 64) mod 2 ^ 64"
    by (simp only: usize_fetch_sub_def)
  also have "\<dots> = (n - 1) mod 2 ^ 64" by (rule mod_add_self2)
  also have "\<dots> = n - 1" using n by (intro mod_less) linarith
  finally show ?thesis .
qed

lemma sweep_windows:
  assumes "dm_ok (rl_windows rl)"
  shows "dm_ok (rl_windows (fst (sweep_expired now rl)))"
    and "set (map fst (rl_windows (fst (sweep_expired now rl)))) \<subseteq> set (map fst (rl_windows rl))"
    and "length (rl_windows (fst (sweep_expired now rl))) \<le> length (rl_windows rl)"
    and "rl_tracked (fst (sweep_expired now rl)) = length (rl_windows (fst (sweep_expired now rl)))"
    and "snd (sweep_expired now rl) =
      length (rl_windows rl) - length (rl_windows (fst (sweep_expired now rl)))"
proof -
  let ?f = "\<lambda>(k, w). (k, prune_window (saturating_sub now rate_limit_window_ms) w)"
  have keys: "map fst (map ?f (rl_windows rl)) = map fst (rl_windows rl)"
    by (induction "rl_windows rl") auto
  have w: "rl_windows (fst (sweep_expired now rl)) =
      filter (\<lambda>(_, w). w \<noteq> []) (map ?f (rl_windows rl))"
    by (simp add: sweep_expired_def Let_def)
  show "dm_ok (rl_windows (fst (sweep_expired now rl)))"
    using assms unfolding w dm_ok_def by (intro distinct_map_filter) (simp only: keys)
  show "set (map fst (rl_windows (fst (sweep_expired now rl)))) \<subseteq> set (map fst (rl_windows rl))"
    unfolding w by force
  show "length (rl_windows (fst (sweep_expired now rl))) \<le> length (rl_windows rl)"
    unfolding w by (metis length_filter_le length_map)
  show "rl_tracked (fst (sweep_expired now rl)) = length (rl_windows (fst (sweep_expired now rl)))"
      "snd (sweep_expired now rl) =
      length (rl_windows rl) - length (rl_windows (fst (sweep_expired now rl)))"
    by (simp_all add: sweep_expired_def Let_def)
qed

lemma limiter_ok_sweep [wf_intros]: "limiter_ok rl \<Longrightarrow> limiter_ok (fst (sweep_expired now rl))"
  using sweep_windows [of rl now] by (auto simp: limiter_ok_def)

lemma arg_min_list_mem: "xs \<noteq> [] \<Longrightarrow> arg_min_list f xs \<in> set xs"
  by (rule arg_min_list_in)

lemma evict_removes_one:
  fixes now :: u64
  assumes ok: "limiter_ok rl" and new: "dm_get (rl_windows rl) key = None" and ne: "rl_windows rl \<noteq> []"
  defines "rl' \<equiv> evict_idlest_of_sample now key rl"
  shows "limiter_ok rl' \<and> Suc (rl_tracked rl') = rl_tracked rl \<and> dm_get (rl_windows rl') key = None"
proof -
  let ?ws = "saturating_sub now rate_limit_window_ms"
  let ?sample = "take lru_sample_size (filter (\<lambda>(k, _). k \<noteq> key) (rl_windows rl))"
  have "filter (\<lambda>(k, _). k \<noteq> key) (rl_windows rl) = rl_windows rl"
    using new by (force simp: map_of_eq_None_iff intro!: filter_True)
  then have sample: "?sample \<noteq> []" "set ?sample \<subseteq> set (rl_windows rl)"
    using ne set_take_subset [of lru_sample_size "rl_windows rl"] by (simp_all add: lru_sample_size_def)
  let ?v = "arg_min_list (\<lambda>(_, w). evict_key ?ws w) ?sample"
  have v: "?v \<in> set (rl_windows rl)" using arg_min_list_mem [OF sample(1)] sample(2) by blast
  have victim: "evict_victim ?ws key (rl_windows rl) = Some (fst ?v)"
    using sample(1) by (simp add: evict_victim_def Let_def)
  have dm: "dm_ok (rl_windows rl)" using ok by (simp add: limiter_ok_def)
  have hit: "dm_get (rl_windows rl) (fst ?v) = Some (snd ?v)"
    using v by (simp add: dm_get_mem [OF dm, symmetric])
  have rl': "rl' = \<lparr>rl_windows = dm_remove (fst ?v) (rl_windows rl),
      rl_tracked = usize_fetch_sub (rl_tracked rl)\<rparr>"
    by (simp add: rl'_def evict_idlest_of_sample_def Let_def victim hit)
  have len: "Suc (length (dm_remove (fst ?v) (rl_windows rl))) = length (rl_windows rl)"
    using dm.size_del_present [OF dm, of "fst ?v"] hit by simp
  have "usize_fetch_sub (rl_tracked rl) = rl_tracked rl - 1"
    using ok ne by (intro usize_fetch_sub_pos) (auto simp: limiter_ok_def max_tracked_keys_def)
  then show ?thesis
    using ok len new by (auto simp: rl' limiter_ok_def dm_ok_remove dm_get_remove)
qed

definition admit_ready :: "string \<Rightarrow> rate_limiter \<Rightarrow> bool" where
  "admit_ready key rl \<longleftrightarrow> dm_ok (rl_windows rl) \<and> rl_tracked rl = Suc (length (rl_windows rl))
     \<and> rl_tracked rl \<le> max_tracked_keys \<and> dm_get (rl_windows rl) key = None"

lemma admit_loop_below_cap:
  assumes "limiter_ok rl" "dm_get (rl_windows rl) key = None" "rl_tracked rl < max_tracked_keys"
  shows "\<exists>rl'. admit_loop (Suc n) i clock key rl = (rl', True) \<and> admit_ready key rl'"
  using assms by (auto simp: limiter_ok_def admit_ready_def)

lemma admit_loop_wins:
  assumes ok: "limiter_ok rl" and new: "dm_get (rl_windows rl) key = None"
  shows "\<exists>rl'. admit_loop (Suc (Suc n)) i clock key rl = (rl', True) \<and> admit_ready key rl'"
proof (cases "rl_tracked rl < max_tracked_keys")
  case True
  with assms show ?thesis by (rule admit_loop_below_cap)
next
  case False
  obtain r1 swept where sw: "sweep_expired (clock i) rl = (r1, swept)" by fastforce
  have dm: "dm_ok (rl_windows rl)" using ok by (simp add: limiter_ok_def)
  note facts = sweep_windows [OF dm, of "clock i", unfolded sw fst_conv snd_conv]
  have ok1: "limiter_ok r1" using limiter_ok_sweep [OF ok, of "clock i"] sw by simp
  have new1: "dm_get (rl_windows r1) key = None"
    using facts(2) new by (auto simp: map_of_eq_None_iff)
  let ?r2 = "if swept = 0 then evict_idlest_of_sample (clock (i + 1)) key r1 else r1"
  have r2: "limiter_ok ?r2 \<and> dm_get (rl_windows ?r2) key = None \<and> rl_tracked ?r2 < max_tracked_keys"
  proof (cases "swept = 0")
    case True
    then have len: "length (rl_windows r1) = length (rl_windows rl)"
      using facts(3,5) by simp
    then have "rl_windows r1 \<noteq> []"
      using ok False by (auto simp: limiter_ok_def max_tracked_keys_def)
    from evict_removes_one [OF ok1 new1 this, of "clock (i + 1)"] ok1 True show ?thesis
      by (auto simp: limiter_ok_def)
  next
    case swept: False
    then have "length (rl_windows r1) < length (rl_windows rl)"
      using facts(5) by simp
    with swept ok ok1 new1 show ?thesis by (auto simp: limiter_ok_def)
  qed
  have "admit_loop (Suc (Suc n)) i clock key rl = admit_loop (Suc n) (i + 2) clock key ?r2"
    using False sw by (simp add: Let_def del: admit_loop.simps(1))
  then show ?thesis
    using admit_loop_below_cap [of ?r2 key n "i + 2" clock] r2 by simp
qed

text \<open>Both branches of an admission, in one equation each.\<close>

lemma check_known_key:
  assumes "limiter_ok rl" "dm_get (rl_windows rl) key = Some w"
    and "prune_and_record w (clock 0) (window_start_of (clock 0)) limit = (w', d)"
  shows "check_and_record_status clock key limit rl =
    (rl\<lparr>rl_windows := dm_insert key w' (rl_windows rl)\<rparr>, d)"
  using assms by (simp add: check_and_record_status_def Let_def window_start_of_def)

lemma check_new_key:
  assumes "limiter_ok rl" "dm_get (rl_windows rl) key = None"
    and "prune_and_record [] (clock 0) (window_start_of (clock 0)) limit = (w', d)"
  shows "\<exists>r. admit_ready key r \<and> check_and_record_status clock key limit rl =
    (r\<lparr>rl_windows := dm_insert key w' (rl_windows r)\<rparr>, d)"
proof -
  obtain r where "admit_loop 3 1 clock key rl = (r, True)" "admit_ready key r"
    using admit_loop_wins [OF assms(1,2), of 1 1 clock] by (auto simp: numeral_3_eq_3)
  then show ?thesis
    using assms by (auto simp: check_and_record_status_def Let_def window_start_of_def admit_ready_def)
qed

lemma limiter_ok_insert_known:
  "limiter_ok rl \<Longrightarrow> dm_get (rl_windows rl) key = Some w \<Longrightarrow>
   limiter_ok (rl\<lparr>rl_windows := dm_insert key w' (rl_windows rl)\<rparr>)"
  using dm.size_put [of "rl_windows rl" key w'] by (auto simp: limiter_ok_def dm_ok_insert)

lemma limiter_ok_insert_new:
  "admit_ready key rl \<Longrightarrow> limiter_ok (rl\<lparr>rl_windows := dm_insert key w' (rl_windows rl)\<rparr>)"
  using dm.size_put [of "rl_windows rl" key w'] by (auto simp: limiter_ok_def admit_ready_def dm_ok_insert)

section \<open>Properties\<close>

text \<open>The constant-time comparison decides equality of the secret and the candidate.\<close>

theorem constant_time_eq_correct: "constant_time_eq secret candidate \<longleftrightarrow> secret = candidate"
  by (rule ct_eq_iff)



text \<open>
  The sliding window refuses nothing it could admit: a request is admitted exactly when
  fewer than \<open>limit\<close> earlier requests were admitted in the window ending at it.
\<close>

theorem rate_limit_window_exact:
  assumes "sorted (reqs @ [now])"
  shows "snd (window_run limit (reqs @ [now])) =
    (let adm = snd (window_run limit reqs)
     in if length (in_window now adm) < unat limit then adm @ [now] else adm)"
proof -
  obtain v ad where run: "window_run limit reqs = (v, ad)" by fastforce
  have srt: "sorted reqs" and late: "\<And>x. x \<in> set reqs \<Longrightarrow> x \<le> now"
    using assms by (auto simp: sorted_append)
  note inv = window_run_invariant [OF srt run]
  have pruned: "prune_window (window_start_of now) v = in_window now ad"
  proof (cases "reqs = []")
    case True
    with inv show ?thesis by (auto simp: prune_window_def in_window_def)
  next
    case False
    then have le: "window_start_of (last reqs) \<le> window_start_of now"
      using late by (intro window_start_mono) simp
    have v: "v = filter (\<lambda>x. window_start_of (last reqs) \<le> x) ad" and sub: "set ad \<subseteq> set reqs"
        and "sorted ad"
      using inv False by simp_all
    then have "sorted v" by (simp add: sorted_wrt_filter)
    then have "prune_window (window_start_of now) v =
        filter (\<lambda>x. window_start_of (last reqs) \<le> x \<and> window_start_of now \<le> x) ad"
      using v by (simp add: prune_sorted conj_commute)
    also have "\<dots> = in_window now ad"
      unfolding in_window_def using le sub late by (intro filter_cong) auto
    finally show ?thesis .
  qed
  show ?thesis
    using run pruned by (simp add: window_run_def window_step_result Let_def)
qed

lemma rate_limit_window_exact_witness:
  "snd (window_run 1 ([1000] @ [62000])) = [1000, 62000] \<and> snd (window_run 1 ([1000] @ [61000])) = [1000]"
proof -
  have one: "snd (window_run 1 [1000]) = [1000]"
    by (simp add: window_run_def window_step_result prune_window_def)
  have "window_start_of 62000 = 2000" "window_start_of 61000 = 1000"
    by (simp_all add: window_start_of_def saturating_sub_def rate_limit_window_ms_def)
  then show ?thesis
    using rate_limit_window_exact [of "[1000]" 62000 1] rate_limit_window_exact [of "[1000]" 61000 1]
    by (simp add: one in_window_def)
qed

text \<open>
  The tracked-key cap: a rate-limit check keeps the number of buckets equal to the
  admission counter and at most 100000, and still never refuses a request for lack of
  space: the decision is the sliding-window decision of the key's own bucket (empty for a
  new key), because a full map always yields a slot by sweeping or by evicting one bucket.
\<close>

theorem rate_limiter_bounded_and_available:
  assumes "limiter_ok rl"
  shows "limiter_ok (fst (check_and_record_status clock key limit rl))
    \<and> snd (check_and_record_status clock key limit rl) =
        snd (prune_and_record (case dm_get (rl_windows rl) key of Some w \<Rightarrow> w | None \<Rightarrow> [])
               (clock 0) (window_start_of (clock 0)) limit)"
proof (cases "dm_get (rl_windows rl) key")
  case None
  obtain w' d where p: "prune_and_record [] (clock 0) (window_start_of (clock 0)) limit = (w', d)"
    by fastforce
  show ?thesis
    using check_new_key [of rl key clock limit w' d] assms None p
    by (auto simp: limiter_ok_insert_new)
next
  case (Some w)
  obtain w' d where p: "prune_and_record w (clock 0) (window_start_of (clock 0)) limit = (w', d)"
    by fastforce
  show ?thesis
    using check_known_key [of rl key w clock limit w' d] assms Some p
    by (auto simp: limiter_ok_insert_known)
qed

lemma rate_limiter_bounded_and_available_witness:
  "rd_allowed (snd (check_and_record_status (\<lambda>_. 100000) ''alice'' 5 limiter_new))"
  using rate_limiter_bounded_and_available [of limiter_new "\<lambda>_. 100000" "''alice''" 5]
  by (simp add: limiter_ok_def limiter_new_def prune_and_record_result prune_window_def)

text \<open>
  A minted token verifies as itself: with a JWT library that decodes what it encoded
  while the token is unexpired, a token minted for a lifetime decodes to the requested
  permissions, the server's issuer and the expiry the caller was told.
\<close>

theorem mint_verify_roundtrip:
  assumes "mint_token ja now uuid perms ttl = Inr (token, expiry)"
    and "\<And>c tok. jwt_encode (ja_lib ja) c = Some tok \<Longrightarrow> cl_iss c = ja_issuer ja \<Longrightarrow>
      clock \<le> cl_exp c \<Longrightarrow> jwt_decode (ja_lib ja) tok = Inr c"
    and "clock \<le> expiry"
  shows "\<exists>c. verify_token ja token = Inr c \<and> cl_permissions c = perms \<and> cl_sub c = uuid
    \<and> cl_iss c = ja_issuer ja \<and> cl_exp c = expiry \<and> uint expiry = uint now + uint ttl
    \<and> (\<forall>p. has_permission c p \<longleftrightarrow> p \<in> set perms \<or> PermAdmin \<in> set perms)"
  using assms
  by (auto simp: mint_token_def verify_token_def has_permission_def Let_def checked_add_SomeD
      split: option.splits)

definition demo_jwt :: jwt_lib where
  "demo_jwt = \<lparr>jwt_encode = (\<lambda>c. if cl_permissions c = [PermRead] \<and> cl_iat c = 5 \<and> cl_exp c = 15
                                  \<and> cl_sub c = ''u'' \<and> cl_iss c = ''me'' then Some ''t'' else None),
               jwt_decode = (\<lambda>t. if t = ''t'' then Inr \<lparr>cl_sub = ''u'', cl_iss = ''me'', cl_iat = 5,
                                  cl_exp = 15, cl_permissions = [PermRead]\<rparr> else Inl OtherJwtError)\<rparr>"

lemma mint_verify_roundtrip_witness:
  "\<exists>c. verify_token \<lparr>ja_lib = demo_jwt, ja_issuer = ''me'', ja_default_ttl_secs = 1\<rparr> ''t'' = Inr c
     \<and> \<not> has_permission c PermTrade"
proof -
  let ?ja = "\<lparr>ja_lib = demo_jwt, ja_issuer = ''me'', ja_default_ttl_secs = 1\<rparr>"
  have "mint_token ?ja 5 ''u'' [PermRead] 10 = Inr (''t'', 15)"
    by (simp add: mint_token_def checked_add_def demo_jwt_def)
  then have "\<exists>c. verify_token ?ja ''t'' = Inr c \<and> cl_permissions c = [PermRead] \<and> cl_sub c = ''u''
    \<and> cl_iss c = ja_issuer ?ja \<and> cl_exp c = 15 \<and> uint (15 :: u64) = uint (5 :: u64) + uint (10 :: u64)
    \<and> (\<forall>p. has_permission c p \<longleftrightarrow> p \<in> set [PermRead] \<or> PermAdmin \<in> set [PermRead])"
    by (rule mint_verify_roundtrip [where clock = 0]) (auto simp: demo_jwt_def split: if_splits)
  then show ?thesis by auto
qed

end
