(* ===== verification/Gateway.thy ===== *)
theory Gateway
  imports Auth
begin

text \<open>
  The request gate: \<open>src/src/api/middleware.rs\<close> (authentication, rate limiting and per-route
  permissions), the route table of \<open>src/src/api/routes.rs\<close> and the token endpoint
  \<open>issue_token\<close> of \<open>src/src/api/handlers.rs\<close>. The handler behind the gate is an argument that
  works on a state of its own, so that whether it ran can be observed.
\<close>

section \<open>Requests\<close>

text \<open>
  The parts of a request the gate reads. A header is \<open>None\<close> when it is absent or is not
  visible ASCII; \<open>rq_peer_ip\<close> is the address in the \<open>ConnectInfo\<close> extension.
\<close>

record http_request =
  rq_method :: string
  rq_path :: string
  rq_query :: "string option"
  rq_authorization :: "string option"
  rq_forwarded_for :: "string option"
  rq_real_ip :: "string option"
  rq_peer_ip :: "string option"

definition default_rate_limit :: u32 where "default_rate_limit = 100"
definition token_issue_rate_limit :: u32 where "token_issue_rate_limit = 10"
definition health_path :: string where "health_path = ''/health''"
definition token_path :: string where "token_path = ''/api/v1/auth/token''"

definition now_secs :: "u64 \<Rightarrow> u64" where
  "now_secs now_ms = div_ceil now_ms 1000"

definition trim_slashes :: "string \<Rightarrow> string" where
  "trim_slashes s =
     rev (dropWhile (\<lambda>c. c = CHR ''/'') (rev (dropWhile (\<lambda>c. c = CHR ''/'') s)))"

definition is_underlying_root :: "string \<Rightarrow> bool" where
  "is_underlying_root path =
     (let segments = split_on (CHR ''/'') (trim_slashes path)
      in length segments = 4 \<and> segments ! 0 = ''api'' \<and> segments ! 1 = ''v1''
         \<and> segments ! 2 = ''underlyings'' \<and> segments ! 3 \<noteq> [])"

definition required_permission :: "string \<Rightarrow> string \<Rightarrow> permission" where
  "required_permission meth path =
     (if starts_with ''/api/v1/controls'' path \<or> starts_with ''/api/v1/admin'' path then PermAdmin
      else if meth = ''DELETE'' \<and> is_underlying_root path then PermAdmin
      else if meth = ''GET'' \<or> meth = ''HEAD'' \<or> meth = ''OPTIONS'' then PermRead
      else PermTrade)"

fun token_param :: "string list \<Rightarrow> string option" where
  "token_param [] = None"
| "token_param (pair # rest) =
     (case strip_prefix_str ''token='' pair of
        Some value \<Rightarrow> if value \<noteq> [] then Some value else token_param rest
      | None \<Rightarrow> token_param rest)"

definition query_token :: "http_request \<Rightarrow> string option" where
  "query_token rq = (case rq_query rq of
     Some query \<Rightarrow> token_param (split_on (CHR ''&'') query) | None \<Rightarrow> None)"

definition extract_token :: "http_request \<Rightarrow> string option" where
  "extract_token rq =
     (case Option.bind (rq_authorization rq) (strip_prefix_str ''Bearer '') of
        Some rest \<Rightarrow> if trim rest \<noteq> [] then Some (trim rest) else query_token rq
      | None \<Rightarrow> query_token rq)"

definition real_ip :: "http_request \<Rightarrow> string option" where
  "real_ip rq = (case rq_real_ip rq of
     Some value \<Rightarrow> if trim value \<noteq> [] then Some (trim value) else None | None \<Rightarrow> None)"

definition forwarded_ip :: "http_request \<Rightarrow> string option" where
  "forwarded_ip rq =
     (case rq_forwarded_for rq of
        Some value \<Rightarrow>
          (let ip = trim (hd (split_on (CHR '','') value))
           in if ip \<noteq> [] then Some ip else real_ip rq)
      | None \<Rightarrow> real_ip rq)"

definition token_rate_limit_key :: "http_request \<Rightarrow> bool \<Rightarrow> api_error + string" where
  "token_rate_limit_key rq trust_proxy =
     (case (if trust_proxy then forwarded_ip rq else None) of
        Some ip \<Rightarrow> Inr (''token_issue:fwd:'' @ ip)
      | None \<Rightarrow>
          (case rq_peer_ip rq of
             Some addr \<Rightarrow> Inr (''token_issue:peer:'' @ addr)
           | None \<Rightarrow> Inl (Internal ''token endpoint peer address unavailable'')))"

definition rate_limited_response :: "u64 \<Rightarrow> u32 \<Rightarrow> rate_limit_decision \<Rightarrow> http_response" where
  "rate_limited_response now_ms limit d =
     into_response (RateLimitExceeded limit (rd_remaining d) (rd_reset_secs d)
       (saturating_sub (rd_reset_secs d) (now_secs now_ms)))"

definition add_rate_limit_headers :: "http_response \<Rightarrow> u32 \<Rightarrow> rate_limit_decision \<Rightarrow> http_response" where
  "add_rate_limit_headers r limit d =
     r\<lparr>resp_headers :=
        dm_insert ''X-RateLimit-Reset'' (show_word (rd_reset_secs d))
          (dm_insert ''X-RateLimit-Remaining'' (show_word (rd_remaining d))
            (dm_insert ''X-RateLimit-Limit'' (show_word limit) (resp_headers r)))\<rparr>"

fun permission_debug :: "permission \<Rightarrow> string" where
  "permission_debug PermRead = ''Read''"
| "permission_debug PermTrade = ''Trade''"
| "permission_debug PermAdmin = ''Admin''"

text \<open>
  The middleware. \<open>clock\<close> gives the limiter's clock reads, \<open>after\<close> the later read of
  \<open>rate_limited_response\<close>; \<open>run_handler\<close> is \<open>next.run\<close>, given the claims injected into the
  request's extensions.
\<close>

definition auth_middleware ::
  "jwt_auth \<Rightarrow> bool \<Rightarrow> (nat \<Rightarrow> u64) \<Rightarrow> u64 \<Rightarrow> (claims option \<Rightarrow> 's \<Rightarrow> 's \<times> http_response)
   \<Rightarrow> http_request \<Rightarrow> rate_limiter \<times> 's \<Rightarrow> (rate_limiter \<times> 's) \<times> http_response" where
  "auth_middleware ja trust_proxy clock after run_handler rq st =
     (let (rl, s) = st; path = rq_path rq; meth = rq_method rq in
      if path = health_path then (let (s, r) = run_handler None s in ((rl, s), r))
      else if meth = ''POST'' \<and> path = token_path then
        (case token_rate_limit_key rq trust_proxy of
           Inl err \<Rightarrow> ((rl, s), into_response err)
         | Inr key \<Rightarrow>
             (let (rl, decision) = check_and_record_status clock key token_issue_rate_limit rl in
              if \<not> rd_allowed decision
              then ((rl, s), rate_limited_response after token_issue_rate_limit decision)
              else (let (s, r) = run_handler None s
                    in ((rl, s), add_rate_limit_headers r token_issue_rate_limit decision))))
      else
        (case extract_token rq of
           None \<Rightarrow> ((rl, s), into_response (Unauthorized ''missing authentication token''))
         | Some token \<Rightarrow>
             (case verify_token ja token of
                Inl err \<Rightarrow> ((rl, s), into_response err)
              | Inr c \<Rightarrow>
                  (let (rl, decision) = check_and_record_status clock (cl_sub c) default_rate_limit rl in
                   if \<not> rd_allowed decision
                   then ((rl, s), rate_limited_response after default_rate_limit decision)
                   else if \<not> has_permission c (required_permission meth path)
                   then ((rl, s), into_response (Forbidden
                          (''requires '' @ permission_debug (required_permission meth path) @ '' permission'')))
                   else (let (s, r) = run_handler (Some c) s
                         in ((rl, s), add_rate_limit_headers r default_rate_limit decision))))))"

section \<open>The token endpoint\<close>

record token_request =
  tr_secret :: "u8 list"
  tr_permissions :: "permission list"
  tr_ttl_secs :: "u64 option"

text \<open>\<open>rfc3339\<close> is chrono's rendering of a Unix second; the cast to \<open>i64\<close> wraps.\<close>

definition issue_token ::
  "u8 list option \<Rightarrow> jwt_auth \<Rightarrow> (i64 \<Rightarrow> string option) \<Rightarrow> u64 \<Rightarrow> string \<Rightarrow> token_request
   \<Rightarrow> api_error + (string \<times> string)" where
  "issue_token bootstrap_secret ja rfc3339 now uuid rq =
     (case bootstrap_secret of
        None \<Rightarrow> Inl (Forbidden ''token issuance is disabled'')
      | Some expected \<Rightarrow>
          if \<not> constant_time_eq expected (tr_secret rq)
          then Inl (Unauthorized ''invalid bootstrap secret'')
          else if tr_permissions rq = []
          then Inl (InvalidRequest ''permissions must not be empty'')
          else (let ttl_secs = (case tr_ttl_secs rq of Some t \<Rightarrow> t | None \<Rightarrow> ja_default_ttl_secs ja)
                in case mint_token ja now uuid (tr_permissions rq) ttl_secs of
                     Inl e \<Rightarrow> Inl e
                   | Inr (token, exp_secs) \<Rightarrow>
                       (case rfc3339 (sint exp_secs) of
                          None \<Rightarrow> Inl (Internal ''failed to format token expiry'')
                        | Some expires_at \<Rightarrow> Inr (token, expires_at))))"

section \<open>The route table\<close>

datatype segment = Lit string | Param string

type_synonym route = "segment list \<times> (string \<times> string) list"

definition option_prefix :: "segment list" where
  "option_prefix = [Lit ''api'', Lit ''v1'', Lit ''underlyings'', Param ''underlying'', Lit ''expirations'',
     Param ''expiration'', Lit ''strikes'', Param ''strike'', Lit ''options'', Param ''style'']"

definition api :: "segment list \<Rightarrow> segment list" where
  "api rest = Lit ''api'' # Lit ''v1'' # rest"

definition create_router :: "route list" where
  "create_router =
    [([Lit ''health''], [(''GET'', ''health_check'')]),
     ([Lit ''ws''], [(''GET'', ''ws_handler'')]),
     (api [Lit ''stats''], [(''GET'', ''get_global_stats'')]),
     (api [Lit ''auth'', Lit ''token''], [(''POST'', ''issue_token'')]),
     (api [Lit ''controls''], [(''GET'', ''get_controls'')]),
     (api [Lit ''controls'', Lit ''kill-switch''], [(''POST'', ''kill_switch'')]),
     (api [Lit ''controls'', Lit ''enable''], [(''POST'', ''enable_quoting'')]),
     (api [Lit ''controls'', Lit ''parameters''], [(''POST'', ''update_parameters'')]),
     (api [Lit ''controls'', Lit ''instruments''], [(''GET'', ''list_instruments'')]),
     (api [Lit ''controls'', Lit ''instrument'', Param ''symbol'', Lit ''toggle''],
        [(''POST'', ''toggle_instrument'')]),
     (api [Lit ''prices''], [(''GET'', ''get_all_prices''), (''POST'', ''insert_price'')]),
     (api [Lit ''prices'', Param ''symbol''], [(''GET'', ''get_latest_price'')]),
     (api [Lit ''underlyings''], [(''GET'', ''list_underlyings'')]),
     (api [Lit ''underlyings'', Param ''underlying''],
        [(''POST'', ''create_underlying''), (''GET'', ''get_underlying''), (''DELETE'', ''delete_underlying'')]),
     (api [Lit ''underlyings'', Param ''underlying'', Lit ''expirations''], [(''GET'', ''list_expirations'')]),
     (api [Lit ''underlyings'', Param ''underlying'', Lit ''expirations'', Param ''expiration''],
        [(''POST'', ''create_expiration''), (''GET'', ''get_expiration'')]),
     (api [Lit ''underlyings'', Param ''underlying'', Lit ''volatility-surface''],
        [(''GET'', ''get_volatility_surface'')]),
     (api [Lit ''underlyings'', Param ''underlying'', Lit ''expirations'', Param ''expiration'', Lit ''chain''],
        [(''GET'', ''get_option_chain'')]),
     (api [Lit ''underlyings'', Param ''underlying'', Lit ''expirations'', Param ''expiration'', Lit ''strikes''],
        [(''GET'', ''list_strikes'')]),
     (api [Lit ''underlyings'', Param ''underlying'', Lit ''expirations'', Param ''expiration'',
        Lit ''strikes'', Param ''strike''], [(''POST'', ''create_strike''), (''GET'', ''get_strike'')]),
     (option_prefix, [(''GET'', ''get_option_book'')]),
     (option_prefix @ [Lit ''orders''], [(''POST'', ''add_order'')]),
     (option_prefix @ [Lit ''orders'', Lit ''market''], [(''POST'', ''submit_market_order'')]),
     (option_prefix @ [Lit ''orders'', Param ''order_id''],
        [(''DELETE'', ''cancel_order''), (''PATCH'', ''modify_order'')]),
     (option_prefix @ [Lit ''quote''], [(''GET'', ''get_option_quote'')]),
     (option_prefix @ [Lit ''greeks''], [(''GET'', ''get_option_greeks'')]),
     (option_prefix @ [Lit ''snapshot''], [(''GET'', ''get_option_snapshot'')]),
     (option_prefix @ [Lit ''last-trade''], [(''GET'', ''get_last_trade'')]),
     (option_prefix @ [Lit ''ohlc''], [(''GET'', ''get_ohlc'')]),
     (option_prefix @ [Lit ''metrics''], [(''GET'', ''get_orderbook_metrics'')]),
     (api [Lit ''orders''], [(''GET'', ''list_orders'')]),
     (api [Lit ''orders'', Param ''order_id''], [(''GET'', ''get_order_status'')]),
     (api [Lit ''orders'', Lit ''bulk''], [(''POST'', ''bulk_submit_orders''), (''DELETE'', ''bulk_cancel_orders'')]),
     (api [Lit ''orders'', Lit ''cancel-all''], [(''DELETE'', ''cancel_all_orders'')]),
     (api [Lit ''positions''], [(''GET'', ''list_positions'')]),
     (api [Lit ''positions'', Param ''symbol''], [(''GET'', ''get_position'')]),
     (api [Lit ''executions''], [(''GET'', ''list_executions'')]),
     (api [Lit ''executions'', Param ''execution_id''], [(''GET'', ''get_execution'')]),
     (api [Lit ''admin'', Lit ''snapshot''], [(''POST'', ''create_snapshot'')]),
     (api [Lit ''admin'', Lit ''snapshots''], [(''GET'', ''list_snapshots'')]),
     (api [Lit ''admin'', Lit ''snapshots'', Param ''snapshot_id''], [(''GET'', ''get_snapshot'')]),
     (api [Lit ''admin'', Lit ''snapshots'', Param ''snapshot_id'', Lit ''restore''],
        [(''POST'', ''restore_snapshot'')])]"

text \<open>A path is an instance of a pattern: its segments match, and a parameter is never empty.\<close>

definition path_of :: "string list \<Rightarrow> string" where
  "path_of segs = concat (map (\<lambda>s. CHR ''/'' # s) segs)"

fun seg_matches :: "segment \<Rightarrow> string \<Rightarrow> bool" where
  "seg_matches (Lit l) s \<longleftrightarrow> s = l"
| "seg_matches (Param _) s \<longleftrightarrow> s \<noteq> [] \<and> CHR ''/'' \<notin> set s"

definition instance_of :: "segment list \<Rightarrow> string \<Rightarrow> bool" where
  "instance_of pat path \<longleftrightarrow> (\<exists>segs. path = path_of segs \<and> list_all2 seg_matches pat segs)"

text \<open>The handlers meant for administrators only.\<close>

definition admin_handlers :: "string list" where
  "admin_handlers =
     [''get_controls'', ''kill_switch'', ''enable_quoting'', ''update_parameters'', ''list_instruments'',
      ''toggle_instrument'', ''create_snapshot'', ''list_snapshots'', ''get_snapshot'', ''restore_snapshot'',
      ''delete_underlying'']"

definition handler_permission :: "string \<Rightarrow> string \<Rightarrow> permission" where
  "handler_permission meth handler =
     (if handler \<in> set admin_handlers then PermAdmin
      else if meth = ''GET'' then PermRead else PermTrade)"

section \<open>Paths\<close>

definition plain_segs :: "string list \<Rightarrow> bool" where
  "plain_segs segs \<longleftrightarrow> list_all (\<lambda>s. s \<noteq> [] \<and> CHR ''/'' \<notin> set s) segs"

lemma path_of_Cons: "path_of (s # segs) = CHR ''/'' # s @ path_of segs"
  by (simp add: path_of_def)

lemma path_of_Nil: "path_of [] = []"
  by (simp add: path_of_def)

lemma split_path:
  "CHR ''/'' \<notin> set s \<Longrightarrow> plain_segs segs \<Longrightarrow>
   split_on (CHR ''/'') (s @ path_of segs) = s # segs"
proof (induction segs arbitrary: s)
  case Nil
  then show ?case by (simp add: path_of_Nil split_on_notin)
next
  case (Cons a segs)
  then have "split_on (CHR ''/'') (a @ path_of segs) = a # segs"
    by (simp add: plain_segs_def)
  with Cons.prems show ?case by (simp add: path_of_Cons split_on_append)
qed

lemma last_path_plain:
  "s \<noteq> [] \<Longrightarrow> CHR ''/'' \<notin> set s \<Longrightarrow> plain_segs segs \<Longrightarrow> last (s @ path_of segs) \<noteq> CHR ''/''"
proof (induction segs arbitrary: s)
  case Nil
  then show ?case using last_in_set [of s] by (metis append_Nil2 path_of_Nil)
next
  case (Cons a segs)
  then have "last (a @ path_of segs) \<noteq> CHR ''/''" and "a \<noteq> []"
    by (auto simp: plain_segs_def)
  then show ?case by (simp add: path_of_Cons)
qed

lemma dropWhile_rev_last: "last xs \<noteq> c \<Longrightarrow> rev (dropWhile (\<lambda>x. x = c) (rev xs)) = xs"
proof (cases xs rule: rev_cases)
  case (snoc ys y)
  assume "last xs \<noteq> c"
  with snoc show ?thesis by simp
qed simp

lemma split_trimmed_path:
  assumes "plain_segs (s # segs)"
  shows "split_on (CHR ''/'') (trim_slashes (path_of (s # segs))) = s # segs"
proof -
  have s: "s \<noteq> []" "CHR ''/'' \<notin> set s" and segs: "plain_segs segs"
    using assms by (simp_all add: plain_segs_def)
  have drop: "dropWhile (\<lambda>c. c = CHR ''/'') (path_of (s # segs)) = s @ path_of segs"
    using s by (cases s) (auto simp: path_of_Cons)
  have "trim_slashes (path_of (s # segs)) = s @ path_of segs"
    unfolding trim_slashes_def drop
    using last_path_plain [OF s segs] by (rule dropWhile_rev_last)
  then show ?thesis using split_path [OF s(2) segs] by simp
qed

lemma starts_with_Nil [simp]: "starts_with [] s"
  by (simp add: starts_with_def)

lemma starts_with_Cons [simp]:
  "starts_with (c # p) s \<longleftrightarrow> (case s of [] \<Rightarrow> False | d # t \<Rightarrow> d = c \<and> starts_with p t)"
  by (cases s) (auto simp: starts_with_def)

lemma starts_with_segment:
  "CHR ''/'' \<notin> set p \<Longrightarrow> starts_with p (l @ path_of segs) \<longleftrightarrow> starts_with p l"
proof (induction p arbitrary: l)
  case (Cons c p)
  show ?case
  proof (cases l)
    case Nil
    with Cons.prems show ?thesis by (cases segs) (auto simp: path_of_Nil path_of_Cons)
  next
    case (Cons d t)
    with Cons.IH Cons.prems show ?thesis by simp
  qed
qed simp

lemma required_permission_path:
  assumes "plain_segs (''api'' # ''v1'' # l # tail)"
  shows "required_permission meth (path_of (''api'' # ''v1'' # l # tail)) =
    (if starts_with ''controls'' l \<or> starts_with ''admin'' l then PermAdmin
     else if meth = ''DELETE'' \<and> l = ''underlyings'' \<and> length tail = 1 then PermAdmin
     else if meth = ''GET'' \<or> meth = ''HEAD'' \<or> meth = ''OPTIONS'' then PermRead
     else PermTrade)"
proof -
  let ?path = "path_of (''api'' # ''v1'' # l # tail)"
  have p: "?path = ''/api/v1/'' @ l @ path_of tail"
    by (simp add: path_of_Cons)
  have a: "starts_with (''/api/v1/'' @ q) ?path \<longleftrightarrow> starts_with q l" if "CHR ''/'' \<notin> set q" for q
    unfolding p using starts_with_segment [OF that, of l tail] by simp
  have c: "starts_with ''/api/v1/controls'' ?path \<longleftrightarrow> starts_with ''controls'' l"
    using a [of "''controls''"] by simp
  have d: "starts_with ''/api/v1/admin'' ?path \<longleftrightarrow> starts_with ''admin'' l"
    using a [of "''admin''"] by simp
  have "hd tail \<noteq> []" if "length tail = 1"
    using assms that by (cases tail) (auto simp: plain_segs_def)
  then have "is_underlying_root ?path \<longleftrightarrow> l = ''underlyings'' \<and> length tail = 1"
    unfolding is_underlying_root_def split_trimmed_path [OF assms] Let_def
    by (cases tail) auto
  then show ?thesis
    unfolding required_permission_def c d by simp
qed

text \<open>The permission of a route, read off its pattern.\<close>

fun pattern_ok :: "route \<Rightarrow> bool" where
  "pattern_ok (Lit a # Lit v # Lit l # tail, hs) \<longleftrightarrow>
     a = ''api'' \<and> v = ''v1'' \<and> l \<noteq> [] \<and> CHR ''/'' \<notin> set l
     \<and> list_all (\<lambda>p. case p of Lit x \<Rightarrow> x \<noteq> [] \<and> CHR ''/'' \<notin> set x | Param _ \<Rightarrow> True) tail
     \<and> list_all (\<lambda>(m, h).
         (if starts_with ''controls'' l \<or> starts_with ''admin'' l then PermAdmin
          else if m = ''DELETE'' \<and> l = ''underlyings'' \<and> length tail = 1 then PermAdmin
          else if m = ''GET'' \<or> m = ''HEAD'' \<or> m = ''OPTIONS'' then PermRead
          else PermTrade) = handler_permission m h) hs"
| "pattern_ok ([Lit s], hs) \<longleftrightarrow> (s = ''health'' \<or> s = ''ws'') \<and> list_all (\<lambda>(m, h). m = ''GET'' \<and>
     handler_permission m h = PermRead) hs"
| "pattern_ok _ \<longleftrightarrow> False"

lemma pattern_ok_table: "list_all pattern_ok create_router"
  by (simp add: create_router_def api_def option_prefix_def handler_permission_def admin_handlers_def)

lemma plain_match:
  "list_all2 seg_matches pat segs \<Longrightarrow>
   list_all (\<lambda>p. case p of Lit x \<Rightarrow> x \<noteq> [] \<and> CHR ''/'' \<notin> set x | Param _ \<Rightarrow> True) pat \<Longrightarrow> plain_segs segs"
  by (induction pat segs rule: list_all2_induct) (auto simp: plain_segs_def split: segment.splits)

lemma pattern_ok_permission:
  assumes "pattern_ok (pat, hs)" and "(m, h) \<in> set hs" and "instance_of pat path"
  shows "required_permission m path = handler_permission m h"
  using assms(1)
proof (cases "(pat, hs)" rule: pattern_ok.cases)
  case (1 a v l tail hs')
  then obtain segs where segs: "path = path_of (a # v # l # segs)" "list_all2 seg_matches tail segs"
    using assms(3) by (auto simp: instance_of_def list_all2_Cons1)
  with 1 assms(1) have "plain_segs (''api'' # ''v1'' # l # segs)"
    using plain_match [of tail segs] by (auto simp: plain_segs_def)
  note path = required_permission_path [OF this, of m]
  have "(if starts_with ''controls'' l \<or> starts_with ''admin'' l then PermAdmin
      else if m = ''DELETE'' \<and> l = ''underlyings'' \<and> length tail = 1 then PermAdmin
      else if m = ''GET'' \<or> m = ''HEAD'' \<or> m = ''OPTIONS'' then PermRead
      else PermTrade) = handler_permission m h"
    using 1 assms(1,2) by (simp only: prod.inject pattern_ok.simps list_all_iff) blast
  moreover have "path = path_of (''api'' # ''v1'' # l # segs)" and "length tail = length segs"
    using 1 assms(1) segs list_all2_lengthD [OF segs(2)] by simp_all
  ultimately show ?thesis using path by (simp only:)
next
  case (2 s hs')
  then have p: "path = CHR ''/'' # s"
    using assms(3) by (auto simp: instance_of_def list_all2_Cons1 path_of_Cons path_of_Nil)
  have "s = ''health'' \<or> s = ''ws''" and m: "m = ''GET'' \<and> handler_permission m h = PermRead"
    using 2 assms(1,2) by (auto simp: list_all_iff)
  then have "required_permission m path = PermRead"
    unfolding p by (elim disjE) (simp_all add: required_permission_def)
  with m show ?thesis by auto
qed simp_all

section \<open>What passes the gate\<close>

lemma gate_runs:
  assumes "auth_middleware ja trust clock after run rq (rl, s) = ((rl', s'), r)" and "s' \<noteq> s"
  shows "(rq_path rq = health_path \<and> s' = fst (run None s))
    \<or> (rq_method rq = ''POST'' \<and> rq_path rq = token_path \<and> s' = fst (run None s)
        \<and> (\<exists>key. token_rate_limit_key rq trust = Inr key
             \<and> rd_allowed (snd (check_and_record_status clock key token_issue_rate_limit rl))))
    \<or> (\<exists>token c. extract_token rq = Some token \<and> verify_token ja token = Inr c
        \<and> has_permission c (required_permission (rq_method rq) (rq_path rq))
        \<and> rd_allowed (snd (check_and_record_status clock (cl_sub c) default_rate_limit rl))
        \<and> s' = fst (run (Some c) s))"
  using assms
  by (auto simp: auth_middleware_def Let_def split: if_splits sum.splits option.splits prod.splits)

lemma limiter_after:
  "check_and_record_status clock key limit rl = (rl', d) \<Longrightarrow>
     \<exists>key limit. rl' = fst (check_and_record_status clock key limit rl)"
  by (intro exI [of _ key] exI [of _ limit]) simp

lemma gate_limiter:
  assumes "auth_middleware ja trust clock after run rq (rl, s) = ((rl', s'), r)"
  shows "rl' = rl \<or> (\<exists>key limit. rl' = fst (check_and_record_status clock key limit rl))"
  using assms
  by (auto simp: auth_middleware_def Let_def split: if_splits sum.splits option.splits prod.splits
      dest!: limiter_after)

text \<open>A caller the gate lets in: the claims of the token, within the limit and with the permission.\<close>

definition admitted :: "jwt_auth \<Rightarrow> (nat \<Rightarrow> u64) \<Rightarrow> rate_limiter \<Rightarrow> http_request \<Rightarrow> claims \<Rightarrow> bool" where
  "admitted ja clock rl rq c \<longleftrightarrow> rq_path rq \<noteq> health_path \<and> rq_path rq \<noteq> token_path
     \<and> (\<exists>token. extract_token rq = Some token \<and> verify_token ja token = Inr c)
     \<and> has_permission c (required_permission (rq_method rq) (rq_path rq))
     \<and> rd_allowed (snd (check_and_record_status clock (cl_sub c) default_rate_limit rl))"

lemma gate_admits:
  assumes "admitted ja clock rl rq c"
  shows "auth_middleware ja trust clock after run rq (rl, s) =
    ((fst (check_and_record_status clock (cl_sub c) default_rate_limit rl), fst (run (Some c) s)),
     add_rate_limit_headers (snd (run (Some c) s)) default_rate_limit
       (snd (check_and_record_status clock (cl_sub c) default_rate_limit rl)))"
  using assms by (auto simp: admitted_def auth_middleware_def Let_def split: prod.split)

section \<open>Properties\<close>

text \<open>
  Per-route permissions: for every route of the router, every path that instantiates
  it and every method it serves, the middleware demands \<open>Admin\<close> exactly for the controls,
  the snapshots and the deletion of an underlying, \<open>Read\<close> for the other reads and \<open>Trade\<close>
  for every other mutation.
\<close>

theorem routes_require_permission:
  assumes "(pat, hs) \<in> set create_router" and "(m, h) \<in> set hs" and "instance_of pat path"
  shows "required_permission m path = handler_permission m h"
  using assms pattern_ok_table pattern_ok_permission [of pat hs m h path] by (auto simp: list_all_iff)

lemma routes_require_permission_witness:
  "required_permission ''DELETE'' ''/api/v1/underlyings/BTC'' = PermAdmin"
proof -
  have "instance_of [Lit ''api'', Lit ''v1'', Lit ''underlyings'', Param ''underlying''] ''/api/v1/underlyings/BTC''"
    unfolding instance_of_def
    by (rule exI [of _ "[''api'', ''v1'', ''underlyings'', ''BTC'']"]) (simp add: path_of_def)
  then have "required_permission ''DELETE'' ''/api/v1/underlyings/BTC''
      = handler_permission ''DELETE'' ''delete_underlying''"
    by (intro routes_require_permission [where hs = "[(''POST'', ''create_underlying''),
          (''GET'', ''get_underlying''), (''DELETE'', ''delete_underlying'')]"])
      (simp_all add: create_router_def api_def)
  then show ?thesis by (simp add: handler_permission_def admin_handlers_def)
qed

text \<open>
  C19. Nothing runs behind the gate without authority: if a request changed the state behind
  the middleware, it was the health check, or a rate-limited token issuance, or it carried a
  token that verified to claims within their rate limit and with the permission the route
  requires, and the handler ran with exactly those claims.
\<close>

theorem gate_runs_only_authorised:
  assumes "auth_middleware ja trust clock after run rq (rl, s) = ((rl', s'), r)" and "s' \<noteq> s"
  shows "(rq_path rq = health_path \<and> s' = fst (run None s))
    \<or> (rq_method rq = ''POST'' \<and> rq_path rq = token_path \<and> s' = fst (run None s)
        \<and> (\<exists>key. token_rate_limit_key rq trust = Inr key
             \<and> rd_allowed (snd (check_and_record_status clock key token_issue_rate_limit rl))))
    \<or> (\<exists>token c. extract_token rq = Some token \<and> verify_token ja token = Inr c
        \<and> has_permission c (required_permission (rq_method rq) (rq_path rq))
        \<and> rd_allowed (snd (check_and_record_status clock (cl_sub c) default_rate_limit rl))
        \<and> s' = fst (run (Some c) s))"
  using assms by (rule gate_runs)

definition demo_ja :: jwt_auth where
  "demo_ja = \<lparr>ja_lib = demo_jwt, ja_issuer = ''me'', ja_default_ttl_secs = 1\<rparr>"

definition demo_request :: http_request where
  "demo_request = \<lparr>rq_method = ''GET'', rq_path = ''/api/v1/orders'', rq_query = None,
     rq_authorization = Some ''Bearer t'', rq_forwarded_for = None, rq_real_ip = None,
     rq_peer_ip = Some ''10.0.0.1''\<rparr>"

definition demo_handler :: "claims option \<Rightarrow> nat \<Rightarrow> nat \<times> http_response" where
  "demo_handler c n = (n + 1, \<lparr>resp_status = 200, resp_headers = [], resp_body = OtherBody ''ok''\<rparr>)"

lemma demo_gate_runs:
  "snd (fst (auth_middleware demo_ja False (\<lambda>_. 100000) 0 demo_handler demo_request (limiter_new, 7))) = 8"
  by (simp add: auth_middleware_def demo_ja_def demo_request_def demo_handler_def demo_jwt_def limiter_new_def
      health_path_def token_path_def extract_token_def strip_prefix_str_def trim_def is_space_def
      verify_token_def check_and_record_status_def numeral_3_eq_3 max_tracked_keys_def has_permission_def
      required_permission_def default_rate_limit_def prune_and_record_def prune_window_def)

lemma gate_runs_only_authorised_witness:
  "\<exists>token c. extract_token demo_request = Some token \<and> verify_token demo_ja token = Inr c
     \<and> has_permission c PermRead"
proof -
  obtain rl' r where run: "auth_middleware demo_ja False (\<lambda>_. 100000) 0 demo_handler demo_request
      (limiter_new, 7) = ((rl', 8), r)"
    using demo_gate_runs by (metis prod.collapse)
  have "required_permission (rq_method demo_request) (rq_path demo_request) = PermRead"
    by (simp add: demo_request_def required_permission_def)
  then show ?thesis
    using gate_runs_only_authorised [OF run]
    by (auto simp: demo_request_def health_path_def)
qed

text \<open>
  C33. An unauthenticated request is refused with 401 and costs nothing: without a token
  that verifies, outside the two exempt paths, the response is a 401, no handler runs and
  no rate-limit bucket is created or changed.
\<close>

theorem gate_refuses_unauthenticated:
  assumes "rq_path rq \<noteq> health_path" and "\<not> (rq_method rq = ''POST'' \<and> rq_path rq = token_path)"
    and "\<And>token c. extract_token rq = Some token \<Longrightarrow> verify_token ja token \<noteq> Inr c"
  shows "fst (auth_middleware ja trust clock after run rq st) = st
    \<and> resp_status (snd (auth_middleware ja trust clock after run rq st)) = 401"
proof (cases "extract_token rq")
  case None
  with assms show ?thesis by (cases st) (auto simp: auth_middleware_def Let_def)
next
  case (Some token)
  then obtain e where e: "verify_token ja token = Inl e"
    using assms(3) by (cases "verify_token ja token") auto
  then obtain m where "e = Unauthorized m"
    by (auto simp: verify_token_def split: sum.splits)
  with assms Some e show ?thesis by (cases st) (auto simp: auth_middleware_def Let_def)
qed

lemma gate_refuses_unauthenticated_witness:
  "resp_status (snd (auth_middleware demo_ja False (\<lambda>_. 100000) 0 demo_handler
     (demo_request\<lparr>rq_authorization := None\<rparr>) (limiter_new, 7))) = 401"
  using gate_refuses_unauthenticated [of "demo_request\<lparr>rq_authorization := None\<rparr>" demo_ja False
      "\<lambda>_. 100000" 0 demo_handler "(limiter_new, 7)"]
  by (simp add: demo_request_def health_path_def extract_token_def query_token_def)

text \<open>
  C34. Token issuance: a token is only ever issued to a caller with the configured bootstrap
  secret, for a non-empty list of permissions, with exactly the requested permissions and
  an expiry of the requested (or default) lifetime from now.
\<close>

theorem issue_token_guarded:
  assumes "issue_token secret ja rfc now uuid rq = Inr (token, expires)"
  shows "secret = Some (tr_secret rq) \<and> tr_permissions rq \<noteq> []
    \<and> (\<exists>c. jwt_encode (ja_lib ja) c = Some token \<and> cl_permissions c = tr_permissions rq
         \<and> cl_iss c = ja_issuer ja \<and> cl_iat c = now
         \<and> uint (cl_exp c) = uint now + uint (case tr_ttl_secs rq of Some t \<Rightarrow> t | None \<Rightarrow> ja_default_ttl_secs ja))"
proof -
  let ?ttl = "case tr_ttl_secs rq of Some t \<Rightarrow> t | None \<Rightarrow> ja_default_ttl_secs ja"
  obtain expiry where "secret = Some (tr_secret rq)" "tr_permissions rq \<noteq> []"
      and mint: "mint_token ja now uuid (tr_permissions rq) ?ttl = Inr (token, expiry)"
    using assms by (auto simp: issue_token_def Let_def ct_eq_iff split: option.splits if_splits sum.splits)
  then show ?thesis by (auto elim!: mint_token_Inr)
qed

lemma issue_token_guarded_witness:
  "\<exists>c. jwt_encode demo_jwt c = Some ''t'' \<and> cl_permissions c = [PermRead]"
proof -
  have "issue_token (Some [1, 2]) demo_ja (\<lambda>_. Some ''later'') 5 ''u''
      \<lparr>tr_secret = [1, 2], tr_permissions = [PermRead], tr_ttl_secs = Some 10\<rparr> = Inr (''t'', ''later'')"
    by (simp add: issue_token_def constant_time_eq_def mint_token_def checked_add_def demo_ja_def demo_jwt_def)
  from issue_token_guarded [OF this] show ?thesis by (auto simp: demo_ja_def)
qed

end
