(* ===== verification/Float64.thy ===== *)
theory Float64
  imports Complex_Main Prelude
begin

text \<open>
  \<open>f64\<close>: an IEEE-754 binary64 value as an exact rational, an infinity or NaN, with the
  operations of the standard library the code uses. Every arithmetic result is rounded to
  the nearest representable value, ties to even. The two zeros are one value: nothing the
  code does with a zero depends on its sign.
\<close>

datatype f64 = Fin rat | PosInf | NegInf | NaN

function ilog2 :: "int \<Rightarrow> int" where
  "ilog2 n = (if n < 2 then 0 else 1 + ilog2 (n div 2))"
  by pat_completeness auto
termination by (relation "measure nat") auto

declare ilog2.simps [simp del]

definition round_half_even :: "rat \<Rightarrow> int" where
  "round_half_even r =
     (let f = \<lfloor>r\<rfloor>; d = r - of_int f
      in if d < 1 / 2 then f else if 1 / 2 < d then f + 1 else if even f then f else f + 1)"

text \<open>The exponent of the leading bit of a positive rational.\<close>

definition rat_exponent :: "rat \<Rightarrow> int" where
  "rat_exponent a =
     (let (n, d) = quotient_of a;
          e = ilog2 n - ilog2 d
      in if 2 powi e \<le> a then e else e - 1)"

definition round_f64 :: "rat \<Rightarrow> f64" where
  "round_f64 r =
     (if r = 0 then Fin 0
      else (let a = \<bar>r\<bar>;
                q = max (rat_exponent a - 52) (- 1074);
                v = of_int (round_half_even (a / 2 powi q)) * 2 powi q
            in if 2 ^ 1024 \<le> v then (if 0 < r then PosInf else NegInf)
               else Fin (if r < 0 then - v else v)))"

fun f_is_finite :: "f64 \<Rightarrow> bool" where
  "f_is_finite (Fin _) = True"
| "f_is_finite _ = False"

fun f_neg :: "f64 \<Rightarrow> f64" where
  "f_neg (Fin r) = Fin (- r)"
| "f_neg PosInf = NegInf"
| "f_neg NegInf = PosInf"
| "f_neg NaN = NaN"

fun f_abs :: "f64 \<Rightarrow> f64" where
  "f_abs (Fin r) = Fin \<bar>r\<bar>"
| "f_abs NaN = NaN"
| "f_abs _ = PosInf"

fun f_le :: "f64 \<Rightarrow> f64 \<Rightarrow> bool" where
  "f_le NaN _ = False"
| "f_le _ NaN = False"
| "f_le (Fin a) (Fin b) = (a \<le> b)"
| "f_le NegInf _ = True"
| "f_le _ PosInf = True"
| "f_le _ _ = False"

fun f_lt :: "f64 \<Rightarrow> f64 \<Rightarrow> bool" where
  "f_lt NaN _ = False"
| "f_lt _ NaN = False"
| "f_lt (Fin a) (Fin b) = (a < b)"
| "f_lt NegInf b = (b \<noteq> NegInf)"
| "f_lt _ PosInf = True"
| "f_lt _ _ = False"

fun f_add :: "f64 \<Rightarrow> f64 \<Rightarrow> f64" where
  "f_add (Fin a) (Fin b) = round_f64 (a + b)"
| "f_add NaN _ = NaN"
| "f_add _ NaN = NaN"
| "f_add PosInf NegInf = NaN"
| "f_add NegInf PosInf = NaN"
| "f_add PosInf _ = PosInf"
| "f_add _ PosInf = PosInf"
| "f_add NegInf _ = NegInf"
| "f_add _ NegInf = NegInf"

definition f_sub :: "f64 \<Rightarrow> f64 \<Rightarrow> f64" where
  "f_sub a b = f_add a (f_neg b)"

definition f_signed_inf :: "bool \<Rightarrow> f64" where
  "f_signed_inf pos = (if pos then PosInf else NegInf)"

fun f_mul :: "f64 \<Rightarrow> f64 \<Rightarrow> f64" where
  "f_mul (Fin a) (Fin b) = round_f64 (a * b)"
| "f_mul NaN _ = NaN"
| "f_mul _ NaN = NaN"
| "f_mul (Fin a) b = (if a = 0 then NaN else f_signed_inf ((0 < a) = (b = PosInf)))"
| "f_mul a (Fin b) = (if b = 0 then NaN else f_signed_inf ((0 < b) = (a = PosInf)))"
| "f_mul a b = f_signed_inf (a = b)"

text \<open>A zero divisor counts as positive: the code's divisors are never a negative zero.\<close>

fun f_div :: "f64 \<Rightarrow> f64 \<Rightarrow> f64" where
  "f_div (Fin a) (Fin b) =
     (if b = 0 then (if a = 0 then NaN else f_signed_inf (0 < a)) else round_f64 (a / b))"
| "f_div NaN _ = NaN"
| "f_div _ NaN = NaN"
| "f_div a (Fin b) = f_signed_inf ((0 \<le> b) = (a = PosInf))"
| "f_div (Fin _) _ = Fin 0"
| "f_div _ _ = NaN"

text \<open>\<open>f64::max\<close> returns the other operand for a NaN; \<open>clamp\<close> keeps a NaN.\<close>

fun f_max :: "f64 \<Rightarrow> f64 \<Rightarrow> f64" where
  "f_max NaN b = b"
| "f_max a NaN = a"
| "f_max a b = (if f_le a b then b else a)"

definition f_clamp :: "f64 \<Rightarrow> f64 \<Rightarrow> f64 \<Rightarrow> f64" where
  "f_clamp x lo hi = (if f_lt x lo then lo else if f_lt hi x then hi else x)"

text \<open>\<open>round\<close>: half away from zero; the result of rounding a finite value is exact.\<close>

definition round_away :: "rat \<Rightarrow> int" where
  "round_away r = (if 0 \<le> r then \<lfloor>r + 1 / 2\<rfloor> else - \<lfloor>- r + 1 / 2\<rfloor>)"

fun f_round :: "f64 \<Rightarrow> f64" where
  "f_round (Fin r) = Fin (of_int (round_away r))"
| "f_round x = x"

text \<open>Casts to integers truncate and saturate, NaN becoming 0; from integers they round.\<close>

definition trunc_rat :: "rat \<Rightarrow> int" where
  "trunc_rat r = (if 0 \<le> r then \<lfloor>r\<rfloor> else - \<lfloor>- r\<rfloor>)"

fun f_as_u64 :: "f64 \<Rightarrow> u64" where
  "f_as_u64 (Fin r) = word_of_int (max 0 (min (trunc_rat r) (2 ^ 64 - 1)))"
| "f_as_u64 PosInf = - 1"
| "f_as_u64 NegInf = 0"
| "f_as_u64 NaN = 0"

fun f_as_i64 :: "f64 \<Rightarrow> i64" where
  "f_as_i64 (Fin r) = max (- (2 ^ 63)) (min (trunc_rat r) (2 ^ 63 - 1))"
| "f_as_i64 PosInf = 2 ^ 63 - 1"
| "f_as_i64 NegInf = - (2 ^ 63)"
| "f_as_i64 NaN = 0"

definition f_of_u64 :: "u64 \<Rightarrow> f64" where
  "f_of_u64 w = round_f64 (of_int (uint w))"

text \<open>A decimal literal of the source, and the wrap-around of \<open>i64\<close> arithmetic.\<close>

definition f_lit :: "rat \<Rightarrow> f64" where
  "f_lit r = round_f64 r"

definition wrap_i64 :: "int \<Rightarrow> i64" where
  "wrap_i64 x = sint (word_of_int x :: u64)"

definition f_of_int :: "int \<Rightarrow> f64" where
  "f_of_int i = round_f64 (of_int i)"

section \<open>Lemmas\<close>

lemma in_i64_f_as_i64: "in_i64 (f_as_i64 x)"
  by (cases x) (auto simp: in_i64_def)

lemma wrap_i64_id: "in_i64 x \<Longrightarrow> wrap_i64 x = x"
  unfolding wrap_i64_def in_i64_def by (subst signed_of_int) (simp add: signed_take_bit_int_eq_self)

lemma in_i64_wrap: "in_i64 (wrap_i64 x)"
  unfolding wrap_i64_def by (rule in_i64_sint)

lemma f_clamp_finite:
  "f_is_finite x \<Longrightarrow> a \<le> b \<Longrightarrow>
   \<exists>r. f_clamp x (Fin a) (Fin b) = Fin r \<and> a \<le> r \<and> r \<le> b"
  by (cases x) (auto simp: f_clamp_def)

lemma f_clamp_id:
  "a \<le> r \<Longrightarrow> r \<le> b \<Longrightarrow> f_clamp (Fin r) (Fin a) (Fin b) = Fin r"
  by (auto simp: f_clamp_def)

lemma f_between_finite:
  "f_le (Fin a) x \<Longrightarrow> f_le x (Fin b) \<Longrightarrow> \<exists>r. x = Fin r \<and> a \<le> r \<and> r \<le> b"
  by (cases x) auto

lemma round_half_even_of_int [simp]: "round_half_even (of_int i) = i"
  by (simp add: round_half_even_def)

lemma round_half_even_mono: "a \<le> b \<Longrightarrow> round_half_even a \<le> round_half_even b"
proof -
  assume le: "a \<le> b"
  then have fl: "\<lfloor>a\<rfloor> \<le> \<lfloor>b\<rfloor>" by (rule floor_mono)
  show ?thesis
  proof (cases "\<lfloor>a\<rfloor> = \<lfloor>b\<rfloor>")
    case True
    with le show ?thesis by (auto simp: round_half_even_def Let_def)
  next
    case False
    with fl have "\<lfloor>a\<rfloor> + 1 \<le> \<lfloor>b\<rfloor>" by simp
    then show ?thesis by (auto simp: round_half_even_def Let_def)
  qed
qed

end
