(* ===== verification/Float_Order.thy ===== *)
theory Float_Order
  imports Float64
begin

text \<open>
  Order properties of the rounding of \<open>Float64\<close>: the exponent of a positive rational is the
  position of its leading bit, rounding to binary64 keeps the order of the exact values, and
  integers below \<open>2 ^ 53\<close> are represented exactly.
\<close>

section \<open>The exponent\<close>

lemma ilog2_bounds:
  assumes "1 \<le> n"
  shows "0 \<le> ilog2 n \<and> 2 ^ nat (ilog2 n) \<le> n \<and> n < 2 * 2 ^ nat (ilog2 n)"
  using assms
proof (induction n rule: ilog2.induct)
  case (1 n)
  show ?case
  proof (cases "n < 2")
    case True
    with 1 show ?thesis by (simp add: ilog2.simps [of n])
  next
    case False
    then have ih: "0 \<le> ilog2 (n div 2) \<and> 2 ^ nat (ilog2 (n div 2)) \<le> n div 2 \<and> n div 2 < 2 * 2 ^ nat (ilog2 (n div 2))"
      using 1 by simp
    have "ilog2 n = 1 + ilog2 (n div 2)" using False by (simp add: ilog2.simps [of n])
    moreover have "nat (1 + ilog2 (n div 2)) = Suc (nat (ilog2 (n div 2)))"
      using ih Suc_nat_eq_nat_zadd1 [of "ilog2 (n div 2)"] by (simp add: add.commute)
    moreover have "2 * (n div 2) \<le> n" "n < 2 * (n div 2) + 2" by linarith+
    ultimately show ?thesis using ih by (simp del: div_mult2_eq)
  qed
qed

abbreviation p2 :: "int \<Rightarrow> rat" where
  "p2 e \<equiv> 2 powi e"

lemma p2_pos [simp]: "0 < p2 e"
  by simp

lemma p2_add: "p2 (a + b) = p2 a * p2 b"
  by (simp add: power_int_add)

lemma p2_diff: "p2 (a - b) = p2 a / p2 b"
  by (simp add: power_int_diff)

lemma p2_mono: "a \<le> b \<Longrightarrow> p2 a \<le> p2 b"
  by (simp add: power_int_increasing)

lemma p2_nat: "0 \<le> e \<Longrightarrow> p2 e = of_int (2 ^ nat e)"
  by (simp add: power_int_def)

lemma rat_exponent_bounds:
  assumes "0 < a"
  shows "p2 (rat_exponent a) \<le> a \<and> a < p2 (rat_exponent a + 1)"
proof -
  obtain n d where q: "quotient_of a = (n, d)" by fastforce
  have d: "0 < d" using quotient_of_denom_pos [OF q] .
  have a: "a = of_int n / of_int d" using quotient_of_div [OF q] .
  have n: "0 < n" using assms d by (simp add: a zero_less_divide_iff)
  have ln: "p2 (ilog2 n) \<le> of_int n" "of_int n < 2 * p2 (ilog2 n)"
    and ld: "p2 (ilog2 d) \<le> of_int d" "of_int d < 2 * p2 (ilog2 d)"
    using ilog2_bounds [of n] ilog2_bounds [of d] n d
    by (simp_all add: p2_nat del: of_int_power)
  define e where "e = ilog2 n - ilog2 d"
  have "a < p2 (e + 1)"
  proof -
    have "a \<le> of_int n / p2 (ilog2 d)" using ld(1) n by (simp add: a frac_le)
    also have "\<dots> < 2 * p2 (ilog2 n) / p2 (ilog2 d)" using ln(2) by (simp add: divide_strict_right_mono)
    also have "\<dots> = p2 (e + 1)" by (simp add: e_def p2_add p2_diff)
    finally show ?thesis .
  qed
  moreover have "p2 (e - 1) \<le> a"
  proof -
    have "p2 (e - 1) = p2 (ilog2 n) / (2 * p2 (ilog2 d))" by (simp add: e_def p2_diff)
    also have "\<dots> \<le> of_int n / (2 * p2 (ilog2 d))" using ln(1) by (simp add: divide_right_mono)
    also have "\<dots> \<le> of_int n / of_int d" using ld d n by (intro frac_le) auto
    finally show ?thesis by (simp add: a)
  qed
  ultimately show ?thesis using q by (auto simp: rat_exponent_def e_def Let_def)
qed

lemma rat_exponent_mono:
  assumes "0 < a" "a \<le> b"
  shows "rat_exponent a \<le> rat_exponent b"
proof (rule ccontr)
  assume "\<not> rat_exponent a \<le> rat_exponent b"
  then have "p2 (rat_exponent b + 1) \<le> p2 (rat_exponent a)" by (intro p2_mono) simp
  then show False using rat_exponent_bounds [of a] rat_exponent_bounds [of b] assms by auto
qed

section \<open>Rounding keeps the order\<close>

definition f_ulp :: "rat \<Rightarrow> int" where
  "f_ulp a = max (rat_exponent a - 52) (- 1074)"

definition round_pos :: "rat \<Rightarrow> rat" where
  "round_pos a = of_int (round_half_even (a / p2 (f_ulp a))) * p2 (f_ulp a)"

lemma round_half_even_le: "r \<le> of_int i \<Longrightarrow> round_half_even r \<le> i"
  using round_half_even_mono [of r "of_int i"] by simp

lemma round_half_even_ge: "of_int i \<le> r \<Longrightarrow> i \<le> round_half_even r"
  using round_half_even_mono [of "of_int i" r] by simp

lemma round_pos_nonneg: "0 \<le> a \<Longrightarrow> 0 \<le> round_pos a"
  using round_half_even_ge [of 0 "a / p2 (f_ulp a)"] by (simp add: round_pos_def)

lemma round_pos_mono:
  assumes "0 < a" "a \<le> b"
  shows "round_pos a \<le> round_pos b"
proof (cases "f_ulp a = f_ulp b")
  case True
  then have "round_half_even (a / p2 (f_ulp a)) \<le> round_half_even (b / p2 (f_ulp b))"
    using assms by (intro round_half_even_mono) (simp add: divide_right_mono)
  then show ?thesis using True by (simp add: round_pos_def)
next
  case False
  have e: "rat_exponent a \<le> rat_exponent b" using assms by (rule rat_exponent_mono)
  then have u: "f_ulp b = rat_exponent b - 52" "rat_exponent a < rat_exponent b"
    using False by (auto simp: f_ulp_def max_def split: if_splits)
  have "round_half_even (a / p2 (f_ulp a)) \<le> 2 ^ nat (max 0 (rat_exponent a + 1 - f_ulp a))"
  proof (rule round_half_even_le)
    have "a / p2 (f_ulp a) \<le> p2 (rat_exponent a + 1 - f_ulp a)"
      using rat_exponent_bounds [OF assms(1)] by (simp add: p2_diff divide_right_mono less_imp_le)
    also have "\<dots> \<le> p2 (max 0 (rat_exponent a + 1 - f_ulp a))" by (rule p2_mono) simp
    finally show "a / p2 (f_ulp a) \<le> of_int (2 ^ nat (max 0 (rat_exponent a + 1 - f_ulp a)))"
      by (simp add: p2_nat)
  qed
  then have "round_pos a \<le> p2 (max 0 (rat_exponent a + 1 - f_ulp a)) * p2 (f_ulp a)"
    unfolding round_pos_def by (intro mult_right_mono) (simp_all add: p2_nat flip: of_int_le_iff)
  also have "\<dots> = p2 (max (f_ulp a) (rat_exponent a + 1))"
    by (simp add: p2_add [symmetric] max_def)
  also have "\<dots> \<le> p2 (rat_exponent b)"
    using u False by (intro p2_mono) (auto simp: f_ulp_def)
  also have "\<dots> \<le> round_pos b"
  proof -
    have "2 ^ 52 \<le> round_half_even (b / p2 (f_ulp b))"
    proof (rule round_half_even_ge)
      have "p2 52 = p2 (rat_exponent b - f_ulp b)" using u by simp
      also have "\<dots> \<le> b / p2 (f_ulp b)"
        using rat_exponent_bounds [of b] assms by (simp add: p2_diff divide_right_mono)
      finally show "of_int (2 ^ 52) \<le> b / p2 (f_ulp b)" by (simp add: power_int_def)
    qed
    then have "of_int (2 ^ 52) * p2 (f_ulp b) \<le> round_pos b"
      unfolding round_pos_def by (intro mult_right_mono) (simp_all flip: of_int_le_iff)
    moreover have "of_int (2 ^ 52) * p2 (f_ulp b) = p2 (rat_exponent b)"
      using p2_add [of 52 "f_ulp b"] u by (simp add: power_int_def)
    ultimately show ?thesis by simp
  qed
  finally show ?thesis .
qed

lemma round_f64_pos: "0 < r \<Longrightarrow> round_f64 r = (if 2 ^ 1024 \<le> round_pos r then PosInf else Fin (round_pos r))"
  by (simp add: round_f64_def round_pos_def f_ulp_def Let_def)

lemma round_f64_neg: "r < 0 \<Longrightarrow> round_f64 r = (if 2 ^ 1024 \<le> round_pos (- r) then NegInf else Fin (- round_pos (- r)))"
  by (simp add: round_f64_def round_pos_def f_ulp_def Let_def)

lemma round_f64_zero [simp]: "round_f64 0 = Fin 0"
  by (simp add: round_f64_def)

lemma round_f64_mono:
  assumes "a \<le> b"
  shows "f_le (round_f64 a) (round_f64 b)"
proof -
  have nonneg: "f_le (round_f64 x) (round_f64 y)" if "0 \<le> x" "x \<le> y" for x y
  proof (cases "x = 0")
    case True
    then show ?thesis using that round_pos_nonneg [of y] by (cases "y = 0") (simp_all add: round_f64_pos)
  next
    case False
    with that show ?thesis using round_pos_mono [of x y] by (auto simp: round_f64_pos)
  qed
  consider "0 \<le> a" | "a < 0" "b < 0" | "a < 0" "0 \<le> b" by linarith
  then show ?thesis
  proof cases
    case 1
    then show ?thesis using nonneg assms by simp
  next
    case 2
    then show ?thesis using round_pos_mono [of "- b" "- a"] assms by (auto simp: round_f64_neg)
  next
    case 3
    then show ?thesis
      using round_pos_nonneg [of "- a"] round_pos_nonneg [of b]
      by (cases "b = 0") (auto simp: round_f64_neg round_f64_pos)
  qed
qed

lemma round_f64_mono_Fin: "a \<le> b \<Longrightarrow> round_f64 a = Fin x \<Longrightarrow> round_f64 b = Fin y \<Longrightarrow> x \<le> y"
  using round_f64_mono [of a b] by simp

section \<open>Exact values\<close>

lemma round_pos_exact:
  assumes "0 < r" and "r / p2 (f_ulp r) = of_int i"
  shows "round_pos r = r"
  using assms by (simp add: round_pos_def) (metis nonzero_eq_divide_eq p2_pos less_irrefl)

text \<open>A dyadic number with at most 53 significant bits is represented exactly.\<close>

lemma round_f64_dyadic:
  assumes "0 < j" and "j < 2 ^ 53" and "- 1074 \<le> e" and "of_int j * p2 e < 2 ^ 1024"
  shows "round_f64 (of_int j * p2 e) = Fin (of_int j * p2 e)"
proof -
  let ?r = "of_int j * p2 e"
  have pos: "0 < ?r" using assms(1) by simp
  have "p2 (rat_exponent ?r) \<le> ?r" using rat_exponent_bounds [OF pos] by simp
  also have "?r < p2 53 * p2 e"
    using assms(2) by (intro mult_strict_right_mono) (simp_all add: power_int_def flip: of_int_less_iff)
  also have "\<dots> = p2 (53 + e)" by (rule p2_add [symmetric])
  finally have "rat_exponent ?r < 53 + e" by (metis linorder_not_le p2_mono order.strict_trans2)
  then have u: "f_ulp ?r \<le> e" using assms(3) by (simp add: f_ulp_def)
  have "?r / p2 (f_ulp ?r) = of_int j * p2 (e - f_ulp ?r)"
    by (simp only: p2_diff times_divide_eq_right)
  also have "\<dots> = of_int (j * 2 ^ nat (e - f_ulp ?r))"
    using p2_nat [of "e - f_ulp ?r"] u by simp
  finally have "?r / p2 (f_ulp ?r) = of_int (j * 2 ^ nat (e - f_ulp ?r))" .
  then have "round_pos ?r = ?r" using pos by (intro round_pos_exact [where i = "j * 2 ^ nat (e - f_ulp ?r)"]) simp_all
  then show ?thesis using assms(4) pos by (simp add: round_f64_pos)
qed

lemma round_f64_int:
  assumes "\<bar>i\<bar> < 2 ^ 53"
  shows "round_f64 (of_int i) = Fin (of_int i)"
proof -
  have exact: "round_f64 (of_int j) = Fin (of_int j)" if "0 < j" "j < 2 ^ 53" for j
    using round_f64_dyadic [of j 0] that by (simp flip: of_int_less_iff)
  consider "i = 0" | "0 < i" | "i < 0" by linarith
  then show ?thesis
  proof cases
    case 3
    then have "round_f64 (of_int (- i)) = Fin (of_int (- i))" using exact [of "- i"] assms by simp
    then show ?thesis using 3 by (auto simp: round_f64_pos round_f64_neg split: if_splits)
  qed (use exact assms in simp_all)
qed

lemma round_f64_p2:
  assumes "- 1074 \<le> e" and "e < 1024"
  shows "round_f64 (p2 e) = Fin (p2 e)"
proof -
  have "p2 e < 2 ^ 1024"
    using power_int_strict_increasing [of e 1024 "2 :: rat"] assms(2) by (simp add: power_int_def)
  then show ?thesis using round_f64_dyadic [of 1 e] assms(1) by simp
qed

lemma round_f64_numeral:
  assumes "(numeral n :: int) < 2 ^ 53"
  shows "round_f64 (numeral n) = Fin (numeral n)"
  using round_f64_int [of "numeral n"] assms by simp

section \<open>Monotone operations\<close>

lemma round_f64_not_NaN: "round_f64 r \<noteq> NaN"
  by (simp add: round_f64_def Let_def)

lemma f_le_inf: "x \<noteq> NaN \<Longrightarrow> f_le x PosInf" "x \<noteq> NaN \<Longrightarrow> f_le NegInf x"
  by (cases x; simp)+

lemma f_le_refl: "x \<noteq> NaN \<Longrightarrow> f_le x x"
  by (cases x) simp_all

lemma f_le_trans: "f_le a b \<Longrightarrow> f_le b c \<Longrightarrow> f_le a c"
  by (cases a; cases b; cases c) auto

lemma f_add_mono: "f_le a b \<Longrightarrow> f_le (f_add (Fin c) a) (f_add (Fin c) b)"
  by (cases a; cases b) (auto simp: round_f64_mono round_f64_not_NaN intro: f_le_inf)

lemma f_mul_mono_Fin: "0 \<le> c \<Longrightarrow> a \<le> b \<Longrightarrow> f_le (f_mul (Fin a) (Fin c)) (f_mul (Fin b) (Fin c))"
  by (simp add: round_f64_mono mult_right_mono)

lemma f_max_mono: "f_le a b \<Longrightarrow> f_le (f_max a (Fin c)) (f_max b (Fin c))"
  by (cases a; cases b) auto

lemma round_away_mono: "a \<le> b \<Longrightarrow> round_away a \<le> round_away b"
proof -
  assume le: "a \<le> b"
  have "- \<lfloor>- a + 1 / 2\<rfloor> \<le> \<lfloor>b + 1 / 2\<rfloor>" if "a < 0" "0 \<le> b"
  proof -
    have "0 \<le> \<lfloor>- a + 1 / 2\<rfloor>" "0 \<le> \<lfloor>b + 1 / 2\<rfloor>" using that by simp_all
    then show ?thesis by linarith
  qed
  then show ?thesis using le by (auto simp: round_away_def intro: floor_mono)
qed

lemma round_f64_nonneg: "0 \<le> r \<Longrightarrow> f_le (Fin 0) (round_f64 r)"
  using round_f64_mono [of 0 r] by simp

end
