(* ===== verification/Config.thy ===== *)
theory Config
  imports Float_Order
begin

text \<open>
  \<open>src/src/config.rs\<close>: the configuration records with their defaults, the conversion of
  dollars to cents, the resolution of the authentication and CORS settings from environment,
  file and defaults, the strikes generated for an asset, and the validation. Reading the file
  and parsing TOML are I/O. Environment variables are a function argument, and so is the
  decimal form of an \<open>f64\<close>, which only appears in messages.
\<close>

section \<open>Dollars to cents\<close>

definition max_initial_price :: f64 where "max_initial_price = Fin (10 ^ 12)"
definition max_volatility :: f64 where "max_volatility = Fin 5"

definition dollars_to_cents :: "f64 \<Rightarrow> u64 option" where
  "dollars_to_cents value =
     (if \<not> f_is_finite value \<or> \<not> (f_le (Fin 0) value \<and> f_le value max_initial_price) then None
      else Some (f_as_u64 (f_round (f_mul value (Fin 100)))))"

section \<open>Authentication settings\<close>

record auth_config =
  ac_private_key_path :: string
  ac_cert_path :: string
  ac_issuer :: string
  ac_default_ttl_secs :: u64

definition dev_private_key_path :: string where "dev_private_key_path = ''tests/fixtures/dev-private-key.pem''"
definition dev_cert_path :: string where "dev_cert_path = ''tests/fixtures/dev-cert.pem''"
definition default_issuer :: string where "default_issuer = ''option-chain-orderbook-backend''"
definition default_token_ttl_secs :: u64 where "default_token_ttl_secs = 3600"

definition auth_config_default :: auth_config where
  "auth_config_default = \<lparr>ac_private_key_path = dev_private_key_path, ac_cert_path = dev_cert_path,
     ac_issuer = default_issuer, ac_default_ttl_secs = default_token_ttl_secs\<rparr>"

definition unwrap_or :: "'a option \<Rightarrow> 'a \<Rightarrow> 'a" where
  "unwrap_or o' d = (case o' of Some x \<Rightarrow> x | None \<Rightarrow> d)"

text \<open>The argument is the \<open>[auth]\<close> section of the file, when there is one.\<close>

definition auth_config_resolved :: "(string \<Rightarrow> string option) \<Rightarrow> auth_config option \<Rightarrow> auth_config" where
  "auth_config_resolved env section =
     (let base = unwrap_or section auth_config_default
      in \<lparr>ac_private_key_path = unwrap_or (env ''AUTH_PRIVATE_KEY_PATH'') (ac_private_key_path base),
          ac_cert_path = unwrap_or (env ''AUTH_CERT_PATH'') (ac_cert_path base),
          ac_issuer = unwrap_or (env ''AUTH_ISSUER'') (ac_issuer base),
          ac_default_ttl_secs = unwrap_or (Option.bind (env ''AUTH_DEFAULT_TTL_SECS'') parse_u64)
            (ac_default_ttl_secs base)\<rparr>)"

definition is_dev :: "auth_config \<Rightarrow> bool" where
  "is_dev c \<longleftrightarrow> ac_private_key_path c = dev_private_key_path \<and> ac_cert_path c = dev_cert_path"

definition bootstrap_secret :: "(string \<Rightarrow> string option) \<Rightarrow> string option" where
  "bootstrap_secret env =
     (case env ''AUTH_BOOTSTRAP_SECRET'' of Some s \<Rightarrow> if s \<noteq> [] then Some s else None | None \<Rightarrow> None)"

definition trust_proxy :: "(string \<Rightarrow> string option) \<Rightarrow> bool" where
  "trust_proxy env =
     (case env ''AUTH_TRUST_PROXY'' of
        Some s \<Rightarrow> ascii_lower (trim s) \<in> {''1'', ''true'', ''yes'', ''on''}
      | None \<Rightarrow> False)"

section \<open>CORS origins\<close>

datatype cors_source = FromEnv | FromConfig | FromDefault

record cors_origins =
  co_origins :: "string list"
  co_source :: cors_source

definition default_cors_allowed_origins :: "string list" where
  "default_cors_allowed_origins = [''http://localhost:5173'', ''http://127.0.0.1:5173'', ''http://localhost:8080'']"

definition parse_cors_origins_csv :: "string \<Rightarrow> string list" where
  "parse_cors_origins_csv raw = filter (\<lambda>s. s \<noteq> []) (map trim (split_on (CHR '','') raw))"

definition resolve_cors_origins_from :: "string option \<Rightarrow> string list \<Rightarrow> cors_origins" where
  "resolve_cors_origins_from env config_origins =
     (let parsed = (case env of Some raw \<Rightarrow> parse_cors_origins_csv raw | None \<Rightarrow> []);
          from_config = filter (\<lambda>s. s \<noteq> []) (map trim config_origins)
      in if parsed \<noteq> [] then \<lparr>co_origins = parsed, co_source = FromEnv\<rparr>
         else if from_config \<noteq> [] then \<lparr>co_origins = from_config, co_source = FromConfig\<rparr>
         else \<lparr>co_origins = default_cors_allowed_origins, co_source = FromDefault\<rparr>)"

section \<open>The configuration\<close>

record server_config =
  sc_host :: string
  sc_port :: nat
  sc_cors_allowed_origins :: "string list"

definition server_config_default :: server_config where
  "server_config_default = \<lparr>sc_host = ''0.0.0.0'', sc_port = 8080, sc_cors_allowed_origins = []\<rparr>"

datatype walk_type = GeometricBrownian | MeanReverting | JumpDiffusion

record simulation_config =
  sim_enabled :: bool
  sim_interval_ms :: u64
  sim_walk_type :: walk_type

definition simulation_config_default :: simulation_config where
  "simulation_config_default = \<lparr>sim_enabled = True, sim_interval_ms = 1000, sim_walk_type = GeometricBrownian\<rparr>"

record cleanup_config =
  cc_interval_seconds :: u64
  cc_retention_seconds :: u64

definition cleanup_config_default :: cleanup_config where
  "cleanup_config_default = \<lparr>cc_interval_seconds = 60, cc_retention_seconds = 300\<rparr>"

record asset_config =
  as_symbol :: string
  as_name :: string
  as_initial_price :: f64
  as_volatility :: f64
  as_drift :: f64
  as_expirations :: "string list"
  as_num_strikes :: u32
  as_strike_spacing :: f64

record config =
  cf_server :: server_config
  cf_simulation :: simulation_config
  cf_cleanup :: cleanup_config
  cf_auth :: "auth_config option"
  cf_assets :: "asset_config list"

definition resolved_cors_origins :: "(string \<Rightarrow> string option) \<Rightarrow> config option \<Rightarrow> cors_origins" where
  "resolved_cors_origins env c =
     resolve_cors_origins_from (env ''CORS_ALLOWED_ORIGINS'')
       (case c of Some c \<Rightarrow> sc_cors_allowed_origins (cf_server c) | None \<Rightarrow> [])"

definition config_default :: config where
  "config_default = \<lparr>cf_server = server_config_default, cf_simulation = simulation_config_default,
     cf_cleanup = cleanup_config_default, cf_auth = None,
     cf_assets = [\<lparr>as_symbol = ''BTC'', as_name = ''Bitcoin'', as_initial_price = Fin 100000,
       as_volatility = f_lit (65 / 100), as_drift = f_lit (5 / 100), as_expirations = [''20251231''],
       as_num_strikes = 50, as_strike_spacing = Fin 1000\<rparr>]\<rparr>"

section \<open>Strikes of an asset\<close>

text \<open>The strike of index \<open>i\<close> in dollars, floored at the spacing.\<close>

definition strike_dollars :: "asset_config \<Rightarrow> nat \<Rightarrow> f64" where
  "strike_dollars asset i =
     (let half_count = unat (as_num_strikes asset div 2);
          offset = f_mul (f_sub (f_of_int (int i)) (f_of_int (int half_count))) (as_strike_spacing asset)
      in f_max (f_add (as_initial_price asset) offset) (as_strike_spacing asset))"

definition push_strike :: "asset_config \<Rightarrow> nat \<Rightarrow> u64 list \<Rightarrow> u64 list" where
  "push_strike asset i strikes =
     (case dollars_to_cents (strike_dollars asset i) of
        None \<Rightarrow> strikes
      | Some cents \<Rightarrow> if strikes \<noteq> [] \<and> last strikes = cents then strikes else strikes @ [cents])"

definition generate_strikes :: "asset_config \<Rightarrow> u64 list" where
  "generate_strikes asset = fold (push_strike asset) [0..<unat (as_num_strikes asset)] []"

section \<open>Validation\<close>

definition validate_asset :: "(f64 \<Rightarrow> string) \<Rightarrow> asset_config \<Rightarrow> string + unit" where
  "validate_asset show_f64 a =
     (let who = ''asset '' @ as_symbol a in
      if as_symbol a = [] then Inl ''asset symbol cannot be empty''
      else if \<not> f_is_finite (as_initial_price a) then Inl (who @ '' initial_price must be finite, got '' @ show_f64 (as_initial_price a))
      else if f_le (as_initial_price a) (Fin 0) then Inl (who @ '' initial_price must be positive, got '' @ show_f64 (as_initial_price a))
      else if f_lt max_initial_price (as_initial_price a)
        then Inl (who @ '' initial_price '' @ show_f64 (as_initial_price a) @ '' exceeds maximum '' @ show_f64 max_initial_price)
      else if \<not> f_is_finite (as_volatility a) then Inl (who @ '' volatility must be finite, got '' @ show_f64 (as_volatility a))
      else if f_le (as_volatility a) (Fin 0) \<or> f_lt max_volatility (as_volatility a)
        then Inl (who @ '' volatility must be between 0 and '' @ show_f64 max_volatility @ '', got '' @ show_f64 (as_volatility a))
      else if \<not> f_is_finite (as_drift a) then Inl (who @ '' drift must be finite, got '' @ show_f64 (as_drift a))
      else if as_expirations a = [] then Inl (who @ '' must have at least one expiration'')
      else if as_num_strikes a = 0 then Inl (who @ '' num_strikes must be positive'')
      else if \<not> f_is_finite (as_strike_spacing a) then Inl (who @ '' strike_spacing must be finite, got '' @ show_f64 (as_strike_spacing a))
      else if f_le (as_strike_spacing a) (Fin 0)
        then Inl (who @ '' strike_spacing must be positive, got '' @ show_f64 (as_strike_spacing a))
      else Inr ())"

fun validate_assets :: "(f64 \<Rightarrow> string) \<Rightarrow> asset_config list \<Rightarrow> string + unit" where
  "validate_assets show_f64 [] = Inr ()"
| "validate_assets show_f64 (a # as) =
     (case validate_asset show_f64 a of Inl err \<Rightarrow> Inl err | Inr _ \<Rightarrow> validate_assets show_f64 as)"

definition validate :: "(f64 \<Rightarrow> string) \<Rightarrow> config \<Rightarrow> string + unit" where
  "validate show_f64 c =
     (if (case cf_auth c of Some a \<Rightarrow> ac_default_ttl_secs a = 0 | None \<Rightarrow> False)
        then Inl ''auth default_ttl_secs must be positive''
      else if sim_interval_ms (cf_simulation c) = 0 then Inl ''simulation interval_ms must be greater than zero''
      else if cf_assets c = [] then Inl ''at least one asset must be configured''
      else validate_assets show_f64 (cf_assets c))"

section \<open>Lemmas\<close>

lemma round_away_of_int [simp]: "round_away (of_int i) = i"
proof -
  have "\<lfloor>of_int i + 1 / 2 :: rat\<rfloor> = i" "\<lfloor>- of_int i + 1 / 2 :: rat\<rfloor> = - i" by linarith+
  then show ?thesis by (simp add: round_away_def)
qed

lemma cents_value:
  assumes "dollars_to_cents v = Some c"
  shows "\<exists>r x. v = Fin r \<and> round_f64 (r * 100) = Fin x \<and> x \<le> 10 ^ 14 \<and> uint c = round_away x"
proof -
  obtain r where r: "v = Fin r" "0 \<le> r" "r \<le> 10 ^ 12"
    using assms by (cases v) (auto simp: dollars_to_cents_def max_initial_price_def split: if_splits)
  have top: "round_f64 (10 ^ 14) = Fin (10 ^ 14)" using round_f64_int [of "10 ^ 14"] by simp
  have "f_le (round_f64 (r * 100)) (round_f64 (10 ^ 14))" using r by (intro round_f64_mono) simp
  moreover have "f_le (Fin 0) (round_f64 (r * 100))" using r by (intro round_f64_nonneg) simp
  ultimately obtain x where x: "round_f64 (r * 100) = Fin x" "0 \<le> x" "x \<le> 10 ^ 14"
    unfolding top by (cases "round_f64 (r * 100)") auto
  have away: "0 \<le> round_away x" "round_away x \<le> 10 ^ 14"
    using round_away_mono [of "of_int 0" x] round_away_mono [of x "of_int (10 ^ 14)"] x(2,3)
    unfolding round_away_of_int by simp_all
  have "c = word_of_int (max 0 (min (round_away x) (2 ^ 64 - 1)))"
    using assms r x(1) by (auto simp: dollars_to_cents_def trunc_rat_def split: if_splits)
  then have "uint c = round_away x"
    using away by (simp add: uint_word_of_int max_def min_def)
  with r(1) x show ?thesis by blast
qed

lemma cents_bound: "dollars_to_cents v = Some c \<Longrightarrow> uint c \<le> 10 ^ 14"
proof -
  assume "dollars_to_cents v = Some c"
  then obtain x where "x \<le> 10 ^ 14" "uint c = round_away x" using cents_value by blast
  then show ?thesis using round_away_mono [of x "of_int (10 ^ 14)"] unfolding round_away_of_int by simp
qed

lemma cents_mono:
  assumes "f_le a b" and "dollars_to_cents a = Some x" and "dollars_to_cents b = Some y"
  shows "x \<le> y"
proof -
  obtain r u where a: "a = Fin r" "round_f64 (r * 100) = Fin u" "uint x = round_away u" using cents_value [OF assms(2)] by blast
  obtain s v where b: "b = Fin s" "round_f64 (s * 100) = Fin v" "uint y = round_away v" using cents_value [OF assms(3)] by blast
  have "r * 100 \<le> s * 100" using assms(1) unfolding a(1) b(1) by simp
  then have "u \<le> v" by (rule round_f64_mono_Fin [OF _ a(2) b(2)])
  then show ?thesis unfolding word_le_def a(3) b(3) by (rule round_away_mono)
qed

lemma num_strikes_lt: "unat (w :: u32) < 2 ^ 32"
  using unsigned_less [of w] by simp

lemma small_difference:
  fixes k h :: nat
  assumes "k < 2 ^ 32" "h < 2 ^ 32"
  shows "\<bar>int k\<bar> < 2 ^ 53" "\<bar>int h\<bar> < 2 ^ 53" "\<bar>int k - int h\<bar> < 2 ^ 53"
  using assms by auto

text \<open>The strikes in dollars never decrease, infinite ones included.\<close>

lemma strike_dollars_mono:
  assumes "as_initial_price asset = Fin c" and "as_strike_spacing asset = Fin s" and "0 < s"
    and "i \<le> j" and "j < 2 ^ 32"
  shows "f_le (strike_dollars asset i) (strike_dollars asset j)"
proof -
  let ?h = "unat (as_num_strikes asset div 2)"
  have h: "?h < 2 ^ 32" by (rule num_strikes_lt)
  have sub: "f_sub (f_of_int (int k)) (f_of_int (int ?h)) = Fin (of_int (int k - int ?h))" if "k < 2 ^ 32" for k
  proof -
    note small_difference [OF that h]
    note this [THEN round_f64_int]
    then show ?thesis by (simp only: f_sub_def f_of_int_def f_neg.simps f_add.simps of_int_add of_int_minus diff_conv_add_uminus)
  qed
  have "f_le (f_mul (Fin (of_int (int i - int ?h))) (Fin s)) (f_mul (Fin (of_int (int j - int ?h))) (Fin s))"
    using assms(3,4) by (intro f_mul_mono_Fin) simp_all
  moreover have ij: "i < 2 ^ 32" "j < 2 ^ 32" using assms(4,5) by simp_all
  ultimately show ?thesis
    unfolding strike_dollars_def Let_def assms(1,2) sub [OF ij(1)] sub [OF ij(2)]
    by (intro f_max_mono f_add_mono)
qed

definition ascending :: "u64 list \<Rightarrow> bool" where
  "ascending ks \<longleftrightarrow> sorted_wrt (<) ks"

lemma ascending_snoc: "ascending ks \<Longrightarrow> (ks \<noteq> [] \<Longrightarrow> last ks < k) \<Longrightarrow> ascending (ks @ [k])"
proof (induction ks)
  case (Cons x xs)
  then show ?case by (cases xs) (auto simp: ascending_def intro: less_trans)
qed (simp add: ascending_def)

lemma generate_strikes_upto:
  assumes "as_initial_price asset = Fin c" and "as_strike_spacing asset = Fin s" and "0 < s" and "n \<le> 2 ^ 32"
  defines "ks \<equiv> fold (push_strike asset) [0..<n] []"
  shows "ascending ks \<and> length ks \<le> n \<and> (\<forall>k \<in> set ks. \<exists>i < n. dollars_to_cents (strike_dollars asset i) = Some k)
    \<and> (\<forall>i < n. \<forall>k. dollars_to_cents (strike_dollars asset i) = Some k \<longrightarrow> k \<in> set ks)"
  using assms(4) unfolding ks_def
proof (induction n)
  case (Suc n)
  define ks where "ks = fold (push_strike asset) [0..<n] []"
  have ih: "ascending ks" "length ks \<le> n" "\<forall>k \<in> set ks. \<exists>i < n. dollars_to_cents (strike_dollars asset i) = Some k"
      "\<forall>i < n. \<forall>k. dollars_to_cents (strike_dollars asset i) = Some k \<longrightarrow> k \<in> set ks"
    using Suc by (simp_all add: ks_def)
  have step: "fold (push_strike asset) [0..<Suc n] [] = push_strike asset n ks" by (simp add: ks_def)
  show ?case
  proof (cases "dollars_to_cents (strike_dollars asset n)")
    case None
    then show ?thesis using ih unfolding step by (auto simp: push_strike_def less_Suc_eq)
  next
    case (Some k)
    have le: "last ks \<le> k" if ne: "ks \<noteq> []"
    proof -
      obtain i where i: "i < n" "dollars_to_cents (strike_dollars asset i) = Some (last ks)"
        using ih(3) last_in_set [OF ne] by blast
      have "f_le (strike_dollars asset i) (strike_dollars asset n)"
        using i(1) Suc.prems by (intro strike_dollars_mono [OF assms(1-3)]) simp_all
      then show ?thesis using cents_mono i(2) Some by blast
    qed
    show ?thesis
    proof (cases "ks \<noteq> [] \<and> last ks = k")
      case True
      then have "push_strike asset n ks = ks" "k \<in> set ks" using Some by (auto simp: push_strike_def)
      then show ?thesis using ih Some unfolding step by (auto simp: less_Suc_eq)
    next
      case False
      then have p: "push_strike asset n ks = ks @ [k]" using Some by (auto simp: push_strike_def)
      have "ascending (ks @ [k])" using le False by (intro ascending_snoc ih(1)) (auto simp: less_le)
      then show ?thesis using ih Some unfolding step p by (auto simp: less_Suc_eq)
    qed
  qed
qed (simp add: ascending_def)

lemma validate_asset_ok:
  "validate_asset show_f64 a = Inr () \<longleftrightarrow>
     as_symbol a \<noteq> [] \<and> (\<exists>p. as_initial_price a = Fin p \<and> 0 < p \<and> p \<le> 10 ^ 12)
   \<and> (\<exists>v. as_volatility a = Fin v \<and> 0 < v \<and> v \<le> 5) \<and> (\<exists>d. as_drift a = Fin d)
   \<and> as_expirations a \<noteq> [] \<and> as_num_strikes a \<noteq> 0 \<and> (\<exists>s. as_strike_spacing a = Fin s \<and> 0 < s)"
  by (cases "as_initial_price a"; cases "as_volatility a"; cases "as_drift a"; cases "as_strike_spacing a")
    (auto simp: validate_asset_def max_initial_price_def max_volatility_def Let_def)

lemma validate_assets_ok:
  "validate_assets show_f64 as = Inr () \<longleftrightarrow> (\<forall>a \<in> set as. validate_asset show_f64 a = Inr ())"
  by (induction as) (auto split: sum.splits)

lemma dollars_to_cents_some:
  "0 \<le> p \<Longrightarrow> p \<le> 10 ^ 12 \<Longrightarrow> \<exists>c. dollars_to_cents (Fin p) = Some c"
  by (simp add: dollars_to_cents_def max_initial_price_def)

section \<open>Properties\<close>


definition demo_asset :: asset_config where
  "demo_asset = \<lparr>as_symbol = ''U'', as_name = ''Demo'', as_initial_price = Fin 100, as_volatility = Fin 1, as_drift = Fin 0,
     as_expirations = [''20300101''], as_num_strikes = 3, as_strike_spacing = Fin 10\<rparr>"

definition demo_config :: config where
  "demo_config = config_default\<lparr>cf_assets := [demo_asset]\<rparr>"


text \<open>
  A spacing below half a cent validates, and then the floor that should keep strikes positive
  lets a strike of zero cents through.
\<close>

lemma tiny_spacing_zero_strike:
  "\<exists>a. validate_asset (\<lambda>_. []) a = Inr () \<and> generate_strikes a = [0]"
proof -
  define r :: rat where "r = p2 (- 10)"
  have "round_f64 r = Fin r" unfolding r_def by (rule round_f64_p2) simp_all
  then have r: "round_f64 r = Fin r" "0 < r" "r \<le> 10 ^ 12" "r * 100 \<le> p2 (- 3)"
    by (simp_all add: r_def power_int_def power_one_over)
  let ?a = "demo_asset\<lparr>as_initial_price := Fin r, as_strike_spacing := Fin r, as_num_strikes := 1\<rparr>"
  have ok: "validate_asset (\<lambda>_. []) ?a = Inr ()" unfolding validate_asset_ok using r(3) by (simp add: demo_asset_def r(2))
  have "f_le (round_f64 (r * 100)) (Fin (p2 (- 3)))"
    using round_f64_mono [OF r(4)] by (subst (asm) round_f64_p2) simp_all
  moreover have "f_le (Fin 0) (round_f64 (r * 100))" using r(2) by (intro round_f64_nonneg) simp
  ultimately obtain x where x: "round_f64 (r * 100) = Fin x" "0 \<le> x" "x \<le> p2 (- 3)"
    by (cases "round_f64 (r * 100)") auto
  have zero: "round_away x = 0" using x(2,3) by (simp add: round_away_def power_int_def power_one_over floor_eq_iff)
  have "strike_dollars ?a 0 = Fin r"
    using r by (simp add: strike_dollars_def demo_asset_def f_sub_def f_of_int_def)
  then have "dollars_to_cents (strike_dollars ?a 0) = Some 0"
    using r x(1) zero by (simp add: dollars_to_cents_def max_initial_price_def trunc_rat_def)
  then have "generate_strikes ?a = [0]" by (simp add: generate_strikes_def push_strike_def)
  with ok show ?thesis by blast
qed

end
