(* ===== verification/Exchange.thy ===== *)
theory Exchange
  imports Errors Float64
begin

text \<open>
  The order-book library the backend is built on (\<open>option_chain_orderbook\<close>, \<open>orderbook_rs\<close>,
  \<open>optionstratlib\<close>, \<open>chrono\<close>) is not part of the repository: it is a record of functions over
  an opaque manager state \<open>'m\<close> and an opaque order id \<open>'o\<close>, one field per call the code makes.
  Above it stand the path helpers of \<open>src/src/api/handlers.rs\<close>: the parsing of styles,
  expirations and good-till-date instants, and the resolution of an expiration string to
  the key of a stored book.
\<close>

section \<open>The library's types\<close>

datatype opt_style = OptCall | OptPut

datatype book_side = BookBuy | BookSell

datatype book_tif = BookGtc | BookIoc | BookFok | BookGtd u64

text \<open>\<open>ExpirationDate\<close>: a relative number of days, or an instant (here in milliseconds).\<close>

datatype expiration = Days rat | DateTime int

type_synonym book_key = "string \<times> expiration \<times> u64 \<times> opt_style"

record book_trade =
  bt_price :: u128
  bt_quantity :: u64
  bt_timestamp :: u64
  bt_trade_id :: string
  bt_taker_order_id :: string
  bt_maker_order_id :: string

text \<open>
  A match result: \<open>executed_quantity()\<close> (\<open>None\<close> when it fails), \<open>remaining_quantity()\<close>,
  \<open>is_complete()\<close>, \<open>average_price().ok().flatten()\<close> and the trades in order.
\<close>

record match_result =
  mr_executed :: "u64 option"
  mr_remaining :: u64
  mr_complete :: bool
  mr_average :: "f64 option"
  mr_trades :: "book_trade list"

text \<open>
  The library. Lookups (\<open>get\<close>, \<open>get_expiration\<close>, \<open>get_strike\<close>) give the error text on
  failure; a book of a style exists with its strike. Calls that change the manager return
  its new state.
\<close>

record ('m, 'o) exchange =
  x_underlyings :: "'m \<Rightarrow> string list"
  x_get :: "'m \<Rightarrow> string \<Rightarrow> string + unit"
  x_get_or_create :: "'m \<Rightarrow> string \<Rightarrow> 'm"
  x_delete_underlying :: "'m \<Rightarrow> string \<Rightarrow> 'm \<times> bool"
  x_expirations :: "'m \<Rightarrow> string \<Rightarrow> expiration list"
  x_get_expiration :: "'m \<Rightarrow> string \<Rightarrow> expiration \<Rightarrow> string + unit"
  x_get_or_create_expiration :: "'m \<Rightarrow> string \<Rightarrow> expiration \<Rightarrow> 'm"
  x_strikes :: "'m \<Rightarrow> string \<Rightarrow> expiration \<Rightarrow> u64 list"
  x_get_strike :: "'m \<Rightarrow> string \<Rightarrow> expiration \<Rightarrow> u64 \<Rightarrow> string + unit"
  x_get_or_create_strike :: "'m \<Rightarrow> string \<Rightarrow> expiration \<Rightarrow> u64 \<Rightarrow> 'm"
  x_symbol :: "'m \<Rightarrow> book_key \<Rightarrow> string"
  x_add_tif :: "'m \<Rightarrow> book_key \<Rightarrow> 'o \<Rightarrow> book_side \<Rightarrow> u128 \<Rightarrow> u64 \<Rightarrow> book_tif \<Rightarrow> 'm \<times> (string + match_result)"
  x_add_full :: "'m \<Rightarrow> book_key \<Rightarrow> 'o \<Rightarrow> book_side \<Rightarrow> u128 \<Rightarrow> u64 \<Rightarrow> 'm \<times> (string + match_result)"
  x_add_limit :: "'m \<Rightarrow> book_key \<Rightarrow> 'o \<Rightarrow> book_side \<Rightarrow> u128 \<Rightarrow> u64 \<Rightarrow> 'm \<times> (string + unit)"
  x_market :: "'m \<Rightarrow> book_key \<Rightarrow> 'o \<Rightarrow> u64 \<Rightarrow> book_side \<Rightarrow> 'm \<times> (string + match_result)"
  x_cancel :: "'m \<Rightarrow> book_key \<Rightarrow> 'o \<Rightarrow> 'm \<times> (string + bool)"
  x_order :: "'m \<Rightarrow> book_key \<Rightarrow> 'o \<Rightarrow> (book_side \<times> u128 \<times> u64) option"
  x_orders_at :: "'m \<Rightarrow> book_key \<Rightarrow> u128 \<Rightarrow> book_side \<Rightarrow> u64 list"
  x_oid_str :: "'o \<Rightarrow> string"
  x_oid_parse :: "string \<Rightarrow> 'o option"
  x_exp_eq :: "expiration \<Rightarrow> expiration \<Rightarrow> bool"
  x_exp_ymd :: "expiration \<Rightarrow> string option"
  x_exp_display :: "expiration \<Rightarrow> string"
  x_from_ymd :: "int \<Rightarrow> nat \<Rightarrow> nat \<Rightarrow> int option"
  x_tif_display :: "book_tif \<Rightarrow> string"
  x_parse_rfc3339 :: "string \<Rightarrow> string + int"

section \<open>Path helpers\<close>

text \<open>The quotation mark of error messages.\<close>

definition qm :: string where "qm = [CHR 0x27]"

definition order_side_to_side :: "order_side \<Rightarrow> book_side" where
  "order_side_to_side s = (case s of Buy \<Rightarrow> BookBuy | Sell \<Rightarrow> BookSell)"

fun side_to_order_side :: "book_side \<Rightarrow> order_side" where
  "side_to_order_side BookBuy = Buy"
| "side_to_order_side BookSell = Sell"

fun opposite :: "book_side \<Rightarrow> book_side" where
  "opposite BookBuy = BookSell"
| "opposite BookSell = BookBuy"

fun style_char :: "opt_style \<Rightarrow> string" where
  "style_char OptCall = ''C''"
| "style_char OptPut = ''P''"

fun canonical_style :: "opt_style \<Rightarrow> string" where
  "canonical_style OptCall = ''call''"
| "canonical_style OptPut = ''put''"

fun wire_to_style :: "wire_style \<Rightarrow> opt_style" where
  "wire_to_style WireCall = OptCall"
| "wire_to_style WirePut = OptPut"

definition option_symbol :: "string \<Rightarrow> string \<Rightarrow> u64 \<Rightarrow> opt_style \<Rightarrow> string" where
  "option_symbol underlying e strike style =
     underlying @ ''-'' @ e @ ''-'' @ show_word strike @ ''-'' @ style_char style"

definition parse_option_style :: "string \<Rightarrow> api_error + opt_style" where
  "parse_option_style style =
     (let l = ascii_lower style in
      if l = ''call'' \<or> l = ''c'' then Inr OptCall
      else if l = ''put'' \<or> l = ''p'' then Inr OptPut
      else Inl (InvalidRequest (''Invalid option style: '' @ style @ ''. Use '' @ qm @ ''call'' @ qm
             @ '' or '' @ qm @ ''put'' @ qm)))"

definition max_expiration_days :: int where
  "max_expiration_days = 36500"

definition format_expiration :: "('m, 'o) exchange \<Rightarrow> expiration \<Rightarrow> string" where
  "format_expiration X e = (case x_exp_ymd X e of Some d \<Rightarrow> d | None \<Rightarrow> x_exp_display X e)"

text \<open>
  \<open>x_from_ymd\<close> is \<open>NaiveDate::from_ymd_opt\<close> followed by \<open>and_hms_opt(16, 0, 0)\<close>, which never
  fails. \<open>Positive::new\<close> of a positive count of days never fails either.
\<close>

definition parse_expiration :: "('m, 'o) exchange \<Rightarrow> string \<Rightarrow> api_error + expiration" where
  "parse_expiration X s =
     (if length s = 8 \<and> list_all is_digit s then
        (case (parse_i32 (take 4 s), parse_u32 (take 2 (drop 4 s)), parse_u32 (take 2 (drop 6 s))) of
           (Some year, Some month, Some day) \<Rightarrow>
             (case x_from_ymd X year month day of
                Some t \<Rightarrow> Inr (DateTime t)
              | None \<Rightarrow> Inl (InvalidRequest (''invalid expiration date: '' @ s @
                  ''. An 8-digit expiration must be a valid YYYYMMDD calendar date'')))
         | _ \<Rightarrow> Inl (InvalidRequest (''invalid expiration date: '' @ s @
                  ''. An 8-digit expiration must be a valid YYYYMMDD calendar date'')))
      else
        (case parse_i32 s of
           Some days \<Rightarrow>
             if days \<le> 0 then Inl (InvalidRequest (''invalid expiration: '' @ s @
                  ''. Expiration must be a positive number of days''))
             else if days > max_expiration_days then Inl (InvalidRequest (''invalid expiration: '' @ s @
                  ''. Expiration must be at most '' @ show_int max_expiration_days @ '' days''))
             else Inr (Days (of_int days))
         | None \<Rightarrow> Inl (InvalidRequest (''Invalid expiration format: '' @ s @ ''. Use days (e.g., '' @ qm
                  @ ''30'' @ qm @ '') or YYYYMMDD (e.g., '' @ qm @ ''20240329'' @ qm @ '')''))))"

definition find_expiration_by_str ::
  "('m, 'o) exchange \<Rightarrow> 'm \<Rightarrow> string \<Rightarrow> string \<Rightarrow> expiration option" where
  "find_expiration_by_str X m underlying s =
     (case find (\<lambda>e. format_expiration X e = s) (x_expirations X m underlying) of
        Some e \<Rightarrow> Some e
      | None \<Rightarrow>
          (case parse_expiration X s of
             Inl _ \<Rightarrow> None
           | Inr parsed \<Rightarrow> find (\<lambda>e. x_exp_eq X e parsed) (x_expirations X m underlying)))"

definition parse_gtd_expire_at :: "('m, 'o) exchange \<Rightarrow> string option \<Rightarrow> u64 \<Rightarrow> api_error + u64" where
  "parse_gtd_expire_at X expire_at now_ms =
     (case expire_at of
        None \<Rightarrow> Inl (InvalidRequest ''GTD order requires expire_at'')
      | Some s \<Rightarrow>
          (case x_parse_rfc3339 X s of
             Inl e \<Rightarrow> Inl (InvalidRequest (''invalid expire_at '' @ qm @ s @ qm @ '': '' @ e))
           | Inr millis \<Rightarrow>
               if millis < 0 \<or> 2 ^ 64 \<le> millis
               then Inl (InvalidRequest (''invalid expire_at '' @ qm @ s @ qm @ '': out of representable range''))
               else if (word_of_int millis :: u64) \<le> now_ms
               then Inl (InvalidRequest (''expire_at '' @ qm @ s @ qm
                      @ '' is in the past or now; GTD order would expire immediately''))
               else Inr (word_of_int millis)))"

text \<open>
  The lookup chain of the handlers: the underlying, the expiration string resolved to a
  stored key, the expiration book, the strike book. Each failure is its own error.
\<close>

definition resolve_book ::
  "('m, 'o) exchange \<Rightarrow> 'm \<Rightarrow> string \<Rightarrow> string \<Rightarrow> u64 \<Rightarrow> opt_style \<Rightarrow> api_error + book_key" where
  "resolve_book X m underlying s strike style =
     (case x_get X m underlying of
        Inl _ \<Rightarrow> Inl (UnderlyingNotFound underlying)
      | Inr _ \<Rightarrow>
          (case find_expiration_by_str X m underlying s of
             None \<Rightarrow> Inl (ExpirationNotFound s)
           | Some e \<Rightarrow>
               (case x_get_expiration X m underlying e of
                  Inl _ \<Rightarrow> Inl (ExpirationNotFound s)
                | Inr _ \<Rightarrow>
                    (case x_get_strike X m underlying e strike of
                       Inl _ \<Rightarrow> Inl (StrikeNotFound strike)
                     | Inr _ \<Rightarrow> Inr (underlying, e, strike, style)))))"

definition create_book ::
  "('m, 'o) exchange \<Rightarrow> 'm \<Rightarrow> string \<Rightarrow> expiration \<Rightarrow> u64 \<Rightarrow> 'm" where
  "create_book X m underlying e strike =
     (let m = x_get_or_create X m underlying;
          m = x_get_or_create_expiration X m underlying e
      in x_get_or_create_strike X m underlying e strike)"

section \<open>Lemmas\<close>

lemma parse_option_style_display [simp]: "parse_option_style (canonical_style s) = Inr s"
  by (cases s) (simp_all add: parse_option_style_def lower_char_def)

lemma find_Some_in: "find P xs = Some x \<Longrightarrow> x \<in> set xs \<and> P x"
  by (auto simp: find_Some_iff)

lemma find_expiration_stored:
  "find_expiration_by_str X m u s = Some e \<Longrightarrow> e \<in> set (x_expirations X m u)"
  by (auto simp: find_expiration_by_str_def dest!: find_Some_in split: option.splits sum.splits)

lemma resolve_book_Inr:
  assumes "resolve_book X m u s k st = Inr bk"
  obtains e where "bk = (u, e, k, st)" "find_expiration_by_str X m u s = Some e"
    "x_get X m u = Inr ()" "x_get_expiration X m u e = Inr ()" "x_get_strike X m u e k = Inr ()"
  using assms by (auto simp: resolve_book_def split: sum.splits option.splits)

end
