(* ===== verification/Quoter.thy ===== *)
theory Quoter
  imports Exchange
begin

text \<open>
  \<open>src/src/market_maker/pricer.rs\<close> and \<open>src/src/market_maker/quoter.rs\<close>: the Black-Scholes
  pricer and the two-sided quotes around its theoretical value, in \<open>f64\<close> arithmetic with
  every cast to integers written out. The platform's \<open>ln\<close>, \<open>exp\<close> and \<open>sqrt\<close> are the record
  \<open>libm\<close>.
\<close>

section \<open>The pricer\<close>

record libm =
  lm_ln :: "f64 \<Rightarrow> f64"
  lm_exp :: "f64 \<Rightarrow> f64"
  lm_sqrt :: "f64 \<Rightarrow> f64"

record option_pricer =
  op_risk_free_rate :: f64
  op_default_iv :: f64

definition pricer_default :: option_pricer where
  "pricer_default = \<lparr>op_risk_free_rate = f_lit (5 / 100), op_default_iv = f_lit (30 / 100)\<rparr>"

definition f_one :: f64 where "f_one = Fin 1"
definition f_zero :: f64 where "f_zero = Fin 0"
definition f_two :: f64 where "f_two = Fin 2"

text \<open>\<open>now\<close> is the clock in milliseconds; a date is counted in whole seconds, truncated.\<close>

fun time_to_expiry :: "int \<Rightarrow> expiration \<Rightarrow> f64" where
  "time_to_expiry now (Days d) = f_div (round_f64 d) (Fin 365)"
| "time_to_expiry now (DateTime t) =
     f_div (f_of_int (trunc_rat (of_int (t - now) / 1000))) (Fin (365 * 24 * 3600))"

definition erf :: "libm \<Rightarrow> f64 \<Rightarrow> f64" where
  "erf L x =
     (let a1 = f_lit (254829592 / 10 ^ 9); a2 = f_neg (f_lit (284496736 / 10 ^ 9));
          a3 = f_lit (1421413741 / 10 ^ 9); a4 = f_neg (f_lit (1453152027 / 10 ^ 9));
          a5 = f_lit (1061405429 / 10 ^ 9); p = f_lit (3275911 / 10 ^ 7);
          sign = (if f_lt x f_zero then Fin (- 1) else f_one);
          x = f_abs x;
          t = f_div f_one (f_add f_one (f_mul p x));
          poly = f_mul (f_add (f_mul (f_add (f_mul (f_add (f_mul (f_add (f_mul a5 t) a4) t) a3) t) a2) t) a1) t;
          y = f_sub f_one (f_mul poly (lm_exp L (f_mul (f_neg x) x)))
      in f_mul sign y)"

definition sqrt_2 :: f64 where "sqrt_2 = f_lit (141421356237309504880 / 10 ^ 20)"
definition const_pi :: f64 where "const_pi = f_lit (314159265358979323846 / 10 ^ 20)"

definition norm_cdf :: "libm \<Rightarrow> f64 \<Rightarrow> f64" where
  "norm_cdf L x = f_mul (Fin (1 / 2)) (f_add f_one (erf L (f_div x sqrt_2)))"

definition norm_pdf :: "libm \<Rightarrow> f64 \<Rightarrow> f64" where
  "norm_pdf L x =
     f_div (lm_exp L (f_div (f_mul (f_neg x) x) f_two)) (lm_sqrt L (f_mul f_two const_pi))"

definition bs_d1 :: "libm \<Rightarrow> option_pricer \<Rightarrow> f64 \<Rightarrow> f64 \<Rightarrow> f64 \<Rightarrow> f64 \<Rightarrow> f64" where
  "bs_d1 L p sigma t spot strike =
     f_div (f_add (lm_ln L (f_div spot strike))
              (f_mul (f_add (op_risk_free_rate p) (f_div (f_mul sigma sigma) f_two)) t))
           (f_mul sigma (lm_sqrt L t))"

definition theoretical_value ::
  "libm \<Rightarrow> int \<Rightarrow> option_pricer \<Rightarrow> f64 \<Rightarrow> f64 \<Rightarrow> expiration \<Rightarrow> opt_style \<Rightarrow> f64 option \<Rightarrow> f64" where
  "theoretical_value L now p spot strike e style iv =
     (let sigma = (case iv of Some v \<Rightarrow> v | None \<Rightarrow> op_default_iv p);
          t = time_to_expiry now e
      in if f_le t f_zero
         then (case style of
                 OptCall \<Rightarrow> f_max (f_sub spot strike) f_zero
               | OptPut \<Rightarrow> f_max (f_sub strike spot) f_zero)
         else (let d1 = bs_d1 L p sigma t spot strike;
                   d2 = f_sub d1 (f_mul sigma (lm_sqrt L t));
                   discount = lm_exp L (f_mul (f_neg (op_risk_free_rate p)) t)
               in case style of
                    OptCall \<Rightarrow> f_sub (f_mul spot (norm_cdf L d1))
                                    (f_mul (f_mul strike discount) (norm_cdf L d2))
                  | OptPut \<Rightarrow> f_sub (f_mul (f_mul strike discount) (norm_cdf L (f_neg d2)))
                                   (f_mul spot (norm_cdf L (f_neg d1)))))"

definition delta ::
  "libm \<Rightarrow> int \<Rightarrow> option_pricer \<Rightarrow> f64 \<Rightarrow> f64 \<Rightarrow> expiration \<Rightarrow> opt_style \<Rightarrow> f64 option \<Rightarrow> f64" where
  "delta L now p spot strike e style iv =
     (let sigma = (case iv of Some v \<Rightarrow> v | None \<Rightarrow> op_default_iv p);
          t = time_to_expiry now e
      in if f_le t f_zero
         then (case style of
                 OptCall \<Rightarrow> if f_lt strike spot then f_one else f_zero
               | OptPut \<Rightarrow> if f_lt spot strike then Fin (- 1) else f_zero)
         else (let d1 = bs_d1 L p sigma t spot strike
               in case style of
                    OptCall \<Rightarrow> norm_cdf L d1
                  | OptPut \<Rightarrow> f_sub (norm_cdf L d1) f_one))"

definition gamma ::
  "libm \<Rightarrow> int \<Rightarrow> option_pricer \<Rightarrow> f64 \<Rightarrow> f64 \<Rightarrow> expiration \<Rightarrow> f64 option \<Rightarrow> f64" where
  "gamma L now p spot strike e iv =
     (let sigma = (case iv of Some v \<Rightarrow> v | None \<Rightarrow> op_default_iv p);
          t = time_to_expiry now e
      in if f_le t f_zero then f_zero
         else f_div (norm_pdf L (bs_d1 L p sigma t spot strike))
                (f_mul (f_mul spot sigma) (lm_sqrt L t)))"

definition vega ::
  "libm \<Rightarrow> int \<Rightarrow> option_pricer \<Rightarrow> f64 \<Rightarrow> f64 \<Rightarrow> expiration \<Rightarrow> f64 option \<Rightarrow> f64" where
  "vega L now p spot strike e iv =
     (let sigma = (case iv of Some v \<Rightarrow> v | None \<Rightarrow> op_default_iv p);
          t = time_to_expiry now e
      in if f_le t f_zero then f_zero
         else f_div (f_mul (f_mul spot (norm_pdf L (bs_d1 L p sigma t spot strike))) (lm_sqrt L t)) (Fin 100))"

definition theta ::
  "libm \<Rightarrow> int \<Rightarrow> option_pricer \<Rightarrow> f64 \<Rightarrow> f64 \<Rightarrow> expiration \<Rightarrow> opt_style \<Rightarrow> f64 option \<Rightarrow> f64" where
  "theta L now p spot strike e style iv =
     (let sigma = (case iv of Some v \<Rightarrow> v | None \<Rightarrow> op_default_iv p);
          t = time_to_expiry now e
      in if f_le t f_zero then f_zero
         else (let d1 = bs_d1 L p sigma t spot strike;
                   d2 = f_sub d1 (f_mul sigma (lm_sqrt L t));
                   discount = lm_exp L (f_mul (f_neg (op_risk_free_rate p)) t);
                   term1 = f_div (f_mul (f_mul (f_neg spot) (norm_pdf L d1)) sigma)
                             (f_mul f_two (lm_sqrt L t));
                   carry = f_mul (f_mul (op_risk_free_rate p) strike) discount;
                   th = (case style of
                           OptCall \<Rightarrow> f_sub term1 (f_mul carry (norm_cdf L d2))
                         | OptPut \<Rightarrow> f_add term1 (f_mul carry (norm_cdf L (f_neg d2))))
               in f_div th (Fin 365)))"

section \<open>The quoter\<close>

record quote_params =
  qp_bid_price :: u128
  qp_ask_price :: u128
  qp_bid_size :: u64
  qp_ask_size :: u64
  qp_theo_price :: u64

record quote_input =
  qi_spot_cents :: u64
  qi_strike_cents :: u64
  qi_expiration :: expiration
  qi_style :: opt_style
  qi_spread_multiplier :: f64
  qi_size_scalar :: f64
  qi_directional_skew :: f64
  qi_iv :: "f64 option"

text \<open>The pricer appears as the theoretical value it computes at the current clock.\<close>

record quoter =
  qt_theo :: "f64 \<Rightarrow> f64 \<Rightarrow> expiration \<Rightarrow> opt_style \<Rightarrow> f64 option \<Rightarrow> f64"
  qt_base_spread_bps :: u64
  qt_base_size :: u64

definition quoter_default :: "libm \<Rightarrow> int \<Rightarrow> quoter" where
  "quoter_default L now =
     \<lparr>qt_theo = theoretical_value L now pricer_default, qt_base_spread_bps = 100, qt_base_size = 10\<rparr>"

definition half_spread :: "quoter \<Rightarrow> quote_input \<Rightarrow> u64 \<Rightarrow> u64" where
  "half_spread qt i theo_cents =
     (let half_spread_bps = f_as_u64 (f_div (f_mul (f_of_u64 (qt_base_spread_bps qt)) (qi_spread_multiplier i)) f_two)
      in f_as_u64 (f_max (f_div (f_mul (f_of_u64 theo_cents) (f_of_u64 half_spread_bps)) (Fin 10000)) f_one))"

definition quote_sizes :: "quoter \<Rightarrow> quote_input \<Rightarrow> u64 \<times> u64" where
  "quote_sizes qt i =
     (let base_size = f_as_u64 (f_max (f_mul (f_of_u64 (qt_base_size qt)) (qi_size_scalar i)) f_one);
          skew = qi_directional_skew i;
          skew_size_factor = f_sub f_one (f_mul (f_abs skew) (f_lit (3 / 10)));
          reduced = f_as_u64 (f_mul (f_of_u64 base_size) skew_size_factor)
      in if f_lt f_zero skew then (base_size, reduced)
         else if f_lt skew f_zero then (reduced, base_size)
         else (base_size, base_size))"

text \<open>\<open>bid_price as i64\<close> is exact: the bid is a positive \<open>i64\<close>.\<close>

definition generate_quote :: "quoter \<Rightarrow> quote_input \<Rightarrow> quote_params option" where
  "generate_quote qt i =
     (let spot = f_div (f_of_u64 (qi_spot_cents i)) (Fin 100);
          strike = f_div (f_of_u64 (qi_strike_cents i)) (Fin 100);
          theo = qt_theo qt spot strike (qi_expiration i) (qi_style i) (qi_iv i);
          theo_scaled = f_mul theo (Fin 100)
      in if \<not> f_is_finite theo then None
         else if \<not> f_is_finite theo_scaled then None
         else
           (let theo_cents = f_as_u64 (f_round theo_scaled);
                half_spread_cents = half_spread qt i theo_cents;
                skew_adjustment = f_as_i64 (f_mul (f_mul (f_of_u64 half_spread_cents)
                                     (qi_directional_skew i)) (Fin (1 / 2)));
                adjustment = (case qi_style i of
                                OptCall \<Rightarrow> skew_adjustment | OptPut \<Rightarrow> wrap_i64 (- skew_adjustment));
                bid = max (wrap_i64 (wrap_i64 (sint theo_cents - sint half_spread_cents) + adjustment)) 1;
                ask = max (wrap_i64 (wrap_i64 (sint theo_cents + sint half_spread_cents) + adjustment))
                        (wrap_i64 (bid + 1));
                (bid_size, ask_size) = quote_sizes qt i
            in Some \<lparr>qp_bid_price = word_of_int bid, qp_ask_price = word_of_int ask,
                     qp_bid_size = max bid_size 1, qp_ask_size = max ask_size 1,
                     qp_theo_price = theo_cents\<rparr>))"

definition calculate_edge :: "u64 \<Rightarrow> u64 \<Rightarrow> bool \<Rightarrow> i64" where
  "calculate_edge fill_price_cents theo_cents is_buy =
     (if is_buy then wrap_i64 (sint theo_cents - sint fill_price_cents)
      else wrap_i64 (sint fill_price_cents - sint theo_cents))"

definition theo_of :: "quoter \<Rightarrow> quote_input \<Rightarrow> f64" where
  "theo_of qt i = qt_theo qt (f_div (f_of_u64 (qi_spot_cents i)) (Fin 100))
     (f_div (f_of_u64 (qi_strike_cents i)) (Fin 100)) (qi_expiration i) (qi_style i) (qi_iv i)"

lemma generate_quote_finite:
  "f_is_finite (theo_of qt i) \<Longrightarrow> f_is_finite (f_mul (theo_of qt i) (Fin 100)) \<Longrightarrow>
   \<exists>q. generate_quote qt i = Some q"
  by (auto simp: generate_quote_def theo_of_def Let_def split: prod.splits)

section \<open>Properties\<close>

text \<open>
  C35. A quote is two-sided and never crossed: the bid is at least one cent, the ask is
  above the bid (unless the bid is the largest \<open>i64\<close>), both sizes are positive; and there is
  no quote at all when the theoretical value, or that value in cents, is not finite.
\<close>

theorem quote_never_crossed:
  shows "(\<forall>q. generate_quote qt i = Some q \<longrightarrow>
       1 \<le> qp_bid_price q \<and> 1 \<le> qp_bid_size q \<and> 1 \<le> qp_ask_size q
       \<and> (uint (qp_bid_price q) < 2 ^ 63 - 1 \<longrightarrow> qp_bid_price q < qp_ask_price q))
    \<and> (generate_quote qt i = None \<longleftrightarrow> \<not> f_is_finite (theo_of qt i) \<or> \<not> f_is_finite (f_mul (theo_of qt i) (Fin 100)))"
proof -
  have "1 \<le> qp_bid_price q \<and> 1 \<le> qp_bid_size q \<and> 1 \<le> qp_ask_size q
       \<and> (uint (qp_bid_price q) < 2 ^ 63 - 1 \<longrightarrow> qp_bid_price q < qp_ask_price q)"
    if gen: "generate_quote qt i = Some q" for q
  proof -
    obtain x y b s where q: "qp_bid_price q = word_of_int (max (wrap_i64 x) 1)"
        "qp_ask_price q = word_of_int (max (wrap_i64 y) (wrap_i64 (max (wrap_i64 x) 1 + 1)))"
        "qp_bid_size q = max b 1" "qp_ask_size q = max s 1"
      using gen by (auto simp: generate_quote_def Let_def split: if_splits prod.splits)
    let ?b = "max (wrap_i64 x) 1" and ?a = "max (wrap_i64 y) (wrap_i64 (max (wrap_i64 x) 1 + 1))"
    have b: "1 \<le> ?b" "?b < 2 ^ 63" and a: "?a < 2 ^ 63"
      using in_i64_wrap [of x] in_i64_wrap [of y] in_i64_wrap [of "?b + 1"] by (auto simp: in_i64_def)
    have ub: "uint (qp_bid_price q) = ?b"
      using b by (simp add: q uint_word_of_int)
    have "qp_bid_price q < qp_ask_price q" if "?b < 2 ^ 63 - 1"
    proof -
      have "wrap_i64 (?b + 1) = ?b + 1"
        using b that by (intro wrap_i64_id) (simp add: in_i64_def)
      then have "?b + 1 \<le> ?a" by (metis max.cobounded2)
      then have "?b < ?a" by linarith
      moreover have "uint (qp_ask_price q) = ?a"
        using calculation a b by (simp add: q uint_word_of_int)
      ultimately show ?thesis using ub by (simp add: word_less_def)
    qed
    then show ?thesis
      using b ub by (simp add: q(3,4) word_le_def [of 1 "qp_bid_price q"])
  qed
  then show ?thesis by (auto simp: generate_quote_def theo_of_def Let_def split: prod.splits)
qed

definition demo_quoter :: "f64 \<Rightarrow> quoter" where
  "demo_quoter v = \<lparr>qt_theo = (\<lambda>_ _ _ _ _. v), qt_base_spread_bps = 100, qt_base_size = 10\<rparr>"

definition demo_input :: quote_input where
  "demo_input = \<lparr>qi_spot_cents = 10000, qi_strike_cents = 10000, qi_expiration = Days 30, qi_style = OptCall,
     qi_spread_multiplier = Fin 1, qi_size_scalar = Fin 1, qi_directional_skew = Fin (1 / 2), qi_iv = None\<rparr>"

lemma quote_never_crossed_witness:
  "generate_quote (demo_quoter NaN) demo_input = None
   \<and> (\<exists>q. generate_quote (demo_quoter (Fin 0)) demo_input = Some q \<and> 1 \<le> qp_bid_price q)"
proof -
  have "theo_of (demo_quoter v) demo_input = v" for v
    by (simp add: theo_of_def demo_quoter_def)
  then show ?thesis
    using quote_never_crossed [of "demo_quoter NaN" demo_input]
      quote_never_crossed [of "demo_quoter (Fin 0)" demo_input]
    by (cases "generate_quote (demo_quoter (Fin 0)) demo_input") (auto simp: round_f64_def)
qed

text \<open>
  An expired option is priced at its intrinsic value, which is never negative and needs
  no transcendental function, and its gamma, vega and theta are zero.
\<close>

theorem expired_option_intrinsic:
  assumes "f_le (time_to_expiry now e) f_zero"
  shows "theoretical_value L now p (Fin s) (Fin k) e style iv =
      f_max (case style of OptCall \<Rightarrow> round_f64 (s - k) | OptPut \<Rightarrow> round_f64 (k - s)) f_zero
    \<and> f_le f_zero (theoretical_value L now p (Fin s) (Fin k) e style iv)
    \<and> gamma L now p (Fin s) (Fin k) e iv = f_zero
    \<and> vega L now p (Fin s) (Fin k) e iv = f_zero
    \<and> theta L now p (Fin s) (Fin k) e style iv = f_zero"
proof -
  have pos: "f_le f_zero (f_max x f_zero)" for x
    by (cases x) (auto simp: f_zero_def)
  show ?thesis
    using assms pos
    by (auto simp: theoretical_value_def gamma_def vega_def theta_def f_sub_def split: opt_style.splits)
qed

definition demo_libm :: libm where
  "demo_libm = \<lparr>lm_ln = (\<lambda>x. x), lm_exp = (\<lambda>x. x), lm_sqrt = (\<lambda>x. x)\<rparr>"

lemma expired_option_intrinsic_witness:
  "gamma demo_libm 5000 pricer_default (Fin 100) (Fin 90) (DateTime 5000) None = f_zero"
proof -
  have "f_le (time_to_expiry 5000 (DateTime 5000)) f_zero"
    by (simp add: trunc_rat_def f_of_int_def round_f64_def f_zero_def)
  from expired_option_intrinsic [OF this] show ?thesis by blast
qed

end
