(* ===== verification/Demo_Exchange.thy ===== *)
theory Demo_Exchange
  imports Exchange
begin

text \<open>
  What the theorems assume of the order-book library, as named predicates, and one small
  exchange that satisfies them. The exchange is used only by witnesses: it lists its books
  and resting orders, and matches an incoming order against the list in order.
\<close>

section \<open>Laws of the library\<close>

text \<open>A match result accounts for the whole submitted quantity.\<close>

definition result_conserves :: "u64 \<Rightarrow> match_result \<Rightarrow> bool" where
  "result_conserves quantity r \<longleftrightarrow>
     uint (case mr_executed r of Some e \<Rightarrow> e | None \<Rightarrow> 0) + uint (mr_remaining r) = uint quantity
     \<and> (mr_complete r \<longleftrightarrow> mr_remaining r = 0)"

definition conserves_quantity :: "('m, 'o) exchange \<Rightarrow> bool" where
  "conserves_quantity X \<longleftrightarrow>
     (\<forall>m bk i s p q t m' r. x_add_tif X m bk i s p q t = (m', Inr r) \<longrightarrow> result_conserves q r) \<and>
     (\<forall>m bk i s p q m' r. x_add_full X m bk i s p q = (m', Inr r) \<longrightarrow> result_conserves q r)"

text \<open>
  A cancel takes the order off its book, adds no order anywhere, and leaves the books.
\<close>

definition cancel_only_removes :: "('m, 'o) exchange \<Rightarrow> bool" where
  "cancel_only_removes X \<longleftrightarrow>
     (\<forall>m bk i. x_order X (fst (x_cancel X m bk i)) bk i = None) \<and>
     (\<forall>m bk i bk' j. x_order X m bk' j = None \<longrightarrow> x_order X (fst (x_cancel X m bk i)) bk' j = None) \<and>
     (\<forall>m bk i. x_get X (fst (x_cancel X m bk i)) = x_get X m
        \<and> x_get_expiration X (fst (x_cancel X m bk i)) = x_get_expiration X m
        \<and> x_get_strike X (fst (x_cancel X m bk i)) = x_get_strike X m)"

definition ids_roundtrip :: "('m, 'o) exchange \<Rightarrow> bool" where
  "ids_roundtrip X \<longleftrightarrow> (\<forall>i. x_oid_parse X (x_oid_str X i) = Some i)"

section \<open>A small exchange\<close>

type_synonym demo_order = "book_key \<times> nat \<times> book_side \<times> u128 \<times> u64"

record demo_state =
  ds_underlyings :: "string list"
  ds_expirations :: "(string \<times> expiration) list"
  ds_strikes :: "(string \<times> expiration \<times> u64) list"
  ds_orders :: "demo_order list"

definition demo_empty :: demo_state where
  "demo_empty = \<lparr>ds_underlyings = [], ds_expirations = [], ds_strikes = [], ds_orders = []\<rparr>"

definition add_once :: "'a \<Rightarrow> 'a list \<Rightarrow> 'a list" where
  "add_once x xs = (if x \<in> set xs then xs else xs @ [x])"

definition demo_crosses :: "book_side \<Rightarrow> u128 option \<Rightarrow> u128 \<Rightarrow> bool" where
  "demo_crosses taker limit price =
     (case limit of None \<Rightarrow> True
      | Some l \<Rightarrow> (case taker of BookBuy \<Rightarrow> price \<le> l | BookSell \<Rightarrow> l \<le> price))"

text \<open>The orders left, the trades and the quantity left, for a taker of \<open>q\<close>.\<close>

fun demo_match ::
  "book_key \<Rightarrow> nat \<Rightarrow> book_side \<Rightarrow> u128 option \<Rightarrow> u64 \<Rightarrow> demo_order list
   \<Rightarrow> demo_order list \<times> book_trade list \<times> u64" where
  "demo_match bk i s limit q [] = ([], [], q)"
| "demo_match bk i s limit q ((bk', j, s', p, r) # os) =
     (if bk' = bk \<and> s' = opposite s \<and> demo_crosses s limit p \<and> 0 < q \<and> 0 < r
      then (let f = min q r;
                (os', ts, q') = demo_match bk i s limit (q - f) os;
                t = \<lparr>bt_price = p, bt_quantity = f, bt_timestamp = 60000,
                     bt_trade_id = show_nat i @ ''-'' @ show_nat j,
                     bt_taker_order_id = show_nat i, bt_maker_order_id = show_nat j\<rparr>
            in ((if r = f then os' else (bk', j, s', p, r - f) # os'), t # ts, q'))
      else (let (os', ts, q') = demo_match bk i s limit q os in ((bk', j, s', p, r) # os', ts, q')))"

definition demo_result :: "u64 \<Rightarrow> u64 \<Rightarrow> book_trade list \<Rightarrow> match_result" where
  "demo_result q q' ts = \<lparr>mr_executed = Some (q - q'), mr_remaining = q', mr_complete = (q' = 0),
     mr_average = None, mr_trades = ts\<rparr>"

definition demo_add ::
  "demo_state \<Rightarrow> book_key \<Rightarrow> nat \<Rightarrow> book_side \<Rightarrow> u128 \<Rightarrow> u64 \<Rightarrow> demo_state \<times> (string + match_result)" where
  "demo_add m bk i s p q =
     (let (os, ts, q') = demo_match bk i s (Some p) q (ds_orders m)
      in (m\<lparr>ds_orders := (if q' = 0 then os else os @ [(bk, i, s, p, q')])\<rparr>, Inr (demo_result q q' ts)))"

definition demo_market ::
  "demo_state \<Rightarrow> book_key \<Rightarrow> nat \<Rightarrow> u64 \<Rightarrow> book_side \<Rightarrow> demo_state \<times> (string + match_result)" where
  "demo_market m bk i q s =
     (let (os, ts, q') = demo_match bk i s None q (ds_orders m)
      in (m\<lparr>ds_orders := os\<rparr>, Inr (demo_result q q' ts)))"

definition demo_is :: "book_key \<Rightarrow> nat \<Rightarrow> demo_order \<Rightarrow> bool" where
  "demo_is bk i o' = (fst o' = bk \<and> fst (snd o') = i)"

definition demo_cancel :: "demo_state \<Rightarrow> book_key \<Rightarrow> nat \<Rightarrow> demo_state \<times> (string + bool)" where
  "demo_cancel m bk i =
     (m\<lparr>ds_orders := filter (\<lambda>o'. \<not> demo_is bk i o') (ds_orders m)\<rparr>,
      Inr (list_ex (demo_is bk i) (ds_orders m)))"

definition demo_exchange :: "(demo_state, nat) exchange" where
  "demo_exchange =
    \<lparr>x_underlyings = ds_underlyings,
     x_get = (\<lambda>m u. if u \<in> set (ds_underlyings m) then Inr () else Inl ''no underlying''),
     x_get_or_create = (\<lambda>m u. m\<lparr>ds_underlyings := add_once u (ds_underlyings m)\<rparr>),
     x_delete_underlying = (\<lambda>m u. (m\<lparr>ds_underlyings := removeAll u (ds_underlyings m)\<rparr>, u \<in> set (ds_underlyings m))),
     x_expirations = (\<lambda>m u. map snd (filter (\<lambda>p. fst p = u) (ds_expirations m))),
     x_get_expiration = (\<lambda>m u e. if (u, e) \<in> set (ds_expirations m) then Inr () else Inl ''no expiration''),
     x_get_or_create_expiration = (\<lambda>m u e. m\<lparr>ds_expirations := add_once (u, e) (ds_expirations m)\<rparr>),
     x_strikes = (\<lambda>m u e. map (\<lambda>p. snd (snd p)) (filter (\<lambda>p. fst p = u \<and> fst (snd p) = e) (ds_strikes m))),
     x_get_strike = (\<lambda>m u e k. if (u, e, k) \<in> set (ds_strikes m) then Inr () else Inl ''no strike''),
     x_get_or_create_strike = (\<lambda>m u e k. m\<lparr>ds_strikes := add_once (u, e, k) (ds_strikes m)\<rparr>),
     x_symbol = (\<lambda>m (u, e, k, s). option_symbol u ''20300101'' k s),
     x_add_tif = (\<lambda>m bk i s p q t. demo_add m bk i s p q),
     x_add_full = demo_add,
     x_add_limit = (\<lambda>m bk i s p q. (fst (demo_add m bk i s p q), Inr ())),
     x_market = demo_market,
     x_cancel = demo_cancel,
     x_order = (\<lambda>m bk i. map_option (\<lambda>o'. (fst (snd (snd o')), fst (snd (snd (snd o'))), snd (snd (snd (snd o')))))
                           (find (demo_is bk i) (ds_orders m))),
     x_orders_at = (\<lambda>m bk p s. map (\<lambda>o'. snd (snd (snd (snd o')))) (filter (\<lambda>o'. fst o' = bk
                           \<and> fst (snd (snd o')) = s \<and> fst (snd (snd (snd o'))) = p) (ds_orders m))),
     x_oid_str = show_nat,
     x_oid_parse = parse_digits,
     x_exp_eq = (=),
     x_exp_ymd = (\<lambda>e. case e of DateTime _ \<Rightarrow> Some ''20300101'' | Days _ \<Rightarrow> Some ''20300102''),
     x_exp_display = (\<lambda>_. ''2030''),
     x_from_ymd = (\<lambda>y m d. if y = 2030 \<and> m = 1 \<and> d = 1 then Some 0 else None),
     x_tif_display = (\<lambda>_. ''GTC''),
     x_parse_rfc3339 = (\<lambda>s. Inl ''bad date'')\<rparr>"

text \<open>Its operations one by one, so that a goal about one does not unfold the others.\<close>

lemma demo_fields:
  "x_underlyings demo_exchange = ds_underlyings"
  "x_get demo_exchange = (\<lambda>m u. if u \<in> set (ds_underlyings m) then Inr () else Inl ''no underlying'')"
  "x_get_or_create demo_exchange = (\<lambda>m u. m\<lparr>ds_underlyings := add_once u (ds_underlyings m)\<rparr>)"
  "x_delete_underlying demo_exchange
    = (\<lambda>m u. (m\<lparr>ds_underlyings := removeAll u (ds_underlyings m)\<rparr>, u \<in> set (ds_underlyings m)))"
  "x_expirations demo_exchange = (\<lambda>m u. map snd (filter (\<lambda>p. fst p = u) (ds_expirations m)))"
  "x_get_expiration demo_exchange
    = (\<lambda>m u e. if (u, e) \<in> set (ds_expirations m) then Inr () else Inl ''no expiration'')"
  "x_get_or_create_expiration demo_exchange
    = (\<lambda>m u e. m\<lparr>ds_expirations := add_once (u, e) (ds_expirations m)\<rparr>)"
  "x_strikes demo_exchange
    = (\<lambda>m u e. map (\<lambda>p. snd (snd p)) (filter (\<lambda>p. fst p = u \<and> fst (snd p) = e) (ds_strikes m)))"
  "x_get_strike demo_exchange
    = (\<lambda>m u e k. if (u, e, k) \<in> set (ds_strikes m) then Inr () else Inl ''no strike'')"
  "x_get_or_create_strike demo_exchange
    = (\<lambda>m u e k. m\<lparr>ds_strikes := add_once (u, e, k) (ds_strikes m)\<rparr>)"
  "x_symbol demo_exchange = (\<lambda>m (u, e, k, s). option_symbol u ''20300101'' k s)"
  "x_add_tif demo_exchange = (\<lambda>m bk i s p q t. demo_add m bk i s p q)"
  "x_add_full demo_exchange = demo_add"
  "x_add_limit demo_exchange = (\<lambda>m bk i s p q. (fst (demo_add m bk i s p q), Inr ()))"
  "x_market demo_exchange = demo_market"
  "x_cancel demo_exchange = demo_cancel"
  "x_order demo_exchange
    = (\<lambda>m bk i. map_option (\<lambda>o'. (fst (snd (snd o')), fst (snd (snd (snd o'))), snd (snd (snd (snd o'))))) (find (demo_is bk i) (ds_orders m)))"
  "x_orders_at demo_exchange
    = (\<lambda>m bk p s. map (\<lambda>o'. snd (snd (snd (snd o')))) (filter (\<lambda>o'. fst o' = bk \<and> fst (snd (snd o')) = s \<and> fst (snd (snd (snd o'))) = p) (ds_orders m)))"
  "x_oid_str demo_exchange = show_nat"
  "x_oid_parse demo_exchange = parse_digits"
  "x_exp_eq demo_exchange = (=)"
  "x_exp_ymd demo_exchange
    = (\<lambda>e. case e of DateTime _ \<Rightarrow> Some ''20300101'' | Days _ \<Rightarrow> Some ''20300102'')"
  "x_exp_display demo_exchange = (\<lambda>_. ''2030'')"
  "x_from_ymd demo_exchange = (\<lambda>y m d. if y = 2030 \<and> m = 1 \<and> d = 1 then Some 0 else None)"
  "x_tif_display demo_exchange = (\<lambda>_. ''GTC'')"
  "x_parse_rfc3339 demo_exchange = (\<lambda>s. Inl ''bad date'')"
  by (simp_all add: demo_exchange_def)

section \<open>The small exchange obeys the laws\<close>

lemma demo_match_left: "demo_match bk i s l q os = (os', ts, q') \<Longrightarrow> q' \<le> q"
proof (induction os arbitrary: q os' ts q')
  case (Cons o' os)
  obtain bk' j s' p r where o': "o' = (bk', j, s', p, r)" by (cases o')
  show ?case
  proof (cases "bk' = bk \<and> s' = opposite s \<and> demo_crosses s l p \<and> 0 < q \<and> 0 < r")
    case True
    obtain a b c where m: "demo_match bk i s l (q - min q r) os = (a, b, c)" by (metis prod_cases3)
    have "c \<le> q - min q r" using Cons.IH [OF m] .
    also have "\<dots> \<le> q" by (rule word_sub_le) simp
    finally show ?thesis using Cons.prems True m by (simp add: o' Let_def)
  next
    case False
    obtain a b c where m: "demo_match bk i s l q os = (a, b, c)" by (metis prod_cases3)
    then have "c = q'" using Cons.prems False by (auto simp: o' Let_def split: if_splits)
    with Cons.IH [OF m] show ?thesis by simp
  qed
qed simp

lemma demo_conserves: "conserves_quantity demo_exchange"
proof -
  have "result_conserves q r" if "demo_add m bk i s p q = (m', Inr r)" for m bk i s p q m' r
  proof -
    obtain os ts q' where mt: "demo_match bk i s (Some p) q (ds_orders m) = (os, ts, q')"
      by (metis prod_cases3)
    have "r = demo_result q q' ts" using that mt by (simp add: demo_add_def)
    moreover have "q' \<le> q" using demo_match_left [OF mt] .
    ultimately show ?thesis
      by (simp add: result_conserves_def demo_result_def uint_sub_lem [THEN iffD1] word_le_def)
  qed
  then show ?thesis by (auto simp: conserves_quantity_def demo_exchange_def)
qed

lemma demo_cancel_only_removes: "cancel_only_removes demo_exchange"
proof -
  have "find (demo_is bk i) (filter (\<lambda>o'. \<not> demo_is bk i o') os) = None" for bk i os
    by (simp add: find_None_iff)
  moreover have "find P (filter Q os) = None" if "find P os = None" for P Q and os :: "demo_order list"
    using that by (simp add: find_None_iff)
  ultimately show ?thesis
    by (simp add: cancel_only_removes_def demo_exchange_def demo_cancel_def)
qed

lemma demo_ids_roundtrip: "ids_roundtrip demo_exchange"
  by (simp add: ids_roundtrip_def demo_exchange_def parse_digits_show_nat)

end
