(* ===== verification/Market_Maker.thy ===== *)
theory Market_Maker
  imports Quoter Demo_Exchange
begin

text \<open>
  The market-maker engine of \<open>src/src/market_maker/engine.rs\<close>. Its state is the order-book
  manager it shares with the handlers, its configuration, the prices, the tracked orders
  and their reverse index, and the events it has broadcast. Every operation is one atomic
  step. The lemmas show the reverse-index invariant the source states, that every
  operation keeps it, the bounds of the controls and what a disabled engine leaves resting.
\<close>

section \<open>State\<close>

record mm_config =
  cfg_enabled :: bool
  cfg_spread_multiplier :: f64
  cfg_size_scalar :: f64
  cfg_directional_skew :: f64
  cfg_symbol_enabled :: "(string, bool) dashmap"

definition mm_config_default :: mm_config where
  "mm_config_default = \<lparr>cfg_enabled = True, cfg_spread_multiplier = f_one, cfg_size_scalar = f_one,
     cfg_directional_skew = f_zero, cfg_symbol_enabled = []\<rparr>"

datatype mm_event =
    QuoteUpdated string string u64 string u128 u128 u64 u64
  | OrderFilled string string string string u64 u128 i64
  | ConfigChanged bool f64 f64 f64
  | PriceUpdated string u64

record active_order =
  act_symbol :: string
  act_expiration :: expiration
  act_instrument :: string
  act_strike :: u64
  act_style :: opt_style
  act_is_buy :: bool
  act_theo_cents :: u64
  act_resting :: u64

datatype exp_key = KeyDays rat | KeyDateTime int

fun exp_key_of :: "expiration \<Rightarrow> exp_key" where
  "exp_key_of (Days d) = KeyDays d"
| "exp_key_of (DateTime t) = KeyDateTime t"

type_synonym instrument_key = "string \<times> exp_key \<times> u64 \<times> opt_style"

definition instrument_key_new :: "string \<Rightarrow> expiration \<Rightarrow> u64 \<Rightarrow> opt_style \<Rightarrow> instrument_key" where
  "instrument_key_new symbol e strike style = (symbol, exp_key_of e, strike, style)"

definition instrument_key_from_order :: "active_order \<Rightarrow> instrument_key" where
  "instrument_key_from_order a = (act_symbol a, exp_key_of (act_expiration a), act_strike a, act_style a)"

text \<open>The two slots of an index entry: the bid leg first.\<close>

type_synonym 'o legs = "'o option \<times> 'o option"

definition leg :: "bool \<Rightarrow> 'o legs \<Rightarrow> 'o option" where
  "leg is_buy slots = (if is_buy then fst slots else snd slots)"

definition set_leg :: "bool \<Rightarrow> 'o option \<Rightarrow> 'o legs \<Rightarrow> 'o legs" where
  "set_leg is_buy x slots = (if is_buy then (x, snd slots) else (fst slots, x))"

record ('m, 'o) venue =
  v_manager :: 'm
  v_next_id :: nat
  v_config :: mm_config
  v_prices :: "(string, u64) dashmap"
  v_active :: "('o, active_order) dashmap"
  v_index :: "(instrument_key, 'o legs) dashmap"
  v_events :: "mm_event list"

definition engine_new :: "'m \<Rightarrow> ('m, 'o) venue" where
  "engine_new m = \<lparr>v_manager = m, v_next_id = 0, v_config = mm_config_default, v_prices = [],
     v_active = [], v_index = [], v_events = []\<rparr>"

text \<open>\<open>OrderId::new()\<close> is the next element of a sequence of ids the environment supplies.\<close>

definition new_order_id :: "(nat \<Rightarrow> 'o) \<Rightarrow> ('m, 'o) venue \<Rightarrow> 'o \<times> ('m, 'o) venue" where
  "new_order_id gen v = (gen (v_next_id v), v\<lparr>v_next_id := Suc (v_next_id v)\<rparr>)"

definition emit :: "mm_event \<Rightarrow> ('m, 'o) venue \<Rightarrow> ('m, 'o) venue" where
  "emit e v = v\<lparr>v_events := v_events v @ [e]\<rparr>"

section \<open>Operations\<close>

definition clear_instrument_slot :: "instrument_key \<Rightarrow> bool \<Rightarrow> ('m, 'o) venue \<Rightarrow> ('m, 'o) venue" where
  "clear_instrument_slot key is_buy v =
     (case dm_get (v_index v) key of
        None \<Rightarrow> v
      | Some slots \<Rightarrow>
          (let slots = set_leg is_buy None slots
           in if fst slots = None \<and> snd slots = None
              then v\<lparr>v_index := dm_remove key (v_index v)\<rparr>
              else v\<lparr>v_index := dm_insert key slots (v_index v)\<rparr>))"

definition is_symbol_enabled :: "('m, 'o) venue \<Rightarrow> string \<Rightarrow> bool" where
  "is_symbol_enabled v symbol =
     (case dm_get (cfg_symbol_enabled (v_config v)) symbol of Some b \<Rightarrow> b | None \<Rightarrow> True)"

definition broadcast_config_change :: "('m, 'o) venue \<Rightarrow> ('m, 'o) venue" where
  "broadcast_config_change v =
     (let c = v_config v
      in emit (ConfigChanged (cfg_enabled c) (cfg_spread_multiplier c) (cfg_size_scalar c)
           (cfg_directional_skew c)) v)"

text \<open>Does the engine's path to a book resolve?\<close>

definition book_resolves :: "('m, 'o) exchange \<Rightarrow> 'm \<Rightarrow> string \<Rightarrow> expiration \<Rightarrow> u64 \<Rightarrow> bool" where
  "book_resolves X m symbol e strike \<longleftrightarrow>
     x_get X m symbol = Inr () \<and> x_get_expiration X m symbol e = Inr ()
     \<and> x_get_strike X m symbol e strike = Inr ()"

definition cancel_order_mm :: "('m, 'o) exchange \<Rightarrow> 'o \<Rightarrow> ('m, 'o) venue \<Rightarrow> ('m, 'o) venue" where
  "cancel_order_mm X order_id v =
     (case dm_get (v_active v) order_id of
        None \<Rightarrow> v
      | Some a \<Rightarrow>
          (let v = v\<lparr>v_active := dm_remove order_id (v_active v)\<rparr>;
               v = clear_instrument_slot (instrument_key_from_order a) (act_is_buy a) v
           in if book_resolves X (v_manager v) (act_symbol a) (act_expiration a) (act_strike a)
              then v\<lparr>v_manager := fst (x_cancel X (v_manager v)
                       (act_symbol a, act_expiration a, act_strike a, act_style a) order_id)\<rparr>
              else v))"

definition cancel_all_mm :: "('m, 'o) exchange \<Rightarrow> ('m, 'o) venue \<Rightarrow> ('m, 'o) venue" where
  "cancel_all_mm X v =
     (let v = fold (cancel_order_mm X) (map fst (v_active v)) v in v\<lparr>v_index := []\<rparr>)"

definition cancel_symbol_orders :: "('m, 'o) exchange \<Rightarrow> string \<Rightarrow> ('m, 'o) venue \<Rightarrow> ('m, 'o) venue" where
  "cancel_symbol_orders X symbol v =
     fold (cancel_order_mm X) (map fst (filter (\<lambda>(_, a). act_symbol a = symbol) (v_active v))) v"

definition on_order_filled ::
  "('m, 'o) exchange \<Rightarrow> 'o \<Rightarrow> u128 \<Rightarrow> u64 \<Rightarrow> ('m, 'o) venue \<Rightarrow> ('m, 'o) venue" where
  "on_order_filled X order_id fill_price_cents quantity v =
     (if quantity = 0 then v
      else (case dm_get (v_active v) order_id of
              None \<Rightarrow> v
            | Some a \<Rightarrow>
                (let remaining = act_resting a;
                     reported = min quantity remaining;
                     v = (if quantity \<ge> remaining
                          then clear_instrument_slot (instrument_key_from_order a) (act_is_buy a)
                                 (v\<lparr>v_active := dm_remove order_id (v_active v)\<rparr>)
                          else v\<lparr>v_active := dm_insert order_id (a\<lparr>act_resting := remaining - quantity\<rparr>)
                                              (v_active v)\<rparr>)
                 in if 2 ^ 64 \<le> uint fill_price_cents then v
                    else emit (OrderFilled (x_oid_str X order_id) (act_symbol a) (act_instrument a)
                           (if act_is_buy a then ''buy'' else ''sell'') reported fill_price_cents
                           (calculate_edge (ucast fill_price_cents) (act_theo_cents a) (act_is_buy a))) v)))"

text \<open>One leg of a fresh quote: placed on the book and tracked when the book accepts it.\<close>

definition place_leg ::
  "('m, 'o) exchange \<Rightarrow> (nat \<Rightarrow> 'o) \<Rightarrow> active_order \<Rightarrow> u128 \<Rightarrow> ('m, 'o) venue
   \<Rightarrow> ('m, 'o) venue \<times> 'o option" where
  "place_leg X gen a price v =
     (let (oid, v) = new_order_id gen v;
          (m, r) = x_add_limit X (v_manager v) (act_symbol a, act_expiration a, act_strike a, act_style a) oid
                     (if act_is_buy a then BookBuy else BookSell) price (act_resting a);
          v = v\<lparr>v_manager := m\<rparr>
      in case r of
           Inl _ \<Rightarrow> (v, None)
         | Inr _ \<Rightarrow> (v\<lparr>v_active := dm_insert oid a (v_active v)\<rparr>, Some oid))"

definition cancel_stale ::
  "('m, 'o) exchange \<Rightarrow> book_key \<Rightarrow> instrument_key \<Rightarrow> ('m, 'o) venue \<Rightarrow> ('m, 'o) venue" where
  "cancel_stale X bk key v =
     (let stale = (case dm_get (v_index v) key of Some s \<Rightarrow> s | None \<Rightarrow> (None, None));
          ids = (case fst stale of Some i \<Rightarrow> [i] | None \<Rightarrow> []) @ (case snd stale of Some i \<Rightarrow> [i] | None \<Rightarrow> [])
      in if ids = [] then v
         else v\<lparr>v_manager := fold (\<lambda>i m. fst (x_cancel X m bk i)) ids (v_manager v),
                v_active := fold dm_remove ids (v_active v),
                v_index := dm_remove key (v_index v)\<rparr>)"

record requote_context =
  rc_symbol :: string
  rc_expiration :: expiration
  rc_exp_display :: string
  rc_exp_canonical :: string
  rc_spot_cents :: u64
  rc_config :: mm_config

definition update_quote ::
  "('m, 'o) exchange \<Rightarrow> quoter \<Rightarrow> (nat \<Rightarrow> 'o) \<Rightarrow> requote_context \<Rightarrow> u64 \<Rightarrow> opt_style
   \<Rightarrow> ('m, 'o) venue \<Rightarrow> ('m, 'o) venue" where
  "update_quote X qt gen ctx strike style v =
     (let symbol = rc_symbol ctx; e = rc_expiration ctx; c = rc_config ctx;
          instrument = option_symbol symbol (rc_exp_canonical ctx) strike style;
          input = \<lparr>qi_spot_cents = rc_spot_cents ctx, qi_strike_cents = strike, qi_expiration = e,
                   qi_style = style, qi_spread_multiplier = cfg_spread_multiplier c,
                   qi_size_scalar = cfg_size_scalar c, qi_directional_skew = cfg_directional_skew c,
                   qi_iv = None\<rparr>
      in case generate_quote qt input of
           None \<Rightarrow> v
         | Some q \<Rightarrow>
             (let key = instrument_key_new symbol e strike style; bk = (symbol, e, strike, style)
              in if book_resolves X (v_manager v) symbol e strike
                 then (let v = cancel_stale X bk key v;
                           (v, bid) = place_leg X gen
                              \<lparr>act_symbol = symbol, act_expiration = e, act_instrument = instrument, act_strike = strike,
                               act_style = style, act_is_buy = True, act_theo_cents = qp_theo_price q,
                               act_resting = qp_bid_size q\<rparr> (qp_bid_price q) v;
                           (v, ask) = place_leg X gen
                              \<lparr>act_symbol = symbol, act_expiration = e, act_instrument = instrument, act_strike = strike,
                               act_style = style, act_is_buy = False, act_theo_cents = qp_theo_price q,
                               act_resting = qp_ask_size q\<rparr> (qp_ask_price q) v;
                           v = (if bid = None \<and> ask = None then v
                                else v\<lparr>v_index := dm_insert key (bid, ask) (v_index v)\<rparr>)
                       in emit (QuoteUpdated symbol (rc_exp_display ctx) strike (canonical_style style)
                            (qp_bid_price q) (qp_ask_price q) (qp_bid_size q) (qp_ask_size q)) v)
                 else v))"

text \<open>The loops of a requote: strikes and the two styles inside, expirations outside.\<close>

definition requote_strike ::
  "('m, 'o) exchange \<Rightarrow> quoter \<Rightarrow> (nat \<Rightarrow> 'o) \<Rightarrow> requote_context \<Rightarrow> u64 \<Rightarrow> ('m, 'o) venue \<Rightarrow> ('m, 'o) venue" where
  "requote_strike X qt gen ctx strike v =
     (if x_get_strike X (v_manager v) (rc_symbol ctx) (rc_expiration ctx) strike = Inr ()
      then fold (update_quote X qt gen ctx strike) [OptCall, OptPut] v else v)"

definition requote_expiration ::
  "('m, 'o) exchange \<Rightarrow> quoter \<Rightarrow> (nat \<Rightarrow> 'o) \<Rightarrow> string \<Rightarrow> u64 \<Rightarrow> mm_config \<Rightarrow> expiration
   \<Rightarrow> ('m, 'o) venue \<Rightarrow> ('m, 'o) venue" where
  "requote_expiration X qt gen symbol price config e v =
     (let ctx = \<lparr>rc_symbol = symbol, rc_expiration = e, rc_exp_display = x_exp_display X e,
                 rc_exp_canonical = format_expiration X e, rc_spot_cents = price, rc_config = config\<rparr>
      in fold (requote_strike X qt gen ctx) (x_strikes X (v_manager v) symbol e) v)"

definition requote_symbol ::
  "('m, 'o) exchange \<Rightarrow> quoter \<Rightarrow> (nat \<Rightarrow> 'o) \<Rightarrow> string \<Rightarrow> ('m, 'o) venue \<Rightarrow> ('m, 'o) venue" where
  "requote_symbol X qt gen symbol v =
     (case dm_get (v_prices v) symbol of
        None \<Rightarrow> v
      | Some price_cents \<Rightarrow>
          (if x_get X (v_manager v) symbol = Inr ()
           then fold (requote_expiration X qt gen symbol price_cents (v_config v))
                  (x_expirations X (v_manager v) symbol) v
           else v))"

definition requote_if_enabled ::
  "('m, 'o) exchange \<Rightarrow> quoter \<Rightarrow> (nat \<Rightarrow> 'o) \<Rightarrow> string \<Rightarrow> ('m, 'o) venue \<Rightarrow> ('m, 'o) venue" where
  "requote_if_enabled X qt gen symbol v =
     (if is_symbol_enabled v symbol then requote_symbol X qt gen symbol v else v)"

definition requote_all ::
  "('m, 'o) exchange \<Rightarrow> quoter \<Rightarrow> (nat \<Rightarrow> 'o) \<Rightarrow> ('m, 'o) venue \<Rightarrow> ('m, 'o) venue" where
  "requote_all X qt gen v = fold (requote_if_enabled X qt gen) (x_underlyings X (v_manager v)) v"

definition update_price ::
  "('m, 'o) exchange \<Rightarrow> quoter \<Rightarrow> (nat \<Rightarrow> 'o) \<Rightarrow> string \<Rightarrow> u64 \<Rightarrow> ('m, 'o) venue \<Rightarrow> ('m, 'o) venue" where
  "update_price X qt gen symbol price_cents v =
     (let v = v\<lparr>v_prices := dm_insert symbol price_cents (v_prices v)\<rparr>;
          v = emit (PriceUpdated symbol price_cents) v
      in if cfg_enabled (v_config v) \<and> is_symbol_enabled v symbol
         then requote_symbol X qt gen symbol v else v)"

definition get_price :: "('m, 'o) venue \<Rightarrow> string \<Rightarrow> u64 option" where
  "get_price v symbol = dm_get (v_prices v) symbol"

definition set_enabled :: "('m, 'o) exchange \<Rightarrow> bool \<Rightarrow> ('m, 'o) venue \<Rightarrow> ('m, 'o) venue" where
  "set_enabled X enabled v =
     (let v = v\<lparr>v_config := (v_config v)\<lparr>cfg_enabled := enabled\<rparr>\<rparr>;
          v = (if \<not> enabled then cancel_all_mm X v else v)
      in broadcast_config_change v)"

definition set_symbol_enabled ::
  "('m, 'o) exchange \<Rightarrow> string \<Rightarrow> bool \<Rightarrow> ('m, 'o) venue \<Rightarrow> ('m, 'o) venue" where
  "set_symbol_enabled X symbol enabled v =
     (let v = v\<lparr>v_config := (v_config v)\<lparr>cfg_symbol_enabled :=
                 dm_insert symbol enabled (cfg_symbol_enabled (v_config v))\<rparr>\<rparr>
      in if \<not> enabled then cancel_symbol_orders X symbol v else v)"

definition spread_multiplier_min :: f64 where "spread_multiplier_min = f_lit (1 / 10)"
definition spread_multiplier_max :: f64 where "spread_multiplier_max = Fin 10"
definition size_scalar_min :: f64 where "size_scalar_min = Fin 0"
definition size_scalar_max :: f64 where "size_scalar_max = Fin 1"
definition directional_skew_min :: f64 where "directional_skew_min = Fin (- 1)"
definition directional_skew_max :: f64 where "directional_skew_max = Fin 1"

definition validate_control_value :: "f64 \<Rightarrow> f64 \<Rightarrow> f64 \<Rightarrow> f64 option" where
  "validate_control_value x lo hi = (if f_le lo x \<and> f_le x hi then Some x else None)"

definition set_spread_multiplier ::
  "('m, 'o) exchange \<Rightarrow> quoter \<Rightarrow> (nat \<Rightarrow> 'o) \<Rightarrow> f64 \<Rightarrow> ('m, 'o) venue \<Rightarrow> ('m, 'o) venue" where
  "set_spread_multiplier X qt gen multiplier v =
     (if \<not> f_is_finite multiplier then v
      else requote_all X qt gen (broadcast_config_change
             (v\<lparr>v_config := (v_config v)\<lparr>cfg_spread_multiplier :=
                 f_clamp multiplier spread_multiplier_min spread_multiplier_max\<rparr>\<rparr>)))"

definition set_size_scalar ::
  "('m, 'o) exchange \<Rightarrow> quoter \<Rightarrow> (nat \<Rightarrow> 'o) \<Rightarrow> f64 \<Rightarrow> ('m, 'o) venue \<Rightarrow> ('m, 'o) venue" where
  "set_size_scalar X qt gen scalar v =
     (if \<not> f_is_finite scalar then v
      else requote_all X qt gen (broadcast_config_change
             (v\<lparr>v_config := (v_config v)\<lparr>cfg_size_scalar :=
                 f_clamp scalar size_scalar_min size_scalar_max\<rparr>\<rparr>)))"

definition set_directional_skew ::
  "('m, 'o) exchange \<Rightarrow> quoter \<Rightarrow> (nat \<Rightarrow> 'o) \<Rightarrow> f64 \<Rightarrow> ('m, 'o) venue \<Rightarrow> ('m, 'o) venue" where
  "set_directional_skew X qt gen skew v =
     (if \<not> f_is_finite skew then v
      else requote_all X qt gen (broadcast_config_change
             (v\<lparr>v_config := (v_config v)\<lparr>cfg_directional_skew :=
                 f_clamp skew directional_skew_min directional_skew_max\<rparr>\<rparr>)))"

section \<open>The reverse index\<close>

definition order_slot :: "active_order \<Rightarrow> instrument_key \<times> bool" where
  "order_slot a = (instrument_key_from_order a, act_is_buy a)"

definition tracked :: "('m, 'o) venue \<Rightarrow> 'o \<Rightarrow> active_order option" where
  "tracked v i = dm_get (v_active v) i"

definition indexed :: "('m, 'o) venue \<Rightarrow> instrument_key \<times> bool \<Rightarrow> 'o option" where
  "indexed v k = Option.bind (dm_get (v_index v) (fst k)) (leg (snd k))"

lemma indexed_cong: "v_index v = v_index w \<Longrightarrow> indexed v = indexed w"
  by (simp add: indexed_def fun_eq_iff)

lemma tracked_cong: "v_active v = v_active w \<Longrightarrow> tracked v = tracked w"
  by (simp add: tracked_def fun_eq_iff)

lemma leg_set_leg: "leg b (set_leg c x s) = (if b = c then x else leg b s)"
  by (auto simp: leg_def set_leg_def)

lemma leg_none: "fst s = None \<Longrightarrow> snd s = None \<Longrightarrow> leg b s = None"
  by (simp add: leg_def)

lemma indexed_clear_slot:
  "indexed (clear_instrument_slot key b v) = (indexed v)((key, b) := None)"
proof (cases "dm_get (v_index v) key")
  case None
  then show ?thesis by (auto simp: clear_instrument_slot_def indexed_def fun_eq_iff)
next
  case (Some s)
  let ?s = "set_leg b None s"
  have legs: "leg c ?s = (if c = b then None else leg c s)" for c
    by (rule leg_set_leg)
  show ?thesis
  proof (cases "fst ?s = None \<and> snd ?s = None")
    case True
    then have "leg c ?s = None" for c by (simp add: leg_none)
    then have "c \<noteq> b \<Longrightarrow> leg c s = None" for c using legs [of c] by simp
    then show ?thesis
      using Some True
      by (auto simp: clear_instrument_slot_def Let_def indexed_def fun_eq_iff dm_get_remove)
  next
    case False
    then show ?thesis
      using Some legs
      by (auto simp: clear_instrument_slot_def Let_def indexed_def fun_eq_iff dm_get_insert)
  qed
qed

lemma clear_slot_frame [simp]:
  "v_manager (clear_instrument_slot key b v) = v_manager v"
  "v_next_id (clear_instrument_slot key b v) = v_next_id v"
  "v_config (clear_instrument_slot key b v) = v_config v"
  "v_prices (clear_instrument_slot key b v) = v_prices v"
  "v_active (clear_instrument_slot key b v) = v_active v"
  "v_events (clear_instrument_slot key b v) = v_events v"
  by (auto simp: clear_instrument_slot_def Let_def split: option.splits)

lemma emit_frame [simp]:
  "v_manager (emit e v) = v_manager v" "v_next_id (emit e v) = v_next_id v"
  "v_config (emit e v) = v_config v" "v_prices (emit e v) = v_prices v"
  "v_active (emit e v) = v_active v" "v_index (emit e v) = v_index v"
  by (simp_all add: emit_def)

lemma cancel_order_mm_frame [simp]:
  "v_next_id (cancel_order_mm X i v) = v_next_id v"
  "v_config (cancel_order_mm X i v) = v_config v"
  "v_prices (cancel_order_mm X i v) = v_prices v"
  by (auto simp: cancel_order_mm_def Let_def split: option.splits)

lemma tracked_cancel: "tracked (cancel_order_mm X i v) = (tracked v)(i := None)"
  by (auto simp: tracked_def cancel_order_mm_def Let_def dm_get_remove fun_eq_iff split: option.splits)

lemma indexed_cancel:
  "indexed (cancel_order_mm X i v) =
     (case tracked v i of None \<Rightarrow> indexed v | Some a \<Rightarrow> (indexed v)(order_slot a := None))"
proof (cases "tracked v i")
  case None
  then show ?thesis by (simp add: tracked_def cancel_order_mm_def)
next
  case (Some a)
  let ?w = "clear_instrument_slot (instrument_key_from_order a) (act_is_buy a)
    (v\<lparr>v_active := dm_remove i (v_active v)\<rparr>)"
  have "v_index (cancel_order_mm X i v) = v_index ?w"
    using Some by (simp add: tracked_def cancel_order_mm_def Let_def)
  then have "indexed (cancel_order_mm X i v) = indexed ?w" by (rule indexed_cong)
  also have "\<dots> = (indexed v)(order_slot a := None)"
    unfolding indexed_clear_slot order_slot_def by (rule arg_cong [OF indexed_cong]) simp
  finally show ?thesis using Some by simp
qed

interpretation mm: two_way_index tracked indexed order_slot "cancel_order_mm X"
  by unfold_locales (simp_all add: tracked_cancel indexed_cancel)

definition index_trim :: "('m, 'o) venue \<Rightarrow> bool" where
  "index_trim v \<longleftrightarrow> dm_ok (v_active v) \<and> dm_ok (v_index v)
     \<and> (\<forall>k s. dm_get (v_index v) k = Some s \<longrightarrow> fst s \<noteq> None \<or> snd s \<noteq> None)"

definition ids_issued :: "(nat \<Rightarrow> 'o) \<Rightarrow> ('m, 'o) venue \<Rightarrow> bool" where
  "ids_issued gen v \<longleftrightarrow> (\<forall>i. tracked v i \<noteq> None \<longrightarrow> (\<exists>n < v_next_id v. i = gen n))"

definition config_in_range :: "mm_config \<Rightarrow> bool" where
  "config_in_range c \<longleftrightarrow>
     f_le spread_multiplier_min (cfg_spread_multiplier c) \<and> f_le (cfg_spread_multiplier c) spread_multiplier_max
     \<and> f_le size_scalar_min (cfg_size_scalar c) \<and> f_le (cfg_size_scalar c) size_scalar_max
     \<and> f_le directional_skew_min (cfg_directional_skew c) \<and> f_le (cfg_directional_skew c) directional_skew_max"

text \<open>The invariant of the engine.\<close>

definition mm_ok :: "(nat \<Rightarrow> 'o) \<Rightarrow> ('m, 'o) venue \<Rightarrow> bool" where
  "mm_ok gen v \<longleftrightarrow> linked order_slot (tracked v) (indexed v) \<and> index_trim v \<and> ids_issued gen v
     \<and> config_in_range (v_config v)"

section \<open>Every operation keeps the invariant\<close>

lemma index_trim_clear: "index_trim v \<Longrightarrow> index_trim (clear_instrument_slot key b v)"
  by (auto simp: index_trim_def clear_instrument_slot_def Let_def dm_get_insert dm_get_remove
      dm_ok_insert dm_ok_remove split: option.splits if_splits)

lemma index_trim_active:
  "index_trim v \<Longrightarrow> dm_ok m \<Longrightarrow> index_trim (v\<lparr>v_active := m\<rparr>)"
  by (simp add: index_trim_def)

lemma index_trim_cong:
  "index_trim v \<Longrightarrow> v_active w = v_active v \<Longrightarrow> v_index w = v_index v \<Longrightarrow> index_trim w"
  by (simp add: index_trim_def)

lemma ids_issued_sub:
  "ids_issued gen v \<Longrightarrow> (\<And>i. tracked w i \<noteq> None \<Longrightarrow> tracked v i \<noteq> None) \<Longrightarrow>
   v_next_id v \<le> v_next_id w \<Longrightarrow> ids_issued gen w"
  unfolding ids_issued_def by (meson less_le_trans)

lemma mm_ok_cong:
  assumes "mm_ok gen v" and "v_active w = v_active v" "v_index w = v_index v" "v_next_id w = v_next_id v"
    and "config_in_range (v_config w)"
  shows "mm_ok gen w"
  using assms tracked_cong [OF assms(2)] indexed_cong [OF assms(3)]
  by (auto simp: mm_ok_def ids_issued_def intro: index_trim_cong)

lemma mm_ok_config: "mm_ok gen v \<Longrightarrow> config_in_range (v_config v)"
  by (simp add: mm_ok_def)

lemma mm_ok_emit [wf_intros]: "mm_ok gen v \<Longrightarrow> mm_ok gen (emit e v)"
  using mm_ok_cong [of gen v "emit e v"] mm_ok_config [of gen v] by simp

lemma cancel_order_mm_trim:
  assumes "index_trim v"
  shows "index_trim (cancel_order_mm X i v)"
proof (cases "dm_get (v_active v) i")
  case None
  with assms show ?thesis by (simp add: cancel_order_mm_def)
next
  case (Some a)
  let ?w = "clear_instrument_slot (instrument_key_from_order a) (act_is_buy a)
    (v\<lparr>v_active := dm_remove i (v_active v)\<rparr>)"
  have "index_trim ?w"
    using assms by (intro index_trim_clear index_trim_active) (simp_all add: index_trim_def dm_ok_remove)
  then show ?thesis
    by (rule index_trim_cong) (simp_all add: cancel_order_mm_def Some Let_def)
qed

lemma mm_ok_cancel [wf_intros]:
  assumes "mm_ok gen v"
  shows "mm_ok gen (cancel_order_mm X i v)"
  using assms cancel_order_mm_trim [of v X i] mm.linked_forget [of v X i]
  by (auto simp: mm_ok_def tracked_cancel intro!: ids_issued_sub [of gen v] split: if_splits)

lemma mm_ok_cancel_all_ids [wf_intros]: "mm_ok gen v \<Longrightarrow> mm_ok gen (fold (cancel_order_mm X) ids v)"
  by (rule fold_invariant [where P = "mm_ok gen" and Q = "\<lambda>_. True"]) (auto intro: mm_ok_cancel)

lemma tracked_in_keys: "tracked v i \<noteq> None \<longleftrightarrow> i \<in> set (map fst (v_active v))"
  by (metis dom_map_of_conv_image_fst domIff list.set_map tracked_def)

lemma cancel_all_empty:
  assumes "mm_ok gen v"
  shows "tracked (cancel_all_mm X v) = (\<lambda>_. None)" and "v_index (cancel_all_mm X v) = []"
proof -
  have "linked order_slot (tracked v) (indexed v)" using assms by (simp add: mm_ok_def)
  then have "tracked (fold (cancel_order_mm X) (map fst (v_active v)) v) = (\<lambda>_. None)"
    by (rule mm.forget_everything [THEN conjunct1]) (simp only: tracked_in_keys)
  then show "tracked (cancel_all_mm X v) = (\<lambda>_. None)"
    by (simp add: cancel_all_mm_def Let_def tracked_cong [of "_\<lparr>v_index := _\<rparr>"])
qed (simp add: cancel_all_mm_def Let_def)

lemma mm_ok_cancel_all [wf_intros]:
  assumes "mm_ok gen v"
  shows "mm_ok gen (cancel_all_mm X v)"
proof -
  let ?w = "fold (cancel_order_mm X) (map fst (v_active v)) v"
  have w: "mm_ok gen ?w" using assms by (rule mm_ok_cancel_all_ids)
  have "indexed (cancel_all_mm X v) = (\<lambda>_. None)"
    by (simp add: indexed_def cancel_all_empty(2) [OF assms] fun_eq_iff)
  moreover have "index_trim (cancel_all_mm X v)"
    using w by (simp add: mm_ok_def index_trim_def cancel_all_mm_def Let_def)
  moreover have "v_config (cancel_all_mm X v) = v_config ?w"
    by (simp add: cancel_all_mm_def Let_def)
  ultimately show ?thesis
    using w by (simp add: mm_ok_def cancel_all_empty(1) [OF assms] ids_issued_def)
qed

lemma mm_ok_filled [wf_intros]:
  assumes "mm_ok gen v"
  shows "mm_ok gen (on_order_filled X i price qty v)"
proof (cases "qty = 0 \<or> tracked v i = None")
  case True
  with assms show ?thesis by (auto simp: on_order_filled_def tracked_def)
next
  case False
  then have qty: "(qty = 0) = False" by simp
  from False obtain a where a: "dm_get (v_active v) i = Some a" by (auto simp: tracked_def)
  let ?full = "clear_instrument_slot (instrument_key_from_order a) (act_is_buy a)
    (v\<lparr>v_active := dm_remove i (v_active v)\<rparr>)"
  let ?part = "v\<lparr>v_active := dm_insert i (a\<lparr>act_resting := act_resting a - qty\<rparr>) (v_active v)\<rparr>"
  have full: "mm_ok gen ?full"
  proof -
    have ind: "indexed ?full = (indexed v)(order_slot a := None)"
      unfolding indexed_clear_slot order_slot_def by (rule arg_cong [OF indexed_cong]) simp
    have tr: "tracked ?full = (tracked v)(i := None)"
      by (simp add: tracked_def fun_eq_iff dm_get_remove)
    have "index_trim ?full"
      using assms by (intro index_trim_clear index_trim_active) (simp_all add: mm_ok_def index_trim_def dm_ok_remove)
    moreover have "linked order_slot (tracked ?full) (indexed ?full)"
      unfolding ind tr using assms a by (intro linked_remove) (simp_all add: mm_ok_def tracked_def)
    ultimately show ?thesis
      using assms by (auto simp: mm_ok_def tr intro!: ids_issued_sub [of gen v] split: if_splits)
  qed
  have part: "mm_ok gen ?part"
  proof -
    have tr: "tracked ?part = (tracked v)(i \<mapsto> a\<lparr>act_resting := act_resting a - qty\<rparr>)"
      by (simp add: tracked_def fun_eq_iff dm_get_insert)
    have ind: "indexed ?part = indexed v" by (rule indexed_cong) simp
    have "order_slot (a\<lparr>act_resting := act_resting a - qty\<rparr>) = order_slot a"
      by (simp add: order_slot_def instrument_key_from_order_def)
    then have "linked order_slot (tracked ?part) (indexed ?part)"
      unfolding tr ind using assms a linked_update [of order_slot "tracked v" "indexed v" i a]
      by (simp add: mm_ok_def tracked_def [of v i])
    moreover have "ids_issued gen ?part"
    proof -
      have "tracked v i \<noteq> None" using a by (simp add: tracked_def)
      moreover have "ids_issued gen v" using assms by (simp add: mm_ok_def)
      ultimately show ?thesis unfolding ids_issued_def tr by (simp add: fun_upd_apply)
    qed
    moreover have "index_trim ?part" and "config_in_range (v_config ?part)"
      using assms by (simp_all add: mm_ok_def index_trim_def dm_ok_insert)
    ultimately show ?thesis unfolding mm_ok_def by blast
  qed
  have "\<exists>e. on_order_filled X i price qty v =
      (let w = (if qty \<ge> act_resting a then ?full else ?part)
       in if 2 ^ 64 \<le> uint price then w else emit e w)"
    by (simp only: on_order_filled_def Let_def a qty option.case if_False) blast
  then obtain e where "on_order_filled X i price qty v =
      (if 2 ^ 64 \<le> uint price then (if qty \<ge> act_resting a then ?full else ?part)
       else emit e (if qty \<ge> act_resting a then ?full else ?part))"
    by (simp only: Let_def) blast
  moreover have "mm_ok gen (if qty \<ge> act_resting a then ?full else ?part)"
    using full part by simp
  ultimately show ?thesis
    by (cases "2 ^ 64 \<le> uint price") (simp_all only: if_True if_False mm_ok_emit)
qed

section \<open>Requoting keeps the invariant\<close>

lemma indexed_eq: "indexed v (key, b) = Option.bind (dm_get (v_index v) key) (leg b)"
  by (simp add: indexed_def)

lemma fold_dm_remove: "dm_get (fold dm_remove ids m) = (\<lambda>i. if i \<in> set ids then None else dm_get m i)"
  by (induction ids arbitrary: m) (auto simp: dm_get_remove fun_eq_iff)

lemma fold_dm_remove_ok: "dm_ok m \<Longrightarrow> dm_ok (fold dm_remove ids m)"
  by (induction ids arbitrary: m) (simp_all add: dm_ok_remove)

lemma cancel_stale_maps:
  "tracked (cancel_stale X bk key v) =
     (\<lambda>i. if \<exists>b. indexed v (key, b) = Some i then None else tracked v i)"
  "indexed (cancel_stale X bk key v) = (\<lambda>k. if fst k = key then None else indexed v k)"
proof -
  have split: "(\<exists>b. P b) \<longleftrightarrow> P True \<or> P False" for P by (metis (full_types))
  have "dm_get (v_active (cancel_stale X bk key v)) =
      (\<lambda>i. if \<exists>b. indexed v (key, b) = Some i then None else dm_get (v_active v) i)"
    by (cases "dm_get (v_index v) key")
      (auto simp: cancel_stale_def Let_def indexed_eq fold_dm_remove dm_get_remove leg_def fun_eq_iff split
        split: option.splits)
  then show "tracked (cancel_stale X bk key v) =
     (\<lambda>i. if \<exists>b. indexed v (key, b) = Some i then None else tracked v i)"
    by (simp add: tracked_def fun_eq_iff)
  show "indexed (cancel_stale X bk key v) = (\<lambda>k. if fst k = key then None else indexed v k)"
    by (cases "dm_get (v_index v) key")
      (auto simp: cancel_stale_def Let_def indexed_def dm_get_remove leg_def fun_eq_iff split: option.splits)
qed

lemma cancel_stale_frame [simp]:
  "v_next_id (cancel_stale X bk key v) = v_next_id v"
  "v_config (cancel_stale X bk key v) = v_config v"
  "v_prices (cancel_stale X bk key v) = v_prices v"
  by (simp_all add: cancel_stale_def Let_def)

lemma cancel_stale_trim: "index_trim v \<Longrightarrow> index_trim (cancel_stale X bk key v)"
  by (auto simp: cancel_stale_def Let_def index_trim_def fold_dm_remove_ok dm_ok_remove dm_get_remove)

lemma linked_drop_key:
  assumes l: "linked order_slot T I"
  shows "linked order_slot (\<lambda>i. if \<exists>b. I (key, b) = Some i then None else T i)
    (\<lambda>k. if fst k = key then None else I k)"
proof -
  have fwd: "I (order_slot a) = Some i" if "T i = Some a" for i a
    using l that by (simp add: linked_def)
  have bwd: "\<exists>a. T i = Some a \<and> order_slot a = k" if "I k = Some i" for i k
    using l that unfolding linked_def by blast
  have "fst (order_slot a) \<noteq> key" if "T i = Some a" "\<nexists>b. I (key, b) = Some i" for i a
    using fwd [OF that(1)] that(2) by (cases "order_slot a") auto
  moreover have "\<nexists>b. I (key, b) = Some i" if "I k = Some i" "fst k \<noteq> key" for k i
    using bwd [OF that(1)] bwd that(2) by (metis fst_conv option.inject)
  ultimately show ?thesis
    using fwd bwd unfolding linked_def by (auto split: if_splits)
qed

lemma mm_ok_cancel_stale: "mm_ok gen v \<Longrightarrow> mm_ok gen (cancel_stale X bk key v)"
  unfolding mm_ok_def
  by (intro conjI)
    (auto simp: cancel_stale_maps cancel_stale_trim linked_drop_key intro!: ids_issued_sub [of gen v]
      split: if_splits)

lemma place_leg_result:
  assumes "place_leg X gen a p v = (w, r)"
  shows "v_index w = v_index v" "v_config w = v_config v" "v_prices w = v_prices v"
    and "v_next_id w = Suc (v_next_id v)"
    and "tracked w = (case r of None \<Rightarrow> tracked v | Some i \<Rightarrow> (tracked v)(i \<mapsto> a))"
    and "r = None \<or> r = Some (gen (v_next_id v))"
    and "dm_ok (v_active v) \<Longrightarrow> dm_ok (v_active w)"
  using assms
  by (auto simp: place_leg_def new_order_id_def Let_def tracked_def dm_get_insert dm_ok_insert fun_eq_iff
      split: sum.splits prod.splits)

lemma ids_issued_fresh:
  assumes "inj gen" and "ids_issued gen v"
  shows "tracked v (gen (v_next_id v)) = None"
  using assms unfolding ids_issued_def by (metis injD nat_less_le)

lemma ids_issued_place:
  assumes "ids_issued gen v" and "place_leg X gen a p v = (w, r)"
  shows "ids_issued gen w"
proof -
  note res = place_leg_result [OF assms(2)]
  have "\<exists>n < v_next_id w. i = gen n" if "tracked w i \<noteq> None" for i
  proof (cases "tracked v i = None")
    case True
    then have "i = gen (v_next_id v)"
      using that res(5,6) by (auto split: option.splits if_splits)
    then show ?thesis using res(4) by auto
  next
    case False
    then obtain n where "n < v_next_id v" "i = gen n"
      using assms(1) unfolding ids_issued_def by blast
    then show ?thesis using res(4) by (metis less_SucI)
  qed
  then show ?thesis by (simp add: ids_issued_def)
qed

text \<open>Both legs placed on an instrument with empty slots, then recorded in the index.\<close>

definition record_legs :: "instrument_key \<Rightarrow> 'o option \<Rightarrow> 'o option \<Rightarrow> ('m, 'o) venue \<Rightarrow> ('m, 'o) venue" where
  "record_legs key bid ask v =
     (if bid = None \<and> ask = None then v else v\<lparr>v_index := dm_insert key (bid, ask) (v_index v)\<rparr>)"

lemma record_legs_maps:
  assumes "\<And>b. indexed v (key, b) = None"
  shows "tracked (record_legs key bid ask v) = tracked v"
    and "indexed (record_legs key bid ask v) = (indexed v)((key, True) := bid, (key, False) := ask)"
proof -
  show "tracked (record_legs key bid ask v) = tracked v"
    by (rule tracked_cong) (simp add: record_legs_def)
  show "indexed (record_legs key bid ask v) = (indexed v)((key, True) := bid, (key, False) := ask)"
    using assms
    by (auto simp: record_legs_def indexed_def dm_get_insert leg_def fun_eq_iff)
qed

lemma linked_place:
  assumes "linked order_slot T I" and "T i = None" and "I (order_slot a) = None" and "r = None \<or> r = Some i"
  shows "linked order_slot (case r of None \<Rightarrow> T | Some i \<Rightarrow> T(i \<mapsto> a)) (I(order_slot a := r))"
  using assms linked_insert [of order_slot T I i a] by (auto simp: fun_upd_idem)

lemma mm_ok_place_legs:
  assumes ok: "mm_ok gen v" and "inj gen" and empty: "\<And>b. indexed v (key, b) = None"
    and bid: "place_leg X gen a p v = (v1, r1)" and ask: "place_leg X gen c q v1 = (v2, r2)"
    and slots: "order_slot a = (key, True)" "order_slot c = (key, False)"
  shows "mm_ok gen (record_legs key r1 r2 v2)"
proof -
  note res1 = place_leg_result [OF bid] and res2 = place_leg_result [OF ask]
  have ids: "ids_issued gen v" "ids_issued gen v1" "ids_issued gen v2"
    using ok ids_issued_place [OF _ bid] ids_issued_place [OF _ ask] by (auto simp: mm_ok_def)
  have ind: "indexed v2 = indexed v" by (rule indexed_cong) (simp add: res1 res2)
  have empty2: "indexed v2 (key, b) = None" for b by (simp add: ind empty)
  note maps = record_legs_maps [OF empty2]
  have "linked order_slot (tracked v1) ((indexed v)((key, True) := r1))"
    unfolding res1(5) slots(1) [symmetric] using ok ids_issued_fresh [OF \<open>inj gen\<close> ids(1)] empty slots res1(6)
    by (intro linked_place) (simp_all add: mm_ok_def)
  then have "linked order_slot (tracked v2) ((indexed v)((key, True) := r1, (key, False) := r2))"
    unfolding res2(5) slots(2) [symmetric] using ids_issued_fresh [OF \<open>inj gen\<close> ids(2)] empty slots res2(6)
    by (intro linked_place) simp_all
  moreover have "index_trim (record_legs key r1 r2 v2)"
    using ok res1 res2
    by (auto simp: mm_ok_def index_trim_def record_legs_def dm_ok_insert dm_get_insert split: if_splits)
  moreover have "ids_issued gen (record_legs key r1 r2 v2)"
    using ids(3) maps(1) by (simp add: ids_issued_def record_legs_def)
  moreover have "config_in_range (v_config (record_legs key r1 r2 v2))"
    using ok res1 res2 by (simp add: mm_ok_def record_legs_def)
  ultimately show ?thesis
    unfolding mm_ok_def maps ind by blast
qed

lemma mm_ok_update_quote [wf_intros]:
  assumes ok: "mm_ok gen v" and inj: "inj gen"
  shows "mm_ok gen (update_quote X qt gen ctx strike style v)"
proof -
  let ?e = "rc_expiration ctx" and ?s = "rc_symbol ctx" and ?c = "rc_config ctx"
  let ?key = "instrument_key_new ?s ?e strike style" and ?bk = "(?s, ?e, strike, style)"
  let ?in = "\<lparr>qi_spot_cents = rc_spot_cents ctx, qi_strike_cents = strike, qi_expiration = ?e,
      qi_style = style, qi_spread_multiplier = cfg_spread_multiplier ?c,
      qi_size_scalar = cfg_size_scalar ?c, qi_directional_skew = cfg_directional_skew ?c, qi_iv = None\<rparr>"
  show ?thesis
  proof (cases "generate_quote qt ?in")
    case None
    with ok show ?thesis by (simp add: update_quote_def Let_def)
  next
    case (Some q)
    let ?v = "cancel_stale X ?bk ?key v"
    let ?bid = "\<lparr>act_symbol = ?s, act_expiration = ?e, act_instrument = option_symbol ?s (rc_exp_canonical ctx) strike style,
      act_strike = strike, act_style = style, act_is_buy = True, act_theo_cents = qp_theo_price q,
      act_resting = qp_bid_size q\<rparr>"
    let ?ask = "\<lparr>act_symbol = ?s, act_expiration = ?e, act_instrument = option_symbol ?s (rc_exp_canonical ctx) strike style,
      act_strike = strike, act_style = style, act_is_buy = False, act_theo_cents = qp_theo_price q,
      act_resting = qp_ask_size q\<rparr>"
    obtain v1 r1 where p1: "place_leg X gen ?bid (qp_bid_price q) ?v = (v1, r1)" by fastforce
    obtain v2 r2 where p2: "place_leg X gen ?ask (qp_ask_price q) v1 = (v2, r2)" by fastforce
    have "mm_ok gen (record_legs ?key r1 r2 v2)"
      by (rule mm_ok_place_legs [OF mm_ok_cancel_stale [OF ok] inj _ p1 p2])
        (simp_all add: cancel_stale_maps order_slot_def instrument_key_from_order_def instrument_key_new_def)
    then show ?thesis
      using ok Some p1 p2
      by (auto simp: update_quote_def Let_def record_legs_def intro: mm_ok_emit)
  qed
qed

lemma mm_ok_fold:
  "mm_ok gen v \<Longrightarrow> (\<And>x v. mm_ok gen v \<Longrightarrow> mm_ok gen (f x v)) \<Longrightarrow> mm_ok gen (fold f xs v)"
  by (rule fold_invariant [where P = "mm_ok gen" and Q = "\<lambda>_. True"]) auto

lemma mm_ok_requote_symbol [wf_intros]:
  assumes inj: "inj gen" and ok: "mm_ok gen v"
  shows "mm_ok gen (requote_symbol X qt gen s v)"
proof -
  have strike: "mm_ok gen (requote_strike X qt gen ctx k w)" if "mm_ok gen w" for ctx k w
    unfolding requote_strike_def using that inj by (auto intro: mm_ok_fold mm_ok_update_quote)
  have expiry: "mm_ok gen (requote_expiration X qt gen s p c e w)" if "mm_ok gen w" for p c e w
    unfolding requote_expiration_def Let_def using that by (intro mm_ok_fold strike)
  show ?thesis
    using ok by (auto simp: requote_symbol_def intro!: mm_ok_fold expiry split: option.splits)
qed

lemma mm_ok_requote_all [wf_intros]:
  "inj gen \<Longrightarrow> mm_ok gen v \<Longrightarrow> mm_ok gen (requote_all X qt gen v)"
  unfolding requote_all_def by (intro mm_ok_fold) (simp_all add: requote_if_enabled_def mm_ok_requote_symbol)

lemma mm_ok_broadcast [wf_intros]: "mm_ok gen v \<Longrightarrow> mm_ok gen (broadcast_config_change v)"
  by (simp add: broadcast_config_change_def Let_def mm_ok_emit)

lemma mm_ok_set_config:
  "mm_ok gen v \<Longrightarrow> config_in_range c \<Longrightarrow> mm_ok gen (v\<lparr>v_config := c\<rparr>)"
  using mm_ok_cong [of gen v "v\<lparr>v_config := c\<rparr>"] by simp

lemma mm_ok_set_prices: "mm_ok gen v \<Longrightarrow> mm_ok gen (v\<lparr>v_prices := p\<rparr>)"
  using mm_ok_cong [of gen v "v\<lparr>v_prices := p\<rparr>"] mm_ok_config [of gen v] by simp

lemma spread_min_value: "spread_multiplier_min = Fin (3602879701896397 / 36028797018963968)"
proof -
  have q: "quotient_of (1 / 10) = (1, 10)" by code_simp
  have e: "rat_exponent (1 / 10) = - 4"
    by (simp add: rat_exponent_def q ilog2.simps)
  have f: "\<lfloor>36028797018963968 / 5 :: rat\<rfloor> = 7205759403792793"
    by (rule floor_unique) simp_all
  show ?thesis
    by (simp add: spread_multiplier_min_def f_lit_def round_f64_def e Let_def round_half_even_def f)
qed

lemma clamp_in_range:
  assumes "f_is_finite x"
  shows "f_le spread_multiplier_min (f_clamp x spread_multiplier_min spread_multiplier_max)"
    "f_le (f_clamp x spread_multiplier_min spread_multiplier_max) spread_multiplier_max"
    "f_le size_scalar_min (f_clamp x size_scalar_min size_scalar_max)"
    "f_le (f_clamp x size_scalar_min size_scalar_max) size_scalar_max"
    "f_le directional_skew_min (f_clamp x directional_skew_min directional_skew_max)"
    "f_le (f_clamp x directional_skew_min directional_skew_max) directional_skew_max"
proof -
  have clamp: "f_le (Fin a) (f_clamp x (Fin a) (Fin b)) \<and> f_le (f_clamp x (Fin a) (Fin b)) (Fin b)"
    if "a \<le> b" for a b
    using f_clamp_finite [OF assms that] by auto
  show "f_le spread_multiplier_min (f_clamp x spread_multiplier_min spread_multiplier_max)"
    "f_le (f_clamp x spread_multiplier_min spread_multiplier_max) spread_multiplier_max"
    unfolding spread_min_value spread_multiplier_max_def by (simp_all add: clamp)
  show "f_le size_scalar_min (f_clamp x size_scalar_min size_scalar_max)"
    "f_le (f_clamp x size_scalar_min size_scalar_max) size_scalar_max"
    unfolding size_scalar_min_def size_scalar_max_def by (simp_all add: clamp)
  show "f_le directional_skew_min (f_clamp x directional_skew_min directional_skew_max)"
    "f_le (f_clamp x directional_skew_min directional_skew_max) directional_skew_max"
    unfolding directional_skew_min_def directional_skew_max_def by (simp_all add: clamp)
qed

section \<open>Commands and runs\<close>

datatype 'o mm_command =
    MmPrice string u64
  | MmEnable bool
  | MmSymbol string bool
  | MmSpread f64
  | MmSize f64
  | MmSkew f64
  | MmFilled 'o u128 u64

fun mm_exec ::
  "('m, 'o) exchange \<Rightarrow> quoter \<Rightarrow> (nat \<Rightarrow> 'o) \<Rightarrow> 'o mm_command \<Rightarrow> ('m, 'o) venue \<Rightarrow> ('m, 'o) venue" where
  "mm_exec X qt gen (MmPrice s p) v = update_price X qt gen s p v"
| "mm_exec X qt gen (MmEnable b) v = set_enabled X b v"
| "mm_exec X qt gen (MmSymbol s b) v = set_symbol_enabled X s b v"
| "mm_exec X qt gen (MmSpread f) v = set_spread_multiplier X qt gen f v"
| "mm_exec X qt gen (MmSize f) v = set_size_scalar X qt gen f v"
| "mm_exec X qt gen (MmSkew f) v = set_directional_skew X qt gen f v"
| "mm_exec X qt gen (MmFilled i p q) v = on_order_filled X i p q v"

lemma mm_ok_set_enabled [wf_intros]:
  assumes "mm_ok gen v"
  shows "mm_ok gen (set_enabled X b v)"
proof -
  have "mm_ok gen (v\<lparr>v_config := (v_config v)\<lparr>cfg_enabled := b\<rparr>\<rparr>)"
    using assms mm_ok_config [OF assms] by (intro mm_ok_set_config) (simp_all add: config_in_range_def)
  then show ?thesis
    by (auto simp: set_enabled_def Let_def intro!: mm_ok_broadcast mm_ok_cancel_all)
qed

lemma mm_ok_exec:
  assumes inj: "inj gen" and ok: "mm_ok gen v"
  shows "mm_ok gen (mm_exec X qt gen c v)"
proof -
  have cfg: "config_in_range (v_config v)" using ok by (rule mm_ok_config)
  show ?thesis
  proof (cases c)
    case (MmPrice s p)
    then show ?thesis
      using ok inj by (auto simp: update_price_def Let_def intro!: mm_ok_requote_symbol mm_ok_emit mm_ok_set_prices)
  next
    case (MmSymbol s b)
    have "mm_ok gen (v\<lparr>v_config := (v_config v)\<lparr>cfg_symbol_enabled :=
        dm_insert s b (cfg_symbol_enabled (v_config v))\<rparr>\<rparr>)"
      using ok cfg by (intro mm_ok_set_config) (simp_all add: config_in_range_def)
    then show ?thesis
      using MmSymbol by (auto simp: set_symbol_enabled_def Let_def cancel_symbol_orders_def
          intro: mm_ok_cancel_all_ids)
  next
    case (MmSpread f)
    then show ?thesis
      using ok inj cfg
      by (auto simp: set_spread_multiplier_def config_in_range_def clamp_in_range
          intro!: mm_ok_requote_all mm_ok_broadcast mm_ok_set_config)
  next
    case (MmSize f)
    then show ?thesis
      using ok inj cfg
      by (auto simp: set_size_scalar_def config_in_range_def clamp_in_range
          intro!: mm_ok_requote_all mm_ok_broadcast mm_ok_set_config)
  next
    case (MmSkew f)
    then show ?thesis
      using ok inj cfg
      by (auto simp: set_directional_skew_def config_in_range_def clamp_in_range
          intro!: mm_ok_requote_all mm_ok_broadcast mm_ok_set_config)
  qed (use ok in \<open>simp_all add: mm_ok_set_enabled mm_ok_filled\<close>)
qed

lemma mm_ok_new: "mm_ok gen (engine_new m)"
  by (simp add: mm_ok_def engine_new_def tracked_def indexed_def linked_def index_trim_def ids_issued_def
      config_in_range_def mm_config_default_def spread_min_value spread_multiplier_max_def size_scalar_min_def
      size_scalar_max_def directional_skew_min_def directional_skew_max_def f_one_def f_zero_def)

interpretation mmrun: command_machine "mm_exec X qt gen" "\<lambda>v. inj gen \<and> mm_ok gen v"
  by unfold_locales (simp add: mm_ok_exec)

lemma cancel_keeps_resolves:
  assumes "cancel_only_removes X"
  shows "book_resolves X (v_manager (cancel_order_mm X j v)) u e k \<longleftrightarrow> book_resolves X (v_manager v) u e k"
  using assms
  by (auto simp: cancel_order_mm_def Let_def book_resolves_def cancel_only_removes_def split: option.splits)

lemma cancel_keeps_absent:
  assumes "cancel_only_removes X" and "x_order X (v_manager v) bk i = None"
  shows "x_order X (v_manager (cancel_order_mm X j v)) bk i = None"
proof -
  have "x_order X (fst (x_cancel X (v_manager v) bk' j)) bk i = None" for bk'
    using assms unfolding cancel_only_removes_def by blast
  with assms(2) show ?thesis
    by (auto simp: cancel_order_mm_def Let_def split: option.splits)
qed

definition book_of :: "active_order \<Rightarrow> book_key" where
  "book_of a = (act_symbol a, act_expiration a, act_strike a, act_style a)"

definition reachable_book :: "('m, 'o) exchange \<Rightarrow> ('m, 'o) venue \<Rightarrow> active_order \<Rightarrow> bool" where
  "reachable_book X v a \<longleftrightarrow> book_resolves X (v_manager v) (act_symbol a) (act_expiration a) (act_strike a)"

lemma cancel_takes_off_book:
  assumes "cancel_only_removes X" and "tracked v i = Some a" and "reachable_book X v a"
  shows "x_order X (v_manager (cancel_order_mm X i v)) (book_of a) i = None"
  using assms
  by (simp add: cancel_order_mm_def Let_def tracked_def reachable_book_def book_of_def cancel_only_removes_def)

lemma cancel_ids_off_book:
  assumes laws: "cancel_only_removes X" and "i \<in> set ids" and "tracked v i = Some a" and "reachable_book X v a"
  shows "x_order X (v_manager (fold (cancel_order_mm X) ids v)) (book_of a) i = None"
  using assms(2-)
proof (induction ids arbitrary: v)
  case (Cons j ids)
  show ?case
  proof (cases "j = i")
    case True
    have "x_order X (v_manager (fold (cancel_order_mm X) ids (cancel_order_mm X i v))) (book_of a) i = None"
      by (rule fold_invariant [where P = "\<lambda>w. x_order X (v_manager w) (book_of a) i = None" and Q = "\<lambda>_. True"])
        (simp_all add: cancel_takes_off_book [OF laws] Cons.prems cancel_keeps_absent [OF laws])
    with True show ?thesis by simp
  next
    case False
    have "reachable_book X (cancel_order_mm X j v) a"
      using Cons.prems(3) by (simp add: reachable_book_def cancel_keeps_resolves [OF laws])
    with False Cons show ?thesis by (simp add: tracked_cancel)
  qed
qed simp

section \<open>Properties\<close>

text \<open>
  C15. The tracked orders and the reverse index never disagree: after any sequence of price
  updates, control changes and fills, an order is tracked exactly when its own slot of the
  index names it, no instrument has two tracked bids or two tracked asks, and the
  controls stay in their documented ranges; for ids that are never issued twice.
\<close>

theorem mm_index_consistent:
  fixes X :: "('m, 'o) exchange" and qt :: quoter and cs :: "'o mm_command list" and m :: 'm
  assumes "inj gen"
  defines "v \<equiv> fold (mm_exec X qt gen) cs (engine_new m)"
  shows "(\<forall>i a. tracked v i = Some a \<longrightarrow> indexed v (instrument_key_from_order a, act_is_buy a) = Some i)
    \<and> (\<forall>k b i. indexed v (k, b) = Some i \<longrightarrow>
         (\<exists>a. tracked v i = Some a \<and> instrument_key_from_order a = k \<and> act_is_buy a = b))
    \<and> (\<forall>i j a c. tracked v i = Some a \<and> tracked v j = Some c \<and> act_is_buy a = act_is_buy c
         \<and> instrument_key_from_order a = instrument_key_from_order c \<longrightarrow> i = j)
    \<and> config_in_range (v_config v)"
proof -
  have ok: "mm_ok gen v"
    using mmrun.run_inv [of gen "engine_new m" X qt cs] assms(1) by (simp add: v_def mm_ok_new)
  then have l: "linked order_slot (tracked v) (indexed v)" by (simp add: mm_ok_def)
  have fwd: "indexed v (instrument_key_from_order a, act_is_buy a) = Some i" if "tracked v i = Some a" for i a
    using l that by (simp add: linked_def order_slot_def)
  have bwd: "\<exists>a. tracked v i = Some a \<and> instrument_key_from_order a = k \<and> act_is_buy a = b"
    if h: "indexed v (k, b) = Some i" for k b i
  proof -
    obtain a where "tracked v i = Some a" "order_slot a = (k, b)"
      using l h unfolding linked_def by blast
    then show ?thesis by (auto simp: order_slot_def)
  qed
  have "i = j" if "tracked v i = Some a" "tracked v j = Some c" "act_is_buy a = act_is_buy c"
      "instrument_key_from_order a = instrument_key_from_order c" for i j a c
    using that fwd [OF that(1)] fwd [OF that(2)] by simp
  then show ?thesis using fwd bwd mm_ok_config [OF ok] by blast
qed

definition demo_books :: demo_state where
  "demo_books = \<lparr>ds_underlyings = [''BTC''], ds_expirations = [(''BTC'', DateTime 0)],
     ds_strikes = [(''BTC'', DateTime 0, 100)], ds_orders = []\<rparr>"

lemma mm_index_consistent_witness:
  "config_in_range (v_config (fold (mm_exec demo_exchange (demo_quoter (Fin 0)) (\<lambda>n. n))
     [MmPrice ''BTC'' 100, MmSkew (Fin 5), MmFilled 0 3 1] (engine_new demo_books)))"
  using mm_index_consistent [of "\<lambda>n. n" demo_exchange "demo_quoter (Fin 0)"
      "[MmPrice ''BTC'' 100, MmSkew (Fin 5), MmFilled 0 3 1]" demo_books]
  by (simp only: inj_on_id2)


definition demo_quote_order :: active_order where
  "demo_quote_order = \<lparr>act_symbol = ''BTC'', act_expiration = DateTime 0, act_instrument = ''BTC-20300101-100-C'',
     act_strike = 100, act_style = OptCall, act_is_buy = True, act_theo_cents = 50, act_resting = 7\<rparr>"

definition demo_quoting :: "(demo_state, nat) venue" where
  "demo_quoting = (engine_new (demo_books\<lparr>ds_orders := [(book_of demo_quote_order, 0, BookBuy, 45, 7)]\<rparr>))
     \<lparr>v_next_id := 1, v_active := [(0, demo_quote_order)],
      v_index := [(instrument_key_from_order demo_quote_order, (Some 0, None))]\<rparr>"

lemma demo_quoting_ok: "mm_ok (\<lambda>n. n) demo_quoting"
proof -
  have "tracked demo_quoting = [0 \<mapsto> demo_quote_order]"
    by (simp add: demo_quoting_def tracked_def fun_eq_iff)
  moreover have "indexed demo_quoting = [order_slot demo_quote_order \<mapsto> 0]"
    by (auto simp: demo_quoting_def indexed_def leg_def fun_eq_iff order_slot_def demo_quote_order_def)
  moreover have "config_in_range (v_config demo_quoting)"
    using mm_ok_config [OF mm_ok_new [of "\<lambda>n. n" demo_books]] by (simp add: demo_quoting_def engine_new_def)
  ultimately show ?thesis
    by (auto simp: mm_ok_def linked_def index_trim_def ids_issued_def demo_quoting_def dm_ok_def split: if_splits)
qed


text \<open>
  Fill accounting of a quote: a fill of a tracked order reduces its resting quantity by
  the filled amount (dropping it when nothing is left), broadcasts exactly one event with
  the quantity clamped to what rested and the edge against the quote-time value, and leaves
  every other order and the book alone; a fill of an unknown id changes nothing.
\<close>

theorem mm_fill_accounting:
  fixes X :: "('m, 'o) exchange" and v :: "('m, 'o) venue" and i :: 'o and price :: u128 and qty :: u64
  defines "w \<equiv> on_order_filled X i price qty v"
  shows "(tracked v i = None \<longrightarrow> w = v)
    \<and> (\<forall>a. tracked v i = Some a \<and> 0 < qty \<and> uint price < 2 ^ 63 \<and> uint (act_theo_cents a) < 2 ^ 63 \<longrightarrow>
         tracked w i = (if act_resting a \<le> qty then None else Some (a\<lparr>act_resting := act_resting a - qty\<rparr>))
       \<and> (\<forall>j. j \<noteq> i \<longrightarrow> tracked w j = tracked v j) \<and> v_manager w = v_manager v
       \<and> v_events w = v_events v @ [OrderFilled (x_oid_str X i) (act_symbol a) (act_instrument a)
           (if act_is_buy a then ''buy'' else ''sell'') (min qty (act_resting a)) price
           (if act_is_buy a then uint (act_theo_cents a) - uint price else uint price - uint (act_theo_cents a))])"
proof -
  have "tracked w i = (if act_resting a \<le> qty then None else Some (a\<lparr>act_resting := act_resting a - qty\<rparr>))
       \<and> (\<forall>j. j \<noteq> i \<longrightarrow> tracked w j = tracked v j) \<and> v_manager w = v_manager v
       \<and> v_events w = v_events v @ [OrderFilled (x_oid_str X i) (act_symbol a) (act_instrument a)
           (if act_is_buy a then ''buy'' else ''sell'') (min qty (act_resting a)) price
           (if act_is_buy a then uint (act_theo_cents a) - uint price else uint price - uint (act_theo_cents a))]"
    if a: "tracked v i = Some a" and q: "0 < qty" and p: "uint price < 2 ^ 63"
      and t: "uint (act_theo_cents a) < 2 ^ 63" for a
  proof -
    have "uint (ucast price :: u64) = uint price"
      using p by (simp add: unsigned_ucast_eq take_bit_int_eq_self)
    then have sp: "sint (ucast price :: u64) = uint price" and st: "sint (act_theo_cents a) = uint (act_theo_cents a)"
      using p t sint_small [of "ucast price"] by (simp_all add: sint_small)
    have edge: "calculate_edge (ucast price) (act_theo_cents a) b =
        (if b then uint (act_theo_cents a) - uint price else uint price - uint (act_theo_cents a))" for b
    proof -
      have "in_i64 (uint (act_theo_cents a) - uint price)" "in_i64 (uint price - uint (act_theo_cents a))"
        using p t uint_ge_0 [of price] uint_ge_0 [of "act_theo_cents a"] unfolding in_i64_def by linarith+
      then show ?thesis by (simp add: calculate_edge_def sp st wrap_i64_id)
    qed
    show ?thesis
      using a q p by (auto simp: w_def on_order_filled_def Let_def edge tracked_def dm_get_remove dm_get_insert emit_def)
  qed
  moreover have "tracked v i = None \<longrightarrow> w = v"
    by (simp add: w_def on_order_filled_def tracked_def)
  ultimately show ?thesis by blast
qed

lemma mm_fill_accounting_witness:
  "tracked (on_order_filled demo_exchange 0 45 3 demo_quoting) 0 = Some (demo_quote_order\<lparr>act_resting := 4\<rparr>)
   \<and> v_events (on_order_filled demo_exchange 0 45 3 demo_quoting) =
       [OrderFilled ''0'' ''BTC'' ''BTC-20300101-100-C'' ''buy'' 3 45 5]"
proof -
  have "tracked demo_quoting 0 = Some demo_quote_order"
    by (simp add: demo_quoting_def tracked_def)
  moreover have "show_nat 0 = ''0''" by code_simp
  ultimately show ?thesis
    using mm_fill_accounting [of demo_quoting 0 demo_exchange 45 3]
    by (simp add: demo_quote_order_def demo_quoting_def engine_new_def demo_exchange_def)
qed

section \<open>The kill switch does not hold\<close>

text \<open>
  \<open>requote_all\<close>, which every parameter change triggers, looks at the per-symbol switches
  but not at the global one. On an engine that has been disabled, a parameter change
  therefore places and tracks fresh quotes.
\<close>

lemma demo_quoter_quotes: "\<exists>q. generate_quote (demo_quoter (Fin 0)) i = Some q"
  by (rule generate_quote_finite) (simp_all add: theo_of_def demo_quoter_def round_f64_def)

lemma demo_add_frame [simp]:
  "ds_underlyings (fst (demo_add m bk i s p q)) = ds_underlyings m"
  "ds_expirations (fst (demo_add m bk i s p q)) = ds_expirations m"
  "ds_strikes (fst (demo_add m bk i s p q)) = ds_strikes m"
  by (simp_all add: demo_add_def split: prod.split)

lemma kill_switch_bypassed:
  "let v = fold (mm_exec demo_exchange (demo_quoter (Fin 0)) (\<lambda>n. n))
     [MmEnable False, MmPrice ''BTC'' 100, MmSpread (Fin 1)] (engine_new demo_books)
   in \<not> cfg_enabled (v_config v) \<and> length (v_active v) = 4"
proof -
  let ?exec = "mm_exec demo_exchange (demo_quoter (Fin 0)) (\<lambda>n. n)"
  obtain Q where Q: "\<And>i. generate_quote (demo_quoter (Fin 0)) i = Some (Q i)"
    using demo_quoter_quotes by metis
  let ?c = "mm_config_default\<lparr>cfg_enabled := False\<rparr>"
  have v1: "?exec (MmEnable False) (engine_new demo_books) =
      (engine_new demo_books)\<lparr>v_config := ?c, v_events := [ConfigChanged False f_one f_one f_zero]\<rparr>"
    by (simp add: set_enabled_def cancel_all_mm_def broadcast_config_change_def emit_def engine_new_def
        mm_config_default_def)
  have v2: "?exec (MmPrice ''BTC'' 100) (?exec (MmEnable False) (engine_new demo_books)) =
      (engine_new demo_books)\<lparr>v_config := ?c, v_prices := [(''BTC'', 100)],
         v_events := [ConfigChanged False f_one f_one f_zero, PriceUpdated ''BTC'' 100]\<rparr>"
    unfolding v1 by (simp add: update_price_def emit_def engine_new_def Let_def)
  have "let v = ?exec (MmSpread (Fin 1)) ((engine_new demo_books)\<lparr>v_config := ?c, v_prices := [(''BTC'', 100)],
         v_events := [ConfigChanged False f_one f_one f_zero, PriceUpdated ''BTC'' 100]\<rparr>)
      in \<not> cfg_enabled (v_config v) \<and> length (v_active v) = 4"
    by (simp add: set_spread_multiplier_def broadcast_config_change_def emit_def requote_all_def requote_if_enabled_def
        requote_symbol_def requote_expiration_def requote_strike_def update_quote_def Q Let_def
        demo_exchange_def demo_books_def engine_new_def is_symbol_enabled_def mm_config_default_def book_resolves_def
        cancel_stale_def place_leg_def new_order_id_def instrument_key_new_def)
  then show ?thesis by (simp only: fold_simps v2)
qed

end
