(* ===== verification/Controls.thy ===== *)
theory Controls
  imports Config Market_Maker Errors
begin

text \<open>
  The control and price endpoints of \<open>src/src/api/controls.rs\<close>: the master switch, the global
  parameters, the per-instrument toggle, price insertion and the price queries, all on the
  market maker's \<open>venue\<close>. The optional database is a parameter: a lookup that may fail and, for
  an insertion, the row that is handed to it, whose outcome the handler ignores. The text of an
  error message that prints a float is a parameter.
\<close>

section \<open>Requests and responses\<close>

record system_control_response =
  sc_master_enabled :: bool
  sc_spread_multiplier :: f64
  sc_size_scalar :: f64
  sc_directional_skew :: f64

record kill_switch_response =
  kr_success :: bool
  kr_message :: string
  kr_master_enabled :: bool

record update_parameters_request =
  pq_spread_multiplier :: "f64 option"
  pq_size_scalar :: "f64 option"
  pq_directional_skew :: "f64 option"

record update_parameters_response =
  pr_success :: bool
  pr_spread_multiplier :: f64
  pr_size_scalar :: f64
  pr_directional_skew :: f64

record instrument_toggle_response =
  ir_success :: bool
  ir_symbol :: string
  ir_enabled :: bool

record insert_price_request =
  iq_symbol :: string
  iq_price :: f64
  iq_bid :: "f64 option"
  iq_ask :: "f64 option"
  iq_volume :: "i64 option"
  iq_source :: "string option"

record insert_price_response =
  ip_success :: bool
  ip_symbol :: string
  ip_price_cents :: i64
  ip_timestamp :: string

record price_row =
  pw_symbol :: string
  pw_price_cents :: i64
  pw_bid_cents :: "i64 option"
  pw_ask_cents :: "i64 option"
  pw_volume :: "i64 option"
  pw_timestamp :: string

record latest_price_response =
  lp_symbol :: string
  lp_price :: f64
  lp_bid :: "f64 option"
  lp_ask :: "f64 option"
  lp_volume :: "i64 option"
  lp_timestamp :: string

record instrument_status =
  is_symbol :: string
  is_quoting_enabled :: bool
  is_current_price :: "f64 option"

section \<open>Controls\<close>

definition get_controls :: "('m, 'o) venue \<Rightarrow> system_control_response" where
  "get_controls v =
     (let c = v_config v
      in \<lparr>sc_master_enabled = cfg_enabled c, sc_spread_multiplier = cfg_spread_multiplier c,
          sc_size_scalar = cfg_size_scalar c, sc_directional_skew = cfg_directional_skew c\<rparr>)"

definition kill_switch :: "('m, 'o) exchange \<Rightarrow> ('m, 'o) venue \<Rightarrow> ('m, 'o) venue \<times> kill_switch_response" where
  "kill_switch X v =
     (let was_enabled = cfg_enabled (v_config v)
      in (if was_enabled then set_enabled X False v else v,
          \<lparr>kr_success = True,
           kr_message = (if was_enabled then ''Kill switch activated - all quoting disabled''
                         else ''Quoting was already disabled''),
           kr_master_enabled = False\<rparr>))"

definition enable_quoting :: "('m, 'o) exchange \<Rightarrow> ('m, 'o) venue \<Rightarrow> ('m, 'o) venue \<times> kill_switch_response" where
  "enable_quoting X v =
     (set_enabled X True v, \<lparr>kr_success = True, kr_message = ''Quoting enabled'', kr_master_enabled = True\<rparr>)"

text \<open>An optional field: absent, valid, or the 400 response naming it.\<close>

definition validated_field ::
  "(string \<Rightarrow> f64 \<Rightarrow> string) \<Rightarrow> string \<Rightarrow> f64 option \<Rightarrow> f64 \<Rightarrow> f64 \<Rightarrow> api_error + f64 option" where
  "validated_field msg field v lo hi =
     (case v of
        None \<Rightarrow> Inr None
      | Some x \<Rightarrow> (case validate_control_value x lo hi of
                    Some y \<Rightarrow> Inr (Some y)
                  | None \<Rightarrow> Inl (InvalidRequest (msg field x))))"

definition update_parameters ::
  "('m, 'o) exchange \<Rightarrow> quoter \<Rightarrow> (nat \<Rightarrow> 'o) \<Rightarrow> (string \<Rightarrow> f64 \<Rightarrow> string) \<Rightarrow> update_parameters_request \<Rightarrow> ('m, 'o) venue
   \<Rightarrow> ('m, 'o) venue \<times> (api_error + update_parameters_response)" where
  "update_parameters X qt gen msg body v =
     (case validated_field msg ''spread_multiplier'' (pq_spread_multiplier body) spread_multiplier_min spread_multiplier_max of
        Inl e \<Rightarrow> (v, Inl e)
      | Inr spread \<Rightarrow>
     (case validated_field msg ''size_scalar'' (pq_size_scalar body) size_scalar_min size_scalar_max of
        Inl e \<Rightarrow> (v, Inl e)
      | Inr scalar \<Rightarrow>
     (case validated_field msg ''directional_skew'' (pq_directional_skew body) directional_skew_min directional_skew_max of
        Inl e \<Rightarrow> (v, Inl e)
      | Inr skew \<Rightarrow>
          (let v = (case spread of Some x \<Rightarrow> set_spread_multiplier X qt gen x v | None \<Rightarrow> v);
               v = (case scalar of Some x \<Rightarrow> set_size_scalar X qt gen x v | None \<Rightarrow> v);
               v = (case skew of Some x \<Rightarrow> set_directional_skew X qt gen x v | None \<Rightarrow> v);
               c = v_config v
           in (v, Inr \<lparr>pr_success = True, pr_spread_multiplier = cfg_spread_multiplier c,
                  pr_size_scalar = cfg_size_scalar c, pr_directional_skew = cfg_directional_skew c\<rparr>)))))"

definition toggle_instrument ::
  "('m, 'o) exchange \<Rightarrow> string \<Rightarrow> ('m, 'o) venue \<Rightarrow> ('m, 'o) venue \<times> instrument_toggle_response" where
  "toggle_instrument X symbol v =
     (let was_enabled = is_symbol_enabled v symbol
      in (set_symbol_enabled X symbol (\<not> was_enabled) v,
          \<lparr>ir_success = True, ir_symbol = symbol, ir_enabled = \<not> was_enabled\<rparr>))"

definition cents_to_dollars :: "u64 \<Rightarrow> f64" where
  "cents_to_dollars p = f_div (f_of_u64 p) (Fin 100)"

definition list_instruments :: "('m, 'o) exchange \<Rightarrow> ('m, 'o) venue \<Rightarrow> instrument_status list" where
  "list_instruments X v =
     map (\<lambda>symbol. \<lparr>is_symbol = symbol, is_quoting_enabled = is_symbol_enabled v symbol,
            is_current_price = map_option cents_to_dollars (get_price v symbol)\<rparr>)
       (x_underlyings X (v_manager v))"

section \<open>Prices\<close>

definition max_price_dollars :: f64 where "max_price_dollars = max_initial_price"

definition field_cents :: "(string \<Rightarrow> f64 \<Rightarrow> string) \<Rightarrow> string \<Rightarrow> f64 \<Rightarrow> api_error + u64" where
  "field_cents msg field value =
     (if \<not> f_is_finite value then Inl (InvalidRequest (msg (field @ '' must be a finite number'') value))
      else if f_lt value (Fin 0) then Inl (InvalidRequest (msg (field @ '' must be non-negative'') value))
      else if f_lt max_price_dollars value
           then Inl (InvalidRequest (msg (field @ '' exceeds maximum allowed value'') value))
      else (case dollars_to_cents value of
              Some c \<Rightarrow> Inr c
            | None \<Rightarrow> Inl (InvalidRequest (msg (field @ '' is not a valid price'') value))))"

definition cents_to_i64 :: "string \<Rightarrow> u64 \<Rightarrow> api_error + i64" where
  "cents_to_i64 field cents =
     (if uint cents < 2 ^ 63 then Inr (uint cents)
      else Inl (InvalidRequest (field @ '' is too large to store: '' @ show_int (uint cents))))"

definition optional_field :: "('a \<Rightarrow> api_error + 'b) \<Rightarrow> 'a option \<Rightarrow> api_error + 'b option" where
  "optional_field f v =
     (case v of None \<Rightarrow> Inr None
      | Some x \<Rightarrow> (case f x of Inl e \<Rightarrow> Inl e | Inr y \<Rightarrow> Inr (Some y)))"

text \<open>The row is what the database is asked to store when there is one.\<close>

definition insert_price ::
  "('m, 'o) exchange \<Rightarrow> quoter \<Rightarrow> (nat \<Rightarrow> 'o) \<Rightarrow> (string \<Rightarrow> f64 \<Rightarrow> string) \<Rightarrow> string \<Rightarrow> insert_price_request \<Rightarrow> ('m, 'o) venue
   \<Rightarrow> ('m, 'o) venue \<times> (api_error + insert_price_response \<times> price_row)" where
  "insert_price X qt gen msg timestamp body v =
     (case field_cents msg ''price'' (iq_price body) of Inl e \<Rightarrow> (v, Inl e) | Inr price \<Rightarrow>
     (case optional_field (field_cents msg ''bid'') (iq_bid body) of Inl e \<Rightarrow> (v, Inl e) | Inr bid \<Rightarrow>
     (case optional_field (field_cents msg ''ask'') (iq_ask body) of Inl e \<Rightarrow> (v, Inl e) | Inr ask \<Rightarrow>
     (case cents_to_i64 ''price'' price of Inl e \<Rightarrow> (v, Inl e) | Inr price_cents \<Rightarrow>
     (case optional_field (cents_to_i64 ''bid'') bid of Inl e \<Rightarrow> (v, Inl e) | Inr bid_cents \<Rightarrow>
     (case optional_field (cents_to_i64 ''ask'') ask of Inl e \<Rightarrow> (v, Inl e) | Inr ask_cents \<Rightarrow>
        (update_price X qt gen (iq_symbol body) price v,
         Inr (\<lparr>ip_success = True, ip_symbol = iq_symbol body, ip_price_cents = price_cents, ip_timestamp = timestamp\<rparr>,
              \<lparr>pw_symbol = iq_symbol body, pw_price_cents = price_cents, pw_bid_cents = bid_cents, pw_ask_cents = ask_cents,
               pw_volume = iq_volume body, pw_timestamp = timestamp\<rparr>))))))))"

type_synonym price_db = "(string \<Rightarrow> string + price_row option) option"

definition i64_dollars :: "i64 \<Rightarrow> f64" where
  "i64_dollars p = f_div (f_of_int p) (Fin 100)"

definition get_latest_price :: "price_db \<Rightarrow> string \<Rightarrow> string \<Rightarrow> ('m, 'o) venue \<Rightarrow> api_error + latest_price_response" where
  "get_latest_price db now symbol v =
     (case get_price v symbol of
        Some price_cents \<Rightarrow>
          Inr \<lparr>lp_symbol = symbol, lp_price = cents_to_dollars price_cents, lp_bid = None, lp_ask = None,
               lp_volume = None, lp_timestamp = now\<rparr>
      | None \<Rightarrow>
          (let absent = Inl (NotFound (''No price found for symbol: '' @ symbol))
           in case db of
                None \<Rightarrow> absent
              | Some lookup \<Rightarrow>
                  (case lookup symbol of
                     Inl e \<Rightarrow> Inl (Database e)
                   | Inr None \<Rightarrow> absent
                   | Inr (Some row) \<Rightarrow>
                       Inr \<lparr>lp_symbol = symbol, lp_price = i64_dollars (pw_price_cents row),
                            lp_bid = map_option i64_dollars (pw_bid_cents row),
                            lp_ask = map_option i64_dollars (pw_ask_cents row),
                            lp_volume = pw_volume row, lp_timestamp = pw_timestamp row\<rparr>)))"

definition all_latest_prices :: "('m, 'o) exchange \<Rightarrow> string \<Rightarrow> ('m, 'o) venue \<Rightarrow> latest_price_response list" where
  "all_latest_prices X now v =
     List.map_filter (\<lambda>symbol. map_option (\<lambda>price_cents.
          \<lparr>lp_symbol = symbol, lp_price = cents_to_dollars price_cents, lp_bid = None, lp_ask = None,
           lp_volume = None, lp_timestamp = now\<rparr>) (get_price v symbol))
       (x_underlyings X (v_manager v))"

section \<open>What a requote leaves alone\<close>

text \<open>Requoting moves orders: the configuration and the prices stay, ids are only taken.\<close>

definition requoted :: "('m, 'o) venue \<Rightarrow> ('m, 'o) venue \<Rightarrow> bool" where
  "requoted v w \<longleftrightarrow> v_config w = v_config v \<and> v_prices w = v_prices v \<and> v_next_id v \<le> v_next_id w"

lemma requoted_refl [simp, intro]: "requoted v v"
  by (simp add: requoted_def)

lemma requoted_trans [trans]: "requoted u v \<Longrightarrow> requoted v w \<Longrightarrow> requoted u w"
  by (auto simp: requoted_def)

lemma requoted_fold: "(\<And>x v. requoted v (f x v)) \<Longrightarrow> requoted v (fold f xs v)"
  by (rule fold_invariant [where P = "requoted v" and Q = "\<lambda>_. True"]) (auto intro: requoted_trans)

lemma place_leg_frame:
  "place_leg X gen a p v = (w, r) \<Longrightarrow> v_config w = v_config v \<and> v_prices w = v_prices v \<and> v_next_id w = Suc (v_next_id v)"
  by (simp add: place_leg_result)

lemma requoted_update_quote: "requoted v (update_quote X qt gen ctx k s v)"
  by (auto simp: requoted_def update_quote_def Let_def split: option.split prod.split dest!: place_leg_frame)

lemma requoted_strike: "requoted v (requote_strike X qt gen ctx k v)"
  by (simp add: requote_strike_def requoted_trans [OF requoted_update_quote requoted_update_quote])

lemma requoted_symbol: "requoted v (requote_symbol X qt gen s v)"
  by (auto simp: requote_symbol_def requote_expiration_def Let_def intro!: requoted_fold requoted_strike
      split: option.split)

lemma requoted_all: "requoted v (requote_all X qt gen v)"
  unfolding requote_all_def
  by (intro requoted_fold) (simp add: requote_if_enabled_def requoted_symbol)

lemma cancel_ids_config: "v_config (fold (cancel_order_mm X) ids v) = v_config v"
  and cancel_ids_next: "v_next_id (fold (cancel_order_mm X) ids v) = v_next_id v"
  and cancel_ids_prices: "v_prices (fold (cancel_order_mm X) ids v) = v_prices v"
  by (induction ids arbitrary: v) simp_all

lemma set_enabled_frame:
  "v_config (set_enabled X b v) = (v_config v)\<lparr>cfg_enabled := b\<rparr>" "v_prices (set_enabled X b v) = v_prices v"
  "v_next_id (set_enabled X b v) = v_next_id v"
  by (simp_all add: set_enabled_def broadcast_config_change_def cancel_all_mm_def Let_def cancel_ids_config
      cancel_ids_next cancel_ids_prices)

lemma set_symbol_enabled_frame:
  "v_config (set_symbol_enabled X s b v) = (v_config v)\<lparr>cfg_symbol_enabled := dm_insert s b (cfg_symbol_enabled (v_config v))\<rparr>"
  "v_prices (set_symbol_enabled X s b v) = v_prices v" "v_next_id (set_symbol_enabled X s b v) = v_next_id v"
  by (simp_all add: set_symbol_enabled_def cancel_symbol_orders_def Let_def cancel_ids_config
      cancel_ids_next cancel_ids_prices)

lemma requote_all_frame [simp]:
  "v_config (requote_all X qt gen v) = v_config v" "v_prices (requote_all X qt gen v) = v_prices v"
  using requoted_all [of v X qt gen] by (simp_all add: requoted_def)

lemma broadcast_frame [simp]:
  "v_config (broadcast_config_change v) = v_config v" "v_prices (broadcast_config_change v) = v_prices v"
  "v_next_id (broadcast_config_change v) = v_next_id v"
  by (simp_all add: broadcast_config_change_def Let_def)

lemma update_price_frame:
  "v_config (update_price X qt gen s p v) = v_config v"
  "v_prices (update_price X qt gen s p v) = dm_insert s p (v_prices v)"
  "v_next_id v \<le> v_next_id (update_price X qt gen s p v)"
proof -
  let ?v = "emit (PriceUpdated s p) (v\<lparr>v_prices := dm_insert s p (v_prices v)\<rparr>)"
  have "requoted ?v (update_price X qt gen s p v)"
    by (simp add: update_price_def Let_def requoted_symbol)
  then show "v_config (update_price X qt gen s p v) = v_config v"
    "v_prices (update_price X qt gen s p v) = dm_insert s p (v_prices v)"
    "v_next_id v \<le> v_next_id (update_price X qt gen s p v)"
    by (simp_all add: requoted_def)
qed

lemma requote_all_next: "v_next_id v \<le> v_next_id (requote_all X qt gen v)"
  using requoted_all [of v X qt gen] by (simp add: requoted_def)

text \<open>Every engine command only moves the id counter forward.\<close>

lemma mm_exec_next_id: "v_next_id v \<le> v_next_id (mm_exec X qt gen c v)"
proof (cases c)
  case (MmSpread f)
  then show ?thesis by (auto simp: set_spread_multiplier_def intro: order_trans [OF _ requote_all_next])
next
  case (MmSize f)
  then show ?thesis by (auto simp: set_size_scalar_def intro: order_trans [OF _ requote_all_next])
next
  case (MmSkew f)
  then show ?thesis by (auto simp: set_directional_skew_def intro: order_trans [OF _ requote_all_next])
qed (simp_all add: update_price_frame set_enabled_frame set_symbol_enabled_frame on_order_filled_def Let_def split: option.split)

section \<open>Parameters\<close>

definition field_valid :: "f64 \<Rightarrow> f64 \<Rightarrow> f64 option \<Rightarrow> bool" where
  "field_valid lo hi v \<longleftrightarrow> (case v of None \<Rightarrow> True | Some x \<Rightarrow> f_le lo x \<and> f_le x hi)"

definition parameters_valid :: "update_parameters_request \<Rightarrow> bool" where
  "parameters_valid body \<longleftrightarrow>
     field_valid spread_multiplier_min spread_multiplier_max (pq_spread_multiplier body) \<and>
     field_valid size_scalar_min size_scalar_max (pq_size_scalar body) \<and>
     field_valid directional_skew_min directional_skew_max (pq_directional_skew body)"

definition given :: "'a option \<Rightarrow> 'a \<Rightarrow> 'a" where
  "given v d = (case v of Some x \<Rightarrow> x | None \<Rightarrow> d)"

lemma validated_field_cases:
  "validated_field msg field v lo hi =
     (if field_valid lo hi v then Inr v else Inl (InvalidRequest (msg field (the v))))"
  by (auto simp: validated_field_def field_valid_def validate_control_value_def split: option.split)

lemma clamp_valid:
  "f_le lo x \<Longrightarrow> f_le x hi \<Longrightarrow> f_clamp x lo hi = x"
  by (cases x; cases lo; cases hi) (auto simp: f_clamp_def)

lemma in_range_finite:
  "f_le spread_multiplier_min x \<Longrightarrow> f_le x spread_multiplier_max \<Longrightarrow> f_is_finite x"
  "f_le size_scalar_min x \<Longrightarrow> f_le x size_scalar_max \<Longrightarrow> f_is_finite x"
  "f_le directional_skew_min x \<Longrightarrow> f_le x directional_skew_max \<Longrightarrow> f_is_finite x"
  by (cases x; simp add: spread_min_value spread_multiplier_max_def size_scalar_min_def size_scalar_max_def
      directional_skew_min_def directional_skew_max_def)+

lemma set_parameters_config:
  "f_le spread_multiplier_min x \<Longrightarrow> f_le x spread_multiplier_max \<Longrightarrow>
     v_config (set_spread_multiplier X qt gen x v) = (v_config v)\<lparr>cfg_spread_multiplier := x\<rparr>"
  "f_le size_scalar_min x \<Longrightarrow> f_le x size_scalar_max \<Longrightarrow>
     v_config (set_size_scalar X qt gen x v) = (v_config v)\<lparr>cfg_size_scalar := x\<rparr>"
  "f_le directional_skew_min x \<Longrightarrow> f_le x directional_skew_max \<Longrightarrow>
     v_config (set_directional_skew X qt gen x v) = (v_config v)\<lparr>cfg_directional_skew := x\<rparr>"
  by (simp_all add: set_spread_multiplier_def set_size_scalar_def set_directional_skew_def in_range_finite clamp_valid)

lemma update_parameters_valid:
  assumes "parameters_valid body"
  shows "\<exists>w. update_parameters X qt gen msg body v = (w, Inr \<lparr>pr_success = True,
       pr_spread_multiplier = cfg_spread_multiplier (v_config w), pr_size_scalar = cfg_size_scalar (v_config w),
       pr_directional_skew = cfg_directional_skew (v_config w)\<rparr>)
    \<and> v_config w = (v_config v)\<lparr>
        cfg_spread_multiplier := given (pq_spread_multiplier body) (cfg_spread_multiplier (v_config v)),
        cfg_size_scalar := given (pq_size_scalar body) (cfg_size_scalar (v_config v)),
        cfg_directional_skew := given (pq_directional_skew body) (cfg_directional_skew (v_config v))\<rparr>"
proof -
  note valid = assms [unfolded parameters_valid_def field_valid_def]
  define v1 where "v1 = (case pq_spread_multiplier body of Some x \<Rightarrow> set_spread_multiplier X qt gen x v | None \<Rightarrow> v)"
  define v2 where "v2 = (case pq_size_scalar body of Some x \<Rightarrow> set_size_scalar X qt gen x v1 | None \<Rightarrow> v1)"
  define w where "w = (case pq_directional_skew body of Some x \<Rightarrow> set_directional_skew X qt gen x v2 | None \<Rightarrow> v2)"
  have 1: "v_config v1 = (v_config v)\<lparr>cfg_spread_multiplier := given (pq_spread_multiplier body) (cfg_spread_multiplier (v_config v))\<rparr>"
    using valid by (simp add: v1_def given_def set_parameters_config split: option.split option.split_asm)
  have 2: "v_config v2 = (v_config v1)\<lparr>cfg_size_scalar := given (pq_size_scalar body) (cfg_size_scalar (v_config v1))\<rparr>"
    using valid by (simp add: v2_def given_def set_parameters_config split: option.split option.split_asm)
  have 3: "v_config w = (v_config v2)\<lparr>cfg_directional_skew := given (pq_directional_skew body) (cfg_directional_skew (v_config v2))\<rparr>"
    using valid by (simp add: w_def given_def set_parameters_config split: option.split option.split_asm)
  have "v_config w = (v_config v)\<lparr>
        cfg_spread_multiplier := given (pq_spread_multiplier body) (cfg_spread_multiplier (v_config v)),
        cfg_size_scalar := given (pq_size_scalar body) (cfg_size_scalar (v_config v)),
        cfg_directional_skew := given (pq_directional_skew body) (cfg_directional_skew (v_config v))\<rparr>"
    by (simp add: 1 2 3)
  moreover have "update_parameters X qt gen msg body v = (w, Inr \<lparr>pr_success = True,
       pr_spread_multiplier = cfg_spread_multiplier (v_config w), pr_size_scalar = cfg_size_scalar (v_config w),
       pr_directional_skew = cfg_directional_skew (v_config w)\<rparr>)"
    unfolding update_parameters_def validated_field_cases w_def v2_def v1_def
    using assms by (simp add: parameters_valid_def Let_def)
  ultimately show ?thesis by blast
qed

lemma update_parameters_invalid:
  "\<not> parameters_valid body \<Longrightarrow> \<exists>e. update_parameters X qt gen msg body v = (v, Inl (InvalidRequest e))"
  by (auto simp: update_parameters_def validated_field_cases parameters_valid_def)

text \<open>C39. The global parameters change all together or not at all. A request with a field out of
  its range (or NaN) is refused with a 400 and the engine is untouched; otherwise exactly the
  given fields take exactly the given values and the response reports the configuration now in
  force. What the controls endpoint reports can be written back and changes nothing.\<close>

theorem update_parameters_atomic:
  assumes "config_in_range (v_config v)"
  shows "(case update_parameters X qt gen msg body v of
            (w, Inl e) \<Rightarrow> w = v \<and> \<not> parameters_valid body
          | (w, Inr r) \<Rightarrow> parameters_valid body
              \<and> v_config w = (v_config v)\<lparr>
                  cfg_spread_multiplier := given (pq_spread_multiplier body) (cfg_spread_multiplier (v_config v)),
                  cfg_size_scalar := given (pq_size_scalar body) (cfg_size_scalar (v_config v)),
                  cfg_directional_skew := given (pq_directional_skew body) (cfg_directional_skew (v_config v))\<rparr>
              \<and> get_controls w = \<lparr>sc_master_enabled = cfg_enabled (v_config v), sc_spread_multiplier = pr_spread_multiplier r,
                    sc_size_scalar = pr_size_scalar r, sc_directional_skew = pr_directional_skew r\<rparr>)
    \<and> (let c = get_controls v;
           (w, r) = update_parameters X qt gen msg \<lparr>pq_spread_multiplier = Some (sc_spread_multiplier c),
              pq_size_scalar = Some (sc_size_scalar c), pq_directional_skew = Some (sc_directional_skew c)\<rparr> v
       in \<not> isl r \<and> v_config w = v_config v)"
proof -
  let ?c = "get_controls v"
  let ?body = "\<lparr>pq_spread_multiplier = Some (sc_spread_multiplier ?c),
    pq_size_scalar = Some (sc_size_scalar ?c), pq_directional_skew = Some (sc_directional_skew ?c)\<rparr>"
  have "parameters_valid ?body"
    using assms by (simp add: parameters_valid_def field_valid_def get_controls_def Let_def config_in_range_def)
  from update_parameters_valid [OF this, of X qt gen msg v]
  have "let (w, r) = update_parameters X qt gen msg ?body v in \<not> isl r \<and> v_config w = v_config v"
    by (auto simp: given_def get_controls_def Let_def)
  moreover have "case update_parameters X qt gen msg body v of
            (w, Inl e) \<Rightarrow> w = v \<and> \<not> parameters_valid body
          | (w, Inr r) \<Rightarrow> parameters_valid body
              \<and> v_config w = (v_config v)\<lparr>
                  cfg_spread_multiplier := given (pq_spread_multiplier body) (cfg_spread_multiplier (v_config v)),
                  cfg_size_scalar := given (pq_size_scalar body) (cfg_size_scalar (v_config v)),
                  cfg_directional_skew := given (pq_directional_skew body) (cfg_directional_skew (v_config v))\<rparr>
              \<and> get_controls w = \<lparr>sc_master_enabled = cfg_enabled (v_config v), sc_spread_multiplier = pr_spread_multiplier r,
                    sc_size_scalar = pr_size_scalar r, sc_directional_skew = pr_directional_skew r\<rparr>"
    using update_parameters_valid [of body X qt gen msg v] update_parameters_invalid [of body X qt gen msg v]
    by (cases "parameters_valid body") (auto simp: get_controls_def Let_def)
  ultimately show ?thesis by (simp add: Let_def)
qed

definition half_speed :: update_parameters_request where
  "half_speed = \<lparr>pq_spread_multiplier = Some (Fin 2), pq_size_scalar = Some (Fin (1 / 2)), pq_directional_skew = None\<rparr>"

lemma update_parameters_atomic_witness:
  "config_in_range (v_config (engine_new demo_books :: (demo_state, nat) venue)) \<and>
   (case update_parameters demo_exchange (demo_quoter (Fin 0)) id (\<lambda>f _. f) half_speed (engine_new demo_books) of
      (w, Inl e) \<Rightarrow> False
    | (w, Inr r) \<Rightarrow> v_config w = mm_config_default\<lparr>cfg_spread_multiplier := Fin 2, cfg_size_scalar := Fin (1 / 2)\<rparr>)"
proof -
  have cfg: "v_config (engine_new demo_books :: (demo_state, nat) venue) = mm_config_default" by (simp add: engine_new_def)
  have ok: "config_in_range (v_config (engine_new demo_books :: (demo_state, nat) venue))" by (rule mm_ok_config [OF mm_ok_new [where gen = "\<lambda>n. n"]])
  have valid: "parameters_valid half_speed"
    by (simp add: parameters_valid_def field_valid_def half_speed_def spread_min_value spread_multiplier_max_def
        size_scalar_min_def size_scalar_max_def)
  show ?thesis
    using update_parameters_atomic [OF ok, of half_speed demo_exchange "demo_quoter (Fin 0)" id "\<lambda>f _. f"] ok valid
    by (auto simp: cfg half_speed_def given_def split: sum.splits)
qed

section \<open>The kill switch\<close>

text \<open>Disabled, a later parameter change still quotes, and the switch then does nothing.\<close>

lemma kill_switch_leaves_quotes:
  "let v = fold (mm_exec demo_exchange (demo_quoter (Fin 0)) (\<lambda>n. n))
       [MmEnable False, MmPrice ''BTC'' 100, MmSpread (Fin 1)] (engine_new demo_books);
       (w, r) = kill_switch demo_exchange v
   in kr_success r \<and> \<not> kr_master_enabled r \<and> length (v_active w) = 4"
  using kill_switch_bypassed by (simp add: kill_switch_def Let_def)

section \<open>Prices\<close>

definition price_fields_valid :: "insert_price_request \<Rightarrow> bool" where
  "price_fields_valid body \<longleftrightarrow>
     list_all (\<lambda>x. dollars_to_cents x \<noteq> None) (iq_price body # (case iq_bid body of Some b \<Rightarrow> [b] | None \<Rightarrow> [])
       @ (case iq_ask body of Some a \<Rightarrow> [a] | None \<Rightarrow> []))"

lemma field_cents_cases:
  "field_cents msg field x = (case dollars_to_cents x of Some c \<Rightarrow> Inr c | None \<Rightarrow> field_cents msg field x)"
  by (cases x) (auto simp: field_cents_def dollars_to_cents_def max_price_dollars_def max_initial_price_def)

lemma field_cents_some: "dollars_to_cents x = Some c \<Longrightarrow> field_cents msg field x = Inr c"
  by (subst field_cents_cases) simp

lemma field_cents_none: "dollars_to_cents x = None \<Longrightarrow> \<exists>e. field_cents msg field x = Inl e"
  by (auto simp: field_cents_def)

lemma cents_fit: "dollars_to_cents x = Some c \<Longrightarrow> cents_to_i64 field c = Inr (uint c)"
  using cents_bound [of x c] by (simp add: cents_to_i64_def)

lemma optional_field_valid:
  "v = None \<or> dollars_to_cents (the v) \<noteq> None \<Longrightarrow>
     \<exists>c. optional_field (field_cents msg field) v = Inr c \<and> optional_field (cents_to_i64 field') c = Inr (map_option uint c)
       \<and> c = Option.bind v dollars_to_cents"
  by (cases v) (auto simp: optional_field_def field_cents_some cents_fit)

lemma optional_field_invalid:
  "dollars_to_cents x = None \<Longrightarrow> \<exists>e. optional_field (field_cents msg field) (Some x) = Inl e"
  using field_cents_none [of x msg field] by (auto simp: optional_field_def)

lemma insert_price_valid:
  assumes "price_fields_valid body"
  shows "\<exists>c row. dollars_to_cents (iq_price body) = Some c
    \<and> insert_price X qt gen msg timestamp body v = (update_price X qt gen (iq_symbol body) c v,
        Inr (\<lparr>ip_success = True, ip_symbol = iq_symbol body, ip_price_cents = uint c, ip_timestamp = timestamp\<rparr>, row))
    \<and> pw_price_cents row = uint c \<and> pw_symbol row = iq_symbol body"
proof -
  obtain c where c: "dollars_to_cents (iq_price body) = Some c" using assms by (auto simp: price_fields_valid_def)
  obtain b where b: "optional_field (field_cents msg ''bid'') (iq_bid body) = Inr b"
      "optional_field (cents_to_i64 ''bid'') b = Inr (map_option uint b)"
    using assms optional_field_valid [of "iq_bid body" msg "''bid''" "''bid''"]
    by (auto simp: price_fields_valid_def split: option.splits)
  obtain a where a: "optional_field (field_cents msg ''ask'') (iq_ask body) = Inr a"
      "optional_field (cents_to_i64 ''ask'') a = Inr (map_option uint a)"
    using assms optional_field_valid [of "iq_ask body" msg "''ask''" "''ask''"]
    by (auto simp: price_fields_valid_def split: option.splits)
  show ?thesis using c a b by (simp add: insert_price_def field_cents_some cents_fit)
qed

lemma insert_price_invalid:
  assumes "\<not> price_fields_valid body"
  shows "\<exists>e. insert_price X qt gen msg timestamp body v = (v, Inl e)"
proof -
  consider "dollars_to_cents (iq_price body) = None"
    | x where "iq_bid body = Some x" "dollars_to_cents x = None"
    | x where "iq_ask body = Some x" "dollars_to_cents x = None"
    using assms by (auto simp: price_fields_valid_def split: option.splits)
  then show ?thesis
  proof cases
    case 1
    then show ?thesis using field_cents_none [OF 1, of msg "''price''"] by (auto simp: insert_price_def)
  next
    case 2
    then show ?thesis
      using optional_field_invalid [OF 2(2), of msg "''bid''"] by (auto simp: insert_price_def split: sum.split)
  next
    case 3
    then show ?thesis
      using optional_field_invalid [OF 3(2), of msg "''ask''"] by (auto simp: insert_price_def split: sum.split)
  qed
qed

text \<open>An inserted price. Either some monetary field is not a price and nothing happens, or every
  field is one and then the market maker has exactly the price rounded to cents, which is what
  the latest-price query reports from then on with or without a database; no other price and no
  setting changes, and the amounts reported and stored are the price in cents, at most
  \<open>10 ^ 14\<close>.\<close>

theorem insert_price_all_or_nothing:
  "case insert_price X qt gen msg timestamp body v of
     (w, Inl _) \<Rightarrow> w = v \<and> \<not> price_fields_valid body
   | (w, Inr (resp, row)) \<Rightarrow> price_fields_valid body
       \<and> (\<exists>c. dollars_to_cents (iq_price body) = Some c
            \<and> get_price w = (get_price v)(iq_symbol body \<mapsto> c) \<and> v_config w = v_config v
            \<and> ip_price_cents resp = uint c \<and> pw_price_cents row = uint c \<and> uint c \<le> 10 ^ 14
            \<and> get_latest_price db now (iq_symbol body) w
                = Inr \<lparr>lp_symbol = iq_symbol body, lp_price = cents_to_dollars c, lp_bid = None, lp_ask = None,
                       lp_volume = None, lp_timestamp = now\<rparr>)"
proof (cases "price_fields_valid body")
  case False
  then show ?thesis using insert_price_invalid [OF False, of X qt gen msg timestamp v] by auto
next
  case True
  obtain c row where c: "dollars_to_cents (iq_price body) = Some c" and row: "pw_price_cents row = uint c"
    and run: "insert_price X qt gen msg timestamp body v = (update_price X qt gen (iq_symbol body) c v,
        Inr (\<lparr>ip_success = True, ip_symbol = iq_symbol body, ip_price_cents = uint c, ip_timestamp = timestamp\<rparr>, row))"
    using insert_price_valid [OF True] by blast
  have "get_price (update_price X qt gen (iq_symbol body) c v) = (get_price v)(iq_symbol body \<mapsto> c)"
    by (simp add: get_price_def update_price_frame store_simps fun_eq_iff)
  then show ?thesis
    using True c row cents_bound [OF c] by (simp add: run update_price_frame get_latest_price_def)
qed

end
