(* ===== verification/Position.thy ===== *)
theory Position
  imports Models
begin

text \<open>
  \<open>PositionInfo\<close> of \<open>src/src/models.rs\<close>: one net position per symbol, its size-weighted
  average entry price and its realised profit. The code computes in \<open>u128\<close>/\<open>i128\<close> with
  checked arithmetic and saturates at the \<open>i64\<close> fields; every step of that is kept here.
  The lemmas give the update in plain integer arithmetic, the range of every field and the
  bounds of the average.
\<close>

record position_info =
  pos_symbol :: string
  pos_underlying :: string
  pos_quantity :: i64
  pos_average_price :: u128
  pos_realized_pnl :: i64
  pos_created_at_ms :: u64
  pos_updated_at_ms :: u64

definition position_new :: "string \<Rightarrow> string \<Rightarrow> i64 \<Rightarrow> u128 \<Rightarrow> u64 \<Rightarrow> position_info" where
  "position_new symbol underlying quantity price timestamp_ms =
     \<lparr>pos_symbol = symbol, pos_underlying = underlying, pos_quantity = quantity,
      pos_average_price = price, pos_realized_pnl = 0,
      pos_created_at_ms = timestamp_ms, pos_updated_at_ms = timestamp_ms\<rparr>"

definition same_direction :: "i64 \<Rightarrow> i64 \<Rightarrow> bool" where
  "same_direction q f \<longleftrightarrow> (q > 0 \<and> f > 0) \<or> (q < 0 \<and> f < 0)"

text \<open>
  The average after opening or adding: the division happens only with a positive total, and
  an overflow of the weighted sum saturates to \<open>u128::MAX\<close>.
\<close>

definition weighted_average :: "u128 \<Rightarrow> i64 \<Rightarrow> u128 \<Rightarrow> i64 \<Rightarrow> u128" where
  "weighted_average average_price quantity fill_price fill_quantity =
     (let old_qty = ucast (unsigned_abs quantity) :: u128;
          add_qty = ucast (unsigned_abs fill_quantity) :: u128;
          total_quantity = saturating_add old_qty add_qty
      in if 0 < total_quantity
         then (case (checked_mul average_price old_qty, checked_mul fill_price add_qty) of
                 (Some old_value, Some new_value) \<Rightarrow>
                   (case checked_add old_value new_value of
                      Some value \<Rightarrow> value div total_quantity
                    | None \<Rightarrow> - 1)
               | _ \<Rightarrow> - 1)
         else average_price)"

text \<open>The profit realised by a closing fill, saturating to \<open>i64\<close> by the sign of the result.\<close>

definition realized_on_close :: "i64 \<Rightarrow> u128 \<Rightarrow> i64 \<Rightarrow> u128 \<Rightarrow> i64" where
  "realized_on_close quantity average_price fill_quantity fill_price =
     (let close_quantity =
            uint (min (unsigned_abs fill_quantity) (unsigned_abs quantity));
          diff = (case (i128_try_from (uint fill_price), i128_try_from (uint average_price)) of
                    (Some fp, Some ap) \<Rightarrow> i128_try_from (fp - ap)
                  | _ \<Rightarrow> None);
          signed_diff = (case diff of
                           Some d \<Rightarrow> if quantity > 0 then Some d else i128_try_from (- d)
                         | None \<Rightarrow> None);
          realized_i128 = (case signed_diff of
                             Some d \<Rightarrow> i128_try_from (d * close_quantity)
                           | None \<Rightarrow> None)
      in (case Option.bind realized_i128 i64_try_from of
            Some v \<Rightarrow> v
          | None \<Rightarrow>
              (let positive = (quantity > 0 \<and> fill_price > average_price) \<or>
                              (\<not> quantity > 0 \<and> fill_price < average_price)
               in if positive then 2 ^ 63 - 1 else - (2 ^ 63))))"

definition position_update ::
  "position_info \<Rightarrow> i64 \<Rightarrow> u128 \<Rightarrow> u64 \<Rightarrow> position_info \<times> i64" where
  "position_update p fill_quantity fill_price timestamp_ms =
     (let q = pos_quantity p in
      if same_direction q fill_quantity \<or> q = 0
      then (p\<lparr>pos_average_price :=
                 weighted_average (pos_average_price p) q fill_price fill_quantity,
              pos_quantity := i64_saturating_add q fill_quantity,
              pos_updated_at_ms := timestamp_ms\<rparr>, 0)
      else (let realized = realized_on_close q (pos_average_price p) fill_quantity fill_price;
                q' = i64_saturating_add q fill_quantity;
                flipped = same_direction q' fill_quantity
            in (p\<lparr>pos_realized_pnl := i64_saturating_add (pos_realized_pnl p) realized,
                  pos_quantity := q',
                  pos_average_price := (if flipped then fill_price else pos_average_price p),
                  pos_updated_at_ms := timestamp_ms\<rparr>, realized)))"

definition unrealized_pnl :: "position_info \<Rightarrow> u128 \<Rightarrow> i64 option" where
  "unrealized_pnl p current_price =
     (case i128_try_from (uint current_price) of
        None \<Rightarrow> None
      | Some current \<Rightarrow>
          (case i128_try_from (uint (pos_average_price p)) of
             None \<Rightarrow> None
           | Some average \<Rightarrow>
               (case i128_try_from (current - average) of
                  None \<Rightarrow> None
                | Some price_diff \<Rightarrow>
                    (case i128_try_from (price_diff * pos_quantity p) of
                       None \<Rightarrow> None
                     | Some pnl \<Rightarrow> i64_try_from pnl))))"

definition notional_value :: "position_info \<Rightarrow> u128 \<Rightarrow> u128 option" where
  "notional_value p current_price =
     checked_mul current_price (ucast (unsigned_abs (pos_quantity p)))"

section \<open>Arithmetic of the update\<close>

text \<open>The fields that can overflow stay in range: the type invariant of a position.\<close>

definition position_wf :: "position_info \<Rightarrow> bool" where
  "position_wf p \<longleftrightarrow> in_i64 (pos_quantity p) \<and> in_i64 (pos_realized_pnl p)"

definition clamp_i64 :: "int \<Rightarrow> i64" where
  "clamp_i64 x = max (- (2 ^ 63)) (min (2 ^ 63 - 1) x)"

lemma clamp_i64_id: "in_i64 x \<Longrightarrow> clamp_i64 x = x"
  by (auto simp: clamp_i64_def in_i64_def)

lemma in_i64_clamp [wf_intros]: "in_i64 (clamp_i64 x)"
  by (auto simp: clamp_i64_def in_i64_def)

lemma uint_abs128: "in_i64 q \<Longrightarrow> uint (ucast (unsigned_abs q) :: u128) = \<bar>q\<bar>"
  using uint_u64_bound [of "unsigned_abs q"]
  by (simp add: unsigned_ucast_eq take_bit_int_eq_self uint_unsigned_abs in_i64_def)

lemma uint_total:
  assumes "in_i64 q" and "in_i64 f"
  shows "uint (saturating_add (ucast (unsigned_abs q)) (ucast (unsigned_abs f)) :: u128) = \<bar>q\<bar> + \<bar>f\<bar>"
proof -
  have "\<bar>q\<bar> \<le> 2 ^ 63" "\<bar>f\<bar> \<le> 2 ^ 63"
    using assms by (auto simp: in_i64_def abs_le_iff)
  then have "\<bar>q\<bar> + \<bar>f\<bar> \<le> 2 ^ 128 - 1" by simp
  then show ?thesis using assms by (simp add: uint_saturating_add uint_abs128)
qed

lemma in_i64_zero: "in_i64 0"
  by (simp add: in_i64_def)

lemma realized_in_i64: "in_i64 (realized_on_close q a f p)"
  by (auto simp: realized_on_close_def Let_def in_i64_def bind_eq_Some_conv split: option.splits)

lemma weighted_average_exact:
  assumes "in_i64 q" "in_i64 f" "0 < \<bar>q\<bar> + \<bar>f\<bar>"
    and "uint a * \<bar>q\<bar> + uint p * \<bar>f\<bar> < 2 ^ 128"
  shows "uint (weighted_average a q p f) = (uint a * \<bar>q\<bar> + uint p * \<bar>f\<bar>) div (\<bar>q\<bar> + \<bar>f\<bar>)"
proof -
  let ?o = "ucast (unsigned_abs q) :: u128" and ?n = "ucast (unsigned_abs f) :: u128"
  have nn: "0 \<le> uint a * \<bar>q\<bar>" "0 \<le> uint p * \<bar>f\<bar>" by simp_all
  then have small: "uint a * \<bar>q\<bar> < 2 ^ 128" "uint p * \<bar>f\<bar> < 2 ^ 128"
    using assms(4) by linarith+
  have o: "checked_mul a ?o = Some (a * ?o)" and n: "checked_mul p ?n = Some (p * ?n)"
    using assms small by (simp_all add: checked_mul_def uint_abs128)
  have uo: "uint (a * ?o) = uint a * \<bar>q\<bar>" and un: "uint (p * ?n) = uint p * \<bar>f\<bar>"
    using checked_mul_SomeD [OF o] checked_mul_SomeD [OF n] assms(1,2) by (simp_all add: uint_abs128)
  have s: "checked_add (a * ?o) (p * ?n) = Some (a * ?o + p * ?n)"
    using assms(4) uo un by (simp add: checked_add_def)
  have us: "uint (a * ?o + p * ?n) = uint a * \<bar>q\<bar> + uint p * \<bar>f\<bar>"
    using checked_add_SomeD [OF s] uo un by simp
  have "0 < saturating_add ?o ?n"
    using uint_total [OF assms(1,2)] assms(3) by (simp add: word_less_def)
  then show ?thesis
    by (simp add: weighted_average_def Let_def o n s uint_div us uint_total [OF assms(1,2)])
qed

lemma weighted_average_bounds:
  assumes "in_i64 q" "in_i64 f" "0 < \<bar>q\<bar> + \<bar>f\<bar>"
    and "uint a * \<bar>q\<bar> + uint p * \<bar>f\<bar> < 2 ^ 128"
  shows "min a p \<le> weighted_average a q p f" and "weighted_average a q p f \<le> max a p"
proof -
  let ?t = "\<bar>q\<bar> + \<bar>f\<bar>" and ?s = "uint a * \<bar>q\<bar> + uint p * \<bar>f\<bar>"
  have w: "uint (weighted_average a q p f) = ?s div ?t"
    using assms by (rule weighted_average_exact)
  have lo: "min (uint a) (uint p) * ?t \<le> ?s"
    unfolding distrib_left by (intro add_mono mult_right_mono) auto
  have hi: "?s \<le> max (uint a) (uint p) * ?t"
    unfolding distrib_left by (intro add_mono mult_right_mono) auto
  have "min (uint a) (uint p) \<le> ?s div ?t"
    using zdiv_mono1 [OF lo assms(3)] assms(3) by simp
  then show "min a p \<le> weighted_average a q p f"
    using w by (auto simp: word_le_def min_def split: if_splits)
  have "?s div ?t \<le> (max (uint a) (uint p) * ?t) div ?t"
    using hi assms(3) by (rule zdiv_mono1)
  then have "?s div ?t \<le> max (uint a) (uint p)"
    using assms(3) by simp
  then show "weighted_average a q p f \<le> max a p"
    using w by (auto simp: word_le_def max_def split: if_splits)
qed

lemma in_i64_in_i128: "in_i64 x \<Longrightarrow> in_i128 x"
  by (auto simp: in_i64_def in_i128_def)

text \<open>
  A closing fill in plain arithmetic: the signed price difference times the closed quantity,
  clamped to \<open>i64\<close>. The hypotheses only exclude prices beyond \<open>i128\<close>.
\<close>

lemma realized_on_close_exact:
  assumes q: "in_i64 q" and f: "in_i64 f" and a: "uint a < 2 ^ 127" and p: "uint p < 2 ^ 127"
  shows "realized_on_close q a f p =
    clamp_i64 ((if q > 0 then uint p - uint a else uint a - uint p) * min \<bar>f\<bar> \<bar>q\<bar>)"
proof -
  let ?d = "if q > 0 then uint p - uint a else uint a - uint p"
  let ?c = "min \<bar>f\<bar> \<bar>q\<bar>"
  let ?pos = "(q > 0 \<and> p > a) \<or> (\<not> q > 0 \<and> p < a)"
  have c: "uint (min (unsigned_abs f) (unsigned_abs q)) = ?c"
    using q f by (auto simp: min_def word_le_def uint_unsigned_abs)
  have nn: "0 \<le> uint a" "0 \<le> uint p" by simp_all
  have rng: "in_i128 (uint p)" "in_i128 (uint a)" "in_i128 (uint p - uint a)"
      "in_i128 (uint a - uint p)"
    using a p nn unfolding in_i128_def by linarith+
  have pos: "?pos \<longleftrightarrow> 0 < ?d"
    by (auto simp: word_less_def)
  have t: "i128_try_from (uint p) = Some (uint p)" "i128_try_from (uint a) = Some (uint a)"
      "i128_try_from (uint p - uint a) = Some (uint p - uint a)"
      "i128_try_from (- (uint p - uint a)) = Some (uint a - uint p)"
    using rng by simp_all
  have "realized_on_close q a f p =
      (case Option.bind (i128_try_from (?d * ?c)) i64_try_from of
         Some v \<Rightarrow> v | None \<Rightarrow> if ?pos then 2 ^ 63 - 1 else - (2 ^ 63))"
    unfolding realized_on_close_def Let_def c t option.case prod.case
    by (cases "q > 0") (simp_all only: t option.case if_True if_False simp_thms)
  also have "\<dots> =
      (if in_i64 (?d * ?c) then ?d * ?c else if 0 < ?d then 2 ^ 63 - 1 else - (2 ^ 63))"
    unfolding pos i128_try_from_def i64_try_from_def
    using in_i64_in_i128 [of "?d * ?c"]
    by (cases "in_i128 (?d * ?c)"; cases "in_i64 (?d * ?c)") (simp_all only: bind.simps option.case
        if_True if_False simp_thms)
  also have "\<dots> = clamp_i64 (?d * ?c)"
  proof (cases "in_i64 (?d * ?c)")
    case True
    then show ?thesis by (simp add: clamp_i64_id)
  next
    case False
    have c0: "0 \<le> ?c" by simp
    show ?thesis
    proof (cases "0 < ?d")
      case True
      then have "0 \<le> ?d * ?c" using c0 by simp
      with False True show ?thesis by (auto simp: clamp_i64_def in_i64_def)
    next
      case neg: False
      then have "?d * ?c \<le> 0" using c0 by (simp add: mult_nonpos_nonneg)
      with False neg show ?thesis by (auto simp: clamp_i64_def in_i64_def)
    qed
  qed
  finally show ?thesis .
qed

section \<open>Properties of the update\<close>

lemma position_update_wf [wf_intros]:
  "position_wf p \<Longrightarrow> position_wf (fst (position_update p f fp t))"
  by (simp add: position_update_def position_wf_def Let_def in_i64_saturating_add)

lemma position_new_wf [wf_intros]: "in_i64 q \<Longrightarrow> position_wf (position_new s u q pr t)"
  by (simp add: position_new_def position_wf_def in_i64_def)

lemma position_update_frame [simp]:
  "pos_symbol (fst (position_update p f fp t)) = pos_symbol p"
  "pos_underlying (fst (position_update p f fp t)) = pos_underlying p"
  "pos_created_at_ms (fst (position_update p f fp t)) = pos_created_at_ms p"
  "pos_updated_at_ms (fst (position_update p f fp t)) = t"
  by (simp_all add: position_update_def Let_def)

lemma position_update_quantity [simp]:
  "pos_quantity (fst (position_update p f fp t)) = i64_saturating_add (pos_quantity p) f"
  by (simp add: position_update_def Let_def)

lemma position_update_realized_result:
  "pos_realized_pnl (fst (position_update p f fp t)) =
     (if snd (position_update p f fp t) = 0 \<and> (same_direction (pos_quantity p) f \<or> pos_quantity p = 0)
      then pos_realized_pnl p
      else i64_saturating_add (pos_realized_pnl p) (snd (position_update p f fp t)))"
  by (simp add: position_update_def Let_def)

section \<open>The update against integer arithmetic\<close>

text \<open>
  The specification: a position is three integers, and a signed fill either extends it at
  the size-weighted (rounded down) average price, or closes part of it and realises the
  price difference on the closed quantity, a fill larger than the position leaving the rest
  open at the fill price.
\<close>

record net_position =
  net_quantity :: int
  net_average :: int
  net_realized :: int

definition net_of :: "position_info \<Rightarrow> net_position" where
  "net_of p = \<lparr>net_quantity = pos_quantity p, net_average = uint (pos_average_price p),
               net_realized = pos_realized_pnl p\<rparr>"

definition net_update :: "net_position \<Rightarrow> int \<Rightarrow> int \<Rightarrow> net_position" where
  "net_update n f p =
     (let q = net_quantity n; a = net_average n in
      if 0 \<le> q * f
      then n\<lparr>net_quantity := q + f, net_average := (a * \<bar>q\<bar> + p * \<bar>f\<bar>) div (\<bar>q\<bar> + \<bar>f\<bar>)\<rparr>
      else n\<lparr>net_quantity := q + f, net_average := (if \<bar>q\<bar> < \<bar>f\<bar> then p else a),
             net_realized := net_realized n + sgn q * (p - a) * min \<bar>f\<bar> \<bar>q\<bar>\<rparr>)"

lemma same_direction_mult: "same_direction q f \<or> q = 0 \<longleftrightarrow> f = 0 \<and> q = 0 \<or> f \<noteq> 0 \<and> 0 \<le> q * f"
  by (auto simp: same_direction_def zero_le_mult_iff)

lemma flipped_iff:
  "q * f < 0 \<Longrightarrow> same_direction (q + f) f \<longleftrightarrow> \<bar>q\<bar> < \<bar>f\<bar>" for q f :: int
  by (auto simp: same_direction_def mult_less_0_iff)

lemma realized_signed:
  "q * f < 0 \<Longrightarrow> (if q > 0 then p - a else a - p) * m = sgn q * (p - a) * (m :: int)" for q f :: int
  by (auto simp: mult_less_0_iff sgn_if algebra_simps)

lemma position_update_refines:
  assumes wf: "position_wf p" and f: "in_i64 f" "f \<noteq> 0"
    and q': "in_i64 (pos_quantity p + f)"
    and weighted: "uint (pos_average_price p) * \<bar>pos_quantity p\<bar> + uint fp * \<bar>f\<bar> < 2 ^ 127"
    and pnl: "in_i64 (net_realized (net_update (net_of p) f (uint fp)))"
    and profit: "in_i64 (sgn (pos_quantity p) * (uint fp - uint (pos_average_price p)) *
                   min \<bar>f\<bar> \<bar>pos_quantity p\<bar>)"
  shows "net_of (fst (position_update p f fp t)) = net_update (net_of p) f (uint fp)"
proof -
  let ?q = "pos_quantity p" and ?a = "pos_average_price p"
  have q: "in_i64 ?q" using wf by (simp add: position_wf_def)
  have sum_q: "i64_saturating_add ?q f = ?q + f" using q' by (rule i64_saturating_add_id)
  show ?thesis
  proof (cases "0 \<le> ?q * f")
    case True
    then have open_or_add: "same_direction ?q f \<or> ?q = 0"
      using f same_direction_mult [of ?q f] by blast
    have "uint (weighted_average ?a ?q fp f) =
        (uint ?a * \<bar>?q\<bar> + uint fp * \<bar>f\<bar>) div (\<bar>?q\<bar> + \<bar>f\<bar>)"
      using q f weighted by (intro weighted_average_exact) auto
    then show ?thesis
      using True open_or_add by (simp add: position_update_def net_of_def net_update_def sum_q Let_def)
  next
    case False
    then have neg: "?q * f < 0" by simp
    then have close: "\<not> (same_direction ?q f \<or> ?q = 0)"
      using same_direction_mult [of ?q f] f by auto
    have nz: "1 \<le> \<bar>?q\<bar>" "1 \<le> \<bar>f\<bar>" using neg by (auto simp: mult_less_0_iff)
    have "uint ?a * 1 \<le> uint ?a * \<bar>?q\<bar>" "uint fp * 1 \<le> uint fp * \<bar>f\<bar>"
      using nz by (intro mult_left_mono; simp)+
    moreover have "0 \<le> uint ?a" "0 \<le> uint fp" by simp_all
    ultimately have small: "uint ?a < 2 ^ 127" "uint fp < 2 ^ 127"
      using weighted by linarith+
    have r: "realized_on_close ?q ?a f fp = sgn ?q * (uint fp - uint ?a) * min \<bar>f\<bar> \<bar>?q\<bar>"
      using realized_on_close_exact [OF q f(1) small] realized_signed [OF neg] profit
      by (simp add: clamp_i64_id)
    have "in_i64 (pos_realized_pnl p + sgn ?q * (uint fp - uint ?a) * min \<bar>f\<bar> \<bar>?q\<bar>)"
      using pnl False by (simp add: net_update_def net_of_def Let_def)
    then have "i64_saturating_add (pos_realized_pnl p) (realized_on_close ?q ?a f fp) =
        pos_realized_pnl p + sgn ?q * (uint fp - uint ?a) * min \<bar>f\<bar> \<bar>?q\<bar>"
      by (simp add: r i64_saturating_add_id)
    then show ?thesis
      using False close flipped_iff [OF neg]
      by (simp add: position_update_def net_of_def net_update_def sum_q Let_def)
  qed
qed

text \<open>A run of fills on one position.\<close>

type_synonym signed_fill = "i64 \<times> u128 \<times> u64"

definition position_run :: "position_info \<Rightarrow> signed_fill list \<Rightarrow> position_info" where
  "position_run p fills = foldl (\<lambda>p (f, fp, t). fst (position_update p f fp t)) p fills"

lemma position_run_wf: "position_wf p \<Longrightarrow> position_wf (position_run p fills)"
  by (induction fills arbitrary: p) (auto simp: position_run_def position_update_wf)

lemma position_run_snoc:
  "position_run p (fills @ [(f, fp, t)]) = fst (position_update (position_run p fills) f fp t)"
  by (simp add: position_run_def)

section \<open>Properties\<close>

text \<open>
  C9. A position update computes the integer specification: on every branch (opening,
  adding, reducing, closing, flipping) the new net quantity, average price and realised
  profit are the ones of \<open>net_update\<close>, whenever those fit the field widths.
\<close>

theorem position_update_correct:
  assumes "position_wf p" and "in_i64 f" "f \<noteq> 0" and "in_i64 (pos_quantity p + f)"
    and "uint (pos_average_price p) * \<bar>pos_quantity p\<bar> + uint fp * \<bar>f\<bar> < 2 ^ 127"
    and "in_i64 (net_realized (net_update (net_of p) f (uint fp)))"
    and "in_i64 (sgn (pos_quantity p) * (uint fp - uint (pos_average_price p)) *
           min \<bar>f\<bar> \<bar>pos_quantity p\<bar>)"
  shows "net_of (fst (position_update p f fp t)) = net_update (net_of p) f (uint fp)"
  using assms by (rule position_update_refines)

lemma position_update_correct_witness:
  "net_of (fst (position_update (position_new ''S'' ''U'' 10 100 1) (-15) 130 2)) =
     \<lparr>net_quantity = -5, net_average = 130, net_realized = 300\<rparr>"
proof -
  have "net_of (fst (position_update (position_new ''S'' ''U'' 10 100 1) (-15) 130 2)) =
      net_update (net_of (position_new ''S'' ''U'' 10 100 1)) (-15) (uint (130 :: u128))"
    by (rule position_update_correct)
      (simp_all add: position_wf_def position_new_def in_i64_def net_update_def net_of_def)
  then show ?thesis by (simp add: net_update_def net_of_def position_new_def)
qed

text \<open>
  No fill takes a position out of range, whatever its size and price: quantity and
  realised profit stay \<open>i64\<close>, the quantity is the saturated sum, the reported realised
  amount is \<open>i64\<close>, and only the update time changes among the identifying fields.
\<close>

theorem position_update_in_range:
  assumes "position_wf p"
  shows "position_wf (fst (position_update p f fp t))
    \<and> in_i64 (snd (position_update p f fp t))
    \<and> pos_quantity (fst (position_update p f fp t)) = clamp_i64 (pos_quantity p + f)
    \<and> pos_symbol (fst (position_update p f fp t)) = pos_symbol p
    \<and> pos_created_at_ms (fst (position_update p f fp t)) = pos_created_at_ms p
    \<and> pos_updated_at_ms (fst (position_update p f fp t)) = t"
  using assms
  by (simp add: position_update_wf clamp_i64_def i64_saturating_add_def)
    (simp add: position_update_def Let_def realized_in_i64 in_i64_zero)

lemma position_update_in_range_witness:
  "position_wf (fst (position_update (position_new ''S'' ''U'' 9223372036854775807 (- 1) 1)
     9223372036854775807 (- 1) 2))"
  using position_update_in_range [of "position_new ''S'' ''U'' 9223372036854775807 (- 1) 1"
      9223372036854775807 "- 1" 2]
  by (simp add: position_wf_def position_new_def in_i64_def)

text \<open>
  Adding to a position moves its average price to a value between the old average and
  the fill price, and realises nothing.
\<close>

theorem position_add_average_between:
  assumes "position_wf p" and "in_i64 f" and "same_direction (pos_quantity p) f"
    and "uint (pos_average_price p) * \<bar>pos_quantity p\<bar> + uint fp * \<bar>f\<bar> < 2 ^ 128"
  shows "min (pos_average_price p) fp \<le> pos_average_price (fst (position_update p f fp t))
    \<and> pos_average_price (fst (position_update p f fp t)) \<le> max (pos_average_price p) fp
    \<and> pos_realized_pnl (fst (position_update p f fp t)) = pos_realized_pnl p
    \<and> snd (position_update p f fp t) = 0"
proof -
  have "0 < \<bar>pos_quantity p\<bar> + \<bar>f\<bar>" and "in_i64 (pos_quantity p)"
    using assms by (auto simp: same_direction_def position_wf_def)
  then show ?thesis
    using assms weighted_average_bounds [of "pos_quantity p" f "pos_average_price p" fp]
    by (simp add: position_update_def Let_def)
qed

lemma position_add_average_between_witness:
  "pos_average_price (fst (position_update (position_new ''S'' ''U'' 10 100 1) 5 130 2)) \<le> 130"
  using position_add_average_between [of "position_new ''S'' ''U'' 10 100 1" 5 130 2]
  by (simp add: position_wf_def position_new_def in_i64_def same_direction_def)

text \<open>
  The net quantity of a position is the sum of its signed fills: over any run of fills
  whose running totals stay in range, the quantity is the opening one plus all fills.
\<close>

theorem position_quantity_is_net:
  assumes "\<And>n. n \<le> length fills \<Longrightarrow> in_i64 (pos_quantity p + (\<Sum>x\<leftarrow>take n fills. fst x))"
  shows "pos_quantity (position_run p fills) = pos_quantity p + (\<Sum>x\<leftarrow>fills. fst x)"
  using assms
proof (induction fills rule: rev_induct)
  case Nil
  show ?case by (simp add: position_run_def)
next
  case (snoc x fills)
  obtain f fp t where x: "x = (f, fp, t)" by (cases x)
  have "in_i64 (pos_quantity p + (\<Sum>x\<leftarrow>take n fills. fst x))" if "n \<le> length fills" for n
    using snoc.prems [of n] that by simp
  then have IH: "pos_quantity (position_run p fills) = pos_quantity p + (\<Sum>x\<leftarrow>fills. fst x)"
    by (rule snoc.IH)
  have "in_i64 (pos_quantity p + (\<Sum>x\<leftarrow>fills. fst x) + f)"
    using snoc.prems [of "Suc (length fills)"] by (simp add: x add.assoc)
  then show ?case
    by (simp add: x position_run_snoc IH i64_saturating_add_id)
qed

lemma position_quantity_is_net_witness:
  "pos_quantity (position_run (position_new ''S'' ''U'' 10 100 1) [(5, 110, 2), (-20, 90, 3)]) = -5"
proof -
  have "in_i64 (pos_quantity (position_new ''S'' ''U'' 10 100 1) +
      (\<Sum>x\<leftarrow>take n [(5, 110, 2), (-20, 90, 3)]. fst (x :: signed_fill)))" if "n \<le> 2" for n
  proof -
    have "n = 0 \<or> n = 1 \<or> n = 2" using that by auto
    then show ?thesis by (auto simp: position_new_def in_i64_def)
  qed
  then show ?thesis
    using position_quantity_is_net [of "[(5, 110, 2), (-20, 90, 3)]" "position_new ''S'' ''U'' 10 100 1"]
    by (simp add: position_new_def)
qed

end
