(* ===== verification/Ohlc.thy ===== *)
theory Ohlc
  imports Models
begin

text \<open>
  OHLC candlestick aggregation: \<open>OhlcInterval\<close> and \<open>OhlcBar\<close> of \<open>src/src/models.rs\<close> and the
  aggregator of \<open>src/src/ohlc.rs\<close>. A series is a \<open>BTreeMap\<close> from bar timestamp to bar, kept
  to its newest \<open>MAX_BARS_PER_SERIES\<close> bars. The lemmas show that a bar is exactly the
  aggregate of the trades of its bucket, the invariant of every stored series, and which
  bars a query returns.
\<close>

section \<open>Intervals and bars\<close>

datatype ohlc_interval = OneMinute | FiveMinutes | FifteenMinutes | OneHour | FourHours | OneDay

fun interval_seconds :: "ohlc_interval \<Rightarrow> u64" where
  "interval_seconds OneMinute = 60"
| "interval_seconds FiveMinutes = 300"
| "interval_seconds FifteenMinutes = 900"
| "interval_seconds OneHour = 3600"
| "interval_seconds FourHours = 14400"
| "interval_seconds OneDay = 86400"

definition floor_timestamp :: "ohlc_interval \<Rightarrow> u64 \<Rightarrow> u64" where
  "floor_timestamp i timestamp_secs = (timestamp_secs div interval_seconds i) * interval_seconds i"

fun interval_display :: "ohlc_interval \<Rightarrow> string" where
  "interval_display OneMinute = ''1m''"
| "interval_display FiveMinutes = ''5m''"
| "interval_display FifteenMinutes = ''15m''"
| "interval_display OneHour = ''1h''"
| "interval_display FourHours = ''4h''"
| "interval_display OneDay = ''1d''"

definition interval_from_str :: "string \<Rightarrow> string + ohlc_interval" where
  "interval_from_str s =
     (let l = ascii_lower s in
      if l = ''1m'' then Inr OneMinute
      else if l = ''5m'' then Inr FiveMinutes
      else if l = ''15m'' then Inr FifteenMinutes
      else if l = ''1h'' then Inr OneHour
      else if l = ''4h'' then Inr FourHours
      else if l = ''1d'' then Inr OneDay
      else Inl (''Invalid interval: '' @ s @ ''. Use 1m, 5m, 15m, 1h, 4h, or 1d''))"

record ohlc_bar =
  bar_timestamp :: u64
  bar_open :: u128
  bar_high :: u128
  bar_low :: u128
  bar_close :: u128
  bar_volume :: u64
  bar_trade_count :: u64

definition bar_new :: "u64 \<Rightarrow> u128 \<Rightarrow> u64 \<Rightarrow> ohlc_bar" where
  "bar_new timestamp price quantity =
     \<lparr>bar_timestamp = timestamp, bar_open = price, bar_high = price, bar_low = price,
      bar_close = price, bar_volume = quantity, bar_trade_count = 1\<rparr>"

definition bar_update :: "ohlc_bar \<Rightarrow> u128 \<Rightarrow> u64 \<Rightarrow> ohlc_bar" where
  "bar_update b price quantity =
     b\<lparr>bar_high := max (bar_high b) price, bar_low := min (bar_low b) price, bar_close := price,
       bar_volume := saturating_add (bar_volume b) quantity,
       bar_trade_count := saturating_add (bar_trade_count b) 1\<rparr>"

section \<open>The aggregator\<close>

type_synonym series = "(u64, ohlc_bar) btree"

type_synonym aggregator = "(string \<times> ohlc_interval, series) dashmap"

definition max_bars_per_series :: nat where
  "max_bars_per_series = 2048"

definition all_intervals :: "ohlc_interval list" where
  "all_intervals = [OneMinute, FiveMinutes, FifteenMinutes, OneHour, FourHours, OneDay]"

definition aggregator_new :: aggregator where
  "aggregator_new = []"

text \<open>The eviction loop: \<open>pop_first\<close> while the series is longer than the cap.\<close>

fun evict_bars :: "series \<Rightarrow> series" where
  "evict_bars [] = []"
| "evict_bars (b # s) =
     (if length (b # s) > max_bars_per_series then evict_bars s else b # s)"

text \<open>\<open>entry().and_modify().or_insert_with()\<close> on the series, then the eviction loop.\<close>

definition series_update :: "ohlc_interval \<Rightarrow> u64 \<Rightarrow> u128 \<Rightarrow> u64 \<Rightarrow> series \<Rightarrow> series" where
  "series_update interval timestamp_secs price quantity s =
     (let bar_ts = floor_timestamp interval timestamp_secs;
          bar = (case map_of s bar_ts of
                   Some b \<Rightarrow> bar_update b price quantity
                 | None \<Rightarrow> bar_new bar_ts price quantity)
      in evict_bars (bt_put bar_ts bar s))"

definition series_of :: "aggregator \<Rightarrow> string \<Rightarrow> ohlc_interval \<Rightarrow> series" where
  "series_of a symbol interval = (case dm_get a (symbol, interval) of Some s \<Rightarrow> s | None \<Rightarrow> [])"

definition update_bar ::
  "aggregator \<Rightarrow> string \<Rightarrow> ohlc_interval \<Rightarrow> u64 \<Rightarrow> u128 \<Rightarrow> u64 \<Rightarrow> aggregator" where
  "update_bar a symbol interval timestamp_secs price quantity =
     dm_insert (symbol, interval)
       (series_update interval timestamp_secs price quantity (series_of a symbol interval)) a"

definition record_trade :: "aggregator \<Rightarrow> string \<Rightarrow> u64 \<Rightarrow> u128 \<Rightarrow> u64 \<Rightarrow> aggregator" where
  "record_trade a symbol timestamp_ms price quantity =
     (let timestamp_secs = timestamp_ms div 1000
      in foldl (\<lambda>a interval. update_bar a symbol interval timestamp_secs price quantity)
           a all_intervals)"

definition series_range :: "u64 \<Rightarrow> u64 \<Rightarrow> series \<Rightarrow> ohlc_bar list" where
  "series_range from_ts to_ts s = map snd (filter (\<lambda>(k, _). from_ts \<le> k \<and> k \<le> to_ts) s)"

text \<open>
  \<open>BTreeMap::range\<close> panics when its start exceeds its end: \<open>None\<close> is that panic.
\<close>

definition get_bars ::
  "aggregator \<Rightarrow> string \<Rightarrow> ohlc_interval \<Rightarrow> u64 option \<Rightarrow> u64 option \<Rightarrow> nat \<Rightarrow> ohlc_bar list option" where
  "get_bars a symbol interval from_opt to_opt limit =
     (case dm_get a (symbol, interval) of
        None \<Rightarrow> Some []
      | Some s \<Rightarrow>
          (let from_ts = (case from_opt of Some t \<Rightarrow> t | None \<Rightarrow> 0);
               to_ts = (case to_opt of Some t \<Rightarrow> t | None \<Rightarrow> - 1);
               range = series_range from_ts to_ts s
           in if to_ts < from_ts then None
              else if from_opt \<noteq> None \<and> to_opt \<noteq> None
              then Some (take limit range)
              else Some (rev (take limit (rev range)))))"

definition get_latest_bar :: "aggregator \<Rightarrow> string \<Rightarrow> ohlc_interval \<Rightarrow> ohlc_bar option" where
  "get_latest_bar a symbol interval =
     (case dm_get a (symbol, interval) of
        None \<Rightarrow> None
      | Some s \<Rightarrow> if s = [] then None else Some (snd (last s)))"

definition bar_count :: "aggregator \<Rightarrow> string \<Rightarrow> ohlc_interval \<Rightarrow> nat" where
  "bar_count a symbol interval =
     (case dm_get a (symbol, interval) of None \<Rightarrow> 0 | Some s \<Rightarrow> length s)"

definition clear_symbol :: "aggregator \<Rightarrow> string \<Rightarrow> aggregator" where
  "clear_symbol a symbol = foldl (\<lambda>a interval. dm_remove (symbol, interval) a) a all_intervals"

definition clear_all :: "aggregator \<Rightarrow> aggregator" where
  "clear_all a = []"

section \<open>Retention: the series is an evicting store\<close>

definition series_victim :: "series \<Rightarrow> u64 option" where
  "series_victim s = (case s of [] \<Rightarrow> None | (k, _) # _ \<Rightarrow> Some k)"

interpretation ev: evicting_store map_of bt_put bt_del length bt_ok max_bars_per_series
  series_victim "\<lambda>k (_ :: ohlc_bar). k" evict_bars
proof unfold_locales
  fix s :: series
  assume "bt_ok s" and "0 < length s"
  then show "\<exists>k v. series_victim s = Some k \<and> map_of s k = Some v"
    by (cases s) (auto simp: series_victim_def)
next
  fix s :: series and k v k' v'
  assume "bt_ok s" and "series_victim s = Some k" and "map_of s k' = Some v'"
  then show "k \<le> k'"
    by (cases s) (auto simp: series_victim_def bt_ok_def dest!: map_of_SomeD split: if_splits
        intro: less_imp_le)
next
  fix s :: series and k
  assume "bt_ok s" and "max_bars_per_series < length s" and "series_victim s = Some k"
  then show "evict_bars s = evict_bars (bt_del k s)"
    by (cases s) (auto simp: series_victim_def bt_tl_is_del)
next
  fix s :: series
  assume "length s \<le> max_bars_per_series"
  then show "evict_bars s = s"
    by (cases s) auto
qed

section \<open>Buckets\<close>

lemma interval_seconds_pos: "0 < uint (interval_seconds i)"
  by (cases i) simp_all

lemma interval_seconds_nonzero [simp]: "interval_seconds i \<noteq> 0"
  by (cases i) simp_all

lemma uint_floor_timestamp:
  "uint (floor_timestamp i t) = uint t div uint (interval_seconds i) * uint (interval_seconds i)"
proof -
  have "uint t div uint (interval_seconds i) * uint (interval_seconds i) \<le> uint t"
    using interval_seconds_pos [of i] by (simp add: minus_mod_eq_div_mult [symmetric])
  moreover have "0 \<le> uint t div uint (interval_seconds i) * uint (interval_seconds i)"
    by (simp add: pos_imp_zdiv_nonneg_iff interval_seconds_pos)
  ultimately show ?thesis
    using uint_lt2p [of t]
    by (simp add: floor_timestamp_def uint_word_ariths uint_div del: pos_imp_zdiv_nonneg_iff)
qed

lemma floor_timestamp_le: "floor_timestamp i t \<le> t"
  using interval_seconds_pos [of i]
  by (simp add: word_le_def uint_floor_timestamp minus_mod_eq_div_mult [symmetric])

lemma floor_timestamp_window:
  "uint t < uint (floor_timestamp i t) + uint (interval_seconds i)"
  using pos_mod_bound [OF interval_seconds_pos [of i], of "uint t"]
  by (simp add: uint_floor_timestamp minus_mod_eq_div_mult [symmetric])

lemma floor_timestamp_idem [simp]: "floor_timestamp i (floor_timestamp i t) = floor_timestamp i t"
  using interval_seconds_pos [of i]
  by (intro word_uint_eqI) (simp add: uint_floor_timestamp)

section \<open>Bars as aggregates of their trades\<close>

text \<open>
  The specification of a bar: the first price, the extremes, the last price, and the volume
  and trade count capped at \<open>u64::MAX\<close>, computed from the trades of its bucket in order.
\<close>

definition aggregate_bar :: "u64 \<Rightarrow> (u128 \<times> u64) list \<Rightarrow> ohlc_bar option" where
  "aggregate_bar ts trades =
     (if trades = [] then None
      else Some \<lparr>bar_timestamp = ts, bar_open = fst (hd trades),
                 bar_high = Max (fst ` set trades), bar_low = Min (fst ` set trades),
                 bar_close = fst (last trades),
                 bar_volume = word_of_int (min (\<Sum>x\<leftarrow>trades. uint (snd x)) (2 ^ 64 - 1)),
                 bar_trade_count = word_of_int (min (int (length trades)) (2 ^ 64 - 1))\<rparr>)"

lemma aggregate_bar_Nil [simp]: "aggregate_bar ts [] = None"
  by (simp add: aggregate_bar_def)

lemma uint_capped: "0 \<le> k \<Longrightarrow> uint (word_of_int (min k 18446744073709551615) :: u64) = min k 18446744073709551615"
  by (simp add: uint_word_of_int)

lemma saturating_add_capped:
  assumes "0 \<le> n"
  shows "saturating_add (word_of_int (min n 18446744073709551615)) (x :: u64) =
    word_of_int (min (n + uint x) 18446744073709551615)"
proof (rule word_uint_eqI)
  have x: "0 \<le> uint x" by simp
  have "uint (saturating_add (word_of_int (min n 18446744073709551615)) x) =
      min (min n 18446744073709551615 + uint x) 18446744073709551615"
    using uint_capped [OF assms] by (simp add: uint_saturating_add del: uint_word_of_int)
  also have "\<dots> = min (n + uint x) 18446744073709551615"
    using x by linarith
  finally show "uint (saturating_add (word_of_int (min n 18446744073709551615)) x) =
      uint (word_of_int (min (n + uint x) 18446744073709551615) :: u64)"
    using uint_capped [of "n + uint x"] assms x by simp
qed

lemma aggregate_bar_snoc:
  "aggregate_bar ts (trades @ [(p, q)]) =
     Some (case aggregate_bar ts trades of
             None \<Rightarrow> bar_new ts p q
           | Some b \<Rightarrow> bar_update b p q)"
proof (cases "trades = []")
  case True
  have "(word_of_int (min (uint q) (2 ^ 64 - 1)) :: u64) = q"
    using uint_u64_bound [of q] by (intro word_uint_eqI) (simp add: uint_word_of_int)
  with True show ?thesis by (simp add: aggregate_bar_def bar_new_def)
next
  case False
  have "0 \<le> (\<Sum>x\<leftarrow>trades. uint (snd x))"
    by (induction trades) auto
  then have vol: "saturating_add (word_of_int (min (\<Sum>x\<leftarrow>trades. uint (snd x)) 18446744073709551615)) q =
      word_of_int (min ((\<Sum>x\<leftarrow>trades. uint (snd x)) + uint q) 18446744073709551615)"
    by (rule saturating_add_capped)
  have cnt: "saturating_add (word_of_int (min (int (length trades)) 18446744073709551615)) (1 :: u64) =
      word_of_int (min (1 + int (length trades)) 18446744073709551615)"
    using saturating_add_capped [of "int (length trades)" 1] by (simp add: add.commute)
  have "hd (trades @ [(p, q)]) = hd trades" using False by simp
  moreover have "Max (insert p (fst ` set trades)) = max (Max (fst ` set trades)) p"
    using False by (simp add: max.commute)
  moreover have "Min (insert p (fst ` set trades)) = min (Min (fst ` set trades)) p"
    using False by (simp add: min.commute)
  ultimately show ?thesis
    using False vol cnt by (simp add: aggregate_bar_def bar_update_def)
qed

text \<open>A run of trades, each a time in seconds, a price and a quantity, into one series.\<close>

type_synonym trade = "u64 \<times> u128 \<times> u64"

definition series_run :: "ohlc_interval \<Rightarrow> series \<Rightarrow> trade list \<Rightarrow> series" where
  "series_run i s trades = foldl (\<lambda>s (t, p, q). series_update i t p q s) s trades"

definition bucket_trades :: "ohlc_interval \<Rightarrow> u64 \<Rightarrow> trade list \<Rightarrow> (u128 \<times> u64) list" where
  "bucket_trades i b trades = map snd (filter (\<lambda>(t, _). floor_timestamp i t = b) trades)"

definition buckets :: "ohlc_interval \<Rightarrow> trade list \<Rightarrow> u64 set" where
  "buckets i trades = (\<lambda>(t, _). floor_timestamp i t) ` set trades"

lemma series_update_ok [wf_intros]: "bt_ok s \<Longrightarrow> bt_ok (series_update i t p q s)"
  by (simp add: series_update_def Let_def ev.inv_shrink bt_ok_put)

lemma series_update_length: "bt_ok s \<Longrightarrow> length (series_update i t p q s) \<le> max_bars_per_series"
  by (simp add: series_update_def Let_def ev.size_shrink_le bt_ok_put)

lemma series_run_snoc:
  "series_run i s (trades @ [(t, p, q)]) = series_update i t p q (series_run i s trades)"
  by (simp add: series_run_def)

lemma bucket_trades_snoc:
  "bucket_trades i b (trades @ [(t, p, q)]) =
     bucket_trades i b trades @ (if floor_timestamp i t = b then [(p, q)] else [])"
  by (simp add: bucket_trades_def)

lemma bucket_trades_empty: "bucket_trades i b trades = [] \<longleftrightarrow> b \<notin> buckets i trades"
  by (force simp: bucket_trades_def buckets_def filter_empty_conv)

lemma aggregate_bar_None: "aggregate_bar b ts = None \<longleftrightarrow> ts = []"
  by (simp add: aggregate_bar_def)

lemma series_run_refines:
  assumes "card (buckets i trades) \<le> max_bars_per_series"
  shows "bt_ok (series_run i [] trades)"
    and "map_of (series_run i [] trades) b = aggregate_bar b (bucket_trades i b trades)"
proof -
  have "bt_ok (series_run i [] trades) \<and>
      map_of (series_run i [] trades) = (\<lambda>b. aggregate_bar b (bucket_trades i b trades))"
    using assms
  proof (induction trades rule: rev_induct)
    case Nil
    show ?case by (auto simp: series_run_def bt_ok_def bucket_trades_def)
  next
    case (snoc x trades)
    obtain t p q where x: "x = (t, p, q)" by (cases x)
    let ?s = "series_run i [] trades" and ?b = "floor_timestamp i t"
    let ?bar = "case map_of ?s ?b of Some b \<Rightarrow> bar_update b p q | None \<Rightarrow> bar_new ?b p q"
    have sub: "buckets i trades \<subseteq> buckets i (trades @ [x])" and fin: "finite (buckets i (trades @ [x]))"
      by (auto simp: buckets_def)
    have "card (buckets i trades) \<le> max_bars_per_series"
      using card_mono [OF fin sub] snoc.prems by simp
    then have ok: "bt_ok ?s" and
      m: "map_of ?s = (\<lambda>b. aggregate_bar b (bucket_trades i b trades))"
      using snoc.IH by auto
    have put: "map_of (bt_put ?b ?bar ?s) =
        (\<lambda>b. aggregate_bar b (bucket_trades i b (trades @ [x])))"
      by (auto simp: fun_eq_iff bt_get_put m x bucket_trades_snoc aggregate_bar_snoc
          split: option.splits)
    then have "dom (map_of (bt_put ?b ?bar ?s)) = buckets i (trades @ [x])"
      by (auto simp: dom_def aggregate_bar_None bucket_trades_empty simp flip: not_None_eq)
    then have "length (bt_put ?b ?bar ?s) \<le> max_bars_per_series"
      using bt.size_card [OF bt_ok_put [OF ok]] snoc.prems by simp
    then show ?case
      using put ok
      by (simp add: x series_run_snoc series_update_def Let_def ev.shrink_stop bt_ok_put
          del: map_of_eq_None_iff)
  qed
  then show "bt_ok (series_run i [] trades)"
    and "map_of (series_run i [] trades) b = aggregate_bar b (bucket_trades i b trades)"
    by auto
qed

section \<open>The whole aggregator\<close>

lemma series_of_update_bar:
  "series_of (update_bar a sm i t p q) s j =
     (if s = sm \<and> j = i then series_update i t p q (series_of a sm i) else series_of a s j)"
  by (simp add: update_bar_def series_of_def dm_get_insert)

lemma fold_update_bar:
  "distinct is \<Longrightarrow>
   series_of (foldl (\<lambda>a i. update_bar a sm i t p q) a is) s j =
     (if s = sm \<and> j \<in> set is then series_update j t p q (series_of a s j) else series_of a s j)"
  by (induction "is" arbitrary: a) (auto simp: series_of_update_bar)

lemma all_intervals_complete: "i \<in> set all_intervals"
  by (cases i) (simp_all add: all_intervals_def)

lemma series_of_record_trade:
  "series_of (record_trade a sm t_ms p q) s i =
     (if s = sm then series_update i (t_ms div 1000) p q (series_of a s i) else series_of a s i)"
proof -
  have "distinct all_intervals" by (simp add: all_intervals_def)
  then show ?thesis
    by (simp add: record_trade_def Let_def fold_update_bar all_intervals_complete)
qed

text \<open>A run of trades, each with its symbol and a time in milliseconds.\<close>

type_synonym symbol_trade = "string \<times> u64 \<times> u128 \<times> u64"

definition record_trades :: "aggregator \<Rightarrow> symbol_trade list \<Rightarrow> aggregator" where
  "record_trades a trades = foldl (\<lambda>a (sm, t, p, q). record_trade a sm t p q) a trades"

definition trades_of :: "string \<Rightarrow> symbol_trade list \<Rightarrow> trade list" where
  "trades_of s trades =
     map (\<lambda>(_, t, p, q). (t div 1000, p, q)) (filter (\<lambda>(sm, _). sm = s) trades)"

lemma series_of_record_trades:
  "series_of (record_trades a trades) s i = series_run i (series_of a s i) (trades_of s trades)"
proof (induction trades rule: rev_induct)
  case Nil
  show ?case by (simp add: record_trades_def trades_of_def series_run_def)
next
  case (snoc x trades)
  obtain sm t p q where "x = (sm, t, p, q)" by (cases x)
  with snoc show ?case
    by (cases "s = sm")
      (simp_all add: record_trades_def trades_of_def series_of_record_trade series_run_def)
qed

text \<open>What every stored series satisfies.\<close>

definition bar_wf :: "ohlc_interval \<Rightarrow> u64 \<Rightarrow> ohlc_bar \<Rightarrow> bool" where
  "bar_wf i ts b \<longleftrightarrow>
     bar_timestamp b = ts \<and> floor_timestamp i ts = ts \<and>
     bar_low b \<le> bar_open b \<and> bar_open b \<le> bar_high b \<and>
     bar_low b \<le> bar_close b \<and> bar_close b \<le> bar_high b \<and> 0 < bar_trade_count b"

definition series_wf :: "ohlc_interval \<Rightarrow> series \<Rightarrow> bool" where
  "series_wf i s \<longleftrightarrow>
     bt_ok s \<and> length s \<le> max_bars_per_series \<and> list_all (\<lambda>(ts, b). bar_wf i ts b) s"

definition aggregator_wf :: "aggregator \<Rightarrow> bool" where
  "aggregator_wf a \<longleftrightarrow> dm_ok a \<and> list_all (\<lambda>((_, i), s). series_wf i s) a"

lemma bar_wf_new: "bar_wf i (floor_timestamp i t) (bar_new (floor_timestamp i t) p q)"
  by (simp add: bar_wf_def bar_new_def)

lemma bar_wf_update: "bar_wf i ts b \<Longrightarrow> bar_wf i ts (bar_update b p q)"
  using saturating_add_ge [of "bar_trade_count b" 1]
  by (auto simp: bar_wf_def bar_update_def le_max_iff_disj min_le_iff_disj)

lemma series_wf_iff:
  "series_wf i s \<longleftrightarrow>
     bt_ok s \<and> length s \<le> max_bars_per_series \<and> (\<forall>ts b. map_of s ts = Some b \<longrightarrow> bar_wf i ts b)"
  using bt_ok_distinct [of s] by (force simp: series_wf_def list_all_iff)

lemma series_wf_update [wf_intros]:
  assumes "series_wf i s"
  shows "series_wf i (series_update i t p q s)"
proof -
  let ?b = "floor_timestamp i t"
  let ?bar = "case map_of s ?b of Some b \<Rightarrow> bar_update b p q | None \<Rightarrow> bar_new ?b p q"
  have ok: "bt_ok s" and bars: "\<And>ts b. map_of s ts = Some b \<Longrightarrow> bar_wf i ts b"
    using assms by (auto simp: series_wf_iff)
  have "bar_wf i ?b ?bar"
    by (auto intro: bar_wf_new bar_wf_update bars split: option.splits)
  then have put: "bar_wf i ts b" if "map_of (bt_put ?b ?bar s) ts = Some b" for ts b
    using that bars by (auto simp: bt_get_put split: if_splits)
  have "bar_wf i ts b" if "map_of (series_update i t p q s) ts = Some b" for ts b
    using ev.shrink_sub [OF bt_ok_put [OF ok]] that put by (simp add: series_update_def Let_def)
  then show ?thesis
    using ok by (simp add: series_wf_iff series_update_ok series_update_length)
qed

lemma series_wf_Nil [simp]: "series_wf i []"
  by (simp add: series_wf_def bt_ok_def)

lemma aggregator_wf_iff:
  "aggregator_wf a \<longleftrightarrow> dm_ok a \<and> (\<forall>sm i. series_wf i (series_of a sm i))"
proof -
  have "list_all (\<lambda>((_, i), s). series_wf i s) a \<longleftrightarrow> (\<forall>sm i. series_wf i (series_of a sm i))"
    if "dm_ok a"
    using that dm_get_mem [OF that]
    by (force simp: list_all_iff series_of_def split: option.splits)
  then show ?thesis by (auto simp: aggregator_wf_def)
qed

lemma dm_ok_record_trade [wf_intros]: "dm_ok a \<Longrightarrow> dm_ok (record_trade a sm t p q)"
proof -
  have "dm_ok (foldl (\<lambda>a i. update_bar a sm i s p q) a is)" if "dm_ok a" for "is" s
    using that by (induction "is" arbitrary: a) (simp_all add: update_bar_def dm_ok_insert)
  then show "dm_ok a \<Longrightarrow> dm_ok (record_trade a sm t p q)"
    by (simp add: record_trade_def Let_def)
qed

lemma aggregator_wf_record [wf_intros]:
  "aggregator_wf a \<Longrightarrow> aggregator_wf (record_trade a sm t p q)"
  by (auto simp: aggregator_wf_iff series_of_record_trade dm_ok_record_trade
      intro: series_wf_update)

lemma aggregator_wf_records:
  "aggregator_wf a \<Longrightarrow> aggregator_wf (record_trades a trades)"
  by (induction trades arbitrary: a) (auto simp: record_trades_def aggregator_wf_record)

lemma aggregator_wf_clear_symbol [wf_intros]:
  assumes "aggregator_wf a"
  shows "aggregator_wf (clear_symbol a sm)"
proof -
  have step: "aggregator_wf (dm_remove (sm, i) a)" if "aggregator_wf a" for i a
    using that by (auto simp: aggregator_wf_iff dm_ok_remove series_of_def dm_get_remove)
  have "aggregator_wf (foldl (\<lambda>a i. dm_remove (sm, i) a) a is)" for "is"
    using assms by (induction "is" arbitrary: a) (simp_all add: step)
  then show ?thesis by (simp add: clear_symbol_def)
qed

lemma clear_symbol_series:
  "series_of (clear_symbol a sm) s i = (if s = sm then [] else series_of a s i)"
proof -
  have "dm_get (foldl (\<lambda>a i. dm_remove (sm, i) a) a is) (s, i) =
      (if s = sm \<and> i \<in> set is then None else dm_get a (s, i))" for "is"
    by (induction "is" arbitrary: a) (auto simp: dm_get_remove)
  then show ?thesis
    by (simp add: clear_symbol_def series_of_def all_intervals_complete)
qed

section \<open>Queries\<close>

lemma get_bars_cases:
  assumes "get_bars a sm i f t n = Some r"
  shows "r =
     (let range = series_range (case f of Some x \<Rightarrow> x | None \<Rightarrow> 0)
                    (case t of Some x \<Rightarrow> x | None \<Rightarrow> - 1) (series_of a sm i)
      in if f \<noteq> None \<and> t \<noteq> None then take n range else drop (length range - n) range)"
  using assms
  by (auto simp: get_bars_def series_of_def Let_def rev_take series_range_def
      split: option.splits if_splits)

lemma get_bars_panics:
  "get_bars a sm i f t n = None \<longleftrightarrow>
     dm_get a (sm, i) \<noteq> None \<and> (\<exists>x y. f = Some x \<and> t = Some y \<and> y < x)"
  by (auto simp: get_bars_def Let_def word_order.extremum_strict split: option.splits)

text \<open>The timestamps of a range are the keys of its entries, in increasing order.\<close>

lemma series_range_sorted:
  assumes "series_wf i s"
  shows "sorted_wrt (<) (map bar_timestamp (series_range lo hi s))"
proof -
  have wf: "list_all (\<lambda>(ts, b). bar_wf i ts b) s" and srt: "sorted_wrt (<) (map fst s)"
    using assms by (simp_all add: series_wf_def bt_ok_def)
  from wf have "map bar_timestamp (series_range lo hi s) = filter (\<lambda>k. lo \<le> k \<and> k \<le> hi) (map fst s)"
    by (induction s) (auto simp: series_range_def bar_wf_def)
  then show ?thesis using srt by (simp add: sorted_wrt_filter)
qed

lemma series_range_set:
  assumes "series_wf i s"
  shows "b \<in> set (series_range lo hi s) \<longleftrightarrow>
    map_of s (bar_timestamp b) = Some b \<and> lo \<le> bar_timestamp b \<and> bar_timestamp b \<le> hi"
proof -
  have wf: "list_all (\<lambda>(ts, b). bar_wf i ts b) s" and d: "distinct (map fst s)"
    using assms by (simp_all add: series_wf_def bt_ok_distinct)
  have "map_of s ts = Some b \<Longrightarrow> bar_timestamp b = ts" for ts b
    using wf by (auto simp: list_all_iff bar_wf_def dest!: map_of_SomeD)
  moreover have "b \<in> set (series_range lo hi s) \<longleftrightarrow>
      (\<exists>ts. map_of s ts = Some b \<and> lo \<le> ts \<and> ts \<le> hi)"
    using d by (force simp: series_range_def)
  ultimately show ?thesis by auto
qed

lemma get_bars_selection:
  fixes sm :: string and i :: ohlc_interval and n :: nat and f t :: "u64 option"
  assumes "aggregator_wf a" and ret: "get_bars a sm i f t n = Some r"
  defines "lo \<equiv> (case f of Some x \<Rightarrow> x | None \<Rightarrow> 0)"
    and "hi \<equiv> (case t of Some x \<Rightarrow> x | None \<Rightarrow> - 1)"
    and "stored \<equiv> \<lambda>b. map_of (series_of a sm i) (bar_timestamp b) = Some b"
  shows "length r \<le> n
    \<and> sorted_wrt (<) (map bar_timestamp r)
    \<and> (\<forall>b. b \<in> set r \<longrightarrow> stored b \<and> lo \<le> bar_timestamp b \<and> bar_timestamp b \<le> hi)
    \<and> (\<forall>b c. stored b \<and> lo \<le> bar_timestamp b \<and> bar_timestamp b \<le> hi \<and> b \<notin> set r \<and> c \<in> set r \<longrightarrow>
         (if f \<noteq> None \<and> t \<noteq> None then bar_timestamp c < bar_timestamp b
          else bar_timestamp b < bar_timestamp c))"
proof -
  let ?range = "series_range lo hi (series_of a sm i)"
  have wf: "series_wf i (series_of a sm i)"
    using assms by (simp add: aggregator_wf_iff)
  have mem: "b \<in> set ?range \<longleftrightarrow> stored b \<and> lo \<le> bar_timestamp b \<and> bar_timestamp b \<le> hi" for b
    unfolding stored_def by (rule series_range_set [OF wf])
  have r: "r = (if f \<noteq> None \<and> t \<noteq> None then take n ?range else drop (length ?range - n) ?range)"
    using get_bars_cases [OF ret] by (simp only: lo_def hi_def Let_def)
  obtain xs ys where split: "?range = xs @ ys" "(if f \<noteq> None \<and> t \<noteq> None then xs else ys) = r"
      "length r \<le> n"
  proof (cases "f \<noteq> None \<and> t \<noteq> None")
    case True
    then show ?thesis
      using that [of "take n ?range" "drop n ?range"] r by (simp only: if_True append_take_drop_id) simp
  next
    case False
    then show ?thesis
      using that [of "take (length ?range - n) ?range" "drop (length ?range - n) ?range"] r
      by (simp only: if_False append_take_drop_id) simp
  qed
  have srt: "sorted_wrt (<) (map bar_timestamp (xs @ ys))"
    using series_range_sorted [OF wf] split(1) by metis
  then have apart: "bar_timestamp x < bar_timestamp y" if "x \<in> set xs" "y \<in> set ys" for x y
    using that by (auto simp: sorted_wrt_append)
  have sub: "set r \<subseteq> set ?range" and out: "b \<notin> set r \<Longrightarrow> b \<in> set ?range \<Longrightarrow>
      (if f \<noteq> None \<and> t \<noteq> None then b \<in> set ys else b \<in> set xs)" for b
    using split(1,2) by (auto split: if_splits)
  have "sorted_wrt (<) (map bar_timestamp r)"
    using srt split(2) by (auto simp: sorted_wrt_append split: if_splits)
  moreover have "stored b \<and> lo \<le> bar_timestamp b \<and> bar_timestamp b \<le> hi" if "b \<in> set r" for b
    using that sub mem by blast
  moreover have "if f \<noteq> None \<and> t \<noteq> None then bar_timestamp c < bar_timestamp b
          else bar_timestamp b < bar_timestamp c"
    if "stored b" "lo \<le> bar_timestamp b" "bar_timestamp b \<le> hi" "b \<notin> set r" "c \<in> set r" for b c
    using out [OF that(4)] mem that split(2) apart by (auto split: if_splits)
  ultimately show ?thesis using split(3) by blast
qed

section \<open>Properties\<close>

text \<open>
  C26. A stored candle is exactly the aggregate of the trades of its bucket: after any
  sequence of trades, the bar of a symbol, an interval and a bucket has the first price, the
  extremes, the last price, the (capped) volume and the (capped) count of exactly the
  trades of that symbol in that bucket, and there is no bar without a trade; as long as the
  trades touch no more buckets than a series retains.
\<close>

theorem ohlc_bars_refine_trades:
  assumes "card (buckets i (trades_of s trades)) \<le> max_bars_per_series"
  shows "map_of (series_of (record_trades aggregator_new trades) s i) b =
    aggregate_bar b (bucket_trades i b (trades_of s trades))"
proof -
  have "series_of aggregator_new s i = []"
    by (simp add: series_of_def aggregator_new_def)
  then show ?thesis
    using series_run_refines(2) [OF assms] by (simp add: series_of_record_trades)
qed

definition demo_trades :: "symbol_trade list" where
  "demo_trades =
     [(''A'', 60000, 500, 3), (''B'', 61000, 7, 1), (''A'', 90000, 520, 2),
      (''A'', 119999, 490, 5), (''A'', 120000, 510, 1)]"

lemma ohlc_bars_refine_trades_witness:
  "map_of (series_of (record_trades aggregator_new demo_trades) ''A'' OneMinute) 60 =
     Some \<lparr>bar_timestamp = 60, bar_open = 500, bar_high = 520, bar_low = 490, bar_close = 490,
           bar_volume = 10, bar_trade_count = 3\<rparr>"
proof -
  have t: "trades_of ''A'' demo_trades = [(60, 500, 3), (90, 520, 2), (119, 490, 5), (120, 510, 1)]"
    by (simp add: trades_of_def demo_trades_def)
  have b: "bucket_trades OneMinute 60 (trades_of ''A'' demo_trades) = [(500, 3), (520, 2), (490, 5)]"
    by (simp add: t bucket_trades_def floor_timestamp_def)
  have "card (buckets OneMinute (trades_of ''A'' demo_trades)) \<le>
      card (set (trades_of ''A'' demo_trades))"
    unfolding buckets_def by (rule card_image_le) simp
  also have "\<dots> \<le> length (trades_of ''A'' demo_trades)" by (rule card_length)
  finally have "card (buckets OneMinute (trades_of ''A'' demo_trades)) \<le> max_bars_per_series"
    by (simp add: t max_bars_per_series_def)
  from ohlc_bars_refine_trades [OF this, of 60] show ?thesis
    by (simp add: b aggregate_bar_def)
qed

text \<open>
  C32. The invariant of the candle store: after any sequence of trades, every series is
  strictly ascending in time, holds at most 2048 bars, and every bar sits at the bucket
  boundary of its own timestamp with low <= open, close <= high and at least one trade.
\<close>

theorem ohlc_store_invariant:
  "aggregator_wf (record_trades aggregator_new trades)"
  by (rule aggregator_wf_records) (simp add: aggregator_wf_def aggregator_new_def)

text \<open>
  Retention keeps the newest bars: recording a trade drops at most one bar per series
  of the traded symbol, every bar it drops is older than every bar it keeps, a kept bar
  outside the trade's bucket is unchanged, and other symbols keep their series.
\<close>

theorem ohlc_retention_keeps_newest:
  fixes sm :: string and i :: ohlc_interval and t q :: u64 and p :: u128
  assumes "aggregator_wf a"
  defines "old \<equiv> series_of a sm i" and "new \<equiv> series_of (record_trade a sm t p q) sm i"
  shows "length old \<le> Suc (length new)
    \<and> (\<forall>k b k' b'. map_of old k = Some b \<and> map_of new k = None \<and> map_of new k' = Some b' \<longrightarrow> k < k')
    \<and> (\<forall>k b. map_of new k = Some b \<and> k \<noteq> floor_timestamp i (t div 1000) \<longrightarrow> map_of old k = Some b)
    \<and> (\<forall>s j. s \<noteq> sm \<longrightarrow> series_of (record_trade a sm t p q) s j = series_of a s j)"
proof -
  let ?b = "floor_timestamp i (t div 1000)"
  let ?bar = "case map_of old ?b of Some b \<Rightarrow> bar_update b p q | None \<Rightarrow> bar_new ?b p q"
  let ?mid = "bt_put ?b ?bar old"
  have wf: "bt_ok old" "length old \<le> max_bars_per_series"
    using assms by (auto simp: aggregator_wf_iff series_wf_def)
  have new: "new = evict_bars ?mid"
    by (simp add: new_def old_def series_of_record_trade series_update_def Let_def)
  have ok: "bt_ok ?mid" using wf(1) by (rule bt_ok_put)
  have dropped: "k < k'"
    if "map_of old k = Some b" "map_of new k = None" "map_of new k' = Some b'" for k b k' b'
  proof -
    have "\<exists>c. map_of ?mid k = Some c"
      using that(1) by (simp add: bt_get_put)
    then obtain c where "map_of ?mid k = Some c" by blast
    then have "k \<le> k'"
      using ev.shrink_keeps_youngest [OF ok] that new by blast
    with that show ?thesis by (cases "k = k'") auto
  qed
  have kept: "map_of old k = Some b" if "map_of new k = Some b" "k \<noteq> ?b" for k b
    using ev.shrink_sub [OF ok, of k b] that new by (simp add: bt_get_put)
  have "length old \<le> Suc (length new)"
    using ev.put_shrink_within [OF wf, of ?b ?bar] new by simp
  then show ?thesis
    using dropped kept by (auto simp: series_of_record_trade)
qed

lemma ohlc_retention_keeps_newest_witness:
  "length (series_of (record_trades aggregator_new demo_trades) ''A'' OneMinute)
     \<le> Suc (length (series_of (record_trade (record_trades aggregator_new demo_trades)
                 ''A'' 180000 500 1) ''A'' OneMinute))"
  using ohlc_retention_keeps_newest [OF aggregator_wf_records, of aggregator_new demo_trades
      "''A''" OneMinute 180000 500 1]
  by (simp add: aggregator_wf_def aggregator_new_def)

text \<open>
  A candle query returns at most \<open>limit\<close> bars, ascending in time, all of them stored
  bars of the asked series inside the window; and the bars it leaves out of the window are
  later than every returned one when both bounds are given, and earlier otherwise (a query
  without a full window is anchored at the newest bars). It returns at all unless a stored
  series is asked for a window whose start is after its end, which panics.
\<close>

theorem ohlc_get_bars_correct:
  fixes sm :: string and i :: ohlc_interval and n :: nat and f t :: "u64 option"
  assumes "aggregator_wf a"
  defines "lo \<equiv> (case f of Some x \<Rightarrow> x | None \<Rightarrow> 0)"
    and "hi \<equiv> (case t of Some x \<Rightarrow> x | None \<Rightarrow> - 1)"
    and "stored \<equiv> \<lambda>b. map_of (series_of a sm i) (bar_timestamp b) = Some b"
  shows "(get_bars a sm i f t n = None \<longleftrightarrow> dm_get a (sm, i) \<noteq> None \<and> hi < lo)
    \<and> (\<forall>r. get_bars a sm i f t n = Some r \<longrightarrow> length r \<le> n
    \<and> sorted_wrt (<) (map bar_timestamp r)
    \<and> (\<forall>b. b \<in> set r \<longrightarrow> stored b \<and> lo \<le> bar_timestamp b \<and> bar_timestamp b \<le> hi)
    \<and> (\<forall>b c. stored b \<and> lo \<le> bar_timestamp b \<and> bar_timestamp b \<le> hi \<and> b \<notin> set r \<and> c \<in> set r \<longrightarrow>
         (if f \<noteq> None \<and> t \<noteq> None then bar_timestamp c < bar_timestamp b
          else bar_timestamp b < bar_timestamp c)))"
proof (intro conjI allI impI)
  show "get_bars a sm i f t n = None \<longleftrightarrow> dm_get a (sm, i) \<noteq> None \<and> hi < lo"
    unfolding get_bars_panics lo_def hi_def
    by (auto simp: word_order.extremum_strict split: option.splits)
next
  fix r assume ret: "get_bars a sm i f t n = Some r"
  show "length r \<le> n" and "sorted_wrt (<) (map bar_timestamp r)"
    and "\<And>b. b \<in> set r \<Longrightarrow> stored b" and "\<And>b. b \<in> set r \<Longrightarrow> lo \<le> bar_timestamp b"
    and "\<And>b. b \<in> set r \<Longrightarrow> bar_timestamp b \<le> hi"
    and "\<And>b c. stored b \<and> lo \<le> bar_timestamp b \<and> bar_timestamp b \<le> hi \<and> b \<notin> set r \<and> c \<in> set r \<Longrightarrow>
       (if f \<noteq> None \<and> t \<noteq> None then bar_timestamp c < bar_timestamp b
          else bar_timestamp b < bar_timestamp c)"
    using get_bars_selection [OF assms(1) ret]
    by (simp_all only: lo_def hi_def stored_def) blast+
qed

lemma ohlc_get_bars_correct_witness:
  "(\<exists>r. get_bars (record_trades aggregator_new demo_trades) ''A'' OneMinute None (Some 100) 1 = Some r
     \<and> length r \<le> 1 \<and> sorted_wrt (<) (map bar_timestamp r))"
proof -
  have wf: "aggregator_wf (record_trades aggregator_new demo_trades)"
    by (rule aggregator_wf_records) (simp add: aggregator_wf_def aggregator_new_def)
  show ?thesis
    using ohlc_get_bars_correct [OF wf, of "''A''" OneMinute None "Some 100" 1]
    by (cases "get_bars (record_trades aggregator_new demo_trades) ''A'' OneMinute None (Some 100) 1")
      simp_all
qed

end
