(* ===== verification/Trading.thy ===== *)
theory Trading
  imports Market_Maker Position Ohlc
begin

text \<open>
  The order-entry handlers of \<open>src/src/api/handlers.rs\<close> on the shared application state:
  recording of executed fills into positions, last trades, candles and executions, the
  numbered order-book deltas, and adding, cancelling, modifying and market orders. A
  handler is one function from the state to the new state and the response. The clock
  readings and the generator of order ids are arguments.
\<close>

section \<open>Application state\<close>

record delta_event =
  de_symbol :: string
  de_sequence :: u64
  de_side :: string
  de_price :: u128
  de_quantity :: u64

record trade_event =
  te_trade_id :: string
  te_symbol :: string
  te_price :: u128
  te_quantity :: u64
  te_timestamp_ms :: u64
  te_maker_order_id :: string
  te_taker_order_id :: string

text \<open>\<open>st_deltas\<close> and \<open>st_trades\<close> are what was broadcast so far, in order.\<close>

record ('m, 'o) app_state =
  st_venue :: "('m, 'o) venue"
  st_last_trades :: "(string, last_trade_info) dashmap"
  st_orders :: "(string, order_info) dashmap"
  st_positions :: "(string, position_info) dashmap"
  st_ohlc :: aggregator
  st_executions :: "(string, execution_info) dashmap"
  st_sequences :: "(string, u64) dashmap"
  st_deltas :: "delta_event list"
  st_trades :: "trade_event list"

definition app_new :: "'m \<Rightarrow> ('m, 'o) app_state" where
  "app_new m = \<lparr>st_venue = engine_new m, st_last_trades = [], st_orders = [], st_positions = [],
     st_ohlc = aggregator_new, st_executions = [], st_sequences = [], st_deltas = [], st_trades = []\<rparr>"

definition st_manager :: "('m, 'o) app_state \<Rightarrow> 'm" where
  "st_manager st = v_manager (st_venue st)"

definition set_manager :: "'m \<Rightarrow> ('m, 'o) app_state \<Rightarrow> ('m, 'o) app_state" where
  "set_manager m st = st\<lparr>st_venue := (st_venue st)\<lparr>v_manager := m\<rparr>\<rparr>"

definition fresh_id :: "(nat \<Rightarrow> 'o) \<Rightarrow> ('m, 'o) app_state \<Rightarrow> 'o \<times> ('m, 'o) app_state" where
  "fresh_id gen st = (let (i, v) = new_order_id gen (st_venue st) in (i, st\<lparr>st_venue := v\<rparr>))"

section \<open>Order-book deltas\<close>

definition next_sequence :: "string \<Rightarrow> ('m, 'o) app_state \<Rightarrow> u64 \<times> ('m, 'o) app_state" where
  "next_sequence symbol st =
     (let n = (case dm_get (st_sequences st) symbol of Some c \<Rightarrow> c | None \<Rightarrow> 0)
      in (n, st\<lparr>st_sequences := dm_insert symbol (n + 1) (st_sequences st)\<rparr>))"

definition current_sequence :: "('m, 'o) app_state \<Rightarrow> string \<Rightarrow> u64" where
  "current_sequence st symbol = (case dm_get (st_sequences st) symbol of Some c \<Rightarrow> c | None \<Rightarrow> 0)"

fun resting_side_str :: "book_side \<Rightarrow> string" where
  "resting_side_str BookBuy = ''bid''"
| "resting_side_str BookSell = ''ask''"

definition level_visible_quantity :: "('m, 'o) exchange \<Rightarrow> 'm \<Rightarrow> book_key \<Rightarrow> book_side \<Rightarrow> u128 \<Rightarrow> u64" where
  "level_visible_quantity X m bk side price = foldl saturating_add 0 (x_orders_at X m bk price side)"

definition build_level_delta :: "string \<Rightarrow> book_side \<Rightarrow> u128 \<Rightarrow> u64 \<Rightarrow> u64 \<Rightarrow> delta_event" where
  "build_level_delta symbol side price new_quantity sequence =
     \<lparr>de_symbol = symbol, de_sequence = sequence, de_side = resting_side_str side, de_price = price,
      de_quantity = new_quantity\<rparr>"

definition publish_level_delta ::
  "('m, 'o) exchange \<Rightarrow> book_key \<Rightarrow> book_side \<Rightarrow> u128 \<Rightarrow> ('m, 'o) app_state \<Rightarrow> ('m, 'o) app_state" where
  "publish_level_delta X bk side price st =
     (let symbol = x_symbol X (st_manager st) bk;
          new_quantity = level_visible_quantity X (st_manager st) bk side price;
          (sequence, st) = next_sequence symbol st
      in st\<lparr>st_deltas := st_deltas st @ [build_level_delta symbol side price new_quantity sequence]\<rparr>)"

fun publish_consumed ::
  "('m, 'o) exchange \<Rightarrow> book_key \<Rightarrow> book_side \<Rightarrow> u128 list \<Rightarrow> u128 list \<Rightarrow> ('m, 'o) app_state
   \<Rightarrow> ('m, 'o) app_state" where
  "publish_consumed X bk maker_side seen [] st = st"
| "publish_consumed X bk maker_side seen (price # prices) st =
     (if price \<in> set seen then publish_consumed X bk maker_side seen prices st
      else publish_consumed X bk maker_side (seen @ [price]) prices
             (publish_level_delta X bk maker_side price st))"

definition publish_consumed_maker_deltas ::
  "('m, 'o) exchange \<Rightarrow> book_key \<Rightarrow> book_side \<Rightarrow> u128 list \<Rightarrow> ('m, 'o) app_state \<Rightarrow> ('m, 'o) app_state" where
  "publish_consumed_maker_deltas X bk taker_side prices st =
     publish_consumed X bk (opposite taker_side) [] prices st"

section \<open>Recording fills\<close>

record executed_fill =
  xf_price :: u128
  xf_quantity :: u64
  xf_timestamp_ms :: u64
  xf_trade_id :: string
  xf_taker_order_id :: string
  xf_maker_order_id :: string

definition executed_of :: "book_trade \<Rightarrow> executed_fill" where
  "executed_of t = \<lparr>xf_price = bt_price t, xf_quantity = bt_quantity t, xf_timestamp_ms = bt_timestamp t,
     xf_trade_id = bt_trade_id t, xf_taker_order_id = bt_taker_order_id t,
     xf_maker_order_id = bt_maker_order_id t\<rparr>"

text \<open>\<open>quantity as i64\<close> and its negation wrap.\<close>

definition signed_fill_quantity :: "order_side \<Rightarrow> u64 \<Rightarrow> i64" where
  "signed_fill_quantity side quantity =
     (case side of Buy \<Rightarrow> sint quantity | Sell \<Rightarrow> wrap_i64 (- sint quantity))"

definition update_position_on_fill ::
  "string \<Rightarrow> string \<Rightarrow> order_side \<Rightarrow> u64 \<Rightarrow> u128 \<Rightarrow> u64 \<Rightarrow> ('m, 'o) app_state \<Rightarrow> ('m, 'o) app_state" where
  "update_position_on_fill symbol underlying side quantity price timestamp_ms st =
     (let fill_quantity = signed_fill_quantity side quantity;
          pos = (case dm_get (st_positions st) symbol of
                   Some pos \<Rightarrow> fst (position_update pos fill_quantity price timestamp_ms)
                 | None \<Rightarrow> position_new symbol underlying fill_quantity price timestamp_ms)
      in st\<lparr>st_positions := dm_insert symbol pos (st_positions st)\<rparr>)"

definition record_fill ::
  "('m, 'o) exchange \<Rightarrow> string \<Rightarrow> string \<Rightarrow> order_side \<Rightarrow> executed_fill \<Rightarrow> ('m, 'o) app_state
   \<Rightarrow> ('m, 'o) app_state" where
  "record_fill X symbol underlying taker_side fill st =
     (if 2 ^ 64 \<le> uint (xf_price fill) then st
      else
        (let price_u64 = ucast (xf_price fill) :: u64;
             st = update_position_on_fill symbol underlying taker_side (xf_quantity fill) (xf_price fill)
                    (xf_timestamp_ms fill) st;
             st = st\<lparr>st_last_trades := dm_insert symbol
                    \<lparr>lt_symbol = symbol, lt_price = price_u64, lt_quantity = xf_quantity fill, lt_side = taker_side,
                     lt_timestamp_ms = xf_timestamp_ms fill, lt_trade_id = xf_trade_id fill\<rparr> (st_last_trades st)\<rparr>;
             st = st\<lparr>st_ohlc := record_trade (st_ohlc st) symbol (xf_timestamp_ms fill) (xf_price fill)
                    (xf_quantity fill)\<rparr>;
             st = st\<lparr>st_executions := dm_insert (xf_trade_id fill)
                    \<lparr>ex_execution_id = xf_trade_id fill, ex_order_id = xf_taker_order_id fill, ex_symbol = symbol,
                     ex_side = taker_side, ex_price = price_u64, ex_quantity = xf_quantity fill,
                     ex_timestamp_ms = xf_timestamp_ms fill, ex_counterparty = Some (xf_maker_order_id fill),
                     ex_is_maker = False, ex_fee = 0, ex_edge = None\<rparr> (st_executions st)\<rparr>;
             st = (case x_oid_parse X (xf_maker_order_id fill) of
                     Some maker \<Rightarrow> st\<lparr>st_venue := on_order_filled X maker (xf_price fill) (xf_quantity fill) (st_venue st)\<rparr>
                   | None \<Rightarrow> st)
         in st\<lparr>st_trades := st_trades st @
              [\<lparr>te_trade_id = xf_trade_id fill, te_symbol = symbol, te_price = xf_price fill,
                te_quantity = xf_quantity fill, te_timestamp_ms = xf_timestamp_ms fill,
                te_maker_order_id = xf_maker_order_id fill, te_taker_order_id = xf_taker_order_id fill\<rparr>]\<rparr>))"

definition record_fills ::
  "('m, 'o) exchange \<Rightarrow> string \<Rightarrow> string \<Rightarrow> order_side \<Rightarrow> executed_fill list \<Rightarrow> ('m, 'o) app_state
   \<Rightarrow> ('m, 'o) app_state" where
  "record_fills X symbol underlying taker_side fills st =
     fold (record_fill X symbol underlying taker_side) fills st"

section \<open>Adding an order\<close>

definition executed_quantity :: "match_result \<Rightarrow> u64" where
  "executed_quantity r = (case mr_executed r of Some q \<Rightarrow> q | None \<Rightarrow> 0)"

definition tracked_status :: "match_result \<Rightarrow> order_status" where
  "tracked_status r =
     (if mr_complete r then Filled else if 0 < executed_quantity r then Partial else Active)"

definition order_fills_of :: "match_result \<Rightarrow> order_fill_info list" where
  "order_fills_of r = map (\<lambda>t. \<lparr>of_price = bt_price t, of_quantity = bt_quantity t,
     of_timestamp_ms = bt_timestamp t\<rparr>) (mr_trades r)"

fun tracked_tif :: "api_tif \<Rightarrow> order_tif" where
  "tracked_tif ApiGtc = TrackedGtc"
| "tracked_tif ApiIoc = TrackedIoc"
| "tracked_tif ApiFok = TrackedFok"
| "tracked_tif ApiGtd = TrackedGtd"

definition to_book_tif ::
  "('m, 'o) exchange \<Rightarrow> api_tif \<Rightarrow> string option \<Rightarrow> u64 \<Rightarrow> api_error + book_tif" where
  "to_book_tif X tif expire_at now_ms =
     (case tif of
        ApiGtc \<Rightarrow> Inr BookGtc
      | ApiIoc \<Rightarrow> Inr BookIoc
      | ApiFok \<Rightarrow> Inr BookFok
      | ApiGtd \<Rightarrow> (case parse_gtd_expire_at X expire_at now_ms of
                    Inl e \<Rightarrow> Inl e | Inr expire_ms \<Rightarrow> Inr (BookGtd expire_ms)))"

text \<open>Record the fills and publish the deltas of a match, as the submit paths do.\<close>

definition settle_match ::
  "('m, 'o) exchange \<Rightarrow> string \<Rightarrow> string \<Rightarrow> book_key \<Rightarrow> order_side \<Rightarrow> match_result \<Rightarrow> ('m, 'o) app_state
   \<Rightarrow> ('m, 'o) app_state" where
  "settle_match X symbol underlying bk side r st =
     (if 0 < executed_quantity r
      then publish_consumed_maker_deltas X bk (order_side_to_side side) (map bt_price (mr_trades r))
             (record_fills X symbol underlying side (map executed_of (mr_trades r)) st)
      else st)"

text \<open>The delta of the level a resting remainder joins.\<close>

definition publish_resting ::
  "('m, 'o) exchange \<Rightarrow> book_key \<Rightarrow> book_side \<Rightarrow> u128 \<Rightarrow> match_result \<Rightarrow> ('m, 'o) app_state
   \<Rightarrow> ('m, 'o) app_state" where
  "publish_resting X bk side price r st =
     (if 0 < mr_remaining r then publish_level_delta X bk side price st else st)"

definition add_order ::
  "('m, 'o) exchange \<Rightarrow> (nat \<Rightarrow> 'o) \<Rightarrow> u64 \<Rightarrow> u64 \<Rightarrow> string \<Rightarrow> string \<Rightarrow> u64 \<Rightarrow> string \<Rightarrow> add_order_request
   \<Rightarrow> ('m, 'o) app_state \<Rightarrow> ('m, 'o) app_state \<times> (api_error + add_order_response)" where
  "add_order X gen gtd_now now underlying exp_str strike style body st =
     (case parse_expiration X exp_str of
        Inl e \<Rightarrow> (st, Inl e)
      | Inr expiry \<Rightarrow>
     (case parse_option_style style of
        Inl e \<Rightarrow> (st, Inl e)
      | Inr option_style \<Rightarrow>
         (let side = order_side_to_side (ao_side body);
              api_tif = (case ao_tif body of Some t \<Rightarrow> t | None \<Rightarrow> ApiGtc)
          in case to_book_tif X api_tif (ao_expire_at body) gtd_now of
               Inl e \<Rightarrow> (st, Inl e)
             | Inr tif \<Rightarrow>
                (let bk = (underlying, expiry, strike, option_style);
                     st = set_manager (create_book X (st_manager st) underlying expiry strike) st;
                     (order_id, st) = fresh_id gen st;
                     (m, res) = x_add_tif X (st_manager st) bk order_id side (ao_price body) (ao_quantity body) tif;
                     st = set_manager m st
                 in case res of
                      Inl err \<Rightarrow>
                        (if contains_str err ''InsufficientLiquidity'' \<or> contains_str err ''insufficient''
                         then (st, Inr \<lparr>aor_order_id = x_oid_str X order_id, aor_status = LimitRejected,
                                 aor_filled_quantity = 0, aor_remaining_quantity = ao_quantity body,
                                 aor_message = ''Order rejected: '' @ err\<rparr>)
                         else (st, Inl (OrderBook err)))
                    | Inr r \<Rightarrow>
                        (let filled = executed_quantity r; remaining = mr_remaining r;
                             exp_formatted = format_expiration X expiry;
                             info = \<lparr>oi_order_id = x_oid_str X order_id,
                                     oi_symbol = option_symbol underlying exp_formatted strike option_style,
                                     oi_underlying = underlying, oi_expiration = exp_formatted, oi_strike = strike,
                                     oi_style = canonical_style option_style, oi_side = side_to_order_side side,
                                     oi_price = ao_price body, oi_original_quantity = ao_quantity body,
                                     oi_remaining_quantity = remaining, oi_filled_quantity = filled,
                                     oi_status = tracked_status r, oi_tif = tracked_tif api_tif,
                                     oi_created_at_ms = now, oi_updated_at_ms = now, oi_fills = order_fills_of r\<rparr>;
                             st = st\<lparr>st_orders := dm_insert (x_oid_str X order_id) info (st_orders st)\<rparr>;
                             st = settle_match X (option_symbol underlying exp_str strike option_style) underlying bk
                                    (ao_side body) r st;
                             st = publish_resting X bk side (ao_price body) r st
                         in (st, Inr \<lparr>aor_order_id = x_oid_str X order_id,
                                aor_status = (if mr_complete r then LimitFilled
                                              else if 0 < filled then LimitPartial else LimitAccepted),
                                aor_filled_quantity = filled, aor_remaining_quantity = remaining,
                                aor_message = ''Order added successfully with TIF='' @ x_tif_display X tif\<rparr>))))))"

section \<open>Cancelling an order\<close>

definition cancel_order ::
  "('m, 'o) exchange \<Rightarrow> u64 \<Rightarrow> string \<Rightarrow> string \<Rightarrow> u64 \<Rightarrow> string \<Rightarrow> string
   \<Rightarrow> ('m, 'o) app_state \<Rightarrow> ('m, 'o) app_state \<times> (api_error + cancel_order_response)" where
  "cancel_order X now underlying exp_str strike style order_id_str st =
     (case parse_option_style style of
        Inl e \<Rightarrow> (st, Inl e)
      | Inr option_style \<Rightarrow>
     (case resolve_book X (st_manager st) underlying exp_str strike option_style of
        Inl e \<Rightarrow> (st, Inl e)
      | Inr bk \<Rightarrow>
     (case x_oid_parse X order_id_str of
        None \<Rightarrow> (st, Inl (InvalidRequest (''Invalid order ID: '' @ order_id_str)))
      | Some order_id \<Rightarrow>
         (let resting_level = x_order X (st_manager st) bk order_id;
              (m, res) = x_cancel X (st_manager st) bk order_id;
              st = set_manager m st
          in case res of
               Inl err \<Rightarrow> (st, Inl (OrderBook err))
             | Inr success \<Rightarrow>
                (let st = (if success
                           then st\<lparr>st_orders := dm_remove order_id_str (st_orders st)\<rparr>
                           else (case dm_get (st_orders st) order_id_str of
                                   None \<Rightarrow> st
                                 | Some entry \<Rightarrow>
                                     st\<lparr>st_orders := dm_insert order_id_str
                                       (entry\<lparr>oi_filled_quantity := oi_original_quantity entry,
                                             oi_remaining_quantity := 0, oi_status := Filled,
                                             oi_updated_at_ms := now\<rparr>) (st_orders st)\<rparr>));
                     st = (case (success, resting_level) of
                             (True, Some (side, price, _)) \<Rightarrow> publish_level_delta X bk side price st
                           | _ \<Rightarrow> st)
                 in (st, Inr \<lparr>cor_success = success,
                        cor_message = (if success then ''Order canceled successfully'' else ''Order not found'')\<rparr>))))))"

section \<open>Modifying an order\<close>

definition modify_rejected :: "string \<Rightarrow> string \<Rightarrow> modify_order_response" where
  "modify_rejected order_id_str message =
     \<lparr>modr_order_id = order_id_str, modr_status = ModifyRejected, modr_new_price = None, modr_new_quantity = None,
      modr_priority_changed = False, modr_message = message\<rparr>"

definition modify_order ::
  "('m, 'o) exchange \<Rightarrow> (nat \<Rightarrow> 'o) \<Rightarrow> u64 \<Rightarrow> string \<Rightarrow> string \<Rightarrow> u64 \<Rightarrow> string \<Rightarrow> string \<Rightarrow> modify_order_request
   \<Rightarrow> ('m, 'o) app_state \<Rightarrow> ('m, 'o) app_state \<times> (api_error + modify_order_response)" where
  "modify_order X gen now underlying exp_str strike style order_id_str body st =
     (if mod_price body = None \<and> mod_quantity body = None
      then (st, Inl (InvalidRequest ''At least one of 'price' or 'quantity' must be provided''))
      else
     (case parse_option_style style of
        Inl e \<Rightarrow> (st, Inl e)
      | Inr option_style \<Rightarrow>
     (case resolve_book X (st_manager st) underlying exp_str strike option_style of
        Inl e \<Rightarrow> (st, Inl e)
      | Inr bk \<Rightarrow>
     (case x_oid_parse X order_id_str of
        None \<Rightarrow> (st, Inl (InvalidRequest (''Invalid order ID: '' @ order_id_str)))
      | Some order_id \<Rightarrow>
     (case x_order X (st_manager st) bk order_id of
        None \<Rightarrow> (st, Inl (NotFound (''Order not found: '' @ order_id_str)))
      | Some (side, current_price, current_quantity) \<Rightarrow>
         (let new_price = (case mod_price body of Some p \<Rightarrow> p | None \<Rightarrow> current_price);
              new_quantity = (case mod_quantity body of Some q \<Rightarrow> q | None \<Rightarrow> current_quantity)
          in if new_price = 0 then (st, Inl (InvalidRequest ''new price must be greater than zero''))
             else if new_quantity = 0 then (st, Inl (InvalidRequest ''new quantity must be greater than zero''))
             else
               (let (m, res) = x_cancel X (st_manager st) bk order_id;
                    st = set_manager m st
                in case res of
                     Inl err \<Rightarrow> (st, Inl (OrderBook err))
                   | Inr canceled \<Rightarrow>
                      if \<not> canceled
                      then (st, Inr (modify_rejected order_id_str ''Failed to cancel existing order for modification''))
                      else
                        (let st = st\<lparr>st_orders := dm_remove order_id_str (st_orders st)\<rparr>;
                             st = publish_level_delta X bk side current_price st;
                             (new_order_id, st) = fresh_id gen st;
                             (m, res) = x_add_limit X (st_manager st) bk new_order_id side new_price new_quantity;
                             st = set_manager m st
                         in case res of
                              Inl err \<Rightarrow> (st, Inr (modify_rejected order_id_str
                                           (''Order canceled but failed to place replacement: '' @ err)))
                            | Inr _ \<Rightarrow>
                               (let info = \<lparr>oi_order_id = x_oid_str X new_order_id,
                                      oi_symbol = option_symbol underlying exp_str strike option_style,
                                      oi_underlying = underlying, oi_expiration = exp_str, oi_strike = strike,
                                      oi_style = canonical_style option_style, oi_side = side_to_order_side side,
                                      oi_price = new_price, oi_original_quantity = new_quantity,
                                      oi_remaining_quantity = new_quantity, oi_filled_quantity = 0,
                                      oi_status = Active, oi_tif = TrackedGtc, oi_created_at_ms = now,
                                      oi_updated_at_ms = now, oi_fills = []\<rparr>;
                                    st = st\<lparr>st_orders := dm_insert (x_oid_str X new_order_id) info (st_orders st)\<rparr>;
                                    st = publish_level_delta X bk side new_price st
                                in (st, Inr \<lparr>modr_order_id = x_oid_str X new_order_id, modr_status = Modified,
                                       modr_new_price = Some new_price, modr_new_quantity = Some new_quantity,
                                       modr_priority_changed = True,
                                       modr_message = ''Order modified successfully (cancel-and-replace)''\<rparr>))))))))))"

section \<open>Market orders\<close>

definition submit_market_order ::
  "('m, 'o) exchange \<Rightarrow> (nat \<Rightarrow> 'o) \<Rightarrow> string \<Rightarrow> string \<Rightarrow> u64 \<Rightarrow> string \<Rightarrow> market_order_request
   \<Rightarrow> ('m, 'o) app_state \<Rightarrow> ('m, 'o) app_state \<times> (api_error + market_order_response \<times> f64 option)" where
  "submit_market_order X gen underlying exp_str strike style body st =
     (if mo_quantity body = 0
      then (st, Inl (InvalidRequest ''quantity must be greater than zero''))
      else
     (case parse_expiration X exp_str of
        Inl e \<Rightarrow> (st, Inl e)
      | Inr expiry \<Rightarrow>
     (case parse_option_style style of
        Inl e \<Rightarrow> (st, Inl e)
      | Inr option_style \<Rightarrow>
         (let bk = (underlying, expiry, strike, option_style);
              st = set_manager (create_book X (st_manager st) underlying expiry strike) st;
              (order_id, st) = fresh_id gen st;
              (m, res) = x_market X (st_manager st) bk order_id (mo_quantity body) (order_side_to_side (mo_side body));
              st = set_manager m st
          in case res of
               Inl err \<Rightarrow> (st, Inl (OrderBook err))
             | Inr r \<Rightarrow>
                (let filled = executed_quantity r;
                     status = (if mr_complete r then MarketFilled else if 0 < filled then MarketPartial
                               else MarketRejected);
                     st = settle_match X (option_symbol underlying exp_str strike option_style) underlying bk
                            (mo_side body) r st
                 in (st, Inr (\<lparr>mor_order_id = x_oid_str X order_id, mor_status = status,
                        mor_filled_quantity = filled, mor_remaining_quantity = mr_remaining r,
                        mor_fills = map (\<lambda>t. \<lparr>fi_price = bt_price t, fi_quantity = bt_quantity t\<rparr>) (mr_trades r)\<rparr>,
                        mr_average r)))))))"

end
