(* ===== verification/Order_Flow.thy ===== *)
theory Order_Flow
  imports Trading
begin

text \<open>
  What the order-entry handlers of \<open>Trading\<close> guarantee: which stores each of them touches,
  what a recorded match leaves in the market-data stores, that a tracked order accounts for
  its whole quantity, and that the published deltas are numbered in increasing order and report
  the quantity the book holds.
\<close>

section \<open>Frames\<close>

lemma on_order_filled_frame [simp]:
  "v_manager (on_order_filled X i p q v) = v_manager v"
  "v_next_id (on_order_filled X i p q v) = v_next_id v"
  "v_config (on_order_filled X i p q v) = v_config v"
  "v_prices (on_order_filled X i p q v) = v_prices v"
  by (simp_all add: on_order_filled_def Let_def split: option.splits)

lemma set_manager_frame [simp]:
  "st_manager (set_manager m st) = m"
  "v_next_id (st_venue (set_manager m st)) = v_next_id (st_venue st)"
  "st_orders (set_manager m st) = st_orders st"
  "st_last_trades (set_manager m st) = st_last_trades st"
  "st_positions (set_manager m st) = st_positions st"
  "st_ohlc (set_manager m st) = st_ohlc st"
  "st_executions (set_manager m st) = st_executions st"
  "st_sequences (set_manager m st) = st_sequences st"
  "st_deltas (set_manager m st) = st_deltas st"
  "st_trades (set_manager m st) = st_trades st"
  by (simp_all add: set_manager_def st_manager_def)

definition with_id :: "('m, 'o) app_state \<Rightarrow> ('m, 'o) app_state" where
  "with_id st = st\<lparr>st_venue := (st_venue st)\<lparr>v_next_id := Suc (v_next_id (st_venue st))\<rparr>\<rparr>"

lemma fresh_id_eq: "fresh_id gen st = (gen (v_next_id (st_venue st)), with_id st)"
  by (simp add: fresh_id_def new_order_id_def with_id_def)

lemma with_id_frame [simp]:
  "v_next_id (st_venue (with_id st)) = Suc (v_next_id (st_venue st))"
  "st_manager (with_id st) = st_manager st"
  "st_orders (with_id st) = st_orders st"
  "st_last_trades (with_id st) = st_last_trades st"
  "st_positions (with_id st) = st_positions st"
  "st_ohlc (with_id st) = st_ohlc st"
  "st_executions (with_id st) = st_executions st"
  "st_sequences (with_id st) = st_sequences st"
  "st_deltas (with_id st) = st_deltas st"
  "st_trades (with_id st) = st_trades st"
  by (simp_all add: with_id_def st_manager_def)

lemma publish_frame [simp]:
  "st_venue (publish_level_delta X bk s p st) = st_venue st"
  "st_manager (publish_level_delta X bk s p st) = st_manager st"
  "st_orders (publish_level_delta X bk s p st) = st_orders st"
  "st_last_trades (publish_level_delta X bk s p st) = st_last_trades st"
  "st_positions (publish_level_delta X bk s p st) = st_positions st"
  "st_ohlc (publish_level_delta X bk s p st) = st_ohlc st"
  "st_executions (publish_level_delta X bk s p st) = st_executions st"
  "st_trades (publish_level_delta X bk s p st) = st_trades st"
  by (simp_all add: publish_level_delta_def next_sequence_def Let_def st_manager_def)

lemma publish_consumed_frame [simp]:
  "st_venue (publish_consumed X bk s seen ps st) = st_venue st"
  "st_manager (publish_consumed X bk s seen ps st) = st_manager st"
  "st_orders (publish_consumed X bk s seen ps st) = st_orders st"
  "st_last_trades (publish_consumed X bk s seen ps st) = st_last_trades st"
  "st_positions (publish_consumed X bk s seen ps st) = st_positions st"
  "st_ohlc (publish_consumed X bk s seen ps st) = st_ohlc st"
  "st_executions (publish_consumed X bk s seen ps st) = st_executions st"
  "st_trades (publish_consumed X bk s seen ps st) = st_trades st"
  by (induction X bk s seen ps st rule: publish_consumed.induct) simp_all

lemma update_position_frame [simp]:
  "st_venue (update_position_on_fill s u sd q p t st) = st_venue st"
  "st_orders (update_position_on_fill s u sd q p t st) = st_orders st"
  "st_last_trades (update_position_on_fill s u sd q p t st) = st_last_trades st"
  "st_ohlc (update_position_on_fill s u sd q p t st) = st_ohlc st"
  "st_executions (update_position_on_fill s u sd q p t st) = st_executions st"
  "st_sequences (update_position_on_fill s u sd q p t st) = st_sequences st"
  "st_deltas (update_position_on_fill s u sd q p t st) = st_deltas st"
  "st_trades (update_position_on_fill s u sd q p t st) = st_trades st"
  by (simp_all add: update_position_on_fill_def Let_def)

lemma record_fill_frame [simp]:
  "st_manager (record_fill X s u sd f st) = st_manager st"
  "v_next_id (st_venue (record_fill X s u sd f st)) = v_next_id (st_venue st)"
  "st_orders (record_fill X s u sd f st) = st_orders st"
  "st_sequences (record_fill X s u sd f st) = st_sequences st"
  "st_deltas (record_fill X s u sd f st) = st_deltas st"
  by (simp_all add: record_fill_def Let_def st_manager_def split: option.splits)

lemma record_fills_frame [simp]:
  "st_manager (record_fills X s u sd fs st) = st_manager st"
  "v_next_id (st_venue (record_fills X s u sd fs st)) = v_next_id (st_venue st)"
  "st_orders (record_fills X s u sd fs st) = st_orders st"
  "st_sequences (record_fills X s u sd fs st) = st_sequences st"
  "st_deltas (record_fills X s u sd fs st) = st_deltas st"
  by (induction fs arbitrary: st) (simp_all add: record_fills_def)

lemma settle_frame [simp]:
  "st_manager (settle_match X s u bk sd r st) = st_manager st"
  "v_next_id (st_venue (settle_match X s u bk sd r st)) = v_next_id (st_venue st)"
  "st_orders (settle_match X s u bk sd r st) = st_orders st"
  by (simp_all add: settle_match_def publish_consumed_maker_deltas_def)

section \<open>Recorded fills\<close>

definition recordable :: "executed_fill \<Rightarrow> bool" where
  "recordable f \<longleftrightarrow> uint (xf_price f) < 2 ^ 64"

definition trade_event_of :: "string \<Rightarrow> executed_fill \<Rightarrow> trade_event" where
  "trade_event_of symbol f = \<lparr>te_trade_id = xf_trade_id f, te_symbol = symbol, te_price = xf_price f,
     te_quantity = xf_quantity f, te_timestamp_ms = xf_timestamp_ms f,
     te_maker_order_id = xf_maker_order_id f, te_taker_order_id = xf_taker_order_id f\<rparr>"

definition execution_of :: "string \<Rightarrow> order_side \<Rightarrow> executed_fill \<Rightarrow> execution_info" where
  "execution_of symbol side f = \<lparr>ex_execution_id = xf_trade_id f, ex_order_id = xf_taker_order_id f,
     ex_symbol = symbol, ex_side = side, ex_price = ucast (xf_price f), ex_quantity = xf_quantity f,
     ex_timestamp_ms = xf_timestamp_ms f, ex_counterparty = Some (xf_maker_order_id f),
     ex_is_maker = False, ex_fee = 0, ex_edge = None\<rparr>"

definition last_trade_of :: "string \<Rightarrow> order_side \<Rightarrow> executed_fill \<Rightarrow> last_trade_info" where
  "last_trade_of symbol side f = \<lparr>lt_symbol = symbol, lt_price = ucast (xf_price f),
     lt_quantity = xf_quantity f, lt_side = side, lt_timestamp_ms = xf_timestamp_ms f,
     lt_trade_id = xf_trade_id f\<rparr>"

definition position_after :: "string \<Rightarrow> string \<Rightarrow> order_side \<Rightarrow> executed_fill \<Rightarrow> position_info option
   \<Rightarrow> position_info option" where
  "position_after symbol underlying side f p =
     Some (case p of
             Some pos \<Rightarrow> fst (position_update pos (signed_fill_quantity side (xf_quantity f)) (xf_price f)
                               (xf_timestamp_ms f))
           | None \<Rightarrow> position_new symbol underlying (signed_fill_quantity side (xf_quantity f)) (xf_price f)
                       (xf_timestamp_ms f))"

lemma record_fill_skips: "\<not> recordable f \<Longrightarrow> record_fill X s u sd f st = st"
  by (simp add: record_fill_def recordable_def)

lemma record_fill_stores:
  assumes "recordable f"
  shows "st_last_trades (record_fill X s u sd f st) = dm_insert s (last_trade_of s sd f) (st_last_trades st)"
    and "st_executions (record_fill X s u sd f st)
           = dm_insert (xf_trade_id f) (execution_of s sd f) (st_executions st)"
    and "st_ohlc (record_fill X s u sd f st)
           = record_trade (st_ohlc st) s (xf_timestamp_ms f) (xf_price f) (xf_quantity f)"
    and "st_trades (record_fill X s u sd f st) = st_trades st @ [trade_event_of s f]"
    and "dm_get (st_positions (record_fill X s u sd f st))
           = (dm_get (st_positions st))(s := position_after s u sd f (dm_get (st_positions st) s))"
  using assms
  by (auto simp: record_fill_def recordable_def Let_def last_trade_of_def execution_of_def
      trade_event_of_def update_position_on_fill_def position_after_def store_simps fun_eq_iff
      split: option.splits)

lemma record_fills_Nil [simp]: "record_fills X s u sd [] st = st"
  by (simp add: record_fills_def)

lemma record_fills_Cons [simp]:
  "record_fills X s u sd (f # fs) st = record_fills X s u sd fs (record_fill X s u sd f st)"
  by (simp add: record_fills_def)

lemma record_fills_recordable:
  "record_fills X s u sd fs st = record_fills X s u sd (filter recordable fs) st"
  by (induction fs arbitrary: st) (simp_all add: record_fill_skips)

lemma record_fills_append:
  "record_fills X s u sd (fs @ gs) st = record_fills X s u sd gs (record_fills X s u sd fs st)"
  by (simp add: record_fills_def)

lemma record_fills_trades:
  "\<forall>f\<in>set fs. recordable f \<Longrightarrow>
   st_trades (record_fills X s u sd fs st) = st_trades st @ map (trade_event_of s) fs"
  by (induction fs arbitrary: st) (simp_all add: record_fill_stores)

lemma record_fills_last:
  "\<forall>f\<in>set fs. recordable f \<Longrightarrow>
   dm_get (st_last_trades (record_fills X s u sd fs st)) k =
     (if k = s \<and> fs \<noteq> [] then Some (last_trade_of s sd (last fs)) else dm_get (st_last_trades st) k)"
  by (induction fs arbitrary: st) (auto simp: record_fill_stores store_simps)

lemma record_fills_executions:
  "\<forall>f\<in>set fs. recordable f \<Longrightarrow>
   dm_get (st_executions (record_fills X s u sd fs st))
     = dm_get (st_executions st) ++ map_of (rev (map (\<lambda>f. (xf_trade_id f, execution_of s sd f)) fs))"
proof (induction fs arbitrary: st)
  case (Cons f fs)
  then show ?case
    by (simp add: record_fill_stores store_simps map_add_assoc [symmetric])
qed simp

lemma record_fills_ohlc:
  "\<forall>f\<in>set fs. recordable f \<Longrightarrow>
   st_ohlc (record_fills X s u sd fs st)
     = fold (\<lambda>f a. record_trade a s (xf_timestamp_ms f) (xf_price f) (xf_quantity f)) fs (st_ohlc st)"
  by (induction fs arbitrary: st) (simp_all add: record_fill_stores)

lemma record_fills_positions:
  "\<forall>f\<in>set fs. recordable f \<Longrightarrow>
   dm_get (st_positions (record_fills X s u sd fs st))
     = (dm_get (st_positions st))(s := fold (position_after s u sd) fs (dm_get (st_positions st) s))"
  by (induction fs arbitrary: st) (simp_all add: record_fill_stores)

text \<open>The net quantity a symbol's position shows.\<close>

definition net_quantity_of :: "position_info option \<Rightarrow> int" where
  "net_quantity_of p = (case p of Some pos \<Rightarrow> pos_quantity pos | None \<Rightarrow> 0)"

definition side_sign :: "order_side \<Rightarrow> int" where
  "side_sign side = (case side of Buy \<Rightarrow> 1 | Sell \<Rightarrow> - 1)"

definition filled_total :: "executed_fill list \<Rightarrow> int" where
  "filled_total fs = sum_list (map (\<lambda>f. uint (xf_quantity f)) fs)"

lemma filled_total_simps [simp]:
  "filled_total [] = 0"
  "filled_total (f # fs) = uint (xf_quantity f) + filled_total fs"
  by (simp_all add: filled_total_def)

lemma filled_total_nonneg: "0 \<le> filled_total fs"
  by (induction fs) simp_all

lemma signed_fill_small:
  assumes "uint q < 2 ^ 63"
  shows "signed_fill_quantity side q = side_sign side * uint q"
proof -
  have "in_i64 (- uint q)"
    unfolding in_i64_def using assms uint_ge_0 [of q] by linarith
  then show ?thesis
    by (simp add: signed_fill_quantity_def side_sign_def sint_small [OF assms] wrap_i64_id
        split: order_side.splits)
qed

lemma in_i64_between:
  assumes "in_i64 a" and "in_i64 (a + sg * c)" and "0 \<le> b" "b \<le> c" and "\<bar>sg\<bar> = 1"
  shows "in_i64 (a + sg * b)"
proof -
  have "sg = 1 \<or> sg = - 1" using assms(5) by arith
  then show ?thesis using assms(1-4) by (auto simp: in_i64_def)
qed

lemma position_after_net:
  assumes "uint (xf_quantity f) < 2 ^ 63"
    and "in_i64 (net_quantity_of p + side_sign sd * uint (xf_quantity f))"
  shows "net_quantity_of (position_after s u sd f p) =
           net_quantity_of p + side_sign sd * uint (xf_quantity f)"
  using assms
  by (auto simp: net_quantity_of_def position_after_def signed_fill_small position_new_def
      i64_saturating_add_id split: option.splits)

lemma positions_fold_net:
  assumes "\<forall>f\<in>set fs. uint (xf_quantity f) < 2 ^ 63"
    and "in_i64 (net_quantity_of p)" and "in_i64 (net_quantity_of p + side_sign sd * filled_total fs)"
  shows "net_quantity_of (fold (position_after s u sd) fs p) =
           net_quantity_of p + side_sign sd * filled_total fs"
  using assms
proof (induction fs arbitrary: p)
  case (Cons f fs)
  have sg: "\<bar>side_sign sd\<bar> = 1" by (simp add: side_sign_def split: order_side.splits)
  have step: "in_i64 (net_quantity_of p + side_sign sd * uint (xf_quantity f))"
    using Cons.prems sg filled_total_nonneg [of fs] by (auto intro: in_i64_between)
  then have "net_quantity_of (position_after s u sd f p) =
      net_quantity_of p + side_sign sd * uint (xf_quantity f)"
    using Cons.prems by (intro position_after_net) simp_all
  with Cons step show ?case by (simp add: algebra_simps)
qed simp

section \<open>The invariant of the state\<close>

text \<open>
  A tracked order accounts for its whole quantity: what is filled and what remains add up to
  it, except that a cancelled entry (left by a rollback) has nothing remaining. Its status
  says how much is filled.
\<close>

definition order_balanced :: "order_info \<Rightarrow> bool" where
  "order_balanced i \<longleftrightarrow>
     (if oi_status i = Canceled
      then oi_remaining_quantity i = 0 \<and> uint (oi_filled_quantity i) < uint (oi_original_quantity i)
      else uint (oi_filled_quantity i) + uint (oi_remaining_quantity i) = uint (oi_original_quantity i))
     \<and> (oi_status i = Filled \<longrightarrow> oi_remaining_quantity i = 0)
     \<and> (oi_status i = Active \<longrightarrow> oi_filled_quantity i = 0 \<and> 0 < oi_remaining_quantity i)
     \<and> (oi_status i = Partial \<longrightarrow> 0 < oi_filled_quantity i)
     \<and> oi_status i \<noteq> Pending"

definition orders_ok :: "(string, order_info) dashmap \<Rightarrow> bool" where
  "orders_ok os \<longleftrightarrow> dm_ok os \<and> (\<forall>k i. dm_get os k = Some i \<longrightarrow> oi_order_id i = k \<and> order_balanced i)"

definition orders_issued :: "('m, 'o) exchange \<Rightarrow> (nat \<Rightarrow> 'o) \<Rightarrow> ('m, 'o) app_state \<Rightarrow> bool" where
  "orders_issued X gen st \<longleftrightarrow>
     (\<forall>k. dm_get (st_orders st) k \<noteq> None \<longrightarrow> (\<exists>n < v_next_id (st_venue st). k = x_oid_str X (gen n)))"

text \<open>
  The sequence numbers of a symbol's deltas increase strictly in the order of publication. They
  need not be consecutive: the snapshot sent to a new WebSocket subscriber takes a number too.
\<close>

definition deltas_of :: "('m, 'o) app_state \<Rightarrow> string \<Rightarrow> delta_event list" where
  "deltas_of st symbol = filter (\<lambda>d. de_symbol d = symbol) (st_deltas st)"

definition issued_in_order :: "u64 list \<Rightarrow> u64 \<Rightarrow> bool" where
  "issued_in_order seqs c \<longleftrightarrow>
     (\<exists>ns m. seqs = map word_of_nat ns \<and> sorted_wrt (<) (ns @ [m]) \<and> c = word_of_nat m)"

definition deltas_numbered :: "('m, 'o) app_state \<Rightarrow> bool" where
  "deltas_numbered st \<longleftrightarrow> dm_ok (st_sequences st)
     \<and> (\<forall>symbol. issued_in_order (map de_sequence (deltas_of st symbol)) (current_sequence st symbol))"

lemma issued_in_order_Nil [simp]: "issued_in_order [] 0"
  unfolding issued_in_order_def by (rule exI [of _ "[]"], rule exI [of _ 0]) simp

lemma issued_in_order_next:
  assumes "issued_in_order seqs c"
  shows "issued_in_order (seqs @ [c]) (c + 1)" and "issued_in_order seqs (c + 1)"
proof -
  obtain ns m where ns: "seqs = map word_of_nat ns" "sorted_wrt (<) (ns @ [m])" "c = word_of_nat m"
    using assms by (auto simp: issued_in_order_def)
  then show "issued_in_order (seqs @ [c]) (c + 1)"
    unfolding issued_in_order_def
    by (intro exI [of _ "ns @ [m]"] exI [of _ "Suc m"]) (auto simp: sorted_wrt_append)
  show "issued_in_order seqs (c + 1)"
    using ns unfolding issued_in_order_def
    by (intro exI [of _ ns] exI [of _ "Suc m"]) (auto simp: sorted_wrt_append)
qed

definition positions_ok :: "(string, position_info) dashmap \<Rightarrow> bool" where
  "positions_ok ps \<longleftrightarrow> dm_ok ps \<and> (\<forall>k p. dm_get ps k = Some p \<longrightarrow> pos_symbol p = k \<and> position_wf p)"

definition executions_ok :: "(string, execution_info) dashmap \<Rightarrow> bool" where
  "executions_ok es \<longleftrightarrow> dm_ok es \<and> (\<forall>k e. dm_get es k = Some e \<longrightarrow> ex_execution_id e = k)"

definition last_trades_ok :: "(string, last_trade_info) dashmap \<Rightarrow> bool" where
  "last_trades_ok ls \<longleftrightarrow> dm_ok ls \<and> (\<forall>k l. dm_get ls k = Some l \<longrightarrow> lt_symbol l = k)"

definition app_ok :: "('m, 'o) exchange \<Rightarrow> (nat \<Rightarrow> 'o) \<Rightarrow> ('m, 'o) app_state \<Rightarrow> bool" where
  "app_ok X gen st \<longleftrightarrow> orders_ok (st_orders st) \<and> orders_issued X gen st \<and> deltas_numbered st
     \<and> positions_ok (st_positions st) \<and> executions_ok (st_executions st)
     \<and> last_trades_ok (st_last_trades st) \<and> aggregator_wf (st_ohlc st) \<and> mm_ok gen (st_venue st)"

lemma mm_ok_with_next_id:
  "mm_ok gen v \<Longrightarrow> mm_ok gen (v\<lparr>v_next_id := Suc (v_next_id v)\<rparr>)"
  using tracked_cong [of "v\<lparr>v_next_id := Suc (v_next_id v)\<rparr>" v]
    indexed_cong [of "v\<lparr>v_next_id := Suc (v_next_id v)\<rparr>" v]
  by (auto simp: mm_ok_def ids_issued_def intro: index_trim_cong less_SucI)

lemma mm_ok_manager: "mm_ok gen v \<Longrightarrow> mm_ok gen (v\<lparr>v_manager := m\<rparr>)"
  using mm_ok_cong [of gen v "v\<lparr>v_manager := m\<rparr>"] mm_ok_config [of gen v] by simp

lemma app_ok_set_manager [wf_intros]: "app_ok X gen st \<Longrightarrow> app_ok X gen (set_manager m st)"
  by (simp add: app_ok_def orders_issued_def deltas_numbered_def deltas_of_def current_sequence_def)
     (simp add: set_manager_def mm_ok_manager)

lemma app_ok_with_id [wf_intros]: "app_ok X gen st \<Longrightarrow> app_ok X gen (with_id st)"
  by (simp add: app_ok_def orders_issued_def deltas_numbered_def deltas_of_def current_sequence_def)
     (auto simp: with_id_def mm_ok_with_next_id intro: less_SucI)

lemma current_sequence_next:
  "next_sequence sy st = (current_sequence st sy,
     st\<lparr>st_sequences := dm_insert sy (current_sequence st sy + 1) (st_sequences st)\<rparr>)"
  by (simp add: next_sequence_def current_sequence_def Let_def)

lemma deltas_numbered_publish [wf_intros]:
  assumes "deltas_numbered st"
  shows "deltas_numbered (publish_level_delta X bk s p st)"
proof -
  define sy where "sy = x_symbol X (st_manager st) bk"
  define st' where "st' = publish_level_delta X bk s p st"
  obtain d where d: "st_deltas st' = st_deltas st @ [d]" "de_symbol d = sy" "de_sequence d = current_sequence st sy"
    and seqs: "st_sequences st' = dm_insert sy (current_sequence st sy + 1) (st_sequences st)"
    by (auto simp: st'_def publish_level_delta_def current_sequence_next Let_def sy_def build_level_delta_def)
  have "dm_ok (st_sequences st')"
    using assms by (simp add: seqs deltas_numbered_def dm_ok_insert)
  moreover have "issued_in_order (map de_sequence (deltas_of st' k)) (current_sequence st' k)" for k
    using assms d issued_in_order_next
    by (auto simp: deltas_numbered_def deltas_of_def current_sequence_def seqs store_simps)
  ultimately show ?thesis by (simp add: deltas_numbered_def st'_def)
qed

lemma app_ok_publish [wf_intros]: "app_ok X gen st \<Longrightarrow> app_ok X gen (publish_level_delta X bk s p st)"
  by (simp add: app_ok_def orders_issued_def deltas_numbered_publish)

lemma app_ok_publish_consumed [wf_intros]:
  "app_ok X gen st \<Longrightarrow> app_ok X gen (publish_consumed X bk s seen ps st)"
  by (induction X bk s seen ps st rule: publish_consumed.induct) (simp_all add: app_ok_publish)

lemma in_i64_signed_fill: "in_i64 (signed_fill_quantity side q)"
  by (simp add: signed_fill_quantity_def in_i64_sint in_i64_wrap split: order_side.splits)

lemma positions_ok_fill:
  assumes "positions_ok (st_positions st)"
  shows "positions_ok (st_positions (update_position_on_fill s u sd q p t st))"
  using assms
  by (auto simp: positions_ok_def update_position_on_fill_def Let_def store_simps dm_ok_insert
      position_update_wf position_new_wf in_i64_signed_fill split: option.splits)
     (auto simp: position_new_def)

lemma app_ok_record_fill [wf_intros]:
  assumes "app_ok X gen st"
  shows "app_ok X gen (record_fill X s u sd f st)"
proof (cases "recordable f")
  case True
  have "positions_ok (st_positions (record_fill X s u sd f st))"
    using assms positions_ok_fill [of st s u sd "xf_quantity f" "xf_price f" "xf_timestamp_ms f"] True
    by (auto simp: record_fill_def recordable_def Let_def app_ok_def split: option.splits)
  moreover have "mm_ok gen (st_venue (record_fill X s u sd f st))"
    using assms True
    by (auto simp: record_fill_def recordable_def Let_def app_ok_def mm_ok_filled split: option.splits)
  ultimately show ?thesis
    using assms True
    by (simp add: app_ok_def orders_issued_def deltas_numbered_def deltas_of_def current_sequence_def
        record_fill_stores executions_ok_def last_trades_ok_def store_simps dm_ok_insert aggregator_wf_record)
       (auto simp: execution_of_def last_trade_of_def)
qed (simp add: assms record_fill_skips)

lemma app_ok_record_fills [wf_intros]:
  "app_ok X gen st \<Longrightarrow> app_ok X gen (record_fills X s u sd fs st)"
  by (induction fs arbitrary: st) (simp_all add: app_ok_record_fill)

lemma app_ok_settle [wf_intros]:
  "app_ok X gen st \<Longrightarrow> app_ok X gen (settle_match X s u bk sd r st)"
  by (simp add: settle_match_def publish_consumed_maker_deltas_def app_ok_publish_consumed app_ok_record_fills)

lemma app_ok_track [wf_intros]:
  assumes "app_ok X gen st" and "order_balanced i" and "oi_order_id i = k"
    and "\<exists>n < v_next_id (st_venue st). k = x_oid_str X (gen n)"
  shows "app_ok X gen (st\<lparr>st_orders := dm_insert k i (st_orders st)\<rparr>)"
  using assms
  by (auto simp: app_ok_def orders_ok_def orders_issued_def store_simps dm_ok_insert
      deltas_numbered_def deltas_of_def current_sequence_def)

lemma app_ok_untrack [wf_intros]:
  assumes "app_ok X gen st"
  shows "app_ok X gen (st\<lparr>st_orders := dm_remove k (st_orders st)\<rparr>)"
  using assms
  by (auto simp: app_ok_def orders_ok_def orders_issued_def store_simps dm_ok_remove
      deltas_numbered_def deltas_of_def current_sequence_def split: if_splits)

lemma app_ok_new: "app_ok X gen (app_new m)"
  by (simp add: app_ok_def app_new_def orders_ok_def orders_issued_def deltas_numbered_def deltas_of_def
      current_sequence_def positions_ok_def executions_ok_def last_trades_ok_def aggregator_wf_def
      aggregator_new_def dm_ok_def mm_ok_new)

section \<open>The handlers keep the invariant\<close>

lemma conserves_tif:
  "conserves_quantity X \<Longrightarrow> x_add_tif X m bk i s p q t = (m', Inr r) \<Longrightarrow> result_conserves q r"
  unfolding conserves_quantity_def by blast

lemma conserves_full:
  "conserves_quantity X \<Longrightarrow> x_add_full X m bk i s p q = (m', Inr r) \<Longrightarrow> result_conserves q r"
  unfolding conserves_quantity_def by blast

lemma balanced_of_result:
  assumes cons: "result_conserves (oi_original_quantity i) r"
    and i: "oi_filled_quantity i = executed_quantity r" "oi_remaining_quantity i = mr_remaining r"
      "oi_status i = tracked_status r"
  shows "order_balanced i"
proof -
  have tot: "uint (executed_quantity r) + uint (mr_remaining r) = uint (oi_original_quantity i)"
    and compl: "mr_complete r \<longleftrightarrow> mr_remaining r = 0"
    using cons by (simp_all add: result_conserves_def executed_quantity_def)
  consider "mr_complete r" | "\<not> mr_complete r" "executed_quantity r = 0"
    | "\<not> mr_complete r" "0 < executed_quantity r"
    using word_neq_0_conv by blast
  then show ?thesis
    by cases (use tot compl i in \<open>auto simp: order_balanced_def tracked_status_def word_gt_0\<close>)
qed

text \<open>The four outcomes of adding an order.\<close>

lemma add_order_cases:
  assumes "add_order X gen gtd now u e k sty body st = (st', res)"
  obtains
    (refused) err where "st' = st" "res = Inl err"
  | (failed) ex m err where "st' = set_manager m (with_id (set_manager (create_book X (st_manager st) u ex k) st))"
      "res = Inl (OrderBook err)"
  | (rejected) ex m resp where "st' = set_manager m (with_id (set_manager (create_book X (st_manager st) u ex k) st))"
      "res = Inr resp" "aor_status resp = LimitRejected" "aor_filled_quantity resp = 0"
      "aor_remaining_quantity resp = ao_quantity body"
  | (accepted) ex os tif m r info resp where
      "st' = publish_resting X (u, ex, k, os) (order_side_to_side (ao_side body)) (ao_price body) r
         (settle_match X (option_symbol u e k os) u (u, ex, k, os) (ao_side body) r
           ((set_manager m (with_id (set_manager (create_book X (st_manager st) u ex k) st)))
             \<lparr>st_orders := dm_insert (oi_order_id info) info (st_orders st)\<rparr>))"
      "res = Inr resp"
      "parse_expiration X e = Inr ex" "parse_option_style sty = Inr os"
      "x_add_tif X (create_book X (st_manager st) u ex k) (u, ex, k, os) (gen (v_next_id (st_venue st)))
         (order_side_to_side (ao_side body)) (ao_price body) (ao_quantity body) tif = (m, Inr r)"
      "oi_order_id info = x_oid_str X (gen (v_next_id (st_venue st)))"
      "oi_original_quantity info = ao_quantity body" "oi_price info = ao_price body"
      "oi_filled_quantity info = executed_quantity r" "oi_remaining_quantity info = mr_remaining r"
      "oi_status info = tracked_status r" "oi_fills info = order_fills_of r"
      "oi_side info = side_to_order_side (order_side_to_side (ao_side body))"
      "oi_style info = canonical_style os" "oi_expiration info = format_expiration X ex"
      "oi_underlying info = u" "oi_strike info = k" "aor_order_id resp = oi_order_id info"
      "aor_filled_quantity resp = executed_quantity r" "aor_remaining_quantity resp = mr_remaining r"
      "aor_status resp = (if mr_complete r then LimitFilled else if 0 < executed_quantity r then LimitPartial
         else LimitAccepted)"
proof (cases "parse_expiration X e")
  case (Inl err)
  then show ?thesis by (intro refused [of err]) (use assms in \<open>simp_all add: add_order_def\<close>)
next
  case ex: (Inr ex)
  show ?thesis
  proof (cases "parse_option_style sty")
    case (Inl err)
    then show ?thesis by (intro refused [of err]) (use assms ex in \<open>simp_all add: add_order_def\<close>)
  next
    case os: (Inr os)
    define atif where "atif = (case ao_tif body of Some t \<Rightarrow> t | None \<Rightarrow> ApiGtc)"
    show ?thesis
    proof (cases "to_book_tif X atif (ao_expire_at body) gtd")
      case (Inl err)
      then show ?thesis
        by (intro refused [of err]) (use assms ex os in \<open>simp_all add: add_order_def Let_def atif_def\<close>)
    next
      case tif: (Inr tif)
      obtain m mres where add: "x_add_tif X (create_book X (st_manager st) u ex k) (u, ex, k, os)
          (gen (v_next_id (st_venue st))) (order_side_to_side (ao_side body)) (ao_price body)
          (ao_quantity body) tif = (m, mres)" by fastforce
      note run = assms [unfolded add_order_def Let_def, simplified ex os tif atif_def [symmetric] add fresh_id_eq
          sum.case prod.case set_manager_frame with_id_frame]
      show ?thesis
      proof (cases mres)
        case (Inl err)
        note run = run [unfolded Inl sum.case]
        show ?thesis
        proof (cases "contains_str err ''InsufficientLiquidity'' \<or> contains_str err ''insufficient''")
          case True
          note run = run [unfolded if_P [OF True]]
          show ?thesis
            by (rule rejected [OF run [THEN arg_cong [where f = fst], THEN sym, unfolded fst_conv]
                  run [THEN arg_cong [where f = snd], THEN sym, unfolded snd_conv]]) simp_all
        next
          case False
          note run = run [unfolded if_not_P [OF False]]
          show ?thesis
            by (rule failed [OF run [THEN arg_cong [where f = fst], THEN sym, unfolded fst_conv]
                  run [THEN arg_cong [where f = snd], THEN sym, unfolded snd_conv]])
        qed
      next
        case (Inr r)
        note run = run [unfolded Inr sum.case]
        define info where "info = \<lparr>oi_order_id = x_oid_str X (gen (v_next_id (st_venue st))),
              oi_symbol = option_symbol u (format_expiration X ex) k os, oi_underlying = u,
              oi_expiration = format_expiration X ex, oi_strike = k, oi_style = canonical_style os,
              oi_side = side_to_order_side (order_side_to_side (ao_side body)), oi_price = ao_price body,
              oi_original_quantity = ao_quantity body, oi_remaining_quantity = mr_remaining r,
              oi_filled_quantity = executed_quantity r, oi_status = tracked_status r, oi_tif = tracked_tif atif,
              oi_created_at_ms = now, oi_updated_at_ms = now, oi_fills = order_fills_of r\<rparr>"
        have st': "st' = publish_resting X (u, ex, k, os) (order_side_to_side (ao_side body)) (ao_price body) r
           (settle_match X (option_symbol u e k os) u (u, ex, k, os) (ao_side body) r
           ((set_manager m (with_id (set_manager (create_book X (st_manager st) u ex k) st)))
             \<lparr>st_orders := dm_insert (oi_order_id info) info (st_orders st)\<rparr>))"
          using run [THEN arg_cong [where f = fst]] by (simp add: info_def)
        show ?thesis
          by (rule accepted [OF st' run [THEN arg_cong [where f = snd], THEN sym, unfolded snd_conv] ex os
                add [unfolded Inr]]) (simp_all add: info_def)
      qed
    qed
  qed
qed

lemma app_ok_publish_resting [wf_intros]:
  "app_ok X gen st \<Longrightarrow> app_ok X gen (publish_resting X bk s p r st)"
  by (simp add: publish_resting_def app_ok_publish)

lemma publish_resting_frame [simp]:
  "st_venue (publish_resting X bk s p r st) = st_venue st"
  "st_manager (publish_resting X bk s p r st) = st_manager st"
  "st_orders (publish_resting X bk s p r st) = st_orders st"
  "st_last_trades (publish_resting X bk s p r st) = st_last_trades st"
  "st_positions (publish_resting X bk s p r st) = st_positions st"
  "st_ohlc (publish_resting X bk s p r st) = st_ohlc st"
  "st_executions (publish_resting X bk s p r st) = st_executions st"
  "st_trades (publish_resting X bk s p r st) = st_trades st"
  by (simp_all add: publish_resting_def)

text \<open>Tracking the order of the next id in any state that has just issued it.\<close>

lemma app_ok_track_next:
  assumes "app_ok X gen st" and "order_balanced i" and "oi_order_id i = x_oid_str X (gen n)"
    and "n < v_next_id (st_venue st)"
  shows "app_ok X gen (st\<lparr>st_orders := dm_insert (oi_order_id i) i (st_orders st)\<rparr>)"
  using assms by (intro app_ok_track) auto

lemma app_ok_add_order:
  assumes X: "conserves_quantity X" and ok: "app_ok X gen st"
    and run: "add_order X gen gtd now u e k sty body st = (st', res)"
  shows "app_ok X gen st'"
  using run
proof (cases rule: add_order_cases)
  case refused
  with ok show ?thesis by simp
next
  case failed
  with ok show ?thesis by (auto intro!: wf_intros)
next
  case rejected
  with ok show ?thesis by (auto intro!: wf_intros)
next
  case (accepted ex os tif m r info resp)
  let ?st = "set_manager m (with_id (set_manager (create_book X (st_manager st) u ex k) st))"
  have "app_ok X gen ?st" using ok by (intro wf_intros)
  moreover have "order_balanced info"
    using accepted conserves_tif [OF X accepted(5)] by (intro balanced_of_result) simp_all
  ultimately have "app_ok X gen (?st\<lparr>st_orders := dm_insert (oi_order_id info) info (st_orders ?st)\<rparr>)"
    using accepted(6)
    by (intro app_ok_track_next [where i = info and n = "v_next_id (st_venue st)"]) simp_all
  then show ?thesis unfolding accepted(1) by (intro wf_intros) simp
qed


text \<open>The outcomes of a cancellation.\<close>

lemma cancel_order_cases:
  assumes "cancel_order X now u e k sty oid st = (st', res)"
  obtains
    (refused) err where "st' = st" "res = Inl err"
  | (failed) m err where "st' = set_manager m st" "res = Inl (OrderBook err)"
  | (cancelled) os bk i m resp where "parse_option_style sty = Inr os"
      "resolve_book X (st_manager st) u e k os = Inr bk" "x_oid_parse X oid = Some i"
      "x_cancel X (st_manager st) bk i = (m, Inr True)" "res = Inr resp" "cor_success resp"
      "st' = (case x_order X (st_manager st) bk i of
                Some (side, price, _) \<Rightarrow> publish_level_delta X bk side price
                  ((set_manager m st)\<lparr>st_orders := dm_remove oid (st_orders st)\<rparr>)
              | None \<Rightarrow> (set_manager m st)\<lparr>st_orders := dm_remove oid (st_orders st)\<rparr>)"
  | (not_resting) os bk i m resp where "parse_option_style sty = Inr os"
      "resolve_book X (st_manager st) u e k os = Inr bk" "x_oid_parse X oid = Some i"
      "x_cancel X (st_manager st) bk i = (m, Inr False)" "res = Inr resp" "\<not> cor_success resp"
      "st' = (case dm_get (st_orders st) oid of
                Some i \<Rightarrow> (set_manager m st)\<lparr>st_orders := dm_insert oid
                  (i\<lparr>oi_filled_quantity := oi_original_quantity i, oi_remaining_quantity := 0,
                     oi_status := Filled, oi_updated_at_ms := now\<rparr>) (st_orders st)\<rparr>
              | None \<Rightarrow> set_manager m st)"
proof (cases "parse_option_style sty")
  case (Inl err)
  then show ?thesis by (intro refused [of err]) (use assms in \<open>simp_all add: cancel_order_def\<close>)
next
  case os: (Inr os)
  show ?thesis
  proof (cases "resolve_book X (st_manager st) u e k os")
    case (Inl err)
    then show ?thesis by (intro refused [of err]) (use assms os in \<open>simp_all add: cancel_order_def\<close>)
  next
    case bk: (Inr bk)
    show ?thesis
    proof (cases "x_oid_parse X oid")
      case None
      then show ?thesis
        by (intro refused [of "InvalidRequest (''Invalid order ID: '' @ oid)"])
          (use assms os bk in \<open>simp_all add: cancel_order_def\<close>)
    next
      case i: (Some i)
      obtain m cres where can: "x_cancel X (st_manager st) bk i = (m, cres)" by fastforce
      note run = assms [unfolded cancel_order_def Let_def, simplified os bk i can sum.case prod.case
          option.case set_manager_frame]
      show ?thesis
      proof (cases cres)
        case (Inl err)
        show ?thesis by (rule failed [of m err]) (use run Inl in simp_all)
      next
        case (Inr b)
        show ?thesis
        proof (cases b)
          case True
          have can: "x_cancel X (st_manager st) bk i = (m, Inr True)" using can Inr True by simp
          show ?thesis
            by (rule cancelled [OF os bk i can, of "\<lparr>cor_success = True,
                  cor_message = ''Order canceled successfully''\<rparr>"])
              (use run Inr True in \<open>auto split: option.splits\<close>)
        next
          case False
          have can: "x_cancel X (st_manager st) bk i = (m, Inr False)" using can Inr False by simp
          show ?thesis
            by (rule not_resting [OF os bk i can, of "\<lparr>cor_success = False,
                  cor_message = ''Order not found''\<rparr>"])
              (use run Inr False in \<open>auto split: option.splits\<close>)
        qed
      qed
    qed
  qed
qed

lemma balanced_all_filled:
  "order_balanced (i\<lparr>oi_filled_quantity := oi_original_quantity i, oi_remaining_quantity := 0,
     oi_status := Filled, oi_updated_at_ms := now\<rparr>)"
  by (simp add: order_balanced_def)

lemma app_ok_order_known:
  assumes "app_ok X gen st" and "dm_get (st_orders st) k = Some i"
  shows "oi_order_id i = k" and "order_balanced i" and "\<exists>n < v_next_id (st_venue st). k = x_oid_str X (gen n)"
  using assms by (auto simp: app_ok_def orders_ok_def orders_issued_def)

lemma app_ok_mark_filled [wf_intros]:
  assumes ok: "app_ok X gen st" and i: "dm_get (st_orders st) k = Some i"
  shows "app_ok X gen (st\<lparr>st_orders := dm_insert k (i\<lparr>oi_filled_quantity := oi_original_quantity i,
    oi_remaining_quantity := 0, oi_status := Filled, oi_updated_at_ms := now\<rparr>) (st_orders st)\<rparr>)"
  using app_ok_order_known [OF assms] by (intro app_ok_track [OF ok balanced_all_filled]) simp_all

lemma app_ok_cancel_order:
  assumes ok: "app_ok X gen st" and run: "cancel_order X now u e k sty oid st = (st', res)"
  shows "app_ok X gen st'"
proof -
  have mgr: "app_ok X gen (set_manager m st)" for m using ok by (rule app_ok_set_manager)
  show ?thesis
    using run
  proof (cases rule: cancel_order_cases)
    case (cancelled os bk i m)
    then show ?thesis
      using app_ok_untrack [OF mgr [of m], of oid] by (auto intro: app_ok_publish split: option.splits)
  next
    case (not_resting os bk i m)
    then show ?thesis
      using mgr [of m] app_ok_mark_filled [OF mgr [of m], of oid _ now] by (auto split: option.splits)
  qed (use ok mgr in simp_all)
qed


text \<open>The outcomes of a modification. \<open>dropped\<close> is the state once the old order is cancelled.\<close>

definition dropped ::
  "('m, 'o) exchange \<Rightarrow> book_key \<Rightarrow> book_side \<Rightarrow> u128 \<Rightarrow> string \<Rightarrow> 'm \<Rightarrow> ('m, 'o) app_state
   \<Rightarrow> ('m, 'o) app_state" where
  "dropped X bk side price oid m st = with_id (publish_level_delta X bk side price
     ((set_manager m st)\<lparr>st_orders := dm_remove oid (st_orders st)\<rparr>))"

lemma dropped_frame [simp]:
  "st_manager (dropped X bk side price oid m st) = m"
  "v_next_id (st_venue (dropped X bk side price oid m st)) = Suc (v_next_id (st_venue st))"
  "st_orders (dropped X bk side price oid m st) = dm_remove oid (st_orders st)"
  by (simp_all add: dropped_def)
    (simp add: st_manager_def set_manager_def)

lemma app_ok_dropped [wf_intros]: "app_ok X gen st \<Longrightarrow> app_ok X gen (dropped X bk side price oid m st)"
  using app_ok_untrack [OF app_ok_set_manager, of X gen st oid m]
  by (simp add: dropped_def app_ok_with_id app_ok_publish)

lemma modify_order_cases:
  assumes "modify_order X gen now u e k sty oid body st = (st', res)"
  obtains
    (refused) err where "st' = st" "res = Inl err"
  | (failed) m err where "st' = set_manager m st" "res = Inl (OrderBook err)"
  | (kept) m resp where "st' = set_manager m st" "res = Inr resp" "modr_status resp = ModifyRejected"
  | (lost) os bk i side p q m m' resp where "parse_option_style sty = Inr os"
      "resolve_book X (st_manager st) u e k os = Inr bk" "x_oid_parse X oid = Some i"
      "x_order X (st_manager st) bk i = Some (side, p, q)" "x_cancel X (st_manager st) bk i = (m, Inr True)"
      "st' = set_manager m' (dropped X bk side p oid m st)" "res = Inr resp" "modr_status resp = ModifyRejected"
  | (replaced) os bk i side p q np nq m m' info resp where "parse_option_style sty = Inr os"
      "resolve_book X (st_manager st) u e k os = Inr bk" "x_oid_parse X oid = Some i"
      "x_order X (st_manager st) bk i = Some (side, p, q)"
      "np = (case mod_price body of Some p \<Rightarrow> p | None \<Rightarrow> p)"
      "nq = (case mod_quantity body of Some q \<Rightarrow> q | None \<Rightarrow> q)" "np \<noteq> 0" "nq \<noteq> 0"
      "x_cancel X (st_manager st) bk i = (m, Inr True)"
      "x_add_limit X m bk (gen (v_next_id (st_venue st))) side np nq = (m', Inr ())"
      "oi_order_id info = x_oid_str X (gen (v_next_id (st_venue st)))"
      "oi_original_quantity info = nq" "oi_remaining_quantity info = nq" "oi_filled_quantity info = 0"
      "oi_price info = np" "oi_status info = Active" "oi_side info = side_to_order_side side"
      "st' = publish_level_delta X bk side np ((set_manager m' (dropped X bk side p oid m st))
         \<lparr>st_orders := dm_insert (oi_order_id info) info (dm_remove oid (st_orders st))\<rparr>)"
      "res = Inr resp" "modr_status resp = Modified" "modr_order_id resp = oi_order_id info"
proof (cases "mod_price body = None \<and> mod_quantity body = None")
  case True
  then show ?thesis
    by (intro refused [of "InvalidRequest ''At least one of 'price' or 'quantity' must be provided''"])
      (use assms in \<open>simp_all add: modify_order_def\<close>)
next
  case some: False
  note run = assms [unfolded modify_order_def if_not_P [OF some]]
  show ?thesis
  proof (cases "parse_option_style sty")
    case (Inl err)
    then show ?thesis by (intro refused [of err]) (use run in simp_all)
  next
    case os: (Inr os)
    show ?thesis
    proof (cases "resolve_book X (st_manager st) u e k os")
      case (Inl err)
      then show ?thesis by (intro refused [of err]) (use run os in simp_all)
    next
      case bk: (Inr bk)
      show ?thesis
      proof (cases "x_oid_parse X oid")
        case None
        then show ?thesis
          by (intro refused [of "InvalidRequest (''Invalid order ID: '' @ oid)"]) (use run os bk in simp_all)
      next
        case i: (Some i)
        show ?thesis
        proof (cases "x_order X (st_manager st) bk i")
          case None
          then show ?thesis
            by (intro refused [of "NotFound (''Order not found: '' @ oid)"]) (use run os bk i in simp_all)
        next
          case (Some entry)
          then obtain side p q where order: "x_order X (st_manager st) bk i = Some (side, p, q)"
            by (cases entry) auto
          define np where "np = (case mod_price body of Some p \<Rightarrow> p | None \<Rightarrow> p)"
          define nq where "nq = (case mod_quantity body of Some q \<Rightarrow> q | None \<Rightarrow> q)"
          obtain m cres where can: "x_cancel X (st_manager st) bk i = (m, cres)" by fastforce
          obtain m' ares where add: "x_add_limit X m bk (gen (v_next_id (st_venue st))) side np nq = (m', ares)"
            by fastforce
          note run = run [simplified os bk i order can Let_def np_def [symmetric] nq_def [symmetric]
              sum.case prod.case option.case]
          show ?thesis
          proof (cases "np = 0 \<or> nq = 0")
            case True
            then show ?thesis
              by (intro refused [of "if np = 0 then InvalidRequest ''new price must be greater than zero''
                    else InvalidRequest ''new quantity must be greater than zero''"])
                (use run in \<open>auto split: if_splits\<close>)
          next
            case pos: False
            then have pos: "np \<noteq> 0" "nq \<noteq> 0" by auto
            note run = run [unfolded if_not_P [OF pos(1)] if_not_P [OF pos(2)]]
            consider (err) err where "cres = Inl err" | (no) "cres = Inr False" | (yes) "cres = Inr True"
              by (cases cres) auto
            then show ?thesis
            proof cases
              case (err err)
              show ?thesis by (rule failed [of m err]) (use run err in simp_all)
            next
              case no
              show ?thesis
                by (rule kept [of m "modify_rejected oid ''Failed to cancel existing order for modification''"])
                  (use run no in \<open>simp_all add: modify_rejected_def\<close>)
            next
              case yes
              note can = can [unfolded yes]
              have mgr: "st_manager ((set_manager m st)\<lparr>st_orders := os\<rparr>) = m" for os
                by (simp add: st_manager_def set_manager_def)
              note run = run [simplified yes sum.case fresh_id_eq prod.case, simplified mgr add
                  set_manager_frame with_id_frame publish_frame prod.case, folded dropped_def]
              show ?thesis
              proof (cases ares)
                case (Inl err)
                show ?thesis
                  by (rule lost [OF os bk i order can, of m'
                        "modify_rejected oid (''Order canceled but failed to place replacement: '' @ err)"])
                    (use run Inl add in \<open>simp_all add: modify_rejected_def dropped_def\<close>)
              next
                case (Inr unit)
                define info where "info = \<lparr>oi_order_id = x_oid_str X (gen (v_next_id (st_venue st))),
                  oi_symbol = option_symbol u e k os, oi_underlying = u, oi_expiration = e, oi_strike = k,
                  oi_style = canonical_style os, oi_side = side_to_order_side side, oi_price = np,
                  oi_original_quantity = nq, oi_remaining_quantity = nq, oi_filled_quantity = 0,
                  oi_status = Active, oi_tif = TrackedGtc, oi_created_at_ms = now, oi_updated_at_ms = now,
                  oi_fills = []\<rparr>"
                have add: "x_add_limit X m bk (gen (v_next_id (st_venue st))) side np nq = (m', Inr ())"
                  using add Inr by simp
                show ?thesis
                  by (rule replaced [OF os bk i order np_def nq_def pos can add, of info])
                    (use run add in \<open>auto simp: info_def dropped_def\<close>)
              qed
            qed
          qed
        qed
      qed
    qed
  qed
qed


lemma app_ok_modify_order:
  assumes ok: "app_ok X gen st" and run: "modify_order X gen now u e k sty oid body st = (st', res)"
  shows "app_ok X gen st'"
  using run
proof (cases rule: modify_order_cases)
  case (replaced os bk i side p q np nq m m' info resp)
  let ?st = "set_manager m' (dropped X bk side p oid m st)"
  have "app_ok X gen ?st" using ok by (intro wf_intros)
  moreover have "order_balanced info" using replaced by (simp add: order_balanced_def word_gt_0)
  ultimately have "app_ok X gen (?st\<lparr>st_orders := dm_insert (oi_order_id info) info (st_orders ?st)\<rparr>)"
    using replaced(11)
    by (intro app_ok_track_next [where i = info and n = "v_next_id (st_venue st)"]) simp_all
  then show ?thesis unfolding replaced(18) by (intro app_ok_publish) simp
qed (use ok in \<open>auto intro!: wf_intros\<close>)

text \<open>The outcomes of a market order.\<close>

lemma market_order_cases:
  assumes "submit_market_order X gen u e k sty body st = (st', res)"
  obtains
    (refused) err where "st' = st" "res = Inl err"
  | (failed) ex m err where "st' = set_manager m (with_id (set_manager (create_book X (st_manager st) u ex k) st))"
      "res = Inl (OrderBook err)"
  | (matched) ex os m r resp where "mo_quantity body \<noteq> 0" "parse_expiration X e = Inr ex" "parse_option_style sty = Inr os"
      "x_market X (create_book X (st_manager st) u ex k) (u, ex, k, os) (gen (v_next_id (st_venue st)))
         (mo_quantity body) (order_side_to_side (mo_side body)) = (m, Inr r)"
      "st' = settle_match X (option_symbol u e k os) u (u, ex, k, os) (mo_side body) r
         (set_manager m (with_id (set_manager (create_book X (st_manager st) u ex k) st)))"
      "res = Inr (resp, mr_average r)" "mor_filled_quantity resp = executed_quantity r"
      "mor_remaining_quantity resp = mr_remaining r"
      "mor_status resp = (if mr_complete r then MarketFilled else if 0 < executed_quantity r then MarketPartial
         else MarketRejected)"
proof (cases "mo_quantity body = 0")
  case True
  then show ?thesis
    by (intro refused [of "InvalidRequest ''quantity must be greater than zero''"])
      (use assms in \<open>simp_all add: submit_market_order_def\<close>)
next
  case pos: False
  note run = assms [unfolded submit_market_order_def if_not_P [OF pos]]
  show ?thesis
  proof (cases "parse_expiration X e")
    case (Inl err)
    then show ?thesis by (intro refused [of err]) (use run in simp_all)
  next
    case ex: (Inr ex)
    show ?thesis
    proof (cases "parse_option_style sty")
      case (Inl err)
      then show ?thesis by (intro refused [of err]) (use run ex in simp_all)
    next
      case os: (Inr os)
      obtain m mres where mkt: "x_market X (create_book X (st_manager st) u ex k) (u, ex, k, os)
         (gen (v_next_id (st_venue st))) (mo_quantity body) (order_side_to_side (mo_side body)) = (m, mres)"
        by fastforce
      note run = run [unfolded Let_def, simplified ex os fresh_id_eq mkt sum.case prod.case
          set_manager_frame with_id_frame]
      show ?thesis
      proof (cases mres)
        case (Inl err)
        show ?thesis by (rule failed [of m ex err]) (use run Inl in simp_all)
      next
        case (Inr r)
        have mkt: "x_market X (create_book X (st_manager st) u ex k) (u, ex, k, os)
            (gen (v_next_id (st_venue st))) (mo_quantity body) (order_side_to_side (mo_side body)) = (m, Inr r)"
          using mkt Inr by simp
        show ?thesis
          by (rule matched [OF pos ex os mkt, of "\<lparr>mor_order_id = x_oid_str X (gen (v_next_id (st_venue st))),
                mor_status = (if mr_complete r then MarketFilled else if 0 < executed_quantity r then MarketPartial
                   else MarketRejected), mor_filled_quantity = executed_quantity r,
                mor_remaining_quantity = mr_remaining r,
                mor_fills = map (\<lambda>t. \<lparr>fi_price = bt_price t, fi_quantity = bt_quantity t\<rparr>) (mr_trades r)\<rparr>"])
            (use run Inr in simp_all)
      qed
    qed
  qed
qed

lemma app_ok_market_order:
  assumes ok: "app_ok X gen st" and run: "submit_market_order X gen u e k sty body st = (st', res)"
  shows "app_ok X gen st'"
  using run by (cases rule: market_order_cases) (use ok in \<open>auto intro!: wf_intros\<close>)

section \<open>Deltas of a match\<close>

definition delta_of :: "('m, 'o) exchange \<Rightarrow> 'm \<Rightarrow> book_key \<Rightarrow> book_side \<Rightarrow> u128 \<Rightarrow> delta_event \<Rightarrow> bool" where
  "delta_of X m bk side price d \<longleftrightarrow> de_symbol d = x_symbol X m bk \<and> de_side d = resting_side_str side
     \<and> de_price d = price \<and> de_quantity d = level_visible_quantity X m bk side price"

lemma publish_delta:
  obtains d where "st_deltas (publish_level_delta X bk side p st) = st_deltas st @ [d]"
    and "delta_of X (st_manager st) bk side p d"
  by (auto simp: publish_level_delta_def current_sequence_next Let_def delta_of_def build_level_delta_def)

text \<open>The prices a run of trades touches, each once, in order of first appearance.\<close>

fun first_seen :: "'a list \<Rightarrow> 'a list \<Rightarrow> 'a list" where
  "first_seen seen [] = []"
| "first_seen seen (p # ps) =
     (if p \<in> set seen then first_seen seen ps else p # first_seen (seen @ [p]) ps)"

lemma set_first_seen: "set (first_seen seen ps) = set ps - set seen"
  by (induction seen ps rule: first_seen.induct) auto

lemma distinct_first_seen: "distinct (first_seen seen ps)"
  by (induction seen ps rule: first_seen.induct) (auto simp: set_first_seen)

lemma publish_consumed_deltas:
  "\<exists>ds. st_deltas (publish_consumed X bk side seen ps st) = st_deltas st @ ds
     \<and> list_all2 (delta_of X (st_manager st) bk side) (first_seen seen ps) ds"
proof (induction X bk side seen ps st rule: publish_consumed.induct)
  case (2 X bk side seen p ps st)
  show ?case
  proof (cases "p \<in> set seen")
    case True
    with 2(1) show ?thesis by simp
  next
    case False
    obtain d where d: "st_deltas (publish_level_delta X bk side p st) = st_deltas st @ [d]"
      "delta_of X (st_manager st) bk side p d" by (rule publish_delta)
    obtain ds where "st_deltas (publish_consumed X bk side seen (p # ps) st) = st_deltas st @ d # ds"
      "list_all2 (delta_of X (st_manager st) bk side) (first_seen (seen @ [p]) ps) ds"
      using 2(2) [OF False] False d(1) by auto
    with False d(2) show ?thesis by (intro exI [of _ "d # ds"]) simp
  qed
qed simp

text \<open>
  The levels a match changes: each maker price once on the side opposite to the taker, and
  the order's own level when a remainder rests.
\<close>

definition touched_levels :: "book_side \<Rightarrow> u128 \<Rightarrow> match_result \<Rightarrow> (book_side \<times> u128) set" where
  "touched_levels side price r =
     (if 0 < executed_quantity r then {(opposite side, bt_price t) | t. t \<in> set (mr_trades r)} else {})
     \<union> (if 0 < mr_remaining r then {(side, price)} else {})"

text \<open>\<open>new_deltas X m bk levels ds\<close>: one delta for each level, with the quantity the book holds.\<close>

definition new_deltas ::
  "('m, 'o) exchange \<Rightarrow> 'm \<Rightarrow> book_key \<Rightarrow> (book_side \<times> u128) set \<Rightarrow> delta_event list \<Rightarrow> bool" where
  "new_deltas X m bk levels ds \<longleftrightarrow>
     (\<exists>ls. distinct ls \<and> set ls = levels \<and> list_all2 (\<lambda>(side, price). delta_of X m bk side price) ls ds)"

lemma opposite_neq [simp]: "opposite s \<noteq> s" "s \<noteq> opposite s"
  by (cases s; simp)+

lemma settle_deltas:
  "\<exists>ds. st_deltas (settle_match X sy u bk sd r st) = st_deltas st @ ds
     \<and> list_all2 (\<lambda>(side, price). delta_of X (st_manager st) bk side price)
         (if 0 < executed_quantity r then map (Pair (opposite (order_side_to_side sd)))
            (first_seen [] (map bt_price (mr_trades r))) else []) ds"
proof (cases "0 < executed_quantity r")
  case True
  let ?st = "record_fills X sy u sd (map executed_of (mr_trades r)) st"
  obtain ds where ds: "st_deltas (publish_consumed X bk (opposite (order_side_to_side sd)) []
      (map bt_price (mr_trades r)) ?st) = st_deltas ?st @ ds"
    "list_all2 (delta_of X (st_manager ?st) bk (opposite (order_side_to_side sd)))
      (first_seen [] (map bt_price (mr_trades r))) ds"
    using publish_consumed_deltas by blast
  with True show ?thesis
    by (intro exI [of _ ds])
      (simp add: settle_match_def publish_consumed_maker_deltas_def list.rel_map)
qed (simp add: settle_match_def)

lemma submit_deltas:
  "\<exists>ds. st_deltas (publish_resting X bk (order_side_to_side sd) price r (settle_match X sy u bk sd r st))
        = st_deltas st @ ds
     \<and> new_deltas X (st_manager st) bk (touched_levels (order_side_to_side sd) price r) ds"
proof -
  let ?side = "order_side_to_side sd"
  let ?ls = "if 0 < executed_quantity r then map (Pair (opposite ?side))
    (first_seen [] (map bt_price (mr_trades r))) else []"
  let ?S = "settle_match X sy u bk sd r st"
  obtain ds where ds: "st_deltas ?S = st_deltas st @ ds"
    "list_all2 (\<lambda>(side, price). delta_of X (st_manager st) bk side price) ?ls ds"
    using settle_deltas by blast
  have dist: "distinct (?ls @ (if 0 < mr_remaining r then [(?side, price)] else []))"
    by (auto simp: distinct_first_seen distinct_map inj_on_def)
  have lv: "set (?ls @ (if 0 < mr_remaining r then [(?side, price)] else [])) = touched_levels ?side price r"
    by (auto simp: touched_levels_def set_first_seen)
  show ?thesis
  proof (cases "0 < mr_remaining r")
    case True
    obtain d where "st_deltas (publish_level_delta X bk ?side price ?S) = st_deltas ?S @ [d]"
      "delta_of X (st_manager ?S) bk ?side price d" by (rule publish_delta)
    with ds dist lv True show ?thesis
      unfolding new_deltas_def publish_resting_def
      by (intro exI [of _ "ds @ [d]"] conjI exI [of _ "?ls @ [(?side, price)]"])
        (auto intro!: list_all2_appendI)
  next
    case False
    with ds dist lv show ?thesis
      unfolding new_deltas_def publish_resting_def
      by (intro exI [of _ ds] conjI exI [of _ ?ls]) auto
  qed
qed

section \<open>A run of the small exchange\<close>

definition demo_add_request :: "order_side \<Rightarrow> u64 \<Rightarrow> add_order_request" where
  "demo_add_request side q = \<lparr>ao_side = side, ao_price = 150, ao_quantity = q, ao_tif = None, ao_expire_at = None\<rparr>"

definition demo_call :: book_key where "demo_call = (''U'', DateTime 0, 100, OptCall)"

lemma demo_parse [simp]: "parse_expiration demo_exchange ''20300101'' = Inr (DateTime 0)"
  by (simp add: parse_expiration_def is_digit_def parse_i32_def parse_u32_def parse_signed_def parse_unsigned_def
      parse_digits_def digits_val_def digit_val_def strip_plus_def demo_exchange_def)

lemma demo_style [simp]: "parse_option_style ''call'' = Inr OptCall" "parse_option_style ''put'' = Inr OptPut"
  by code_simp+

lemma demo_format [simp]: "format_expiration demo_exchange (DateTime 0) = ''20300101''"
  by (simp add: format_expiration_def demo_exchange_def)

lemma show_zero [simp]: "show_nat 0 = ''0''"
  by code_simp

text \<open>Five contracts rest on an empty exchange.\<close>

definition demo_resting_order :: order_info where
  "demo_resting_order = \<lparr>oi_order_id = ''0'', oi_symbol = option_symbol ''U'' ''20300101'' 100 OptCall,
     oi_underlying = ''U'', oi_expiration = ''20300101'', oi_strike = 100, oi_style = ''call'', oi_side = Buy,
     oi_price = 150, oi_original_quantity = 5, oi_remaining_quantity = 5, oi_filled_quantity = 0,
     oi_status = Active, oi_tif = TrackedGtc, oi_created_at_ms = 7, oi_updated_at_ms = 7, oi_fills = []\<rparr>"

definition demo_book :: demo_state where
  "demo_book = \<lparr>ds_underlyings = [''U''], ds_expirations = [(''U'', DateTime 0)],
     ds_strikes = [(''U'', DateTime 0, 100)], ds_orders = [(demo_call, 0, BookBuy, 150, 5)]\<rparr>"

definition demo_start :: "(demo_state, nat) app_state" where "demo_start = app_new demo_empty"

lemma demo_start_facts [simp]:
  "st_manager demo_start = demo_empty" "v_next_id (st_venue demo_start) = 0" "st_orders demo_start = []"
  by (simp_all add: demo_start_def app_new_def engine_new_def st_manager_def)

definition demo_resting :: "(demo_state, nat) app_state" where
  "demo_resting = publish_level_delta demo_exchange demo_call BookBuy 150
     ((set_manager demo_book (with_id demo_start))\<lparr>st_orders := [(''0'', demo_resting_order)]\<rparr>)"

lemma demo_resting_facts [simp]:
  "st_manager demo_resting = demo_book" "st_orders demo_resting = [(''0'', demo_resting_order)]"
  "v_next_id (st_venue demo_resting) = 1"
  by (simp_all add: demo_resting_def)
    (simp_all add: st_manager_def set_manager_def with_id_def)

lemma demo_add_run:
  "\<exists>resp. add_order demo_exchange (\<lambda>n. n) 0 7 ''U'' ''20300101'' 100 ''call'' (demo_add_request Buy 5)
     demo_start = (demo_resting, Inr resp)
     \<and> aor_status resp = LimitAccepted \<and> aor_order_id resp = ''0''"
proof -
  let ?X = "demo_exchange"
  have book: "create_book ?X demo_empty ''U'' (DateTime 0) 100
      = \<lparr>ds_underlyings = [''U''], ds_expirations = [(''U'', DateTime 0)],
         ds_strikes = [(''U'', DateTime 0, 100)], ds_orders = []\<rparr>"
    by (simp add: create_book_def demo_fields demo_empty_def add_once_def)
  have add: "x_add_tif ?X (create_book ?X demo_empty ''U'' (DateTime 0) 100) demo_call 0 BookBuy 150 5 BookGtc
      = (demo_book, Inr (demo_result 5 5 []))"
    by (simp add: book demo_fields demo_add_def demo_book_def)
  have mgr: "set_manager m (with_id (set_manager m' st)) = set_manager m (with_id st)" for m m' and st
    by (simp add: set_manager_def with_id_def)
  show ?thesis
    using add
    by (simp add: add_order_def Let_def fresh_id_eq demo_add_request_def to_book_tif_def order_side_to_side_def
        demo_call_def mgr demo_result_def settle_match_def executed_quantity_def publish_resting_def
        demo_resting_def demo_resting_order_def tracked_status_def order_fills_of_def)
      (simp add: demo_fields)
qed

lemma demo_resolve: "resolve_book demo_exchange demo_book ''U'' ''20300101'' 100 os = Inr (''U'', DateTime 0, 100, os)"
proof -
  have exps: "x_expirations demo_exchange demo_book ''U'' = [DateTime 0]"
    by (simp add: demo_fields demo_book_def)
  have "find_expiration_by_str demo_exchange demo_book ''U'' ''20300101'' = Some (DateTime 0)"
    by (simp add: find_expiration_by_str_def exps)
  then show ?thesis
    by (simp add: resolve_book_def) (simp add: demo_fields demo_book_def)
qed

lemma demo_oid_parse: "x_oid_parse demo_exchange ''0'' = Some 0"
  using parse_digits_show_nat [of 0] by (simp add: demo_fields)

lemma demo_cancel_wrong_book:
  "\<exists>st' resp. cancel_order demo_exchange 9 ''U'' ''20300101'' 100 ''put'' ''0'' demo_resting = (st', Inr resp)
     \<and> map_option oi_status (dm_get (st_orders st') ''0'') = Some Filled
     \<and> x_order demo_exchange (st_manager st') demo_call 0 = Some (BookBuy, 150, 5)"
proof -
  have can: "x_cancel demo_exchange demo_book (''U'', DateTime 0, 100, OptPut) 0 = (demo_book, Inr False)"
    by (simp add: demo_fields demo_book_def demo_cancel_def demo_is_def demo_call_def)
  have rest: "x_order demo_exchange demo_book demo_call 0 = Some (BookBuy, 150, 5)"
    by (simp add: demo_fields demo_book_def demo_is_def)
  show ?thesis
    by (simp add: cancel_order_def demo_resolve demo_oid_parse can)
      (simp add: st_manager_def set_manager_def rest)
qed

section \<open>Properties\<close>

text \<open>
  Recording a match leaves each market-data store exactly as its recordable fills (a
  price that fits 64 bits) say: one trade event per fill in order, the last fill as the
  symbol's last trade, one execution per trade id, every candle and the symbol's position
  folded over the fills, and nothing else: other symbols, the tracked orders and the books
  are untouched.
\<close>

theorem record_fills_effects:
  "let st' = record_fills X symbol u side fills st; fs = filter recordable fills in
     st_trades st' = st_trades st @ map (trade_event_of symbol) fs
     \<and> dm_get (st_last_trades st') = (if fs = [] then dm_get (st_last_trades st)
         else (dm_get (st_last_trades st))(symbol \<mapsto> last_trade_of symbol side (last fs)))
     \<and> dm_get (st_executions st') = dm_get (st_executions st)
         ++ map_of (rev (map (\<lambda>f. (xf_trade_id f, execution_of symbol side f)) fs))
     \<and> st_ohlc st' = fold (\<lambda>f a. record_trade a symbol (xf_timestamp_ms f) (xf_price f) (xf_quantity f)) fs (st_ohlc st)
     \<and> dm_get (st_positions st') = (dm_get (st_positions st))
         (symbol := fold (position_after symbol u side) fs (dm_get (st_positions st) symbol))
     \<and> st_orders st' = st_orders st \<and> st_manager st' = st_manager st"
proof -
  have rec: "\<forall>f\<in>set (filter recordable fills). recordable f" by simp
  show ?thesis
    unfolding Let_def
    by (subst (1 2 3 4 5) record_fills_recordable)
      (simp add: record_fills_trades [OF rec] record_fills_executions [OF rec] record_fills_ohlc [OF rec]
        record_fills_positions [OF rec] fun_eq_iff record_fills_last [OF rec])
qed

text \<open>
  C8. A match moves the symbol's net position by exactly the signed total of its recordable
  fills, when the fills are below 2^63 and the result fits 64 bits.
\<close>

theorem fills_move_position:
  assumes "\<forall>f\<in>set fills. recordable f \<and> uint (xf_quantity f) < 2 ^ 63"
    and "in_i64 (net_quantity_of (dm_get (st_positions st) symbol))"
    and "in_i64 (net_quantity_of (dm_get (st_positions st) symbol) + side_sign side * filled_total fills)"
  shows "net_quantity_of (dm_get (st_positions (record_fills X symbol u side fills st)) symbol)
    = net_quantity_of (dm_get (st_positions st) symbol) + side_sign side * filled_total fills"
proof -
  have "dm_get (st_positions (record_fills X symbol u side fills st)) symbol
      = fold (position_after symbol u side) fills (dm_get (st_positions st) symbol)"
    using assms(1) by (subst record_fills_positions) simp_all
  then show ?thesis using positions_fold_net [of fills "dm_get (st_positions st) symbol" side] assms by simp
qed

definition demo_fill :: "u64 \<Rightarrow> executed_fill" where
  "demo_fill q = \<lparr>xf_price = 150, xf_quantity = q, xf_timestamp_ms = 1, xf_trade_id = ''t'',
     xf_taker_order_id = ''1'', xf_maker_order_id = ''0''\<rparr>"

lemma fills_move_position_witness:
  "net_quantity_of (dm_get (st_positions (record_fills demo_exchange ''S'' ''U'' Sell [demo_fill 5, demo_fill 3]
     (app_new demo_empty))) ''S'') = - 8"
  using fills_move_position [of "[demo_fill 5, demo_fill 3]" "app_new demo_empty" "''S''" Sell demo_exchange "''U''"]
  by (simp add: demo_fill_def recordable_def app_new_def net_quantity_of_def side_sign_def in_i64_def)

text \<open>
  C7. Adding an order, outcome by outcome. An error or a rejection tracks nothing. Otherwise
  exactly one entry is written, under the returned id: it holds the submitted price and
  quantity, the executed and remaining quantities of the match and the status they imply,
  the returned quantities are the tracked ones and they add up to the submitted quantity.
\<close>

theorem add_order_tracks:
  assumes "conserves_quantity X"
  shows "case add_order X gen gtd_now now u e k sty body st of
      (st', Inl err) \<Rightarrow> st_orders st' = st_orders st \<and> st_trades st' = st_trades st \<and> st_deltas st' = st_deltas st
    | (st', Inr resp) \<Rightarrow>
        if aor_status resp = LimitRejected
        then st_orders st' = st_orders st \<and> st_trades st' = st_trades st \<and> st_deltas st' = st_deltas st
        else \<exists>info. st_orders st' = dm_insert (aor_order_id resp) info (st_orders st)
          \<and> aor_order_id resp = x_oid_str X (gen (v_next_id (st_venue st)))
          \<and> oi_order_id info = aor_order_id resp \<and> order_balanced info
          \<and> oi_price info = ao_price body \<and> oi_original_quantity info = ao_quantity body
          \<and> oi_side info = ao_side body
          \<and> oi_filled_quantity info = aor_filled_quantity resp
          \<and> oi_remaining_quantity info = aor_remaining_quantity resp
          \<and> uint (aor_filled_quantity resp) + uint (aor_remaining_quantity resp) = uint (ao_quantity body)
          \<and> aor_status resp = (case oi_status info of Filled \<Rightarrow> LimitFilled | Partial \<Rightarrow> LimitPartial
                                | _ \<Rightarrow> LimitAccepted)"
proof -
  obtain st' res where run: "add_order X gen gtd_now now u e k sty body st = (st', res)" by fastforce
  have same: "side_to_order_side (order_side_to_side d) = d" for d
    by (cases d) (simp_all add: order_side_to_side_def)
  from run show ?thesis
  proof (cases rule: add_order_cases)
    case (accepted ex os tif m r info resp)
    have bal: "order_balanced info"
      using accepted conserves_tif [OF assms accepted(5)] by (intro balanced_of_result) simp_all
    have rej: "aor_status resp \<noteq> LimitRejected" using accepted by simp
    have os': "st_orders st' = dm_insert (aor_order_id resp) info (st_orders st)"
      using accepted by simp
    have tot: "uint (aor_filled_quantity resp) + uint (aor_remaining_quantity resp) = uint (ao_quantity body)"
      using conserves_tif [OF assms accepted(5)] accepted by (simp add: result_conserves_def executed_quantity_def)
    show ?thesis
      unfolding run accepted(2) prod.case sum.case if_not_P [OF rej]
      using accepted bal same by (intro exI [of _ info] conjI os' tot) (auto simp: tracked_status_def)
  qed (simp_all add: run)
qed

lemma add_order_tracks_witness:
  "\<exists>info. st_orders demo_resting = dm_insert ''0'' info [] \<and> order_balanced info \<and> oi_original_quantity info = 5"
proof -
  obtain resp where run: "add_order demo_exchange (\<lambda>n. n) 0 7 ''U'' ''20300101'' 100 ''call''
      (demo_add_request Buy 5) demo_start = (demo_resting, Inr resp)"
    "aor_status resp = LimitAccepted" "aor_order_id resp = ''0''"
    using demo_add_run by blast
  show ?thesis
    using add_order_tracks [OF demo_conserves, where gen = "\<lambda>n. n" and gtd_now = 0 and now = 7 and u = "''U''"
        and e = "''20300101''" and k = 100 and sty = "''call''" and body = "demo_add_request Buy 5"
        and st = demo_start] run
    by (auto simp: demo_add_request_def)
qed

text \<open>
  C10. The deltas an accepted order publishes: one for each maker price it consumed, on the
  opposite side, and one for its own level when a remainder rests, and no other. Each
  carries the book's symbol and the quantity the book shows at that level once the handler
  is done, so that a subscriber who applies them agrees with the book on every level the
  order touched.
\<close>

theorem add_order_deltas_agree:
  assumes "add_order X gen gtd_now now u e k sty body st = (st', Inr resp)"
    and "aor_status resp \<noteq> LimitRejected"
  shows "\<exists>ex os tif r ds.
    x_add_tif X (create_book X (st_manager st) u ex k) (u, ex, k, os) (gen (v_next_id (st_venue st)))
      (order_side_to_side (ao_side body)) (ao_price body) (ao_quantity body) tif = (st_manager st', Inr r)
    \<and> st_deltas st' = st_deltas st @ ds
    \<and> new_deltas X (st_manager st') (u, ex, k, os)
        (touched_levels (order_side_to_side (ao_side body)) (ao_price body) r) ds"
  using assms(1)
proof (cases rule: add_order_cases)
  case (accepted ex os tif m r info resp')
  let ?st = "(set_manager m (with_id (set_manager (create_book X (st_manager st) u ex k) st)))
    \<lparr>st_orders := dm_insert (oi_order_id info) info (st_orders st)\<rparr>"
  have m: "st_manager ?st = m" by (simp add: st_manager_def set_manager_def)
  obtain ds where "st_deltas st' = st_deltas ?st @ ds"
    "new_deltas X m (u, ex, k, os) (touched_levels (order_side_to_side (ao_side body)) (ao_price body) r) ds"
    using submit_deltas [of X "(u, ex, k, os)" "ao_side body" "ao_price body" r
        "option_symbol u e k os" u ?st] m accepted(1) by auto
  moreover have "st_manager st' = m" unfolding accepted(1) by (simp add: m)
  moreover have "st_deltas ?st = st_deltas st" by simp
  ultimately show ?thesis using accepted(5) by metis
qed (use assms in simp_all)

lemma add_order_deltas_agree_witness:
  "\<exists>ds r. st_deltas demo_resting = st_deltas demo_start @ ds
     \<and> new_deltas demo_exchange demo_book demo_call (touched_levels BookBuy 150 r) ds"
proof -
  obtain resp where run: "add_order demo_exchange (\<lambda>n. n) 0 7 ''U'' ''20300101'' 100 ''call''
      (demo_add_request Buy 5) demo_start = (demo_resting, Inr resp)" "aor_status resp = LimitAccepted"
    using demo_add_run by blast
  obtain ex os tif r ds where
    a: "x_add_tif demo_exchange (create_book demo_exchange demo_empty ''U'' ex 100) (''U'', ex, 100, os) 0
      BookBuy 150 5 tif = (demo_book, Inr r)"
    and ds: "st_deltas demo_resting = st_deltas demo_start @ ds"
      "new_deltas demo_exchange demo_book (''U'', ex, 100, os) (touched_levels BookBuy 150 r) ds"
    using add_order_deltas_agree [OF run(1)] run(2)
    by (auto simp: demo_add_request_def order_side_to_side_def)
  have "(''U'', ex, 100, os) = demo_call"
    using a by (simp add: demo_fields demo_add_def create_book_def demo_empty_def demo_book_def
        add_once_def demo_call_def split: if_splits)
  with ds show ?thesis by auto
qed



text \<open>
  C14. Modifying an order, outcome by outcome. An error before the cancellation changes
  nothing. A modified order is live under a new id only: the old entry is gone, the new one
  is active for the requested price and quantity (the old value where none is given), both
  positive, and nothing else is retracked. A rejected modification never leaves a stale
  entry for an order whose cancellation succeeded.
\<close>

theorem modify_order_outcomes:
  "case modify_order X gen now u e k sty oid body st of
      (st', Inl err) \<Rightarrow> st' = set_manager (st_manager st') st
        \<and> (case err of OrderBook _ \<Rightarrow> True | _ \<Rightarrow> st' = st)
    | (st', Inr resp) \<Rightarrow>
        case modr_status resp of
          Modified \<Rightarrow> \<exists>os bk i side p q info m.
            resolve_book X (st_manager st) u e k os = Inr bk \<and> x_oid_parse X oid = Some i
            \<and> x_order X (st_manager st) bk i = Some (side, p, q)
            \<and> x_cancel X (st_manager st) bk i = (m, Inr True)
            \<and> x_add_limit X m bk (gen (v_next_id (st_venue st))) side (oi_price info) (oi_original_quantity info)
                = (st_manager st', Inr ())
            \<and> modr_order_id resp = x_oid_str X (gen (v_next_id (st_venue st)))
            \<and> dm_get (st_orders st') = (dm_get (st_orders st))(oid := None, modr_order_id resp \<mapsto> info)
            \<and> oi_status info = Active \<and> oi_filled_quantity info = 0
            \<and> oi_remaining_quantity info = oi_original_quantity info
            \<and> oi_price info = (case mod_price body of Some np \<Rightarrow> np | None \<Rightarrow> p) \<and> oi_price info \<noteq> 0
            \<and> oi_original_quantity info = (case mod_quantity body of Some nq \<Rightarrow> nq | None \<Rightarrow> q)
            \<and> oi_original_quantity info \<noteq> 0
        | ModifyRejected \<Rightarrow> st_orders st' = st_orders st \<and> st_deltas st' = st_deltas st
            \<or> (\<exists>os bk i m. resolve_book X (st_manager st) u e k os = Inr bk \<and> x_oid_parse X oid = Some i
                 \<and> x_cancel X (st_manager st) bk i = (m, Inr True)
                 \<and> st_orders st' = dm_remove oid (st_orders st))"
proof -
  obtain st' res where run: "modify_order X gen now u e k sty oid body st = (st', res)" by fastforce
  have self: "set_manager (st_manager st) st = st" by (simp add: set_manager_def st_manager_def)
  from run show ?thesis
  proof (cases rule: modify_order_cases)
    case (refused err)
    then show ?thesis by (simp add: run self split: api_error.splits)
  next
    case (replaced os bk i side p q np nq m m' info resp)
    have mgr: "st_manager st' = m'"
      unfolding replaced(18) by (simp add: st_manager_def set_manager_def)
    have os': "st_orders st' = dm_insert (oi_order_id info) info (dm_remove oid (st_orders st))"
      unfolding replaced(18) by simp
    have "dm_get (st_orders st') = (dm_get (st_orders st))(oid := None, modr_order_id resp \<mapsto> info)"
      using replaced(21) by (simp add: os' store_simps fun_eq_iff)
    then show ?thesis
      using replaced mgr
      by (simp add: run del: split_paired_Ex) (intro exI conjI; assumption?; simp)
  next
    case (lost os bk i side p q m m' resp)
    then show ?thesis by (simp add: run del: split_paired_Ex) metis
  qed (simp_all add: run)
qed

text \<open>
  A market order, outcome by outcome. An error records nothing. Otherwise the response
  carries the quantities of the match, nothing is tracked (a market order never rests), the
  trades of the match and only those are recorded under the path's symbol, and one delta is
  published for each maker level it consumed, with the quantity the book still shows there.
\<close>

theorem market_order_outcomes:
  "case submit_market_order X gen u e k sty body st of
      (st', Inl err) \<Rightarrow> st_orders st' = st_orders st \<and> st_positions st' = st_positions st
        \<and> st_trades st' = st_trades st \<and> st_deltas st' = st_deltas st
    | (st', Inr (resp, avg)) \<Rightarrow> \<exists>ex os r ds.
        x_market X (create_book X (st_manager st) u ex k) (u, ex, k, os) (gen (v_next_id (st_venue st)))
          (mo_quantity body) (order_side_to_side (mo_side body)) = (st_manager st', Inr r)
        \<and> mo_quantity body \<noteq> 0 \<and> st_orders st' = st_orders st
        \<and> mor_filled_quantity resp = executed_quantity r \<and> mor_remaining_quantity resp = mr_remaining r
        \<and> mor_status resp = (if mr_complete r then MarketFilled else if 0 < executed_quantity r then MarketPartial
            else MarketRejected)
        \<and> st_trades st' = st_trades st @ (if 0 < executed_quantity r
            then map (trade_event_of (option_symbol u e k os)) (filter recordable (map executed_of (mr_trades r)))
            else [])
        \<and> st_deltas st' = st_deltas st @ ds
        \<and> new_deltas X (st_manager st') (u, ex, k, os)
            (if 0 < executed_quantity r
             then {(opposite (order_side_to_side (mo_side body)), bt_price t) | t. t \<in> set (mr_trades r)} else {}) ds"
proof -
  obtain st' res where run: "submit_market_order X gen u e k sty body st = (st', res)" by fastforce
  from run show ?thesis
  proof (cases rule: market_order_cases)
    case (matched ex os m r resp)
    let ?st = "set_manager m (with_id (set_manager (create_book X (st_manager st) u ex k) st))"
    let ?side = "order_side_to_side (mo_side body)"
    let ?ls = "if 0 < executed_quantity r then map (Pair (opposite ?side))
      (first_seen [] (map bt_price (mr_trades r))) else []"
    have m: "st_manager st' = m" unfolding matched(5) by simp
    obtain ds where ds: "st_deltas st' = st_deltas st @ ds"
      "list_all2 (\<lambda>(side, price). delta_of X m (u, ex, k, os) side price) ?ls ds"
      using settle_deltas [of X "option_symbol u e k os" u "(u, ex, k, os)" "mo_side body" r ?st] matched(5)
      by auto
    have "distinct ?ls" by (auto simp: distinct_first_seen distinct_map inj_on_def)
    moreover have "set ?ls = (if 0 < executed_quantity r
        then {(opposite ?side, bt_price t) | t. t \<in> set (mr_trades r)} else {})"
      by (auto simp: set_first_seen)
    ultimately have new: "new_deltas X m (u, ex, k, os) (if 0 < executed_quantity r
        then {(opposite ?side, bt_price t) | t. t \<in> set (mr_trades r)} else {}) ds"
      unfolding new_deltas_def using ds(2) by blast
    have trades: "st_trades st' = st_trades st @ (if 0 < executed_quantity r
        then map (trade_event_of (option_symbol u e k os)) (filter recordable (map executed_of (mr_trades r)))
        else [])"
      unfolding matched(5) settle_match_def publish_consumed_maker_deltas_def
      by (subst record_fills_recordable) (simp add: record_fills_trades)
    have "st_orders st' = st_orders st" unfolding matched(5) by simp
    then show ?thesis
      unfolding run matched(6) prod.case sum.case m
      by (intro exI [of _ ex] exI [of _ os] exI [of _ r] exI [of _ ds] conjI matched(4) matched(1) matched(7-9)
          trades ds(1) new)
  qed (simp_all add: run)
qed

text \<open>
  A new order never displaces a tracked one: in a state that satisfies the invariant, the
  id an accepted order is tracked under was not tracked before.
\<close>

theorem add_order_id_fresh:
  assumes "app_ok X gen st" and "inj gen" and "ids_roundtrip X"
    and "add_order X gen gtd_now now u e k sty body st = (st', Inr resp)" and "aor_status resp \<noteq> LimitRejected"
  shows "dm_get (st_orders st) (aor_order_id resp) = None \<and> dm_get (st_orders st') (aor_order_id resp) \<noteq> None"
  using assms(4)
proof (cases rule: add_order_cases)
  case (accepted ex os tif m r info resp')
  have oid: "aor_order_id resp = x_oid_str X (gen (v_next_id (st_venue st)))" using accepted by simp
  have "dm_get (st_orders st) (aor_order_id resp) = None"
  proof (rule ccontr)
    assume "dm_get (st_orders st) (aor_order_id resp) \<noteq> None"
    then obtain n where n: "n < v_next_id (st_venue st)" "aor_order_id resp = x_oid_str X (gen n)"
      using assms(1) by (auto simp: app_ok_def orders_issued_def)
    then have "x_oid_parse X (x_oid_str X (gen n)) = x_oid_parse X (x_oid_str X (gen (v_next_id (st_venue st))))"
      using oid by simp
    then have "gen n = gen (v_next_id (st_venue st))" using assms(3) by (simp add: ids_roundtrip_def)
    with assms(2) n(1) show False by (auto dest: injD)
  qed
  moreover have "dm_get (st_orders st') (aor_order_id resp) \<noteq> None"
    using accepted by (simp add: store_simps)
  ultimately show ?thesis ..
qed (use assms in simp_all)

lemma add_order_id_fresh_witness:
  "dm_get (st_orders demo_start) ''0'' = None \<and> dm_get (st_orders demo_resting) ''0'' \<noteq> None"
proof -
  obtain resp where run: "add_order demo_exchange (\<lambda>n. n) 0 7 ''U'' ''20300101'' 100 ''call''
      (demo_add_request Buy 5) demo_start = (demo_resting, Inr resp)"
    "aor_status resp = LimitAccepted" "aor_order_id resp = ''0''"
    using demo_add_run by blast
  have "app_ok demo_exchange (\<lambda>n. n) demo_start" by (simp add: demo_start_def app_ok_new)
  then show ?thesis
    using add_order_id_fresh [OF _ _ demo_ids_roundtrip run(1)] run(2,3) by (simp add: inj_on_def)
qed

end
