(* ===== verification/Bulk.thy ===== *)
theory Bulk
  imports Order_Flow "HOL-Library.List_Lexorder" "HOL-Library.Char_ord"
begin

text \<open>
  The bulk handlers of \<open>src/src/api/handlers.rs\<close>: submission of a list of orders with the
  atomic rollback, cancellation by a list of ids, and cancellation of every order that
  matches a filter. The clock is a function from the number of the reading within the
  request.
\<close>

section \<open>Submitting one order of a batch\<close>

record 'o accepted_bulk =
  ab_order_id :: 'o
  ab_filled_quantity :: u64

definition bulk_lookup ::
  "('m, 'o) exchange \<Rightarrow> 'm \<Rightarrow> bulk_order_item \<Rightarrow> string \<Rightarrow> string \<Rightarrow> string \<Rightarrow> string + book_key" where
  "bulk_lookup X m item no_expiration bad_expiration no_strike =
     (case find_expiration_by_str X m (bi_underlying item) (bi_expiration item) of
        None \<Rightarrow> Inl (no_expiration @ bi_expiration item)
      | Some e \<Rightarrow>
          (case x_get_expiration X m (bi_underlying item) e of
             Inl err \<Rightarrow> Inl (bad_expiration @ err)
           | Inr _ \<Rightarrow>
               (case x_get_strike X m (bi_underlying item) e (bi_strike item) of
                  Inl err \<Rightarrow> Inl (no_strike @ err)
                | Inr _ \<Rightarrow> Inr (bi_underlying item, e, bi_strike item, wire_to_style (bi_style item)))))"

definition bulk_order_info ::
  "('m, 'o) exchange \<Rightarrow> u64 \<Rightarrow> bulk_order_item \<Rightarrow> 'o \<Rightarrow> match_result \<Rightarrow> order_info" where
  "bulk_order_info X now item order_id r =
     \<lparr>oi_order_id = x_oid_str X order_id,
      oi_symbol = option_symbol (bi_underlying item) (bi_expiration item) (bi_strike item) (wire_to_style (bi_style item)),
      oi_underlying = bi_underlying item, oi_expiration = bi_expiration item, oi_strike = bi_strike item,
      oi_style = wire_style_display (bi_style item),
      oi_side = side_to_order_side (order_side_to_side (bi_side item)), oi_price = bi_price item,
      oi_original_quantity = bi_quantity item, oi_remaining_quantity = mr_remaining r,
      oi_filled_quantity = executed_quantity r, oi_status = tracked_status r, oi_tif = TrackedGtc,
      oi_created_at_ms = now, oi_updated_at_ms = now, oi_fills = order_fills_of r\<rparr>"

definition submit_single_order ::
  "('m, 'o) exchange \<Rightarrow> (nat \<Rightarrow> 'o) \<Rightarrow> u64 \<Rightarrow> bulk_order_item \<Rightarrow> ('m, 'o) app_state
   \<Rightarrow> ('m, 'o) app_state \<times> (string + 'o accepted_bulk)" where
  "submit_single_order X gen now item st =
     (let side = order_side_to_side (bi_side item);
          st = set_manager (x_get_or_create X (st_manager st) (bi_underlying item)) st
      in case bulk_lookup X (st_manager st) item ''Expiration not found: '' ''Failed to get expiration: ''
                ''Strike not found: '' of
           Inl err \<Rightarrow> (st, Inl err)
         | Inr bk \<Rightarrow>
             (let (order_id, st) = fresh_id gen st;
                  (m, res) = x_add_full X (st_manager st) bk order_id side (bi_price item) (bi_quantity item);
                  st = set_manager m st
              in case res of
                   Inl err \<Rightarrow> (st, Inl (''Failed to add order: '' @ err))
                 | Inr r \<Rightarrow>
                     (let info = bulk_order_info X now item order_id r;
                          st = settle_match X (oi_symbol info) (bi_underlying item) bk (oi_side info) r st;
                          st = publish_resting X bk side (bi_price item) r st;
                          st = st\<lparr>st_orders := dm_insert (x_oid_str X order_id) info (st_orders st)\<rparr>
                      in (st, Inr \<lparr>ab_order_id = order_id, ab_filled_quantity = executed_quantity r\<rparr>))))"

section \<open>Rolling a batch back\<close>

definition cancel_bulk_item_order ::
  "('m, 'o) exchange \<Rightarrow> bulk_order_item \<Rightarrow> 'o \<Rightarrow> ('m, 'o) app_state \<Rightarrow> ('m, 'o) app_state \<times> (string + bool)" where
  "cancel_bulk_item_order X item order_id st =
     (case x_get X (st_manager st) (bi_underlying item) of
        Inl err \<Rightarrow> (st, Inl (''underlying not found: '' @ err))
      | Inr _ \<Rightarrow>
          (case bulk_lookup X (st_manager st) item ''expiration not found: '' ''failed to get expiration: ''
                  ''strike not found: '' of
             Inl err \<Rightarrow> (st, Inl err)
           | Inr bk \<Rightarrow>
               (let (m, res) = x_cancel X (st_manager st) bk order_id; st = set_manager m st
                in case res of
                     Inl err \<Rightarrow> (st, Inl (''cancel failed: '' @ err))
                   | Inr canceled \<Rightarrow>
                       ((if canceled then publish_level_delta X bk (order_side_to_side (bi_side item)) (bi_price item) st
                         else st), Inr canceled))))"

datatype rollback_outcome =
    CleanlyRolledBack
  | Unrollbackable string string
  | PhantomOrder string

definition nth_opt :: "'a list \<Rightarrow> nat \<Rightarrow> 'a option" where
  "nth_opt xs i = (if i < length xs then Some (xs ! i) else None)"

text \<open>The tracked entry of an order that had filled, once its remainder is dealt with.\<close>

definition reconcile_filled :: "u64 \<Rightarrow> u64 \<Rightarrow> bool \<Rightarrow> order_info \<Rightarrow> order_info" where
  "reconcile_filled now filled remainder_cleared entry =
     (if remainder_cleared
      then entry\<lparr>oi_filled_quantity := filled, oi_remaining_quantity := 0,
             oi_status := (if oi_original_quantity entry \<le> filled then Filled else Canceled),
             oi_updated_at_ms := now\<rparr>
      else entry\<lparr>oi_filled_quantity := filled,
             oi_remaining_quantity := oi_original_quantity entry - min filled (oi_original_quantity entry),
             oi_status := Partial, oi_updated_at_ms := now\<rparr>)"

definition remainder_note :: "string + bool \<Rightarrow> string" where
  "remainder_note c =
     (case c of
        Inr True \<Rightarrow> ''resting remainder cancelled''
      | Inr False \<Rightarrow> ''no remainder was resting (order fully filled)''
      | Inl e \<Rightarrow> ''resting remainder could NOT be cancelled: '' @ e)"

definition rollback_unfilled :: "string \<Rightarrow> nat \<Rightarrow> string + bool \<Rightarrow> rollback_outcome" where
  "rollback_unfilled order_id_str index cancel =
     (case cancel of
        Inr True \<Rightarrow> CleanlyRolledBack
      | Inr False \<Rightarrow> PhantomOrder (''order '' @ order_id_str @ '' (index '' @ show_nat index @
          '') could not be rolled back: no fill recorded yet it is no longer resting in the book'')
      | Inl e \<Rightarrow> Unrollbackable order_id_str (''order '' @ order_id_str @ '' (index '' @ show_nat index @
          '') could not be rolled back: cancel failed: '' @ e))"

definition rollback_filled :: "string \<Rightarrow> nat \<Rightarrow> u64 \<Rightarrow> string + bool \<Rightarrow> rollback_outcome" where
  "rollback_filled order_id_str index filled cancel =
     Unrollbackable order_id_str (''order '' @ order_id_str @ '' (index '' @ show_nat index @
       '') could not be fully rolled back: '' @ show_word filled @
       '' unit(s) already filled; a fill cannot be un-filled ('' @ remainder_note cancel @ '')'')"

fun is_ok :: "'e + 'a \<Rightarrow> bool" where
  "is_ok (Inr _) = True"
| "is_ok (Inl _) = False"

definition rollback_one ::
  "('m, 'o) exchange \<Rightarrow> u64 \<Rightarrow> bulk_order_item list \<Rightarrow> nat \<times> 'o \<times> u64
   \<Rightarrow> ('m, 'o) app_state \<times> (nat, rollback_outcome) dashmap \<Rightarrow> ('m, 'o) app_state \<times> (nat, rollback_outcome) dashmap" where
  "rollback_one X now items acc so =
     (let (index, order_id, filled) = acc; (st, outcomes) = so; order_id_str = x_oid_str X order_id
      in case nth_opt items index of
           None \<Rightarrow> (st, outcomes)
         | Some item \<Rightarrow>
             (let (st, cancel) = cancel_bulk_item_order X item order_id st
              in if 0 < filled
                 then (let st = (case dm_get (st_orders st) order_id_str of
                                   None \<Rightarrow> st
                                 | Some entry \<Rightarrow> st\<lparr>st_orders := dm_insert order_id_str
                                     (reconcile_filled now filled (is_ok cancel) entry) (st_orders st)\<rparr>)
                       in (st, dm_insert index (rollback_filled order_id_str index filled cancel) outcomes))
                 else (let st = (if is_ok cancel
                                 then st\<lparr>st_orders := dm_remove order_id_str (st_orders st)\<rparr> else st)
                       in (st, dm_insert index (rollback_unfilled order_id_str index cancel) outcomes))))"

fun is_unrollbackable :: "rollback_outcome \<Rightarrow> bool" where
  "is_unrollbackable (Unrollbackable _ _) = True"
| "is_unrollbackable _ = False"

fun outcome_warning :: "rollback_outcome \<Rightarrow> string option" where
  "outcome_warning (Unrollbackable _ w) = Some w"
| "outcome_warning (PhantomOrder w) = Some w"
| "outcome_warning CleanlyRolledBack = None"

definition rollback_result ::
  "(nat, rollback_outcome) dashmap \<Rightarrow> nat \<Rightarrow> string \<Rightarrow> nat \<Rightarrow> bulk_result_item" where
  "rollback_result outcomes failed_index failed_error i =
     (case dm_get outcomes i of
        Some (Unrollbackable order_id warning) \<Rightarrow>
          \<lparr>bri_index = i, bri_order_id = Some order_id, bri_status = BulkAccepted, bri_error = Some warning\<rparr>
      | Some (PhantomOrder warning) \<Rightarrow>
          \<lparr>bri_index = i, bri_order_id = None, bri_status = BulkRejected, bri_error = Some warning\<rparr>
      | Some CleanlyRolledBack \<Rightarrow>
          \<lparr>bri_index = i, bri_order_id = None, bri_status = BulkRejected,
           bri_error = Some ''Rolled back due to atomic failure''\<rparr>
      | None \<Rightarrow>
          \<lparr>bri_index = i, bri_order_id = None, bri_status = BulkRejected,
           bri_error = Some (if i = failed_index then failed_error else ''Not attempted due to atomic failure'')\<rparr>)"

definition rollback_response ::
  "(nat, rollback_outcome) dashmap \<Rightarrow> nat \<Rightarrow> nat \<Rightarrow> string \<Rightarrow> bulk_order_response" where
  "rollback_response outcomes n failed_index failed_error =
     (let success = length (filter is_unrollbackable (dm_values outcomes))
      in \<lparr>bor_success_count = success, bor_failure_count = n - min success n,
          bor_results = map (rollback_result outcomes failed_index failed_error) [0..<n],
          bor_rolled_back = True,
          bor_rollback_warnings = sort (List.map_filter outcome_warning (dm_values outcomes))\<rparr>)"

definition rollback_atomic_bulk ::
  "('m, 'o) exchange \<Rightarrow> u64 \<Rightarrow> bulk_order_item list \<Rightarrow> (nat \<times> 'o \<times> u64) list \<Rightarrow> nat \<Rightarrow> string
   \<Rightarrow> ('m, 'o) app_state \<Rightarrow> ('m, 'o) app_state \<times> bulk_order_response" where
  "rollback_atomic_bulk X now items accepted failed_index failed_error st =
     (let (st, outcomes) = fold (rollback_one X now items) accepted (st, [])
      in (st, rollback_response outcomes (length items) failed_index failed_error))"

section \<open>Bulk submission\<close>

fun bulk_loop ::
  "('m, 'o) exchange \<Rightarrow> (nat \<Rightarrow> 'o) \<Rightarrow> (nat \<Rightarrow> u64) \<Rightarrow> bulk_order_item list \<Rightarrow> bool \<Rightarrow> nat \<Rightarrow> bulk_order_item list
   \<Rightarrow> (nat \<times> 'o \<times> u64) list \<Rightarrow> bulk_result_item list \<Rightarrow> nat \<Rightarrow> nat \<Rightarrow> ('m, 'o) app_state
   \<Rightarrow> ('m, 'o) app_state \<times> bulk_order_response" where
  "bulk_loop X gen clock items atomic index [] accepted results success failure st =
     (st, \<lparr>bor_success_count = success, bor_failure_count = failure, bor_results = results,
            bor_rolled_back = False, bor_rollback_warnings = []\<rparr>)"
| "bulk_loop X gen clock items atomic index (item # rest) accepted results success failure st =
     (case submit_single_order X gen (clock index) item st of
        (st, Inr a) \<Rightarrow>
          bulk_loop X gen clock items atomic (Suc index) rest
            (accepted @ [(index, ab_order_id a, ab_filled_quantity a)])
            (results @ [\<lparr>bri_index = index, bri_order_id = Some (x_oid_str X (ab_order_id a)),
                         bri_status = BulkAccepted, bri_error = None\<rparr>])
            (Suc success) failure st
      | (st, Inl error) \<Rightarrow>
          if atomic then rollback_atomic_bulk X (clock (Suc index)) items accepted index error st
          else bulk_loop X gen clock items atomic (Suc index) rest accepted
            (results @ [\<lparr>bri_index = index, bri_order_id = None, bri_status = BulkRejected,
                         bri_error = Some error\<rparr>])
            success (Suc failure) st)"

definition bulk_submit_orders ::
  "('m, 'o) exchange \<Rightarrow> (nat \<Rightarrow> 'o) \<Rightarrow> (nat \<Rightarrow> u64) \<Rightarrow> bulk_order_request \<Rightarrow> ('m, 'o) app_state
   \<Rightarrow> ('m, 'o) app_state \<times> (api_error + bulk_order_response)" where
  "bulk_submit_orders X gen clock body st =
     (if br_orders body = [] then (st, Inl (InvalidRequest ''Orders array cannot be empty''))
      else (let (st, resp) = bulk_loop X gen clock (br_orders body) (br_atomic body) 0 (br_orders body) [] [] 0 0 st
            in (st, Inr resp)))"

section \<open>Cancelling tracked orders\<close>

definition tracked_style :: "string \<Rightarrow> opt_style option" where
  "tracked_style s = (let l = ascii_lower s in
     if l = ''call'' then Some OptCall else if l = ''put'' then Some OptPut else None)"

definition lookup_book :: "('m, 'o) exchange \<Rightarrow> 'm \<Rightarrow> order_info \<Rightarrow> opt_style \<Rightarrow> book_key option" where
  "lookup_book X m info os =
     (case resolve_book X m (oi_underlying info) (oi_expiration info) (oi_strike info) os of
        Inl _ \<Rightarrow> None | Inr bk \<Rightarrow> Some bk)"

definition untrack_cancelled ::
  "('m, 'o) exchange \<Rightarrow> book_key \<Rightarrow> order_info \<Rightarrow> string \<Rightarrow> ('m, 'o) app_state \<Rightarrow> ('m, 'o) app_state" where
  "untrack_cancelled X bk info oid st =
     publish_level_delta X bk (order_side_to_side (oi_side info)) (oi_price info)
       (st\<lparr>st_orders := dm_remove oid (st_orders st)\<rparr>)"

definition bulk_cancel_one ::
  "('m, 'o) exchange \<Rightarrow> string \<Rightarrow> ('m, 'o) app_state \<Rightarrow> ('m, 'o) app_state \<times> bulk_cancel_result" where
  "bulk_cancel_one X oid st =
     (let failed = (\<lambda>msg. \<lparr>bcr_order_id = oid, bcr_canceled = False, bcr_error = Some msg\<rparr>)
      in case dm_get (st_orders st) oid of
           None \<Rightarrow> (st, failed ''Order not found'')
         | Some info \<Rightarrow>
        (case x_oid_parse X oid of
           None \<Rightarrow> (st, failed ''Invalid order ID format'')
         | Some order_id \<Rightarrow>
        (case tracked_style (oi_style info) of
           None \<Rightarrow> (st, failed ''Invalid option style in order info'')
         | Some os \<Rightarrow>
        (case lookup_book X (st_manager st) info os of
           None \<Rightarrow> (st, failed ''Order book path not found'')
         | Some bk \<Rightarrow>
            (let (m, res) = x_cancel X (st_manager st) bk order_id; st = set_manager m st
             in case res of
                  Inr True \<Rightarrow> (untrack_cancelled X bk info oid st,
                                \<lparr>bcr_order_id = oid, bcr_canceled = True, bcr_error = None\<rparr>)
                | Inr False \<Rightarrow> (st, failed ''Order not found in book'')
                | Inl e \<Rightarrow> (st, failed (''Cancel failed: '' @ e)))))))"

fun bulk_cancel_loop ::
  "('m, 'o) exchange \<Rightarrow> string list \<Rightarrow> bulk_cancel_result list \<Rightarrow> nat \<Rightarrow> nat \<Rightarrow> ('m, 'o) app_state
   \<Rightarrow> ('m, 'o) app_state \<times> bulk_cancel_response" where
  "bulk_cancel_loop X [] results success failure st =
     (st, \<lparr>bc_success_count = success, bc_failure_count = failure, bc_results = results\<rparr>)"
| "bulk_cancel_loop X (oid # oids) results success failure st =
     (let (st, r) = bulk_cancel_one X oid st
      in if bcr_canceled r then bulk_cancel_loop X oids (results @ [r]) (Suc success) failure st
         else bulk_cancel_loop X oids (results @ [r]) success (Suc failure) st)"

definition bulk_cancel_orders ::
  "('m, 'o) exchange \<Rightarrow> string list \<Rightarrow> ('m, 'o) app_state
   \<Rightarrow> ('m, 'o) app_state \<times> (api_error + bulk_cancel_response)" where
  "bulk_cancel_orders X order_ids st =
     (if order_ids = [] then (st, Inl (InvalidRequest ''Order IDs array cannot be empty''))
      else (let (st, resp) = bulk_cancel_loop X order_ids [] 0 0 st in (st, Inr resp)))"

definition parse_side_filter :: "string option \<Rightarrow> api_error + order_side option" where
  "parse_side_filter s =
     (case s of
        None \<Rightarrow> Inr None
      | Some side \<Rightarrow>
          (let l = ascii_lower side in
           if l = ''buy'' then Inr (Some Buy)
           else if l = ''sell'' then Inr (Some Sell)
           else Inl (InvalidRequest (''Invalid side: '' @ side @ ''. Use '' @ qm @ ''buy'' @ qm @ '' or '' @ qm
                       @ ''sell'' @ qm))))"

definition parse_style_filter :: "string option \<Rightarrow> api_error + opt_style option" where
  "parse_style_filter s =
     (case s of
        None \<Rightarrow> Inr None
      | Some style \<Rightarrow>
          (case tracked_style style of
             Some os \<Rightarrow> Inr (Some os)
           | None \<Rightarrow> Inl (InvalidRequest (''Invalid style: '' @ style @ ''. Use '' @ qm @ ''call'' @ qm @ '' or ''
                       @ qm @ ''put'' @ qm))))"

fun allows :: "'a option \<Rightarrow> 'a \<Rightarrow> bool" where
  "allows None x = True"
| "allows (Some y) x = (x = y)"

definition cancel_all_matches ::
  "cancel_all_query \<Rightarrow> order_side option \<Rightarrow> opt_style option \<Rightarrow> order_info \<Rightarrow> bool" where
  "cancel_all_matches q side_filter style_filter info \<longleftrightarrow>
     allows (ca_underlying q) (oi_underlying info) \<and> allows (ca_expiration q) (oi_expiration info)
     \<and> allows side_filter (oi_side info)
     \<and> (case style_filter of None \<Rightarrow> True | Some os \<Rightarrow> tracked_style (oi_style info) = Some os)
     \<and> oi_status info = Active"

definition cancel_all_one ::
  "('m, 'o) exchange \<Rightarrow> string \<times> order_info \<Rightarrow> ('m, 'o) app_state \<times> nat \<times> nat \<Rightarrow> ('m, 'o) app_state \<times> nat \<times> nat" where
  "cancel_all_one X entry acc =
     (let (oid, info) = entry; (st, canceled, failed) = acc
      in case x_oid_parse X oid of
           None \<Rightarrow> (st, canceled, Suc failed)
         | Some order_id \<Rightarrow>
        (case tracked_style (oi_style info) of
           None \<Rightarrow> (st, canceled, Suc failed)
         | Some os \<Rightarrow>
        (case lookup_book X (st_manager st) info os of
           None \<Rightarrow> (st, canceled, Suc failed)
         | Some bk \<Rightarrow>
            (let (m, res) = x_cancel X (st_manager st) bk order_id; st = set_manager m st
             in case res of
                  Inr True \<Rightarrow> (untrack_cancelled X bk info oid st, Suc canceled, failed)
                | Inr False \<Rightarrow> (st, canceled, Suc failed)
                | Inl _ \<Rightarrow> (st, canceled, Suc failed)))))"

definition cancel_all_orders ::
  "('m, 'o) exchange \<Rightarrow> cancel_all_query \<Rightarrow> ('m, 'o) app_state
   \<Rightarrow> ('m, 'o) app_state \<times> (api_error + cancel_all_response)" where
  "cancel_all_orders X q st =
     (case parse_side_filter (ca_side q) of
        Inl e \<Rightarrow> (st, Inl e)
      | Inr side_filter \<Rightarrow>
     (case parse_style_filter (ca_style q) of
        Inl e \<Rightarrow> (st, Inl e)
      | Inr style_filter \<Rightarrow>
         (let (st, canceled, failed) = fold (cancel_all_one X)
                (filter (\<lambda>(_, info). cancel_all_matches q side_filter style_filter info) (st_orders st)) (st, 0, 0)
          in (st, Inr \<lparr>car_canceled_count = canceled, car_failed_count = failed\<rparr>))))"

section \<open>The handlers keep the invariant\<close>

text \<open>What submitting one order of a batch does to the tracked orders.\<close>

lemma submit_single_cases:
  assumes "submit_single_order X gen now item st = (st', res)"
  obtains
    (refused) m err where "st' = set_manager m st" "res = Inl err"
  | (failed) m err where "st' = set_manager m (with_id st)" "res = Inl err"
  | (accepted) bk m m0 r info where
      "st' = (publish_resting X bk (order_side_to_side (bi_side item)) (bi_price item) r
         (settle_match X (oi_symbol info) (bi_underlying item) bk (oi_side info) r (set_manager m (with_id st))))
           \<lparr>st_orders := dm_insert (oi_order_id info) info (st_orders st)\<rparr>"
      "res = Inr \<lparr>ab_order_id = gen (v_next_id (st_venue st)), ab_filled_quantity = executed_quantity r\<rparr>"
      "x_add_full X m0 bk (gen (v_next_id (st_venue st))) (order_side_to_side (bi_side item)) (bi_price item)
         (bi_quantity item) = (m, Inr r)"
      "info = bulk_order_info X now item (gen (v_next_id (st_venue st))) r"
proof -
  define m0 where "m0 = x_get_or_create X (st_manager st) (bi_underlying item)"
  have mgr: "set_manager m (with_id (set_manager m' st)) = set_manager m (with_id st)" for m m'
    by (simp add: set_manager_def with_id_def)
  show ?thesis
  proof (cases "bulk_lookup X m0 item ''Expiration not found: '' ''Failed to get expiration: '' ''Strike not found: ''")
    case (Inl err)
    show ?thesis
      by (rule refused [of m0 err]) (use assms Inl in \<open>simp_all add: submit_single_order_def m0_def Let_def\<close>)
  next
    case bk: (Inr bk)
    obtain m mres where add: "x_add_full X m0 bk (gen (v_next_id (st_venue st)))
        (order_side_to_side (bi_side item)) (bi_price item) (bi_quantity item) = (m, mres)" by fastforce
    note run = assms [unfolded submit_single_order_def Let_def, folded m0_def, simplified set_manager_frame bk
        fresh_id_eq sum.case prod.case with_id_frame add mgr]
    show ?thesis
    proof (cases mres)
      case (Inl err)
      show ?thesis by (rule failed [of m "''Failed to add order: '' @ err"]) (use run Inl in simp_all)
    next
      case (Inr r)
      have add: "x_add_full X m0 bk (gen (v_next_id (st_venue st)))
        (order_side_to_side (bi_side item)) (bi_price item) (bi_quantity item) = (m, Inr r)" using add Inr by simp
      show ?thesis
        by (rule accepted [OF _ _ add refl]) (use run Inr in \<open>simp_all add: bulk_order_info_def\<close>)
    qed
  qed
qed

lemma app_ok_submit_single:
  assumes X: "conserves_quantity X" and ok: "app_ok X gen st"
    and run: "submit_single_order X gen now item st = (st', res)"
  shows "app_ok X gen st' \<and> (case res of
      Inl _ \<Rightarrow> st_orders st' = st_orders st \<and> v_next_id (st_venue st) \<le> v_next_id (st_venue st')
    | Inr a \<Rightarrow> ab_order_id a = gen (v_next_id (st_venue st))
        \<and> v_next_id (st_venue st) < v_next_id (st_venue st')
        \<and> (\<exists>info. st_orders st' = dm_insert (x_oid_str X (ab_order_id a)) info (st_orders st)
             \<and> oi_filled_quantity info = ab_filled_quantity a))"
  using run
proof (cases rule: submit_single_cases)
  case (accepted bk m m0 r info)
  let ?st = "publish_resting X bk (order_side_to_side (bi_side item)) (bi_price item) r
    (settle_match X (oi_symbol info) (bi_underlying item) bk (oi_side info) r (set_manager m (with_id st)))"
  have "app_ok X gen ?st" using ok by (intro wf_intros)
  moreover have "order_balanced info"
    using conserves_full [OF X accepted(3)]
    by (intro balanced_of_result) (simp_all add: accepted(4) bulk_order_info_def)
  ultimately have "app_ok X gen (?st\<lparr>st_orders := dm_insert (oi_order_id info) info (st_orders ?st)\<rparr>)"
    by (intro app_ok_track_next [where i = info and n = "v_next_id (st_venue st)"])
      (simp_all add: accepted(4) bulk_order_info_def)
  then have "app_ok X gen st'" unfolding accepted(1) by simp
  moreover have "v_next_id (st_venue st) < v_next_id (st_venue st')" unfolding accepted(1) by simp
  ultimately show ?thesis
    unfolding accepted(2) by (simp add: accepted(1,4) bulk_order_info_def exI [of _ info])
qed (use ok in \<open>auto intro!: wf_intros\<close>)

lemma app_ok_cancel_item:
  assumes "app_ok X gen st" and "cancel_bulk_item_order X item oid st = (st', c)"
  shows "app_ok X gen st' \<and> st_orders st' = st_orders st \<and> v_next_id (st_venue st') = v_next_id (st_venue st)"
  using assms
  by (auto simp: cancel_bulk_item_order_def Let_def app_ok_publish app_ok_set_manager
      split: sum.splits prod.splits if_splits)

lemma balanced_reconcile:
  assumes "order_balanced i" and "oi_filled_quantity i = f" and "0 < f"
  shows "order_balanced (reconcile_filled now f ok i)"
proof -
  have le: "uint f \<le> uint (oi_original_quantity i)"
  proof -
    have "uint f + uint (oi_remaining_quantity i) = uint (oi_original_quantity i) \<or> uint f < uint (oi_original_quantity i)"
      using assms(1,2) by (auto simp: order_balanced_def split: if_splits)
    then show ?thesis using uint_ge_0 [of "oi_remaining_quantity i"] by linarith
  qed
  then have "uint (oi_original_quantity i - f) = uint (oi_original_quantity i) - uint f"
    by (simp add: uint_sub_lem [THEN iffD1])
  with le assms(3) show ?thesis
    by (auto simp: order_balanced_def reconcile_filled_def word_le_def min_def not_le)
qed

lemma rollback_outcome_simps [simp]:
  "is_unrollbackable (rollback_filled oid i f c)"
  "is_unrollbackable (rollback_unfilled oid i c) \<longleftrightarrow> \<not> is_ok c"
  by (auto simp: rollback_filled_def rollback_unfilled_def split: sum.splits bool.splits)

lemma rollback_outcome_id:
  "\<exists>w. rollback_filled oid i f c = Unrollbackable oid w"
  "\<not> is_ok c \<Longrightarrow> \<exists>w. rollback_unfilled oid i c = Unrollbackable oid w"
  by (auto simp: rollback_filled_def rollback_unfilled_def split: sum.splits bool.splits)

lemma app_ok_rollback_one:
  assumes ok: "app_ok X gen st" and idx: "index < length items"
    and entry: "dm_get (st_orders st) (x_oid_str X oid) = Some info" "oi_filled_quantity info = f"
    and run: "rollback_one X now items (index, oid, f) (st, outs) = (st', outs')"
  shows "app_ok X gen st' \<and> (\<exists>oc x. outs' = dm_insert index oc outs
    \<and> dm_get (st_orders st') = (dm_get (st_orders st))(x_oid_str X oid := x)
    \<and> (x \<noteq> None \<longleftrightarrow> is_unrollbackable oc)
    \<and> (is_unrollbackable oc \<longrightarrow> (\<exists>w. oc = Unrollbackable (x_oid_str X oid) w)))"
proof -
  obtain st1 c where can: "cancel_bulk_item_order X (items ! index) oid st = (st1, c)" by fastforce
  have ok1: "app_ok X gen st1" and os: "st_orders st1 = st_orders st"
    using app_ok_cancel_item [OF ok can] by auto
  note known = app_ok_order_known [OF ok entry(1)]
  show ?thesis
  proof (cases "0 < f")
    case True
    let ?i = "reconcile_filled now f (is_ok c) info"
    have "st' = st1\<lparr>st_orders := dm_insert (x_oid_str X oid) ?i (st_orders st1)\<rparr>"
      and "outs' = dm_insert index (rollback_filled (x_oid_str X oid) index f c) outs"
      using run True idx can entry(1) os by (auto simp: rollback_one_def nth_opt_def Let_def)
    moreover have "app_ok X gen (st1\<lparr>st_orders := dm_insert (x_oid_str X oid) ?i (st_orders st1)\<rparr>)"
      using app_ok_order_known [OF ok1, of "x_oid_str X oid" info] entry os True
      by (intro app_ok_track [OF ok1 balanced_reconcile]) (auto simp: reconcile_filled_def)
    ultimately show ?thesis
      using os rollback_outcome_id(1) [of "x_oid_str X oid" index f c]
      by (intro conjI exI [of _ "rollback_filled (x_oid_str X oid) index f c"] exI [of _ "Some ?i"])
        (simp_all add: store_simps fun_eq_iff)
  next
    case False
    have "st' = (if is_ok c then st1\<lparr>st_orders := dm_remove (x_oid_str X oid) (st_orders st1)\<rparr> else st1)"
      and "outs' = dm_insert index (rollback_unfilled (x_oid_str X oid) index c) outs"
      using run False idx can by (simp_all add: rollback_one_def nth_opt_def Let_def)
    moreover have "app_ok X gen (if is_ok c then st1\<lparr>st_orders := dm_remove (x_oid_str X oid) (st_orders st1)\<rparr> else st1)"
      using ok1 by (simp add: app_ok_untrack)
    ultimately show ?thesis
      using os entry(1) rollback_outcome_id(2) [of c "x_oid_str X oid" index]
      by (intro conjI exI [of _ "rollback_unfilled (x_oid_str X oid) index c"]
          exI [of _ "if is_ok c then None else Some info"])
        (auto simp: store_simps fun_eq_iff)
  qed
qed

text \<open>
  The accepted orders of a batch: each is tracked under its id with the quantity it filled,
  and their indices and ids are distinct.
\<close>

definition acc_id :: "('m, 'o) exchange \<Rightarrow> nat \<times> 'o \<times> u64 \<Rightarrow> string" where
  "acc_id X a = x_oid_str X (fst (snd a))"

definition batch_tracked ::
  "('m, 'o) exchange \<Rightarrow> (nat \<times> 'o \<times> u64) list \<Rightarrow> (string, order_info) dashmap \<Rightarrow> bool" where
  "batch_tracked X accepted os \<longleftrightarrow> distinct (map fst accepted) \<and> distinct (map (acc_id X) accepted)
     \<and> (\<forall>a\<in>set accepted. \<exists>info. dm_get os (acc_id X a) = Some info \<and> oi_filled_quantity info = snd (snd a))"

text \<open>What the rollback leaves: one outcome per accepted order, tracked exactly when it could not be undone.\<close>

definition rolled_back ::
  "('m, 'o) exchange \<Rightarrow> (nat \<times> 'o \<times> u64) list \<Rightarrow> (string \<rightharpoonup> order_info) \<Rightarrow> (string \<rightharpoonup> order_info)
   \<Rightarrow> (nat \<rightharpoonup> rollback_outcome) \<Rightarrow> (nat \<rightharpoonup> rollback_outcome) \<Rightarrow> bool" where
  "rolled_back X accepted os os' outs outs' \<longleftrightarrow>
     (\<forall>k. k \<notin> acc_id X ` set accepted \<longrightarrow> os' k = os k)
     \<and> (\<forall>i. i \<notin> fst ` set accepted \<longrightarrow> outs' i = outs i)
     \<and> (\<forall>a\<in>set accepted. \<exists>oc. outs' (fst a) = Some oc
          \<and> (os' (acc_id X a) \<noteq> None \<longleftrightarrow> is_unrollbackable oc)
          \<and> (is_unrollbackable oc \<longrightarrow> (\<exists>w. oc = Unrollbackable (acc_id X a) w)))"

lemma rollback_fold:
  assumes "app_ok X gen st" and "batch_tracked X accepted (st_orders st)" and "dm_ok outs"
    and "\<forall>a\<in>set accepted. fst a < length items"
    and "fold (rollback_one X now items) accepted (st, outs) = (st', outs')"
  shows "app_ok X gen st' \<and> dm_ok outs'
    \<and> rolled_back X accepted (dm_get (st_orders st)) (dm_get (st_orders st')) (dm_get outs) (dm_get outs')"
  using assms
proof (induction accepted arbitrary: st outs)
  case Nil
  then show ?case by (simp add: rolled_back_def)
next
  case (Cons a accepted)
  obtain i oid f where a: "a = (i, oid, f)" by (cases a)
  obtain st1 outs1 where one: "rollback_one X now items (i, oid, f) (st, outs) = (st1, outs1)" by fastforce
  obtain info where info: "dm_get (st_orders st) (x_oid_str X oid) = Some info" "oi_filled_quantity info = f"
    using Cons.prems(2) by (auto simp: a batch_tracked_def acc_id_def)
  have i: "i < length items" using Cons.prems(4) by (simp add: a)
  from app_ok_rollback_one [OF Cons.prems(1) i info one]
  obtain oc x where ok1: "app_ok X gen st1" and outs1: "outs1 = dm_insert i oc outs"
    and os1: "dm_get (st_orders st1) = (dm_get (st_orders st))(x_oid_str X oid := x)"
    and x: "x \<noteq> None \<longleftrightarrow> is_unrollbackable oc" "is_unrollbackable oc \<longrightarrow> (\<exists>w. oc = Unrollbackable (x_oid_str X oid) w)"
    by auto
  have notin: "x_oid_str X oid \<notin> acc_id X ` set accepted" "i \<notin> fst ` set accepted"
    using Cons.prems(2) by (auto simp: a batch_tracked_def acc_id_def)
  have tracked1: "batch_tracked X accepted (st_orders st1)"
    using Cons.prems(2) notin(1) by (auto simp: a batch_tracked_def os1 image_iff)
  have "dm_ok outs1" using Cons.prems(3) by (simp add: outs1 dm_ok_insert)
  moreover have "fold (rollback_one X now items) accepted (st1, outs1) = (st', outs')"
    using Cons.prems(5) by (simp add: a one)
  ultimately have IH: "app_ok X gen st' \<and> dm_ok outs'
      \<and> rolled_back X accepted (dm_get (st_orders st1)) (dm_get (st_orders st')) (dm_get outs1) (dm_get outs')"
    using Cons.IH [OF ok1 tracked1] Cons.prems(4) by simp
  moreover have "rolled_back X (a # accepted) (dm_get (st_orders st)) (dm_get (st_orders st')) (dm_get outs) (dm_get outs')"
    using IH notin x by (auto simp: a rolled_back_def os1 outs1 store_simps acc_id_def)
  ultimately show ?case by simp
qed

lemma id_str_inj: "ids_roundtrip X \<Longrightarrow> x_oid_str X i = x_oid_str X j \<longleftrightarrow> i = j"
  unfolding ids_roundtrip_def by (metis option.inject)

lemma fresh_untracked:
  assumes "app_ok X gen st" and "inj gen" and "ids_roundtrip X" and "v_next_id (st_venue st) \<le> n"
  shows "dm_get (st_orders st) (x_oid_str X (gen n)) = None"
proof (rule ccontr)
  assume "dm_get (st_orders st) (x_oid_str X (gen n)) \<noteq> None"
  then obtain k where "k < v_next_id (st_venue st)" "x_oid_str X (gen n) = x_oid_str X (gen k)"
    using assms(1) by (auto simp: app_ok_def orders_issued_def)
  with assms(2-4) show False by (simp add: id_str_inj inj_eq)
qed

text \<open>The loop's state against the state \<open>st0\<close> the request found.\<close>

definition reported :: "bulk_result_item list \<Rightarrow> string set" where
  "reported results = {k. Some k \<in> bri_order_id ` set results}"

definition accepted_count :: "bulk_result_item list \<Rightarrow> nat" where
  "accepted_count results = length (filter (\<lambda>r. bri_status r = BulkAccepted) results)"

record 'o batch =
  ba_index :: nat
  ba_accepted :: "(nat \<times> 'o \<times> u64) list"
  ba_results :: "bulk_result_item list"
  ba_success :: nat
  ba_failure :: nat

text \<open>The ids were issued since \<open>lo\<close>, at indices below \<open>i\<close>.\<close>

definition acc_issued :: "(nat \<Rightarrow> 'o) \<Rightarrow> nat \<Rightarrow> nat \<Rightarrow> nat \<Rightarrow> (nat \<times> 'o \<times> u64) list \<Rightarrow> bool" where
  "acc_issued gen lo hi i acc \<longleftrightarrow>
     (\<forall>a\<in>set acc. fst a < i \<and> (\<exists>n. lo \<le> n \<and> n < hi \<and> fst (snd a) = gen n))"

lemma acc_issued_mono:
  "acc_issued gen lo hi i acc \<Longrightarrow> hi \<le> hi' \<Longrightarrow> i \<le> i' \<Longrightarrow> acc_issued gen lo hi' i' acc"
  unfolding acc_issued_def by (meson less_le_trans)

lemma acc_issued_snoc:
  "acc_issued gen lo hi i acc \<Longrightarrow> lo \<le> hi \<Longrightarrow> hi < hi' \<Longrightarrow>
   acc_issued gen lo hi' (Suc i) (acc @ [(i, gen hi, f)])"
  using acc_issued_mono [of gen lo hi i acc hi' "Suc i"] by (auto simp: acc_issued_def)

lemma acc_issued_fresh:
  assumes "acc_issued gen lo hi i acc" and "inj gen" and "ids_roundtrip X" and "hi \<le> n"
  shows "x_oid_str X (gen n) \<notin> acc_id X ` set acc"
proof
  assume "x_oid_str X (gen n) \<in> acc_id X ` set acc"
  then obtain e where "e \<in> set acc" "x_oid_str X (gen n) = x_oid_str X (fst (snd e))"
    by (auto simp: acc_id_def)
  with assms show False by (auto simp: acc_issued_def id_str_inj inj_eq)
qed

lemma batch_tracked_snoc:
  assumes "batch_tracked X acc os" and "x_oid_str X oid \<notin> acc_id X ` set acc" and "i \<notin> fst ` set acc"
    and "oi_filled_quantity info = f"
  shows "batch_tracked X (acc @ [(i, oid, f)]) (dm_insert (x_oid_str X oid) info os)"
proof -
  have "\<exists>info'. dm_get (dm_insert (x_oid_str X oid) info os) (acc_id X a) = Some info'
      \<and> oi_filled_quantity info' = snd (snd a)" if "a \<in> set (acc @ [(i, oid, f)])" for a
  proof (cases "acc_id X a = x_oid_str X oid")
    case True
    then have "a \<notin> set acc" using assms(2) by (metis image_eqI)
    with that have "a = (i, oid, f)" by simp
    with assms(4) show ?thesis by (simp add: acc_id_def store_simps)
  next
    case False
    with that have "a \<in> set acc" by (auto simp: acc_id_def)
    with False assms(1) show ?thesis by (auto simp: batch_tracked_def store_simps)
  qed
  then show ?thesis
    using assms(1-3) by (auto simp: batch_tracked_def acc_id_def [of X "(i, oid, f)"])
qed

definition batch_ok ::
  "('m, 'o) exchange \<Rightarrow> (nat \<Rightarrow> 'o) \<Rightarrow> ('m, 'o) app_state \<Rightarrow> 'o batch \<Rightarrow> ('m, 'o) app_state \<Rightarrow> bool" where
  "batch_ok X gen st0 b st \<longleftrightarrow>
     app_ok X gen st \<and> v_next_id (st_venue st0) \<le> v_next_id (st_venue st)
     \<and> batch_tracked X (ba_accepted b) (st_orders st)
     \<and> acc_issued gen (v_next_id (st_venue st0)) (v_next_id (st_venue st)) (ba_index b) (ba_accepted b)
     \<and> (\<forall>k. k \<notin> acc_id X ` set (ba_accepted b) \<longrightarrow> dm_get (st_orders st) k = dm_get (st_orders st0) k)
     \<and> map bri_index (ba_results b) = [0..<ba_index b] \<and> reported (ba_results b) = acc_id X ` set (ba_accepted b)
     \<and> accepted_count (ba_results b) = ba_success b \<and> ba_success b + ba_failure b = ba_index b"

text \<open>What the response of a batch of \<open>n\<close> orders says, and that it says it of the tracked orders.\<close>

definition batch_accounted ::
  "nat \<Rightarrow> ('m, 'o) app_state \<Rightarrow> ('m, 'o) app_state \<Rightarrow> bulk_order_response \<Rightarrow> bool" where
  "batch_accounted n st0 st resp \<longleftrightarrow>
     bor_success_count resp + bor_failure_count resp = n
     \<and> map bri_index (bor_results resp) = [0..<n]
     \<and> accepted_count (bor_results resp) = bor_success_count resp
     \<and> dm_get (st_orders st0) \<subseteq>\<^sub>m dm_get (st_orders st)
     \<and> dom (dm_get (st_orders st)) = dom (dm_get (st_orders st0)) \<union> reported (bor_results resp)"

lemma reported_append: "reported (rs @ [r]) = reported rs \<union> set_option (bri_order_id r)"
  by (auto simp: reported_def elim: set_mp intro: rev_image_eqI)

lemma accepted_count_append:
  "accepted_count (rs @ [r]) = accepted_count rs + (if bri_status r = BulkAccepted then 1 else 0)"
  by (simp add: accepted_count_def)

lemma batch_ok_start:
  "app_ok X gen st \<Longrightarrow>
   batch_ok X gen st \<lparr>ba_index = 0, ba_accepted = [], ba_results = [], ba_success = 0, ba_failure = 0\<rparr> st"
  by (simp add: batch_ok_def batch_tracked_def reported_def accepted_count_def acc_issued_def)

lemma batch_ok_accept:
  assumes b: "batch_ok X gen st0 \<lparr>ba_index = i, ba_accepted = acc, ba_results = rs, ba_success = s, ba_failure = f\<rparr> st"
    and laws: "conserves_quantity X" "inj gen" "ids_roundtrip X"
    and run: "submit_single_order X gen now item st = (st', Inr a)"
  shows "batch_ok X gen st0 \<lparr>ba_index = Suc i, ba_accepted = acc @ [(i, ab_order_id a, ab_filled_quantity a)],
    ba_results = rs @ [\<lparr>bri_index = i, bri_order_id = Some (x_oid_str X (ab_order_id a)),
      bri_status = BulkAccepted, bri_error = None\<rparr>], ba_success = Suc s, ba_failure = f\<rparr> st'"
proof -
  have ok: "app_ok X gen st" using b by (simp add: batch_ok_def)
  obtain info where st': "app_ok X gen st'" "ab_order_id a = gen (v_next_id (st_venue st))"
      "v_next_id (st_venue st) < v_next_id (st_venue st')"
      "st_orders st' = dm_insert (x_oid_str X (ab_order_id a)) info (st_orders st)"
      "oi_filled_quantity info = ab_filled_quantity a"
    using app_ok_submit_single [OF laws(1) ok run] by auto
  have iss: "acc_issued gen (v_next_id (st_venue st0)) (v_next_id (st_venue st)) i acc"
    using b by (simp add: batch_ok_def)
  have new: "x_oid_str X (ab_order_id a) \<notin> acc_id X ` set acc"
    unfolding st'(2) by (rule acc_issued_fresh [OF iss laws(2,3)]) simp
  have "i \<notin> fst ` set acc" using iss by (auto simp: acc_issued_def)
  then have tr: "batch_tracked X (acc @ [(i, ab_order_id a, ab_filled_quantity a)]) (st_orders st')"
    unfolding st'(4) using b new st'(5) by (intro batch_tracked_snoc) (simp_all add: batch_ok_def)
  have iss': "acc_issued gen (v_next_id (st_venue st0)) (v_next_id (st_venue st')) (Suc i)
      (acc @ [(i, ab_order_id a, ab_filled_quantity a)])"
    unfolding st'(2) using b st'(3) by (intro acc_issued_snoc [OF iss]) (simp_all add: batch_ok_def)
  have same: "dm_get (st_orders st') k = dm_get (st_orders st0) k"
    if "k \<notin> acc_id X ` set (acc @ [(i, ab_order_id a, ab_filled_quantity a)])" for k
    using b that by (auto simp: batch_ok_def st'(4) store_simps acc_id_def)
  have rep: "reported (rs @ [\<lparr>bri_index = i, bri_order_id = Some (x_oid_str X (ab_order_id a)),
      bri_status = BulkAccepted, bri_error = None\<rparr>])
      = acc_id X ` set (acc @ [(i, ab_order_id a, ab_filled_quantity a)])"
    using b by (simp add: batch_ok_def reported_append acc_id_def)
  have cnt: "map bri_index rs = [0..<i]" "accepted_count rs = s" "s + f = i"
      "v_next_id (st_venue st0) \<le> v_next_id (st_venue st')"
    using b st'(3) by (simp_all add: batch_ok_def)
  have "map bri_index (rs @ [\<lparr>bri_index = i, bri_order_id = oid, bri_status = BulkAccepted, bri_error = None\<rparr>]) = [0..<Suc i]"
    "accepted_count (rs @ [\<lparr>bri_index = i, bri_order_id = oid, bri_status = BulkAccepted, bri_error = None\<rparr>]) = Suc s"
    "Suc s + f = Suc i" for oid
    using cnt by (simp_all add: accepted_count_append)
  then show ?thesis
    unfolding batch_ok_def batch.simps
    by (intro conjI allI impI st'(1) tr iss' same rep cnt(4))
qed

lemma batch_ok_reject:
  assumes b: "batch_ok X gen st0 \<lparr>ba_index = i, ba_accepted = acc, ba_results = rs, ba_success = s, ba_failure = f\<rparr> st"
    and laws: "conserves_quantity X"
    and run: "submit_single_order X gen now item st = (st', Inl e)"
  shows "batch_ok X gen st0 \<lparr>ba_index = Suc i, ba_accepted = acc,
    ba_results = rs @ [\<lparr>bri_index = i, bri_order_id = None, bri_status = BulkRejected, bri_error = Some e\<rparr>],
    ba_success = s, ba_failure = Suc f\<rparr> st'"
proof -
  have ok: "app_ok X gen st" using b by (simp add: batch_ok_def)
  have st': "app_ok X gen st'" "st_orders st' = st_orders st" "v_next_id (st_venue st) \<le> v_next_id (st_venue st')"
    using app_ok_submit_single [OF laws ok run] by auto
  have f: "v_next_id (st_venue st0) \<le> v_next_id (st_venue st)" "batch_tracked X acc (st_orders st)"
      "acc_issued gen (v_next_id (st_venue st0)) (v_next_id (st_venue st)) i acc"
      "\<And>k. k \<notin> acc_id X ` set acc \<Longrightarrow> dm_get (st_orders st) k = dm_get (st_orders st0) k"
      "map bri_index rs = [0..<i]" "reported rs = acc_id X ` set acc" "accepted_count rs = s" "s + f = i"
    using b unfolding batch_ok_def batch.simps by blast+
  have "map bri_index (rs @ [\<lparr>bri_index = i, bri_order_id = None, bri_status = BulkRejected, bri_error = Some e\<rparr>]) = [0..<Suc i]"
    "accepted_count (rs @ [\<lparr>bri_index = i, bri_order_id = None, bri_status = BulkRejected, bri_error = Some e\<rparr>]) = s"
    "reported (rs @ [\<lparr>bri_index = i, bri_order_id = None, bri_status = BulkRejected, bri_error = Some e\<rparr>]) = acc_id X ` set acc"
    "s + Suc f = Suc i"
    using f(5-8) by (simp_all add: accepted_count_append reported_append)
  then show ?thesis
    unfolding batch_ok_def batch.simps st'(2)
    by (intro conjI allI impI st'(1) f(2,4) le_trans [OF f(1) st'(3)] acc_issued_mono [OF f(3) st'(3)]) simp_all
qed

text \<open>A finished loop, and a rollback, account for the batch.\<close>

lemma dm_count:
  assumes "dm_ok m"
  shows "length (filter P (dm_values m)) = card {k. \<exists>v. dm_get m k = Some v \<and> P v}"
proof -
  have dist: "distinct (map fst (filter (\<lambda>e. P (snd e)) m))"
    using assms by (auto simp: dm_ok_def intro: distinct_map_filter)
  have "fst ` set (filter (\<lambda>e. P (snd e)) m) = {k. \<exists>v. dm_get m k = Some v \<and> P v}"
    using assms by (force simp: dm_ok_def map_of_eq_Some_iff image_iff)
  then have "card {k. \<exists>v. dm_get m k = Some v \<and> P v} = length (map fst (filter (\<lambda>e. P (snd e)) m))"
    using distinct_card [OF dist] by simp
  then show ?thesis by (simp add: filter_map comp_def)
qed

lemma accounted_ids_fresh:
  assumes "app_ok X gen st0" and "inj gen" and "ids_roundtrip X"
    and "acc_issued gen (v_next_id (st_venue st0)) hi i acc" and "k \<in> acc_id X ` set acc"
  shows "dm_get (st_orders st0) k = None"
proof -
  obtain a where "a \<in> set acc" "k = x_oid_str X (fst (snd a))" using assms(5) by (auto simp: acc_id_def)
  then obtain n where "v_next_id (st_venue st0) \<le> n" "k = x_oid_str X (gen n)"
    using assms(4) by (auto simp: acc_issued_def)
  then show ?thesis using fresh_untracked [OF assms(1-3)] by simp
qed

lemma batch_done:
  assumes laws: "app_ok X gen st0" "inj gen" "ids_roundtrip X"
    and b: "batch_ok X gen st0 \<lparr>ba_index = n, ba_accepted = acc, ba_results = rs, ba_success = s, ba_failure = f\<rparr> st"
  shows "batch_accounted n st0 st \<lparr>bor_success_count = s, bor_failure_count = f, bor_results = rs,
    bor_rolled_back = False, bor_rollback_warnings = []\<rparr>"
proof -
  have f: "batch_tracked X acc (st_orders st)"
      "acc_issued gen (v_next_id (st_venue st0)) (v_next_id (st_venue st)) n acc"
      "\<And>k. k \<notin> acc_id X ` set acc \<Longrightarrow> dm_get (st_orders st) k = dm_get (st_orders st0) k"
      "map bri_index rs = [0..<n]" "reported rs = acc_id X ` set acc" "accepted_count rs = s" "s + f = n"
    using b unfolding batch_ok_def batch.simps by blast+
  have new: "dm_get (st_orders st0) k = None" if "k \<in> acc_id X ` set acc" for k
    by (rule accounted_ids_fresh [OF laws f(2) that])
  have trk: "dm_get (st_orders st) k \<noteq> None" if "k \<in> acc_id X ` set acc" for k
    using f(1) that by (auto simp: batch_tracked_def)
  have "dm_get (st_orders st0) \<subseteq>\<^sub>m dm_get (st_orders st)"
    unfolding map_le_def using f(3) new by (metis domIff)
  moreover have "dom (dm_get (st_orders st)) = dom (dm_get (st_orders st0)) \<union> acc_id X ` set acc"
  proof (intro set_eqI iffI)
    fix k assume "k \<in> dom (dm_get (st_orders st))"
    then show "k \<in> dom (dm_get (st_orders st0)) \<union> acc_id X ` set acc" using f(3) [of k] by (metis UnCI domIff)
  next
    fix k assume "k \<in> dom (dm_get (st_orders st0)) \<union> acc_id X ` set acc"
    then show "k \<in> dom (dm_get (st_orders st))" using f(3) [of k] trk [of k] by (metis UnE domIff)
  qed
  ultimately show ?thesis using f(4-7) by (simp add: batch_accounted_def)
qed

text \<open>The response of a rollback in terms of the orders that could not be rolled back.\<close>

definition unrollbackable :: "(nat, rollback_outcome) dashmap \<Rightarrow> nat set" where
  "unrollbackable outs = {j. \<exists>oc. dm_get outs j = Some oc \<and> is_unrollbackable oc}"

lemma rollback_response_counts:
  assumes "dm_ok outs" and "unrollbackable outs \<subseteq> {..<n}"
  shows "bor_success_count (rollback_response outs n fi err) = card (unrollbackable outs)"
    and "bor_success_count (rollback_response outs n fi err) + bor_failure_count (rollback_response outs n fi err) = n"
    and "accepted_count (bor_results (rollback_response outs n fi err)) = card (unrollbackable outs)"
    and "map bri_index (bor_results (rollback_response outs n fi err)) = [0..<n]"
proof -
  let ?U = "unrollbackable outs"
  have cU: "card ?U \<le> n" using card_mono [of "{..<n}" ?U] assms(2) by simp
  show succ: "bor_success_count (rollback_response outs n fi err) = card ?U"
    unfolding rollback_response_def Let_def unrollbackable_def dm_count [OF assms(1)] by simp
  show "bor_success_count (rollback_response outs n fi err) + bor_failure_count (rollback_response outs n fi err) = n"
    using cU succ by (simp add: rollback_response_def Let_def)
  have "bri_status (rollback_result outs fi err j) = BulkAccepted \<longleftrightarrow> j \<in> ?U" for j
    by (auto simp: rollback_result_def unrollbackable_def split: option.splits rollback_outcome.splits)
  then have "accepted_count (bor_results (rollback_response outs n fi err)) = length (filter (\<lambda>j. j \<in> ?U) [0..<n])"
    by (simp add: rollback_response_def Let_def accepted_count_def filter_map comp_def)
  also have "\<dots> = card (set (filter (\<lambda>j. j \<in> ?U) [0..<n]))" by (rule distinct_card [symmetric]) simp
  also have "set (filter (\<lambda>j. j \<in> ?U) [0..<n]) = ?U" using assms(2) by auto
  finally show "accepted_count (bor_results (rollback_response outs n fi err)) = card ?U" .
  show "map bri_index (bor_results (rollback_response outs n fi err)) = [0..<n]"
    by (simp add: rollback_response_def Let_def rollback_result_def comp_def map_idI
        split: option.splits rollback_outcome.splits)
qed

lemma rollback_reported:
  "reported (bor_results (rollback_response outs n fi err)) = {k. \<exists>j < n. \<exists>w. dm_get outs j = Some (Unrollbackable k w)}"
proof -
  have oid: "Some k = bri_order_id (rollback_result outs fi err j) \<longleftrightarrow> (\<exists>w. dm_get outs j = Some (Unrollbackable k w))" for j k
    by (auto simp: rollback_result_def split: option.splits rollback_outcome.splits)
  show ?thesis by (simp add: rollback_response_def Let_def reported_def image_image image_iff oid Bex_def)
qed

lemma rolled_back_reported:
  assumes "rolled_back X acc old orders Map.empty (dm_get outs)" and "\<forall>a \<in> set acc. fst a < n"
  shows "unrollbackable outs \<subseteq> {..<n}"
    and "k \<in> reported (bor_results (rollback_response outs n fi err)) \<longleftrightarrow> k \<in> acc_id X ` set acc \<and> orders k \<noteq> None"
proof -
  have acc: "\<exists>a \<in> set acc. fst a = j" if "j \<in> unrollbackable outs" for j
    using assms(1) that unfolding unrollbackable_def rolled_back_def by fastforce
  then show "unrollbackable outs \<subseteq> {..<n}" using assms(2) by auto
  show "k \<in> reported (bor_results (rollback_response outs n fi err)) \<longleftrightarrow> k \<in> acc_id X ` set acc \<and> orders k \<noteq> None"
  proof
    assume "k \<in> reported (bor_results (rollback_response outs n fi err))"
    then obtain j w where j: "dm_get outs j = Some (Unrollbackable k w)" by (auto simp: rollback_reported)
    then obtain a where a: "a \<in> set acc" "fst a = j" using acc [of j] by (auto simp: unrollbackable_def)
    with assms(1) j show "k \<in> acc_id X ` set acc \<and> orders k \<noteq> None"
      unfolding rolled_back_def by fastforce
  next
    assume k: "k \<in> acc_id X ` set acc \<and> orders k \<noteq> None"
    then obtain a where a: "a \<in> set acc" "k = acc_id X a" by auto
    with assms(1) k obtain w where "dm_get outs (fst a) = Some (Unrollbackable k w)"
      unfolding rolled_back_def by fastforce
    with a assms(2) show "k \<in> reported (bor_results (rollback_response outs n fi err))" by (auto simp: rollback_reported)
  qed
qed

lemma batch_rolled_back:
  assumes laws: "app_ok X gen st0" "inj gen" "ids_roundtrip X"
    and b: "batch_ok X gen st0 \<lparr>ba_index = i, ba_accepted = acc, ba_results = rs, ba_success = s, ba_failure = f\<rparr> st"
    and i: "i \<le> length items"
    and run: "rollback_atomic_bulk X now items acc fi err st = (st', resp)"
  shows "app_ok X gen st' \<and> batch_accounted (length items) st0 st' resp"
proof -
  have f: "app_ok X gen st" "batch_tracked X acc (st_orders st)"
      "acc_issued gen (v_next_id (st_venue st0)) (v_next_id (st_venue st)) i acc"
      "\<And>k. k \<notin> acc_id X ` set acc \<Longrightarrow> dm_get (st_orders st) k = dm_get (st_orders st0) k"
    using b unfolding batch_ok_def batch.simps by blast+
  obtain outs where fold: "fold (rollback_one X now items) acc (st, []) = (st', outs)"
    and resp: "resp = rollback_response outs (length items) fi err"
    using run by (auto simp: rollback_atomic_bulk_def split: prod.splits)
  have idx: "\<forall>a\<in>set acc. fst a < length items" using f(3) i by (auto simp: acc_issued_def)
  from rollback_fold [OF f(1,2) _ idx fold]
  have ok: "app_ok X gen st'" and outs_ok: "dm_ok outs"
    and rb: "rolled_back X acc (dm_get (st_orders st)) (dm_get (st_orders st')) Map.empty (dm_get outs)"
    by (simp_all add: dm_ok_def)
  note reported = rolled_back_reported(2) [OF rb idx, where fi = fi and err = err, folded resp]
  note counts = rollback_response_counts [OF outs_ok rolled_back_reported(1) [OF rb idx], where fi = fi and err = err, folded resp]
  have same: "dm_get (st_orders st') k = dm_get (st_orders st0) k" if "k \<notin> acc_id X ` set acc" for k
    using rb f(4) [OF that] that by (simp add: rolled_back_def)
  have new: "dm_get (st_orders st0) k = None" if "k \<in> acc_id X ` set acc" for k
    by (rule accounted_ids_fresh [OF laws f(3) that])
  have "dm_get (st_orders st0) \<subseteq>\<^sub>m dm_get (st_orders st')"
    unfolding map_le_def using same new by (metis domIff)
  moreover have "dom (dm_get (st_orders st')) = dom (dm_get (st_orders st0)) \<union> reported (bor_results resp)"
  proof (intro set_eqI)
    fix k
    show "k \<in> dom (dm_get (st_orders st')) \<longleftrightarrow> k \<in> dom (dm_get (st_orders st0)) \<union> reported (bor_results resp)"
      using same [of k] new [of k]
      by (cases "k \<in> acc_id X ` set acc") (simp_all only: Un_iff reported domIff simp_thms)
  qed
  ultimately show ?thesis using ok counts by (simp add: batch_accounted_def)
qed

lemma bulk_loop_accounted:
  assumes laws: "conserves_quantity X" "app_ok X gen st0" "inj gen" "ids_roundtrip X"
    and b: "batch_ok X gen st0 \<lparr>ba_index = i, ba_accepted = acc, ba_results = rs, ba_success = s, ba_failure = f\<rparr> st"
    and len: "i + length rest = length items"
    and run: "bulk_loop X gen clock items atomic i rest acc rs s f st = (st', resp)"
  shows "app_ok X gen st' \<and> batch_accounted (length items) st0 st' resp"
  using b len run
proof (induction rest arbitrary: i acc rs s f st)
  case Nil
  then show ?case using batch_done [OF laws(2-4) Nil.prems(1)] by (auto simp: batch_ok_def)
next
  case (Cons item rest)
  obtain st1 res where sub: "submit_single_order X gen (clock i) item st = (st1, res)" by fastforce
  show ?case
  proof (cases res)
    case (Inl e)
    note rej = batch_ok_reject [OF Cons.prems(1) laws(1) sub [unfolded Inl]]
    show ?thesis
    proof (cases atomic)
      case True
      have "rollback_atomic_bulk X (clock (Suc i)) items acc i e st1 = (st', resp)"
        using Cons.prems(3) sub Inl True by simp
      then show ?thesis
        using Cons.prems(2) by (intro batch_rolled_back [OF laws(2-4) rej]) simp_all
    next
      case False
      then show ?thesis
        using Cons.prems(2,3) sub Inl by (intro Cons.IH [OF rej]) simp_all
    qed
  next
    case (Inr a)
    show ?thesis
      using Cons.prems(2,3) sub Inr
      by (intro Cons.IH [OF batch_ok_accept [OF Cons.prems(1) laws(1,3,4) sub [unfolded Inr]]]) simp_all
  qed
qed

lemma bulk_submit_accounted:
  assumes "conserves_quantity X" "app_ok X gen st" "inj gen" "ids_roundtrip X"
    and "bulk_submit_orders X gen clock body st = (st', res)"
  shows "app_ok X gen st' \<and> (case res of Inl _ \<Rightarrow> st' = st
    | Inr resp \<Rightarrow> batch_accounted (length (br_orders body)) st st' resp)"
  using assms(2,5) bulk_loop_accounted [OF assms(1-4) batch_ok_start [OF assms(2)],
      of "br_orders body" "br_orders body" clock "br_atomic body"]
  by (auto simp: bulk_submit_orders_def split: prod.splits if_splits)

section \<open>Cancelling by id and by filter\<close>

lemma untrack_cancelled_frame [simp]:
  "st_orders (untrack_cancelled X bk info oid st) = dm_remove oid (st_orders st)"
  by (simp add: untrack_cancelled_def)

lemma app_ok_untrack_cancelled [wf_intros]:
  "app_ok X gen st \<Longrightarrow> app_ok X gen (untrack_cancelled X bk info oid st)"
  by (simp add: untrack_cancelled_def app_ok_publish app_ok_untrack)

lemma bulk_cancel_one_effect:
  assumes "bulk_cancel_one X oid st = (st', r)"
  shows "bcr_order_id r = oid" and "bcr_canceled r \<longleftrightarrow> bcr_error r = None"
    and "st_orders st' = (if bcr_canceled r then dm_remove oid (st_orders st) else st_orders st)"
    and "bcr_canceled r \<Longrightarrow> dm_get (st_orders st) oid \<noteq> None"
    and "app_ok X gen st \<Longrightarrow> app_ok X gen st'"
  using assms
  by (auto simp: bulk_cancel_one_def Let_def app_ok_untrack_cancelled app_ok_set_manager
      split: option.splits sum.splits prod.splits bool.splits)

lemma bulk_cancel_loop_effect:
  assumes "bulk_cancel_loop X oids rs s f st = (st', resp)"
  shows "\<exists>new. bc_results resp = rs @ new \<and> map bcr_order_id new = oids
    \<and> bc_success_count resp = s + length (filter bcr_canceled new)
    \<and> bc_success_count resp + bc_failure_count resp = s + f + length oids
    \<and> dm_get (st_orders st') = (\<lambda>k. if \<exists>r. r \<in> set new \<and> bcr_canceled r \<and> bcr_order_id r = k then None
         else dm_get (st_orders st) k)"
  using assms
proof (induction oids arbitrary: rs s f st)
  case Nil
  then show ?case by auto
next
  case (Cons oid oids)
  obtain st1 r where one: "bulk_cancel_one X oid st = (st1, r)" by fastforce
  note eff = bulk_cancel_one_effect [OF one]
  have rest: "bulk_cancel_loop X oids (rs @ [r]) (if bcr_canceled r then Suc s else s)
      (if bcr_canceled r then f else Suc f) st1 = (st', resp)"
    using Cons.prems one by (auto split: if_splits)
  obtain new where new: "bc_results resp = (rs @ [r]) @ new" "map bcr_order_id new = oids"
      "bc_success_count resp = (if bcr_canceled r then Suc s else s) + length (filter bcr_canceled new)"
      "bc_success_count resp + bc_failure_count resp
        = (if bcr_canceled r then Suc s else s) + (if bcr_canceled r then f else Suc f) + length oids"
      "dm_get (st_orders st') = (\<lambda>k. if \<exists>r. r \<in> set new \<and> bcr_canceled r \<and> bcr_order_id r = k then None
         else dm_get (st_orders st1) k)"
    using Cons.IH [OF rest] by blast
  show ?case
    using new eff(1,3)
    by (intro exI [of _ "r # new"] conjI) (auto simp: fun_eq_iff store_simps)
qed

lemma app_ok_bulk_cancel_loop:
  "app_ok X gen st \<Longrightarrow> bulk_cancel_loop X oids rs s f st = (st', resp) \<Longrightarrow> app_ok X gen st'"
proof (induction oids arbitrary: rs s f st)
  case (Cons oid oids)
  obtain st1 r where one: "bulk_cancel_one X oid st = (st1, r)" by fastforce
  have "app_ok X gen st1" by (rule bulk_cancel_one_effect(5) [OF one Cons.prems(1)])
  then show ?case using Cons.IH [of st1] Cons.prems(2) one by (auto split: if_splits)
qed simp

lemma cancel_all_one_effect:
  assumes "cancel_all_one X (oid, info) (st, c, f) = (st', c', f')"
  shows "(c' = Suc c \<and> f' = f \<and> st_orders st' = dm_remove oid (st_orders st))
      \<or> (c' = c \<and> f' = Suc f \<and> st_orders st' = st_orders st)"
    and "app_ok X gen st \<Longrightarrow> app_ok X gen st'"
  using assms
  by (auto simp: cancel_all_one_def Let_def app_ok_untrack_cancelled app_ok_set_manager
      split: option.splits sum.splits prod.splits bool.splits)

lemma cancel_all_fold:
  assumes "fold (cancel_all_one X) es (st, c, f) = (st', c', f')"
  shows "(\<exists>cs. subseq cs (map fst es) \<and> c' = c + length cs \<and> c' + f' = c + f + length es
      \<and> dm_get (st_orders st') = (\<lambda>k. if k \<in> set cs then None else dm_get (st_orders st) k))
    \<and> (app_ok X gen st \<longrightarrow> app_ok X gen st')"
  using assms
proof (induction es arbitrary: st c f)
  case Nil
  then show ?case by (intro conjI exI [of _ "[]"]) auto
next
  case (Cons e es)
  obtain oid info where e: "e = (oid, info)" by (cases e)
  obtain st1 c1 f1 where one: "cancel_all_one X (oid, info) (st, c, f) = (st1, c1, f1)" by (metis prod_cases3)
  note eff = cancel_all_one_effect [OF one]
  have "fold (cancel_all_one X) es (st1, c1, f1) = (st', c', f')" using Cons.prems by (simp add: e one)
  from Cons.IH [OF this] obtain cs where cs: "subseq cs (map fst es)" "c' = c1 + length cs"
      "c' + f' = c1 + f1 + length es"
      "dm_get (st_orders st') = (\<lambda>k. if k \<in> set cs then None else dm_get (st_orders st1) k)"
    and ok: "app_ok X gen st1 \<longrightarrow> app_ok X gen st'" by blast
  have "\<exists>cs. subseq cs (map fst (e # es)) \<and> c' = c + length cs \<and> c' + f' = c + f + length (e # es)
      \<and> dm_get (st_orders st') = (\<lambda>k. if k \<in> set cs then None else dm_get (st_orders st) k)"
    using eff(1)
  proof
    assume "c1 = Suc c \<and> f1 = f \<and> st_orders st1 = dm_remove oid (st_orders st)"
    with cs show ?thesis by (intro exI [of _ "oid # cs"]) (auto simp: e store_simps fun_eq_iff)
  next
    assume "c1 = c \<and> f1 = Suc f \<and> st_orders st1 = st_orders st"
    with cs show ?thesis by (intro exI [of _ cs]) (auto simp: e)
  qed
  then show ?case using ok eff(2) by blast
qed

lemma app_ok_bulk_cancel:
  "app_ok X gen st \<Longrightarrow> bulk_cancel_orders X oids st = (st', res) \<Longrightarrow> app_ok X gen st'"
  using app_ok_bulk_cancel_loop [of X gen st oids "[]" 0 0]
  by (auto simp: bulk_cancel_orders_def split: prod.splits if_splits)

lemma app_ok_cancel_all:
  assumes "app_ok X gen st" and "cancel_all_orders X q st = (st', res)"
  shows "app_ok X gen st'"
  using assms cancel_all_fold [of X _ st 0 0, where gen = gen]
  by (auto simp: cancel_all_orders_def split: sum.splits prod.splits)

section \<open>Properties\<close>

lemma bulk_loop_atomic:
  assumes "bulk_loop X gen clock items atomic i rest acc rs s f st = (st', resp)"
  shows "(atomic \<longrightarrow> bor_rolled_back resp \<or> bor_failure_count resp = f) \<and> (\<not> atomic \<longrightarrow> \<not> bor_rolled_back resp)"
  using assms
proof (induction rest arbitrary: i acc rs s f st)
  case (Cons item rest)
  obtain st1 res where sub: "submit_single_order X gen (clock i) item st = (st1, res)" by fastforce
  show ?case
  proof (cases res)
    case (Inl e)
    show ?thesis
    proof (cases atomic)
      case True
      then show ?thesis
        using Cons.prems sub Inl by (auto simp: rollback_atomic_bulk_def rollback_response_def Let_def split: prod.splits)
    next
      case False
      then have "\<not> atomic \<longrightarrow> \<not> bor_rolled_back resp" using Cons.IH Cons.prems sub Inl by simp
      with False show ?thesis by simp
    qed
  next
    case (Inr a)
    then show ?thesis using Cons.prems sub by (intro Cons.IH) simp
  qed
qed auto

text \<open>
  C6. The response to a bulk submission is the truth about the tracked orders, rolled back or
  not. Its counts add up to the number of orders, its results are one per order in order, as
  many are reported accepted as it counts, no earlier order is touched, and the orders
  tracked afterwards are the earlier ones and exactly the reported ones: an order undone by a
  rollback is not tracked, and one that could not be undone is reported accepted. An atomic
  batch is rolled back or has no failure.
\<close>

theorem bulk_response_accounts_for_orders:
  assumes "conserves_quantity X" and "app_ok X gen st" and "inj gen" and "ids_roundtrip X"
  shows "case bulk_submit_orders X gen clock body st of
      (st', Inl _) \<Rightarrow> st' = st
    | (st', Inr resp) \<Rightarrow>
        bor_success_count resp + bor_failure_count resp = length (br_orders body)
        \<and> map bri_index (bor_results resp) = [0..<length (br_orders body)]
        \<and> accepted_count (bor_results resp) = bor_success_count resp
        \<and> dm_get (st_orders st) \<subseteq>\<^sub>m dm_get (st_orders st')
        \<and> dom (dm_get (st_orders st')) = dom (dm_get (st_orders st)) \<union> reported (bor_results resp)
        \<and> (if br_atomic body then bor_rolled_back resp \<or> bor_failure_count resp = 0 else \<not> bor_rolled_back resp)"
proof -
  obtain st' res where run: "bulk_submit_orders X gen clock body st = (st', res)" by fastforce
  show ?thesis
  proof (cases res)
    case (Inl e)
    then show ?thesis using bulk_submit_accounted [OF assms run] by (simp add: run)
  next
    case (Inr resp)
    have acc: "batch_accounted (length (br_orders body)) st st' resp"
      using bulk_submit_accounted [OF assms run] Inr by simp
    have "bulk_loop X gen clock (br_orders body) (br_atomic body) 0 (br_orders body) [] [] 0 0 st = (st', resp)"
      using run Inr by (auto simp: bulk_submit_orders_def split: if_splits prod.splits)
    from bulk_loop_atomic [OF this] acc show ?thesis
      unfolding run Inr prod.case sum.case by (simp add: batch_accounted_def)
  qed
qed

definition demo_item :: "u64 \<Rightarrow> bulk_order_item" where
  "demo_item strike = \<lparr>bi_underlying = ''U'', bi_expiration = ''20300101'', bi_strike = strike, bi_style = WireCall,
     bi_side = Buy, bi_price = 150, bi_quantity = 5\<rparr>"

lemma demo_resting_ok: "app_ok demo_exchange (\<lambda>n. n) demo_resting"
proof -
  obtain resp where "add_order demo_exchange (\<lambda>n. n) 0 7 ''U'' ''20300101'' 100 ''call''
      (demo_add_request Buy 5) demo_start = (demo_resting, Inr resp)"
    using demo_add_run by blast
  then show ?thesis
    by (rule app_ok_add_order [OF demo_conserves, rotated]) (simp add: demo_start_def app_ok_new)
qed

lemma bulk_response_accounts_for_orders_witness:
  "\<exists>st' resp. bulk_submit_orders demo_exchange (\<lambda>n. n) (\<lambda>_. 7)
      \<lparr>br_orders = [demo_item 100, demo_item 999], br_atomic = True\<rparr> demo_resting = (st', Inr resp)
    \<and> bor_success_count resp + bor_failure_count resp = 2
    \<and> dom (dm_get (st_orders st')) = {''0''} \<union> reported (bor_results resp)"
proof -
  let ?body = "\<lparr>br_orders = [demo_item 100, demo_item 999], br_atomic = True\<rparr>"
  obtain st' resp where loop: "bulk_loop demo_exchange (\<lambda>n. n) (\<lambda>_. 7) [demo_item 100, demo_item 999] True 0
      [demo_item 100, demo_item 999] [] [] 0 0 demo_resting = (st', resp)" by fastforce
  have run: "bulk_submit_orders demo_exchange (\<lambda>n. n) (\<lambda>_. 7) ?body demo_resting = (st', Inr resp)"
    using loop by (simp add: bulk_submit_orders_def del: bulk_loop.simps)
  have "inj (\<lambda>n::nat. n)" by (simp add: inj_on_def)
  from bulk_response_accounts_for_orders [OF demo_conserves demo_resting_ok this demo_ids_roundtrip,
      where clock = "\<lambda>_. 7" and body = ?body] run
  show ?thesis by (intro exI [of _ st'] exI [of _ resp]) auto
qed

text \<open>
  The response to a bulk cancellation has one result per id, in order; its counts are the
  results that say cancelled and the rest; and the orders no longer tracked are exactly the
  ones some result says were cancelled. Every other tracked order is as it was.
\<close>

theorem bulk_cancel_accounts_for_orders:
  "case bulk_cancel_orders X oids st of
      (st', Inl _) \<Rightarrow> st' = st \<and> oids = []
    | (st', Inr resp) \<Rightarrow>
        map bcr_order_id (bc_results resp) = oids
        \<and> bc_success_count resp = length (filter bcr_canceled (bc_results resp))
        \<and> bc_success_count resp + bc_failure_count resp = length oids
        \<and> dm_get (st_orders st') = (\<lambda>k. if \<exists>r. r \<in> set (bc_results resp) \<and> bcr_canceled r \<and> bcr_order_id r = k
             then None else dm_get (st_orders st) k)"
proof (cases "oids = []")
  case False
  obtain st' resp where run: "bulk_cancel_loop X oids [] 0 0 st = (st', resp)" by fastforce
  from bulk_cancel_loop_effect [OF run] False show ?thesis
    by (auto simp: bulk_cancel_orders_def run)
qed (simp add: bulk_cancel_orders_def)


end
