(* ===== verification/Snapshots.thy ===== *)
theory Snapshots
  imports Order_Flow "HOL-Library.While_Combinator"
begin

text \<open>
  Order-book snapshots: \<open>StoredSnapshot\<close> and \<open>insert_snapshot_bounded\<close> of
  \<open>src/src/state.rs\<close>, and the handlers \<open>create_snapshot\<close>, \<open>list_snapshots\<close>,
  \<open>get_snapshot\<close> and \<open>restore_snapshot\<close> of \<open>src/src/api/handlers.rs\<close>. The store is an
  instance of the \<open>evicting_store\<close> interface. Taking the snapshot of one book, its JSON form
  and putting it back belong to the order-book library and serde: they are the record
  \<open>snapshot_lib\<close>. Clock readings and the fresh uuid are arguments.
\<close>

section \<open>Data\<close>

record orderbook_snapshot_info =
  osi_snapshot_id :: string
  osi_underlying :: string
  osi_expiration :: string
  osi_strike :: u64
  osi_style :: string
  osi_order_count :: u64
  osi_bid_levels :: u64
  osi_ask_levels :: u64
  osi_data :: string
  osi_created_at :: u64

record create_snapshot_response =
  csr_success :: bool
  csr_snapshot_id :: string
  csr_orderbooks_saved :: u64
  csr_orders_saved :: u64
  csr_orderbooks_failed :: u64
  csr_timestamp_ms :: u64

record snapshot_summary =
  sy_snapshot_id :: string
  sy_orderbook_count :: u64
  sy_total_orders :: u64
  sy_created_at :: u64

record restore_snapshot_response =
  rsr_success :: bool
  rsr_snapshot_id :: string
  rsr_orderbooks_restored :: u64
  rsr_orders_restored :: u64
  rsr_orderbooks_failed :: u64
  rsr_timestamp_ms :: u64

record stored_snapshot =
  ss_created_at_ms :: u64
  ss_infos :: "orderbook_snapshot_info list"
  ss_seq :: u64

text \<open>\<open>sn_seq\<close> is the counter \<open>SNAPSHOT_SEQ\<close> of the process.\<close>

record snapshot_store =
  sn_snapshots :: "(string, stored_snapshot) dashmap"
  sn_seq :: u64

text \<open>
  \<open>sx_bids\<close> and \<open>sx_asks\<close> give the number of orders of each level of a book snapshot.
\<close>

record ('m, 'b) snapshot_lib =
  sx_create :: "'m \<Rightarrow> book_key \<Rightarrow> 'b"
  sx_bids :: "'b \<Rightarrow> nat list"
  sx_asks :: "'b \<Rightarrow> nat list"
  sx_to_json :: "'b \<Rightarrow> string + string"
  sx_from_json :: "string \<Rightarrow> string + 'b"
  sx_restore :: "'m \<Rightarrow> book_key \<Rightarrow> 'b \<Rightarrow> 'm \<times> (string + unit)"

section \<open>The bounded store\<close>

definition max_retained_snapshots :: nat where
  "max_retained_snapshots = 16"

text \<open>The pair the eviction compares: creation time, then creation sequence.\<close>

datatype snapshot_age = SnapshotAge u64 u64

instantiation snapshot_age :: linorder
begin

fun less_eq_snapshot_age :: "snapshot_age \<Rightarrow> snapshot_age \<Rightarrow> bool" where
  "less_eq_snapshot_age (SnapshotAge t s) (SnapshotAge t' s') \<longleftrightarrow> t < t' \<or> t = t' \<and> s \<le> s'"

definition less_snapshot_age :: "snapshot_age \<Rightarrow> snapshot_age \<Rightarrow> bool" where
  "less_snapshot_age a b \<longleftrightarrow> a \<le> b \<and> \<not> b \<le> a"

instance
proof
  fix a b c :: snapshot_age
  show "a < b \<longleftrightarrow> a \<le> b \<and> \<not> b \<le> a" by (rule less_snapshot_age_def)
  show "a \<le> a" by (cases a) simp
  show "a \<le> b \<Longrightarrow> b \<le> c \<Longrightarrow> a \<le> c" by (cases a; cases b; cases c) auto
  show "a \<le> b \<Longrightarrow> b \<le> a \<Longrightarrow> a = b" by (cases a; cases b) auto
  show "a \<le> b \<or> b \<le> a" by (cases a; cases b) auto
qed

end

definition snapshot_age :: "stored_snapshot \<Rightarrow> snapshot_age" where
  "snapshot_age s = SnapshotAge (ss_created_at_ms s) (ss_seq s)"

text \<open>\<open>min_by\<close> returns the first of several least elements.\<close>

definition oldest_snapshot :: "(string, stored_snapshot) dashmap \<Rightarrow> string option" where
  "oldest_snapshot m = (if m = [] then None else Some (fst (arg_min_list (snapshot_age \<circ> snd) m)))"

lemma oldest_snapshot_entry:
  assumes "oldest_snapshot m = Some k"
  shows "\<exists>s. (k, s) \<in> set m \<and> (\<forall>e \<in> set m. snapshot_age s \<le> snapshot_age (snd e))"
proof -
  have ne: "m \<noteq> []" using assms by (auto simp: oldest_snapshot_def)
  let ?e = "arg_min_list (snapshot_age \<circ> snd) m"
  have "(snapshot_age \<circ> snd) ?e = Min ((snapshot_age \<circ> snd) ` set m)"
    by (rule f_arg_min_list_f [OF ne])
  then have "\<forall>e \<in> set m. snapshot_age (snd ?e) \<le> snapshot_age (snd e)"
    by simp
  moreover have "?e \<in> set m" by (rule arg_min_list_in [OF ne])
  moreover have "fst ?e = k" using assms ne by (simp add: oldest_snapshot_def)
  ultimately show ?thesis by (metis prod.collapse)
qed

lemma dm_remove_shrinks: "(k, v) \<in> set m \<Longrightarrow> length (dm_remove k m) < length m"
  by (induction m) (auto simp: AList.delete_eq less_Suc_eq_le)

function evict_snapshots :: "(string, stored_snapshot) dashmap \<Rightarrow> (string, stored_snapshot) dashmap" where
  "evict_snapshots m =
     (if max_retained_snapshots < length m
      then (case oldest_snapshot m of
              None \<Rightarrow> m
            | Some k \<Rightarrow> evict_snapshots (dm_remove k m))
      else m)"
  by pat_completeness auto

termination evict_snapshots
proof (relation "measure length")
  fix m :: "(string, stored_snapshot) dashmap" and k
  assume "oldest_snapshot m = Some k"
  then obtain s where "(k, s) \<in> set m" using oldest_snapshot_entry by fast
  then show "(dm_remove k m, m) \<in> measure length" by (simp add: dm_remove_shrinks)
qed simp

declare evict_snapshots.simps [simp del]

interpretation snaps: evicting_store dm_get dm_insert dm_remove length dm_ok max_retained_snapshots
  oldest_snapshot "\<lambda>_. snapshot_age" evict_snapshots
proof unfold_locales
  fix m :: "(string, stored_snapshot) dashmap"
  assume ok: "dm_ok m" and "0 < length m"
  then obtain k where k: "oldest_snapshot m = Some k" by (auto simp: oldest_snapshot_def)
  obtain s where "(k, s) \<in> set m" using oldest_snapshot_entry [OF k] by fast
  with ok k show "\<exists>k v. oldest_snapshot m = Some k \<and> dm_get m k = Some v"
    by (auto simp: dm_ok_def)
next
  fix m :: "(string, stored_snapshot) dashmap" and k v k' v'
  assume ok: "dm_ok m" and k: "oldest_snapshot m = Some k" "dm_get m k = Some v" and k': "dm_get m k' = Some v'"
  obtain s where "(k, s) \<in> set m" and le: "\<forall>e \<in> set m. snapshot_age s \<le> snapshot_age (snd e)"
    using oldest_snapshot_entry [OF k(1)] by fast
  then have "s = v" using ok k(2) by (auto simp: dm_ok_def)
  then show "snapshot_age v \<le> snapshot_age v'" using le map_of_SomeD [OF k'] by auto
next
  fix m :: "(string, stored_snapshot) dashmap" and k
  assume "max_retained_snapshots < length m" and "oldest_snapshot m = Some k"
  then show "evict_snapshots m = evict_snapshots (dm_remove k m)"
    by (subst evict_snapshots.simps) simp
next
  fix m :: "(string, stored_snapshot) dashmap"
  assume "length m \<le> max_retained_snapshots"
  then show "evict_snapshots m = m" by (subst evict_snapshots.simps) simp
qed

lemma evict_snapshots_sub: "dm_get (evict_snapshots m) k = Some s \<Longrightarrow> dm_get m k = Some s"
proof (induction m rule: evict_snapshots.induct)
  case (1 m)
  then show ?case
    by (subst (asm) (2) evict_snapshots.simps) (auto simp: dm_get_remove split: if_splits option.splits)
qed

definition stored_snapshot_new :: "u64 \<Rightarrow> orderbook_snapshot_info list \<Rightarrow> snapshot_store \<Rightarrow> stored_snapshot \<times> snapshot_store" where
  "stored_snapshot_new created_at_ms infos s =
     (\<lparr>ss_created_at_ms = created_at_ms, ss_infos = infos, ss_seq = sn_seq s\<rparr>, s\<lparr>sn_seq := sn_seq s + 1\<rparr>)"

definition insert_snapshot_bounded :: "string \<Rightarrow> stored_snapshot \<Rightarrow> snapshot_store \<Rightarrow> snapshot_store" where
  "insert_snapshot_bounded snapshot_id snapshot s =
     s\<lparr>sn_snapshots := evict_snapshots (dm_insert snapshot_id snapshot (sn_snapshots s))\<rparr>"

section \<open>Handlers\<close>

text \<open>The books the walk over underlyings, expirations, strikes and styles visits.\<close>

definition snapshot_books :: "('m, 'o) exchange \<Rightarrow> 'm \<Rightarrow> book_key list" where
  "snapshot_books X m = concat (map (\<lambda>u.
     case x_get X m u of
       Inl _ \<Rightarrow> []
     | Inr _ \<Rightarrow> concat (map (\<lambda>e.
         case x_get_expiration X m u e of
           Inl _ \<Rightarrow> []
         | Inr _ \<Rightarrow> concat (map (\<lambda>k.
             case x_get_strike X m u e k of
               Inl _ \<Rightarrow> []
             | Inr _ \<Rightarrow> [(u, e, k, OptCall), (u, e, k, OptPut)]) (x_strikes X m u e)))
         (x_expirations X m u)))
     (x_underlyings X m))"

definition snapshot_order_count :: "('m, 'b) snapshot_lib \<Rightarrow> 'b \<Rightarrow> nat" where
  "snapshot_order_count S snapshot = sum_list (sx_bids S snapshot) + sum_list (sx_asks S snapshot)"

record snapshot_progress =
  sp_books :: u64
  sp_orders :: u64
  sp_failed :: u64
  sp_infos :: "orderbook_snapshot_info list"

definition snapshot_info ::
  "('m, 'o) exchange \<Rightarrow> ('m, 'b) snapshot_lib \<Rightarrow> string \<Rightarrow> u64 \<Rightarrow> 'm \<Rightarrow> book_key \<Rightarrow> string \<Rightarrow> orderbook_snapshot_info" where
  "snapshot_info X S snapshot_id now m bk data =
     (let (u, e, k, style) = bk; snapshot = sx_create S m bk
      in \<lparr>osi_snapshot_id = snapshot_id, osi_underlying = u, osi_expiration = format_expiration X e,
          osi_strike = k, osi_style = canonical_style style,
          osi_order_count = of_nat (snapshot_order_count S snapshot),
          osi_bid_levels = of_nat (length (sx_bids S snapshot)),
          osi_ask_levels = of_nat (length (sx_asks S snapshot)), osi_data = data, osi_created_at = now\<rparr>)"

definition snapshot_one ::
  "('m, 'o) exchange \<Rightarrow> ('m, 'b) snapshot_lib \<Rightarrow> string \<Rightarrow> u64 \<Rightarrow> 'm \<Rightarrow> book_key \<Rightarrow> snapshot_progress \<Rightarrow> snapshot_progress" where
  "snapshot_one X S snapshot_id now m bk p =
     (let snapshot = sx_create S m bk; order_count = snapshot_order_count S snapshot
      in if order_count = 0 then p
         else (case sx_to_json S snapshot of
                 Inl _ \<Rightarrow> p\<lparr>sp_failed := saturating_add (sp_failed p) 1\<rparr>
               | Inr data \<Rightarrow>
                   p\<lparr>sp_books := sp_books p + 1, sp_orders := sp_orders p + of_nat order_count,
                     sp_infos := sp_infos p @ [snapshot_info X S snapshot_id now m bk data]\<rparr>))"

definition create_snapshot ::
  "('m, 'o) exchange \<Rightarrow> ('m, 'b) snapshot_lib \<Rightarrow> string \<Rightarrow> u64 \<Rightarrow> 'm \<Rightarrow> snapshot_store
   \<Rightarrow> snapshot_store \<times> create_snapshot_response" where
  "create_snapshot X S snapshot_id now m s =
     (let p = fold (snapshot_one X S snapshot_id now m) (snapshot_books X m)
                \<lparr>sp_books = 0, sp_orders = 0, sp_failed = 0, sp_infos = []\<rparr>;
          (stored, s) = stored_snapshot_new now (sp_infos p) s
      in (insert_snapshot_bounded snapshot_id stored s,
          \<lparr>csr_success = (sp_failed p = 0), csr_snapshot_id = snapshot_id, csr_orderbooks_saved = sp_books p,
           csr_orders_saved = sp_orders p, csr_orderbooks_failed = sp_failed p, csr_timestamp_ms = now\<rparr>))"

definition list_snapshots :: "snapshot_store \<Rightarrow> snapshot_summary list \<times> u64" where
  "list_snapshots s =
     (let snapshots = map (\<lambda>(snapshot_id, stored).
            \<lparr>sy_snapshot_id = snapshot_id, sy_orderbook_count = of_nat (length (ss_infos stored)),
             sy_total_orders = sum_list (map osi_order_count (ss_infos stored)),
             sy_created_at = ss_created_at_ms stored\<rparr>) (sn_snapshots s)
      in (snapshots, of_nat (length snapshots)))"

definition get_snapshot :: "snapshot_store \<Rightarrow> string \<Rightarrow> api_error + orderbook_snapshot_info list" where
  "get_snapshot s snapshot_id =
     (case dm_get (sn_snapshots s) snapshot_id of
        Some stored \<Rightarrow> Inr (ss_infos stored)
      | None \<Rightarrow> Inl (NotFound (''Snapshot '' @ snapshot_id @ '' not found'')))"

text \<open>
  One entry of a restore: a failure at any stage counts the book as failed and goes on to the
  next one, keeping the books created so far.
\<close>

record restore_progress =
  rp_books :: u64
  rp_orders :: u64
  rp_failed :: u64

definition restore_failed :: "restore_progress \<Rightarrow> restore_progress" where
  "restore_failed p = p\<lparr>rp_failed := saturating_add (rp_failed p) 1\<rparr>"

definition snapshot_style :: "string \<Rightarrow> opt_style option" where
  "snapshot_style s = (if s = ''call'' then Some OptCall else if s = ''put'' then Some OptPut else None)"

definition restore_one ::
  "('m, 'o) exchange \<Rightarrow> ('m, 'b) snapshot_lib \<Rightarrow> orderbook_snapshot_info \<Rightarrow> 'm \<times> restore_progress
   \<Rightarrow> 'm \<times> restore_progress" where
  "restore_one X S info mp =
     (let (m, p) = mp in
      case sx_from_json S (osi_data info) of
        Inl _ \<Rightarrow> (m, restore_failed p)
      | Inr snapshot \<Rightarrow>
          (let m = x_get_or_create X m (osi_underlying info) in
           case parse_expiration X (osi_expiration info) of
             Inl _ \<Rightarrow> (m, restore_failed p)
           | Inr e \<Rightarrow>
               (let m = x_get_or_create_expiration X m (osi_underlying info) e;
                    m = x_get_or_create_strike X m (osi_underlying info) e (osi_strike info) in
                case snapshot_style (osi_style info) of
                  None \<Rightarrow> (m, restore_failed p)
                | Some style \<Rightarrow>
                    (case sx_restore S m (osi_underlying info, e, osi_strike info, style) snapshot of
                       (m, Inr _) \<Rightarrow> (m, p\<lparr>rp_books := rp_books p + 1, rp_orders := rp_orders p + osi_order_count info\<rparr>)
                     | (m, Inl _) \<Rightarrow> (m, restore_failed p)))))"

definition restore_snapshot ::
  "('m, 'o) exchange \<Rightarrow> ('m, 'b) snapshot_lib \<Rightarrow> u64 \<Rightarrow> string \<Rightarrow> snapshot_store \<Rightarrow> 'm
   \<Rightarrow> 'm \<times> (api_error + restore_snapshot_response)" where
  "restore_snapshot X S now snapshot_id s m =
     (case dm_get (sn_snapshots s) snapshot_id of
        None \<Rightarrow> (m, Inl (NotFound (''Snapshot '' @ snapshot_id @ '' not found'')))
      | Some stored \<Rightarrow>
          (let (m, p) = fold (restore_one X S) (ss_infos stored) (m, \<lparr>rp_books = 0, rp_orders = 0, rp_failed = 0\<rparr>)
           in (m, Inr \<lparr>rsr_success = (rp_failed p = 0), rsr_snapshot_id = snapshot_id, rsr_orderbooks_restored = rp_books p,
                rsr_orders_restored = rp_orders p, rsr_orderbooks_failed = rp_failed p, rsr_timestamp_ms = now\<rparr>)))"

section \<open>What a snapshot holds\<close>

lemma saturating_add_pos: "saturating_add (x :: u64) 1 \<noteq> 0"
proof -
  have "0 < uint (saturating_add x 1)" using uint_ge_0 [of x] by (simp add: uint_saturating_add del: uint_ge_0)
  then show ?thesis by (metis less_irrefl unsigned_0)
qed

definition saved_info ::
  "('m, 'o) exchange \<Rightarrow> ('m, 'b) snapshot_lib \<Rightarrow> string \<Rightarrow> u64 \<Rightarrow> 'm \<Rightarrow> book_key \<Rightarrow> orderbook_snapshot_info option" where
  "saved_info X S snapshot_id now m bk =
     (if snapshot_order_count S (sx_create S m bk) = 0 then None
      else (case sx_to_json S (sx_create S m bk) of
              Inl _ \<Rightarrow> None
            | Inr data \<Rightarrow> Some (snapshot_info X S snapshot_id now m bk data)))"

definition holds_orders :: "('m, 'b) snapshot_lib \<Rightarrow> 'm \<Rightarrow> book_key \<Rightarrow> bool" where
  "holds_orders S m bk \<longleftrightarrow> snapshot_order_count S (sx_create S m bk) \<noteq> 0"

lemma snapshot_one_effect:
  "sp_infos (snapshot_one X S i now m bk p) = sp_infos p @ (case saved_info X S i now m bk of None \<Rightarrow> [] | Some x \<Rightarrow> [x])"
  "sp_books (snapshot_one X S i now m bk p) = sp_books p + (if saved_info X S i now m bk = None then 0 else 1)"
  "sp_orders (snapshot_one X S i now m bk p) = sp_orders p
     + (case saved_info X S i now m bk of None \<Rightarrow> 0 | Some x \<Rightarrow> osi_order_count x)"
  "sp_failed (snapshot_one X S i now m bk p) = 0 \<longleftrightarrow>
     sp_failed p = 0 \<and> (holds_orders S m bk \<longrightarrow> saved_info X S i now m bk \<noteq> None)"
  by (simp_all add: snapshot_one_def saved_info_def holds_orders_def snapshot_info_def Let_def saturating_add_pos
      split: sum.splits prod.splits)

lemma snapshot_fold:
  "sp_infos (fold (snapshot_one X S i now m) bks p) = sp_infos p @ List.map_filter (saved_info X S i now m) bks"
  "sp_books (fold (snapshot_one X S i now m) bks p) = sp_books p + of_nat (length (List.map_filter (saved_info X S i now m) bks))"
  "sp_orders (fold (snapshot_one X S i now m) bks p) = sp_orders p
     + sum_list (map osi_order_count (List.map_filter (saved_info X S i now m) bks))"
  "sp_failed (fold (snapshot_one X S i now m) bks p) = 0 \<longleftrightarrow>
     sp_failed p = 0 \<and> (\<forall>bk \<in> set bks. holds_orders S m bk \<longrightarrow> saved_info X S i now m bk \<noteq> None)"
  by (induction bks arbitrary: p)
    (auto simp: snapshot_one_effect map_filter_simps algebra_simps split: option.splits)

section \<open>What a restore does\<close>

text \<open>
  What the library and serde promise: the JSON form of a snapshot reads back, creating books
  changes no book that has orders or not, putting a snapshot back gives that book this content
  and no other book anything, and a book accepts its own snapshot.
\<close>

definition snapshot_laws :: "('m, 'o) exchange \<Rightarrow> ('m, 'b) snapshot_lib \<Rightarrow> bool" where
  "snapshot_laws X S \<longleftrightarrow>
     (\<forall>b d. sx_to_json S b = Inr d \<longrightarrow> sx_from_json S d = Inr b)
   \<and> (\<forall>m u. sx_create S (x_get_or_create X m u) = sx_create S m)
   \<and> (\<forall>m u e. sx_create S (x_get_or_create_expiration X m u e) = sx_create S m)
   \<and> (\<forall>m u e k. sx_create S (x_get_or_create_strike X m u e k) = sx_create S m)
   \<and> (\<forall>m bk b m'. sx_restore S m bk b = (m', Inr ()) \<longrightarrow> sx_create S m' = (sx_create S m)(bk := b))
   \<and> (\<forall>m m' bk. \<exists>m''. sx_restore S m bk (sx_create S m' bk) = (m'', Inr ()))"

lemma snapshot_laws_json: "snapshot_laws X S \<Longrightarrow> sx_to_json S b = Inr d \<Longrightarrow> sx_from_json S d = Inr b"
  unfolding snapshot_laws_def by blast

lemma snapshot_laws_create [simp]:
  assumes "snapshot_laws X S"
  shows "sx_create S (x_get_or_create X m u) = sx_create S m"
    "sx_create S (x_get_or_create_expiration X m u e) = sx_create S m"
    "sx_create S (x_get_or_create_strike X m u e k) = sx_create S m"
  using assms unfolding snapshot_laws_def by blast+

lemma snapshot_laws_restore:
  assumes "snapshot_laws X S"
  obtains m'' where "sx_restore S m bk (sx_create S m' bk) = (m'', Inr ())"
    "sx_create S m'' = (sx_create S m)(bk := sx_create S m' bk)"
proof -
  obtain m'' where m'': "sx_restore S m bk (sx_create S m' bk) = (m'', Inr ())"
    using assms unfolding snapshot_laws_def by meson
  moreover have "\<forall>m bk b m'. sx_restore S m bk b = (m', Inr ()) \<longrightarrow> sx_create S m' = (sx_create S m)(bk := b)"
    using assms unfolding snapshot_laws_def by (elim conjE)
  ultimately show thesis using that by blast
qed

lemma snapshot_style_canonical [simp]: "snapshot_style (canonical_style s) = Some s"
  by (cases s) (simp_all add: snapshot_style_def)

definition dated :: "('m, 'o) exchange \<Rightarrow> book_key \<Rightarrow> bool" where
  "dated X bk \<longleftrightarrow> parse_expiration X (format_expiration X (fst (snd bk))) = Inr (fst (snd bk))"

lemma restore_saved:
  assumes laws: "snapshot_laws X S" and saved: "saved_info X S i now m0 bk = Some info" and "dated X bk"
  shows "\<exists>m'. restore_one X S info (m, p) = (m', p\<lparr>rp_books := rp_books p + 1, rp_orders := rp_orders p + osi_order_count info\<rparr>)
    \<and> sx_create S m' = (sx_create S m)(bk := sx_create S m0 bk)"
proof -
  obtain u e k s where bk: "bk = (u, e, k, s)" by (metis prod_cases4)
  obtain d where d: "sx_to_json S (sx_create S m0 bk) = Inr d" and info: "info = snapshot_info X S i now m0 bk d"
    using saved by (auto simp: saved_info_def split: sum.splits if_splits)
  let ?m = "x_get_or_create_strike X (x_get_or_create_expiration X (x_get_or_create X m u) u e) u e k"
  obtain m' where m': "sx_restore S ?m bk (sx_create S m0 bk) = (m', Inr ())"
      "sx_create S m' = (sx_create S ?m)(bk := sx_create S m0 bk)"
    using snapshot_laws_restore [OF laws] by metis
  have "restore_one X S info (m, p) = (m', p\<lparr>rp_books := rp_books p + 1, rp_orders := rp_orders p + osi_order_count info\<rparr>)"
    using snapshot_laws_json [OF laws d] m'(1) assms(3)
    by (simp add: restore_one_def info snapshot_info_def bk dated_def Let_def)
  with m'(2) laws show ?thesis by simp
qed

lemma restore_fold:
  assumes laws: "snapshot_laws X S" and "\<forall>bk \<in> set bks. dated X bk"
    and "fold (restore_one X S) (List.map_filter (saved_info X S i now m0) bks) (m, p) = (m', p')"
  shows "sx_create S m' = (\<lambda>bk. if bk \<in> set bks \<and> saved_info X S i now m0 bk \<noteq> None
      then sx_create S m0 bk else sx_create S m bk)
    \<and> rp_books p' = rp_books p + of_nat (length (List.map_filter (saved_info X S i now m0) bks))
    \<and> rp_orders p' = rp_orders p + sum_list (map osi_order_count (List.map_filter (saved_info X S i now m0) bks))
    \<and> rp_failed p' = rp_failed p"
  using assms(2,3)
proof (induction bks arbitrary: m p)
  case (Cons bk bks)
  show ?case
  proof (cases "saved_info X S i now m0 bk")
    case None
    with Cons show ?thesis by (auto simp: map_filter_simps fun_eq_iff simp del: split_paired_All)
  next
    case (Some info)
    obtain m1 where one: "restore_one X S info (m, p)
        = (m1, p\<lparr>rp_books := rp_books p + 1, rp_orders := rp_orders p + osi_order_count info\<rparr>)"
        "sx_create S m1 = (sx_create S m)(bk := sx_create S m0 bk)"
      using restore_saved [OF laws Some] Cons.prems(1) by (metis list.set_intros(1))
    show ?thesis
      using Cons.IH [of m1] Cons.prems one Some by (auto simp: map_filter_simps fun_eq_iff simp del: split_paired_All)
  qed
qed (simp add: map_filter_simps)

section \<open>The eviction loop\<close>

text \<open>
  The loop as it is written: while the cap is exceeded, pick the oldest snapshot, break when
  there is none, remove it. The first component counts the iterations.
\<close>

definition evict_loop :: "(string, stored_snapshot) dashmap \<Rightarrow> (nat \<times> (string, stored_snapshot) dashmap) option" where
  "evict_loop m =
     while_option (\<lambda>(_, m). max_retained_snapshots < length m \<and> oldest_snapshot m \<noteq> None)
       (\<lambda>(n, m). (Suc n, dm_remove (the (oldest_snapshot m)) m)) (0, m)"

lemma evict_loop_from:
  assumes "dm_ok m"
  shows "while_option (\<lambda>(_, m). max_retained_snapshots < length m \<and> oldest_snapshot m \<noteq> None)
       (\<lambda>(n, m). (Suc n, dm_remove (the (oldest_snapshot m)) m)) (n, m)
     = Some (n + (length m - max_retained_snapshots), evict_snapshots m)"
  using assms
proof (induction m arbitrary: n rule: evict_snapshots.induct)
  case (1 m)
  show ?case
  proof (cases "max_retained_snapshots < length m")
    case False
    then show ?thesis by (subst while_option_unfold) (simp add: evict_snapshots.simps)
  next
    case True
    then have "m \<noteq> []" by auto
    then obtain k where k: "oldest_snapshot m = Some k" by (simp add: oldest_snapshot_def)
    obtain v where "(k, v) \<in> set m" using oldest_snapshot_entry [OF k] by blast
    then have "Suc (length (dm_remove k m)) = length m"
      using dm.size_del_present [OF "1.prems", of k] dm_get_mem [OF "1.prems"] by simp
    then show ?thesis
      using True k "1.IH" [OF True k dm_ok_remove [OF "1.prems"]]
      by (subst while_option_unfold) (simp add: evict_snapshots.simps [of m])
  qed
qed

section \<open>Properties\<close>

definition snapshots_ok :: "snapshot_store \<Rightarrow> bool" where
  "snapshots_ok s \<longleftrightarrow> dm_ok (sn_snapshots s) \<and> length (sn_snapshots s) \<le> max_retained_snapshots
     \<and> (\<forall>k st. dm_get (sn_snapshots s) k = Some st \<longrightarrow> ss_seq st < sn_seq s)"

lemma word_less_Suc: "sn < (- 1 :: u64) \<Longrightarrow> sn < sn + 1"
  by (metis inc_less_eq_self_iff_eq less_irrefl linorder_not_le)

text \<open>
  Snapshot retention: when the clock does not run backwards, creating a snapshot under a
  fresh id stores it with the entries of every serialisable book that has orders, keeps at
  most 16 snapshots, changes none of the kept ones, drops one exactly when 16 were already
  there, and what it drops was created no later than anything it keeps.
\<close>

theorem snapshot_retention:
  assumes "snapshots_ok s" and "dm_get (sn_snapshots s) i = None" and "sn_seq s < - 1"
    and "\<forall>k st. dm_get (sn_snapshots s) k = Some st \<longrightarrow> ss_created_at_ms st \<le> now"
    and "create_snapshot X S i now m s = (s', resp)"
  shows "snapshots_ok s'
    \<and> (\<exists>st. dm_get (sn_snapshots s') i = Some st \<and> ss_created_at_ms st = now
         \<and> ss_infos st = List.map_filter (saved_info X S i now m) (snapshot_books X m))
    \<and> length (sn_snapshots s') = min max_retained_snapshots (Suc (length (sn_snapshots s)))
    \<and> (\<forall>k st. k \<noteq> i \<longrightarrow> dm_get (sn_snapshots s') k = Some st \<longrightarrow> dm_get (sn_snapshots s) k = Some st)
    \<and> (\<forall>k st k' st'. dm_get (sn_snapshots s) k = Some st \<longrightarrow> dm_get (sn_snapshots s') k = None
         \<longrightarrow> dm_get (sn_snapshots s') k' = Some st' \<longrightarrow> ss_created_at_ms st \<le> ss_created_at_ms st')"
proof -
  define st where "st = \<lparr>ss_created_at_ms = now,
    ss_infos = List.map_filter (saved_info X S i now m) (snapshot_books X m), ss_seq = sn_seq s\<rparr>"
  define a where "a = dm_insert i st (sn_snapshots s)"
  have s': "sn_snapshots s' = evict_snapshots a" "sn_seq s' = sn_seq s + 1"
    using assms(5) by (auto simp: create_snapshot_def Let_def stored_snapshot_new_def insert_snapshot_bounded_def
        snapshot_fold a_def st_def)
  have ok: "dm_ok (sn_snapshots s)" and ok_a: "dm_ok a"
    using assms(1) by (simp_all add: snapshots_ok_def a_def dm_ok_insert)
  have get_a: "dm_get a = (dm_get (sn_snapshots s))(i \<mapsto> st)" using ok by (simp add: a_def dm_get_insert fun_eq_iff)
  have sub: "dm_get a k = Some x" if "dm_get (sn_snapshots s') k = Some x" for k x
    using snaps.shrink_sub [OF ok_a] that s' by simp
  have young: "snapshot_age x < snapshot_age st" if "dm_get a k = Some x" "k \<noteq> i" for k x
  proof -
    have "ss_seq x < sn_seq s" "ss_created_at_ms x \<le> now"
      using assms(1,4) that by (auto simp: get_a snapshots_ok_def)
    then show ?thesis by (auto simp: snapshot_age_def st_def less_snapshot_age_def)
  qed
  have new: "dm_get (sn_snapshots s') i = Some st"
    using snaps.youngest_survives [OF ok_a, of i st] young
    by (simp add: s' get_a max_retained_snapshots_def)
  have len: "length (sn_snapshots s') = min max_retained_snapshots (Suc (length (sn_snapshots s)))"
    using snaps.size_shrink [OF ok_a] dm.size_put [OF ok, of i st] assms(2) by (simp add: s' a_def)
  have drop: "ss_created_at_ms x \<le> ss_created_at_ms y"
    if "dm_get (sn_snapshots s) k = Some x" "dm_get (sn_snapshots s') k = None" "dm_get (sn_snapshots s') k' = Some y"
    for k x k' y
  proof -
    have "k \<noteq> i" using that(2) new by auto
    then have "snapshot_age x \<le> snapshot_age y"
      using snaps.shrink_keeps_youngest [OF ok_a, of k x k' y] that by (simp add: s' get_a)
    then show ?thesis by (auto simp: snapshot_age_def)
  qed
  have seq: "ss_seq x < sn_seq s'" if "dm_get (sn_snapshots s') k = Some x" for k x
  proof (cases "k = i")
    case True
    then show ?thesis using that new word_less_Suc [OF assms(3)] by (simp add: s' st_def)
  next
    case False
    then have "ss_seq x < sn_seq s" using sub [OF that] assms(1) by (simp add: get_a snapshots_ok_def)
    then show ?thesis using word_less_Suc [OF assms(3)] by (simp add: s')
  qed
  have "snapshots_ok s'"
    using snaps.inv_shrink [OF ok_a] len seq
    by (simp add: snapshots_ok_def s'(1) [symmetric])
  moreover have "\<forall>k x. k \<noteq> i \<longrightarrow> dm_get (sn_snapshots s') k = Some x \<longrightarrow> dm_get (sn_snapshots s) k = Some x"
    using sub get_a by (metis fun_upd_other)
  ultimately show ?thesis using new len drop by (auto simp: st_def)
qed

text \<open>
  C37. The eviction loop ends, from any store, after exactly as many iterations as there are
  snapshots above the cap, and leaves the store that the retention keeps.
\<close>

theorem snapshot_eviction_terminates:
  assumes "dm_ok m"
  shows "evict_loop m = Some (length m - max_retained_snapshots, evict_snapshots m)"
  using evict_loop_from [OF assms, of 0] by (simp add: evict_loop_def)

lemma snapshot_eviction_terminates_witness:
  "evict_loop (map (\<lambda>i. (show_nat i, \<lparr>ss_created_at_ms = 0, ss_infos = [], ss_seq = of_nat i\<rparr>)) [0..<20])
     = Some (4, evict_snapshots (map (\<lambda>i. (show_nat i, \<lparr>ss_created_at_ms = 0, ss_infos = [], ss_seq = of_nat i\<rparr>)) [0..<20]))"
proof -
  have "inj show_nat" by (metis digits_val_show_nat injI)
  then have "dm_ok (map (\<lambda>i. (show_nat i, \<lparr>ss_created_at_ms = 0, ss_infos = [], ss_seq = of_nat i\<rparr>)) [0..<20])"
    by (simp add: dm_ok_def comp_def distinct_map inj_on_subset [OF _ subset_UNIV] del: upt_rec_numeral)
  from snapshot_eviction_terminates [OF this] show ?thesis by (simp add: max_retained_snapshots_def)
qed


text \<open>
  A snapshot library for the small exchange: the content of a book is its list of orders, and
  the JSON form exists for a book with one order only, written as its quantity.
\<close>

definition demo_content :: "demo_state \<Rightarrow> book_key \<Rightarrow> (nat \<times> book_side \<times> u128 \<times> u64) list" where
  "demo_content m bk = map snd (filter (\<lambda>o'. fst o' = bk) (ds_orders m))"

definition demo_snapshots :: "(demo_state, (nat \<times> book_side \<times> u128 \<times> u64) list) snapshot_lib" where
  "demo_snapshots =
    \<lparr>sx_create = demo_content,
     sx_bids = (\<lambda>b. map (\<lambda>_. 1) (filter (\<lambda>o'. fst (snd o') = BookBuy) b)),
     sx_asks = (\<lambda>b. map (\<lambda>_. 1) (filter (\<lambda>o'. fst (snd o') = BookSell) b)),
     sx_to_json = (\<lambda>b. if b = [(0, BookBuy, 150, 5)] then Inr ''5'' else Inl ''unsupported''),
     sx_from_json = (\<lambda>d. if d = ''5'' then Inr [(0, BookBuy, 150, 5)] else Inl ''bad json''),
     sx_restore = (\<lambda>m bk b. (m\<lparr>ds_orders := filter (\<lambda>o'. fst o' \<noteq> bk) (ds_orders m) @ map (Pair bk) b\<rparr>, Inr ()))\<rparr>"

lemma demo_snapshot_laws: "snapshot_laws demo_exchange demo_snapshots"
proof -
  have "demo_content (m\<lparr>ds_orders := filter (\<lambda>o'. fst o' \<noteq> bk) (ds_orders m) @ map (Pair bk) b\<rparr>)
      = (demo_content m)(bk := b)" for m bk b
  proof
    fix bk'
    have other: "filter (\<lambda>o'. fst o' = bk') (map (Pair bk) b) = (if bk' = bk then map (Pair bk) b else [])"
      by (induction b) auto
    have "filter (\<lambda>o'. fst o' \<noteq> bk \<and> fst o' = bk') os = (if bk' = bk then [] else filter (\<lambda>o'. fst o' = bk') os)"
      for os :: "demo_order list"
      by (induction os) auto
    with other show "demo_content (m\<lparr>ds_orders := filter (\<lambda>o'. fst o' \<noteq> bk) (ds_orders m) @ map (Pair bk) b\<rparr>) bk'
      = ((demo_content m)(bk := b)) bk'"
      by (simp add: demo_content_def o_def)
  qed
  then show ?thesis
    by (simp add: snapshot_laws_def demo_snapshots_def demo_fields split: if_splits)
      (simp add: demo_content_def fun_eq_iff)
qed

lemma demo_snapshot_books: "snapshot_books demo_exchange demo_book = [(''U'', DateTime 0, 100, OptCall), (''U'', DateTime 0, 100, OptPut)]"
  by (simp add: snapshot_books_def demo_fields demo_book_def)

definition demo_snapshot_store :: snapshot_store where
  "demo_snapshot_store = \<lparr>sn_snapshots = [], sn_seq = 0\<rparr>"

lemma snapshot_retention_witness:
  "\<exists>s' resp. create_snapshot demo_exchange demo_snapshots ''a'' 5 demo_book demo_snapshot_store = (s', resp)
     \<and> length (sn_snapshots s') = 1"
proof -
  obtain s' resp where run: "create_snapshot demo_exchange demo_snapshots ''a'' 5 demo_book demo_snapshot_store = (s', resp)"
    by fastforce
  have "snapshots_ok demo_snapshot_store" "dm_get (sn_snapshots demo_snapshot_store) ''a'' = None"
      "sn_seq demo_snapshot_store < - 1" "\<forall>k st. dm_get (sn_snapshots demo_snapshot_store) k = Some st \<longrightarrow> ss_created_at_ms st \<le> 5"
    by (simp_all add: snapshots_ok_def demo_snapshot_store_def dm_ok_def) (simp add: word_neq_0_conv [symmetric])
  then have "length (sn_snapshots s') = min max_retained_snapshots (Suc (length (sn_snapshots demo_snapshot_store)))"
    using snapshot_retention [OF _ _ _ _ run] by blast
  with run show ?thesis by (simp add: demo_snapshot_store_def max_retained_snapshots_def)
qed


text \<open>
  A book keyed by a number of days formats as a calendar date, so a restore never finds it: it
  puts the orders on the book of that date instead.
\<close>

lemma days_book_restores_elsewhere:
  assumes "x_exp_ymd X (Days n) = Some d" and "length d = 8" and "list_all is_digit d"
  shows "\<not> dated X (u, Days n, k, s)
    \<and> (\<forall>e. parse_expiration X (format_expiration X (Days n)) = Inr e \<longrightarrow> (\<exists>t. e = DateTime t))"
  using assms by (auto simp: dated_def format_expiration_def parse_expiration_def split: option.splits)

end
