(* ===== verification/Queries.thy ===== *)
theory Queries
  imports Bulk Snapshots "HOL-Library.Multiset"
begin

text \<open>
  The read handlers of \<open>src/src/api/handlers.rs\<close> over the shared state: executions, last
  trade, candles, order status, the order list, and positions marked at the current quote.
  None of them changes the state. The best quote of a book is a parameter, as are the date
  parser of chrono and the RFC 3339 formatter.
\<close>

section \<open>Data\<close>

record execution_summary =
  es_total_executions :: u64
  es_total_volume :: u64
  es_total_edge :: i64
  es_maker_ratio :: f64

record ohlc_query =
  oq_interval :: string
  oq_from :: "u64 option"
  oq_to :: "u64 option"
  oq_limit :: "nat option"

record ohlc_response =
  or_symbol :: string
  or_interval :: string
  or_bars :: "ohlc_bar list"

record position_response =
  pr_symbol :: string
  pr_underlying :: string
  pr_quantity :: i64
  pr_average_price :: u128
  pr_current_price :: "u128 option"
  pr_unrealized_pnl :: "i64 option"
  pr_realized_pnl :: i64
  pr_delta_exposure :: f64
  pr_notional_value :: "u128 option"

record position_summary =
  ps_total_unrealized_pnl :: i64
  ps_total_realized_pnl :: i64
  ps_net_delta :: f64
  ps_position_count :: nat
  ps_unpriced_count :: nat

record book_quote =
  bq_bid_price :: "u128 option"
  bq_bid_size :: u64
  bq_ask_price :: "u128 option"
  bq_ask_size :: u64
  bq_timestamp_ms :: u64

section \<open>Filters and pages\<close>

text \<open>\<open>sort_by_key\<close> with \<open>Reverse\<close> is a stable sort, newest first.\<close>

definition newest_first :: "('a \<Rightarrow> u64) \<Rightarrow> 'a list \<Rightarrow> 'a list" where
  "newest_first ts xs = sort_key (\<lambda>x. - uint (ts x)) xs"

definition page :: "nat \<Rightarrow> nat \<Rightarrow> 'a list \<Rightarrow> 'a list" where
  "page offset limit xs = take limit (drop offset xs)"

text \<open>An unknown side is no filter here, unlike in the order list.\<close>

definition lenient_side :: "string option \<Rightarrow> order_side option" where
  "lenient_side side =
     (case side of
        None \<Rightarrow> None
      | Some s \<Rightarrow>
          if ascii_lower s = ''buy'' then Some Buy
          else if ascii_lower s = ''sell'' then Some Sell
          else None)"

text \<open>
  \<open>parse_date\<close> gives the milliseconds of a date's midnight; a date that does not parse is no
  filter. The upper bound is 23:59:59 of its day.
\<close>

definition in_dates :: "(string \<Rightarrow> int option) \<Rightarrow> executions_query \<Rightarrow> execution_info \<Rightarrow> bool" where
  "in_dates parse_date query e \<longleftrightarrow>
     (case Option.bind (eq_from query) parse_date of
        None \<Rightarrow> True
      | Some midnight \<Rightarrow> word_of_int midnight \<le> ex_timestamp_ms e)
   \<and> (case Option.bind (eq_to query) parse_date of
        None \<Rightarrow> True
      | Some midnight \<Rightarrow> ex_timestamp_ms e \<le> word_of_int (midnight + 86399000))"

definition execution_matches :: "(string \<Rightarrow> int option) \<Rightarrow> executions_query \<Rightarrow> execution_info \<Rightarrow> bool" where
  "execution_matches parse_date query e \<longleftrightarrow>
     (case eq_underlying query of None \<Rightarrow> True | Some u \<Rightarrow> starts_with u (ex_symbol e))
   \<and> allows (eq_symbol query) (ex_symbol e)
   \<and> allows (lenient_side (eq_side query)) (ex_side e)
   \<and> in_dates parse_date query e"

definition total_volume :: "execution_info list \<Rightarrow> api_error + u64" where
  "total_volume es =
     (case fold (\<lambda>e acc. Option.bind acc (\<lambda>a. checked_add a (ucast (ex_quantity e) :: u128))) es (Some 0) of
        None \<Rightarrow> Inl (Internal ''total_volume accumulation overflow'')
      | Some wide \<Rightarrow>
          if uint wide < 2 ^ 64 then Inr (word_of_int (uint wide))
          else Inl (Internal ''total_volume exceeds u64 range''))"

definition total_edge :: "execution_info list \<Rightarrow> api_error + i64" where
  "total_edge es =
     (case fold (\<lambda>edge acc. Option.bind acc (\<lambda>a. i128_try_from (a + edge))) (List.map_filter ex_edge es) (Some 0) of
        None \<Rightarrow> Inl (Internal ''total_edge accumulation overflow'')
      | Some wide \<Rightarrow>
          (case i64_try_from wide of
             Some edge \<Rightarrow> Inr edge
           | None \<Rightarrow> Inl (Internal ''total_edge exceeds i64 range'')))"

definition list_executions ::
  "(string \<Rightarrow> int option) \<Rightarrow> executions_query \<Rightarrow> (string, execution_info) dashmap
   \<Rightarrow> api_error + (execution_info list \<times> execution_summary)" where
  "list_executions parse_date query store =
     (let executions = newest_first ex_timestamp_ms (filter (execution_matches parse_date query) (dm_values store));
          total = (of_nat (length executions) :: u64) in
      case total_volume executions of
        Inl err \<Rightarrow> Inl err
      | Inr volume \<Rightarrow>
          (case total_edge executions of
             Inl err \<Rightarrow> Inl err
           | Inr edge \<Rightarrow>
               (let maker_count = f_of_int (int (length (filter ex_is_maker executions)));
                    maker_ratio = (if 0 < total then f_div maker_count (f_of_int (uint total)) else f_zero)
                in Inr (page (unat (eq_offset query)) (unat (eq_limit query)) executions,
                     \<lparr>es_total_executions = total, es_total_volume = volume, es_total_edge = edge,
                      es_maker_ratio = maker_ratio\<rparr>))))"

definition get_execution :: "string \<Rightarrow> (string, execution_info) dashmap \<Rightarrow> api_error + execution_info" where
  "get_execution execution_id store =
     (case dm_get store execution_id of
        Some e \<Rightarrow> Inr e
      | None \<Rightarrow> Inl (NotFound (''Execution '' @ execution_id @ '' not found'')))"

section \<open>Last trade and candles\<close>

definition get_last_trade :: "string \<Rightarrow> string \<Rightarrow> u64 \<Rightarrow> string \<Rightarrow> (string, last_trade_info) dashmap
   \<Rightarrow> api_error + last_trade_response" where
  "get_last_trade underlying exp_str strike style store =
     (case parse_option_style style of
        Inl err \<Rightarrow> Inl err
      | Inr option_style \<Rightarrow>
          (let symbol = option_symbol underlying exp_str strike option_style in
           case dm_get store symbol of
             Some info \<Rightarrow> Inr (last_trade_response_from info)
           | None \<Rightarrow> Inl (NotFound (''No trades found for option '' @ symbol))))"

text \<open>\<open>None\<close> is the panic of the range query of the aggregator.\<close>

definition get_ohlc :: "string \<Rightarrow> string \<Rightarrow> u64 \<Rightarrow> string \<Rightarrow> ohlc_query \<Rightarrow> aggregator \<Rightarrow> (api_error + ohlc_response) option" where
  "get_ohlc underlying exp_str strike style query a =
     (case parse_option_style style of
        Inl err \<Rightarrow> Some (Inl err)
      | Inr option_style \<Rightarrow>
          (case interval_from_str (oq_interval query) of
             Inl err \<Rightarrow> Some (Inl (InvalidRequest err))
           | Inr interval \<Rightarrow>
               (let symbol = option_symbol underlying exp_str strike option_style;
                    limit = min (case oq_limit query of Some l \<Rightarrow> l | None \<Rightarrow> 500) 1000
                in map_option (\<lambda>bars. Inr \<lparr>or_symbol = symbol, or_interval = interval_display interval, or_bars = bars\<rparr>)
                     (get_bars a symbol interval (oq_from query) (oq_to query) limit))))"

section \<open>Orders\<close>

definition get_order_status :: "(int \<Rightarrow> string option) \<Rightarrow> string \<Rightarrow> (string, order_info) dashmap \<Rightarrow> api_error + order_status_response" where
  "get_order_status rfc3339 order_id store =
     (case dm_get store order_id of
        Some i \<Rightarrow> Inr (order_status_response_from rfc3339 i)
      | None \<Rightarrow> Inl (NotFound (''Order not found: '' @ order_id)))"

definition parse_status_filter :: "string option \<Rightarrow> api_error + order_status option" where
  "parse_status_filter status =
     (case status of
        None \<Rightarrow> Inr None
      | Some s \<Rightarrow> (case order_status_from_str s of Inl err \<Rightarrow> Inl (InvalidRequest err) | Inr st \<Rightarrow> Inr (Some st)))"

definition order_matches :: "order_list_query \<Rightarrow> order_status option \<Rightarrow> order_side option \<Rightarrow> order_info \<Rightarrow> bool" where
  "order_matches query status side i \<longleftrightarrow>
     allows (olq_underlying query) (oi_underlying i) \<and> allows status (oi_status i) \<and> allows side (oi_side i)"

definition list_orders ::
  "(int \<Rightarrow> string option) \<Rightarrow> order_list_query \<Rightarrow> (string, order_info) dashmap \<Rightarrow> api_error + order_list_response" where
  "list_orders rfc3339 query store =
     (case parse_status_filter (olq_status query) of
        Inl err \<Rightarrow> Inl err
      | Inr status \<Rightarrow>
          (case parse_side_filter (olq_side query) of
             Inl err \<Rightarrow> Inl err
           | Inr side \<Rightarrow>
               (let filtered = newest_first oi_created_at_ms (filter (order_matches query status side) (dm_values store))
                in Inr \<lparr>ol_orders = map (order_status_response_from rfc3339) (page (olq_offset query) (olq_limit query) filtered),
                     ol_total = length filtered, ol_limit = olq_limit query, ol_offset = olq_offset query\<rparr>)))"

section \<open>Positions\<close>

text \<open>
  The book a symbol names: four parts, the expiration parsed and looked up as a key.
\<close>

definition style_of_code :: "string \<Rightarrow> opt_style option" where
  "style_of_code s =
     (let u = ascii_upper s in
      if u = ''C'' \<or> u = ''CALL'' then Some OptCall
      else if u = ''P'' \<or> u = ''PUT'' then Some OptPut
      else None)"

definition symbol_book :: "('m, 'o) exchange \<Rightarrow> 'm \<Rightarrow> string \<Rightarrow> book_key option" where
  "symbol_book X m symbol =
     (case split_on (CHR ''-'') symbol of
        [underlying, exp_str, strike_str, style_str] \<Rightarrow>
          (case (parse_u64 strike_str, style_of_code style_str, parse_expiration X exp_str) of
             (Some strike, Some style, Inr e) \<Rightarrow>
               (if x_get X m underlying = Inr () \<and> x_get_expiration X m underlying e = Inr ()
                   \<and> x_get_strike X m underlying e strike = Inr ()
                then Some (underlying, e, strike, style) else None)
           | _ \<Rightarrow> None)
      | _ \<Rightarrow> None)"

fun mid_or_best :: "book_quote \<Rightarrow> u128 option" where
  "mid_or_best q =
     (case (bq_bid_price q, bq_ask_price q) of
        (Some bid, Some ask) \<Rightarrow> Some ((bid + ask) div 2)
      | (Some bid, None) \<Rightarrow> Some bid
      | (None, Some ask) \<Rightarrow> Some ask
      | (None, None) \<Rightarrow> None)"

definition get_current_price_for_symbol ::
  "('m, 'o) exchange \<Rightarrow> ('m \<Rightarrow> book_key \<Rightarrow> book_quote) \<Rightarrow> 'm \<Rightarrow> string \<Rightarrow> u128 option" where
  "get_current_price_for_symbol X best_quote m symbol =
     (case symbol_book X m symbol of
        None \<Rightarrow> None
      | Some bk \<Rightarrow> mid_or_best (best_quote m bk))"

text \<open>The mark of a position: nothing when it is unpriced, an error when the arithmetic overflows.\<close>

definition mark_position :: "u128 option \<Rightarrow> string \<Rightarrow> position_info \<Rightarrow> api_error + (u128 \<times> i64 \<times> u128) option" where
  "mark_position price symbol p =
     (case price of
        None \<Rightarrow> Inr None
      | Some price \<Rightarrow>
          (case unrealized_pnl p price of
             None \<Rightarrow> Inl (Internal (''unrealized_pnl overflow for symbol '' @ symbol))
           | Some pnl \<Rightarrow>
               (case notional_value p price of
                  None \<Rightarrow> Inl (Internal (''notional_value overflow for symbol '' @ symbol))
                | Some notional \<Rightarrow> Inr (Some (price, pnl, notional)))))"

definition position_response_of :: "position_info \<Rightarrow> (u128 \<times> i64 \<times> u128) option \<Rightarrow> position_response" where
  "position_response_of p mark =
     \<lparr>pr_symbol = pos_symbol p, pr_underlying = pos_underlying p, pr_quantity = pos_quantity p,
      pr_average_price = pos_average_price p, pr_current_price = map_option fst mark,
      pr_unrealized_pnl = map_option (fst \<circ> snd) mark, pr_realized_pnl = pos_realized_pnl p,
      pr_delta_exposure = f_zero, pr_notional_value = map_option (snd \<circ> snd) mark\<rparr>"

definition get_position ::
  "('m, 'o) exchange \<Rightarrow> ('m \<Rightarrow> book_key \<Rightarrow> book_quote) \<Rightarrow> 'm \<Rightarrow> string \<Rightarrow> (string, position_info) dashmap
   \<Rightarrow> api_error + position_response" where
  "get_position X best_quote m symbol store =
     (case dm_get store symbol of
        None \<Rightarrow> Inl (NotFound (''Position not found: '' @ symbol))
      | Some p \<Rightarrow>
          (case mark_position (get_current_price_for_symbol X best_quote m symbol) symbol p of
             Inl err \<Rightarrow> Inl err
           | Inr mark \<Rightarrow> Inr (position_response_of p mark)))"

record position_totals =
  pt_unrealized :: i128
  pt_realized :: i128
  pt_delta :: f64
  pt_unpriced :: nat
  pt_positions :: "position_response list"

definition list_position ::
  "('m, 'o) exchange \<Rightarrow> ('m \<Rightarrow> book_key \<Rightarrow> book_quote) \<Rightarrow> 'm \<Rightarrow> string option \<Rightarrow> position_info \<Rightarrow> position_totals
   \<Rightarrow> api_error + position_totals" where
  "list_position X best_quote m underlying p t =
     (if \<not> allows underlying (pos_underlying p) then Inr t
      else (case i128_try_from (pt_realized t + pos_realized_pnl p) of
        None \<Rightarrow> Inl (Internal ''total_realized_pnl accumulation overflow'')
      | Some realized \<Rightarrow>
          (let t = t\<lparr>pt_realized := realized\<rparr> in
           if pos_quantity p = 0 then Inr t
           else (case mark_position (get_current_price_for_symbol X best_quote m (pos_symbol p)) (pos_symbol p) p of
             Inl err \<Rightarrow> Inl err
           | Inr None \<Rightarrow> Inr (t\<lparr>pt_unpriced := pt_unpriced t + 1, pt_positions := pt_positions t @ [position_response_of p None]\<rparr>)
           | Inr (Some (price, pnl, notional)) \<Rightarrow>
               (case i128_try_from (pt_unrealized t + pnl) of
                  None \<Rightarrow> Inl (Internal ''total_unrealized_pnl accumulation overflow'')
                | Some unrealized \<Rightarrow>
                    Inr (t\<lparr>pt_unrealized := unrealized, pt_delta := f_add (pt_delta t) f_zero,
                         pt_positions := pt_positions t @ [position_response_of p (Some (price, pnl, notional))]\<rparr>))))))"

fun list_positions_loop ::
  "('m, 'o) exchange \<Rightarrow> ('m \<Rightarrow> book_key \<Rightarrow> book_quote) \<Rightarrow> 'm \<Rightarrow> string option \<Rightarrow> position_info list \<Rightarrow> position_totals
   \<Rightarrow> api_error + position_totals" where
  "list_positions_loop X best_quote m underlying [] t = Inr t"
| "list_positions_loop X best_quote m underlying (p # ps) t =
     (case list_position X best_quote m underlying p t of
        Inl err \<Rightarrow> Inl err
      | Inr t \<Rightarrow> list_positions_loop X best_quote m underlying ps t)"

definition list_positions ::
  "('m, 'o) exchange \<Rightarrow> ('m \<Rightarrow> book_key \<Rightarrow> book_quote) \<Rightarrow> 'm \<Rightarrow> string option \<Rightarrow> (string, position_info) dashmap
   \<Rightarrow> api_error + (position_response list \<times> position_summary)" where
  "list_positions X best_quote m underlying store =
     (case list_positions_loop X best_quote m underlying (dm_values store)
             \<lparr>pt_unrealized = 0, pt_realized = 0, pt_delta = f_zero, pt_unpriced = 0, pt_positions = []\<rparr> of
        Inl err \<Rightarrow> Inl err
      | Inr t \<Rightarrow>
          (case i64_try_from (pt_unrealized t) of
             None \<Rightarrow> Inl (Internal ''total_unrealized_pnl exceeds i64 range'')
           | Some unrealized \<Rightarrow>
               (case i64_try_from (pt_realized t) of
                  None \<Rightarrow> Inl (Internal ''total_realized_pnl exceeds i64 range'')
                | Some realized \<Rightarrow>
                    Inr (pt_positions t,
                      \<lparr>ps_total_unrealized_pnl = unrealized, ps_total_realized_pnl = realized, ps_net_delta = pt_delta t,
                       ps_position_count = length (pt_positions t), ps_unpriced_count = pt_unpriced t\<rparr>))))"

section \<open>Lemmas\<close>

lemma mset_newest_first [simp]: "mset (newest_first ts xs) = mset xs"
  by (simp add: newest_first_def)

lemma sorted_newest_first: "sorted_wrt (\<lambda>a b. ts b \<le> ts a) (newest_first ts xs)"
proof -
  have "sorted (map (\<lambda>x. - uint (ts x)) (newest_first ts xs))" by (simp add: newest_first_def)
  then show ?thesis by (simp add: sorted_map word_le_def)
qed

lemma sum_mset_eq: "mset xs = mset ys \<Longrightarrow> sum_list (map f xs) = (sum_list (map f ys) :: int)"
  by (metis mset_map sum_mset_sum_list)

lemma volume_fold:
  assumes "uint a + sum_list (map (\<lambda>e. uint (ex_quantity e)) es) < 2 ^ 128"
  shows "fold (\<lambda>e acc. Option.bind acc (\<lambda>a. checked_add a (ucast (ex_quantity e) :: u128))) es (Some a)
    = Some (word_of_int (uint a + sum_list (map (\<lambda>e. uint (ex_quantity e)) es)))"
  using assms
proof (induction es arbitrary: a)
  case (Cons e es)
  have pos: "0 \<le> sum_list (map (\<lambda>e. uint (ex_quantity e)) es)" by (intro sum_list_nonneg) auto
  then have small: "uint a + uint (ex_quantity e) < 2 ^ 128" using Cons.prems by simp
  have u: "uint (ucast (ex_quantity e) :: u128) = uint (ex_quantity e)" by (simp add: uint_up_ucast is_up)
  have step: "checked_add a (ucast (ex_quantity e)) = Some (a + ucast (ex_quantity e))"
    using small by (simp add: checked_add_def u)
  have "uint (a + ucast (ex_quantity e)) = uint a + uint (ex_quantity e)"
    using small u by (simp add: uint_add_lem [THEN iffD1])
  with Cons.IH [of "a + ucast (ex_quantity e)"] Cons.prems step show ?case by (simp add: add.assoc)
qed simp

lemma edge_fold:
  assumes "\<forall>x \<in> set xs. in_i64 x" and "\<bar>a\<bar> \<le> 2 ^ 63 * int n" and "n + length xs \<le> 2 ^ 63"
  shows "fold (\<lambda>x acc. Option.bind acc (\<lambda>a. i128_try_from (a + x))) xs (Some a) = Some (a + sum_list xs)"
  using assms
proof (induction xs arbitrary: a n)
  case (Cons x xs)
  have x: "\<bar>x\<bar> \<le> 2 ^ 63" using Cons.prems(1) by (auto simp: in_i64_def)
  then have bound: "\<bar>a + x\<bar> \<le> 2 ^ 63 * int (Suc n)" using Cons.prems(2) by simp
  also have "2 ^ 63 * int (Suc n) \<le> 2 ^ 63 * 2 ^ 63" using Cons.prems(3) by (intro mult_left_mono) auto
  finally have "in_i128 (a + x)" by (auto simp: in_i128_def)
  then have "i128_try_from (a + x) = Some (a + x)" by simp
  moreover have "fold (\<lambda>x acc. Option.bind acc (\<lambda>a. i128_try_from (a + x))) xs (Some (a + x)) = Some (a + x + sum_list xs)"
    using Cons.IH [OF _ bound] Cons.prems by simp
  ultimately show ?case by (simp del: i128_try_from_Some add: add.assoc)
qed simp

text \<open>What one position contributes to the list.\<close>

abbreviation position_mark ::
  "('m, 'o) exchange \<Rightarrow> ('m \<Rightarrow> book_key \<Rightarrow> book_quote) \<Rightarrow> 'm \<Rightarrow> position_info \<Rightarrow> api_error + (u128 \<times> i64 \<times> u128) option" where
  "position_mark X best_quote m p \<equiv>
     mark_position (get_current_price_for_symbol X best_quote m (pos_symbol p)) (pos_symbol p) p"

definition mark_pnl :: "api_error + (u128 \<times> i64 \<times> u128) option \<Rightarrow> int" where
  "mark_pnl mark = (case mark of Inr (Some (_, pnl, _)) \<Rightarrow> pnl | _ \<Rightarrow> 0)"

abbreviation matching_positions :: "string option \<Rightarrow> position_info list \<Rightarrow> position_info list" where
  "matching_positions u ps \<equiv> filter (\<lambda>p. allows u (pos_underlying p)) ps"

abbreviation open_positions :: "string option \<Rightarrow> position_info list \<Rightarrow> position_info list" where
  "open_positions u ps \<equiv> filter (\<lambda>p. allows u (pos_underlying p) \<and> pos_quantity p \<noteq> 0) ps"

lemma mark_error: "mark_position price symbol p = Inl err \<Longrightarrow> \<exists>msg. err = Internal msg"
  by (auto simp: mark_position_def split: option.splits)

lemma list_position_ok:
  assumes "list_position X Q m u p t = Inr t'"
  shows "pt_realized t' = pt_realized t + sum_list (map pos_realized_pnl (matching_positions u [p]))"
    and "pt_unrealized t' = pt_unrealized t + sum_list (map (\<lambda>p. mark_pnl (position_mark X Q m p)) (open_positions u [p]))"
    and "pt_positions t' = pt_positions t @ map (\<lambda>p. position_response_of p (projr (position_mark X Q m p))) (open_positions u [p])"
    and "pt_unpriced t' = pt_unpriced t + length (filter (\<lambda>p. position_mark X Q m p = Inr None) (open_positions u [p]))"
    and "\<forall>p \<in> set (open_positions u [p]). \<exists>mark. position_mark X Q m p = Inr mark"
  using assms
  by (auto simp: list_position_def Let_def mark_pnl_def i128_try_from_def split: if_splits option.splits sum.splits)

lemma list_positions_loop_ok:
  "list_positions_loop X Q m u ps t = Inr t' \<Longrightarrow>
     pt_realized t' = pt_realized t + sum_list (map pos_realized_pnl (matching_positions u ps))
   \<and> pt_unrealized t' = pt_unrealized t + sum_list (map (\<lambda>p. mark_pnl (position_mark X Q m p)) (open_positions u ps))
   \<and> pt_positions t' = pt_positions t @ map (\<lambda>p. position_response_of p (projr (position_mark X Q m p))) (open_positions u ps)
   \<and> pt_unpriced t' = pt_unpriced t + length (filter (\<lambda>p. position_mark X Q m p = Inr None) (open_positions u ps))
   \<and> (\<forall>p \<in> set (open_positions u ps). \<exists>mark. position_mark X Q m p = Inr mark)"
proof (induction ps arbitrary: t)
  case (Cons p ps)
  obtain t1 where one: "list_position X Q m u p t = Inr t1" and rest: "list_positions_loop X Q m u ps t1 = Inr t'"
    using Cons.prems by (auto split: sum.splits)
  show ?case
    using Cons.IH [OF rest] list_position_ok [OF one] by (auto split: if_splits)
qed simp

lemma list_position_error:
  assumes "list_position X Q m u p t = Inl err" and "in_i64 (pos_realized_pnl p)"
    and "\<bar>pt_realized t\<bar> \<le> 2 ^ 63 * int n" and "\<bar>pt_unrealized t\<bar> \<le> 2 ^ 63 * int n" and "n < 2 ^ 63"
  shows "(\<exists>msg. err = Internal msg) \<and> p \<in> set (open_positions u [p]) \<and> position_mark X Q m p = Inl err"
proof -
  have fits: "in_i128 (a + b)" if "\<bar>a\<bar> \<le> 2 ^ 63 * int n" "in_i64 b" for a b
  proof -
    have "\<bar>b\<bar> \<le> 2 ^ 63" using that(2) by (auto simp: in_i64_def)
    then have "\<bar>a + b\<bar> \<le> 2 ^ 63 * int (Suc n)" using that(1) by simp
    also have "\<dots> \<le> 2 ^ 63 * 2 ^ 63" using assms(5) by (intro mult_left_mono) auto
    finally show ?thesis by (auto simp: in_i128_def)
  qed
  have pnl: "in_i64 pnl" if "position_mark X Q m p = Inr (Some (price, pnl, notional))" for price pnl notional
    using that by (auto simp: mark_position_def unrealized_pnl_def split: option.splits)
  show ?thesis
    using assms(1) fits [OF assms(3,2)] fits [OF assms(4) pnl] mark_error
    by (fastforce simp: list_position_def Let_def split: if_splits option.splits sum.splits)
qed

lemma mark_pnl_range: "in_i64 (mark_pnl (position_mark X Q m p))"
  by (auto simp: mark_pnl_def mark_position_def unrealized_pnl_def in_i64_def split: option.splits sum.splits)

lemma list_positions_loop_error:
  assumes "list_positions_loop X Q m u ps t = Inl err" and "\<forall>p \<in> set ps. in_i64 (pos_realized_pnl p)"
    and "\<bar>pt_realized t\<bar> \<le> 2 ^ 63 * int n" and "\<bar>pt_unrealized t\<bar> \<le> 2 ^ 63 * int n" and "n + length ps \<le> 2 ^ 63"
  shows "(\<exists>msg. err = Internal msg) \<and> (\<exists>p \<in> set (open_positions u ps). position_mark X Q m p = Inl err)"
  using assms
proof (induction ps arbitrary: t n)
  case (Cons p ps)
  show ?case
  proof (cases "list_position X Q m u p t")
    case (Inl e)
    then have "e = err" using Cons.prems(1) by simp
    then show ?thesis
      using list_position_error [OF _ _ Cons.prems(3,4), of X Q m u p e] Inl Cons.prems by auto
  next
    case (Inr t1)
    have r: "\<bar>pos_realized_pnl p\<bar> \<le> 2 ^ 63" "\<bar>mark_pnl (position_mark X Q m p)\<bar> \<le> 2 ^ 63"
      using Cons.prems(2) mark_pnl_range [of X Q m p] by (auto simp: in_i64_def)
    then have "\<bar>pt_realized t1\<bar> \<le> 2 ^ 63 * int (Suc n)" "\<bar>pt_unrealized t1\<bar> \<le> 2 ^ 63 * int (Suc n)"
      using Cons.prems(3,4) list_position_ok(1,2) [OF Inr] by (auto split: if_splits)
    then show ?thesis
      using Cons.IH [of t1 "Suc n"] Cons.prems Inr by auto
  qed
qed simp

lemma map_filter_map: "List.map_filter f (map g xs) = List.map_filter (\<lambda>x. f (g x)) xs"
  by (induction xs) (simp_all add: map_filter_simps split: option.splits)

section \<open>Properties\<close>

text \<open>
  The execution report: its totals are the exact sums over every execution the filters
  select, not only over the page shown, its page is the requested slice of the selection
  ordered newest first, and it is refused only when a total does not fit its wire type.
\<close>

theorem list_executions_correct:
  assumes "length store \<le> 2 ^ 63" and "\<forall>e \<in> set (dm_values store). \<forall>x. ex_edge e = Some x \<longrightarrow> in_i64 x"
  shows "let selected = filter (execution_matches parse_date query) (dm_values store);
             volume = sum_list (map (\<lambda>e. uint (ex_quantity e)) selected);
             edge = sum_list (List.map_filter ex_edge selected)
         in case list_executions parse_date query store of
              Inl err \<Rightarrow> (\<exists>msg. err = Internal msg) \<and> (2 ^ 64 \<le> volume \<or> \<not> in_i64 edge)
            | Inr (shown, summary) \<Rightarrow>
                uint (es_total_executions summary) = int (length selected)
              \<and> uint (es_total_volume summary) = volume \<and> es_total_edge summary = edge
              \<and> (\<exists>ordered. mset ordered = mset selected \<and> sorted_wrt (\<lambda>a b. ex_timestamp_ms b \<le> ex_timestamp_ms a) ordered
                   \<and> shown = take (unat (eq_limit query)) (drop (unat (eq_offset query)) ordered))"
proof -
  define selected where "selected = filter (execution_matches parse_date query) (dm_values store)"
  define ordered where "ordered = newest_first ex_timestamp_ms selected"
  define volume where "volume = sum_list (map (\<lambda>e. uint (ex_quantity e)) selected)"
  define edge where "edge = sum_list (List.map_filter ex_edge selected)"
  have mset: "mset ordered = mset selected" by (simp add: ordered_def)
  have len: "length selected \<le> 2 ^ 63" "length ordered = length selected"
    using assms(1) length_filter_le [of "execution_matches parse_date query" "dm_values store"] mset_eq_length [OF mset]
    by (auto simp: selected_def simp del: length_filter_le)
  have vol: "sum_list (map (\<lambda>e. uint (ex_quantity e)) ordered) = volume"
    using sum_mset_eq [OF mset] by (simp add: volume_def)
  have edges: "mset (List.map_filter ex_edge ordered) = mset (List.map_filter ex_edge selected)"
    using mset by (simp add: List.map_filter_def)
  then have edge: "sum_list (List.map_filter ex_edge ordered) = edge"
    using sum_mset_eq [OF edges, of id] by (simp add: edge_def)
  have one: "uint (ex_quantity e) \<le> 2 ^ 64 - 1" for e :: execution_info
    using uint_lt2p [of "ex_quantity e"] by simp
  have "volume \<le> sum_list (map (\<lambda>_. 2 ^ 64 - 1) selected)"
    unfolding volume_def by (intro sum_list_mono one)
  then have "volume \<le> (2 ^ 64 - 1) * int (length selected)"
    by (simp add: sum_list_triv)
  also have "\<dots> \<le> (2 ^ 64 - 1) * 2 ^ 63" using len(1) by (intro mult_left_mono) auto
  finally have wide: "volume < 2 ^ 128" by simp
  have nonneg: "0 \<le> volume" unfolding volume_def by (intro sum_list_nonneg) auto
  have tv: "total_volume ordered = (if volume < 2 ^ 64 then Inr (word_of_int volume) else Inl (Internal ''total_volume exceeds u64 range''))"
    using volume_fold [of 0 ordered] wide nonneg by (simp add: total_volume_def vol uint_word_of_int)
  have "\<forall>x \<in> set (List.map_filter ex_edge ordered). in_i64 x"
    using assms(2) mset_eq_setD [OF edges] by (auto simp: List.map_filter_def selected_def)
  moreover have "length (List.map_filter ex_edge ordered) \<le> 2 ^ 63"
    using len length_filter_le [of "\<lambda>e. ex_edge e \<noteq> None" ordered] by (simp add: List.map_filter_def del: length_filter_le)
  ultimately have te: "total_edge ordered = (if in_i64 edge then Inr edge else Inl (Internal ''total_edge exceeds i64 range''))"
    using edge_fold [of "List.map_filter ex_edge ordered" 0 0] by (simp add: total_edge_def edge i64_try_from_def)
  have total: "uint (of_nat (length ordered) :: u64) = int (length selected)"
    using len by (simp add: unsigned_of_nat take_bit_nat_eq_self)
  show ?thesis
    using tv te nonneg total mset sorted_newest_first [where xs = selected and ts = ex_timestamp_ms]
    by (auto simp: list_executions_def Let_def page_def uint_word_of_int selected_def [symmetric] ordered_def [symmetric]
        volume_def [symmetric] edge_def [symmetric])
qed

lemma stored_position:
  assumes "positions_ok store" and "p \<in> set (dm_values store)"
  shows "dm_get store (pos_symbol p) = Some p"
proof -
  obtain kp where kp: "kp \<in> set store" "p = snd kp" using assms(2) by auto
  have ok: "dm_ok store" and key: "\<And>k. dm_get store k = Some p \<Longrightarrow> pos_symbol p = k"
    using assms(1) by (auto simp: positions_ok_def)
  have "dm_get store (fst kp) = Some p" using kp ok by (simp add: dm_ok_def)
  then show ?thesis using key by fastforce
qed

lemma get_position_stored:
  assumes "positions_ok store" and "p \<in> set (open_positions u (dm_values store))"
  shows "get_position X best_quote m (pos_symbol p) store = (case position_mark X best_quote m p of
      Inl e \<Rightarrow> Inl e | Inr mark \<Rightarrow> Inr (position_response_of p mark))"
  using assms stored_position [OF assms(1), of p] by (auto simp: get_position_def)

lemma mark_pnl_sum:
  "\<forall>p \<in> set ps. \<exists>mark. f p = Inr mark \<Longrightarrow>
   sum_list (map (\<lambda>p. mark_pnl (f p)) ps) = sum_list (List.map_filter (\<lambda>p. map_option (fst \<circ> snd) (projr (f p))) ps)"
  by (induction ps) (auto simp: map_filter_simps mark_pnl_def split: option.splits)

text \<open>What a complete run of the loop says of the open positions, in terms of the single query.\<close>

lemma list_positions_loop_answers:
  assumes "positions_ok store"
    and "list_positions_loop X best_quote m u (dm_values store)
      \<lparr>pt_unrealized = 0, pt_realized = 0, pt_delta = f_zero, pt_unpriced = 0, pt_positions = []\<rparr> = Inr t"
  defines "listed \<equiv> open_positions u (dm_values store)"
    and "pnl \<equiv> \<lambda>p. map_option (fst \<circ> snd) (projr (position_mark X best_quote m p))"
  shows "pt_realized t = sum_list (map pos_realized_pnl (matching_positions u (dm_values store)))"
    and "pt_unrealized t = sum_list (List.map_filter pnl listed)"
    and "map Inr (pt_positions t) = map (\<lambda>p. get_position X best_quote m (pos_symbol p) store) listed"
    and "List.map_filter pr_unrealized_pnl (pt_positions t) = List.map_filter pnl listed"
    and "pt_unpriced t = length (filter (\<lambda>r. pr_current_price r = None) (pt_positions t))"
    and "\<forall>p \<in> set listed. \<exists>r. get_position X best_quote m (pos_symbol p) store = Inr r \<and> pr_unrealized_pnl r = pnl p"
proof -
  have run: "pt_realized t = sum_list (map pos_realized_pnl (matching_positions u (dm_values store)))"
    "pt_unrealized t = sum_list (map (\<lambda>p. mark_pnl (position_mark X best_quote m p)) listed)"
    "pt_positions t = map (\<lambda>p. position_response_of p (projr (position_mark X best_quote m p))) listed"
    "pt_unpriced t = length (filter (\<lambda>p. position_mark X best_quote m p = Inr None) listed)"
    and marked: "\<forall>p \<in> set listed. \<exists>mark. position_mark X best_quote m p = Inr mark"
    using list_positions_loop_ok [OF assms(2)] by (simp_all add: listed_def)
  have asked: "get_position X best_quote m (pos_symbol p) store = (case position_mark X best_quote m p of
      Inl e \<Rightarrow> Inl e | Inr mark \<Rightarrow> Inr (position_response_of p mark))" if "p \<in> set listed" for p
    using get_position_stored [OF assms(1)] that by (simp add: listed_def)
  show "pt_realized t = sum_list (map pos_realized_pnl (matching_positions u (dm_values store)))" by (rule run(1))
  show "pt_unrealized t = sum_list (List.map_filter pnl listed)"
    unfolding run(2) pnl_def by (rule mark_pnl_sum [OF marked])
  show "map Inr (pt_positions t) = map (\<lambda>p. get_position X best_quote m (pos_symbol p) store) listed"
    using marked asked by (auto simp: run(3))
  show "List.map_filter pr_unrealized_pnl (pt_positions t) = List.map_filter pnl listed"
    by (simp add: run(3) map_filter_map position_response_of_def pnl_def)
  have "filter (\<lambda>p. position_mark X best_quote m p = Inr None) listed
      = filter (\<lambda>p. projr (position_mark X best_quote m p) = None) listed"
    using marked by (intro filter_cong) auto
  then show "pt_unpriced t = length (filter (\<lambda>r. pr_current_price r = None) (pt_positions t))"
    by (simp add: run(3,4) filter_map o_def position_response_of_def)
  show "\<forall>p \<in> set listed. \<exists>r. get_position X best_quote m (pos_symbol p) store = Inr r \<and> pr_unrealized_pnl r = pnl p"
    using marked asked by (auto simp: position_response_of_def pnl_def)
qed

text \<open>
  The position list agrees with the single-position query: it lists exactly the open
  positions of the filter, each entry being what \<open>get_position\<close> answers for its symbol; the
  realised total covers flat positions too, the unrealised total exactly the priced ones, and
  the list is refused only for a position that cannot be marked or a total out of range.
\<close>

theorem list_positions_correct:
  assumes "positions_ok store" and "length store \<le> 2 ^ 63"
  shows "let matching = filter (\<lambda>p. allows u (pos_underlying p)) (dm_values store);
             listed = filter (\<lambda>p. pos_quantity p \<noteq> 0) matching
         in case list_positions X best_quote m u store of
              Inl err \<Rightarrow> (\<exists>msg. err = Internal msg)
                \<and> ((\<exists>p \<in> set listed. get_position X best_quote m (pos_symbol p) store = Inl err)
                   \<or> \<not> in_i64 (sum_list (map pos_realized_pnl matching))
                   \<or> (\<exists>pnl. (\<forall>p \<in> set listed. \<exists>r. get_position X best_quote m (pos_symbol p) store = Inr r \<and> pr_unrealized_pnl r = pnl p)
                        \<and> \<not> in_i64 (sum_list (List.map_filter pnl listed))))
            | Inr (shown, summary) \<Rightarrow>
                map Inr shown = map (\<lambda>p. get_position X best_quote m (pos_symbol p) store) listed
              \<and> ps_total_realized_pnl summary = sum_list (map pos_realized_pnl matching)
              \<and> ps_total_unrealized_pnl summary = sum_list (List.map_filter pr_unrealized_pnl shown)
              \<and> ps_position_count summary = length listed
              \<and> ps_unpriced_count summary = length (filter (\<lambda>r. pr_current_price r = None) shown)"
proof -
  define listed where "listed = open_positions u (dm_values store)"
  have listed: "filter (\<lambda>p. pos_quantity p \<noteq> 0) (matching_positions u (dm_values store)) = listed"
    by (simp add: listed_def conj_commute)
  have realized: "\<forall>p \<in> set (dm_values store). in_i64 (pos_realized_pnl p)"
    using stored_position [OF assms(1)] assms(1) by (auto simp: positions_ok_def position_wf_def)
  show ?thesis
  proof (cases "list_positions_loop X best_quote m u (dm_values store)
      \<lparr>pt_unrealized = 0, pt_realized = 0, pt_delta = f_zero, pt_unpriced = 0, pt_positions = []\<rparr>")
    case (Inl err)
    then obtain p msg where p: "p \<in> set listed" "position_mark X best_quote m p = Inl err" "err = Internal msg"
      using list_positions_loop_error [OF Inl realized, of 0] assms(2) by (auto simp: listed_def)
    have "list_positions X best_quote m u store = Inl err" using Inl by (simp add: list_positions_def)
    moreover have "get_position X best_quote m (pos_symbol p) store = Inl err"
      using p get_position_stored [OF assms(1), of p u X best_quote m] by (simp add: listed_def)
    ultimately show ?thesis using p(1,3) unfolding Let_def listed by (simp only: sum.case) blast
  next
    case (Inr t)
    let ?pnl = "\<lambda>p. map_option (fst \<circ> snd) (projr (position_mark X best_quote m p))"
    note t = list_positions_loop_answers [OF assms(1) Inr, folded listed_def]
    have res: "list_positions X best_quote m u store =
       (if \<not> in_i64 (pt_unrealized t) then Inl (Internal ''total_unrealized_pnl exceeds i64 range'')
        else if \<not> in_i64 (pt_realized t) then Inl (Internal ''total_realized_pnl exceeds i64 range'')
        else Inr (pt_positions t, \<lparr>ps_total_unrealized_pnl = pt_unrealized t, ps_total_realized_pnl = pt_realized t,
          ps_net_delta = pt_delta t, ps_position_count = length (pt_positions t), ps_unpriced_count = pt_unpriced t\<rparr>))"
      by (simp add: list_positions_def Inr i64_try_from_def)
    consider "\<not> in_i64 (pt_unrealized t)" | "in_i64 (pt_unrealized t)" "\<not> in_i64 (pt_realized t)"
      | "in_i64 (pt_unrealized t)" "in_i64 (pt_realized t)" by blast
    then show ?thesis
    proof cases
      case 1
      then show ?thesis
        unfolding Let_def listed res using t(2,6)
        by (simp only: if_True simp_thms sum.case) (intro conjI exI [where x = ?pnl] disjI2; blast)
    next
      case 2
      then show ?thesis unfolding Let_def listed res using t(1) by (simp only: if_True if_False simp_thms sum.case) blast
    next
      case 3
      then show ?thesis
        unfolding Let_def listed res using t(1-5)
        by (simp only: if_False simp_thms sum.case prod.case position_summary.select_convs) (metis length_map)
    qed
  qed
qed

definition demo_execution :: "string \<Rightarrow> u64 \<Rightarrow> u64 \<Rightarrow> execution_info" where
  "demo_execution i q t = \<lparr>ex_execution_id = i, ex_order_id = ''0'', ex_symbol = ''U-20300101-100-C'', ex_side = Buy,
     ex_price = 150, ex_quantity = q, ex_timestamp_ms = t, ex_counterparty = None, ex_is_maker = False,
     ex_fee = 0, ex_edge = None\<rparr>"

lemma list_executions_correct_witness:
  "\<exists>shown summary. list_executions (\<lambda>_. None) \<lparr>eq_from = None, eq_to = None, eq_underlying = Some ''U'', eq_symbol = None,
       eq_side = None, eq_limit = 1, eq_offset = 0\<rparr>
     [(''a'', demo_execution ''a'' 5 60000), (''b'', demo_execution ''b'' 3 90000)] = Inr (shown, summary)
     \<and> uint (es_total_volume summary) = 8 \<and> uint (es_total_executions summary) = 2"
proof -
  let ?q = "\<lparr>eq_from = None, eq_to = None, eq_underlying = Some ''U'', eq_symbol = None, eq_side = None, eq_limit = 1, eq_offset = 0\<rparr>"
  let ?s = "[(''a'', demo_execution ''a'' 5 60000), (''b'', demo_execution ''b'' 3 90000)]"
  have sel: "filter (execution_matches (\<lambda>_. None) ?q) (dm_values ?s) = [demo_execution ''a'' 5 60000, demo_execution ''b'' 3 90000]"
    by (simp add: execution_matches_def demo_execution_def starts_with_def lenient_side_def in_dates_def)
  have edges: "List.map_filter ex_edge [demo_execution ''a'' 5 60000, demo_execution ''b'' 3 90000] = []"
    by (simp add: demo_execution_def map_filter_simps)
  have small: "length ?s \<le> 2 ^ 63" and no_edge: "\<forall>e \<in> set (dm_values ?s). \<forall>x. ex_edge e = Some x \<longrightarrow> in_i64 x"
    by (simp_all add: demo_execution_def)
  show ?thesis
    using list_executions_correct [OF small no_edge, of "\<lambda>_. None" ?q]
    unfolding sel Let_def edges
    by (cases "list_executions (\<lambda>_. None) ?q ?s") (auto simp: demo_execution_def in_i64_def)
qed

definition demo_position :: "string \<Rightarrow> i64 \<Rightarrow> position_info" where
  "demo_position s q = \<lparr>pos_symbol = s, pos_underlying = ''U'', pos_quantity = q, pos_average_price = 100,
     pos_realized_pnl = 7, pos_created_at_ms = 0, pos_updated_at_ms = 0\<rparr>"

definition demo_quote :: book_quote where
  "demo_quote = \<lparr>bq_bid_price = Some 100, bq_bid_size = 1, bq_ask_price = Some 110, bq_ask_size = 1,
     bq_timestamp_ms = 60000\<rparr>"

lemma list_positions_correct_witness:
  "\<exists>shown summary. list_positions demo_exchange (\<lambda>_ _. demo_quote) demo_book None
       [(''U-20300101-100-C'', demo_position ''U-20300101-100-C'' 2), (''V'', demo_position ''V'' 0)] = Inr (shown, summary)
     \<and> ps_total_realized_pnl summary = 14 \<and> ps_total_unrealized_pnl summary = 10 \<and> ps_position_count summary = 1"
proof -
  let ?a = "demo_position ''U-20300101-100-C'' 2"
  let ?s = "[(''U-20300101-100-C'', ?a), (''V'', demo_position ''V'' 0)]"
  have ok: "positions_ok ?s" "length ?s \<le> 2 ^ 63"
    by (simp_all add: positions_ok_def dm_ok_def demo_position_def position_wf_def in_i64_def)
  have parts: "split_on (CHR ''-'') ''U-20300101-100-C'' = [''U'', ''20300101'', ''100'', ''C'']" "parse_u64 ''100'' = Some 100"
    "style_of_code ''C'' = Some OptCall"
    by (simp_all add: parse_u64_def parse_unsigned_def parse_digits_def digits_val_def digit_val_def strip_plus_def
        is_digit_def style_of_code_def ascii_upper_def upper_char_def)
  have book: "symbol_book demo_exchange demo_book ''U-20300101-100-C'' = Some demo_call"
    by (simp add: symbol_book_def parts demo_call_def) (simp add: demo_fields demo_book_def)
  have price: "get_current_price_for_symbol demo_exchange (\<lambda>_ _. demo_quote) demo_book ''U-20300101-100-C'' = Some 105"
    by (simp add: get_current_price_for_symbol_def book demo_quote_def)
  have "get_position demo_exchange (\<lambda>_ _. demo_quote) demo_book ''U-20300101-100-C'' ?s
      = Inr (position_response_of ?a (Some (105, 10, 210)))"
    by (simp add: get_position_def price mark_position_def)
      (simp add: demo_position_def unrealized_pnl_def notional_value_def i128_try_from_def i64_try_from_def
        in_i128_def in_i64_def checked_mul_def unsigned_abs_def)
  moreover have "filter (\<lambda>p. allows None (pos_underlying p)) (dm_values ?s) = [?a, demo_position ''V'' 0]"
      "filter (\<lambda>p. pos_quantity p \<noteq> 0) [?a, demo_position ''V'' 0] = [?a]"
      "pos_symbol ?a = ''U-20300101-100-C''" "sum_list (map pos_realized_pnl [?a, demo_position ''V'' 0]) = 14"
    by (simp_all add: demo_position_def)
  ultimately show ?thesis
    using list_positions_correct [OF ok, where X = demo_exchange and best_quote = "\<lambda>_ _. demo_quote" and m = demo_book and u = None]
    unfolding Let_def
    by (cases "list_positions demo_exchange (\<lambda>_ _. demo_quote) demo_book None ?s")
      (auto simp: in_i64_def position_response_of_def List.map_filter_def split: if_splits)
qed

end
