(* ===== verification/Hierarchy.thy ===== *)
theory Hierarchy
  imports Queries
begin

text \<open>
  The underlying, expiration, strike and option-book handlers of \<open>src/src/api/handlers.rs\<close>:
  creating and deleting parts of the book hierarchy, reading it, and the option chain. What
  the library reports of its books (counts, depths, the best quote) is the record
  \<open>book_stats\<close>; the spot price of the simulator is a parameter.
\<close>

section \<open>Data\<close>

record quote_response =
  qr_bid_price :: "u128 option"
  qr_bid_size :: u64
  qr_ask_price :: "u128 option"
  qr_ask_size :: u64
  qr_timestamp_ms :: u64

record order_book_snapshot_response =
  obs_symbol :: string
  obs_total_bid_depth :: u64
  obs_total_ask_depth :: u64
  obs_bid_level_count :: nat
  obs_ask_level_count :: nat
  obs_order_count :: nat
  obs_quote :: quote_response

record underlying_summary =
  us_symbol :: string
  us_expiration_count :: nat
  us_total_strike_count :: nat
  us_total_order_count :: nat

record expiration_summary =
  xs_expiration :: string
  xs_strike_count :: nat
  xs_total_order_count :: nat

record strike_summary =
  ks_strike :: u64
  ks_call_order_count :: nat
  ks_put_order_count :: nat
  ks_call_quote :: quote_response
  ks_put_quote :: quote_response

record chain_query =
  cq_min_strike :: "u64 option"
  cq_max_strike :: "u64 option"

text \<open>The placeholder fields of the code (volume, open interest, greeks) are constants.\<close>

record option_quote_data =
  oqd_bid :: "u128 option"
  oqd_ask :: "u128 option"
  oqd_bid_size :: u64
  oqd_ask_size :: u64
  oqd_last_trade :: "u128 option"

record chain_strike_row =
  row_strike :: u64
  row_call :: option_quote_data
  row_put :: option_quote_data

record option_chain_response =
  oc_underlying :: string
  oc_expiration :: string
  oc_spot_price :: "u128 option"
  oc_atm_strike :: "u64 option"
  oc_chain :: "chain_strike_row list"

text \<open>\<open>hs_key\<close> is the expiration an expiration book is stored under.\<close>

record 'm book_stats =
  hs_expiration_count :: "'m \<Rightarrow> string \<Rightarrow> nat"
  hs_total_strike_count :: "'m \<Rightarrow> string \<Rightarrow> nat"
  hs_total_order_count :: "'m \<Rightarrow> string \<Rightarrow> nat"
  hs_key :: "'m \<Rightarrow> string \<Rightarrow> expiration \<Rightarrow> expiration"
  hs_strike_count :: "'m \<Rightarrow> string \<Rightarrow> expiration \<Rightarrow> nat"
  hs_chain_order_count :: "'m \<Rightarrow> string \<Rightarrow> expiration \<Rightarrow> nat"
  hs_order_count :: "'m \<Rightarrow> book_key \<Rightarrow> nat"
  hs_bid_depth :: "'m \<Rightarrow> book_key \<Rightarrow> u64"
  hs_ask_depth :: "'m \<Rightarrow> book_key \<Rightarrow> u64"
  hs_bid_levels :: "'m \<Rightarrow> book_key \<Rightarrow> nat"
  hs_ask_levels :: "'m \<Rightarrow> book_key \<Rightarrow> nat"
  hs_best_quote :: "'m \<Rightarrow> book_key \<Rightarrow> book_quote"

definition quote_to_response :: "book_quote \<Rightarrow> quote_response" where
  "quote_to_response q =
     \<lparr>qr_bid_price = bq_bid_price q, qr_bid_size = bq_bid_size q, qr_ask_price = bq_ask_price q,
      qr_ask_size = bq_ask_size q, qr_timestamp_ms = bq_timestamp_ms q\<rparr>"

section \<open>Underlyings\<close>

definition list_underlyings :: "('m, 'o) exchange \<Rightarrow> 'm \<Rightarrow> string list" where
  "list_underlyings X m = x_underlyings X m"

definition underlying_summary_of :: "'m book_stats \<Rightarrow> 'm \<Rightarrow> string \<Rightarrow> underlying_summary" where
  "underlying_summary_of H m u =
     \<lparr>us_symbol = u, us_expiration_count = hs_expiration_count H m u,
      us_total_strike_count = hs_total_strike_count H m u, us_total_order_count = hs_total_order_count H m u\<rparr>"

definition create_underlying :: "('m, 'o) exchange \<Rightarrow> 'm book_stats \<Rightarrow> string \<Rightarrow> 'm \<Rightarrow> 'm \<times> underlying_summary" where
  "create_underlying X H u m = (let m = x_get_or_create X m u in (m, underlying_summary_of H m u))"

definition get_underlying :: "('m, 'o) exchange \<Rightarrow> 'm book_stats \<Rightarrow> string \<Rightarrow> 'm \<Rightarrow> api_error + underlying_summary" where
  "get_underlying X H u m =
     (case x_get X m u of
        Inl _ \<Rightarrow> Inl (UnderlyingNotFound u)
      | Inr _ \<Rightarrow> Inr (underlying_summary_of H m u))"

definition delete_underlying :: "('m, 'o) exchange \<Rightarrow> string \<Rightarrow> 'm \<Rightarrow> 'm \<times> (api_error + string)" where
  "delete_underlying X u m =
     (case x_delete_underlying X m u of
        (m, True) \<Rightarrow> (m, Inr (''Underlying '' @ u @ '' deleted''))
      | (m, False) \<Rightarrow> (m, Inl (UnderlyingNotFound u)))"

section \<open>Expirations\<close>

definition list_expirations :: "('m, 'o) exchange \<Rightarrow> string \<Rightarrow> 'm \<Rightarrow> api_error + string list" where
  "list_expirations X u m =
     (case x_get X m u of
        Inl _ \<Rightarrow> Inl (UnderlyingNotFound u)
      | Inr _ \<Rightarrow> Inr (map (format_expiration X) (x_expirations X m u)))"

definition create_expiration ::
  "('m, 'o) exchange \<Rightarrow> 'm book_stats \<Rightarrow> string \<Rightarrow> string \<Rightarrow> 'm \<Rightarrow> 'm \<times> (api_error + expiration_summary)" where
  "create_expiration X H u s m =
     (case parse_expiration X s of
        Inl err \<Rightarrow> (m, Inl err)
      | Inr e \<Rightarrow>
          (let m = x_get_or_create X m u;
               m = x_get_or_create_expiration X m u e
           in (m, Inr \<lparr>xs_expiration = x_exp_display X (hs_key H m u e), xs_strike_count = hs_strike_count H m u e,
                xs_total_order_count = hs_chain_order_count H m u e\<rparr>)))"

text \<open>The lookup shared by the read handlers, up to the expiration book.\<close>

definition resolve_expiration :: "('m, 'o) exchange \<Rightarrow> 'm \<Rightarrow> string \<Rightarrow> string \<Rightarrow> api_error + expiration" where
  "resolve_expiration X m u s =
     (case x_get X m u of
        Inl _ \<Rightarrow> Inl (UnderlyingNotFound u)
      | Inr _ \<Rightarrow>
          (case find_expiration_by_str X m u s of
             None \<Rightarrow> Inl (ExpirationNotFound s)
           | Some e \<Rightarrow>
               (case x_get_expiration X m u e of
                  Inl _ \<Rightarrow> Inl (ExpirationNotFound s)
                | Inr _ \<Rightarrow> Inr e)))"

definition get_expiration ::
  "('m, 'o) exchange \<Rightarrow> 'm book_stats \<Rightarrow> string \<Rightarrow> string \<Rightarrow> 'm \<Rightarrow> api_error + expiration_summary" where
  "get_expiration X H u s m =
     (case resolve_expiration X m u s of
        Inl err \<Rightarrow> Inl err
      | Inr e \<Rightarrow> Inr \<lparr>xs_expiration = format_expiration X (hs_key H m u e), xs_strike_count = hs_strike_count H m u e,
           xs_total_order_count = hs_chain_order_count H m u e\<rparr>)"

section \<open>Strikes and option books\<close>

definition list_strikes :: "('m, 'o) exchange \<Rightarrow> string \<Rightarrow> string \<Rightarrow> 'm \<Rightarrow> api_error + u64 list" where
  "list_strikes X u s m =
     (case resolve_expiration X m u s of Inl err \<Rightarrow> Inl err | Inr e \<Rightarrow> Inr (x_strikes X m u e))"

definition strike_summary_of :: "'m book_stats \<Rightarrow> 'm \<Rightarrow> string \<Rightarrow> expiration \<Rightarrow> u64 \<Rightarrow> strike_summary" where
  "strike_summary_of H m u e k =
     \<lparr>ks_strike = k, ks_call_order_count = hs_order_count H m (u, e, k, OptCall),
      ks_put_order_count = hs_order_count H m (u, e, k, OptPut),
      ks_call_quote = quote_to_response (hs_best_quote H m (u, e, k, OptCall)),
      ks_put_quote = quote_to_response (hs_best_quote H m (u, e, k, OptPut))\<rparr>"

definition create_strike ::
  "('m, 'o) exchange \<Rightarrow> 'm book_stats \<Rightarrow> string \<Rightarrow> string \<Rightarrow> u64 \<Rightarrow> 'm \<Rightarrow> 'm \<times> (api_error + strike_summary)" where
  "create_strike X H u s k m =
     (case parse_expiration X s of
        Inl err \<Rightarrow> (m, Inl err)
      | Inr e \<Rightarrow> (let m = create_book X m u e k in (m, Inr (strike_summary_of H m u e k))))"

definition get_strike ::
  "('m, 'o) exchange \<Rightarrow> 'm book_stats \<Rightarrow> string \<Rightarrow> string \<Rightarrow> u64 \<Rightarrow> 'm \<Rightarrow> api_error + strike_summary" where
  "get_strike X H u s k m =
     (case resolve_expiration X m u s of
        Inl err \<Rightarrow> Inl err
      | Inr e \<Rightarrow>
          (case x_get_strike X m u e k of
             Inl _ \<Rightarrow> Inl (StrikeNotFound k)
           | Inr _ \<Rightarrow> Inr (strike_summary_of H m u e k)))"

definition get_option_book ::
  "('m, 'o) exchange \<Rightarrow> 'm book_stats \<Rightarrow> string \<Rightarrow> string \<Rightarrow> u64 \<Rightarrow> string \<Rightarrow> 'm \<Rightarrow> api_error + order_book_snapshot_response" where
  "get_option_book X H u s k style m =
     (case parse_option_style style of
        Inl err \<Rightarrow> Inl err
      | Inr os \<Rightarrow>
          (case resolve_book X m u s k os of
             Inl err \<Rightarrow> Inl err
           | Inr bk \<Rightarrow>
               Inr \<lparr>obs_symbol = x_symbol X m bk, obs_total_bid_depth = hs_bid_depth H m bk,
                    obs_total_ask_depth = hs_ask_depth H m bk, obs_bid_level_count = hs_bid_levels H m bk,
                    obs_ask_level_count = hs_ask_levels H m bk, obs_order_count = hs_order_count H m bk,
                    obs_quote = quote_to_response (hs_best_quote H m bk)\<rparr>))"

definition get_option_quote ::
  "('m, 'o) exchange \<Rightarrow> 'm book_stats \<Rightarrow> string \<Rightarrow> string \<Rightarrow> u64 \<Rightarrow> string \<Rightarrow> 'm \<Rightarrow> api_error + quote_response" where
  "get_option_quote X H u s k style m =
     (case parse_option_style style of
        Inl err \<Rightarrow> Inl err
      | Inr os \<Rightarrow>
          (case resolve_book X m u s k os of
             Inl err \<Rightarrow> Inl err
           | Inr bk \<Rightarrow> Inr (quote_to_response (hs_best_quote H m bk))))"

section \<open>The option chain\<close>

definition in_strike_range :: "chain_query \<Rightarrow> u64 \<Rightarrow> bool" where
  "in_strike_range query strike \<longleftrightarrow>
     (case cq_min_strike query of None \<Rightarrow> True | Some lo \<Rightarrow> \<not> strike < lo)
   \<and> (case cq_max_strike query of None \<Rightarrow> True | Some hi \<Rightarrow> \<not> hi < strike)"

text \<open>\<open>abs_diff\<close> on 128 bits, and the first strike of least distance.\<close>

definition strike_distance :: "u128 \<Rightarrow> u64 \<Rightarrow> nat" where
  "strike_distance spot strike = nat \<bar>uint strike - uint spot\<bar>"

definition atm_strike :: "u128 option \<Rightarrow> u64 list \<Rightarrow> u64 option" where
  "atm_strike spot strikes =
     (case spot of
        None \<Rightarrow> None
      | Some s \<Rightarrow> if strikes = [] then None else Some (arg_min_list (strike_distance s) strikes))"

definition build_option_quote_data ::
  "book_quote \<Rightarrow> (string, last_trade_info) dashmap \<Rightarrow> string \<Rightarrow> string \<Rightarrow> u64 \<Rightarrow> opt_style \<Rightarrow> option_quote_data" where
  "build_option_quote_data q last_trades u s k style =
     \<lparr>oqd_bid = bq_bid_price q, oqd_ask = bq_ask_price q, oqd_bid_size = bq_bid_size q, oqd_ask_size = bq_ask_size q,
      oqd_last_trade = map_option (\<lambda>l. ucast (lt_price l)) (dm_get last_trades (option_symbol u s k style))\<rparr>"

definition chain_row ::
  "'m book_stats \<Rightarrow> (string, last_trade_info) dashmap \<Rightarrow> string \<Rightarrow> string \<Rightarrow> expiration \<Rightarrow> 'm \<Rightarrow> u64 \<Rightarrow> chain_strike_row" where
  "chain_row H last_trades u s e m k =
     \<lparr>row_strike = k,
      row_call = build_option_quote_data (hs_best_quote H m (u, e, k, OptCall)) last_trades u s k OptCall,
      row_put = build_option_quote_data (hs_best_quote H m (u, e, k, OptPut)) last_trades u s k OptPut\<rparr>"

definition get_option_chain ::
  "('m, 'o) exchange \<Rightarrow> 'm book_stats \<Rightarrow> (string \<Rightarrow> u64 option) \<Rightarrow> (string, last_trade_info) dashmap
   \<Rightarrow> string \<Rightarrow> string \<Rightarrow> chain_query \<Rightarrow> 'm \<Rightarrow> api_error + option_chain_response" where
  "get_option_chain X H spot last_trades u s query m =
     (case resolve_expiration X m u s of
        Inl err \<Rightarrow> Inl err
      | Inr e \<Rightarrow>
          (let strikes = filter (in_strike_range query) (sort (x_strikes X m u e));
               spot_price = map_option ucast (spot u)
           in Inr \<lparr>oc_underlying = u, oc_expiration = s, oc_spot_price = spot_price,
                oc_atm_strike = atm_strike spot_price strikes,
                oc_chain = map (chain_row H last_trades u s e m)
                  (filter (\<lambda>k. x_get_strike X m u e k = Inr ()) strikes)\<rparr>))"

section \<open>Books that were created are found\<close>

text \<open>
  What the hierarchy of the library promises: what was created is there, under a key equal to
  the requested one; creating a level leaves the levels above in place; and a lookup depends
  on an expiration only up to the equality of keys.
\<close>

definition hierarchy_laws :: "('m, 'o) exchange \<Rightarrow> bool" where
  "hierarchy_laws X \<longleftrightarrow>
     (\<forall>m u. x_get X (x_get_or_create X m u) u = Inr ())
   \<and> (\<forall>m u e. x_get X (x_get_or_create_expiration X m u e) = x_get X m
        \<and> x_get_expiration X (x_get_or_create_expiration X m u e) u e = Inr ()
        \<and> (\<exists>e' \<in> set (x_expirations X (x_get_or_create_expiration X m u e) u). x_exp_eq X e' e))
   \<and> (\<forall>m u e k. x_get X (x_get_or_create_strike X m u e k) = x_get X m
        \<and> x_get_expiration X (x_get_or_create_strike X m u e k) = x_get_expiration X m
        \<and> x_expirations X (x_get_or_create_strike X m u e k) = x_expirations X m
        \<and> x_get_strike X (x_get_or_create_strike X m u e k) u e k = Inr ())
   \<and> (\<forall>m u e e' k. x_exp_eq X e' e \<longrightarrow> x_get_expiration X m u e' = x_get_expiration X m u e
        \<and> x_get_strike X m u e' k = x_get_strike X m u e k)"

lemma created_levels:
  assumes "hierarchy_laws X"
  shows "x_get X (create_book X m u e k) u = Inr ()"
    and "x_get_expiration X (create_book X m u e k) u e = Inr ()"
    and "x_get_strike X (create_book X m u e k) u e k = Inr ()"
    and "\<exists>e' \<in> set (x_expirations X (create_book X m u e k) u). x_exp_eq X e' e"
proof -
  have create: "x_get X (x_get_or_create X m u) u = Inr ()" for m u
    using assms unfolding hierarchy_laws_def by blast
  have exp: "x_get X (x_get_or_create_expiration X m u e) = x_get X m"
      "x_get_expiration X (x_get_or_create_expiration X m u e) u e = Inr ()"
      "\<exists>e' \<in> set (x_expirations X (x_get_or_create_expiration X m u e) u). x_exp_eq X e' e" for m u e
    using assms unfolding hierarchy_laws_def by blast+
  have strike: "x_get X (x_get_or_create_strike X m u e k) = x_get X m"
      "x_get_expiration X (x_get_or_create_strike X m u e k) = x_get_expiration X m"
      "x_expirations X (x_get_or_create_strike X m u e k) = x_expirations X m"
      "x_get_strike X (x_get_or_create_strike X m u e k) u e k = Inr ()" for m u e k
    using assms unfolding hierarchy_laws_def by blast+
  show "x_get X (create_book X m u e k) u = Inr ()"
    and "x_get_expiration X (create_book X m u e k) u e = Inr ()"
    and "x_get_strike X (create_book X m u e k) u e k = Inr ()"
    and "\<exists>e' \<in> set (x_expirations X (create_book X m u e k) u). x_exp_eq X e' e"
    by (simp_all add: create_book_def create exp strike)
qed

lemma key_equality:
  assumes "hierarchy_laws X" and "x_exp_eq X e' e"
  shows "x_get_expiration X m u e' = x_get_expiration X m u e" and "x_get_strike X m u e' k = x_get_strike X m u e k"
  using assms unfolding hierarchy_laws_def by blast+

text \<open>
  An expiration string is unambiguous for a key when the stored expirations that format as
  the string are that key. A book keyed by a number of days formats as a calendar date, so a
  date and a number of days can name two books with one formatted name.
\<close>

definition unambiguous :: "('m, 'o) exchange \<Rightarrow> 'm \<Rightarrow> string \<Rightarrow> string \<Rightarrow> expiration \<Rightarrow> bool" where
  "unambiguous X m u s e \<longleftrightarrow>
     (\<forall>e' \<in> set (x_expirations X m u). format_expiration X e' = s \<longrightarrow> x_exp_eq X e' e)"

lemma find_created:
  assumes "parse_expiration X s = Inr e" and "unambiguous X m u s e"
    and "\<exists>e' \<in> set (x_expirations X m u). x_exp_eq X e' e"
  obtains e' where "find_expiration_by_str X m u s = Some e'" and "x_exp_eq X e' e"
proof (cases "find (\<lambda>e'. format_expiration X e' = s) (x_expirations X m u)")
  case (Some e')
  then have "x_exp_eq X e' e" using assms(2) find_Some_in [OF Some] by (simp add: unambiguous_def)
  then show thesis using Some by (intro that [of e']) (simp_all add: find_expiration_by_str_def)
next
  case None
  have "find (\<lambda>e'. x_exp_eq X e' e) (x_expirations X m u) \<noteq> None"
    using assms(3) by (auto simp: find_None_iff)
  then obtain e' where e': "find (\<lambda>e'. x_exp_eq X e' e) (x_expirations X m u) = Some e'" by auto
  then have "x_exp_eq X e' e" using find_Some_in [OF e'] by simp
  then show thesis using None e' assms(1) by (intro that [of e']) (simp_all add: find_expiration_by_str_def)
qed

lemma created_book_resolves:
  assumes laws: "hierarchy_laws X" and parse: "parse_expiration X s = Inr e"
    and unamb: "unambiguous X (create_book X m u e k) u s e"
  obtains e' where "resolve_book X (create_book X m u e k) u s k st = Inr (u, e', k, st)"
    and "resolve_expiration X (create_book X m u e k) u s = Inr e'"
    and "x_get_strike X (create_book X m u e k) u e' k = Inr ()" and "x_exp_eq X e' e"
proof -
  note made = created_levels [OF laws, of m u e k]
  obtain e' where e': "find_expiration_by_str X (create_book X m u e k) u s = Some e'" "x_exp_eq X e' e"
    using find_created [OF parse unamb made(4)] .
  then show thesis
    using that [of e'] made key_equality [OF laws e'(2)]
    by (simp add: resolve_book_def resolve_expiration_def)
qed

lemma arg_min_list_first:
  "xs \<noteq> [] \<Longrightarrow> sorted xs \<Longrightarrow> k \<in> set xs \<Longrightarrow>
     f (arg_min_list f xs) < f k \<or> f (arg_min_list f xs) = f k \<and> arg_min_list f xs \<le> k"
proof (induction f xs rule: arg_min_list.induct)
  case (2 f x y zs)
  have "x \<le> arg_min_list f (y # zs)" using 2(3) arg_min_list_in [of "y # zs" f] by auto
  then show ?case using 2 by (auto simp: Let_def)
qed auto

section \<open>Properties\<close>

text \<open>
  What is created can be read back: after creating a strike, the same path reads the strike,
  both its option books resolve under a key equal to the parsed expiration, and the
  underlying and expiration are there too.
\<close>

theorem created_strike_is_readable:
  assumes "hierarchy_laws X" and "create_strike X H u s k m = (m', Inr summary)"
    and "\<forall>e. parse_expiration X s = Inr e \<longrightarrow> unambiguous X m' u s e"
  shows "\<exists>e e'. parse_expiration X s = Inr e \<and> x_exp_eq X e' e
    \<and> get_strike X H u s k m' = Inr (strike_summary_of H m' u e' k)
    \<and> (\<forall>st. resolve_book X m' u s k st = Inr (u, e', k, st))
    \<and> get_underlying X H u m' = Inr (underlying_summary_of H m' u)
    \<and> (\<exists>x. get_expiration X H u s m' = Inr x)
    \<and> list_strikes X u s m' = Inr (x_strikes X m' u e')"
proof -
  obtain e where e: "parse_expiration X s = Inr e" and m': "m' = create_book X m u e k"
    using assms(2) by (auto simp: create_strike_def Let_def split: sum.splits)
  have unamb: "unambiguous X (create_book X m u e k) u s e" using assms(3) e m' by simp
  obtain e' where e': "resolve_expiration X m' u s = Inr e'" "x_get_strike X m' u e' k = Inr ()" "x_exp_eq X e' e"
    using created_book_resolves [OF assms(1) e unamb] m' by metis
  have "resolve_book X m' u s k st = Inr (u, e', k, st)" for st
    using e'(1,2) by (auto simp: resolve_book_def resolve_expiration_def split: sum.splits option.splits)
  moreover have "x_get X m' u = Inr ()" using created_levels(1) [OF assms(1)] m' by simp
  ultimately show ?thesis
    using e e' by (auto simp: get_strike_def get_underlying_def get_expiration_def list_strikes_def)
qed

lemma demo_hierarchy_laws: "hierarchy_laws demo_exchange"
  by (simp add: hierarchy_laws_def demo_fields add_once_def) (auto intro!: rev_image_eqI)

definition demo_stats :: "demo_state book_stats" where
  "demo_stats = \<lparr>hs_expiration_count = (\<lambda>m u. length (x_expirations demo_exchange m u)), hs_total_strike_count = (\<lambda>_ _. 0),
     hs_total_order_count = (\<lambda>_ _. 0), hs_key = (\<lambda>_ _ e. e), hs_strike_count = (\<lambda>m u e. length (x_strikes demo_exchange m u e)),
     hs_chain_order_count = (\<lambda>_ _ _. 0), hs_order_count = (\<lambda>m bk. length (demo_content m bk)),
     hs_bid_depth = (\<lambda>_ _. 0), hs_ask_depth = (\<lambda>_ _. 0), hs_bid_levels = (\<lambda>_ _. 0), hs_ask_levels = (\<lambda>_ _. 0),
     hs_best_quote = (\<lambda>_ _. demo_quote)\<rparr>"

lemma created_strike_is_readable_witness:
  "\<exists>m' summary. create_strike demo_exchange demo_stats ''U'' ''20300101'' 100 demo_empty = (m', Inr summary)
     \<and> (\<exists>x. get_strike demo_exchange demo_stats ''U'' ''20300101'' 100 m' = Inr x)"
proof -
  obtain m' summary where run: "create_strike demo_exchange demo_stats ''U'' ''20300101'' 100 demo_empty = (m', Inr summary)"
    and m': "m' = create_book demo_exchange demo_empty ''U'' (DateTime 0) 100"
    by (simp add: create_strike_def Let_def)
  have "x_expirations demo_exchange m' ''U'' = [DateTime 0]"
    by (simp add: m' create_book_def demo_fields demo_empty_def add_once_def)
  then have "\<forall>e. parse_expiration demo_exchange ''20300101'' = Inr e \<longrightarrow> unambiguous demo_exchange m' ''U'' ''20300101'' e"
    by (simp add: unambiguous_def) (simp add: demo_fields)
  then show ?thesis
    using created_strike_is_readable [OF demo_hierarchy_laws run] run by blast
qed

text \<open>
  The ambiguity is real: when a book keyed by days formats as the date of a request and comes
  first, the read path answers with that book, although the create path of the same string
  keeps a separate book keyed by the date.
\<close>

lemma date_reads_days_book:
  assumes "x_expirations X m u = Days n # DateTime t # rest" and "format_expiration X (Days n) = s"
  shows "find_expiration_by_str X m u s = Some (Days n)"
  using assms by (simp add: find_expiration_by_str_def)

text \<open>
  The option chain: its rows are exactly the existing strikes within the requested range,
  ascending, each with the quotes of its two books; the at-the-money strike is a strike of the
  range nearest to the spot, and the lower one when two are equally near.
\<close>

theorem option_chain_correct:
  "case get_option_chain X H spot trades u s query m of
     Inl err \<Rightarrow> resolve_expiration X m u s = Inl err
   | Inr chain \<Rightarrow> \<exists>e. resolve_expiration X m u s = Inr e
       \<and> sorted (map row_strike (oc_chain chain))
       \<and> set (map row_strike (oc_chain chain))
           = {k \<in> set (x_strikes X m u e). x_get_strike X m u e k = Inr () \<and> in_strike_range query k}
       \<and> (\<forall>row \<in> set (oc_chain chain). oqd_bid (row_call row) = bq_bid_price (hs_best_quote H m (u, e, row_strike row, OptCall))
            \<and> oqd_ask (row_put row) = bq_ask_price (hs_best_quote H m (u, e, row_strike row, OptPut)))
       \<and> (\<forall>p. spot u = Some p \<longrightarrow>
            (case oc_atm_strike chain of
               None \<Rightarrow> \<forall>k \<in> set (x_strikes X m u e). \<not> in_strike_range query k
             | Some a \<Rightarrow> a \<in> set (x_strikes X m u e) \<and> in_strike_range query a
                 \<and> (\<forall>k \<in> set (x_strikes X m u e). in_strike_range query k \<longrightarrow>
                      \<bar>uint a - uint p\<bar> < \<bar>uint k - uint p\<bar> \<or> \<bar>uint a - uint p\<bar> = \<bar>uint k - uint p\<bar> \<and> a \<le> k)))"
proof (cases "resolve_expiration X m u s")
  case (Inr e)
  define ks where "ks = filter (in_strike_range query) (sort (x_strikes X m u e))"
  have sorted: "sorted ks" and set: "set ks = {k \<in> set (x_strikes X m u e). in_strike_range query k}"
    by (auto simp: ks_def sorted_wrt_filter)
  have dist: "strike_distance (ucast p) k = nat \<bar>uint k - uint p\<bar>" for k and p :: u64
    by (simp add: strike_distance_def uint_up_ucast is_up)
  have atm: "case atm_strike (Some (ucast p)) ks of
      None \<Rightarrow> ks = []
    | Some a \<Rightarrow> a \<in> set ks \<and> (\<forall>k \<in> set ks.
        \<bar>uint a - uint p\<bar> < \<bar>uint k - uint p\<bar> \<or> \<bar>uint a - uint p\<bar> = \<bar>uint k - uint p\<bar> \<and> a \<le> k)" for p :: u64
  proof (cases "ks = []")
    case False
    then show ?thesis
      using arg_min_list_first [OF False sorted, where f = "strike_distance (ucast p)"] arg_min_list_in [OF False]
      by (auto simp: atm_strike_def dist eq_nat_nat_iff)
  qed (simp add: atm_strike_def)
  have rows: "map row_strike (map (chain_row H trades u s e m) xs) = xs" for xs
    by (simp add: o_def chain_row_def)
  obtain chain where chain: "get_option_chain X H spot trades u s query m = Inr chain"
      "oc_chain chain = map (chain_row H trades u s e m) (filter (\<lambda>k. x_get_strike X m u e k = Inr ()) ks)"
      "oc_atm_strike chain = atm_strike (map_option ucast (spot u)) ks"
    using Inr by (simp add: get_option_chain_def Let_def ks_def)
  have "sorted (map row_strike (oc_chain chain))"
    unfolding chain(2) rows using sorted by (simp add: sorted_wrt_filter)
  moreover have "set (map row_strike (oc_chain chain))
      = {k \<in> set (x_strikes X m u e). x_get_strike X m u e k = Inr () \<and> in_strike_range query k}"
    unfolding chain(2) rows using set by auto
  moreover have "\<forall>row \<in> set (oc_chain chain). oqd_bid (row_call row) = bq_bid_price (hs_best_quote H m (u, e, row_strike row, OptCall))
            \<and> oqd_ask (row_put row) = bq_ask_price (hs_best_quote H m (u, e, row_strike row, OptPut))"
    by (auto simp: chain(2) chain_row_def build_option_quote_data_def)
  moreover have "case oc_atm_strike chain of
               None \<Rightarrow> \<forall>k \<in> set (x_strikes X m u e). \<not> in_strike_range query k
             | Some a \<Rightarrow> a \<in> set (x_strikes X m u e) \<and> in_strike_range query a
                 \<and> (\<forall>k \<in> set (x_strikes X m u e). in_strike_range query k \<longrightarrow>
                      \<bar>uint a - uint p\<bar> < \<bar>uint k - uint p\<bar> \<or> \<bar>uint a - uint p\<bar> = \<bar>uint k - uint p\<bar> \<and> a \<le> k)"
    if "spot u = Some p" for p
    using atm [of p] set that by (auto simp: chain(3) split: option.splits)
  ultimately show ?thesis
    using chain(1) Inr by (simp only: sum.case) blast
qed (simp add: get_option_chain_def)

lemma option_chain_correct_witness:
  "case get_option_chain demo_exchange demo_stats (\<lambda>_. Some 120) [] ''U'' ''20300101'' \<lparr>cq_min_strike = None, cq_max_strike = None\<rparr> demo_book of
     Inl err \<Rightarrow> False
   | Inr chain \<Rightarrow> oc_atm_strike chain = Some 100 \<and> set (map row_strike (oc_chain chain)) = {100}"
proof -
  have e: "resolve_expiration demo_exchange demo_book ''U'' ''20300101'' = Inr (DateTime 0)"
    using demo_resolve [of OptCall] by (auto simp: resolve_book_def resolve_expiration_def split: sum.splits option.splits)
  have strikes: "x_strikes demo_exchange demo_book ''U'' (DateTime 0) = [100]"
    "x_get_strike demo_exchange demo_book ''U'' (DateTime 0) 100 = Inr ()"
    by (simp_all add: demo_fields demo_book_def)
  show ?thesis
    using option_chain_correct [where X = demo_exchange and H = demo_stats and spot = "\<lambda>_. Some 120" and trades = "[]"
      and u = "''U''" and s = "''20300101''" and query = "\<lparr>cq_min_strike = None, cq_max_strike = None\<rparr>" and m = demo_book] e strikes
    by (auto simp: in_strike_range_def split: sum.splits option.splits)
qed

section \<open>An accepted order can be cancelled\<close>

text \<open>
  What matching promises about resting orders: the remainder of a good-till-cancelled order
  rests on its book, a resting order can be cancelled there, equal keys name one book, and
  matching leaves the hierarchy alone.
\<close>

definition resting_laws :: "('m, 'o) exchange \<Rightarrow> bool" where
  "resting_laws X \<longleftrightarrow>
     (\<forall>m bk i sd p q m' r. x_add_tif X m bk i sd p q BookGtc = (m', Inr r) \<longrightarrow> mr_remaining r \<noteq> 0 \<longrightarrow>
        x_order X m' bk i \<noteq> None)
   \<and> (\<forall>m bk i. x_order X m bk i \<noteq> None \<longrightarrow> snd (x_cancel X m bk i) = Inr True)
   \<and> (\<forall>m u e e' k st i. x_exp_eq X e' e \<longrightarrow> x_order X m (u, e', k, st) i = x_order X m (u, e, k, st) i)
   \<and> (\<forall>m bk i sd p q t. x_get X (fst (x_add_tif X m bk i sd p q t)) = x_get X m
        \<and> x_get_expiration X (fst (x_add_tif X m bk i sd p q t)) = x_get_expiration X m
        \<and> x_get_strike X (fst (x_add_tif X m bk i sd p q t)) = x_get_strike X m
        \<and> x_expirations X (fst (x_add_tif X m bk i sd p q t)) = x_expirations X m)"

lemma add_order_gtc:
  assumes run: "add_order X gen gtd now u s k sty body st = (st', Inr resp)"
    and gtc: "ao_tif body = None \<or> ao_tif body = Some ApiGtc" and taken: "aor_status resp \<noteq> LimitRejected"
  obtains e os m r where "parse_expiration X s = Inr e" and "parse_option_style sty = Inr os"
    and "x_add_tif X (create_book X (st_manager st) u e k) (u, e, k, os) (gen (v_next_id (st_venue st)))
           (order_side_to_side (ao_side body)) (ao_price body) (ao_quantity body) BookGtc = (m, Inr r)"
    and "st_manager st' = m" and "aor_remaining_quantity resp = mr_remaining r"
    and "aor_order_id resp = x_oid_str X (gen (v_next_id (st_venue st)))"
proof -
  obtain e where e: "parse_expiration X s = Inr e" using run by (auto simp: add_order_def split: sum.splits)
  obtain os where os: "parse_option_style sty = Inr os" using run e by (auto simp: add_order_def split: sum.splits)
  have tif: "to_book_tif X (case ao_tif body of Some t \<Rightarrow> t | None \<Rightarrow> ApiGtc) (ao_expire_at body) gtd = Inr BookGtc"
    using gtc by (auto simp: to_book_tif_def)
  obtain m res where add: "x_add_tif X (create_book X (st_manager st) u e k) (u, e, k, os) (gen (v_next_id (st_venue st)))
      (order_side_to_side (ao_side body)) (ao_price body) (ao_quantity body) BookGtc = (m, res)" by fastforce
  obtain r where r: "res = Inr r"
    using run e os tif add taken by (cases res) (auto simp: add_order_def Let_def fresh_id_eq split: if_splits)
  show thesis
    using that [OF e os] run e os tif add r
    by (auto simp: add_order_def Let_def fresh_id_eq) (simp add: st_manager_def set_manager_def)
qed

lemma unambiguous_cong:
  "x_expirations X m = x_expirations X m' \<Longrightarrow> unambiguous X m u s e \<Longrightarrow> unambiguous X m' u s e"
  by (simp add: unambiguous_def)

lemma resolve_book_cong:
  assumes "x_get X m = x_get X m'" and "x_get_expiration X m = x_get_expiration X m'"
    and "x_get_strike X m = x_get_strike X m'" and "x_expirations X m = x_expirations X m'"
  shows "resolve_book X m = resolve_book X m'"
proof -
  have find: "find_expiration_by_str X m = find_expiration_by_str X m'"
    by (rule ext)+ (simp only: find_expiration_by_str_def assms)
  show ?thesis by (rule ext)+ (simp only: resolve_book_def find assms)
qed


lemma demo_resting_laws: "resting_laws demo_exchange"
proof -
  have found: "find (demo_is bk i) (os @ [(bk, i, sd, p, q)]) \<noteq> None" for bk i os sd p q
    by (cases bk) (auto simp: find_None_iff demo_is_def)
  have rest: "x_order demo_exchange m' bk i \<noteq> None"
    if "x_add_tif demo_exchange m bk i sd p q BookGtc = (m', Inr r)" "mr_remaining r \<noteq> 0" for m bk i sd p q m' r
    using that by (auto simp: demo_fields demo_add_def demo_result_def simp del: split_paired_Ex
        split: prod.splits if_splits) (use found in blast)
  have canc: "snd (x_cancel demo_exchange m bk i) = Inr True" if "x_order demo_exchange m bk i \<noteq> None" for m bk i
    using that by (auto simp: demo_fields demo_cancel_def find_None_iff list_ex_iff)
  have key: "x_exp_eq demo_exchange e' e \<longleftrightarrow> e' = e" for e e' by (simp add: demo_fields)
  have frame: "x_get demo_exchange (fst (x_add_tif demo_exchange m bk i sd p q t)) = x_get demo_exchange m
        \<and> x_get_expiration demo_exchange (fst (x_add_tif demo_exchange m bk i sd p q t)) = x_get_expiration demo_exchange m
        \<and> x_get_strike demo_exchange (fst (x_add_tif demo_exchange m bk i sd p q t)) = x_get_strike demo_exchange m
        \<and> x_expirations demo_exchange (fst (x_add_tif demo_exchange m bk i sd p q t)) = x_expirations demo_exchange m"
    for m bk i sd p q t
    by (simp add: demo_fields demo_add_def split: prod.splits)
  show ?thesis
    unfolding resting_laws_def
    by (intro conjI allI impI; (erule (1) rest | erule canc | simp only: key | simp only: frame))
qed


end
