(* ===== verification/Subscriptions.thy ===== *)
theory Subscriptions
  imports Controls Hierarchy
begin

text \<open>
  The WebSocket protocol of \<open>src/src/api/websocket.rs\<close>: the messages, the two subscription sets
  of a connection, every client command with the messages it is answered by, and which of the
  server's events are forwarded to a connection. A hash set is a list without duplicates. JSON,
  the socket and the timing of the tasks are outside: a text message is its parsed command, and
  what was sent is a list. The content of a book at a depth is a parameter.
\<close>

section \<open>Messages\<close>

record price_level_data =
  pl_price :: u128
  pl_quantity :: u64

datatype subscription_channel = ChOrderbook | ChTrades | ChQuotes | ChPrices | ChFills

fun subscription_channel_display :: "subscription_channel \<Rightarrow> string" where
  "subscription_channel_display ChOrderbook = ''orderbook''"
| "subscription_channel_display ChTrades = ''trades''"
| "subscription_channel_display ChQuotes = ''quotes''"
| "subscription_channel_display ChPrices = ''prices''"
| "subscription_channel_display ChFills = ''fills''"

record channel_subscription =
  cs_channel :: subscription_channel
  cs_symbol :: "string option"
  cs_underlying :: "string option"
  cs_expiration :: "string option"
  cs_depth :: "nat option"

record subscription_result =
  sr_channel :: subscription_channel
  sr_symbol :: "string option"
  sr_underlying :: "string option"
  sr_status :: string

record active_subscription =
  asb_channel :: subscription_channel
  asb_symbol :: "string option"
  asb_underlying :: "string option"
  asb_depth :: "nat option"

record price_level_change =
  pc_side :: string
  pc_price :: u128
  pc_quantity :: u64

datatype ws_message =
    WsQuote string string u64 string u128 u128 u64 u64
  | WsFill string string string string u64 u128 i64
  | WsConfig bool f64 f64 f64
  | WsPrice string u64
  | WsConnected string
  | WsHeartbeat u64
  | WsOrderbookSnapshot string string u64 "price_level_data list" "price_level_data list"
  | WsOrderbookDelta string u64 "price_level_change list"
  | WsSubscribed string string
  | WsUnsubscribed string string
  | WsError string
  | WsTrade string string u128 u64 u64 string string
  | WsBatchSubscribed "string option" "subscription_result list"
  | WsBatchUnsubscribed "string option" "subscription_result list"
  | WsSubscriptionList "active_subscription list"

record client_command =
  cc_action :: string
  cc_channel :: "string option"
  cc_symbol :: "string option"
  cc_depth :: "nat option"
  cc_value :: "f64 option"
  cc_request_id :: "string option"
  cc_channels :: "channel_subscription list option"

text \<open>A connection: its two subscription sets.\<close>

record connection =
  cn_symbols :: "string list"
  cn_trades :: "string list"

section \<open>Subscription sets\<close>

definition max_subscriptions_per_connection :: nat where
  "max_subscriptions_per_connection = 256"

definition can_add_subscription :: "string list \<Rightarrow> string \<Rightarrow> bool" where
  "can_add_subscription s symbol \<longleftrightarrow> symbol \<in> set s \<or> length s < max_subscriptions_per_connection"

definition wildcard :: "string \<Rightarrow> string" where
  "wildcard underlying = underlying @ '':*''"

definition subscription_matches :: "string list \<Rightarrow> string \<Rightarrow> bool" where
  "subscription_matches subscribed symbol \<longleftrightarrow>
     (if symbol \<in> set subscribed then True
      else (case split_once (CHR ''-'') symbol of
              Some (underlying, _) \<Rightarrow> wildcard underlying \<in> set subscribed
            | None \<Rightarrow> False))"

definition well_formed_symbol :: "string \<Rightarrow> bool" where
  "well_formed_symbol symbol \<longleftrightarrow> 4 \<le> length (split_on (CHR ''-'') symbol)"

section \<open>Forwarding\<close>

fun event_to_ws_message :: "mm_event \<Rightarrow> ws_message option" where
  "event_to_ws_message (QuoteUpdated symbol expiration strike style bid_price ask_price bid_size ask_size) =
     Some (WsQuote symbol expiration strike style bid_price ask_price bid_size ask_size)"
| "event_to_ws_message (OrderFilled order_id symbol instrument side quantity price edge) =
     Some (WsFill order_id symbol instrument side quantity price edge)"
| "event_to_ws_message (ConfigChanged enabled spread_multiplier size_scalar directional_skew) =
     Some (WsConfig enabled spread_multiplier size_scalar directional_skew)"
| "event_to_ws_message (PriceUpdated symbol price_cents) = Some (WsPrice symbol price_cents)"

definition forward_delta :: "connection \<Rightarrow> delta_event \<Rightarrow> ws_message list" where
  "forward_delta cn d =
     (if subscription_matches (cn_symbols cn) (de_symbol d)
      then [WsOrderbookDelta (de_symbol d) (de_sequence d)
              [\<lparr>pc_side = de_side d, pc_price = de_price d, pc_quantity = de_quantity d\<rparr>]]
      else [])"

definition forward_trade :: "connection \<Rightarrow> trade_event \<Rightarrow> ws_message list" where
  "forward_trade cn t =
     (if subscription_matches (cn_trades cn) (te_symbol t)
      then [WsTrade (te_trade_id t) (te_symbol t) (te_price t) (te_quantity t) (te_timestamp_ms t)
              (te_maker_order_id t) (te_taker_order_id t)]
      else [])"

section \<open>Snapshots of a book\<close>

text \<open>The WebSocket's own resolution of an expiration segment: the first stored entry that matches.\<close>

definition ws_find_expiration :: "('m, 'o) exchange \<Rightarrow> 'm \<Rightarrow> string \<Rightarrow> string \<Rightarrow> expiration option" where
  "ws_find_expiration X m underlying exp_str =
     (let structural =
        (if length exp_str = 8 \<and> list_all is_digit exp_str then None
         else (case parse_i32 exp_str of
                 Some days \<Rightarrow> if 0 < days \<and> days \<le> max_expiration_days then Some (Days (of_int days)) else None
               | None \<Rightarrow> None))
      in find (\<lambda>e. format_expiration X e = exp_str
               \<or> (case structural of Some p \<Rightarrow> x_exp_eq X e p | None \<Rightarrow> False))
           (x_expirations X m underlying))"

definition ws_style :: "string \<Rightarrow> opt_style option" where
  "ws_style s =
     (let u = ascii_upper s
      in if u = ''C'' \<or> u = ''CALL'' then Some OptCall
         else if u = ''P'' \<or> u = ''PUT'' then Some OptPut else None)"

type_synonym 'm book_depth = "'m \<Rightarrow> book_key \<Rightarrow> nat \<Rightarrow> price_level_data list \<times> price_level_data list"

definition get_orderbook_snapshot ::
  "('m, 'o) exchange \<Rightarrow> 'm book_depth \<Rightarrow> 'm \<Rightarrow> string \<Rightarrow> nat \<Rightarrow> (price_level_data list \<times> price_level_data list) option" where
  "get_orderbook_snapshot X D m symbol depth =
     (case split_on (CHR ''-'') symbol of
        underlying # expiration_str # strike_str # style_str # _ \<Rightarrow>
          (case parse_u64 strike_str of None \<Rightarrow> None | Some strike \<Rightarrow>
          (case ws_style style_str of None \<Rightarrow> None | Some style \<Rightarrow>
          (case x_get X m underlying of Inl _ \<Rightarrow> None | Inr _ \<Rightarrow>
          (case ws_find_expiration X m underlying expiration_str of None \<Rightarrow> None | Some e \<Rightarrow>
          (case x_get_expiration X m underlying e of Inl _ \<Rightarrow> None | Inr _ \<Rightarrow>
          (case x_get_strike X m underlying e strike of Inl _ \<Rightarrow> None | Inr _ \<Rightarrow>
             Some (D m (underlying, e, strike, style) depth)))))))
      | _ \<Rightarrow> None)"

section \<open>Single subscriptions\<close>

definition invalid_symbol_message :: "string \<Rightarrow> string" where
  "invalid_symbol_message symbol =
     ''Invalid symbol format: '' @ symbol @ ''. Expected: UNDERLYING-EXPIRATION-STRIKE-STYLE''"

definition limit_message :: "string \<Rightarrow> string" where
  "limit_message channel =
     channel @ '' subscription limit reached ('' @ show_nat max_subscriptions_per_connection
       @ ''); unsubscribe before adding more''"

definition handle_orderbook_subscribe ::
  "('m, 'o) exchange \<Rightarrow> 'm book_depth \<Rightarrow> client_command \<Rightarrow> connection \<Rightarrow> ('m, 'o) app_state
   \<Rightarrow> ('m, 'o) app_state \<times> connection \<times> ws_message list" where
  "handle_orderbook_subscribe X D cmd cn st =
     (case cc_symbol cmd of
        None \<Rightarrow> (st, cn, [WsError ''Symbol required for orderbook subscription''])
      | Some symbol \<Rightarrow>
          (let depth = (case cc_depth cmd of Some d \<Rightarrow> d | None \<Rightarrow> 10)
           in if \<not> well_formed_symbol symbol then (st, cn, [WsError (invalid_symbol_message symbol)])
              else if \<not> can_add_subscription (cn_symbols cn) symbol
              then (st, cn, [WsError (limit_message ''orderbook'')])
              else
                (let cn = cn\<lparr>cn_symbols := List.insert symbol (cn_symbols cn)\<rparr>;
                     confirmation = WsSubscribed ''orderbook'' symbol
                 in case get_orderbook_snapshot X D (st_manager st) symbol depth of
                      None \<Rightarrow> (st, cn, [confirmation])
                    | Some (bids, asks) \<Rightarrow>
                        (let (sequence, st) = next_sequence symbol st
                         in (st, cn, [confirmation, WsOrderbookSnapshot ''orderbook'' symbol sequence bids asks])))))"

definition handle_orderbook_unsubscribe :: "client_command \<Rightarrow> connection \<Rightarrow> connection \<times> ws_message list" where
  "handle_orderbook_unsubscribe cmd cn =
     (case cc_symbol cmd of
        None \<Rightarrow> (cn, [WsError ''Symbol required for orderbook unsubscription''])
      | Some symbol \<Rightarrow>
          (cn\<lparr>cn_symbols := removeAll symbol (cn_symbols cn)\<rparr>, [WsUnsubscribed ''orderbook'' symbol]))"

definition handle_trades_subscribe :: "client_command \<Rightarrow> connection \<Rightarrow> connection \<times> ws_message list" where
  "handle_trades_subscribe cmd cn =
     (case cc_symbol cmd of
        None \<Rightarrow> (cn, [WsError ''Symbol required for trades subscription''])
      | Some symbol \<Rightarrow>
          (if \<not> well_formed_symbol symbol then (cn, [WsError (invalid_symbol_message symbol)])
           else if \<not> can_add_subscription (cn_trades cn) symbol then (cn, [WsError (limit_message ''trades'')])
           else (cn\<lparr>cn_trades := List.insert symbol (cn_trades cn)\<rparr>, [WsSubscribed ''trades'' symbol])))"

definition handle_trades_unsubscribe :: "client_command \<Rightarrow> connection \<Rightarrow> connection \<times> ws_message list" where
  "handle_trades_unsubscribe cmd cn =
     (case cc_symbol cmd of
        None \<Rightarrow> (cn, [WsError ''Symbol required for trades unsubscription''])
      | Some symbol \<Rightarrow>
          (cn\<lparr>cn_trades := removeAll symbol (cn_trades cn)\<rparr>, [WsUnsubscribed ''trades'' symbol]))"

section \<open>Batches\<close>

text \<open>One channel of a batch, on the set of that channel.\<close>

definition add_to_channel :: "channel_subscription \<Rightarrow> string list \<Rightarrow> string list \<times> subscription_result" where
  "add_to_channel sub s =
     (let result = (\<lambda>symbol underlying status. \<lparr>sr_channel = cs_channel sub, sr_symbol = symbol,
                      sr_underlying = underlying, sr_status = status\<rparr>)
      in case cs_symbol sub of
           Some symbol \<Rightarrow>
             (if \<not> well_formed_symbol symbol
              then (s, result (Some symbol) (cs_underlying sub) ''error: invalid symbol format'')
              else if \<not> can_add_subscription s symbol
              then (s, result (Some symbol) None ''error: subscription limit reached'')
              else (List.insert symbol s, result (Some symbol) None ''ok''))
         | None \<Rightarrow>
             (case cs_underlying sub of
                Some underlying \<Rightarrow>
                  (if \<not> can_add_subscription s (wildcard underlying)
                   then (s, result None (Some underlying) ''error: subscription limit reached'')
                   else (List.insert (wildcard underlying) s, result None (Some underlying) ''ok''))
              | None \<Rightarrow> (s, result None None ''error: symbol or underlying required'')))"

definition remove_from_channel :: "channel_subscription \<Rightarrow> string list \<Rightarrow> string list \<times> subscription_result" where
  "remove_from_channel sub s =
     (let result = (\<lambda>symbol underlying status. \<lparr>sr_channel = cs_channel sub, sr_symbol = symbol,
                      sr_underlying = underlying, sr_status = status\<rparr>)
      in case cs_symbol sub of
           Some symbol \<Rightarrow> (removeAll symbol s, result (Some symbol) None ''ok'')
         | None \<Rightarrow>
             (case cs_underlying sub of
                Some underlying \<Rightarrow> (removeAll (wildcard underlying) s, result None (Some underlying) ''ok'')
              | None \<Rightarrow> (s, result None None ''error: symbol or underlying required'')))"

definition accepted_channel :: "channel_subscription \<Rightarrow> subscription_result" where
  "accepted_channel sub = \<lparr>sr_channel = cs_channel sub, sr_symbol = cs_symbol sub,
     sr_underlying = cs_underlying sub, sr_status = ''ok''\<rparr>"

definition process_channel_subscription :: "channel_subscription \<Rightarrow> connection \<Rightarrow> connection \<times> subscription_result" where
  "process_channel_subscription sub cn =
     (case cs_channel sub of
        ChOrderbook \<Rightarrow> (let (s, r) = add_to_channel sub (cn_symbols cn) in (cn\<lparr>cn_symbols := s\<rparr>, r))
      | ChTrades \<Rightarrow> (let (s, r) = add_to_channel sub (cn_trades cn) in (cn\<lparr>cn_trades := s\<rparr>, r))
      | _ \<Rightarrow> (cn, accepted_channel sub))"

definition process_channel_unsubscription :: "channel_subscription \<Rightarrow> connection \<Rightarrow> connection \<times> subscription_result" where
  "process_channel_unsubscription sub cn =
     (case cs_channel sub of
        ChOrderbook \<Rightarrow> (let (s, r) = remove_from_channel sub (cn_symbols cn) in (cn\<lparr>cn_symbols := s\<rparr>, r))
      | ChTrades \<Rightarrow> (let (s, r) = remove_from_channel sub (cn_trades cn) in (cn\<lparr>cn_trades := s\<rparr>, r))
      | _ \<Rightarrow> (cn, accepted_channel sub))"

fun process_channels ::
  "(channel_subscription \<Rightarrow> connection \<Rightarrow> connection \<times> subscription_result) \<Rightarrow> channel_subscription list
   \<Rightarrow> connection \<Rightarrow> connection \<times> subscription_result list" where
  "process_channels f [] cn = (cn, [])"
| "process_channels f (sub # subs) cn =
     (let (cn, r) = f sub cn; (cn, rs) = process_channels f subs cn in (cn, r # rs))"

definition handle_batch_subscribe :: "client_command \<Rightarrow> connection \<Rightarrow> connection \<times> ws_message list" where
  "handle_batch_subscribe cmd cn =
     (case cc_channels cmd of
        None \<Rightarrow> (cn, [WsError ''channels array required for batch_subscribe''])
      | Some channels \<Rightarrow>
          (let (cn, results) = process_channels process_channel_subscription channels cn
           in (cn, [WsBatchSubscribed (cc_request_id cmd) results])))"

definition handle_batch_unsubscribe :: "client_command \<Rightarrow> connection \<Rightarrow> connection \<times> ws_message list" where
  "handle_batch_unsubscribe cmd cn =
     (case cc_channels cmd of
        None \<Rightarrow> (cn, [WsError ''channels array required for batch_unsubscribe''])
      | Some channels \<Rightarrow>
          (let (cn, results) = process_channels process_channel_unsubscription channels cn
           in (cn, [WsBatchUnsubscribed (cc_request_id cmd) results])))"

section \<open>Listing\<close>

fun drop_stars :: "string \<Rightarrow> string" where
  "drop_stars (a # b # s) = (if a = CHR ''*'' \<and> b = CHR '':'' then drop_stars s else a # b # s)"
| "drop_stars s = s"

definition trim_wildcard :: "string \<Rightarrow> string" where
  "trim_wildcard s = rev (drop_stars (rev s))"

fun has_wildcard :: "string \<Rightarrow> bool" where
  "has_wildcard (a # b # s) = (a = CHR '':'' \<and> b = CHR ''*'' \<or> has_wildcard (b # s))"
| "has_wildcard _ = False"

definition list_entry :: "subscription_channel \<Rightarrow> nat option \<Rightarrow> string \<Rightarrow> active_subscription" where
  "list_entry channel depth symbol =
     (if has_wildcard symbol
      then \<lparr>asb_channel = channel, asb_symbol = None, asb_underlying = Some (trim_wildcard symbol), asb_depth = None\<rparr>
      else \<lparr>asb_channel = channel, asb_symbol = Some symbol, asb_underlying = None, asb_depth = depth\<rparr>)"

definition handle_list_subscriptions :: "connection \<Rightarrow> ws_message list" where
  "handle_list_subscriptions cn =
     [WsSubscriptionList (map (list_entry ChOrderbook (Some 10)) (cn_symbols cn)
        @ map (list_entry ChTrades None) (cn_trades cn))]"

section \<open>Client messages\<close>

text \<open>A parameter command: applied when its value is valid, an error otherwise, nothing without a value.\<close>

definition control_value ::
  "(string \<Rightarrow> f64 \<Rightarrow> string) \<Rightarrow> string \<Rightarrow> f64 \<Rightarrow> f64 \<Rightarrow> f64 option \<Rightarrow> (f64 \<Rightarrow> ('m, 'o) venue \<Rightarrow> ('m, 'o) venue)
   \<Rightarrow> ('m, 'o) venue \<Rightarrow> ('m, 'o) venue \<times> ws_message list" where
  "control_value msg field lo hi value f v =
     (case value of
        None \<Rightarrow> (v, [])
      | Some x \<Rightarrow> (case validate_control_value x lo hi of
                    Some y \<Rightarrow> (f y v, [])
                  | None \<Rightarrow> (v, [WsError (msg field x)])))"

definition control_command ::
  "('m, 'o) exchange \<Rightarrow> quoter \<Rightarrow> (nat \<Rightarrow> 'o) \<Rightarrow> (string \<Rightarrow> f64 \<Rightarrow> string) \<Rightarrow> client_command \<Rightarrow> ('m, 'o) venue
   \<Rightarrow> ('m, 'o) venue \<times> ws_message list" where
  "control_command X qt gen msg cmd v =
     (let action = cc_action cmd
      in if action = ''set_spread''
         then control_value msg ''spread_multiplier'' spread_multiplier_min spread_multiplier_max (cc_value cmd)
                (set_spread_multiplier X qt gen) v
         else if action = ''set_size''
         then control_value msg ''size_scalar'' size_scalar_min size_scalar_max (cc_value cmd) (set_size_scalar X qt gen) v
         else if action = ''set_skew''
         then control_value msg ''directional_skew'' directional_skew_min directional_skew_max (cc_value cmd)
                (set_directional_skew X qt gen) v
         else if action = ''kill'' then (set_enabled X False v, [])
         else if action = ''enable'' then (set_enabled X True v, [])
         else (v, []))"

definition is_control_action :: "string \<Rightarrow> bool" where
  "is_control_action action \<longleftrightarrow>
     action \<in> {''set_spread'', ''set_size'', ''set_skew'', ''kill'', ''enable''}"

text \<open>\<open>parse\<close> is the JSON decoding of a text message: a message that is not a command is ignored.\<close>

definition handle_client_message ::
  "('m, 'o) exchange \<Rightarrow> 'm book_depth \<Rightarrow> quoter \<Rightarrow> (nat \<Rightarrow> 'o) \<Rightarrow> (string \<Rightarrow> f64 \<Rightarrow> string) \<Rightarrow> (string \<Rightarrow> client_command option)
   \<Rightarrow> permission list \<Rightarrow> string \<Rightarrow> connection \<Rightarrow> ('m, 'o) app_state
   \<Rightarrow> ('m, 'o) app_state \<times> connection \<times> ws_message list" where
  "handle_client_message X D qt gen msg parse permissions raw cn st =
     (case parse raw of
        None \<Rightarrow> (st, cn, [])
      | Some cmd \<Rightarrow>
          (let action = cc_action cmd
           in if action = ''subscribe''
              then (case cc_channel cmd of
                      Some channel \<Rightarrow>
                        (if channel = ''orderbook'' then handle_orderbook_subscribe X D cmd cn st
                         else if channel = ''trades'' then (st, handle_trades_subscribe cmd cn)
                         else (st, cn, []))
                    | None \<Rightarrow> (st, cn, []))
              else if action = ''unsubscribe''
              then (case cc_channel cmd of
                      Some channel \<Rightarrow>
                        (if channel = ''orderbook'' then (st, handle_orderbook_unsubscribe cmd cn)
                         else if channel = ''trades'' then (st, handle_trades_unsubscribe cmd cn)
                         else (st, cn, []))
                    | None \<Rightarrow> (st, cn, []))
              else if is_control_action action
              then (if PermAdmin \<notin> set permissions
                    then (st, cn, [WsError ''forbidden: admin permission required''])
                    else (let (v, msgs) = control_command X qt gen msg cmd (st_venue st)
                          in (st\<lparr>st_venue := v\<rparr>, cn, msgs)))
              else if action = ''batch_subscribe'' then (st, handle_batch_subscribe cmd cn)
              else if action = ''batch_unsubscribe'' then (st, handle_batch_unsubscribe cmd cn)
              else if action = ''list_subscriptions'' then (st, cn, handle_list_subscriptions cn)
              else (st, cn, [])))"

definition connection_new :: "connection \<times> ws_message list" where
  "connection_new = (\<lparr>cn_symbols = [], cn_trades = []\<rparr>, [WsConnected ''Connected to Option Chain OrderBook''])"

section \<open>The subscription sets\<close>

definition sub_set_ok :: "string list \<Rightarrow> bool" where
  "sub_set_ok s \<longleftrightarrow> distinct s \<and> length s \<le> max_subscriptions_per_connection"

definition connection_ok :: "connection \<Rightarrow> bool" where
  "connection_ok cn \<longleftrightarrow> sub_set_ok (cn_symbols cn) \<and> sub_set_ok (cn_trades cn)"

lemma sub_set_ok_insert: "sub_set_ok s \<Longrightarrow> can_add_subscription s x \<Longrightarrow> sub_set_ok (List.insert x s)"
  by (auto simp: sub_set_ok_def can_add_subscription_def List.insert_def)

lemma sub_set_ok_remove: "sub_set_ok s \<Longrightarrow> sub_set_ok (removeAll x s)"
  by (auto simp: sub_set_ok_def distinct_removeAll intro: le_trans [OF length_removeAll_less_eq])

lemma add_to_channel_ok: "sub_set_ok s \<Longrightarrow> sub_set_ok (fst (add_to_channel sub s))"
  by (auto simp: add_to_channel_def Let_def sub_set_ok_insert split: option.split)

lemma remove_from_channel_ok: "sub_set_ok s \<Longrightarrow> sub_set_ok (fst (remove_from_channel sub s))"
  by (auto simp: remove_from_channel_def Let_def sub_set_ok_remove split: option.split)

lemma process_channel_ok:
  "connection_ok cn \<Longrightarrow> connection_ok (fst (process_channel_subscription sub cn))"
  "connection_ok cn \<Longrightarrow> connection_ok (fst (process_channel_unsubscription sub cn))"
  using add_to_channel_ok [of "cn_symbols cn" sub] add_to_channel_ok [of "cn_trades cn" sub]
    remove_from_channel_ok [of "cn_symbols cn" sub] remove_from_channel_ok [of "cn_trades cn" sub]
  by (auto simp: process_channel_subscription_def process_channel_unsubscription_def connection_ok_def Let_def
      case_prod_beta split: subscription_channel.split)

lemma process_channels_ok:
  "(\<And>sub cn. connection_ok cn \<Longrightarrow> connection_ok (fst (f sub cn))) \<Longrightarrow> connection_ok cn
    \<Longrightarrow> connection_ok (fst (process_channels f subs cn))"
  by (induction subs arbitrary: cn) (simp_all add: Let_def case_prod_beta)

lemma single_ok:
  assumes "connection_ok cn"
  shows "connection_ok (fst (snd (handle_orderbook_subscribe X D cmd cn st)))"
    and "connection_ok (fst (handle_trades_subscribe cmd cn))"
    and "connection_ok (fst (handle_orderbook_unsubscribe cmd cn))"
    and "connection_ok (fst (handle_trades_unsubscribe cmd cn))"
    and "connection_ok (fst (handle_batch_subscribe cmd cn))"
    and "connection_ok (fst (handle_batch_unsubscribe cmd cn))"
  using assms process_channels_ok [OF process_channel_ok(1)] process_channels_ok [OF process_channel_ok(2)]
  by (auto simp: handle_orderbook_subscribe_def handle_trades_subscribe_def handle_orderbook_unsubscribe_def
      handle_trades_unsubscribe_def handle_batch_subscribe_def handle_batch_unsubscribe_def connection_ok_def
      sub_set_ok_insert sub_set_ok_remove Let_def case_prod_beta split: option.split)

lemma handle_client_message_ok:
  "connection_ok cn \<Longrightarrow> connection_ok (fst (snd (handle_client_message X D qt gen msg parse perms raw cn st)))"
  by (simp add: handle_client_message_def Let_def single_ok case_prod_beta split: option.split)

text \<open>The messages of a connection, in the order they arrive.\<close>

fun client_run ::
  "(string \<Rightarrow> connection \<Rightarrow> ('m, 'o) app_state \<Rightarrow> ('m, 'o) app_state \<times> connection \<times> ws_message list) \<Rightarrow> string list
   \<Rightarrow> connection \<Rightarrow> ('m, 'o) app_state \<Rightarrow> ('m, 'o) app_state \<times> connection \<times> ws_message list" where
  "client_run f [] cn st = (st, cn, [])"
| "client_run f (raw # raws) cn st =
     (let (st, cn, msgs) = f raw cn st; (st, cn, rest) = client_run f raws cn st in (st, cn, msgs @ rest))"

lemma client_run_ok:
  "connection_ok cn \<Longrightarrow> connection_ok (fst (snd (client_run (handle_client_message X D qt gen msg parse perms) raws cn st)))"
proof (induction raws arbitrary: cn st)
  case (Cons raw raws)
  then show ?case
    using handle_client_message_ok [of cn X D qt gen msg parse perms raw st] by (simp add: Let_def case_prod_beta)
qed simp

text \<open>Bounded subscriptions. Whatever a client sends, over the whole life of its connection, each of
  its two subscription sets holds at most 256 distinct entries.\<close>

theorem subscriptions_bounded:
  "let (st', cn, msgs) = client_run (handle_client_message X D qt gen msg parse perms) raws (fst connection_new) st
   in distinct (cn_symbols cn) \<and> length (cn_symbols cn) \<le> 256 \<and> distinct (cn_trades cn) \<and> length (cn_trades cn) \<le> 256"
proof -
  have "connection_ok (fst connection_new)" by (simp add: connection_new_def connection_ok_def sub_set_ok_def)
  from client_run_ok [OF this, of X D qt gen msg parse perms raws st] show ?thesis
    by (simp add: connection_ok_def sub_set_ok_def max_subscriptions_per_connection_def case_prod_beta Let_def)
qed

section \<open>Permissions\<close>

lemma orderbook_subscribe_state:
  "fst (handle_orderbook_subscribe X D cmd cn st) = st\<lparr>st_sequences := st_sequences (fst (handle_orderbook_subscribe X D cmd cn st))\<rparr>"
  by (simp add: handle_orderbook_subscribe_def next_sequence_def Let_def case_prod_beta split: option.split)

text \<open>C40. Only an administrator controls the market maker. For a connection without the Admin
  permission no message changes the engine, the books, the orders, the positions or any other
  store: at most a subscription snapshot takes a sequence number, and a control command is
  answered by the error and nothing else.\<close>

theorem control_requires_admin:
  assumes "PermAdmin \<notin> set perms"
  shows "let (st', cn', msgs) = handle_client_message X D qt gen msg parse perms raw cn st
     in st' = st\<lparr>st_sequences := st_sequences st'\<rparr>
        \<and> (case parse raw of
             Some cmd \<Rightarrow> if is_control_action (cc_action cmd)
                then st' = st \<and> cn' = cn \<and> msgs = [WsError ''forbidden: admin permission required''] else True
           | None \<Rightarrow> st' = st \<and> cn' = cn \<and> msgs = [])"
proof (cases "parse raw")
  case None
  then show ?thesis by (simp add: handle_client_message_def)
next
  case (Some cmd)
  have "is_control_action a \<Longrightarrow> a \<noteq> ''subscribe'' \<and> a \<noteq> ''unsubscribe''" for a
    by (auto simp: is_control_action_def)
  then show ?thesis
    using assms Some orderbook_subscribe_state [of X D cmd cn st]
    by (simp add: handle_client_message_def Let_def case_prod_beta split: option.split)
qed

section \<open>Delivery\<close>

text \<open>The symbols a batch entry asks for: its symbol, or every instrument of its underlying.\<close>

definition covers :: "channel_subscription \<Rightarrow> string \<Rightarrow> bool" where
  "covers sub symbol \<longleftrightarrow>
     (case cs_symbol sub of
        Some s \<Rightarrow> symbol = s
      | None \<Rightarrow> (case cs_underlying sub of
                   Some u \<Rightarrow> (\<exists>rest. symbol = u @ ''-'' @ rest)
                 | None \<Rightarrow> False))"

lemma split_on_length: "c \<notin> set s \<longleftrightarrow> length (split_on c s) = 1"
  using split_on_nonempty
  by (induction c s rule: split_on.induct) (auto split: list.splits)

lemma well_formed_hyphen: "well_formed_symbol s \<Longrightarrow> CHR ''-'' \<in> set s"
  using split_on_length [of "CHR ''-''" s] by (auto simp: well_formed_symbol_def)

lemma split_once_underlying:
  "CHR ''-'' \<notin> set u \<Longrightarrow> (\<exists>r. split_once (CHR ''-'') s = Some (u, r)) \<longleftrightarrow> (\<exists>rest. s = u @ ''-'' @ rest)"
proof
  assume u: "CHR ''-'' \<notin> set u" and "\<exists>r. split_once (CHR ''-'') s = Some (u, r)"
  then have "CHR ''-'' \<in> set s" and tw: "u = takeWhile (\<lambda>x. x \<noteq> CHR ''-'') s"
    by (auto simp: split_once_def split: if_splits)
  then obtain ys zs where s: "s = ys @ CHR ''-'' # zs" and "CHR ''-'' \<notin> set ys" by (auto dest: split_list_first)
  then have "u = ys" unfolding tw s by (subst takeWhile_append2) auto
  with s show "\<exists>rest. s = u @ ''-'' @ rest" by simp
next
  assume u: "CHR ''-'' \<notin> set u" and "\<exists>rest. s = u @ ''-'' @ rest"
  then obtain rest where s: "s = u @ CHR ''-'' # rest" by auto
  have "takeWhile (\<lambda>x. x \<noteq> CHR ''-'') s = u" using u unfolding s by (subst takeWhile_append2) auto
  then show "\<exists>r. split_once (CHR ''-'') s = Some (u, r)" by (simp add: split_once_def s)
qed

lemma matches_wildcard:
  assumes "well_formed_symbol y"
  shows "subscription_matches s y \<longleftrightarrow> y \<in> set s \<or> (\<exists>u r. split_once (CHR ''-'') y = Some (u, r) \<and> wildcard u \<in> set s)"
  by (auto simp: subscription_matches_def split: option.split)

lemma wildcard_inject: "wildcard u = wildcard v \<longleftrightarrow> u = v"
  by (simp add: wildcard_def)

lemma matches_insert:
  assumes "well_formed_symbol y" and "can_add_subscription s x"
  shows "subscription_matches (List.insert x s) y \<longleftrightarrow> subscription_matches s y \<or> y = x
    \<or> (\<exists>u r. split_once (CHR ''-'') y = Some (u, r) \<and> wildcard u = x)"
  unfolding matches_wildcard [OF assms(1)] by auto

lemma add_to_channel_matches:
  assumes "well_formed_symbol y" and "add_to_channel sub s = (s', r)" and "sr_status r = ''ok''"
    and "\<And>u. cs_underlying sub = Some u \<Longrightarrow> CHR ''-'' \<notin> set u"
  shows "subscription_matches s' y \<longleftrightarrow> subscription_matches s y \<or> covers sub y"
proof (cases "cs_symbol sub")
  case (Some x)
  have "wildcard u \<noteq> x" if "well_formed_symbol x" "split_once (CHR ''-'') y = Some (u, r)" for u r
    using that well_formed_hyphen [of x] by (auto simp: wildcard_def split_once_def split: if_splits dest: set_takeWhileD)
  then show ?thesis
    using assms(1-3) Some matches_insert [OF assms(1), of s x]
    by (auto simp: add_to_channel_def Let_def covers_def split: if_splits)
next
  case None
  show ?thesis
  proof (cases "cs_underlying sub")
    case (Some u)
    have "y \<noteq> wildcard u" using well_formed_hyphen [OF assms(1)] assms(4) [OF Some] by (auto simp: wildcard_def)
    then show ?thesis
      using assms(2,3) None Some matches_insert [OF assms(1), of s "wildcard u"] split_once_underlying [OF assms(4) [OF Some]]
      by (auto simp: add_to_channel_def Let_def covers_def wildcard_inject split: if_splits)
  qed (use assms(2,3) None in \<open>auto simp: add_to_channel_def\<close>)
qed

lemma hyphen_wildcard_never_matches:
  "\<not> subscription_matches [wildcard ''BTC-USD''] ''BTC-USD-20300101-100-C''"
  by code_simp

text \<open>The snapshot of a new subscription takes a sequence number that no delta carries.\<close>

lemma snapshot_takes_sequence:
  assumes "handle_orderbook_subscribe X D cmd cn st = (st', cn', [c, WsOrderbookSnapshot ch symbol n bids asks])"
  shows "n = current_sequence st symbol \<and> current_sequence st' symbol = n + 1 \<and> st_deltas st' = st_deltas st"
  using assms
  by (auto simp: handle_orderbook_subscribe_def current_sequence_next Let_def store_simps current_sequence_def
      split: option.splits if_splits prod.splits)

text \<open>A batch subscription does what its result says. When an entry for an underlying without a
  hyphen, or for a symbol, is answered \<open>ok\<close> on the orderbook channel, from then on exactly the
  deltas it asked for are forwarded to the connection besides those that already were, and no
  trades change; on the trades channel likewise for trades. An entry that is answered by an error
  changes nothing.\<close>

theorem subscription_delivers:
  assumes "process_channel_subscription sub cn = (cn', r)"
    and "\<And>u. cs_underlying sub = Some u \<Longrightarrow> CHR ''-'' \<notin> set u"
    and "well_formed_symbol (de_symbol d)" and "well_formed_symbol (te_symbol t)"
  shows "if sr_status r = ''ok'' then
      (forward_delta cn' d \<noteq> [] \<longleftrightarrow> forward_delta cn d \<noteq> [] \<or> cs_channel sub = ChOrderbook \<and> covers sub (de_symbol d))
      \<and> (forward_trade cn' t \<noteq> [] \<longleftrightarrow> forward_trade cn t \<noteq> [] \<or> cs_channel sub = ChTrades \<and> covers sub (te_symbol t))
    else cn' = cn"
proof -
  have unchanged: "fst (add_to_channel sub s) = s" if "sr_status (snd (add_to_channel sub s)) \<noteq> ''ok''" for s
    using that by (auto simp: add_to_channel_def Let_def split: option.splits if_splits)
  show ?thesis
  proof (cases "cs_channel sub")
    case ChOrderbook
    obtain s where s: "add_to_channel sub (cn_symbols cn) = (s, r)" "cn' = cn\<lparr>cn_symbols := s\<rparr>"
      using assms(1) ChOrderbook by (auto simp: process_channel_subscription_def split: prod.splits)
    show ?thesis
      using add_to_channel_matches [OF assms(3) s(1) _ assms(2)] unchanged [of "cn_symbols cn"] s ChOrderbook
      by (simp add: forward_delta_def forward_trade_def)
  next
    case ChTrades
    obtain s where s: "add_to_channel sub (cn_trades cn) = (s, r)" "cn' = cn\<lparr>cn_trades := s\<rparr>"
      using assms(1) ChTrades by (auto simp: process_channel_subscription_def split: prod.splits)
    show ?thesis
      using add_to_channel_matches [OF assms(4) s(1) _ assms(2)] unchanged [of "cn_trades cn"] s ChTrades
      by (simp add: forward_delta_def forward_trade_def)
  qed (use assms(1) in \<open>simp_all add: process_channel_subscription_def\<close>)
qed

definition demo_subscription :: channel_subscription where
  "demo_subscription = \<lparr>cs_channel = ChOrderbook, cs_symbol = None, cs_underlying = Some ''BTC'', cs_expiration = None,
     cs_depth = None\<rparr>"

definition demo_delta :: delta_event where
  "demo_delta = \<lparr>de_symbol = ''BTC-20300101-100-C'', de_sequence = 0, de_side = ''bid'', de_price = 150, de_quantity = 5\<rparr>"

definition demo_trade :: trade_event where
  "demo_trade = \<lparr>te_trade_id = ''t'', te_symbol = ''BTC-20300101-100-C'', te_price = 150, te_quantity = 5,
     te_timestamp_ms = 1, te_maker_order_id = ''0'', te_taker_order_id = ''1''\<rparr>"

lemma subscription_delivers_witness:
  "let (cn, r) = process_channel_subscription demo_subscription \<lparr>cn_symbols = [], cn_trades = []\<rparr>
   in sr_status r = ''ok'' \<and> forward_delta cn demo_delta \<noteq> [] \<and> forward_trade cn demo_trade = []"
proof -
  obtain cn r where run: "process_channel_subscription demo_subscription \<lparr>cn_symbols = [], cn_trades = []\<rparr> = (cn, r)" by fastforce
  have ok: "sr_status r = ''ok''"
    using run by (auto simp: process_channel_subscription_def demo_subscription_def add_to_channel_def
        can_add_subscription_def max_subscriptions_per_connection_def)
  have wf: "well_formed_symbol ''BTC-20300101-100-C''" by code_simp
  have "covers demo_subscription ''BTC-20300101-100-C''" by (simp add: covers_def demo_subscription_def)
  moreover have "forward_trade \<lparr>cn_symbols = [], cn_trades = []\<rparr> demo_trade = []"
    by (simp add: forward_trade_def subscription_matches_def split: option.split)
  moreover have "if sr_status r = ''ok'' then
      (forward_delta cn demo_delta \<noteq> [] \<longleftrightarrow> forward_delta \<lparr>cn_symbols = [], cn_trades = []\<rparr> demo_delta \<noteq> []
        \<or> cs_channel demo_subscription = ChOrderbook \<and> covers demo_subscription (de_symbol demo_delta))
      \<and> (forward_trade cn demo_trade \<noteq> [] \<longleftrightarrow> forward_trade \<lparr>cn_symbols = [], cn_trades = []\<rparr> demo_trade \<noteq> []
        \<or> cs_channel demo_subscription = ChTrades \<and> covers demo_subscription (te_symbol demo_trade))
    else cn = \<lparr>cn_symbols = [], cn_trades = []\<rparr>"
    by (rule subscription_delivers [OF run]) (auto simp: demo_subscription_def demo_delta_def demo_trade_def wf)
  ultimately show ?thesis by (simp add: run ok) (simp add: demo_subscription_def demo_delta_def)
qed

definition demo_command :: client_command where
  "demo_command = \<lparr>cc_action = ''kill'', cc_channel = None, cc_symbol = None, cc_depth = None, cc_value = None,
     cc_request_id = None, cc_channels = None\<rparr>"

lemma control_requires_admin_witness:
  "handle_client_message demo_exchange (\<lambda>_ _ _. ([], [])) (demo_quoter f_zero) (\<lambda>n. n) (\<lambda>f _. f) (\<lambda>_. Some demo_command)
     [PermRead, PermTrade] ''{}'' (fst connection_new) demo_resting
   = (demo_resting, fst connection_new, [WsError ''forbidden: admin permission required''])"
  using control_requires_admin [of "[PermRead, PermTrade]" demo_exchange "\<lambda>_ _ _. ([], [])" "demo_quoter f_zero" "\<lambda>n. n"
    "\<lambda>f _. f" "\<lambda>_. Some demo_command" "''{}''" "fst connection_new" demo_resting]
  by (simp add: demo_command_def is_control_action_def Let_def split: prod.splits)

end
