(* ===== verification/Simulation.thy ===== *)
theory Simulation
  imports Config Market_Maker
begin

text \<open>
  The price simulator of \<open>src/src/simulation.rs\<close>: the current prices, the random walk of each
  asset with its back-off, one tick and the prices broadcast. The random walks of
  optionstratlib are the record \<open>walk_lib\<close>; whether the blocking task that generates a path
  ends, panics or is cancelled, and the clock, are arguments.
\<close>

section \<open>Data\<close>

definition walk_steps :: nat where "walk_steps = 43200"
definition dormant_retry_ticks :: u32 where "dormant_retry_ticks = 600"

datatype simulation_error = InvalidInitialPrice f64 | InvalidVolatility f64 | WalkGeneration string string

record price_update =
  pu_symbol :: string
  pu_price_cents :: u64
  pu_previous_price_cents :: u64
  pu_timestamp_ms :: u64

record asset_simulation =
  am_current_index :: nat
  am_prices :: "f64 list"
  am_dormant_ticks_remaining :: u32

datatype step_outcome = StepPrice f64 | NeedsRegen | Dormant | NoSim

text \<open>\<open>ps_updates\<close> is what was sent to the price channel so far.\<close>

record simulator =
  ps_prices :: "(string, u64) dashmap"
  ps_simulations :: "(string, asset_simulation) dashmap"
  ps_updates :: "price_update list"

text \<open>
  What the code uses of optionstratlib and \<open>rust_decimal\<close>: the conversions from \<open>f64\<close> to
  \<open>Positive\<close> and \<open>Decimal\<close> (which may refuse) and back, and the walker, which may fail.
\<close>

datatype walk_model =
    GbmWalk (wm_drift: rat) (wm_volatility: rat)
  | ReversionWalk (wm_volatility: rat) (wm_speed: rat) (wm_mean: rat)
  | JumpWalk (wm_drift: rat) (wm_volatility: rat) (wm_intensity: rat) (wm_jump_mean: rat) (wm_jump_volatility: rat)

record walk_params =
  wp_size :: nat
  wp_initial :: rat
  wp_model :: walk_model

record walk_lib =
  wl_positive :: "f64 \<Rightarrow> rat option"
  wl_decimal :: "f64 \<Rightarrow> rat option"
  wl_to_f64 :: "rat \<Rightarrow> f64"
  wl_walk :: "walk_params \<Rightarrow> string + rat list"

datatype task_end = TaskDone | TaskPanicked | TaskCancelled

section \<open>Generating a path\<close>

definition mean_reversion_speed :: rat where "mean_reversion_speed = 1 / 2"
definition jump_intensity :: rat where "jump_intensity = 1 / 10"
definition jump_volatility :: rat where "jump_volatility = 1 / 20"

fun walk_name :: "walk_type \<Rightarrow> string" where
  "walk_name GeometricBrownian = ''geometric_brownian''"
| "walk_name MeanReverting = ''mean_reverting''"
| "walk_name JumpDiffusion = ''jump_diffusion''"

fun walk_model_of :: "walk_type \<Rightarrow> rat \<Rightarrow> rat \<Rightarrow> rat \<Rightarrow> walk_model" where
  "walk_model_of GeometricBrownian initial vol drift = GbmWalk drift vol"
| "walk_model_of MeanReverting initial vol drift = ReversionWalk vol mean_reversion_speed initial"
| "walk_model_of JumpDiffusion initial vol drift = JumpWalk drift vol jump_intensity 0 jump_volatility"

definition generate_price_path ::
  "walk_lib \<Rightarrow> f64 \<Rightarrow> f64 \<Rightarrow> f64 \<Rightarrow> walk_type \<Rightarrow> nat \<Rightarrow> simulation_error + f64 list" where
  "generate_price_path W initial_price volatility drift walk n_steps =
     (case wl_positive W initial_price of
        None \<Rightarrow> Inl (InvalidInitialPrice initial_price)
      | Some initial \<Rightarrow>
          (case wl_positive W volatility of
             None \<Rightarrow> Inl (InvalidVolatility volatility)
           | Some vol \<Rightarrow>
               (let drift_dec = (case wl_decimal W drift of Some d \<Rightarrow> d | None \<Rightarrow> 0)
                in case wl_walk W \<lparr>wp_size = n_steps, wp_initial = initial, wp_model = walk_model_of walk initial vol drift_dec\<rparr> of
                     Inl message \<Rightarrow> Inl (WalkGeneration (walk_name walk) message)
                   | Inr y_steps \<Rightarrow> Inr (map (wl_to_f64 W) y_steps))))"

section \<open>The simulator\<close>

definition simulation_seed :: "walk_lib \<Rightarrow> simulation_config \<Rightarrow> asset_config \<Rightarrow> simulator \<Rightarrow> simulator" where
  "simulation_seed W cfg asset s =
     (let s = (case dollars_to_cents (as_initial_price asset) of
                 Some price_cents \<Rightarrow> s\<lparr>ps_prices := dm_insert (as_symbol asset) price_cents (ps_prices s)\<rparr>
               | None \<Rightarrow> s)
      in case generate_price_path W (as_initial_price asset) (as_volatility asset) (as_drift asset) (sim_walk_type cfg) walk_steps of
           Inr prices \<Rightarrow>
             s\<lparr>ps_simulations := dm_insert (as_symbol asset)
                 \<lparr>am_current_index = 0, am_prices = prices, am_dormant_ticks_remaining = 0\<rparr> (ps_simulations s)\<rparr>
         | Inl (WalkGeneration _ _) \<Rightarrow>
             s\<lparr>ps_simulations := dm_insert (as_symbol asset)
                 \<lparr>am_current_index = 0, am_prices = [], am_dormant_ticks_remaining = dormant_retry_ticks\<rparr> (ps_simulations s)\<rparr>
         | Inl _ \<Rightarrow> s)"

definition simulator_new :: "walk_lib \<Rightarrow> asset_config list \<Rightarrow> simulation_config \<Rightarrow> simulator" where
  "simulator_new W assets cfg =
     fold (simulation_seed W cfg) assets \<lparr>ps_prices = [], ps_simulations = [], ps_updates = []\<rparr>"

definition sim_get_price :: "simulator \<Rightarrow> string \<Rightarrow> u64 option" where
  "sim_get_price s symbol = dm_get (ps_prices s) symbol"

definition get_all_prices :: "simulator \<Rightarrow> (string, u64) dashmap" where
  "get_all_prices s = ps_prices s"

definition set_price :: "u64 \<Rightarrow> string \<Rightarrow> u64 \<Rightarrow> simulator \<Rightarrow> simulator" where
  "set_price now symbol price_cents s =
     (let previous = (case sim_get_price s symbol of Some p \<Rightarrow> p | None \<Rightarrow> price_cents)
      in s\<lparr>ps_prices := dm_insert symbol price_cents (ps_prices s),
           ps_updates := ps_updates s @ [\<lparr>pu_symbol = symbol, pu_price_cents = price_cents,
             pu_previous_price_cents = previous, pu_timestamp_ms = now\<rparr>]\<rparr>)"

definition put_simulation :: "string \<Rightarrow> asset_simulation \<Rightarrow> simulator \<Rightarrow> simulator" where
  "put_simulation symbol a s = s\<lparr>ps_simulations := dm_insert symbol a (ps_simulations s)\<rparr>"

definition advance_step :: "string \<Rightarrow> simulator \<Rightarrow> step_outcome \<times> simulator" where
  "advance_step symbol s =
     (case dm_get (ps_simulations s) symbol of
        None \<Rightarrow> (NoSim, s)
      | Some a \<Rightarrow>
          if 0 < am_dormant_ticks_remaining a then
            (let a = a\<lparr>am_dormant_ticks_remaining := am_dormant_ticks_remaining a - 1\<rparr>
             in (if am_dormant_ticks_remaining a = 0 then NeedsRegen else Dormant, put_simulation symbol a s))
          else
            (let a = a\<lparr>am_current_index := Suc (am_current_index a)\<rparr>
             in (if length (am_prices a) \<le> am_current_index a then NeedsRegen
                 else StepPrice (am_prices a ! am_current_index a), put_simulation symbol a s)))"

definition store_walk_price :: "u64 \<Rightarrow> string \<Rightarrow> f64 \<Rightarrow> simulator \<Rightarrow> u64 \<times> simulator" where
  "store_walk_price now symbol price_dollars s =
     (let price_cents = (case dollars_to_cents (f_max price_dollars (f_lit (1 / 100))) of
            Some c \<Rightarrow> c
          | None \<Rightarrow> (case sim_get_price s symbol of Some p \<Rightarrow> p | None \<Rightarrow> 0))
      in (price_cents, set_price now symbol price_cents s))"

definition mark_dormant :: "string \<Rightarrow> simulator \<Rightarrow> simulator" where
  "mark_dormant symbol s =
     (case dm_get (ps_simulations s) symbol of
        None \<Rightarrow> s
      | Some a \<Rightarrow> put_simulation symbol (a\<lparr>am_dormant_ticks_remaining := dormant_retry_ticks\<rparr>) s)"

definition known_price :: "string \<Rightarrow> asset_config \<Rightarrow> simulator \<Rightarrow> u64" where
  "known_price symbol asset s =
     (case sim_get_price s symbol of
        Some p \<Rightarrow> p
      | None \<Rightarrow> (case dollars_to_cents (as_initial_price asset) of Some c \<Rightarrow> c | None \<Rightarrow> 0))"

definition regenerate ::
  "walk_lib \<Rightarrow> simulation_config \<Rightarrow> u64 \<Rightarrow> task_end \<Rightarrow> string \<Rightarrow> asset_config \<Rightarrow> simulator \<Rightarrow> u64 \<times> simulator" where
  "regenerate W cfg now ended symbol asset s =
     (let current_price = known_price symbol asset s;
          price_dollars = f_div (f_of_u64 current_price) (Fin 100)
      in case ended of
           TaskPanicked \<Rightarrow> (current_price, mark_dormant symbol s)
         | TaskCancelled \<Rightarrow> (current_price, s)
         | TaskDone \<Rightarrow>
             (case generate_price_path W price_dollars (as_volatility asset) (as_drift asset) (sim_walk_type cfg) walk_steps of
                Inl _ \<Rightarrow> (current_price, mark_dormant symbol s)
              | Inr prices \<Rightarrow>
                  if length prices < 2 then (current_price, mark_dormant symbol s)
                  else (case dm_get (ps_simulations s) symbol of
                          None \<Rightarrow> (current_price, s)
                        | Some a \<Rightarrow>
                            store_walk_price now symbol (prices ! 1)
                              (put_simulation symbol (a\<lparr>am_prices := prices, am_current_index := 1\<rparr>) s))))"

definition get_next_price ::
  "walk_lib \<Rightarrow> simulation_config \<Rightarrow> u64 \<Rightarrow> task_end \<Rightarrow> string \<Rightarrow> asset_config \<Rightarrow> simulator \<Rightarrow> u64 \<times> simulator" where
  "get_next_price W cfg now ended symbol asset s =
     (case advance_step symbol s of
        (StepPrice price_dollars, s) \<Rightarrow> store_walk_price now symbol price_dollars s
      | (NeedsRegen, s) \<Rightarrow> regenerate W cfg now ended symbol asset s
      | (Dormant, s) \<Rightarrow> (known_price symbol asset s, s)
      | (NoSim, s) \<Rightarrow> (known_price symbol asset s, s))"

text \<open>One asset of a tick: its next price, given to the market maker when there is one.\<close>

definition tick_asset ::
  "('m, 'o) exchange \<Rightarrow> quoter \<Rightarrow> (nat \<Rightarrow> 'o) \<Rightarrow> walk_lib \<Rightarrow> simulation_config \<Rightarrow> u64 \<Rightarrow> (string \<Rightarrow> task_end) \<Rightarrow> asset_config
   \<Rightarrow> simulator \<times> ('m, 'o) venue option \<Rightarrow> simulator \<times> ('m, 'o) venue option" where
  "tick_asset X qt gen W cfg now ended asset sv =
     (let (s, mm) = sv;
          (new_price, s) = get_next_price W cfg now (ended (as_symbol asset)) (as_symbol asset) asset s
      in (s, map_option (update_price X qt gen (as_symbol asset) new_price) mm))"

definition process_tick ::
  "('m, 'o) exchange \<Rightarrow> quoter \<Rightarrow> (nat \<Rightarrow> 'o) \<Rightarrow> walk_lib \<Rightarrow> simulation_config \<Rightarrow> u64 \<Rightarrow> (string \<Rightarrow> task_end) \<Rightarrow> asset_config list
   \<Rightarrow> simulator \<times> ('m, 'o) venue option \<Rightarrow> simulator \<times> ('m, 'o) venue option" where
  "process_tick X qt gen W cfg now ended assets sv = fold (tick_asset X qt gen W cfg now ended) assets sv"

text \<open>
  The loop, tick by tick: the environment gives the clock and the fate of the generation
  tasks of every tick until the shutdown. A disabled simulation ends at once.
\<close>

fun run_ticks ::
  "('m, 'o) exchange \<Rightarrow> quoter \<Rightarrow> (nat \<Rightarrow> 'o) \<Rightarrow> walk_lib \<Rightarrow> simulation_config \<Rightarrow> asset_config list \<Rightarrow> (u64 \<times> (string \<Rightarrow> task_end)) list
   \<Rightarrow> simulator \<times> ('m, 'o) venue option \<Rightarrow> simulator \<times> ('m, 'o) venue option" where
  "run_ticks X qt gen W cfg assets [] sv = sv"
| "run_ticks X qt gen W cfg assets ((now, ended) # ticks) sv =
     (if \<not> sim_enabled cfg then sv
      else run_ticks X qt gen W cfg assets ticks (process_tick X qt gen W cfg now ended assets sv))"

section \<open>The published feed\<close>

definition updates_of :: "string \<Rightarrow> simulator \<Rightarrow> price_update list" where
  "updates_of symbol s = filter (\<lambda>u. pu_symbol u = symbol) (ps_updates s)"

fun chained :: "price_update list \<Rightarrow> bool" where
  "chained (u # u' # us) = (pu_previous_price_cents u' = pu_price_cents u \<and> chained (u' # us))"
| "chained us = True"

text \<open>
  Every asset with a walk has a price, every price is at least a cent, and the updates of a
  symbol form a chain that ends in its current price.
\<close>

definition feed_ok :: "simulator \<Rightarrow> bool" where
  "feed_ok s \<longleftrightarrow>
     (\<forall>symbol. dm_get (ps_simulations s) symbol \<noteq> None \<longrightarrow> sim_get_price s symbol \<noteq> None) \<and>
     (\<forall>symbol p. sim_get_price s symbol = Some p \<longrightarrow> 1 \<le> p) \<and>
     (\<forall>symbol. chained (updates_of symbol s) \<and>
        (updates_of symbol s \<noteq> [] \<longrightarrow> sim_get_price s symbol = Some (pu_price_cents (last (updates_of symbol s)))))"

lemma feed_price: "feed_ok s \<Longrightarrow> sim_get_price s symbol = Some p \<Longrightarrow> 1 \<le> p"
  by (simp add: feed_ok_def)

named_theorems sim_defs

declare sim_get_price_def [sim_defs] put_simulation_def [sim_defs] updates_of_def [sim_defs] set_price_def [sim_defs]

lemma chained_snoc:
  "chained (us @ [u]) \<longleftrightarrow> chained us \<and> (us \<noteq> [] \<longrightarrow> pu_previous_price_cents u = pu_price_cents (last us))"
  by (induction us rule: chained.induct) auto

lemma one_cent_floor: "f_le (Fin (1 / 128)) (f_max v (f_lit (1 / 100)))"
proof -
  have "f_le (round_f64 (p2 (- 7))) (round_f64 (1 / 100))" by (rule round_f64_mono) (simp add: power_int_def power_one_over)
  then have "f_le (Fin (1 / 128)) (f_lit (1 / 100))"
    using round_f64_p2 [of "- 7"] by (simp add: f_lit_def power_int_def power_one_over)
  then show ?thesis by (cases v; cases "f_lit (1 / 100)") (auto split: if_splits)
qed

lemma floor_cents: "dollars_to_cents (Fin (1 / 128)) = Some 1"
proof -
  have "(25 :: rat) / 32 = of_int 25 * p2 (- 5)" by (simp add: power_int_def power_one_over)
  then have "round_f64 (25 / 32) = Fin (25 / 32)" using round_f64_dyadic [of 25 "- 5"] by simp
  moreover have "\<lfloor>41 / 32 :: rat\<rfloor> = 1" by (simp add: floor_eq_iff)
  ultimately show ?thesis by (simp add: dollars_to_cents_def max_initial_price_def round_away_def trunc_rat_def)
qed

lemma clamped_price_positive:
  assumes "dollars_to_cents (f_max v (f_lit (1 / 100))) = Some c"
  shows "1 \<le> c"
  by (rule cents_mono [OF one_cent_floor floor_cents assms])

lemma set_price_ok:
  assumes "feed_ok s" and "1 \<le> p"
  shows "feed_ok (set_price now symbol p s)" and "sim_get_price (set_price now symbol p s) symbol = Some p"
proof -
  show "sim_get_price (set_price now symbol p s) symbol = Some p" by (simp add: sim_defs Let_def store_simps)
  show "feed_ok (set_price now symbol p s)"
    using assms
    by (auto simp: feed_ok_def sim_defs Let_def store_simps chained_snoc split: option.splits)
qed

lemma put_simulation_ok:
  assumes "feed_ok s" and "dm_get (ps_simulations s) symbol \<noteq> None"
  shows "feed_ok (put_simulation symbol a s)" and "sim_get_price (put_simulation symbol a s) = sim_get_price s"
  using assms by (auto simp: feed_ok_def sim_defs store_simps fun_eq_iff)

lemma store_walk_price_ok:
  assumes "feed_ok s" and "sim_get_price s symbol \<noteq> None" and "store_walk_price now symbol v s = (p, s')"
  shows "feed_ok s' \<and> sim_get_price s' symbol = Some p"
proof -
  obtain c where c: "sim_get_price s symbol = Some c" using assms(2) by blast
  then have "1 \<le> c" using assms(1) by (simp add: feed_ok_def)
  then have "1 \<le> p"
    using assms(3) c clamped_price_positive [of v] by (auto simp: store_walk_price_def Let_def split: option.splits)
  moreover have "s' = set_price now symbol p s" using assms(3) by (auto simp: store_walk_price_def Let_def)
  ultimately show ?thesis using set_price_ok [OF assms(1)] by simp
qed

lemma mark_dormant_ok:
  assumes "feed_ok s"
  shows "feed_ok (mark_dormant symbol s)" and "sim_get_price (mark_dormant symbol s) = sim_get_price s"
  using assms by (auto simp: mark_dormant_def put_simulation_ok split: option.splits)

lemma advance_step_ok:
  assumes "feed_ok s" and "advance_step symbol s = (r, s')"
  shows "feed_ok s' \<and> sim_get_price s' = sim_get_price s \<and> (r \<noteq> NoSim \<longrightarrow> dm_get (ps_simulations s') symbol \<noteq> None)"
  using assms put_simulation_ok [OF assms(1)]
  by (auto simp: advance_step_def Let_def split: option.splits if_splits) (auto simp: put_simulation_def store_simps)

lemma regenerate_ok:
  assumes s: "feed_ok s" and known: "sim_get_price s symbol \<noteq> None"
    and r: "regenerate W cfg now ended symbol asset s = (p, s')"
  shows "feed_ok s' \<and> sim_get_price s' symbol = Some p"
proof -
  obtain c where c: "sim_get_price s symbol = Some c" using known by blast
  show ?thesis
    using r c s
    by (auto simp: regenerate_def Let_def known_price_def mark_dormant_ok put_simulation_ok
        split: task_end.splits sum.splits if_splits option.splits
        dest!: store_walk_price_ok [rotated -1])
qed

lemma get_next_price_ok:
  assumes s: "feed_ok s" and known: "sim_get_price s symbol \<noteq> None"
    and r: "get_next_price W cfg now ended symbol asset s = (p, s')"
  shows "feed_ok s' \<and> sim_get_price s' symbol = Some p"
proof -
  obtain o' t where t: "advance_step symbol s = (o', t)" by fastforce
  note ok = advance_step_ok [OF s t]
  then have feed: "feed_ok t" and same: "sim_get_price t symbol = sim_get_price s symbol" by simp_all
  with known have known': "sim_get_price t symbol \<noteq> None" by simp
  show ?thesis
  proof (cases o')
    case (StepPrice v)
    then show ?thesis using r store_walk_price_ok [OF feed known'] by (simp add: get_next_price_def t)
  next
    case NeedsRegen
    then show ?thesis using r regenerate_ok [OF feed known'] by (simp add: get_next_price_def t)
  qed (use r feed known' in \<open>auto simp: get_next_price_def t known_price_def split: option.splits\<close>)
qed

text \<open>A tick never loses a price, so an asset that has one keeps having one.\<close>

definition priced :: "asset_config list \<Rightarrow> simulator \<Rightarrow> bool" where
  "priced assets s \<longleftrightarrow> (\<forall>a \<in> set assets. sim_get_price s (as_symbol a) \<noteq> None)"

lemma advance_step_prices: "advance_step symbol s = (r, t) \<Longrightarrow> ps_prices t = ps_prices s"
  by (auto simp: advance_step_def put_simulation_def Let_def split: option.splits if_splits)

lemma store_walk_price_dom: "store_walk_price now symbol v s = (p, t) \<Longrightarrow> sim_get_price s k \<noteq> None \<Longrightarrow> sim_get_price t k \<noteq> None"
  by (auto simp: store_walk_price_def Let_def set_price_def sim_get_price_def store_simps)

lemma mark_dormant_prices: "ps_prices (mark_dormant symbol s) = ps_prices s"
  by (simp add: mark_dormant_def put_simulation_def split: option.split)

lemma regenerate_cases:
  assumes "regenerate W cfg now ended symbol asset s = (p, t)"
  obtains "ps_prices t = ps_prices s"
  | u v where "store_walk_price now symbol v u = (p, t)" and "ps_prices u = ps_prices s"
proof (cases "ended = TaskDone")
  case False
  then have "ps_prices t = ps_prices s"
    using assms by (cases ended) (auto simp: regenerate_def Let_def mark_dormant_prices)
  then show ?thesis by (rule that(1))
next
  case True
  then show ?thesis
    using assms that
    by (auto simp: regenerate_def Let_def mark_dormant_prices put_simulation_def split: sum.splits if_splits option.splits)
qed

lemma regenerate_dom:
  assumes "regenerate W cfg now ended symbol asset s = (p, t)" and "sim_get_price s k \<noteq> None"
  shows "sim_get_price t k \<noteq> None"
proof (rule regenerate_cases [OF assms(1)])
  fix u v assume "store_walk_price now symbol v u = (p, t)" and "ps_prices u = ps_prices s"
  then show ?thesis using store_walk_price_dom [where s = u and k = k] assms(2) by (simp add: sim_get_price_def)
qed (use assms(2) in \<open>simp add: sim_get_price_def\<close>)

lemma get_next_price_dom:
  assumes "get_next_price W cfg now ended symbol asset s = (p, t)" and "sim_get_price s k \<noteq> None"
  shows "sim_get_price t k \<noteq> None"
proof -
  obtain r u where u: "advance_step symbol s = (r, u)" by fastforce
  then have "sim_get_price u k \<noteq> None" using assms(2) advance_step_prices [OF u] by (simp add: sim_get_price_def)
  then show ?thesis
    using assms(1) store_walk_price_dom [where k = k] regenerate_dom [where k = k]
    by (auto simp: get_next_price_def u split: step_outcome.splits)
qed

lemma tick_asset_ok:
  assumes "feed_ok (fst sv)" and "priced assets (fst sv)" and "asset \<in> set assets"
  shows "feed_ok (fst (tick_asset X qt gen W cfg now ended asset sv)) \<and> priced assets (fst (tick_asset X qt gen W cfg now ended asset sv))"
proof -
  obtain p t where r: "get_next_price W cfg now (ended (as_symbol asset)) (as_symbol asset) asset (fst sv) = (p, t)" by fastforce
  then have "fst (tick_asset X qt gen W cfg now ended asset sv) = t" by (cases sv) (simp add: tick_asset_def)
  moreover have "feed_ok t" using get_next_price_ok [OF assms(1) _ r] assms(2,3) by (simp add: priced_def)
  moreover have "priced assets t" using assms(2) get_next_price_dom [OF r] by (simp add: priced_def)
  ultimately show ?thesis by simp
qed

lemma fold_tick_ok:
  assumes "feed_ok (fst sv)" and "priced assets (fst sv)" and "set as \<subseteq> set assets"
  shows "feed_ok (fst (fold (tick_asset X qt gen W cfg now ended) as sv)) \<and> priced assets (fst (fold (tick_asset X qt gen W cfg now ended) as sv))"
  using assms by (induction as arbitrary: sv) (simp_all add: tick_asset_ok)

lemma run_ticks_ok:
  assumes "feed_ok (fst sv)" and "priced assets (fst sv)"
  shows "feed_ok (fst (run_ticks X qt gen W cfg assets ticks sv)) \<and> priced assets (fst (run_ticks X qt gen W cfg assets ticks sv))"
  using assms
proof (induction ticks arbitrary: sv)
  case (Cons tick ticks)
  show ?case
    using Cons.IH [OF fold_tick_ok [THEN conjunct1] fold_tick_ok [THEN conjunct2], OF Cons.prems order_refl Cons.prems order_refl] Cons.prems
    by (cases tick) (simp add: process_tick_def)
qed simp

lemma simulation_seed_ok:
  assumes "dollars_to_cents (as_initial_price asset) = Some c" and "1 \<le> c" and "feed_ok s" and "ps_updates s = []"
  shows "feed_ok (simulation_seed W cfg asset s) \<and> ps_updates (simulation_seed W cfg asset s) = []
    \<and> sim_get_price (simulation_seed W cfg asset s) = (sim_get_price s)(as_symbol asset \<mapsto> c)"
  using assms
  by (auto simp: simulation_seed_def Let_def feed_ok_def sim_get_price_def updates_of_def store_simps fun_eq_iff
      split: sum.splits simulation_error.splits)

lemma seeds_ok:
  assumes "\<And>a. a \<in> set as \<Longrightarrow> \<exists>c. dollars_to_cents (as_initial_price a) = Some c \<and> 1 \<le> c"
    and "feed_ok s" and "ps_updates s = []"
  shows "feed_ok (fold (simulation_seed W cfg) as s) \<and> ps_updates (fold (simulation_seed W cfg) as s) = []
    \<and> dom (sim_get_price (fold (simulation_seed W cfg) as s)) = dom (sim_get_price s) \<union> as_symbol ` set as"
  using assms
proof (induction as arbitrary: s)
  case (Cons a as)
  obtain c where c: "dollars_to_cents (as_initial_price a) = Some c" "1 \<le> c" using Cons.prems(1) by auto
  note seed = simulation_seed_ok [OF c Cons.prems(2,3), of W cfg]
  show ?case using Cons.IH [of "simulation_seed W cfg a s"] seed Cons.prems(1) by auto
qed simp

lemma simulator_new_ok:
  assumes "\<And>a. a \<in> set assets \<Longrightarrow> \<exists>c. dollars_to_cents (as_initial_price a) = Some c \<and> 1 \<le> c"
  shows "feed_ok (simulator_new W assets cfg) \<and> priced assets (simulator_new W assets cfg)"
proof -
  have "feed_ok \<lparr>ps_prices = [], ps_simulations = [], ps_updates = []\<rparr>"
    by (simp add: feed_ok_def sim_get_price_def updates_of_def)
  from seeds_ok [OF assms this, of assets W cfg] show ?thesis
    by (fastforce simp: simulator_new_def priced_def dom_def)
qed

text \<open>The simulated feed. When every asset's configured price is at least half a cent, then
  after any number of ticks, whatever the walk library and its tasks did: every published price
  is at least a cent, the updates of a symbol form a chain in which each names the previous price
  and the last is the current price, and the next price handed to the market maker for an asset is
  the one the simulator then shows for it.\<close>

theorem simulated_feed_sound:
  assumes "\<And>a. a \<in> set assets \<Longrightarrow> \<exists>c. dollars_to_cents (as_initial_price a) = Some c \<and> 1 \<le> c"
  shows "let s = fst (run_ticks X qt gen W cfg assets ticks (simulator_new W assets cfg, mm)) in
    feed_ok s \<and>
    (\<forall>asset \<in> set assets. \<forall>now ended.
       let (p, s') = get_next_price W cfg now ended (as_symbol asset) asset s
       in sim_get_price s' (as_symbol asset) = Some p \<and> 1 \<le> p)"
proof -
  define s where "s = fst (run_ticks X qt gen W cfg assets ticks (simulator_new W assets cfg, mm))"
  have ok: "feed_ok s" and pr: "priced assets s"
    using run_ticks_ok [of "(simulator_new W assets cfg, mm)" assets X qt gen W cfg ticks] simulator_new_ok [OF assms]
    by (simp_all add: s_def)
  have "let (p, s') = get_next_price W cfg now ended (as_symbol asset) asset s
        in sim_get_price s' (as_symbol asset) = Some p \<and> 1 \<le> p" if mem: "asset \<in> set assets" for asset now ended
  proof -
    obtain p s' where r: "get_next_price W cfg now ended (as_symbol asset) asset s = (p, s')" by fastforce
    have "feed_ok s' \<and> sim_get_price s' (as_symbol asset) = Some p"
      using get_next_price_ok [OF ok _ r] pr mem by (simp add: priced_def)
    then show ?thesis by (auto simp: r feed_price)
  qed
  with ok show ?thesis by (simp add: s_def [symmetric] Let_def)
qed

definition demo_walk_lib :: walk_lib where
  "demo_walk_lib = \<lparr>wl_positive = (\<lambda>v. case v of Fin r \<Rightarrow> if 0 \<le> r then Some r else None | _ \<Rightarrow> None),
     wl_decimal = (\<lambda>v. case v of Fin r \<Rightarrow> Some r | _ \<Rightarrow> None), wl_to_f64 = Fin,
     wl_walk = (\<lambda>params. Inr (replicate (wp_size params) (wp_initial params)))\<rparr>"

lemma demo_asset_priced: "\<exists>c. dollars_to_cents (as_initial_price demo_asset) = Some c \<and> 1 \<le> c"
  using round_f64_int [of 10000] round_away_of_int [of 10000]
  by (simp add: demo_asset_def dollars_to_cents_def max_initial_price_def trunc_rat_def)

lemma simulated_feed_sound_witness:
  "feed_ok (fst (run_ticks demo_exchange (demo_quoter f_zero) id demo_walk_lib simulation_config_default [demo_asset]
     [(1, \<lambda>_. TaskDone), (2, \<lambda>_. TaskPanicked)] (simulator_new demo_walk_lib [demo_asset] simulation_config_default, None)))"
  using simulated_feed_sound [of "[demo_asset]" demo_exchange "demo_quoter f_zero" id demo_walk_lib simulation_config_default
    "[(1, \<lambda>_. TaskDone), (2, \<lambda>_. TaskPanicked)]" None]
  by (simp add: demo_asset_priced Let_def)

section \<open>The back-off\<close>

text \<open>The prices of consecutive ticks of one asset.\<close>

fun next_prices ::
  "walk_lib \<Rightarrow> simulation_config \<Rightarrow> string \<Rightarrow> asset_config \<Rightarrow> (u64 \<times> task_end) list \<Rightarrow> simulator \<Rightarrow> u64 list \<times> simulator" where
  "next_prices W cfg symbol asset [] s = ([], s)"
| "next_prices W cfg symbol asset ((now, ended) # ticks) s =
     (let (p, s) = get_next_price W cfg now ended symbol asset s;
          (ps, s) = next_prices W cfg symbol asset ticks s
      in (p # ps, s))"

lemma next_prices_dormant:
  assumes "dm_get (ps_simulations s) symbol = Some a" and "am_dormant_ticks_remaining a = of_nat (n + length ticks)"
    and "0 < n" and "n + length ticks < 2 ^ 32"
  shows "let (ps, t) = next_prices W cfg symbol asset ticks s
     in ps = replicate (length ticks) (known_price symbol asset s) \<and> ps_prices t = ps_prices s \<and> ps_updates t = ps_updates s
        \<and> dm_get (ps_simulations t) = (dm_get (ps_simulations s))(symbol \<mapsto> a\<lparr>am_dormant_ticks_remaining := of_nat n\<rparr>)"
  using assms
proof (induction ticks arbitrary: s a)
  case Nil
  then show ?case by (auto simp: fun_eq_iff)
next
  case (Cons tick ticks)
  obtain now ended where tick: "tick = (now, ended)" by fastforce
  let ?a = "a\<lparr>am_dormant_ticks_remaining := of_nat (n + length ticks)\<rparr>"
  define t where "t = put_simulation symbol ?a s"
  have t: "dm_get (ps_simulations t) = (dm_get (ps_simulations s))(symbol \<mapsto> ?a)" "ps_prices t = ps_prices s"
    "ps_updates t = ps_updates s" "known_price symbol asset t = known_price symbol asset s"
    by (simp_all add: t_def put_simulation_def store_simps known_price_def sim_get_price_def fun_eq_iff)
  have pos: "0 < (of_nat k :: u32)" if "0 < k" "k < 2 ^ 32" for k
    using that by (simp add: word_less_nat_alt unat_of_nat take_bit_nat_eq_self)
  have left: "0 < am_dormant_ticks_remaining a" "am_dormant_ticks_remaining a - 1 = of_nat (n + length ticks)"
    "(of_nat (n + length ticks) :: u32) \<noteq> 0"
    using Cons.prems(2-4) pos [of "n + length (tick # ticks)"] pos [of "n + length ticks"] by auto
  have step: "get_next_price W cfg now ended symbol asset s = (known_price symbol asset s, t)"
    using Cons.prems(1) left
    by (simp add: get_next_price_def advance_step_def Let_def t_def known_price_def sim_get_price_def put_simulation_def)
  have "dm_get (ps_simulations t) symbol = Some ?a" by (simp add: t)
  from Cons.IH [OF this] Cons.prems(3,4) show ?case
    by (simp add: tick step t Let_def case_prod_beta fun_upd_def cong: if_cong)
qed

text \<open>The back-off after a failed regeneration. Once the walk of an asset is marked dormant, the
  next 599 ticks all reuse the known price, publish nothing and never run the generation; the
  600th tick retries it. If that gives a path of at least two points the walk is live again at
  its first point; a failure or a panic starts another back-off, and a cancelled task leaves the
  walk due at the next tick.\<close>

theorem walk_backoff:
  assumes walk: "dm_get (ps_simulations s) symbol = Some a" and quiet: "length ticks = 599"
  shows "let p0 = known_price symbol asset s;
            (ps, t) = next_prices W cfg symbol asset ticks (mark_dormant symbol s);
            (p, u) = get_next_price W cfg now ended symbol asset t;
            retry_at = (\<lambda>n. dm_get (ps_simulations u) symbol = Some (a\<lparr>am_dormant_ticks_remaining := n\<rparr>) \<and> p = p0
                              \<and> ps_updates u = ps_updates s)
     in ps = replicate 599 p0 \<and> ps_updates t = ps_updates s \<and>
        (case ended of
           TaskPanicked \<Rightarrow> retry_at dormant_retry_ticks
         | TaskCancelled \<Rightarrow> retry_at 0
         | TaskDone \<Rightarrow>
             (case generate_price_path W (f_div (f_of_u64 p0) (Fin 100)) (as_volatility asset) (as_drift asset) (sim_walk_type cfg) walk_steps of
                Inl _ \<Rightarrow> retry_at dormant_retry_ticks
              | Inr prices \<Rightarrow>
                  if length prices < 2 then retry_at dormant_retry_ticks
                  else dm_get (ps_simulations u) symbol =
                         Some \<lparr>am_current_index = 1, am_prices = prices, am_dormant_ticks_remaining = 0\<rparr>
                       \<and> sim_get_price u symbol = Some p))"
proof -
  let ?d = "mark_dormant symbol s" and ?p = "known_price symbol asset s"
  let ?retry = "\<lambda>n. a\<lparr>am_dormant_ticks_remaining := n\<rparr>"
  have d: "dm_get (ps_simulations ?d) symbol = Some (?retry 600)" "ps_prices ?d = ps_prices s" "ps_updates ?d = ps_updates s"
    using walk by (simp_all add: mark_dormant_def put_simulation_def store_simps dormant_retry_ticks_def)
  obtain ps t where run: "next_prices W cfg symbol asset ticks ?d = (ps, t)" by fastforce
  have t: "ps = replicate 599 ?p" "ps_prices t = ps_prices s" "ps_updates t = ps_updates s"
    "dm_get (ps_simulations t) symbol = Some (?retry 1)"
    using next_prices_dormant [OF d(1), of 1 ticks W cfg asset] quiet d
    by (simp_all add: run known_price_def sim_get_price_def)
  define u where "u = put_simulation symbol (?retry 0) t"
  have step: "get_next_price W cfg now e symbol asset t = regenerate W cfg now e symbol asset u" for e
    using t(4) by (simp add: get_next_price_def advance_step_def Let_def u_def)
  have u: "dm_get (ps_simulations u) symbol = Some (?retry 0)" "ps_updates u = ps_updates s" "known_price symbol asset u = ?p"
    using t by (simp_all add: u_def put_simulation_def store_simps known_price_def sim_get_price_def)
  have dormant: "dm_get (ps_simulations (mark_dormant symbol u)) symbol = Some (?retry dormant_retry_ticks)"
    "ps_updates (mark_dormant symbol u) = ps_updates s"
    using u by (simp_all add: mark_dormant_def put_simulation_def store_simps)
  have live: "ps_simulations (snd (store_walk_price now symbol v w)) = ps_simulations w"
    "sim_get_price (snd (store_walk_price now symbol v w)) symbol = Some (fst (store_walk_price now symbol v w))" for v w
    by (simp_all add: store_walk_price_def Let_def set_price_def sim_get_price_def store_simps)
  show ?thesis
    using u dormant
    by (simp add: Let_def run t(1,3) step regenerate_def live case_prod_beta put_simulation_def store_simps
        split: task_end.split sum.split option.split)
qed

definition demo_walking :: simulator where
  "demo_walking = \<lparr>ps_prices = [(''U'', 10000)],
     ps_simulations = [(''U'', \<lparr>am_current_index = 7, am_prices = [], am_dormant_ticks_remaining = 0\<rparr>)], ps_updates = []\<rparr>"

lemma walk_backoff_witness:
  "fst (next_prices demo_walk_lib simulation_config_default ''U'' demo_asset (replicate 599 (1, TaskDone)) (mark_dormant ''U'' demo_walking))
     = replicate 599 10000"
  using walk_backoff [of demo_walking "''U''" "\<lparr>am_current_index = 7, am_prices = [], am_dormant_ticks_remaining = 0\<rparr>"
    "replicate 599 (1, TaskDone)" demo_asset demo_walk_lib simulation_config_default 1 TaskDone]
  by (simp add: Let_def case_prod_beta) (simp add: demo_walking_def known_price_def sim_get_price_def)

end
