(* ===== verification/Server.thy ===== *)
theory Server
  imports Subscriptions Simulation
begin

text \<open>
  The whole server: the construction of its state from a configuration (\<open>src/src/state.rs\<close>), the
  clean-up of old orders, and a transition system whose steps are the handlers, the market-maker
  commands, the WebSocket messages, the ticks of the price simulator and the clean-up, interleaved
  in any order. Reads
  change nothing and are not steps. The invariant collects what the components keep.
\<close>

section \<open>Construction\<close>

definition is_ascii_char :: "char \<Rightarrow> bool" where
  "is_ascii_char c \<longleftrightarrow> (of_char c :: nat) < 128"

definition state_parse_expiration :: "('m, 'o) exchange \<Rightarrow> string \<Rightarrow> expiration option" where
  "state_parse_expiration X s =
     (if length s \<noteq> 8 \<or> \<not> list_all is_ascii_char s then None
      else (case (parse_i32 (take 4 s), parse_u32 (take 2 (drop 4 s)), parse_u32 (take 2 (drop 6 s))) of
              (Some year, Some month, Some day) \<Rightarrow> map_option DateTime (x_from_ymd X year month day)
            | _ \<Rightarrow> None))"

definition initialize_asset_order_books :: "('m, 'o) exchange \<Rightarrow> asset_config \<Rightarrow> 'm \<Rightarrow> 'm" where
  "initialize_asset_order_books X asset m =
     (let m = x_get_or_create X m (as_symbol asset);
          strikes = generate_strikes asset
      in fold (\<lambda>exp_str m.
           case state_parse_expiration X exp_str of
             None \<Rightarrow> m
           | Some e \<Rightarrow>
               fold (\<lambda>strike m. x_get_or_create_strike X m (as_symbol asset) e strike) strikes
                 (x_get_or_create_expiration X m (as_symbol asset) e))
         (as_expirations asset) m)"

record ('m, 'o) server =
  sv_app :: "('m, 'o) app_state"
  sv_snapshots :: snapshot_store
  sv_simulator :: "simulator option"

definition seed_price ::
  "('m, 'o) exchange \<Rightarrow> quoter \<Rightarrow> (nat \<Rightarrow> 'o) \<Rightarrow> asset_config \<Rightarrow> ('m, 'o) venue \<Rightarrow> ('m, 'o) venue" where
  "seed_price X qt gen asset v =
     (case dollars_to_cents (as_initial_price asset) of
        Some price_cents \<Rightarrow> update_price X qt gen (as_symbol asset) price_cents v
      | None \<Rightarrow> v)"

text \<open>\<open>m0\<close> is a new, empty manager of the order-book library.\<close>

definition from_config ::
  "('m, 'o) exchange \<Rightarrow> quoter \<Rightarrow> (nat \<Rightarrow> 'o) \<Rightarrow> walk_lib \<Rightarrow> 'm \<Rightarrow> config \<Rightarrow> ('m, 'o) server" where
  "from_config X qt gen W m0 cfg =
     (let m = fold (initialize_asset_order_books X) (cf_assets cfg) m0;
          st = app_new m
      in \<lparr>sv_app = st\<lparr>st_venue := fold (seed_price X qt gen) (cf_assets cfg) (st_venue st)\<rparr>,
          sv_snapshots = \<lparr>sn_snapshots = [], sn_seq = 0\<rparr>,
          sv_simulator = Some (simulator_new W (cf_assets cfg) (cf_simulation cfg))\<rparr>)"

section \<open>Clean-up\<close>

text \<open>
  The cut-off instant in nanoseconds. \<open>Duration::seconds\<close> panics outside its range and the
  subtraction panics outside the range of instants that chrono represents (\<open>rep\<close>): \<open>None\<close>.
\<close>

definition cleanup_threshold :: "(int \<Rightarrow> bool) \<Rightarrow> int \<Rightarrow> u64 \<Rightarrow> int option" where
  "cleanup_threshold rep now_ns max_age_secs =
     (let secs = sint max_age_secs; t = now_ns - secs * 10 ^ 9
      in if \<bar>secs\<bar> \<le> (2 ^ 63 - 1) div 1000 \<and> rep t then Some t else None)"

definition cleanup_due :: "(int \<Rightarrow> bool) \<Rightarrow> int \<Rightarrow> order_info \<Rightarrow> bool" where
  "cleanup_due rep threshold order \<longleftrightarrow>
     (oi_status order = Filled \<or> oi_status order = Canceled) \<and>
     (let updated = sint (oi_updated_at_ms order) * 10 ^ 6 in rep updated \<and> updated < threshold)"

definition cleanup_old_orders ::
  "(int \<Rightarrow> bool) \<Rightarrow> int \<Rightarrow> u64 \<Rightarrow> ('m, 'o) app_state \<Rightarrow> (nat \<times> ('m, 'o) app_state) option" where
  "cleanup_old_orders rep now_ns max_age_secs st =
     (case cleanup_threshold rep now_ns max_age_secs of
        None \<Rightarrow> None
      | Some threshold \<Rightarrow>
          (let keys = map fst (filter (\<lambda>(_, order). cleanup_due rep threshold order) (st_orders st))
           in Some (length keys, st\<lparr>st_orders := fold dm_remove keys (st_orders st)\<rparr>)))"

section \<open>The transition system\<close>

text \<open>The part of the state the engine owns, changed by an engine operation.\<close>

definition on_venue :: "(('m, 'o) venue \<Rightarrow> ('m, 'o) venue) \<Rightarrow> ('m, 'o) server \<Rightarrow> ('m, 'o) server" where
  "on_venue f s = s\<lparr>sv_app := (sv_app s)\<lparr>st_venue := f (st_venue (sv_app s))\<rparr>\<rparr>"

definition on_manager :: "('m \<Rightarrow> 'm) \<Rightarrow> ('m, 'o) server \<Rightarrow> ('m, 'o) server" where
  "on_manager f s = s\<lparr>sv_app := set_manager (f (st_manager (sv_app s))) (sv_app s)\<rparr>"

inductive server_step ::
  "('m, 'o) exchange \<Rightarrow> (nat \<Rightarrow> 'o) \<Rightarrow> 'm book_stats \<Rightarrow> ('m, 'b) snapshot_lib \<Rightarrow> walk_lib \<Rightarrow> config
   \<Rightarrow> ('m, 'o) server \<Rightarrow> ('m, 'o) server \<Rightarrow> bool"
  for X gen H S W cfg where
  step_add: "add_order X gen gtd now u e k sty body (sv_app s) = (st', res)
    \<Longrightarrow> server_step X gen H S W cfg s (s\<lparr>sv_app := st'\<rparr>)"
| step_cancel: "cancel_order X now u e k sty oid (sv_app s) = (st', res2)
    \<Longrightarrow> server_step X gen H S W cfg s (s\<lparr>sv_app := st'\<rparr>)"
| step_modify: "modify_order X gen now u e k sty oid mbody (sv_app s) = (st', res3)
    \<Longrightarrow> server_step X gen H S W cfg s (s\<lparr>sv_app := st'\<rparr>)"
| step_market: "submit_market_order X gen u e k sty qbody (sv_app s) = (st', res4)
    \<Longrightarrow> server_step X gen H S W cfg s (s\<lparr>sv_app := st'\<rparr>)"
| step_bulk: "bulk_submit_orders X gen clock bbody (sv_app s) = (st', res5)
    \<Longrightarrow> server_step X gen H S W cfg s (s\<lparr>sv_app := st'\<rparr>)"
| step_bulk_cancel: "bulk_cancel_orders X oids (sv_app s) = (st', res6)
    \<Longrightarrow> server_step X gen H S W cfg s (s\<lparr>sv_app := st'\<rparr>)"
| step_cancel_all: "cancel_all_orders X q (sv_app s) = (st', res7)
    \<Longrightarrow> server_step X gen H S W cfg s (s\<lparr>sv_app := st'\<rparr>)"
| step_engine: "server_step X gen H S W cfg s (on_venue (mm_exec X qt gen c) s)"
| step_kill_switch: "server_step X gen H S W cfg s (on_venue (\<lambda>v. fst (kill_switch X v)) s)"
| step_enable: "server_step X gen H S W cfg s (on_venue (\<lambda>v. fst (enable_quoting X v)) s)"
| step_parameters: "server_step X gen H S W cfg s (on_venue (\<lambda>v. fst (update_parameters X qt gen msg pbody v)) s)"
| step_toggle: "server_step X gen H S W cfg s (on_venue (\<lambda>v. fst (toggle_instrument X u v)) s)"
| step_insert_price: "server_step X gen H S W cfg s (on_venue (\<lambda>v. fst (insert_price X qt gen msg ts ibody v)) s)"
| step_message: "handle_client_message X D qt gen msg parse perms raw cn (sv_app s) = (st', cn', msgs)
    \<Longrightarrow> server_step X gen H S W cfg s (s\<lparr>sv_app := st'\<rparr>)"
| step_create_underlying: "server_step X gen H S W cfg s (on_manager (\<lambda>m. fst (create_underlying X H u m)) s)"
| step_delete_underlying: "server_step X gen H S W cfg s (on_manager (\<lambda>m. fst (delete_underlying X u m)) s)"
| step_create_expiration: "server_step X gen H S W cfg s (on_manager (\<lambda>m. fst (create_expiration X H u e m)) s)"
| step_create_strike: "server_step X gen H S W cfg s (on_manager (\<lambda>m. fst (create_strike X H u e k m)) s)"
| step_snapshot: "create_snapshot X S i now (st_manager (sv_app s)) (sv_snapshots s) = (ss, resp)
    \<Longrightarrow> server_step X gen H S W cfg s (s\<lparr>sv_snapshots := ss\<rparr>)"
| step_restore: "server_step X gen H S W cfg s (on_manager (\<lambda>m. fst (restore_snapshot X S now i (sv_snapshots s) m)) s)"
| step_cleanup: "cleanup_old_orders rep now_ns max_age (sv_app s) = Some (n, st')
    \<Longrightarrow> server_step X gen H S W cfg s (s\<lparr>sv_app := st'\<rparr>)"
| step_tick: "sv_simulator s = Some sim \<Longrightarrow>
    process_tick X qt gen W (cf_simulation cfg) now ended (cf_assets cfg) (sim, Some (st_venue (sv_app s))) = (sim', Some v')
    \<Longrightarrow> server_step X gen H S W cfg s ((on_venue (\<lambda>_. v') s)\<lparr>sv_simulator := Some sim'\<rparr>)"

inductive server_reachable ::
  "('m, 'o) exchange \<Rightarrow> (nat \<Rightarrow> 'o) \<Rightarrow> 'm book_stats \<Rightarrow> ('m, 'b) snapshot_lib \<Rightarrow> walk_lib \<Rightarrow> 'm \<Rightarrow> config
   \<Rightarrow> ('m, 'o) server \<Rightarrow> bool"
  for X gen H S W m0 cfg where
  reach_start: "server_reachable X gen H S W m0 cfg (from_config X qt gen W m0 cfg)"
| reach_step: "server_reachable X gen H S W m0 cfg s \<Longrightarrow> server_step X gen H S W cfg s s'
    \<Longrightarrow> server_reachable X gen H S W m0 cfg s'"

section \<open>Interface of a transition system\<close>

text \<open>What holds at the start and is kept by every step holds in every reachable state.\<close>

locale invariant_system =
  fixes initial :: "'s \<Rightarrow> bool"
    and step :: "'s \<Rightarrow> 's \<Rightarrow> bool"
    and inv :: "'s \<Rightarrow> bool"
  assumes inv_initial: "initial s \<Longrightarrow> inv s"
    and inv_step: "step s s' \<Longrightarrow> inv s \<Longrightarrow> inv s'"
begin

lemma inv_steps: "step\<^sup>*\<^sup>* s s' \<Longrightarrow> inv s \<Longrightarrow> inv s'"
  by (induction rule: rtranclp_induct) (auto intro: inv_step)

lemma inv_reachable: "initial s \<Longrightarrow> step\<^sup>*\<^sup>* s s' \<Longrightarrow> inv s'"
  using inv_steps inv_initial by blast

end

section \<open>Every step keeps the invariant\<close>

lemma app_ok_on_venue:
  assumes "app_ok X gen st" and "mm_ok gen v" and "v_next_id (st_venue st) \<le> v_next_id v"
  shows "app_ok X gen (st\<lparr>st_venue := v\<rparr>)"
proof -
  have "orders_issued X gen (st\<lparr>st_venue := v\<rparr>)"
    using assms(1,3) unfolding app_ok_def orders_issued_def by simp (metis less_le_trans)
  with assms(1,2) show ?thesis
    by (simp add: app_ok_def deltas_numbered_def deltas_of_def current_sequence_def)
qed

text \<open>An engine run: what any sequence of engine commands does to the venue.\<close>

definition engine_run :: "('m, 'o) exchange \<Rightarrow> (nat \<Rightarrow> 'o) \<Rightarrow> ('m, 'o) venue \<Rightarrow> ('m, 'o) venue \<Rightarrow> bool" where
  "engine_run X gen v w \<longleftrightarrow>
     (\<exists>cs. w = fold (\<lambda>(qt, c). mm_exec X qt gen c) cs v)"

lemma engine_run_refl [intro, simp]: "engine_run X gen v v"
  unfolding engine_run_def by (rule exI [of _ "[]"]) simp

lemma engine_run_exec: "engine_run X gen v (mm_exec X qt gen c v)"
  unfolding engine_run_def by (rule exI [of _ "[(qt, c)]"]) simp

lemma engine_run_trans:
  assumes "engine_run X gen u v" and "engine_run X gen v w"
  shows "engine_run X gen u w"
proof -
  obtain cs ds where "v = fold (\<lambda>(qt, c). mm_exec X qt gen c) cs u" "w = fold (\<lambda>(qt, c). mm_exec X qt gen c) ds v"
    using assms by (auto simp: engine_run_def)
  then show ?thesis unfolding engine_run_def by (intro exI [of _ "cs @ ds"]) simp
qed

lemma engine_run_fold: "(\<And>x v. engine_run X gen v (f x v)) \<Longrightarrow> engine_run X gen v (fold f xs v)"
  by (rule fold_invariant [where P = "engine_run X gen v" and Q = "\<lambda>_. True"]) (auto intro: engine_run_trans)

lemma engine_run_ok:
  assumes "inj gen" and "mm_ok gen v" and "engine_run X gen v w"
  shows "mm_ok gen w \<and> v_next_id v \<le> v_next_id w"
proof -
  obtain cs where cs: "w = fold (\<lambda>(qt, c). mm_exec X qt gen c) cs v" using assms(3) by (auto simp: engine_run_def)
  show ?thesis
    unfolding cs
    by (rule fold_invariant [where P = "\<lambda>w. mm_ok gen w \<and> v_next_id v \<le> v_next_id w" and Q = "\<lambda>_. True"])
      (auto simp: assms(1,2) mm_ok_exec intro: order_trans [OF _ mm_exec_next_id])
qed

text \<open>The control endpoints, the price seeds and the ticks are engine runs.\<close>

lemmas engine_ops =
  engine_run_exec [where c = "MmPrice _ _", simplified] engine_run_exec [where c = "MmEnable _", simplified]
  engine_run_exec [where c = "MmSymbol _ _", simplified] engine_run_exec [where c = "MmSpread _", simplified]
  engine_run_exec [where c = "MmSize _", simplified] engine_run_exec [where c = "MmSkew _", simplified]

lemma engine_run_controls:
  "engine_run X gen v (fst (kill_switch X v))"
  "engine_run X gen v (fst (enable_quoting X v))"
  "engine_run X gen v (fst (toggle_instrument X u v))"
  "engine_run X gen v (fst (update_parameters X qt gen msg pbody v))"
  "engine_run X gen v (fst (insert_price X qt gen msg ts ibody v))"
proof -
  show "engine_run X gen v (fst (kill_switch X v))" "engine_run X gen v (fst (enable_quoting X v))"
    "engine_run X gen v (fst (toggle_instrument X u v))"
    by (simp_all add: kill_switch_def enable_quoting_def toggle_instrument_def Let_def engine_ops)
  have opt: "engine_run X gen v (case y of Some x \<Rightarrow> f x v | None \<Rightarrow> v)" if "\<And>x v. engine_run X gen v (f x v)" for f v and y :: "f64 option"
    using that by (cases y) simp_all
  show "engine_run X gen v (fst (update_parameters X qt gen msg pbody v))"
    by (auto simp: update_parameters_def Let_def
        intro!: engine_run_trans [OF opt opt] engine_run_trans [OF engine_run_trans [OF opt opt] opt] engine_ops split: sum.split)
  show "engine_run X gen v (fst (insert_price X qt gen msg ts ibody v))"
    by (auto simp: insert_price_def engine_ops split: sum.split)
qed

lemma engine_run_seeds: "engine_run X gen v (fold (seed_price X qt gen) as v)"
  by (rule engine_run_fold) (simp add: seed_price_def engine_ops split: option.split)

lemma tick_venue:
  "\<exists>v'. snd (tick_asset X qt gen W c now ended a (sim, Some v)) = Some v' \<and> engine_run X gen v v'"
  by (simp add: tick_asset_def engine_ops split: prod.split)

lemma process_tick_venue:
  fixes X :: "('a, 'b) exchange"
  assumes "process_tick X qt gen W c now ended as (sim, Some v) = (sim', Some v')"
  shows "engine_run X gen v v'"
proof -
  have "\<exists>w. snd (fold (tick_asset X qt gen W c now ended) as (sim, Some v)) = Some w \<and> engine_run X gen v w"
  proof (rule fold_invariant [where P = "\<lambda>sv. \<exists>w. snd sv = Some w \<and> engine_run X gen v w" and Q = "\<lambda>_. True"])
    fix a and sv :: "simulator \<times> ('a, 'b) venue option"
    assume "\<exists>w. snd sv = Some w \<and> engine_run X gen v w"
    then obtain s w where "sv = (s, Some w)" "engine_run X gen v w" by (metis prod.collapse)
    then show "\<exists>w. snd (tick_asset X qt gen W c now ended a sv) = Some w \<and> engine_run X gen v w"
      using tick_venue [of X qt gen W c now ended a s w] engine_run_trans by blast
  qed simp_all
  then show ?thesis using assms by (simp add: process_tick_def)
qed

lemma app_ok_untrack_all: "app_ok X gen st \<Longrightarrow> app_ok X gen (st\<lparr>st_orders := fold dm_remove ks (st_orders st)\<rparr>)"
proof (induction ks arbitrary: st)
  case (Cons k ks)
  then show ?case using Cons.IH [OF app_ok_untrack [OF Cons.prems, of k]] by simp
qed simp

lemma app_ok_cleanup:
  "app_ok X gen st \<Longrightarrow> cleanup_old_orders rep now_ns age st = Some (n, st') \<Longrightarrow> app_ok X gen st'"
  by (auto simp: cleanup_old_orders_def Let_def app_ok_untrack_all split: option.splits)

definition snapshots_bounded :: "snapshot_store \<Rightarrow> bool" where
  "snapshots_bounded ss \<longleftrightarrow> dm_ok (sn_snapshots ss) \<and> length (sn_snapshots ss) \<le> max_retained_snapshots"

lemma snapshots_bounded_create:
  assumes "snapshots_bounded ss" and "create_snapshot X S i now m ss = (ss', resp)"
  shows "snapshots_bounded ss'"
proof -
  obtain stored where "sn_snapshots ss' = evict_snapshots (dm_insert i stored (sn_snapshots ss))"
    using assms(2) by (auto simp: create_snapshot_def Let_def stored_snapshot_new_def insert_snapshot_bounded_def)
  then show ?thesis
    using assms(1) dm_ok_insert [of "sn_snapshots ss" i stored]
    by (simp add: snapshots_bounded_def snaps.inv_shrink snaps.size_shrink_le)
qed

lemma process_tick_feed:
  assumes "feed_ok sim" and "priced assets sim" and "process_tick X qt gen W c now ended assets (sim, mm) = (sim', mm')"
  shows "feed_ok sim' \<and> priced assets sim'"
  using fold_tick_ok [of "(sim, mm)" assets assets X qt gen W c now ended] assms by (auto simp: process_tick_def)

text \<open>The invariant of the server.\<close>

definition server_ok :: "('m, 'o) exchange \<Rightarrow> (nat \<Rightarrow> 'o) \<Rightarrow> config \<Rightarrow> ('m, 'o) server \<Rightarrow> bool" where
  "server_ok X gen cfg s \<longleftrightarrow> app_ok X gen (sv_app s) \<and> snapshots_bounded (sv_snapshots s)
     \<and> (case sv_simulator s of None \<Rightarrow> True | Some sim \<Rightarrow> feed_ok sim \<and> priced (cf_assets cfg) sim)"

lemma server_ok_app: "server_ok X gen cfg s \<Longrightarrow> app_ok X gen st \<Longrightarrow> server_ok X gen cfg (s\<lparr>sv_app := st\<rparr>)"
  by (simp add: server_ok_def)

lemma server_ok_venue:
  assumes "inj gen" and "server_ok X gen cfg s" and "engine_run X gen (st_venue (sv_app s)) (f (st_venue (sv_app s)))"
  shows "server_ok X gen cfg (on_venue f s)"
proof -
  have "app_ok X gen (sv_app s)" using assms(2) by (simp add: server_ok_def)
  moreover have "mm_ok gen (st_venue (sv_app s))" using calculation by (simp add: app_ok_def)
  ultimately have "app_ok X gen ((sv_app s)\<lparr>st_venue := f (st_venue (sv_app s))\<rparr>)"
    using engine_run_ok [OF assms(1) _ assms(3)] by (intro app_ok_on_venue) auto
  then show ?thesis unfolding on_venue_def by (rule server_ok_app [OF assms(2)])
qed

lemma server_ok_manager: "server_ok X gen cfg s \<Longrightarrow> server_ok X gen cfg (on_manager f s)"
  unfolding on_manager_def by (rule server_ok_app) (simp_all add: server_ok_def app_ok_set_manager)

definition config_priced :: "config \<Rightarrow> bool" where
  "config_priced cfg \<longleftrightarrow> (\<forall>a \<in> set (cf_assets cfg). \<exists>c. dollars_to_cents (as_initial_price a) = Some c \<and> 1 \<le> c)"

lemma server_ok_from_config:
  assumes "inj gen" and "config_priced cfg"
  shows "server_ok X gen cfg (from_config X qt gen W m0 cfg)"
proof -
  define m where "m = fold (initialize_asset_order_books X) (cf_assets cfg) m0"
  have "app_ok X gen (app_new m)" by (rule app_ok_new)
  moreover have "mm_ok gen (st_venue (app_new m))" using calculation by (simp add: app_ok_def)
  ultimately have "app_ok X gen ((app_new m)\<lparr>st_venue := fold (seed_price X qt gen) (cf_assets cfg) (st_venue (app_new m))\<rparr>)"
    using engine_run_ok [OF assms(1) _ engine_run_seeds] by (intro app_ok_on_venue) auto
  moreover have "feed_ok (simulator_new W (cf_assets cfg) (cf_simulation cfg))"
    "priced (cf_assets cfg) (simulator_new W (cf_assets cfg) (cf_simulation cfg))"
    using simulator_new_ok [of "cf_assets cfg" W "cf_simulation cfg"] assms(2) by (auto simp: config_priced_def)
  ultimately show ?thesis
    by (simp add: server_ok_def from_config_def Let_def m_def snapshots_bounded_def dm_ok_def)
qed

lemma engine_run_control_value:
  "(\<And>y v. engine_run X gen v (f y v)) \<Longrightarrow> engine_run X gen v (fst (control_value msg field lo hi value f v))"
  by (simp add: control_value_def split: option.split)

lemma engine_run_command: "engine_run X gen v (fst (control_command X qt gen msg cmd v))"
  by (simp add: control_command_def Let_def engine_run_control_value engine_ops)

lemma app_ok_subscribe:
  "app_ok X gen st \<Longrightarrow> app_ok X gen (fst (handle_orderbook_subscribe X D cmd cn st))"
  by (auto simp: handle_orderbook_subscribe_def Let_def current_sequence_next app_ok_def orders_issued_def
      deltas_numbered_def deltas_of_def current_sequence_def store_simps dm_ok_insert issued_in_order_next
      split: option.split)

lemma app_ok_message:
  assumes "inj gen" and ok: "app_ok X gen st" and run: "handle_client_message X D qt gen msg parse perms raw cn st = (st', cn', msgs)"
  shows "app_ok X gen st'"
proof -
  have "app_ok X gen (st\<lparr>st_venue := fst (control_command X qt gen msg cmd (st_venue st))\<rparr>)" for cmd
    using engine_run_ok [OF assms(1) _ engine_run_command [of X gen "st_venue st" qt msg cmd]] ok
    by (intro app_ok_on_venue [OF ok]) (auto simp: app_ok_def)
  then have "app_ok X gen (fst (handle_client_message X D qt gen msg parse perms raw cn st))"
    using ok by (simp add: handle_client_message_def Let_def app_ok_subscribe case_prod_beta split: option.split)
  then show ?thesis by (simp add: run)
qed

lemma server_ok_step:
  assumes laws: "conserves_quantity X" "inj gen" "ids_roundtrip X"
    and "server_step X gen H S W cfg s s'" and ok: "server_ok X gen cfg s"
  shows "server_ok X gen cfg s'"
  using assms(4)
proof cases
  case (step_bulk clock bbody st' res5)
  then show ?thesis
    using bulk_submit_accounted [OF laws(1) _ laws(2,3) step_bulk(2)] ok by (simp add: server_ok_def)
next
  case (step_snapshot i now ss resp)
  then show ?thesis using snapshots_bounded_create [OF _ step_snapshot(2)] ok by (simp add: server_ok_def)
next
  case (step_tick sim qt now ended sim' v')
  have "server_ok X gen cfg (on_venue (\<lambda>_. v') s)"
    using ok by (intro server_ok_venue laws process_tick_venue [OF step_tick(3)])
  moreover have "feed_ok sim' \<and> priced (cf_assets cfg) sim'"
    using process_tick_feed [OF _ _ step_tick(3)] ok step_tick(2) by (simp add: server_ok_def)
  ultimately show ?thesis unfolding step_tick(1) by (simp add: server_ok_def)
qed (use ok in \<open>auto intro!: server_ok_venue server_ok_manager server_ok_app laws engine_run_exec engine_run_controls
      intro: app_ok_add_order [OF laws(1)] app_ok_cancel_order app_ok_modify_order app_ok_market_order app_ok_bulk_cancel
        app_ok_cancel_all app_ok_cleanup app_ok_message [OF laws(2)] simp: server_ok_def [of X gen cfg s]\<close>)

definition server_laws :: "('m, 'o) exchange \<Rightarrow> (nat \<Rightarrow> 'o) \<Rightarrow> config \<Rightarrow> bool" where
  "server_laws X gen cfg \<longleftrightarrow> conserves_quantity X \<and> inj gen \<and> ids_roundtrip X \<and> config_priced cfg"

interpretation server: invariant_system
  "\<lambda>s. server_laws X gen cfg \<and> (\<exists>qt. s = from_config X qt gen W m0 cfg)"
  "\<lambda>s s'. server_laws X gen cfg \<and> server_step X gen H S W cfg s s'"
  "server_ok X gen cfg"
  by unfold_locales (auto simp: server_laws_def intro: server_ok_from_config server_ok_step)

lemma reachable_steps:
  assumes "server_laws X gen cfg" and "server_reachable X gen H S W m0 cfg s"
  shows "\<exists>qt. (\<lambda>s s'. server_laws X gen cfg \<and> server_step X gen H S W cfg s s')\<^sup>*\<^sup>* (from_config X qt gen W m0 cfg) s"
  using assms(2)
proof induction
  case (reach_step s s')
  then show ?case using assms(1) by (metis (no_types, lifting) rtranclp.rtrancl_into_rtrancl)
qed blast

lemma reachable_ok:
  assumes "server_laws X gen cfg" and "server_reachable X gen H S W m0 cfg s"
  shows "server_ok X gen cfg s"
  using reachable_steps [OF assms] server.inv_reachable [of X gen cfg _ W m0 H S] assms(1) by blast

section \<open>Properties\<close>


lemma length_remove_all:
  "dm_ok m \<Longrightarrow> distinct ks \<Longrightarrow> \<forall>k \<in> set ks. dm_get m k \<noteq> None \<Longrightarrow> length (fold dm_remove ks m) + length ks = length m"
proof (induction ks arbitrary: m)
  case (Cons k ks)
  have "Suc (length (dm_remove k m)) = length m"
    using dm.size_del_present [of m k] Cons.prems by auto
  moreover have "length (fold dm_remove ks (dm_remove k m)) + length ks = length (dm_remove k m)"
    using Cons.prems by (intro Cons.IH) (auto simp: dm_ok_remove store_simps)
  ultimately show ?case by simp
qed simp

text \<open>The clean-up of old orders. It removes exactly the filled and cancelled orders last updated
  before the cut-off, reports their number, and leaves every other order and every other part of
  the state as it was; in particular no active or partially filled order is ever removed.\<close>

theorem cleanup_removes_only_due:
  assumes "dm_ok (st_orders st)"
  shows "case cleanup_old_orders rep now_ns age st of
     None \<Rightarrow> cleanup_threshold rep now_ns age = None
   | Some (n, st') \<Rightarrow>
       (\<exists>t. cleanup_threshold rep now_ns age = Some t
          \<and> dm_get (st_orders st') = (\<lambda>k. case dm_get (st_orders st) k of
               Some i \<Rightarrow> if oi_status i \<in> {Filled, Canceled} \<and> rep (sint (oi_updated_at_ms i) * 10 ^ 6)
                            \<and> sint (oi_updated_at_ms i) * 10 ^ 6 < t then None else Some i
             | None \<Rightarrow> None)
          \<and> length (st_orders st') + n = length (st_orders st)
          \<and> st' = st\<lparr>st_orders := st_orders st'\<rparr>)"
proof (cases "cleanup_threshold rep now_ns age")
  case None
  then show ?thesis by (simp add: cleanup_old_orders_def)
next
  case (Some t)
  let ?due = "\<lambda>(_ :: string, i). cleanup_due rep t i"
  let ?keys = "map fst (filter ?due (st_orders st))"
  have mem: "k \<in> set ?keys \<longleftrightarrow> (case dm_get (st_orders st) k of Some i \<Rightarrow> cleanup_due rep t i | None \<Rightarrow> False)" for k
    using assms dm_get_mem [OF assms] by (force split: option.split)
  have get: "dm_get (fold dm_remove ?keys (st_orders st)) = (\<lambda>k. case dm_get (st_orders st) k of
      Some i \<Rightarrow> if cleanup_due rep t i then None else Some i | None \<Rightarrow> None)"
    unfolding fold_dm_remove mem by (auto simp: fun_eq_iff split: option.split)
  have "length (fold dm_remove ?keys (st_orders st)) + length ?keys = length (st_orders st)"
    using assms by (intro length_remove_all) (auto simp: dm_ok_def distinct_map_filter dest: weak_map_of_SomeI)
  moreover have due: "(oi_status i \<in> {Filled, Canceled} \<and> rep (sint (oi_updated_at_ms i) * 10 ^ 6)
      \<and> sint (oi_updated_at_ms i) * 10 ^ 6 < t) = cleanup_due rep t i" for i
    by (simp add: cleanup_due_def Let_def)
  have "dm_get (fold dm_remove ?keys (st_orders st)) = (\<lambda>k. case dm_get (st_orders st) k of
      Some i \<Rightarrow> if oi_status i \<in> {Filled, Canceled} \<and> rep (sint (oi_updated_at_ms i) * 10 ^ 6)
                   \<and> sint (oi_updated_at_ms i) * 10 ^ 6 < t then None else Some i
    | None \<Rightarrow> None)"
    unfolding due by (rule get)
  ultimately show ?thesis by (simp add: cleanup_old_orders_def Some Let_def)
qed

text \<open>
  A retention of \<open>2 ^ 64 - 1\<close> seconds is read as minus one second: the cut-off is in the future and
  every finished order goes at once.
\<close>

lemma huge_retention_is_negative:
  "rep (now_ns + 10 ^ 9) \<Longrightarrow> cleanup_threshold rep now_ns (- 1) = Some (now_ns + 10 ^ 9)"
  by (simp add: cleanup_threshold_def Let_def)

definition demo_config_server :: config where
  "demo_config_server = config_default\<lparr>cf_assets := []\<rparr>"

definition demo_server :: "(demo_state, nat) server" where
  "demo_server = from_config demo_exchange (demo_quoter f_zero) id demo_walk_lib demo_empty demo_config_server"

lemma demo_server_adds:
  "server_reachable demo_exchange (\<lambda>n. n) demo_stats demo_snapshots demo_walk_lib demo_empty demo_config_server
     (demo_server\<lparr>sv_app := demo_resting\<rparr>)"
proof -
  have start: "sv_app demo_server = demo_start"
    by (simp add: demo_server_def from_config_def demo_config_server_def demo_start_def)
  have "server_reachable demo_exchange (\<lambda>n. n) demo_stats demo_snapshots demo_walk_lib demo_empty demo_config_server demo_server"
    unfolding demo_server_def id_def by (rule reach_start)
  moreover obtain resp where "add_order demo_exchange (\<lambda>n. n) 0 7 ''U'' ''20300101'' 100 ''call'' (demo_add_request Buy 5)
      (sv_app demo_server) = (demo_resting, Inr resp)"
    using demo_add_run unfolding start by blast
  ultimately show ?thesis by (rule reach_step [OF _ step_add])
qed


lemma cleanup_removes_only_due_witness:
  "case cleanup_old_orders (\<lambda>_. True) (10 ^ 15) 60 demo_resting of
     None \<Rightarrow> False
   | Some (n, st') \<Rightarrow> dm_get (st_orders st') ''0'' = Some demo_resting_order"
  using cleanup_removes_only_due [of demo_resting "\<lambda>_. True" "10 ^ 15" 60]
  by (simp add: dm_ok_def cleanup_threshold_def Let_def demo_resting_order_def split: option.splits prod.splits)

end
