(* ===== verification/Analytics.thy ===== *)
theory Analytics
  imports Hierarchy Float_Order "HOL-Library.Char_ord" "HOL-Library.List_Lexorder"
begin

text \<open>
  The read-only analytics of \<open>src/src/api/handlers.rs\<close>: health, global statistics, the implied
  volatility surface with its cache, the greeks, the enriched snapshot and the metrics of a
  book. The solver and the pricing of optionstratlib and the metrics of orderbook_rs are
  parameters; what the handlers select, omit, sort, cache and refuse is modelled.
\<close>

section \<open>Health and global statistics\<close>

record health_response =
  hr_status :: string
  hr_version :: string

record global_stats_response =
  gs_underlying_count :: nat
  gs_total_expirations :: nat
  gs_total_strikes :: nat
  gs_total_orders :: nat

text \<open>The version is fixed when the crate is built.\<close>

definition health_check :: "string \<Rightarrow> health_response" where
  "health_check version = \<lparr>hr_status = ''healthy'', hr_version = version\<rparr>"

definition get_global_stats :: "('m \<Rightarrow> nat \<times> nat \<times> nat \<times> nat) \<Rightarrow> 'm \<Rightarrow> global_stats_response" where
  "get_global_stats stats m =
     (let (underlyings, expirations, strikes, orders) = stats m
      in \<lparr>gs_underlying_count = underlyings, gs_total_expirations = expirations,
          gs_total_strikes = strikes, gs_total_orders = orders\<rparr>)"

section \<open>The volatility surface\<close>

record strike_iv =
  si_call_iv :: "f64 option"
  si_put_iv :: "f64 option"

record atm_point =
  tp_expiration :: string
  tp_days :: u64
  tp_iv :: f64

record surface_response =
  vs_underlying :: string
  vs_spot_price :: "u64 option"
  vs_timestamp_ms :: u64
  vs_expirations :: "string list"
  vs_strikes :: "u64 list"
  vs_surface :: "(string, (u64, strike_iv) dashmap) dashmap"
  vs_atm_term_structure :: "atm_point list"

record cached_surface =
  cs_spot :: "u64 option"
  cs_response :: surface_response

record strike_mids =
  sm_strike :: u64
  sm_call_mid :: "u128 option"
  sm_put_mid :: "u128 option"

record expiration_inputs =
  ei_exp_str :: string
  ei_days_to_expiry :: u64
  ei_atm_strike :: "u64 option"
  ei_rows :: "strike_mids list"

text \<open>
  \<open>Positive::new\<close>, which may refuse, and \<open>calculate_iv\<close>, which may fail; the volatility it
  finds is read as an \<open>f64\<close>.
\<close>

record 'p iv_lib =
  iv_positive :: "f64 \<Rightarrow> 'p option"
  iv_calculate :: "'p \<Rightarrow> 'p \<Rightarrow> opt_style \<Rightarrow> 'p \<Rightarrow> 'p \<Rightarrow> string \<Rightarrow> string + f64"

definition surface_cache_ttl_ms :: u64 where "surface_cache_ttl_ms = 2000"

definition iv_grid_ceiling :: f64 where "iv_grid_ceiling = f_lit (999 / 1000)"

definition f_of_u128 :: "u128 \<Rightarrow> f64" where
  "f_of_u128 w = round_f64 (of_int (uint w))"

definition calculate_mid_price :: "book_quote \<Rightarrow> u128 option" where
  "calculate_mid_price q =
     (case (bq_bid_price q, bq_ask_price q) of
        (Some bid, Some ask) \<Rightarrow> Some ((bid + ask) div 2)
      | _ \<Rightarrow> None)"

fun asymptote_cents :: "opt_style \<Rightarrow> u64 \<Rightarrow> u64 \<Rightarrow> u128" where
  "asymptote_cents OptCall spot strike = ucast spot"
| "asymptote_cents OptPut spot strike = ucast strike"

definition derive_iv ::
  "'p iv_lib \<Rightarrow> u128 \<Rightarrow> u64 \<Rightarrow> u64 option \<Rightarrow> u64 \<Rightarrow> opt_style \<Rightarrow> string \<Rightarrow> f64 option" where
  "derive_iv L mid_cents strike_cents spot_cents days_to_expiry style symbol =
     (case spot_cents of
        None \<Rightarrow> None
      | Some spot_cents \<Rightarrow>
          if asymptote_cents style spot_cents strike_cents \<le> mid_cents then None
          else (case (iv_positive L (f_of_u128 mid_cents), iv_positive L (f_of_u64 strike_cents),
                      iv_positive L (f_of_u64 spot_cents), iv_positive L (f_of_u64 days_to_expiry)) of
                  (Some option_price, Some strike, Some spot, Some days) \<Rightarrow>
                    (case iv_calculate L option_price strike style spot days symbol of
                       Inl _ \<Rightarrow> None
                     | Inr iv \<Rightarrow> if f_le iv_grid_ceiling iv then None else Some iv)
                | _ \<Rightarrow> None))"

text \<open>
  The first phase: the expirations with a date whose book is there, their strikes and mids.
  \<open>num_days e\<close> is the number of whole days from now to the date of \<open>e\<close>.
\<close>

definition strike_mids_of :: "'m book_stats \<Rightarrow> 'm \<Rightarrow> string \<Rightarrow> expiration \<Rightarrow> u64 \<Rightarrow> strike_mids" where
  "strike_mids_of H m u e k =
     \<lparr>sm_strike = k, sm_call_mid = calculate_mid_price (hs_best_quote H m (u, e, k, OptCall)),
      sm_put_mid = calculate_mid_price (hs_best_quote H m (u, e, k, OptPut))\<rparr>"

definition days_floor :: "int \<Rightarrow> u64" where
  "days_floor n = word_of_int (max 1 n)"

definition collect_expiration ::
  "('m, 'o) exchange \<Rightarrow> 'm book_stats \<Rightarrow> (expiration \<Rightarrow> int) \<Rightarrow> 'm \<Rightarrow> string \<Rightarrow> u64 option \<Rightarrow> expiration
   \<Rightarrow> u64 list \<times> expiration_inputs list \<Rightarrow> u64 list \<times> expiration_inputs list" where
  "collect_expiration X H num_days m u spot e acc =
     (let (all_strikes, collected) = acc in
      case x_exp_ymd X e of
        None \<Rightarrow> (all_strikes, collected)
      | Some exp_str \<Rightarrow>
          (case x_get_expiration X m u e of
             Inl _ \<Rightarrow> (all_strikes, collected)
           | Inr _ \<Rightarrow>
               (let strikes = x_strikes X m u e
                in (all_strikes @ strikes,
                    collected @ [\<lparr>ei_exp_str = exp_str, ei_days_to_expiry = days_floor (num_days e),
                      ei_atm_strike = atm_strike (map_option ucast spot) strikes,
                      ei_rows = map (strike_mids_of H m u e)
                        (filter (\<lambda>k. x_get_strike X m u e k = Inr ()) strikes)\<rparr>]))))"

text \<open>The second phase: every volatility from the collected mids.\<close>

definition strike_ivs :: "'p iv_lib \<Rightarrow> string \<Rightarrow> u64 option \<Rightarrow> u64 \<Rightarrow> strike_mids \<Rightarrow> strike_iv" where
  "strike_ivs L symbol spot days row =
     \<lparr>si_call_iv = Option.bind (sm_call_mid row) (\<lambda>mid. derive_iv L mid (sm_strike row) spot days OptCall symbol),
      si_put_iv = Option.bind (sm_put_mid row) (\<lambda>mid. derive_iv L mid (sm_strike row) spot days OptPut symbol)\<rparr>"

definition expiration_surface :: "'p iv_lib \<Rightarrow> string \<Rightarrow> u64 option \<Rightarrow> expiration_inputs \<Rightarrow> (u64, strike_iv) dashmap" where
  "expiration_surface L symbol spot inp =
     fold (\<lambda>row. dm_insert (sm_strike row) (strike_ivs L symbol spot (ei_days_to_expiry inp) row)) (ei_rows inp) []"

definition iv_or :: "strike_iv \<Rightarrow> f64 option" where
  "iv_or si = (case si_call_iv si of Some iv \<Rightarrow> Some iv | None \<Rightarrow> si_put_iv si)"

definition atm_points :: "'p iv_lib \<Rightarrow> string \<Rightarrow> u64 option \<Rightarrow> expiration_inputs \<Rightarrow> atm_point list" where
  "atm_points L symbol spot inp =
     (case Option.bind (ei_atm_strike inp) (\<lambda>atm. Option.bind (dm_get (expiration_surface L symbol spot inp) atm) iv_or) of
        None \<Rightarrow> []
      | Some iv \<Rightarrow> [\<lparr>tp_expiration = ei_exp_str inp, tp_days = ei_days_to_expiry inp, tp_iv = iv\<rparr>])"

definition sweep_expiration ::
  "'p iv_lib \<Rightarrow> string \<Rightarrow> u64 option \<Rightarrow> expiration_inputs
   \<Rightarrow> (string, (u64, strike_iv) dashmap) dashmap \<times> atm_point list \<times> string list
   \<Rightarrow> (string, (u64, strike_iv) dashmap) dashmap \<times> atm_point list \<times> string list" where
  "sweep_expiration L symbol spot inp acc =
     (let (surface, atm_term_structure, expirations) = acc
      in (dm_insert (ei_exp_str inp) (expiration_surface L symbol spot inp) surface,
          atm_term_structure @ atm_points L symbol spot inp, expirations @ [ei_exp_str inp]))"

definition compute_surface ::
  "('m, 'o) exchange \<Rightarrow> 'm book_stats \<Rightarrow> 'p iv_lib \<Rightarrow> (expiration \<Rightarrow> int) \<Rightarrow> 'm \<Rightarrow> string \<Rightarrow> u64 option \<Rightarrow> u64 \<Rightarrow> surface_response" where
  "compute_surface X H L num_days m u spot timestamp_ms =
     (let (all_strikes, collected) = fold (collect_expiration X H num_days m u spot) (x_expirations X m u) ([], []);
          (surface, atm_term_structure, expirations) = fold (sweep_expiration L u spot) collected ([], [], [])
      in \<lparr>vs_underlying = u, vs_spot_price = spot, vs_timestamp_ms = timestamp_ms,
          vs_expirations = sort expirations, vs_strikes = sort (remdups all_strikes), vs_surface = surface,
          vs_atm_term_structure = sort_key tp_days atm_term_structure\<rparr>)"

text \<open>
  The handler. \<open>now_ms\<close> is the clock at the look into the cache and \<open>done_ms\<close> after the sweep;
  \<open>join_error\<close> is the failure of the blocking task, if it fails.
\<close>

definition get_volatility_surface ::
  "('m, 'o) exchange \<Rightarrow> 'm book_stats \<Rightarrow> 'p iv_lib \<Rightarrow> (expiration \<Rightarrow> int) \<Rightarrow> (string \<Rightarrow> u64 option) \<Rightarrow> string option
   \<Rightarrow> u64 \<Rightarrow> u64 \<Rightarrow> string \<Rightarrow> 'm \<Rightarrow> (string, cached_surface) dashmap
   \<Rightarrow> (string, cached_surface) dashmap \<times> (api_error + surface_response)" where
  "get_volatility_surface X H L num_days sim_price join_error now_ms done_ms u m cache =
     (case x_get X m u of
        Inl _ \<Rightarrow> (cache, Inl (UnderlyingNotFound u))
      | Inr _ \<Rightarrow>
          (let spot_price = sim_price u;
               hit = (case dm_get cache u of
                        None \<Rightarrow> None
                      | Some cached \<Rightarrow>
                          if cs_spot cached = spot_price
                             \<and> saturating_sub now_ms (vs_timestamp_ms (cs_response cached)) < surface_cache_ttl_ms
                          then Some (cs_response cached) else None)
           in case hit of
                Some response \<Rightarrow> (cache, Inr response)
              | None \<Rightarrow>
                  (case join_error of
                     Some e \<Rightarrow> (cache, Inl (Internal (''volatility surface computation failed: '' @ e)))
                   | None \<Rightarrow>
                       (let response = compute_surface X H L num_days m u spot_price done_ms
                        in (dm_insert u \<lparr>cs_spot = spot_price, cs_response = response\<rparr> cache, Inr response)))))"

section \<open>Greeks\<close>

record greeks_data =
  gd_delta :: f64
  gd_gamma :: f64
  gd_theta :: f64
  gd_vega :: f64
  gd_rho :: f64
  gd_vanna :: "f64 option"
  gd_vomma :: "f64 option"
  gd_charm :: "f64 option"
  gd_color :: "f64 option"

record greeks_response =
  gr_symbol :: string
  gr_greeks :: greeks_data
  gr_iv :: f64
  gr_theoretical_value :: f64
  gr_timestamp_ms :: u64

definition greeks_data_default :: greeks_data where
  "greeks_data_default =
     \<lparr>gd_delta = Fin 0, gd_gamma = Fin 0, gd_theta = Fin 0, gd_vega = Fin 0, gd_rho = Fin 0,
      gd_vanna = None, gd_vomma = None, gd_charm = None, gd_color = None\<rparr>"

text \<open>
  The arguments of \<open>Options::new\<close> (a long European option with an expiration in days), the
  greeks optionstratlib computes, and what is used of the library. \<open>'p\<close> is \<open>Positive\<close> and
  \<open>'d\<close> is \<open>Decimal\<close>.
\<close>

record ('p, 'd) option_spec =
  os_underlying :: string
  os_strike :: 'p
  os_days :: 'p
  os_iv :: 'p
  os_quantity :: 'p
  os_spot :: 'p
  os_risk_free :: 'd
  os_style :: opt_style
  os_dividend_yield :: 'p

record 'd lib_greeks =
  lg_delta :: 'd
  lg_gamma :: 'd
  lg_theta :: 'd
  lg_vega :: 'd
  lg_rho :: 'd
  lg_vanna :: 'd
  lg_vomma :: 'd
  lg_charm :: 'd
  lg_color :: 'd

record ('p, 'd) greeks_lib =
  gl_positive :: "f64 \<Rightarrow> 'p option"
  gl_from_f64 :: "f64 \<Rightarrow> 'd option"
  gl_default :: 'd
  gl_to_f64 :: "'d \<Rightarrow> f64 option"
  gl_greeks :: "('p, 'd) option_spec \<Rightarrow> string + 'd lib_greeks"
  gl_price :: "('p, 'd) option_spec \<Rightarrow> string + 'd"

definition or_zero :: "f64 option \<Rightarrow> f64" where
  "or_zero x = (case x of Some v \<Rightarrow> v | None \<Rightarrow> Fin 0)"

definition positive_or :: "string \<Rightarrow> 'p option \<Rightarrow> api_error + 'p" where
  "positive_or message x = (case x of Some p \<Rightarrow> Inr p | None \<Rightarrow> Inl (InvalidRequest message))"

definition greeks_spec ::
  "('p, 'd) greeks_lib \<Rightarrow> string \<Rightarrow> u64 \<Rightarrow> u64 \<Rightarrow> int \<Rightarrow> opt_style \<Rightarrow> api_error + ('p, 'd) option_spec" where
  "greeks_spec G u strike spot num_days style =
     (case positive_or ''invalid time to expiry'' (gl_positive G (f_of_int (max 1 num_days))) of
        Inl e \<Rightarrow> Inl e
      | Inr days \<Rightarrow>
     (case positive_or ''Invalid spot price'' (gl_positive G (f_of_u64 spot)) of
        Inl e \<Rightarrow> Inl e
      | Inr spot_pos \<Rightarrow>
     (case positive_or ''Invalid strike price'' (gl_positive G (f_of_u64 strike)) of
        Inl e \<Rightarrow> Inl e
      | Inr strike_pos \<Rightarrow>
     (case positive_or ''Invalid IV'' (gl_positive G (f_lit (3 / 10))) of
        Inl e \<Rightarrow> Inl e
      | Inr iv_pos \<Rightarrow>
     (case positive_or ''Invalid quantity'' (gl_positive G (f_lit 1)) of
        Inl e \<Rightarrow> Inl e
      | Inr quantity_pos \<Rightarrow>
     (case positive_or ''Invalid dividend yield'' (gl_positive G (f_lit 0)) of
        Inl e \<Rightarrow> Inl e
      | Inr dividend_yield \<Rightarrow>
          Inr \<lparr>os_underlying = u, os_strike = strike_pos, os_days = days, os_iv = iv_pos,
               os_quantity = quantity_pos, os_spot = spot_pos,
               os_risk_free = (case gl_from_f64 G (f_lit (5 / 100)) of Some d \<Rightarrow> d | None \<Rightarrow> gl_default G),
               os_style = style, os_dividend_yield = dividend_yield\<rparr>))))))"

definition greeks_data_of :: "('p, 'd) greeks_lib \<Rightarrow> 'd lib_greeks \<Rightarrow> greeks_data" where
  "greeks_data_of G g =
     \<lparr>gd_delta = or_zero (gl_to_f64 G (lg_delta g)), gd_gamma = or_zero (gl_to_f64 G (lg_gamma g)),
      gd_theta = or_zero (gl_to_f64 G (lg_theta g)), gd_vega = or_zero (gl_to_f64 G (lg_vega g)),
      gd_rho = or_zero (gl_to_f64 G (lg_rho g)), gd_vanna = Some (or_zero (gl_to_f64 G (lg_vanna g))),
      gd_vomma = Some (or_zero (gl_to_f64 G (lg_vomma g))), gd_charm = Some (or_zero (gl_to_f64 G (lg_charm g))),
      gd_color = Some (or_zero (gl_to_f64 G (lg_color g)))\<rparr>"

text \<open>
  The handler. \<open>num_days e\<close> is the number of whole days from now to the date of \<open>e\<close>;
  \<open>sim_price\<close> is the spot of the simulator, if there is one.
\<close>

definition get_option_greeks ::
  "('m, 'o) exchange \<Rightarrow> ('p, 'd) greeks_lib \<Rightarrow> (expiration \<Rightarrow> int) \<Rightarrow> (string \<Rightarrow> u64 option) \<Rightarrow> u64
   \<Rightarrow> string \<Rightarrow> string \<Rightarrow> u64 \<Rightarrow> string \<Rightarrow> 'm \<Rightarrow> api_error + greeks_response" where
  "get_option_greeks X G num_days sim_price now_ms u exp_str strike style m =
     (case parse_option_style style of
        Inl err \<Rightarrow> Inl err
      | Inr option_style \<Rightarrow>
     (case resolve_book X m u exp_str strike option_style of
        Inl err \<Rightarrow> Inl err
      | Inr (_, e, _, _) \<Rightarrow>
          (let symbol = option_symbol u exp_str strike option_style;
               spot_price = (case sim_price u of Some s \<Rightarrow> s | None \<Rightarrow> strike)
           in case x_exp_ymd X e of
                None \<Rightarrow> Inl (InvalidRequest ''Failed to parse expiration date'')
              | Some _ \<Rightarrow>
          (case greeks_spec G u strike spot_price (num_days e) option_style of
             Inl err \<Rightarrow> Inl err
           | Inr spec \<Rightarrow>
          (case gl_greeks G spec of
             Inl _ \<Rightarrow> Inl (Internal ''failed to compute greeks'')
           | Inr greek \<Rightarrow>
               (let theoretical_value = (case gl_price G spec of Inr d \<Rightarrow> d | Inl _ \<Rightarrow> gl_default G)
                in Inr \<lparr>gr_symbol = symbol, gr_greeks = greeks_data_of G greek, gr_iv = f_lit (3 / 10),
                        gr_theoretical_value = or_zero (gl_to_f64 G theoretical_value),
                        gr_timestamp_ms = now_ms\<rparr>))))))"

section \<open>Enriched snapshots and metrics\<close>

record price_level_info =
  pli_price :: u128
  pli_quantity :: u64
  pli_order_count :: nat

record snapshot_stats =
  ss_mid_price :: "f64 option"
  ss_spread_bps :: "f64 option"
  ss_bid_depth_total :: u64
  ss_ask_depth_total :: u64
  ss_imbalance :: f64
  ss_vwap_bid :: "f64 option"
  ss_vwap_ask :: "f64 option"

record enriched_snapshot_response =
  es_symbol :: string
  es_sequence :: u64
  es_timestamp_ms :: u64
  es_bids :: "price_level_info list"
  es_asks :: "price_level_info list"
  es_stats :: snapshot_stats

record spread_metrics =
  sp_current :: "u64 option"
  sp_spread_bps :: "f64 option"

record depth_metrics =
  dp_bid_depth_total :: u64
  dp_ask_depth_total :: u64
  dp_imbalance :: f64

record price_metrics =
  pm_mid_price :: "f64 option"
  pm_micro_price :: "f64 option"
  pm_vwap_bid :: "f64 option"
  pm_vwap_ask :: "f64 option"

record impact_metrics =
  im_avg_price :: "f64 option"
  im_slippage_bps :: "f64 option"

record market_impact_metrics =
  mi_buy_100 :: impact_metrics
  mi_sell_100 :: impact_metrics

record orderbook_metrics_response =
  om_symbol :: string
  om_timestamp_ms :: u64
  om_spread :: spread_metrics
  om_depth :: depth_metrics
  om_prices :: price_metrics
  om_market_impact :: market_impact_metrics

text \<open>
  What orderbook_rs reports of a book at a depth: its levels (price, visible quantity, orders),
  the statistics and a timestamp; the micro price; and the average price and slippage of
  taking a quantity.
\<close>

record enriched =
  en_timestamp :: u64
  en_bids :: "(u128 \<times> u64 \<times> nat) list"
  en_asks :: "(u128 \<times> u64 \<times> nat) list"
  en_stats :: snapshot_stats

record 'm metrics_lib =
  ml_enriched :: "'m \<Rightarrow> book_key \<Rightarrow> nat \<Rightarrow> enriched"
  ml_micro_price :: "'m \<Rightarrow> book_key \<Rightarrow> f64 option"
  ml_market_impact :: "'m \<Rightarrow> book_key \<Rightarrow> u64 \<Rightarrow> book_side \<Rightarrow> f64 \<times> f64"

definition underscore_symbol :: "('m, 'o) exchange \<Rightarrow> string \<Rightarrow> expiration \<Rightarrow> u64 \<Rightarrow> opt_style \<Rightarrow> string" where
  "underscore_symbol X u e strike style =
     u @ ''_'' @ format_expiration X e @ ''_'' @ show_word strike @ ''_'' @ style_char style"

definition level_info :: "u128 \<times> u64 \<times> nat \<Rightarrow> price_level_info" where
  "level_info l = (let (p, q, n) = l in \<lparr>pli_price = p, pli_quantity = q, pli_order_count = n\<rparr>)"

definition snapshot_query_depth :: "string option \<Rightarrow> api_error + snapshot_depth" where
  "snapshot_query_depth depth =
     (case snapshot_depth_from_str (case depth of Some d \<Rightarrow> d | None \<Rightarrow> ''top'') of
        Inl e \<Rightarrow> Inl (InvalidRequest e)
      | Inr d \<Rightarrow> Inr d)"

definition get_option_snapshot ::
  "('m, 'o) exchange \<Rightarrow> 'm metrics_lib \<Rightarrow> string \<Rightarrow> string \<Rightarrow> u64 \<Rightarrow> string \<Rightarrow> string option \<Rightarrow> 'm
   \<Rightarrow> api_error + enriched_snapshot_response" where
  "get_option_snapshot X M u exp_str strike style depth m =
     (case parse_option_style style of
        Inl err \<Rightarrow> Inl err
      | Inr option_style \<Rightarrow>
     (case snapshot_query_depth depth of
        Inl err \<Rightarrow> Inl err
      | Inr d \<Rightarrow>
     (case resolve_book X m u exp_str strike option_style of
        Inl err \<Rightarrow> Inl err
      | Inr (u', e, k, os) \<Rightarrow>
          (let enriched = ml_enriched M m (u', e, k, os) (snapshot_depth_to_usize d)
           in Inr \<lparr>es_symbol = underscore_symbol X u e strike option_style, es_sequence = en_timestamp enriched,
                   es_timestamp_ms = en_timestamp enriched, es_bids = map level_info (en_bids enriched),
                   es_asks = map level_info (en_asks enriched), es_stats = en_stats enriched\<rparr>))))"

fun first_price :: "(u128 \<times> u64 \<times> nat) list \<Rightarrow> u128 option" where
  "first_price [] = None"
| "first_price (l # _) = Some (fst l)"

definition current_spread :: "u128 option \<Rightarrow> u128 option \<Rightarrow> u128 option" where
  "current_spread best_bid best_ask =
     (case (best_bid, best_ask) of
        (Some bid, Some ask) \<Rightarrow> if bid < ask then Some (ask - bid) else None
      | _ \<Rightarrow> None)"

definition impact_of :: "f64 \<times> f64 \<Rightarrow> impact_metrics" where
  "impact_of i = (let (avg_price, slippage_bps) = i
     in \<lparr>im_avg_price = Some avg_price, im_slippage_bps = Some slippage_bps\<rparr>)"

definition get_orderbook_metrics ::
  "('m, 'o) exchange \<Rightarrow> 'm metrics_lib \<Rightarrow> u64 \<Rightarrow> string \<Rightarrow> string \<Rightarrow> u64 \<Rightarrow> string \<Rightarrow> 'm
   \<Rightarrow> api_error + orderbook_metrics_response" where
  "get_orderbook_metrics X M now_ms u exp_str strike style m =
     (case parse_option_style style of
        Inl err \<Rightarrow> Inl err
      | Inr option_style \<Rightarrow>
     (case resolve_book X m u exp_str strike option_style of
        Inl err \<Rightarrow> Inl err
      | Inr (u', e, k, os) \<Rightarrow>
          (let bk = (u', e, k, os);
               enriched = ml_enriched M m bk 10; st = en_stats enriched;
               spread = current_spread (first_price (en_bids enriched)) (first_price (en_asks enriched))
           in Inr \<lparr>om_symbol = underscore_symbol X u e strike option_style, om_timestamp_ms = now_ms,
                om_spread = \<lparr>sp_current = map_option ucast spread, sp_spread_bps = ss_spread_bps st\<rparr>,
                om_depth = \<lparr>dp_bid_depth_total = ss_bid_depth_total st, dp_ask_depth_total = ss_ask_depth_total st,
                  dp_imbalance = ss_imbalance st\<rparr>,
                om_prices = \<lparr>pm_mid_price = ss_mid_price st, pm_micro_price = ml_micro_price M m bk,
                  pm_vwap_bid = ss_vwap_bid st, pm_vwap_ask = ss_vwap_ask st\<rparr>,
                om_market_impact = \<lparr>mi_buy_100 = impact_of (ml_market_impact M m bk 100 BookBuy),
                  mi_sell_100 = impact_of (ml_market_impact M m bk 100 BookSell)\<rparr>\<rparr>)))"

section \<open>The surface holds exactly what the books support\<close>

lemma dm_get_fold_insert:
  "dm_get (fold (\<lambda>x. dm_insert (g x) (h x)) xs m) k
     = (case find (\<lambda>x. g x = k) (rev xs) of Some x \<Rightarrow> Some (h x) | None \<Rightarrow> dm_get m k)"
proof (induction xs rule: rev_induct)
  case (snoc x xs)
  then show ?case by (simp add: store_simps)
qed simp

text \<open>An expiration the sweep reads, and what it collects there.\<close>

definition readable_expiration :: "('m, 'o) exchange \<Rightarrow> 'm \<Rightarrow> string \<Rightarrow> expiration \<Rightarrow> bool" where
  "readable_expiration X m u e \<longleftrightarrow> x_exp_ymd X e \<noteq> None \<and> x_get_expiration X m u e = Inr ()"

definition inputs_of ::
  "('m, 'o) exchange \<Rightarrow> 'm book_stats \<Rightarrow> (expiration \<Rightarrow> int) \<Rightarrow> 'm \<Rightarrow> string \<Rightarrow> u64 option \<Rightarrow> expiration \<Rightarrow> expiration_inputs" where
  "inputs_of X H num_days m u spot e =
     \<lparr>ei_exp_str = the (x_exp_ymd X e), ei_days_to_expiry = days_floor (num_days e),
      ei_atm_strike = atm_strike (map_option ucast spot) (x_strikes X m u e),
      ei_rows = map (strike_mids_of H m u e) (filter (\<lambda>k. x_get_strike X m u e k = Inr ()) (x_strikes X m u e))\<rparr>"

lemma inputs_of_fields:
  "ei_exp_str (inputs_of X H nd m u spot e) = the (x_exp_ymd X e)"
  "ei_days_to_expiry (inputs_of X H nd m u spot e) = days_floor (nd e)"
  "ei_atm_strike (inputs_of X H nd m u spot e) = atm_strike (map_option ucast spot) (x_strikes X m u e)"
  by (simp_all add: inputs_of_def)

lemma collect_fold:
  "fold (collect_expiration X H nd m u spot) es (a, c)
     = (a @ concat (map (x_strikes X m u) (filter (readable_expiration X m u) es)),
        c @ map (inputs_of X H nd m u spot) (filter (readable_expiration X m u) es))"
proof (induction es arbitrary: a c)
  case (Cons e es)
  have "collect_expiration X H nd m u spot e (a, c)
      = (if readable_expiration X m u e then (a @ x_strikes X m u e, c @ [inputs_of X H nd m u spot e]) else (a, c))"
    by (auto simp: collect_expiration_def readable_expiration_def inputs_of_def Let_def split: option.splits sum.splits)
  then show ?case by (simp add: Cons.IH)
qed simp

lemma sweep_fold:
  "fold (sweep_expiration L u spot) is (s, t, x)
     = (fold (\<lambda>i. dm_insert (ei_exp_str i) (expiration_surface L u spot i)) is s,
        t @ concat (map (atm_points L u spot) is), x @ map ei_exp_str is)"
  by (induction "is" arbitrary: s t x) (simp_all add: sweep_expiration_def)

lemma compute_surface_fields:
  "vs_underlying (compute_surface X H L nd m u spot t) = u"
  "vs_spot_price (compute_surface X H L nd m u spot t) = spot"
  "vs_timestamp_ms (compute_surface X H L nd m u spot t) = t"
  "vs_expirations (compute_surface X H L nd m u spot t)
     = sort (map (\<lambda>e. the (x_exp_ymd X e)) (filter (readable_expiration X m u) (x_expirations X m u)))"
  "vs_strikes (compute_surface X H L nd m u spot t)
     = sort (remdups (concat (map (x_strikes X m u) (filter (readable_expiration X m u) (x_expirations X m u)))))"
  "vs_surface (compute_surface X H L nd m u spot t)
     = fold (\<lambda>i. dm_insert (ei_exp_str i) (expiration_surface L u spot i))
         (map (inputs_of X H nd m u spot) (filter (readable_expiration X m u) (x_expirations X m u))) []"
  "vs_atm_term_structure (compute_surface X H L nd m u spot t)
     = sort_key tp_days (concat (map (atm_points L u spot)
         (map (inputs_of X H nd m u spot) (filter (readable_expiration X m u) (x_expirations X m u)))))"
  by (simp_all add: compute_surface_def collect_fold sweep_fold Let_def inputs_of_def comp_def)

text \<open>
  The reading of one leg: both sides of the quote are there, the spot is known, the mid is
  below what the price of the option can reach, and the solver found a volatility below its
  ceiling for exactly these inputs.
\<close>

definition priced_leg ::
  "'p iv_lib \<Rightarrow> string \<Rightarrow> u64 option \<Rightarrow> u64 \<Rightarrow> u64 \<Rightarrow> opt_style \<Rightarrow> book_quote \<Rightarrow> f64 \<Rightarrow> bool" where
  "priced_leg L u spot days k style q iv \<longleftrightarrow>
     (\<exists>bid ask s p kp sp dp. bq_bid_price q = Some bid \<and> bq_ask_price q = Some ask \<and> spot = Some s
        \<and> (bid + ask) div 2 < asymptote_cents style s k
        \<and> iv_positive L (f_of_u128 ((bid + ask) div 2)) = Some p \<and> iv_positive L (f_of_u64 k) = Some kp
        \<and> iv_positive L (f_of_u64 s) = Some sp \<and> iv_positive L (f_of_u64 days) = Some dp
        \<and> iv_calculate L p kp style sp dp u = Inr iv \<and> \<not> f_le iv_grid_ceiling iv)"

definition leg_iv :: "opt_style \<Rightarrow> strike_iv \<Rightarrow> f64 option" where
  "leg_iv style si = (case style of OptCall \<Rightarrow> si_call_iv si | OptPut \<Rightarrow> si_put_iv si)"

lemma derive_iv_Some:
  "Option.bind (calculate_mid_price q) (\<lambda>mid. derive_iv L mid k spot days style u) = Some iv
     \<longleftrightarrow> priced_leg L u spot days k style q iv"
  by (auto simp: priced_leg_def calculate_mid_price_def derive_iv_def bind_eq_Some_conv not_le
      split: option.splits sum.splits if_splits)

lemma strike_ivs_leg:
  "leg_iv style (strike_ivs L u spot days (strike_mids_of H m u e k)) = Some iv
     \<longleftrightarrow> priced_leg L u spot days k style (hs_best_quote H m (u, e, k, style)) iv"
  by (cases style) (simp_all add: leg_iv_def strike_ivs_def strike_mids_of_def derive_iv_Some)

lemma find_map_key: "find (\<lambda>x. g x = k) (map f xs) = map_option f (find (\<lambda>x. g (f x) = k) xs)"
  by (induction xs) auto

lemma expiration_surface_get:
  "dm_get (expiration_surface L u spot (inputs_of X H nd m u spot e)) k
     = (if k \<in> set (x_strikes X m u e) \<and> x_get_strike X m u e k = Inr ()
        then Some (strike_ivs L u spot (days_floor (nd e)) (strike_mids_of H m u e k)) else None)"
proof -
  let ?ks = "filter (\<lambda>k. x_get_strike X m u e k = Inr ()) (x_strikes X m u e)"
  have "find (\<lambda>j. j = k) (rev ?ks) = (if k \<in> set ?ks then Some k else None)"
    by (cases "find (\<lambda>j. j = k) (rev ?ks)") (auto simp: find_None_iff dest!: find_Some_in)
  moreover have "sm_strike (strike_mids_of H m u e j) = j" for j
    by (simp add: strike_mids_of_def)
  ultimately show ?thesis
    by (simp add: expiration_surface_def dm_get_fold_insert inputs_of_def rev_map find_map_key)
qed

lemma surface_get:
  assumes "dm_get (vs_surface (compute_surface X H L nd m u spot t)) d = Some s"
  obtains e where "e \<in> set (x_expirations X m u)" "readable_expiration X m u e" "x_exp_ymd X e = Some d"
    "s = expiration_surface L u spot (inputs_of X H nd m u spot e)"
proof -
  let ?es = "filter (readable_expiration X m u) (x_expirations X m u)"
  from assms obtain e where "find (\<lambda>e. the (x_exp_ymd X e) = d) (rev ?es) = Some e"
    and s: "s = expiration_surface L u spot (inputs_of X H nd m u spot e)"
    by (auto simp: compute_surface_fields dm_get_fold_insert rev_map find_map_key inputs_of_fields split: option.splits)
  then have "e \<in> set ?es \<and> the (x_exp_ymd X e) = d" by (auto dest!: find_Some_in)
  then show thesis by (intro that [of e] s) (auto simp: readable_expiration_def)
qed

lemma surface_get_unique:
  assumes e: "e \<in> set (x_expirations X m u)" "readable_expiration X m u e" "x_exp_ymd X e = Some d"
    and unique: "\<And>e'. e' \<in> set (x_expirations X m u) \<Longrightarrow> readable_expiration X m u e' \<Longrightarrow> x_exp_ymd X e' = Some d \<Longrightarrow> e' = e"
  shows "dm_get (vs_surface (compute_surface X H L nd m u spot t)) d
     = Some (expiration_surface L u spot (inputs_of X H nd m u spot e))"
proof (cases "dm_get (vs_surface (compute_surface X H L nd m u spot t)) d")
  case None
  let ?es = "filter (readable_expiration X m u) (x_expirations X m u)"
  from None have "find (\<lambda>e. the (x_exp_ymd X e) = d) (rev ?es) = None"
    by (auto simp: compute_surface_fields dm_get_fold_insert rev_map find_map_key inputs_of_fields split: option.splits)
  with e show ?thesis by (auto simp: find_None_iff)
next
  case (Some s)
  from Some show ?thesis by (rule surface_get) (use unique Some in auto)
qed

text \<open>
  C28. The surface is sound: every volatility in it is read from a two-sided quote of a listed
  strike of a listed expiration of that date, with the days to that expiration and the spot,
  and lies below the ceiling of the solver. Nothing is filled in where a quote is one-sided.
\<close>

theorem volatility_surface_sound:
  assumes "dm_get (vs_surface (compute_surface X H L nd m u spot t)) d = Some s"
    and "dm_get s k = Some row" and "leg_iv style row = Some iv"
  shows "\<exists>e \<in> set (x_expirations X m u). x_exp_ymd X e = Some d \<and> x_get_expiration X m u e = Inr ()
     \<and> k \<in> set (x_strikes X m u e) \<and> x_get_strike X m u e k = Inr ()
     \<and> priced_leg L u spot (days_floor (nd e)) k style (hs_best_quote H m (u, e, k, style)) iv"
  using assms(1)
proof (rule surface_get)
  fix e
  assume e: "e \<in> set (x_expirations X m u)" "readable_expiration X m u e" "x_exp_ymd X e = Some d"
    and s: "s = expiration_surface L u spot (inputs_of X H nd m u spot e)"
  from assms(2) s have k: "k \<in> set (x_strikes X m u e)" "x_get_strike X m u e k = Inr ()"
    and row: "row = strike_ivs L u spot (days_floor (nd e)) (strike_mids_of H m u e k)"
    by (auto simp: expiration_surface_get split: if_splits)
  have "priced_leg L u spot (days_floor (nd e)) k style (hs_best_quote H m (u, e, k, style)) iv"
    using assms(3) unfolding row strike_ivs_leg .
  with e k show ?thesis by (auto simp: readable_expiration_def)
qed

text \<open>
  The surface is complete: when no two readable expirations share a date, every listed strike
  of a readable expiration has its row, and a leg has a volatility exactly when it can be
  read off its quote.
\<close>

theorem volatility_surface_complete:
  assumes e: "e \<in> set (x_expirations X m u)" "x_exp_ymd X e = Some d" "x_get_expiration X m u e = Inr ()"
    and unique: "inj_on (x_exp_ymd X) {e \<in> set (x_expirations X m u). readable_expiration X m u e}"
    and k: "k \<in> set (x_strikes X m u e)" "x_get_strike X m u e k = Inr ()"
  obtains s row where "dm_get (vs_surface (compute_surface X H L nd m u spot t)) d = Some s" "dm_get s k = Some row"
    and "\<And>style iv. leg_iv style row = Some iv
           \<longleftrightarrow> priced_leg L u spot (days_floor (nd e)) k style (hs_best_quote H m (u, e, k, style)) iv"
proof -
  have readable: "readable_expiration X m u e" using e by (simp add: readable_expiration_def)
  have "e' = e" if "e' \<in> set (x_expirations X m u)" "readable_expiration X m u e'" "x_exp_ymd X e' = Some d" for e'
    by (rule inj_onD [OF unique]) (use that e readable in auto)
  then have "dm_get (vs_surface (compute_surface X H L nd m u spot t)) d
      = Some (expiration_surface L u spot (inputs_of X H nd m u spot e))"
    by (rule surface_get_unique [OF e(1) readable e(2)])
  then show thesis
    using that [where row = "strike_ivs L u spot (days_floor (nd e)) (strike_mids_of H m u e k)"]
    by (simp add: expiration_surface_get k strike_ivs_leg)
qed

lemma iv_or_Some:
  "iv_or row = Some iv \<longleftrightarrow> leg_iv OptCall row = Some iv \<or> leg_iv OptCall row = None \<and> leg_iv OptPut row = Some iv"
  by (auto simp: iv_or_def leg_iv_def split: option.splits)

lemma atm_strike_nearest:
  assumes "atm_strike (Some s) ks = Some k"
  shows "k \<in> set ks" and "k' \<in> set ks \<Longrightarrow> strike_distance s k \<le> strike_distance s k'"
  using assms by (auto simp: atm_strike_def f_arg_min_list_f arg_min_list_in split: if_splits)

text \<open>
  The term structure: its points are in the order of their days, and each is the call
  volatility, or the put volatility when the call has none, of the listed strike nearest to
  a known spot.
\<close>

theorem atm_term_structure_sound:
  assumes "p \<in> set (vs_atm_term_structure (compute_surface X H L nd m u spot t))"
  shows "\<exists>e k s. e \<in> set (x_expirations X m u) \<and> x_exp_ymd X e = Some (tp_expiration p)
     \<and> tp_days p = days_floor (nd e) \<and> spot = Some s \<and> k \<in> set (x_strikes X m u e)
     \<and> (\<forall>k' \<in> set (x_strikes X m u e). strike_distance (ucast s) k \<le> strike_distance (ucast s) k')
     \<and> (\<exists>style. priced_leg L u spot (tp_days p) k style (hs_best_quote H m (u, e, k, style)) (tp_iv p))"
proof -
  from assms obtain e where e: "e \<in> set (x_expirations X m u)" "readable_expiration X m u e"
    and p: "p \<in> set (atm_points L u spot (inputs_of X H nd m u spot e))"
    by (auto simp: compute_surface_fields)
  from p obtain k row where atm: "atm_strike (map_option ucast spot) (x_strikes X m u e) = Some k"
    and row: "dm_get (expiration_surface L u spot (inputs_of X H nd m u spot e)) k = Some row"
    and iv: "iv_or row = Some (tp_iv p)"
    and p': "tp_expiration p = the (x_exp_ymd X e)" "tp_days p = days_floor (nd e)"
    by (auto simp: atm_points_def inputs_of_fields bind_eq_Some_conv split: option.splits dest!: sym [where s = "Some _"])
  from atm obtain s where spot: "spot = Some s" by (cases spot) (simp_all add: atm_strike_def)
  from row have "row = strike_ivs L u spot (tp_days p) (strike_mids_of H m u e k)"
    by (simp add: expiration_surface_get p' split: if_splits)
  with iv have "\<exists>style. priced_leg L u spot (tp_days p) k style (hs_best_quote H m (u, e, k, style)) (tp_iv p)"
    unfolding iv_or_Some by (auto simp: strike_ivs_leg)
  with e p' atm_strike_nearest [OF atm [unfolded spot option.map]] spot show ?thesis
    by (auto simp: readable_expiration_def)
qed

lemma surface_lists:
  "sorted (map tp_days (vs_atm_term_structure (compute_surface X H L nd m u spot t)))"
  "sorted (vs_expirations (compute_surface X H L nd m u spot t))"
  "sorted (vs_strikes (compute_surface X H L nd m u spot t)) \<and> distinct (vs_strikes (compute_surface X H L nd m u spot t))"
  by (simp_all add: compute_surface_fields)

text \<open>
  Two books of one date, one keyed by a number of days and one by an instant, share one entry
  of the surface, while the date is listed once for each of them.
\<close>

lemma shared_date_listed_twice:
  assumes "x_expirations X m u = [e1, e2]" and "x_exp_ymd X e1 = Some d" "x_exp_ymd X e2 = Some d"
    and "x_get_expiration X m u e1 = Inr ()" "x_get_expiration X m u e2 = Inr ()"
  shows "vs_expirations (compute_surface X H L nd m u spot t) = [d, d]"
    and "dm_get (vs_surface (compute_surface X H L nd m u spot t)) d
      = Some (expiration_surface L u spot (inputs_of X H nd m u spot e2))"
  using assms by (simp_all add: compute_surface_fields readable_expiration_def store_simps inputs_of_fields)

section \<open>The cache of surfaces\<close>

text \<open>A cached surface is a surface of its key, computed at the spot it is filed with.\<close>

definition surface_cache_ok :: "(string, cached_surface) dashmap \<Rightarrow> bool" where
  "surface_cache_ok cache \<longleftrightarrow>
     (\<forall>u c. dm_get cache u = Some c \<longrightarrow> vs_underlying (cs_response c) = u \<and> vs_spot_price (cs_response c) = cs_spot c)"

text \<open>One request, with the books, the spot prices and the clocks it meets.\<close>

record 'm surface_request =
  sr_manager :: 'm
  sr_spot :: "string \<Rightarrow> u64 option"
  sr_join_error :: "string option"
  sr_now_ms :: u64
  sr_done_ms :: u64
  sr_underlying :: string

definition serve_surface ::
  "('m, 'o) exchange \<Rightarrow> 'm book_stats \<Rightarrow> 'p iv_lib \<Rightarrow> (expiration \<Rightarrow> int) \<Rightarrow> 'm surface_request
   \<Rightarrow> (string, cached_surface) dashmap \<Rightarrow> (string, cached_surface) dashmap \<times> (api_error + surface_response)" where
  "serve_surface X H L nd rq cache =
     get_volatility_surface X H L nd (sr_spot rq) (sr_join_error rq) (sr_now_ms rq) (sr_done_ms rq)
       (sr_underlying rq) (sr_manager rq) cache"

lemma volatility_surface_cases:
  assumes "get_volatility_surface X H L nd sp je now dn u m cache = (cache', res)"
  obtains (missing) "x_get X m u \<noteq> Inr ()" "cache' = cache" "res = Inl (UnderlyingNotFound u)"
  | (hit) c where "dm_get cache u = Some c" "cs_spot c = sp u"
      "saturating_sub now (vs_timestamp_ms (cs_response c)) < surface_cache_ttl_ms" "cache' = cache" "res = Inr (cs_response c)"
  | (failed) err where "je = Some err" "cache' = cache" "res = Inl (Internal (''volatility surface computation failed: '' @ err))"
  | (computed) r where "r = compute_surface X H L nd m u (sp u) dn" "je = None" "res = Inr r"
      "cache' = dm_insert u \<lparr>cs_spot = sp u, cs_response = r\<rparr> cache"
proof (cases "x_get X m u = Inr ()")
  case False
  then show thesis using assms by (intro missing) (auto simp: get_volatility_surface_def split: sum.splits)
next
  case True
  define fresh where "fresh c \<longleftrightarrow> cs_spot c = sp u \<and> saturating_sub now (vs_timestamp_ms (cs_response c)) < surface_cache_ttl_ms" for c :: cached_surface
  show thesis
  proof (cases "\<exists>c. dm_get cache u = Some c \<and> fresh c")
    case hit': True
    then obtain c where c: "dm_get cache u = Some c" "fresh c" by blast
    with assms True show thesis
      by (intro hit [of c]) (simp_all add: get_volatility_surface_def fresh_def Let_def)
  next
    case miss: False
    then have "(case dm_get cache u of None \<Rightarrow> None | Some c \<Rightarrow> if fresh c then Some (cs_response c) else None) = None"
      by (simp split: option.splits)
    then have step: "(cache', res) = (case je of
        Some e \<Rightarrow> (cache, Inl (Internal (''volatility surface computation failed: '' @ e)))
      | None \<Rightarrow> (dm_insert u \<lparr>cs_spot = sp u, cs_response = compute_surface X H L nd m u (sp u) dn\<rparr> cache,
          Inr (compute_surface X H L nd m u (sp u) dn)))"
      using assms True unfolding get_volatility_surface_def Let_def fresh_def
      by (simp only: sum.case option.case)
    show thesis
    proof (cases je)
      case None
      with step show thesis by (intro computed [OF refl]) simp_all
    next
      case (Some e)
      with step show thesis by (intro failed) simp_all
    qed
  qed
qed

lemma surface_cache_step:
  "surface_cache_ok cache \<Longrightarrow> surface_cache_ok (fst (serve_surface X H L nd rq cache))"
proof -
  assume ok: "surface_cache_ok cache"
  obtain cache' res where step: "serve_surface X H L nd rq cache = (cache', res)" by (cases "serve_surface X H L nd rq cache")
  from step [unfolded serve_surface_def] have "surface_cache_ok cache'"
    by (cases rule: volatility_surface_cases) (use ok in \<open>auto simp: surface_cache_ok_def store_simps compute_surface_fields\<close>)
  with step show ?thesis by simp
qed

interpretation surfaces: command_machine "\<lambda>rq cache. fst (serve_surface X H L nd rq cache)" surface_cache_ok
  by unfold_locales (rule surface_cache_step)

lemma surface_cache_reachable:
  "surface_cache_ok (fold (\<lambda>rq cache. fst (serve_surface X H L nd rq cache)) rqs [])"
  by (rule surfaces.run_inv) (simp add: surface_cache_ok_def)

text \<open>
  C29. The cache is safe. After any requests, a surface is served for the underlying and at the
  spot of the request; it is either computed for this request or less than two seconds old;
  and a request that fails stores nothing.
\<close>

theorem volatility_surface_cache_safe:
  assumes "cache = fold (\<lambda>rq cache. fst (serve_surface X H L nd rq cache)) rqs []"
    and "get_volatility_surface X H L nd spot je now dn u m cache = (cache', res)"
  shows "case res of
     Inl e \<Rightarrow> cache' = cache
   | Inr r \<Rightarrow> vs_underlying r = u \<and> vs_spot_price r = spot u
       \<and> dm_get cache' u = Some \<lparr>cs_spot = spot u, cs_response = r\<rparr>
       \<and> (r = compute_surface X H L nd m u (spot u) dn
          \<or> cache' = cache \<and> uint now - uint (vs_timestamp_ms r) < 2000)"
proof -
  have ok: "surface_cache_ok cache" unfolding assms(1) by (rule surface_cache_reachable)
  from assms(2) show ?thesis
  proof (cases rule: volatility_surface_cases)
    case (hit c)
    have "uint now - uint (vs_timestamp_ms (cs_response c)) < 2000"
      using hit(3) by (auto simp: surface_cache_ttl_ms_def word_less_def uint_saturating_sub)
    with hit ok [unfolded surface_cache_ok_def, rule_format, OF hit(1)] show ?thesis by (cases c) auto
  qed (auto simp: store_simps compute_surface_fields)
qed

section \<open>Greeks and metrics come from the library or not at all\<close>

text \<open>
  Greeks are served only for a listed strike of a dated expiration, for at least one day,
  and are the ones the library computed.
\<close>

lemma greeks_of_listed_strike:
  assumes "get_option_greeks X G nd sp now u s k style m = Inr r"
  obtains os e spec g where "parse_option_style style = Inr os" "resolve_book X m u s k os = Inr (u, e, k, os)"
    "x_exp_ymd X e \<noteq> None"
    "greeks_spec G u k (case sp u of Some p \<Rightarrow> p | None \<Rightarrow> k) (nd e) os = Inr spec"
    "gl_greeks G spec = Inr g" "gr_greeks r = greeks_data_of G g"
    "gr_theoretical_value r = or_zero (gl_to_f64 G (case gl_price G spec of Inr d \<Rightarrow> d | Inl _ \<Rightarrow> gl_default G))"
proof -
  from assms obtain os bk where os: "parse_option_style style = Inr os" and bk: "resolve_book X m u s k os = Inr bk"
    by (auto simp: get_option_greeks_def split: sum.splits)
  from bk obtain e where e: "bk = (u, e, k, os)" by (rule resolve_book_Inr)
  let ?spec = "greeks_spec G u k (case sp u of Some p \<Rightarrow> p | None \<Rightarrow> k) (nd e) os"
  from assms obtain d where date: "x_exp_ymd X e = Some d"
    by (simp add: get_option_greeks_def os bk e Let_def split: option.splits)
  with assms obtain spec where spec: "?spec = Inr spec"
    by (cases ?spec) (simp_all add: get_option_greeks_def os bk e Let_def)
  with assms date obtain g where g: "gl_greeks G spec = Inr g"
    by (cases "gl_greeks G spec") (simp_all add: get_option_greeks_def os bk e Let_def)
  have "Inr r = get_option_greeks X G nd sp now u s k style m" by (simp only: assms)
  also have "\<dots> = Inr \<lparr>gr_symbol = option_symbol u s k os, gr_greeks = greeks_data_of G g, gr_iv = f_lit (3 / 10),
      gr_theoretical_value = or_zero (gl_to_f64 G (case gl_price G spec of Inr d \<Rightarrow> d | Inl _ \<Rightarrow> gl_default G)),
      gr_timestamp_ms = now\<rparr>"
    using spec by (simp add: get_option_greeks_def os bk e date g Let_def)
  finally show thesis
    using os bk [unfolded e] date spec g by (intro that [of os e spec g]) simp_all
qed

text \<open>
  A failed pricing next to successful greeks is not an error: the theoretical value is the
  library's default number, read as an \<open>f64\<close>.
\<close>

lemma failed_price_is_default:
  assumes "get_option_greeks X G nd sp now u s k style m = Inr r" and "\<And>spec. \<exists>e. gl_price G spec = Inl e"
  shows "gr_theoretical_value r = or_zero (gl_to_f64 G (gl_default G))"
proof -
  from assms(1) obtain spec where
    r: "gr_theoretical_value r = or_zero (gl_to_f64 G (case gl_price G spec of Inr d \<Rightarrow> d | Inl _ \<Rightarrow> gl_default G))"
    by (rule greeks_of_listed_strike)
  from assms(2) obtain e where "gl_price G spec = Inl e" by blast
  then show ?thesis by (simp add: r)
qed

lemma metrics_spread:
  assumes "get_orderbook_metrics X M now u s k style m = Inr r" and "sp_current (om_spread r) = Some w"
  obtains bk bid ask where "first_price (en_bids (ml_enriched M m bk 10)) = Some bid"
    "first_price (en_asks (ml_enriched M m bk 10)) = Some ask" "bid < ask" "w = ucast (ask - bid)"
  using assms by (auto simp: get_orderbook_metrics_def Let_def current_spread_def split: sum.splits option.splits if_splits)

text \<open>
  The cast of the spread to 64 bits drops the high bits: an ask of \<open>2 ^ 64 + 1\<close> over a bid of 1
  is reported as a spread of 0.
\<close>

lemma wide_spread_reads_zero:
  "map_option ucast (current_spread (Some 1) (Some (2 ^ 64 + 1))) = Some (0 :: u64)"
  by (simp add: current_spread_def)

text \<open>The sequence number of an enriched snapshot is its timestamp.\<close>

lemma snapshot_sequence_is_time:
  "get_option_snapshot X M u s k style depth m = Inr r \<Longrightarrow> es_sequence r = es_timestamp_ms r"
  by (auto simp: get_option_snapshot_def Let_def split: sum.splits prod.splits)

section \<open>Witnesses\<close>

definition demo_iv :: "f64 iv_lib" where
  "demo_iv = \<lparr>iv_positive = (\<lambda>x. Some x), iv_calculate = (\<lambda>_ _ _ _ _ _. Inr (Fin (1 / 4)))\<rparr>"

lemma quarter_below_ceiling: "\<not> f_le iv_grid_ceiling (Fin (1 / 4))"
proof -
  have "f_le (round_f64 (1 / 2)) iv_grid_ceiling"
    unfolding iv_grid_ceiling_def f_lit_def by (rule round_f64_mono) simp
  moreover have "round_f64 (1 / 2) = Fin (1 / 2)"
    using round_f64_p2 [of "- 1"] by (simp add: power_int_minus)
  ultimately show ?thesis using f_le_trans [of "Fin (1 / 2)" iv_grid_ceiling "Fin (1 / 4)"] by auto
qed

definition demo_surface :: surface_response where
  "demo_surface = compute_surface demo_exchange demo_stats demo_iv (\<lambda>_. 30) demo_book ''U'' (Some 120) 5000"

lemma demo_readable: "filter (readable_expiration demo_exchange demo_book ''U'') (x_expirations demo_exchange demo_book ''U'') = [DateTime 0]"
  by (simp add: readable_expiration_def demo_fields demo_book_def)

lemma demo_leg: "priced_leg demo_iv ''U'' (Some 120) 30 100 OptCall demo_quote (Fin (1 / 4))"
  by (simp add: priced_leg_def demo_quote_def demo_iv_def quarter_below_ceiling)

lemma volatility_surface_sound_witness:
  "\<exists>e \<in> set (x_expirations demo_exchange demo_book ''U''). x_exp_ymd demo_exchange e = Some ''20300101''
     \<and> priced_leg demo_iv ''U'' (Some 120) 30 100 OptCall (hs_best_quote demo_stats demo_book (''U'', e, 100, OptCall)) (Fin (1 / 4))"
proof -
  have date: "x_exp_ymd demo_exchange (DateTime 0) = Some ''20300101''"
    and k: "x_strikes demo_exchange demo_book ''U'' (DateTime 0) = [100]"
      "x_get_strike demo_exchange demo_book ''U'' (DateTime 0) 100 = Inr ()"
    by (simp_all add: demo_fields demo_book_def)
  let ?s = "expiration_surface demo_iv ''U'' (Some 120) (inputs_of demo_exchange demo_stats (\<lambda>_. 30) demo_book ''U'' (Some 120) (DateTime 0))"
  let ?row = "strike_ivs demo_iv ''U'' (Some 120) (days_floor 30) (strike_mids_of demo_stats demo_book ''U'' (DateTime 0) 100)"
  have s: "dm_get (vs_surface (compute_surface demo_exchange demo_stats demo_iv (\<lambda>_. 30) demo_book ''U'' (Some 120) 5000)) ''20300101'' = Some ?s"
    by (simp add: compute_surface_fields demo_readable store_simps inputs_of_fields date)
  have row: "dm_get ?s 100 = Some ?row"
    by (simp add: expiration_surface_get k)
  have days: "days_floor 30 = 30" by (simp add: days_floor_def)
  have "leg_iv OptCall ?row = Some (Fin (1 / 4))"
    unfolding strike_ivs_leg days using demo_leg by (simp add: demo_stats_def)
  from volatility_surface_sound [OF s row this] show ?thesis by (simp add: days) blast
qed

lemma volatility_surface_cache_safe_witness:
  "get_volatility_surface demo_exchange demo_stats demo_iv (\<lambda>_. 30) (\<lambda>_. Some 120) None 6000 7000 ''U'' demo_book
     (fold (\<lambda>rq cache. fst (serve_surface demo_exchange demo_stats demo_iv (\<lambda>_. 30) rq cache))
       [\<lparr>sr_manager = demo_book, sr_spot = \<lambda>_. Some 120, sr_join_error = None, sr_now_ms = 4900, sr_done_ms = 5000, sr_underlying = ''U''\<rparr>] [])
   = ([(''U'', \<lparr>cs_spot = Some 120, cs_response = demo_surface\<rparr>)], Inr demo_surface)
   \<and> vs_spot_price demo_surface = Some 120"
proof -
  let ?rqs = "[\<lparr>sr_manager = demo_book, sr_spot = \<lambda>_. Some 120, sr_join_error = None, sr_now_ms = 4900, sr_done_ms = 5000, sr_underlying = ''U''\<rparr>]"
  let ?cache = "fold (\<lambda>rq cache. fst (serve_surface demo_exchange demo_stats demo_iv (\<lambda>_. 30) rq cache)) ?rqs []"
  have book: "x_get demo_exchange demo_book ''U'' = Inr ()" by (simp add: demo_fields demo_book_def)
  have cache: "?cache = [(''U'', \<lparr>cs_spot = Some 120, cs_response = demo_surface\<rparr>)]"
    by (simp add: serve_surface_def get_volatility_surface_def book demo_surface_def Let_def)
  have served: "get_volatility_surface demo_exchange demo_stats demo_iv (\<lambda>_. 30) (\<lambda>_. Some 120) None 6000 7000 ''U'' demo_book ?cache
      = ([(''U'', \<lparr>cs_spot = Some 120, cs_response = demo_surface\<rparr>)], Inr demo_surface)"
    unfolding cache by (simp add: get_volatility_surface_def book surface_cache_ttl_ms_def saturating_sub_def demo_surface_def compute_surface_fields Let_def)
  from volatility_surface_cache_safe [OF refl this] served show ?thesis by simp
qed

end
