(* ===== verification/Json.thy ===== *)
theory Json
  imports Float64 "HOL-Library.Monad_Syntax"
begin

text \<open>
  JSON values and what the derived serializers do with the fields of a struct: a field is a
  member of an object under its name, an optional field is \<open>null\<close> or left out, an unknown
  member is ignored, a repeated one is an error, as serde documents it of \<open>#[derive(Serialize,
  Deserialize)]\<close>. The text of a value is serde_json's.
\<close>

named_theorems json_simps \<open>reading back what was written\<close>

datatype json =
    JNull
  | JBool bool
  | JInt int
  | JFloat f64
  | JStr string
  | JArr "json list"
  | JObj "(string \<times> json) list"

type_synonym members = "(string \<times> json) list"

section \<open>Writing\<close>

definition enc_word :: "'a::len word \<Rightarrow> json" where "enc_word w = JInt (uint w)"
definition enc_usize :: "nat \<Rightarrow> json" where "enc_usize n = JInt (int n)"

text \<open>A number that is not finite is written as \<open>null\<close>.\<close>

definition enc_f64 :: "f64 \<Rightarrow> json" where
  "enc_f64 x = (if f_is_finite x then JFloat x else JNull)"

definition enc_list :: "('a \<Rightarrow> json) \<Rightarrow> 'a list \<Rightarrow> json" where
  "enc_list e xs = JArr (map e xs)"

fun enc_opt :: "('a \<Rightarrow> json) \<Rightarrow> 'a option \<Rightarrow> json" where
  "enc_opt e None = JNull"
| "enc_opt e (Some v) = e v"

text \<open>A field with \<open>skip_serializing_if = "Option::is_none"\<close>.\<close>

fun opt_member :: "string \<Rightarrow> ('a \<Rightarrow> 'v) \<Rightarrow> 'a option \<Rightarrow> (string \<times> 'v) list" where
  "opt_member name e None = []"
| "opt_member name e (Some v) = [(name, e v)]"

section \<open>Reading\<close>

fun dec_bool :: "json \<Rightarrow> bool option" where
  "dec_bool (JBool b) = Some b"
| "dec_bool _ = None"

fun dec_str :: "json \<Rightarrow> string option" where
  "dec_str (JStr s) = Some s"
| "dec_str _ = None"

fun dec_word :: "json \<Rightarrow> 'a::len word option" where
  "dec_word (JInt i) = (if 0 \<le> i \<and> i < 2 ^ LENGTH('a) then Some (word_of_int i) else None)"
| "dec_word _ = None"

fun dec_usize :: "json \<Rightarrow> nat option" where
  "dec_usize (JInt i) = (if 0 \<le> i \<and> i < 2 ^ 64 then Some (nat i) else None)"
| "dec_usize _ = None"

fun dec_i64 :: "json \<Rightarrow> i64 option" where
  "dec_i64 (JInt i) = (if in_i64 i then Some i else None)"
| "dec_i64 _ = None"

fun dec_f64 :: "json \<Rightarrow> f64 option" where
  "dec_f64 (JFloat x) = Some x"
| "dec_f64 (JInt i) = Some (f_of_int i)"
| "dec_f64 _ = None"

fun dec_opt :: "(json \<Rightarrow> 'a option) \<Rightarrow> json \<Rightarrow> 'a option option" where
  "dec_opt d JNull = Some None"
| "dec_opt d v = map_option Some (d v)"

fun dec_all :: "(json \<Rightarrow> 'a option) \<Rightarrow> json list \<Rightarrow> 'a list option" where
  "dec_all d [] = Some []"
| "dec_all d (v # vs) = do { x \<leftarrow> d v; xs \<leftarrow> dec_all d vs; Some (x # xs) }"

fun dec_list :: "(json \<Rightarrow> 'a option) \<Rightarrow> json \<Rightarrow> 'a list option" where
  "dec_list d (JArr vs) = dec_all d vs"
| "dec_list d _ = None"

fun dec_obj :: "(members \<Rightarrow> 'a option) \<Rightarrow> json \<Rightarrow> 'a option" where
  "dec_obj f (JObj ms) = f ms"
| "dec_obj f _ = None"

definition members_of :: "string \<Rightarrow> (string \<times> 'v) list \<Rightarrow> 'v list" where
  "members_of name ms = map snd (filter (\<lambda>p. fst p = name) ms)"

text \<open>A required field, an optional field, and a field with a default.\<close>

definition field :: "string \<Rightarrow> ('v \<Rightarrow> 'a option) \<Rightarrow> (string \<times> 'v) list \<Rightarrow> 'a option" where
  "field name d ms = (case members_of name ms of [v] \<Rightarrow> d v | _ \<Rightarrow> None)"

definition opt_field :: "string \<Rightarrow> (json \<Rightarrow> 'a option) \<Rightarrow> members \<Rightarrow> 'a option option" where
  "opt_field name d ms = (case members_of name ms of [] \<Rightarrow> Some None | [v] \<Rightarrow> dec_opt d v | _ \<Rightarrow> None)"

definition field_or :: "string \<Rightarrow> 'a \<Rightarrow> ('v \<Rightarrow> 'a option) \<Rightarrow> (string \<times> 'v) list \<Rightarrow> 'a option" where
  "field_or name def d ms = (case members_of name ms of [] \<Rightarrow> Some def | [v] \<Rightarrow> d v | _ \<Rightarrow> None)"

text \<open>The same for the parameters of a query string, which have no \<open>null\<close>.\<close>

definition opt_param :: "string \<Rightarrow> ('v \<Rightarrow> 'a option) \<Rightarrow> (string \<times> 'v) list \<Rightarrow> 'a option option" where
  "opt_param name d ms = (case members_of name ms of [] \<Rightarrow> Some None | [v] \<Rightarrow> map_option Some (d v) | _ \<Rightarrow> None)"

lemmas field_defs = field_def opt_field_def field_or_def opt_param_def

text \<open>The unit variants of an enum are strings: the variant that has the string, if any.\<close>

fun dec_variant :: "('a \<times> string) list \<Rightarrow> json \<Rightarrow> 'a option" where
  "dec_variant vs (JStr s) = map_option fst (find (\<lambda>p. snd p = s) vs)"
| "dec_variant vs _ = None"

section \<open>Reading back\<close>

lemma members_of_simps [json_simps]:
  "members_of name [] = []"
  "members_of name ((n, v) # ms) = (if n = name then v # members_of name ms else members_of name ms)"
  "members_of name (xs @ ys) = members_of name xs @ members_of name ys"
  "members_of name (opt_member n e x) = (if n = name then (case x of None \<Rightarrow> [] | Some v \<Rightarrow> [e v]) else [])"
  by (auto simp: members_of_def split: option.splits)

lemma dec_word_enc [json_simps]: "dec_word (enc_word w) = Some w"
  by (simp add: enc_word_def uint_lt2p)

lemma dec_usize_enc [json_simps]: "n < 2 ^ 64 \<Longrightarrow> dec_usize (enc_usize n) = Some n"
  by (simp add: enc_usize_def)

lemma dec_f64_enc [json_simps]: "f_is_finite x \<Longrightarrow> dec_f64 (enc_f64 x) = Some x"
  by (simp add: enc_f64_def)

lemma dec_all_map: "(\<And>x. x \<in> set xs \<Longrightarrow> d (e x) = Some x) \<Longrightarrow> dec_all d (map e xs) = Some xs"
  by (induction xs) simp_all

lemma dec_list_enc [json_simps]: "(\<And>x. x \<in> set xs \<Longrightarrow> d (e x) = Some x) \<Longrightarrow> dec_list d (enc_list e xs) = Some xs"
  by (simp add: enc_list_def dec_all_map)

text \<open>A value that is never written as \<open>null\<close> can be told from a missing one.\<close>

lemma dec_opt_Some: "d v = Some x \<Longrightarrow> d JNull = None \<Longrightarrow> dec_opt d v = Some (Some x)"
  by (cases v) simp_all

lemma dec_opt_enc:
  "(\<And>v. x = Some v \<Longrightarrow> d (e v) = Some v) \<Longrightarrow> d JNull = None \<Longrightarrow> dec_opt d (enc_opt e x) = Some x"
  by (cases x) (simp_all add: dec_opt_Some)

end
