(* ===== verification/Wire_Requests.thy ===== *)
theory Wire_Requests
  imports Json Controls Queries Gateway
begin

text \<open>
  The requests on the wire: what the client crate (\<open>src/crates/orderbook-client/src/types.rs\<close>)
  writes and what the server (\<open>src/src/models.rs\<close>, \<open>src/src/db/schema.rs\<close>) reads, as the derived
  serializers do it. A \<open>c_\<close> marks the client's side, \<open>s_\<close> the server's. A type of the client
  with the fields of the server's type is the server's record.
\<close>

section \<open>Enumerations\<close>

definition enc_order_side :: "order_side \<Rightarrow> json" where "enc_order_side s = JStr (order_side_display s)"

definition dec_order_side :: "json \<Rightarrow> order_side option" where
  "dec_order_side = dec_variant [(Buy, ''buy''), (Sell, ''sell'')]"

definition enc_wire_style :: "wire_style \<Rightarrow> json" where "enc_wire_style s = JStr (wire_style_display s)"

definition dec_wire_style :: "json \<Rightarrow> wire_style option" where
  "dec_wire_style = dec_variant [(WireCall, ''call''), (WirePut, ''put'')]"

definition dec_api_tif :: "json \<Rightarrow> api_tif option" where
  "dec_api_tif = dec_variant [(ApiGtc, ''GTC''), (ApiIoc, ''IOC''), (ApiFok, ''FOK''), (ApiGtd, ''GTD'')]"

fun permission_name :: "permission \<Rightarrow> string" where
  "permission_name PermRead = ''read''"
| "permission_name PermTrade = ''trade''"
| "permission_name PermAdmin = ''admin''"

definition enc_permission :: "permission \<Rightarrow> json" where "enc_permission p = JStr (permission_name p)"

definition dec_permission :: "json \<Rightarrow> permission option" where
  "dec_permission = dec_variant [(PermRead, ''read''), (PermTrade, ''trade''), (PermAdmin, ''admin'')]"

lemma dec_order_side_enc [json_simps]: "dec_order_side (enc_order_side s) = Some s"
  by (cases s) (simp_all add: dec_order_side_def enc_order_side_def)

lemma dec_wire_style_enc [json_simps]: "dec_wire_style (enc_wire_style w) = Some w"
  by (cases w) (simp_all add: dec_wire_style_def enc_wire_style_def)

lemma dec_permission_enc [json_simps]: "dec_permission (enc_permission p) = Some p"
  by (cases p) (simp_all add: dec_permission_def enc_permission_def)

section \<open>Bodies\<close>

text \<open>The client cannot say how long an order is in force.\<close>

record c_add_order_request =
  cao_side :: order_side
  cao_price :: u128
  cao_quantity :: u64

definition c_enc_add_order :: "c_add_order_request \<Rightarrow> json" where
  "c_enc_add_order r = JObj [(''side'', enc_order_side (cao_side r)), (''price'', enc_word (cao_price r)),
     (''quantity'', enc_word (cao_quantity r))]"

definition s_dec_add_order :: "json \<Rightarrow> add_order_request option" where
  "s_dec_add_order = dec_obj (\<lambda>ms. do {
     side \<leftarrow> field ''side'' dec_order_side ms;
     price \<leftarrow> field ''price'' dec_word ms;
     quantity \<leftarrow> field ''quantity'' dec_word ms;
     tif \<leftarrow> opt_field ''time_in_force'' dec_api_tif ms;
     expire_at \<leftarrow> opt_field ''expire_at'' dec_str ms;
     Some \<lparr>ao_side = side, ao_price = price, ao_quantity = quantity, ao_tif = tif, ao_expire_at = expire_at\<rparr> })"

definition c_enc_market_order :: "market_order_request \<Rightarrow> json" where
  "c_enc_market_order r = JObj [(''side'', enc_order_side (mo_side r)), (''quantity'', enc_word (mo_quantity r))]"

definition s_dec_market_order :: "json \<Rightarrow> market_order_request option" where
  "s_dec_market_order = dec_obj (\<lambda>ms. do {
     side \<leftarrow> field ''side'' dec_order_side ms;
     quantity \<leftarrow> field ''quantity'' dec_word ms;
     Some \<lparr>mo_side = side, mo_quantity = quantity\<rparr> })"

definition c_enc_modify_order :: "modify_order_request \<Rightarrow> json" where
  "c_enc_modify_order r = JObj (opt_member ''price'' enc_word (mod_price r) @ opt_member ''quantity'' enc_word (mod_quantity r))"

definition s_dec_modify_order :: "json \<Rightarrow> modify_order_request option" where
  "s_dec_modify_order = dec_obj (\<lambda>ms. do {
     price \<leftarrow> opt_field ''price'' dec_word ms;
     quantity \<leftarrow> opt_field ''quantity'' dec_word ms;
     Some \<lparr>mod_price = price, mod_quantity = quantity\<rparr> })"

definition c_enc_bulk_item :: "bulk_order_item \<Rightarrow> json" where
  "c_enc_bulk_item i = JObj [(''underlying'', JStr (bi_underlying i)), (''expiration'', JStr (bi_expiration i)),
     (''strike'', enc_word (bi_strike i)), (''style'', enc_wire_style (bi_style i)), (''side'', enc_order_side (bi_side i)),
     (''price'', enc_word (bi_price i)), (''quantity'', enc_word (bi_quantity i))]"

definition s_dec_bulk_item :: "json \<Rightarrow> bulk_order_item option" where
  "s_dec_bulk_item = dec_obj (\<lambda>ms. do {
     underlying \<leftarrow> field ''underlying'' dec_str ms;
     expiration \<leftarrow> field ''expiration'' dec_str ms;
     strike \<leftarrow> field ''strike'' dec_word ms;
     style \<leftarrow> field ''style'' dec_wire_style ms;
     side \<leftarrow> field ''side'' dec_order_side ms;
     price \<leftarrow> field ''price'' dec_word ms;
     quantity \<leftarrow> field ''quantity'' dec_word ms;
     Some \<lparr>bi_underlying = underlying, bi_expiration = expiration, bi_strike = strike, bi_style = style,
       bi_side = side, bi_price = price, bi_quantity = quantity\<rparr> })"

definition c_enc_bulk_order :: "bulk_order_request \<Rightarrow> json" where
  "c_enc_bulk_order r = JObj [(''orders'', enc_list c_enc_bulk_item (br_orders r)), (''atomic'', JBool (br_atomic r))]"

definition s_dec_bulk_order :: "json \<Rightarrow> bulk_order_request option" where
  "s_dec_bulk_order = dec_obj (\<lambda>ms. do {
     orders \<leftarrow> field ''orders'' (dec_list s_dec_bulk_item) ms;
     atomic \<leftarrow> field_or ''atomic'' False dec_bool ms;
     Some \<lparr>br_orders = orders, br_atomic = atomic\<rparr> })"

definition c_enc_bulk_cancel :: "string list \<Rightarrow> json" where
  "c_enc_bulk_cancel order_ids = JObj [(''order_ids'', enc_list JStr order_ids)]"

definition s_dec_bulk_cancel :: "json \<Rightarrow> string list option" where
  "s_dec_bulk_cancel = dec_obj (field ''order_ids'' (dec_list dec_str))"

definition c_enc_update_parameters :: "update_parameters_request \<Rightarrow> json" where
  "c_enc_update_parameters r = JObj (opt_member ''spread_multiplier'' enc_f64 (pq_spread_multiplier r)
     @ opt_member ''size_scalar'' enc_f64 (pq_size_scalar r) @ opt_member ''directional_skew'' enc_f64 (pq_directional_skew r))"

definition s_dec_update_parameters :: "json \<Rightarrow> update_parameters_request option" where
  "s_dec_update_parameters = dec_obj (\<lambda>ms. do {
     spread \<leftarrow> opt_field ''spread_multiplier'' dec_f64 ms;
     scalar \<leftarrow> opt_field ''size_scalar'' dec_f64 ms;
     skew \<leftarrow> opt_field ''directional_skew'' dec_f64 ms;
     Some \<lparr>pq_spread_multiplier = spread, pq_size_scalar = scalar, pq_directional_skew = skew\<rparr> })"

definition c_enc_insert_price :: "insert_price_request \<Rightarrow> json" where
  "c_enc_insert_price r = JObj ([(''symbol'', JStr (iq_symbol r)), (''price'', enc_f64 (iq_price r))]
     @ opt_member ''bid'' enc_f64 (iq_bid r) @ opt_member ''ask'' enc_f64 (iq_ask r)
     @ opt_member ''volume'' JInt (iq_volume r) @ opt_member ''source'' JStr (iq_source r))"

definition s_dec_insert_price :: "json \<Rightarrow> insert_price_request option" where
  "s_dec_insert_price = dec_obj (\<lambda>ms. do {
     symbol \<leftarrow> field ''symbol'' dec_str ms;
     price \<leftarrow> field ''price'' dec_f64 ms;
     bid \<leftarrow> opt_field ''bid'' dec_f64 ms;
     ask \<leftarrow> opt_field ''ask'' dec_f64 ms;
     volume \<leftarrow> opt_field ''volume'' dec_i64 ms;
     source \<leftarrow> opt_field ''source'' dec_str ms;
     Some \<lparr>iq_symbol = symbol, iq_price = price, iq_bid = bid, iq_ask = ask, iq_volume = volume, iq_source = source\<rparr> })"

text \<open>The secret is text on the wire and bytes in the comparison of the server.\<close>

record c_token_request =
  ctr_secret :: string
  ctr_permissions :: "permission list"
  ctr_ttl_secs :: "u64 option"

definition bytes_of :: "string \<Rightarrow> u8 list" where
  "bytes_of s = map of_char s"

definition c_enc_token :: "c_token_request \<Rightarrow> json" where
  "c_enc_token r = JObj ([(''secret'', JStr (ctr_secret r)), (''permissions'', enc_list enc_permission (ctr_permissions r))]
     @ opt_member ''ttl_secs'' enc_word (ctr_ttl_secs r))"

definition s_dec_token :: "json \<Rightarrow> token_request option" where
  "s_dec_token = dec_obj (\<lambda>ms. do {
     secret \<leftarrow> field ''secret'' dec_str ms;
     permissions \<leftarrow> field ''permissions'' (dec_list dec_permission) ms;
     ttl_secs \<leftarrow> opt_field ''ttl_secs'' dec_word ms;
     Some \<lparr>tr_secret = bytes_of secret, tr_permissions = permissions, tr_ttl_secs = ttl_secs\<rparr> })"

section \<open>Queries\<close>

text \<open>
  A query is a list of named strings; how the list becomes a query string and back is
  serde_urlencoded's.
\<close>

type_synonym params = "(string \<times> string) list"

record c_executions_query =
  ceq_from :: "string option"
  ceq_to :: "string option"
  ceq_underlying :: "string option"
  ceq_symbol :: "string option"
  ceq_side :: "order_side option"
  ceq_limit :: u64
  ceq_offset :: u64

definition c_executions_query_default :: c_executions_query where
  "c_executions_query_default = \<lparr>ceq_from = None, ceq_to = None, ceq_underlying = None, ceq_symbol = None,
     ceq_side = None, ceq_limit = 1000, ceq_offset = 0\<rparr>"

definition c_enc_executions_query :: "c_executions_query \<Rightarrow> params" where
  "c_enc_executions_query q = opt_member ''from'' id (ceq_from q) @ opt_member ''to'' id (ceq_to q)
     @ opt_member ''underlying'' id (ceq_underlying q) @ opt_member ''symbol'' id (ceq_symbol q)
     @ opt_member ''side'' order_side_display (ceq_side q)
     @ [(''limit'', show_word (ceq_limit q)), (''offset'', show_word (ceq_offset q))]"

definition s_dec_executions_query :: "params \<Rightarrow> executions_query option" where
  "s_dec_executions_query ps = do {
     from \<leftarrow> opt_param ''from'' Some ps;
     to \<leftarrow> opt_param ''to'' Some ps;
     underlying \<leftarrow> opt_param ''underlying'' Some ps;
     symbol \<leftarrow> opt_param ''symbol'' Some ps;
     side \<leftarrow> opt_param ''side'' Some ps;
     limit \<leftarrow> field_or ''limit'' default_executions_limit parse_u64 ps;
     offset \<leftarrow> field_or ''offset'' 0 parse_u64 ps;
     Some \<lparr>eq_from = from, eq_to = to, eq_underlying = underlying, eq_symbol = symbol, eq_side = side,
       eq_limit = limit, eq_offset = offset\<rparr> }"

definition c_enc_position_query :: "string option \<Rightarrow> params" where
  "c_enc_position_query underlying = opt_member ''underlying'' id underlying"

definition s_dec_position_query :: "params \<Rightarrow> string option option" where
  "s_dec_position_query = opt_param ''underlying'' Some"

record c_order_list_query =
  coq_underlying :: "string option"
  coq_status :: "order_status option"
  coq_side :: "order_side option"
  coq_limit :: nat
  coq_offset :: nat

definition c_order_list_query_default :: c_order_list_query where
  "c_order_list_query_default = \<lparr>coq_underlying = None, coq_status = None, coq_side = None, coq_limit = 100, coq_offset = 0\<rparr>"

definition c_enc_order_list_query :: "c_order_list_query \<Rightarrow> params" where
  "c_enc_order_list_query q = opt_member ''underlying'' id (coq_underlying q)
     @ opt_member ''status'' order_status_display (coq_status q) @ opt_member ''side'' order_side_display (coq_side q)
     @ [(''limit'', show_nat (coq_limit q)), (''offset'', show_nat (coq_offset q))]"

definition s_dec_order_list_query :: "params \<Rightarrow> order_list_query option" where
  "s_dec_order_list_query ps = do {
     underlying \<leftarrow> opt_param ''underlying'' Some ps;
     status \<leftarrow> opt_param ''status'' Some ps;
     side \<leftarrow> opt_param ''side'' Some ps;
     limit \<leftarrow> field_or ''limit'' default_limit parse_usize ps;
     offset \<leftarrow> field_or ''offset'' 0 parse_usize ps;
     Some \<lparr>olq_underlying = underlying, olq_status = status, olq_side = side, olq_limit = limit, olq_offset = offset\<rparr> }"

record c_cancel_all_query =
  ccq_underlying :: "string option"
  ccq_expiration :: "string option"
  ccq_side :: "order_side option"
  ccq_style :: "string option"

definition c_enc_cancel_all_query :: "c_cancel_all_query \<Rightarrow> params" where
  "c_enc_cancel_all_query q = opt_member ''underlying'' id (ccq_underlying q) @ opt_member ''expiration'' id (ccq_expiration q)
     @ opt_member ''side'' order_side_display (ccq_side q) @ opt_member ''style'' id (ccq_style q)"

definition s_dec_cancel_all_query :: "params \<Rightarrow> cancel_all_query option" where
  "s_dec_cancel_all_query ps = do {
     underlying \<leftarrow> opt_param ''underlying'' Some ps;
     expiration \<leftarrow> opt_param ''expiration'' Some ps;
     side \<leftarrow> opt_param ''side'' Some ps;
     style \<leftarrow> opt_param ''style'' Some ps;
     Some \<lparr>ca_underlying = underlying, ca_expiration = expiration, ca_side = side, ca_style = style\<rparr> }"

text \<open>The client may leave out the interval, which the server requires.\<close>

record c_ohlc_query =
  coh_interval :: "string option"
  coh_from :: "u64 option"
  coh_to :: "u64 option"
  coh_limit :: "u64 option"

definition c_enc_ohlc_query :: "c_ohlc_query \<Rightarrow> params" where
  "c_enc_ohlc_query q = opt_member ''interval'' id (coh_interval q) @ opt_member ''from'' show_word (coh_from q)
     @ opt_member ''to'' show_word (coh_to q) @ opt_member ''limit'' show_word (coh_limit q)"

definition s_dec_ohlc_query :: "params \<Rightarrow> ohlc_query option" where
  "s_dec_ohlc_query ps = do {
     interval \<leftarrow> field ''interval'' Some ps;
     from \<leftarrow> opt_param ''from'' parse_u64 ps;
     to \<leftarrow> opt_param ''to'' parse_u64 ps;
     limit \<leftarrow> opt_param ''limit'' parse_usize ps;
     Some \<lparr>oq_interval = interval, oq_from = from, oq_to = to, oq_limit = limit\<rparr> }"

section \<open>The server reads what the client writes\<close>

lemma dec_opt_word [json_simps]: "dec_opt dec_word (enc_word w) = Some (Some w)"
  by (simp add: dec_opt_Some json_simps)

lemma dec_opt_f64 [json_simps]: "f_is_finite x \<Longrightarrow> dec_opt dec_f64 (enc_f64 x) = Some (Some x)"
  by (simp add: dec_opt_Some json_simps)

text \<open>The request the server sees for a limit order of the client: good till cancelled by default.\<close>

definition plain_order :: "c_add_order_request \<Rightarrow> add_order_request" where
  "plain_order r = \<lparr>ao_side = cao_side r, ao_price = cao_price r, ao_quantity = cao_quantity r, ao_tif = None, ao_expire_at = None\<rparr>"

lemma add_order_request_read: "s_dec_add_order (c_enc_add_order r) = Some (plain_order r)"
  by (simp add: s_dec_add_order_def c_enc_add_order_def plain_order_def field_defs json_simps)

lemma market_order_request_read: "s_dec_market_order (c_enc_market_order r) = Some r"
  by (simp add: s_dec_market_order_def c_enc_market_order_def field_defs json_simps)

lemma modify_order_request_read: "s_dec_modify_order (c_enc_modify_order r) = Some r"
  by (cases r) (auto simp: s_dec_modify_order_def c_enc_modify_order_def field_defs json_simps split: option.splits)

lemma bulk_item_read [json_simps]: "s_dec_bulk_item (c_enc_bulk_item i) = Some i"
  by (simp add: s_dec_bulk_item_def c_enc_bulk_item_def field_defs json_simps)

lemma bulk_order_request_read: "s_dec_bulk_order (c_enc_bulk_order r) = Some r"
  by (simp add: s_dec_bulk_order_def c_enc_bulk_order_def field_defs json_simps)

lemma bulk_cancel_request_read: "s_dec_bulk_cancel (c_enc_bulk_cancel ids) = Some ids"
  by (simp add: s_dec_bulk_cancel_def c_enc_bulk_cancel_def field_defs json_simps)

fun finite_opt :: "f64 option \<Rightarrow> bool" where
  "finite_opt None = True"
| "finite_opt (Some v) = f_is_finite v"

fun i64_opt :: "i64 option \<Rightarrow> bool" where
  "i64_opt None = True"
| "i64_opt (Some v) = in_i64 v"

lemma update_parameters_request_read:
  assumes "finite_opt (pq_spread_multiplier r)" "finite_opt (pq_size_scalar r)" "finite_opt (pq_directional_skew r)"
  shows "s_dec_update_parameters (c_enc_update_parameters r) = Some r"
  using assms by (cases r) (auto simp: s_dec_update_parameters_def c_enc_update_parameters_def field_defs json_simps split: option.splits)

lemma insert_price_request_read:
  assumes "f_is_finite (iq_price r)" "finite_opt (iq_bid r)" "finite_opt (iq_ask r)" "i64_opt (iq_volume r)"
  shows "s_dec_insert_price (c_enc_insert_price r) = Some r"
  using assms by (cases r) (auto simp: s_dec_insert_price_def c_enc_insert_price_def field_defs json_simps dec_opt_Some split: option.splits)

lemma token_read:
  "s_dec_token (c_enc_token r) = Some \<lparr>tr_secret = bytes_of (ctr_secret r), tr_permissions = ctr_permissions r, tr_ttl_secs = ctr_ttl_secs r\<rparr>"
  by (cases "ctr_ttl_secs r") (simp_all add: s_dec_token_def c_enc_token_def field_defs json_simps)

lemma parse_usize_show [json_simps]: "n < 2 ^ 64 \<Longrightarrow> parse_usize (show_nat n) = Some n"
  by (simp add: parse_usize_def parse_unsigned_show_nat)

lemma parse_usize_show_word [json_simps]: "parse_usize (show_word (w :: u64)) = Some (unat w)"
  using unsigned_less [of w, where ?'a = nat] by (simp add: show_word_def parse_usize_def parse_unsigned_show_nat)

lemma lenient_side_display [json_simps]: "lenient_side (map_option order_side_display s) = s"
  by (cases s; cases "the s") (auto simp: lenient_side_def lower_char_def)

lemma status_filter_display [json_simps]: "parse_status_filter (map_option order_status_display s) = Inr s"
  by (cases s; cases "the s") (auto simp: parse_status_filter_def order_status_from_str_def lower_char_def)

declare parse_u64_show_word [json_simps]

lemma executions_query_read:
  "s_dec_executions_query (c_enc_executions_query q)
     = Some \<lparr>eq_from = ceq_from q, eq_to = ceq_to q, eq_underlying = ceq_underlying q, eq_symbol = ceq_symbol q,
         eq_side = map_option order_side_display (ceq_side q), eq_limit = ceq_limit q, eq_offset = ceq_offset q\<rparr>"
  by (cases q) (auto simp: s_dec_executions_query_def c_enc_executions_query_def field_defs json_simps split: option.splits)

lemma position_query_read: "s_dec_position_query (c_enc_position_query u) = Some u"
  by (auto simp: s_dec_position_query_def c_enc_position_query_def field_defs json_simps split: option.splits)

lemma order_list_query_read:
  "coq_limit q < 2 ^ 64 \<Longrightarrow> coq_offset q < 2 ^ 64 \<Longrightarrow>
   s_dec_order_list_query (c_enc_order_list_query q)
     = Some \<lparr>olq_underlying = coq_underlying q, olq_status = map_option order_status_display (coq_status q),
         olq_side = map_option order_side_display (coq_side q), olq_limit = coq_limit q, olq_offset = coq_offset q\<rparr>"
  by (cases q) (auto simp: s_dec_order_list_query_def c_enc_order_list_query_def field_defs json_simps split: option.splits)

lemma cancel_all_query_read:
  "s_dec_cancel_all_query (c_enc_cancel_all_query q)
     = Some \<lparr>ca_underlying = ccq_underlying q, ca_expiration = ccq_expiration q,
         ca_side = map_option order_side_display (ccq_side q), ca_style = ccq_style q\<rparr>"
  by (cases q) (auto simp: s_dec_cancel_all_query_def c_enc_cancel_all_query_def field_defs json_simps split: option.splits)

lemma ohlc_query_read:
  "s_dec_ohlc_query (c_enc_ohlc_query q)
     = (case coh_interval q of
          None \<Rightarrow> None
        | Some i \<Rightarrow> Some \<lparr>oq_interval = i, oq_from = coh_from q, oq_to = coh_to q, oq_limit = map_option unat (coh_limit q)\<rparr>)"
  by (cases q) (auto simp: s_dec_ohlc_query_def c_enc_ohlc_query_def field_defs json_simps split: option.splits)

text \<open>
  The client's default candle query leaves the interval out, and so does a call without a
  query: the server cannot read either.
\<close>

lemma default_ohlc_query_refused:
  "s_dec_ohlc_query (c_enc_ohlc_query \<lparr>coh_interval = None, coh_from = None, coh_to = None, coh_limit = None\<rparr>) = None"
  "s_dec_ohlc_query [] = None"
  by (simp_all add: ohlc_query_read) (simp add: s_dec_ohlc_query_def field_defs json_simps)


definition demo_price_request :: insert_price_request where
  "demo_price_request = \<lparr>iq_symbol = ''BTC'', iq_price = Fin 100, iq_bid = Some (Fin 99), iq_ask = None, iq_volume = Some 5,
     iq_source = None\<rparr>"

definition demo_parameters_request :: update_parameters_request where
  "demo_parameters_request = \<lparr>pq_spread_multiplier = Some (Fin 2), pq_size_scalar = None, pq_directional_skew = None\<rparr>"


end
