(* ===== verification/Wire_Responses.thy ===== *)
theory Wire_Responses
  imports Wire_Requests Snapshots
begin

text \<open>
  The answers about orders, executions, positions, snapshots, candles, controls and prices on
  the wire: what the server writes (\<open>src/src/models.rs\<close>, \<open>src/src/api/controls.rs\<close>) and what the
  client crate reads (\<open>src/crates/orderbook-client/src/types.rs\<close>). \<open>enc_x_s\<close> is the server's
  writing of a type and \<open>dec_x_c\<close> the client's reading; \<open>x_ok\<close> says that its machine integers are
  in range and its floats finite, which JSON needs.
\<close>

section \<open>Enumerations\<close>

definition enc_order_status :: "order_status \<Rightarrow> json" where "enc_order_status s = JStr (order_status_display s)"

definition dec_order_status :: "json \<Rightarrow> order_status option" where
  "dec_order_status = dec_variant [(Pending, ''pending''), (Active, ''active''), (Partial, ''partial''),
     (Filled, ''filled''), (Canceled, ''canceled'')]"

definition enc_order_tif :: "order_tif \<Rightarrow> json" where "enc_order_tif t = JStr (order_tif_display t)"

definition dec_order_tif :: "json \<Rightarrow> order_tif option" where
  "dec_order_tif = dec_variant [(TrackedGtc, ''GTC''), (TrackedIoc, ''IOC''), (TrackedFok, ''FOK''), (TrackedGtd, ''GTD'')]"

definition enc_modify_status :: "modify_status \<Rightarrow> json" where "enc_modify_status s = JStr (modify_status_display s)"

definition dec_modify_status :: "json \<Rightarrow> modify_status option" where
  "dec_modify_status = dec_variant [(Modified, ''modified''), (ModifyRejected, ''rejected'')]"

fun bulk_status_name :: "bulk_status \<Rightarrow> string" where
  "bulk_status_name BulkAccepted = ''accepted''"
| "bulk_status_name BulkRejected = ''rejected''"

definition enc_bulk_status :: "bulk_status \<Rightarrow> json" where "enc_bulk_status s = JStr (bulk_status_name s)"

definition dec_bulk_status :: "json \<Rightarrow> bulk_status option" where
  "dec_bulk_status = dec_variant [(BulkAccepted, ''accepted''), (BulkRejected, ''rejected'')]"

definition enc_limit_order_status :: "limit_order_status \<Rightarrow> json" where
  "enc_limit_order_status s = JStr (limit_order_status_display s)"

definition enc_market_order_status :: "market_order_status \<Rightarrow> json" where
  "enc_market_order_status s = JStr (market_order_status_display s)"

definition dec_market_order_status :: "json \<Rightarrow> market_order_status option" where
  "dec_market_order_status = dec_variant [(MarketFilled, ''filled''), (MarketPartial, ''partial''), (MarketRejected, ''rejected'')]"

lemma dec_order_status_enc [json_simps]: "dec_order_status (enc_order_status s) = Some s"
  by (cases s) (simp_all add: dec_order_status_def enc_order_status_def)

lemma dec_order_tif_enc [json_simps]: "dec_order_tif (enc_order_tif t) = Some t"
  by (cases t) (simp_all add: dec_order_tif_def enc_order_tif_def)

lemma dec_modify_status_enc [json_simps]: "dec_modify_status (enc_modify_status s) = Some s"
  by (cases s) (simp_all add: dec_modify_status_def enc_modify_status_def)

lemma dec_bulk_status_enc [json_simps]: "dec_bulk_status (enc_bulk_status s) = Some s"
  by (cases s) (simp_all add: dec_bulk_status_def enc_bulk_status_def)

lemma dec_market_order_status_enc [json_simps]: "dec_market_order_status (enc_market_order_status s) = Some s"
  by (cases s) (simp_all add: dec_market_order_status_def enc_market_order_status_def)

lemma dec_opt_enc_opt [json_simps]:
  "dec_opt dec_word (enc_opt enc_word x) = Some x"
  "dec_opt dec_str (enc_opt JStr y) = Some y"
  "finite_opt z \<Longrightarrow> dec_opt dec_f64 (enc_opt enc_f64 z) = Some z"
  "i64_opt i \<Longrightarrow> dec_opt dec_i64 (enc_opt JInt i) = Some i"
  by (rule dec_opt_enc; simp add: json_simps; fail) (rule dec_opt_enc; auto simp: json_simps)+

section \<open>Structs\<close>

definition enc_cancel_order_s :: "cancel_order_response \<Rightarrow> json" where
  "enc_cancel_order_s r = JObj [(''success'', JBool (cor_success r)), (''message'', JStr (cor_message r))]"

definition dec_cancel_order_c :: "json \<Rightarrow> cancel_order_response option" where
  "dec_cancel_order_c = dec_obj (\<lambda>ms. do {
     success \<leftarrow> field ''success'' dec_bool ms;
     message \<leftarrow> field ''message'' dec_str ms;
     Some \<lparr>cor_success = success, cor_message = message\<rparr> })"

lemma cancel_order_read [json_simps]: "dec_cancel_order_c (enc_cancel_order_s r) = Some r"
  by (cases r) (auto simp: enc_cancel_order_s_def dec_cancel_order_c_def field_defs json_simps list_all_iff split: option.splits)

definition enc_fill_info_s :: "fill_info \<Rightarrow> json" where
  "enc_fill_info_s r = JObj [(''price'', enc_word (fi_price r)), (''quantity'', enc_word (fi_quantity r))]"

definition dec_fill_info_c :: "json \<Rightarrow> fill_info option" where
  "dec_fill_info_c = dec_obj (\<lambda>ms. do {
     price \<leftarrow> field ''price'' dec_word ms;
     quantity \<leftarrow> field ''quantity'' dec_word ms;
     Some \<lparr>fi_price = price, fi_quantity = quantity\<rparr> })"

lemma fill_info_read [json_simps]: "dec_fill_info_c (enc_fill_info_s r) = Some r"
  by (cases r) (auto simp: enc_fill_info_s_def dec_fill_info_c_def field_defs json_simps list_all_iff split: option.splits)

definition enc_modify_order_s :: "modify_order_response \<Rightarrow> json" where
  "enc_modify_order_s r = JObj [(''order_id'', JStr (modr_order_id r)),
     (''status'', enc_modify_status (modr_status r)), (''new_price'', (enc_opt enc_word) (modr_new_price r)),
     (''new_quantity'', (enc_opt enc_word) (modr_new_quantity r)),
     (''priority_changed'', JBool (modr_priority_changed r)), (''message'', JStr (modr_message r))]"

definition dec_modify_order_c :: "json \<Rightarrow> modify_order_response option" where
  "dec_modify_order_c = dec_obj (\<lambda>ms. do {
     order_id \<leftarrow> field ''order_id'' dec_str ms;
     status \<leftarrow> field ''status'' dec_modify_status ms;
     new_price \<leftarrow> opt_field ''new_price'' dec_word ms;
     new_quantity \<leftarrow> opt_field ''new_quantity'' dec_word ms;
     priority_changed \<leftarrow> field ''priority_changed'' dec_bool ms;
     message \<leftarrow> field ''message'' dec_str ms;
     Some \<lparr>modr_order_id = order_id, modr_status = status, modr_new_price = new_price,
       modr_new_quantity = new_quantity, modr_priority_changed = priority_changed, modr_message = message\<rparr> })"

lemma modify_order_read [json_simps]: "dec_modify_order_c (enc_modify_order_s r) = Some r"
  by (cases r) (auto simp: enc_modify_order_s_def dec_modify_order_c_def field_defs json_simps list_all_iff split: option.splits)

definition enc_bulk_result_s :: "bulk_result_item \<Rightarrow> json" where
  "enc_bulk_result_s r = JObj ([(''index'', enc_usize (bri_index r)), (''order_id'', (enc_opt JStr) (bri_order_id r)),
     (''status'', enc_bulk_status (bri_status r))] @ opt_member ''error'' JStr (bri_error r))"

definition dec_bulk_result_c :: "json \<Rightarrow> bulk_result_item option" where
  "dec_bulk_result_c = dec_obj (\<lambda>ms. do {
     index \<leftarrow> field ''index'' dec_usize ms;
     order_id \<leftarrow> opt_field ''order_id'' dec_str ms;
     status \<leftarrow> field ''status'' dec_bulk_status ms;
     error_text \<leftarrow> opt_field ''error'' dec_str ms;
     Some \<lparr>bri_index = index, bri_order_id = order_id, bri_status = status, bri_error = error_text\<rparr> })"

definition bulk_result_ok :: "bulk_result_item \<Rightarrow> bool" where
  "bulk_result_ok r \<longleftrightarrow> bri_index r < 2 ^ 64"

lemma bulk_result_read [json_simps]: "bulk_result_ok r \<Longrightarrow> dec_bulk_result_c (enc_bulk_result_s r) = Some r"
  by (cases r) (auto simp: bulk_result_ok_def enc_bulk_result_s_def dec_bulk_result_c_def field_defs json_simps list_all_iff split: option.splits)

definition enc_bulk_cancel_result_s :: "bulk_cancel_result \<Rightarrow> json" where
  "enc_bulk_cancel_result_s r = JObj ([(''order_id'', JStr (bcr_order_id r)), (''canceled'', JBool (bcr_canceled r))] @
     opt_member ''error'' JStr (bcr_error r))"

definition dec_bulk_cancel_result_c :: "json \<Rightarrow> bulk_cancel_result option" where
  "dec_bulk_cancel_result_c = dec_obj (\<lambda>ms. do {
     order_id \<leftarrow> field ''order_id'' dec_str ms;
     canceled \<leftarrow> field ''canceled'' dec_bool ms;
     error_text \<leftarrow> opt_field ''error'' dec_str ms;
     Some \<lparr>bcr_order_id = order_id, bcr_canceled = canceled, bcr_error = error_text\<rparr> })"

lemma bulk_cancel_result_read [json_simps]: "dec_bulk_cancel_result_c (enc_bulk_cancel_result_s r) = Some r"
  by (cases r) (auto simp: enc_bulk_cancel_result_s_def dec_bulk_cancel_result_c_def field_defs json_simps list_all_iff split: option.splits)

definition enc_bulk_cancel_s :: "bulk_cancel_response \<Rightarrow> json" where
  "enc_bulk_cancel_s r = JObj [(''success_count'', enc_usize (bc_success_count r)),
     (''failure_count'', enc_usize (bc_failure_count r)),
     (''results'', (enc_list enc_bulk_cancel_result_s) (bc_results r))]"

definition dec_bulk_cancel_c :: "json \<Rightarrow> bulk_cancel_response option" where
  "dec_bulk_cancel_c = dec_obj (\<lambda>ms. do {
     success_count \<leftarrow> field ''success_count'' dec_usize ms;
     failure_count \<leftarrow> field ''failure_count'' dec_usize ms;
     results \<leftarrow> field ''results'' (dec_list dec_bulk_cancel_result_c) ms;
     Some \<lparr>bc_success_count = success_count, bc_failure_count = failure_count, bc_results = results\<rparr> })"

definition bulk_cancel_ok :: "bulk_cancel_response \<Rightarrow> bool" where
  "bulk_cancel_ok r \<longleftrightarrow> bc_success_count r < 2 ^ 64 \<and> bc_failure_count r < 2 ^ 64"

lemma bulk_cancel_read [json_simps]: "bulk_cancel_ok r \<Longrightarrow> dec_bulk_cancel_c (enc_bulk_cancel_s r) = Some r"
  by (cases r) (auto simp: bulk_cancel_ok_def enc_bulk_cancel_s_def dec_bulk_cancel_c_def field_defs json_simps list_all_iff split: option.splits)

definition enc_cancel_all_s :: "cancel_all_response \<Rightarrow> json" where
  "enc_cancel_all_s r = JObj [(''canceled_count'', enc_usize (car_canceled_count r)),
     (''failed_count'', enc_usize (car_failed_count r))]"

definition dec_cancel_all_c :: "json \<Rightarrow> cancel_all_response option" where
  "dec_cancel_all_c = dec_obj (\<lambda>ms. do {
     canceled_count \<leftarrow> field ''canceled_count'' dec_usize ms;
     failed_count \<leftarrow> field ''failed_count'' dec_usize ms;
     Some \<lparr>car_canceled_count = canceled_count, car_failed_count = failed_count\<rparr> })"

definition cancel_all_ok :: "cancel_all_response \<Rightarrow> bool" where
  "cancel_all_ok r \<longleftrightarrow> car_canceled_count r < 2 ^ 64 \<and> car_failed_count r < 2 ^ 64"

lemma cancel_all_read [json_simps]: "cancel_all_ok r \<Longrightarrow> dec_cancel_all_c (enc_cancel_all_s r) = Some r"
  by (cases r) (auto simp: cancel_all_ok_def enc_cancel_all_s_def dec_cancel_all_c_def field_defs json_simps list_all_iff split: option.splits)

definition enc_order_fill_s :: "order_fill_info \<Rightarrow> json" where
  "enc_order_fill_s r = JObj [(''price'', enc_word (of_price r)), (''quantity'', enc_word (of_quantity r)),
     (''timestamp_ms'', enc_word (of_timestamp_ms r))]"

definition dec_order_fill_c :: "json \<Rightarrow> order_fill_info option" where
  "dec_order_fill_c = dec_obj (\<lambda>ms. do {
     price \<leftarrow> field ''price'' dec_word ms;
     quantity \<leftarrow> field ''quantity'' dec_word ms;
     timestamp_ms \<leftarrow> field ''timestamp_ms'' dec_word ms;
     Some \<lparr>of_price = price, of_quantity = quantity, of_timestamp_ms = timestamp_ms\<rparr> })"

lemma order_fill_read [json_simps]: "dec_order_fill_c (enc_order_fill_s r) = Some r"
  by (cases r) (auto simp: enc_order_fill_s_def dec_order_fill_c_def field_defs json_simps list_all_iff split: option.splits)

definition enc_order_status_response_s :: "order_status_response \<Rightarrow> json" where
  "enc_order_status_response_s r = JObj [(''order_id'', JStr (osr_order_id r)), (''symbol'', JStr (osr_symbol r)),
     (''side'', enc_order_side (osr_side r)), (''price'', enc_word (osr_price r)),
     (''original_quantity'', enc_word (osr_original_quantity r)),
     (''remaining_quantity'', enc_word (osr_remaining_quantity r)),
     (''filled_quantity'', enc_word (osr_filled_quantity r)), (''status'', enc_order_status (osr_status r)),
     (''time_in_force'', enc_order_tif (osr_tif r)), (''created_at'', JStr (osr_created_at r)),
     (''updated_at'', JStr (osr_updated_at r)), (''fills'', (enc_list enc_order_fill_s) (osr_fills r))]"

definition dec_order_status_response_c :: "json \<Rightarrow> order_status_response option" where
  "dec_order_status_response_c = dec_obj (\<lambda>ms. do {
     order_id \<leftarrow> field ''order_id'' dec_str ms;
     symbol \<leftarrow> field ''symbol'' dec_str ms;
     side \<leftarrow> field ''side'' dec_order_side ms;
     price \<leftarrow> field ''price'' dec_word ms;
     original_quantity \<leftarrow> field ''original_quantity'' dec_word ms;
     remaining_quantity \<leftarrow> field ''remaining_quantity'' dec_word ms;
     filled_quantity \<leftarrow> field ''filled_quantity'' dec_word ms;
     status \<leftarrow> field ''status'' dec_order_status ms;
     time_in_force \<leftarrow> field ''time_in_force'' dec_order_tif ms;
     created_at \<leftarrow> field ''created_at'' dec_str ms;
     updated_at \<leftarrow> field ''updated_at'' dec_str ms;
     fills \<leftarrow> field ''fills'' (dec_list dec_order_fill_c) ms;
     Some \<lparr>osr_order_id = order_id, osr_symbol = symbol, osr_side = side, osr_price = price,
       osr_original_quantity = original_quantity, osr_remaining_quantity = remaining_quantity,
       osr_filled_quantity = filled_quantity, osr_status = status, osr_tif = time_in_force,
       osr_created_at = created_at, osr_updated_at = updated_at, osr_fills = fills\<rparr> })"

lemma order_status_response_read [json_simps]: "dec_order_status_response_c (enc_order_status_response_s r) = Some r"
  by (cases r) (auto simp: enc_order_status_response_s_def dec_order_status_response_c_def field_defs json_simps list_all_iff split: option.splits)

definition enc_order_list_s :: "order_list_response \<Rightarrow> json" where
  "enc_order_list_s r = JObj [(''orders'', (enc_list enc_order_status_response_s) (ol_orders r)),
     (''total'', enc_usize (ol_total r)), (''limit'', enc_usize (ol_limit r)), (''offset'', enc_usize (ol_offset r))]"

definition dec_order_list_c :: "json \<Rightarrow> order_list_response option" where
  "dec_order_list_c = dec_obj (\<lambda>ms. do {
     orders \<leftarrow> field ''orders'' (dec_list dec_order_status_response_c) ms;
     total \<leftarrow> field ''total'' dec_usize ms;
     limit \<leftarrow> field ''limit'' dec_usize ms;
     offset \<leftarrow> field ''offset'' dec_usize ms;
     Some \<lparr>ol_orders = orders, ol_total = total, ol_limit = limit, ol_offset = offset\<rparr> })"

definition order_list_ok :: "order_list_response \<Rightarrow> bool" where
  "order_list_ok r \<longleftrightarrow> ol_total r < 2 ^ 64 \<and> ol_limit r < 2 ^ 64 \<and> ol_offset r < 2 ^ 64"

lemma order_list_read [json_simps]: "order_list_ok r \<Longrightarrow> dec_order_list_c (enc_order_list_s r) = Some r"
  by (cases r) (auto simp: order_list_ok_def enc_order_list_s_def dec_order_list_c_def field_defs json_simps list_all_iff split: option.splits)

definition enc_execution_s :: "execution_info \<Rightarrow> json" where
  "enc_execution_s r = JObj ([(''execution_id'', JStr (ex_execution_id r)), (''order_id'', JStr (ex_order_id r)),
     (''symbol'', JStr (ex_symbol r)), (''side'', enc_order_side (ex_side r)), (''price'', enc_word (ex_price r)),
     (''quantity'', enc_word (ex_quantity r)), (''timestamp_ms'', enc_word (ex_timestamp_ms r))] @
     opt_member ''counterparty_order_id'' JStr (ex_counterparty r) @ [(''is_maker'', JBool (ex_is_maker r)),
     (''fee'', enc_word (ex_fee r))] @ opt_member ''edge'' JInt (ex_edge r))"

definition dec_execution_c :: "json \<Rightarrow> execution_info option" where
  "dec_execution_c = dec_obj (\<lambda>ms. do {
     execution_id \<leftarrow> field ''execution_id'' dec_str ms;
     order_id \<leftarrow> field ''order_id'' dec_str ms;
     symbol \<leftarrow> field ''symbol'' dec_str ms;
     side \<leftarrow> field ''side'' dec_order_side ms;
     price \<leftarrow> field ''price'' dec_word ms;
     quantity \<leftarrow> field ''quantity'' dec_word ms;
     timestamp_ms \<leftarrow> field ''timestamp_ms'' dec_word ms;
     counterparty_order_id \<leftarrow> opt_field ''counterparty_order_id'' dec_str ms;
     is_maker \<leftarrow> field ''is_maker'' dec_bool ms;
     fee \<leftarrow> field ''fee'' dec_word ms;
     edge \<leftarrow> opt_field ''edge'' dec_i64 ms;
     Some \<lparr>ex_execution_id = execution_id, ex_order_id = order_id, ex_symbol = symbol, ex_side = side,
       ex_price = price, ex_quantity = quantity, ex_timestamp_ms = timestamp_ms,
       ex_counterparty = counterparty_order_id, ex_is_maker = is_maker, ex_fee = fee, ex_edge = edge\<rparr> })"

definition execution_ok :: "execution_info \<Rightarrow> bool" where
  "execution_ok r \<longleftrightarrow> i64_opt (ex_edge r)"

lemma execution_read [json_simps]: "execution_ok r \<Longrightarrow> dec_execution_c (enc_execution_s r) = Some r"
  by (cases r) (auto simp: execution_ok_def enc_execution_s_def dec_execution_c_def field_defs json_simps list_all_iff split: option.splits)

definition enc_execution_summary_s :: "execution_summary \<Rightarrow> json" where
  "enc_execution_summary_s r = JObj [(''total_executions'', enc_word (es_total_executions r)),
     (''total_volume'', enc_word (es_total_volume r)), (''total_edge'', JInt (es_total_edge r)),
     (''maker_ratio'', enc_f64 (es_maker_ratio r))]"

definition dec_execution_summary_c :: "json \<Rightarrow> execution_summary option" where
  "dec_execution_summary_c = dec_obj (\<lambda>ms. do {
     total_executions \<leftarrow> field ''total_executions'' dec_word ms;
     total_volume \<leftarrow> field ''total_volume'' dec_word ms;
     total_edge \<leftarrow> field ''total_edge'' dec_i64 ms;
     maker_ratio \<leftarrow> field ''maker_ratio'' dec_f64 ms;
     Some \<lparr>es_total_executions = total_executions, es_total_volume = total_volume, es_total_edge = total_edge,
       es_maker_ratio = maker_ratio\<rparr> })"

definition execution_summary_ok :: "execution_summary \<Rightarrow> bool" where
  "execution_summary_ok r \<longleftrightarrow> in_i64 (es_total_edge r) \<and> f_is_finite (es_maker_ratio r)"

lemma execution_summary_read [json_simps]: "execution_summary_ok r \<Longrightarrow> dec_execution_summary_c (enc_execution_summary_s r) = Some r"
  by (cases r) (auto simp: execution_summary_ok_def enc_execution_summary_s_def dec_execution_summary_c_def field_defs json_simps list_all_iff split: option.splits)

definition enc_position_s :: "position_response \<Rightarrow> json" where
  "enc_position_s r = JObj ([(''symbol'', JStr (pr_symbol r)), (''underlying'', JStr (pr_underlying r)),
     (''quantity'', JInt (pr_quantity r)), (''average_price'', enc_word (pr_average_price r))] @
     opt_member ''current_price'' enc_word (pr_current_price r) @
     opt_member ''unrealized_pnl'' JInt (pr_unrealized_pnl r) @ [(''realized_pnl'', JInt (pr_realized_pnl r)),
     (''delta_exposure'', enc_f64 (pr_delta_exposure r))] @
     opt_member ''notional_value'' enc_word (pr_notional_value r))"

definition dec_position_c :: "json \<Rightarrow> position_response option" where
  "dec_position_c = dec_obj (\<lambda>ms. do {
     symbol \<leftarrow> field ''symbol'' dec_str ms;
     underlying \<leftarrow> field ''underlying'' dec_str ms;
     quantity \<leftarrow> field ''quantity'' dec_i64 ms;
     average_price \<leftarrow> field ''average_price'' dec_word ms;
     current_price \<leftarrow> opt_field ''current_price'' dec_word ms;
     unrealized_pnl \<leftarrow> opt_field ''unrealized_pnl'' dec_i64 ms;
     realized_pnl \<leftarrow> field ''realized_pnl'' dec_i64 ms;
     delta_exposure \<leftarrow> field ''delta_exposure'' dec_f64 ms;
     notional_value \<leftarrow> opt_field ''notional_value'' dec_word ms;
     Some \<lparr>pr_symbol = symbol, pr_underlying = underlying, pr_quantity = quantity,
       pr_average_price = average_price, pr_current_price = current_price, pr_unrealized_pnl = unrealized_pnl,
       pr_realized_pnl = realized_pnl, pr_delta_exposure = delta_exposure, pr_notional_value = notional_value\<rparr> })"

definition position_ok :: "position_response \<Rightarrow> bool" where
  "position_ok r \<longleftrightarrow> in_i64 (pr_quantity r) \<and> i64_opt (pr_unrealized_pnl r) \<and>
     in_i64 (pr_realized_pnl r) \<and> f_is_finite (pr_delta_exposure r)"

lemma position_read [json_simps]: "position_ok r \<Longrightarrow> dec_position_c (enc_position_s r) = Some r"
  by (cases r) (auto simp: position_ok_def enc_position_s_def dec_position_c_def field_defs json_simps list_all_iff split: option.splits)

definition enc_position_summary_s :: "position_summary \<Rightarrow> json" where
  "enc_position_summary_s r = JObj [(''total_unrealized_pnl'', JInt (ps_total_unrealized_pnl r)),
     (''total_realized_pnl'', JInt (ps_total_realized_pnl r)), (''net_delta'', enc_f64 (ps_net_delta r)),
     (''position_count'', enc_usize (ps_position_count r)), (''unpriced_count'', enc_usize (ps_unpriced_count r))]"

definition dec_position_summary_c :: "json \<Rightarrow> position_summary option" where
  "dec_position_summary_c = dec_obj (\<lambda>ms. do {
     total_unrealized_pnl \<leftarrow> field ''total_unrealized_pnl'' dec_i64 ms;
     total_realized_pnl \<leftarrow> field ''total_realized_pnl'' dec_i64 ms;
     net_delta \<leftarrow> field ''net_delta'' dec_f64 ms;
     position_count \<leftarrow> field ''position_count'' dec_usize ms;
     unpriced_count \<leftarrow> field ''unpriced_count'' dec_usize ms;
     Some \<lparr>ps_total_unrealized_pnl = total_unrealized_pnl, ps_total_realized_pnl = total_realized_pnl,
       ps_net_delta = net_delta, ps_position_count = position_count, ps_unpriced_count = unpriced_count\<rparr> })"

definition position_summary_ok :: "position_summary \<Rightarrow> bool" where
  "position_summary_ok r \<longleftrightarrow> in_i64 (ps_total_unrealized_pnl r) \<and>
     in_i64 (ps_total_realized_pnl r) \<and> f_is_finite (ps_net_delta r) \<and> ps_position_count r < 2 ^ 64 \<and>
     ps_unpriced_count r < 2 ^ 64"

lemma position_summary_read [json_simps]: "position_summary_ok r \<Longrightarrow> dec_position_summary_c (enc_position_summary_s r) = Some r"
  by (cases r) (auto simp: position_summary_ok_def enc_position_summary_s_def dec_position_summary_c_def field_defs json_simps list_all_iff split: option.splits)

definition enc_snapshot_info_s :: "orderbook_snapshot_info \<Rightarrow> json" where
  "enc_snapshot_info_s r = JObj [(''snapshot_id'', JStr (osi_snapshot_id r)),
     (''underlying'', JStr (osi_underlying r)), (''expiration'', JStr (osi_expiration r)),
     (''strike'', enc_word (osi_strike r)), (''style'', JStr (osi_style r)),
     (''order_count'', enc_word (osi_order_count r)), (''bid_levels'', enc_word (osi_bid_levels r)),
     (''ask_levels'', enc_word (osi_ask_levels r)), (''data'', JStr (osi_data r)),
     (''created_at'', enc_word (osi_created_at r))]"

definition dec_snapshot_info_c :: "json \<Rightarrow> orderbook_snapshot_info option" where
  "dec_snapshot_info_c = dec_obj (\<lambda>ms. do {
     snapshot_id \<leftarrow> field ''snapshot_id'' dec_str ms;
     underlying \<leftarrow> field ''underlying'' dec_str ms;
     expiration \<leftarrow> field ''expiration'' dec_str ms;
     strike \<leftarrow> field ''strike'' dec_word ms;
     style \<leftarrow> field ''style'' dec_str ms;
     order_count \<leftarrow> field ''order_count'' dec_word ms;
     bid_levels \<leftarrow> field ''bid_levels'' dec_word ms;
     ask_levels \<leftarrow> field ''ask_levels'' dec_word ms;
     data \<leftarrow> field ''data'' dec_str ms;
     created_at \<leftarrow> field ''created_at'' dec_word ms;
     Some \<lparr>osi_snapshot_id = snapshot_id, osi_underlying = underlying, osi_expiration = expiration,
       osi_strike = strike, osi_style = style, osi_order_count = order_count, osi_bid_levels = bid_levels,
       osi_ask_levels = ask_levels, osi_data = data, osi_created_at = created_at\<rparr> })"

lemma snapshot_info_read [json_simps]: "dec_snapshot_info_c (enc_snapshot_info_s r) = Some r"
  by (cases r) (auto simp: enc_snapshot_info_s_def dec_snapshot_info_c_def field_defs json_simps list_all_iff split: option.splits)

definition enc_create_snapshot_s :: "create_snapshot_response \<Rightarrow> json" where
  "enc_create_snapshot_s r = JObj [(''success'', JBool (csr_success r)), (''snapshot_id'', JStr (csr_snapshot_id r)),
     (''orderbooks_saved'', enc_word (csr_orderbooks_saved r)), (''orders_saved'', enc_word (csr_orders_saved r)),
     (''orderbooks_failed'', enc_word (csr_orderbooks_failed r)), (''timestamp_ms'', enc_word (csr_timestamp_ms r))]"

definition dec_create_snapshot_c :: "json \<Rightarrow> create_snapshot_response option" where
  "dec_create_snapshot_c = dec_obj (\<lambda>ms. do {
     success \<leftarrow> field ''success'' dec_bool ms;
     snapshot_id \<leftarrow> field ''snapshot_id'' dec_str ms;
     orderbooks_saved \<leftarrow> field ''orderbooks_saved'' dec_word ms;
     orders_saved \<leftarrow> field ''orders_saved'' dec_word ms;
     orderbooks_failed \<leftarrow> field_or ''orderbooks_failed'' 0 dec_word ms;
     timestamp_ms \<leftarrow> field ''timestamp_ms'' dec_word ms;
     Some \<lparr>csr_success = success, csr_snapshot_id = snapshot_id, csr_orderbooks_saved = orderbooks_saved,
       csr_orders_saved = orders_saved, csr_orderbooks_failed = orderbooks_failed, csr_timestamp_ms = timestamp_ms\<rparr> })"

lemma create_snapshot_read [json_simps]: "dec_create_snapshot_c (enc_create_snapshot_s r) = Some r"
  by (cases r) (auto simp: enc_create_snapshot_s_def dec_create_snapshot_c_def field_defs json_simps list_all_iff split: option.splits)

definition enc_snapshot_summary_s :: "snapshot_summary \<Rightarrow> json" where
  "enc_snapshot_summary_s r = JObj [(''snapshot_id'', JStr (sy_snapshot_id r)),
     (''orderbook_count'', enc_word (sy_orderbook_count r)), (''total_orders'', enc_word (sy_total_orders r)),
     (''created_at'', enc_word (sy_created_at r))]"

definition dec_snapshot_summary_c :: "json \<Rightarrow> snapshot_summary option" where
  "dec_snapshot_summary_c = dec_obj (\<lambda>ms. do {
     snapshot_id \<leftarrow> field ''snapshot_id'' dec_str ms;
     orderbook_count \<leftarrow> field ''orderbook_count'' dec_word ms;
     total_orders \<leftarrow> field ''total_orders'' dec_word ms;
     created_at \<leftarrow> field ''created_at'' dec_word ms;
     Some \<lparr>sy_snapshot_id = snapshot_id, sy_orderbook_count = orderbook_count, sy_total_orders = total_orders,
       sy_created_at = created_at\<rparr> })"

lemma snapshot_summary_read [json_simps]: "dec_snapshot_summary_c (enc_snapshot_summary_s r) = Some r"
  by (cases r) (auto simp: enc_snapshot_summary_s_def dec_snapshot_summary_c_def field_defs json_simps list_all_iff split: option.splits)

definition enc_restore_snapshot_s :: "restore_snapshot_response \<Rightarrow> json" where
  "enc_restore_snapshot_s r = JObj [(''success'', JBool (rsr_success r)), (''snapshot_id'', JStr (rsr_snapshot_id r)),
     (''orderbooks_restored'', enc_word (rsr_orderbooks_restored r)),
     (''orders_restored'', enc_word (rsr_orders_restored r)),
     (''orderbooks_failed'', enc_word (rsr_orderbooks_failed r)), (''timestamp_ms'', enc_word (rsr_timestamp_ms r))]"

definition dec_restore_snapshot_c :: "json \<Rightarrow> restore_snapshot_response option" where
  "dec_restore_snapshot_c = dec_obj (\<lambda>ms. do {
     success \<leftarrow> field ''success'' dec_bool ms;
     snapshot_id \<leftarrow> field ''snapshot_id'' dec_str ms;
     orderbooks_restored \<leftarrow> field ''orderbooks_restored'' dec_word ms;
     orders_restored \<leftarrow> field ''orders_restored'' dec_word ms;
     orderbooks_failed \<leftarrow> field_or ''orderbooks_failed'' 0 dec_word ms;
     timestamp_ms \<leftarrow> field ''timestamp_ms'' dec_word ms;
     Some \<lparr>rsr_success = success, rsr_snapshot_id = snapshot_id,
       rsr_orderbooks_restored = orderbooks_restored, rsr_orders_restored = orders_restored,
       rsr_orderbooks_failed = orderbooks_failed, rsr_timestamp_ms = timestamp_ms\<rparr> })"

lemma restore_snapshot_read [json_simps]: "dec_restore_snapshot_c (enc_restore_snapshot_s r) = Some r"
  by (cases r) (auto simp: enc_restore_snapshot_s_def dec_restore_snapshot_c_def field_defs json_simps list_all_iff split: option.splits)

definition enc_last_trade_s :: "last_trade_response \<Rightarrow> json" where
  "enc_last_trade_s r = JObj [(''symbol'', JStr (ltr_symbol r)), (''price'', enc_word (ltr_price r)),
     (''quantity'', enc_word (ltr_quantity r)), (''side'', enc_order_side (ltr_side r)),
     (''timestamp_ms'', enc_word (ltr_timestamp_ms r)), (''trade_id'', JStr (ltr_trade_id r))]"

definition dec_last_trade_c :: "json \<Rightarrow> last_trade_response option" where
  "dec_last_trade_c = dec_obj (\<lambda>ms. do {
     symbol \<leftarrow> field ''symbol'' dec_str ms;
     price \<leftarrow> field ''price'' dec_word ms;
     quantity \<leftarrow> field ''quantity'' dec_word ms;
     side \<leftarrow> field ''side'' dec_order_side ms;
     timestamp_ms \<leftarrow> field ''timestamp_ms'' dec_word ms;
     trade_id \<leftarrow> field ''trade_id'' dec_str ms;
     Some \<lparr>ltr_symbol = symbol, ltr_price = price, ltr_quantity = quantity, ltr_side = side,
       ltr_timestamp_ms = timestamp_ms, ltr_trade_id = trade_id\<rparr> })"

lemma last_trade_read [json_simps]: "dec_last_trade_c (enc_last_trade_s r) = Some r"
  by (cases r) (auto simp: enc_last_trade_s_def dec_last_trade_c_def field_defs json_simps list_all_iff split: option.splits)

definition enc_ohlc_bar_s :: "ohlc_bar \<Rightarrow> json" where
  "enc_ohlc_bar_s r = JObj [(''timestamp'', enc_word (bar_timestamp r)), (''open'', enc_word (bar_open r)),
     (''high'', enc_word (bar_high r)), (''low'', enc_word (bar_low r)), (''close'', enc_word (bar_close r)),
     (''volume'', enc_word (bar_volume r)), (''trade_count'', enc_word (bar_trade_count r))]"

definition dec_ohlc_bar_c :: "json \<Rightarrow> ohlc_bar option" where
  "dec_ohlc_bar_c = dec_obj (\<lambda>ms. do {
     timestamp \<leftarrow> field ''timestamp'' dec_word ms;
     open_price \<leftarrow> field ''open'' dec_word ms;
     high \<leftarrow> field ''high'' dec_word ms;
     low \<leftarrow> field ''low'' dec_word ms;
     close \<leftarrow> field ''close'' dec_word ms;
     volume \<leftarrow> field ''volume'' dec_word ms;
     trade_count \<leftarrow> field ''trade_count'' dec_word ms;
     Some \<lparr>bar_timestamp = timestamp, bar_open = open_price, bar_high = high, bar_low = low,
       bar_close = close, bar_volume = volume, bar_trade_count = trade_count\<rparr> })"

lemma ohlc_bar_read [json_simps]: "dec_ohlc_bar_c (enc_ohlc_bar_s r) = Some r"
  by (cases r) (auto simp: enc_ohlc_bar_s_def dec_ohlc_bar_c_def field_defs json_simps list_all_iff split: option.splits)

definition enc_ohlc_s :: "ohlc_response \<Rightarrow> json" where
  "enc_ohlc_s r = JObj [(''symbol'', JStr (or_symbol r)), (''interval'', JStr (or_interval r)),
     (''bars'', (enc_list enc_ohlc_bar_s) (or_bars r))]"

definition dec_ohlc_c :: "json \<Rightarrow> ohlc_response option" where
  "dec_ohlc_c = dec_obj (\<lambda>ms. do {
     symbol \<leftarrow> field ''symbol'' dec_str ms;
     interval \<leftarrow> field ''interval'' dec_str ms;
     bars \<leftarrow> field ''bars'' (dec_list dec_ohlc_bar_c) ms;
     Some \<lparr>or_symbol = symbol, or_interval = interval, or_bars = bars\<rparr> })"

lemma ohlc_read [json_simps]: "dec_ohlc_c (enc_ohlc_s r) = Some r"
  by (cases r) (auto simp: enc_ohlc_s_def dec_ohlc_c_def field_defs json_simps list_all_iff split: option.splits)

definition enc_controls_s :: "system_control_response \<Rightarrow> json" where
  "enc_controls_s r = JObj [(''master_enabled'', JBool (sc_master_enabled r)),
     (''spread_multiplier'', enc_f64 (sc_spread_multiplier r)), (''size_scalar'', enc_f64 (sc_size_scalar r)),
     (''directional_skew'', enc_f64 (sc_directional_skew r))]"

definition dec_controls_c :: "json \<Rightarrow> system_control_response option" where
  "dec_controls_c = dec_obj (\<lambda>ms. do {
     master_enabled \<leftarrow> field ''master_enabled'' dec_bool ms;
     spread_multiplier \<leftarrow> field ''spread_multiplier'' dec_f64 ms;
     size_scalar \<leftarrow> field ''size_scalar'' dec_f64 ms;
     directional_skew \<leftarrow> field ''directional_skew'' dec_f64 ms;
     Some \<lparr>sc_master_enabled = master_enabled, sc_spread_multiplier = spread_multiplier,
       sc_size_scalar = size_scalar, sc_directional_skew = directional_skew\<rparr> })"

definition controls_ok :: "system_control_response \<Rightarrow> bool" where
  "controls_ok r \<longleftrightarrow> f_is_finite (sc_spread_multiplier r) \<and>
     f_is_finite (sc_size_scalar r) \<and> f_is_finite (sc_directional_skew r)"

lemma controls_read [json_simps]: "controls_ok r \<Longrightarrow> dec_controls_c (enc_controls_s r) = Some r"
  by (cases r) (auto simp: controls_ok_def enc_controls_s_def dec_controls_c_def field_defs json_simps list_all_iff split: option.splits)

definition enc_kill_switch_s :: "kill_switch_response \<Rightarrow> json" where
  "enc_kill_switch_s r = JObj [(''success'', JBool (kr_success r)), (''message'', JStr (kr_message r)),
     (''master_enabled'', JBool (kr_master_enabled r))]"

definition dec_kill_switch_c :: "json \<Rightarrow> kill_switch_response option" where
  "dec_kill_switch_c = dec_obj (\<lambda>ms. do {
     success \<leftarrow> field ''success'' dec_bool ms;
     message \<leftarrow> field ''message'' dec_str ms;
     master_enabled \<leftarrow> field ''master_enabled'' dec_bool ms;
     Some \<lparr>kr_success = success, kr_message = message, kr_master_enabled = master_enabled\<rparr> })"

lemma kill_switch_read [json_simps]: "dec_kill_switch_c (enc_kill_switch_s r) = Some r"
  by (cases r) (auto simp: enc_kill_switch_s_def dec_kill_switch_c_def field_defs json_simps list_all_iff split: option.splits)

definition enc_update_parameters_s :: "update_parameters_response \<Rightarrow> json" where
  "enc_update_parameters_s r = JObj [(''success'', JBool (pr_success r)),
     (''spread_multiplier'', enc_f64 (pr_spread_multiplier r)), (''size_scalar'', enc_f64 (pr_size_scalar r)),
     (''directional_skew'', enc_f64 (pr_directional_skew r))]"

definition dec_update_parameters_c :: "json \<Rightarrow> update_parameters_response option" where
  "dec_update_parameters_c = dec_obj (\<lambda>ms. do {
     success \<leftarrow> field ''success'' dec_bool ms;
     spread_multiplier \<leftarrow> field ''spread_multiplier'' dec_f64 ms;
     size_scalar \<leftarrow> field ''size_scalar'' dec_f64 ms;
     directional_skew \<leftarrow> field ''directional_skew'' dec_f64 ms;
     Some \<lparr>pr_success = success, pr_spread_multiplier = spread_multiplier, pr_size_scalar = size_scalar,
       pr_directional_skew = directional_skew\<rparr> })"

definition update_parameters_ok :: "update_parameters_response \<Rightarrow> bool" where
  "update_parameters_ok r \<longleftrightarrow> f_is_finite (pr_spread_multiplier r) \<and>
     f_is_finite (pr_size_scalar r) \<and> f_is_finite (pr_directional_skew r)"

lemma update_parameters_read [json_simps]: "update_parameters_ok r \<Longrightarrow> dec_update_parameters_c (enc_update_parameters_s r) = Some r"
  by (cases r) (auto simp: update_parameters_ok_def enc_update_parameters_s_def dec_update_parameters_c_def field_defs json_simps list_all_iff split: option.splits)

definition enc_instrument_toggle_s :: "instrument_toggle_response \<Rightarrow> json" where
  "enc_instrument_toggle_s r = JObj [(''success'', JBool (ir_success r)), (''symbol'', JStr (ir_symbol r)),
     (''enabled'', JBool (ir_enabled r))]"

definition dec_instrument_toggle_c :: "json \<Rightarrow> instrument_toggle_response option" where
  "dec_instrument_toggle_c = dec_obj (\<lambda>ms. do {
     success \<leftarrow> field ''success'' dec_bool ms;
     symbol \<leftarrow> field ''symbol'' dec_str ms;
     enabled \<leftarrow> field ''enabled'' dec_bool ms;
     Some \<lparr>ir_success = success, ir_symbol = symbol, ir_enabled = enabled\<rparr> })"

lemma instrument_toggle_read [json_simps]: "dec_instrument_toggle_c (enc_instrument_toggle_s r) = Some r"
  by (cases r) (auto simp: enc_instrument_toggle_s_def dec_instrument_toggle_c_def field_defs json_simps list_all_iff split: option.splits)

definition enc_instrument_status_s :: "instrument_status \<Rightarrow> json" where
  "enc_instrument_status_s r = JObj [(''symbol'', JStr (is_symbol r)),
     (''quoting_enabled'', JBool (is_quoting_enabled r)), (''current_price'', (enc_opt enc_f64) (is_current_price r))]"

definition dec_instrument_status_c :: "json \<Rightarrow> instrument_status option" where
  "dec_instrument_status_c = dec_obj (\<lambda>ms. do {
     symbol \<leftarrow> field ''symbol'' dec_str ms;
     quoting_enabled \<leftarrow> field ''quoting_enabled'' dec_bool ms;
     current_price \<leftarrow> opt_field ''current_price'' dec_f64 ms;
     Some \<lparr>is_symbol = symbol, is_quoting_enabled = quoting_enabled, is_current_price = current_price\<rparr> })"

definition instrument_status_ok :: "instrument_status \<Rightarrow> bool" where
  "instrument_status_ok r \<longleftrightarrow> finite_opt (is_current_price r)"

lemma instrument_status_read [json_simps]: "instrument_status_ok r \<Longrightarrow> dec_instrument_status_c (enc_instrument_status_s r) = Some r"
  by (cases r) (auto simp: instrument_status_ok_def enc_instrument_status_s_def dec_instrument_status_c_def field_defs json_simps list_all_iff split: option.splits)

definition enc_insert_price_s :: "insert_price_response \<Rightarrow> json" where
  "enc_insert_price_s r = JObj [(''success'', JBool (ip_success r)), (''symbol'', JStr (ip_symbol r)),
     (''price_cents'', JInt (ip_price_cents r)), (''timestamp'', JStr (ip_timestamp r))]"

definition dec_insert_price_c :: "json \<Rightarrow> insert_price_response option" where
  "dec_insert_price_c = dec_obj (\<lambda>ms. do {
     success \<leftarrow> field ''success'' dec_bool ms;
     symbol \<leftarrow> field ''symbol'' dec_str ms;
     price_cents \<leftarrow> field ''price_cents'' dec_i64 ms;
     timestamp \<leftarrow> field ''timestamp'' dec_str ms;
     Some \<lparr>ip_success = success, ip_symbol = symbol, ip_price_cents = price_cents, ip_timestamp = timestamp\<rparr> })"

definition insert_price_ok :: "insert_price_response \<Rightarrow> bool" where
  "insert_price_ok r \<longleftrightarrow> in_i64 (ip_price_cents r)"

lemma insert_price_read [json_simps]: "insert_price_ok r \<Longrightarrow> dec_insert_price_c (enc_insert_price_s r) = Some r"
  by (cases r) (auto simp: insert_price_ok_def enc_insert_price_s_def dec_insert_price_c_def field_defs json_simps list_all_iff split: option.splits)

definition enc_latest_price_s :: "latest_price_response \<Rightarrow> json" where
  "enc_latest_price_s r = JObj [(''symbol'', JStr (lp_symbol r)), (''price'', enc_f64 (lp_price r)),
     (''bid'', (enc_opt enc_f64) (lp_bid r)), (''ask'', (enc_opt enc_f64) (lp_ask r)),
     (''volume'', (enc_opt JInt) (lp_volume r)), (''timestamp'', JStr (lp_timestamp r))]"

definition dec_latest_price_c :: "json \<Rightarrow> latest_price_response option" where
  "dec_latest_price_c = dec_obj (\<lambda>ms. do {
     symbol \<leftarrow> field ''symbol'' dec_str ms;
     price \<leftarrow> field ''price'' dec_f64 ms;
     bid \<leftarrow> opt_field ''bid'' dec_f64 ms;
     ask \<leftarrow> opt_field ''ask'' dec_f64 ms;
     volume \<leftarrow> opt_field ''volume'' dec_i64 ms;
     timestamp \<leftarrow> field ''timestamp'' dec_str ms;
     Some \<lparr>lp_symbol = symbol, lp_price = price, lp_bid = bid, lp_ask = ask, lp_volume = volume,
       lp_timestamp = timestamp\<rparr> })"

definition latest_price_ok :: "latest_price_response \<Rightarrow> bool" where
  "latest_price_ok r \<longleftrightarrow> f_is_finite (lp_price r) \<and> finite_opt (lp_bid r) \<and>
     finite_opt (lp_ask r) \<and> i64_opt (lp_volume r)"

lemma latest_price_read [json_simps]: "latest_price_ok r \<Longrightarrow> dec_latest_price_c (enc_latest_price_s r) = Some r"
  by (cases r) (auto simp: latest_price_ok_def enc_latest_price_s_def dec_latest_price_c_def field_defs json_simps list_all_iff split: option.splits)

section \<open>Answers with parts of their own\<close>

text \<open>The client keeps two of the five fields of the answer to an order.\<close>

record c_add_order_response =
  caor_order_id :: string
  caor_message :: string

definition enc_add_order_s :: "add_order_response \<Rightarrow> json" where
  "enc_add_order_s r = JObj [(''order_id'', JStr (aor_order_id r)), (''status'', enc_limit_order_status (aor_status r)),
     (''filled_quantity'', enc_word (aor_filled_quantity r)), (''remaining_quantity'', enc_word (aor_remaining_quantity r)),
     (''message'', JStr (aor_message r))]"

definition dec_add_order_c :: "json \<Rightarrow> c_add_order_response option" where
  "dec_add_order_c = dec_obj (\<lambda>ms. do {
     order_id \<leftarrow> field ''order_id'' dec_str ms;
     message \<leftarrow> field ''message'' dec_str ms;
     Some \<lparr>caor_order_id = order_id, caor_message = message\<rparr> })"

lemma add_order_answer_read:
  "dec_add_order_c (enc_add_order_s r) = Some \<lparr>caor_order_id = aor_order_id r, caor_message = aor_message r\<rparr>"
  by (simp add: enc_add_order_s_def dec_add_order_c_def field_defs json_simps)

text \<open>The average price of a market order stands beside the rest of the answer in the model.\<close>

definition enc_market_order_s :: "market_order_response \<times> f64 option \<Rightarrow> json" where
  "enc_market_order_s ra = (let (r, average_price) = ra in
     JObj [(''order_id'', JStr (mor_order_id r)), (''status'', enc_market_order_status (mor_status r)),
       (''filled_quantity'', enc_word (mor_filled_quantity r)), (''remaining_quantity'', enc_word (mor_remaining_quantity r)),
       (''average_price'', enc_opt enc_f64 average_price), (''fills'', enc_list enc_fill_info_s (mor_fills r))])"

definition dec_market_order_c :: "json \<Rightarrow> (market_order_response \<times> f64 option) option" where
  "dec_market_order_c = dec_obj (\<lambda>ms. do {
     order_id \<leftarrow> field ''order_id'' dec_str ms;
     status \<leftarrow> field ''status'' dec_market_order_status ms;
     filled_quantity \<leftarrow> field ''filled_quantity'' dec_word ms;
     remaining_quantity \<leftarrow> field ''remaining_quantity'' dec_word ms;
     average_price \<leftarrow> opt_field ''average_price'' dec_f64 ms;
     fills \<leftarrow> field ''fills'' (dec_list dec_fill_info_c) ms;
     Some (\<lparr>mor_order_id = order_id, mor_status = status, mor_filled_quantity = filled_quantity,
       mor_remaining_quantity = remaining_quantity, mor_fills = fills\<rparr>, average_price) })"

lemma market_order_answer_read: "finite_opt a \<Longrightarrow> dec_market_order_c (enc_market_order_s (r, a)) = Some (r, a)"
  by (cases r) (simp add: enc_market_order_s_def dec_market_order_c_def field_defs json_simps)

text \<open>The warnings are left out when there are none.\<close>

definition enc_bulk_order_s :: "bulk_order_response \<Rightarrow> json" where
  "enc_bulk_order_s r = JObj ([(''success_count'', enc_usize (bor_success_count r)), (''failure_count'', enc_usize (bor_failure_count r)),
     (''results'', enc_list enc_bulk_result_s (bor_results r)), (''rolled_back'', JBool (bor_rolled_back r))]
     @ (if bor_rollback_warnings r = [] then [] else [(''rollback_warnings'', enc_list JStr (bor_rollback_warnings r))]))"

definition dec_bulk_order_c :: "json \<Rightarrow> bulk_order_response option" where
  "dec_bulk_order_c = dec_obj (\<lambda>ms. do {
     success_count \<leftarrow> field ''success_count'' dec_usize ms;
     failure_count \<leftarrow> field ''failure_count'' dec_usize ms;
     results \<leftarrow> field ''results'' (dec_list dec_bulk_result_c) ms;
     rolled_back \<leftarrow> field ''rolled_back'' dec_bool ms;
     rollback_warnings \<leftarrow> field_or ''rollback_warnings'' [] (dec_list dec_str) ms;
     Some \<lparr>bor_success_count = success_count, bor_failure_count = failure_count, bor_results = results,
       bor_rolled_back = rolled_back, bor_rollback_warnings = rollback_warnings\<rparr> })"

definition bulk_order_ok :: "bulk_order_response \<Rightarrow> bool" where
  "bulk_order_ok r \<longleftrightarrow> bor_success_count r < 2 ^ 64 \<and> bor_failure_count r < 2 ^ 64 \<and> list_all bulk_result_ok (bor_results r)"

lemma bulk_order_answer_read: "bulk_order_ok r \<Longrightarrow> dec_bulk_order_c (enc_bulk_order_s r) = Some r"
  by (cases r) (auto simp: bulk_order_ok_def enc_bulk_order_s_def dec_bulk_order_c_def field_defs json_simps list_all_iff)

definition enc_executions_s :: "execution_info list \<times> execution_summary \<Rightarrow> json" where
  "enc_executions_s r = JObj [(''executions'', enc_list enc_execution_s (fst r)), (''summary'', enc_execution_summary_s (snd r))]"

definition dec_executions_c :: "json \<Rightarrow> (execution_info list \<times> execution_summary) option" where
  "dec_executions_c = dec_obj (\<lambda>ms. do {
     executions \<leftarrow> field ''executions'' (dec_list dec_execution_c) ms;
     summary \<leftarrow> field ''summary'' dec_execution_summary_c ms;
     Some (executions, summary) })"

lemma executions_read:
  "list_all execution_ok es \<Longrightarrow> execution_summary_ok s \<Longrightarrow> dec_executions_c (enc_executions_s (es, s)) = Some (es, s)"
  by (simp add: enc_executions_s_def dec_executions_c_def field_defs json_simps list_all_iff)

definition enc_positions_s :: "position_response list \<times> position_summary \<Rightarrow> json" where
  "enc_positions_s r = JObj [(''positions'', enc_list enc_position_s (fst r)), (''summary'', enc_position_summary_s (snd r))]"

definition dec_positions_c :: "json \<Rightarrow> (position_response list \<times> position_summary) option" where
  "dec_positions_c = dec_obj (\<lambda>ms. do {
     positions \<leftarrow> field ''positions'' (dec_list dec_position_c) ms;
     summary \<leftarrow> field ''summary'' dec_position_summary_c ms;
     Some (positions, summary) })"

lemma positions_read:
  "list_all position_ok ps \<Longrightarrow> position_summary_ok s \<Longrightarrow> dec_positions_c (enc_positions_s (ps, s)) = Some (ps, s)"
  by (simp add: enc_positions_s_def dec_positions_c_def field_defs json_simps list_all_iff)

definition enc_snapshots_s :: "snapshot_summary list \<times> u64 \<Rightarrow> json" where
  "enc_snapshots_s r = JObj [(''snapshots'', enc_list enc_snapshot_summary_s (fst r)), (''total'', enc_word (snd r))]"

definition dec_snapshots_c :: "json \<Rightarrow> (snapshot_summary list \<times> u64) option" where
  "dec_snapshots_c = dec_obj (\<lambda>ms. do {
     snapshots \<leftarrow> field ''snapshots'' (dec_list dec_snapshot_summary_c) ms;
     total \<leftarrow> field ''total'' dec_word ms;
     Some (snapshots, total) })"

lemma snapshots_read: "dec_snapshots_c (enc_snapshots_s r) = Some r"
  by (cases r) (simp add: enc_snapshots_s_def dec_snapshots_c_def field_defs json_simps)

definition enc_instruments_s :: "instrument_status list \<Rightarrow> json" where
  "enc_instruments_s is = JObj [(''instruments'', enc_list enc_instrument_status_s is)]"

definition dec_instruments_c :: "json \<Rightarrow> instrument_status list option" where
  "dec_instruments_c = dec_obj (field ''instruments'' (dec_list dec_instrument_status_c))"

lemma instruments_read: "list_all instrument_status_ok is \<Longrightarrow> dec_instruments_c (enc_instruments_s is) = Some is"
  by (simp add: enc_instruments_s_def dec_instruments_c_def field_defs json_simps list_all_iff)

definition enc_token_s :: "string \<times> string \<Rightarrow> json" where
  "enc_token_s r = JObj [(''token'', JStr (fst r)), (''expires_at'', JStr (snd r))]"

definition dec_token_c :: "json \<Rightarrow> (string \<times> string) option" where
  "dec_token_c = dec_obj (\<lambda>ms. do { token \<leftarrow> field ''token'' dec_str ms; expires_at \<leftarrow> field ''expires_at'' dec_str ms; Some (token, expires_at) })"

lemma token_answer_read: "dec_token_c (enc_token_s r) = Some r"
  by (cases r) (simp add: enc_token_s_def dec_token_c_def field_defs json_simps)

section \<open>The client reads what the server writes\<close>



end
