(* ===== verification/Wire_Market.thy ===== *)
theory Wire_Market
  imports Wire_Responses Analytics
begin

text \<open>
  The answers about the book hierarchy, quotes, the option chain and the analytics on the wire,
  in the style of \<open>Wire_Responses\<close>.
\<close>

section \<open>Structs\<close>

definition enc_health_s :: "health_response \<Rightarrow> json" where
  "enc_health_s r = JObj [(''status'', JStr (hr_status r)), (''version'', JStr (hr_version r))]"

definition dec_health_c :: "json \<Rightarrow> health_response option" where
  "dec_health_c = dec_obj (\<lambda>ms. do {
     status \<leftarrow> field ''status'' dec_str ms;
     version \<leftarrow> field ''version'' dec_str ms;
     Some \<lparr>hr_status = status, hr_version = version\<rparr> })"

lemma health_read [json_simps]: "dec_health_c (enc_health_s r) = Some r"
  by (cases r) (auto simp: enc_health_s_def dec_health_c_def field_defs json_simps list_all_iff split: option.splits)

definition enc_global_stats_s :: "global_stats_response \<Rightarrow> json" where
  "enc_global_stats_s r = JObj [(''underlying_count'', enc_usize (gs_underlying_count r)),
     (''total_expirations'', enc_usize (gs_total_expirations r)), (''total_strikes'', enc_usize (gs_total_strikes r)),
     (''total_orders'', enc_usize (gs_total_orders r))]"

definition dec_global_stats_c :: "json \<Rightarrow> global_stats_response option" where
  "dec_global_stats_c = dec_obj (\<lambda>ms. do {
     underlying_count \<leftarrow> field ''underlying_count'' dec_usize ms;
     total_expirations \<leftarrow> field ''total_expirations'' dec_usize ms;
     total_strikes \<leftarrow> field ''total_strikes'' dec_usize ms;
     total_orders \<leftarrow> field ''total_orders'' dec_usize ms;
     Some \<lparr>gs_underlying_count = underlying_count, gs_total_expirations = total_expirations,
       gs_total_strikes = total_strikes, gs_total_orders = total_orders\<rparr> })"

definition global_stats_ok :: "global_stats_response \<Rightarrow> bool" where
  "global_stats_ok r \<longleftrightarrow> gs_underlying_count r < 2 ^ 64 \<and>
     gs_total_expirations r < 2 ^ 64 \<and> gs_total_strikes r < 2 ^ 64 \<and> gs_total_orders r < 2 ^ 64"

lemma global_stats_read [json_simps]: "global_stats_ok r \<Longrightarrow> dec_global_stats_c (enc_global_stats_s r) = Some r"
  by (cases r) (auto simp: global_stats_ok_def enc_global_stats_s_def dec_global_stats_c_def field_defs json_simps list_all_iff split: option.splits)

definition enc_underlying_summary_s :: "underlying_summary \<Rightarrow> json" where
  "enc_underlying_summary_s r = JObj [(''symbol'', JStr (us_symbol r)),
     (''expiration_count'', enc_usize (us_expiration_count r)),
     (''total_strike_count'', enc_usize (us_total_strike_count r)),
     (''total_order_count'', enc_usize (us_total_order_count r))]"

definition dec_underlying_summary_c :: "json \<Rightarrow> underlying_summary option" where
  "dec_underlying_summary_c = dec_obj (\<lambda>ms. do {
     symbol \<leftarrow> field ''symbol'' dec_str ms;
     expiration_count \<leftarrow> field ''expiration_count'' dec_usize ms;
     total_strike_count \<leftarrow> field ''total_strike_count'' dec_usize ms;
     total_order_count \<leftarrow> field ''total_order_count'' dec_usize ms;
     Some \<lparr>us_symbol = symbol, us_expiration_count = expiration_count,
       us_total_strike_count = total_strike_count, us_total_order_count = total_order_count\<rparr> })"

definition underlying_summary_ok :: "underlying_summary \<Rightarrow> bool" where
  "underlying_summary_ok r \<longleftrightarrow> us_expiration_count r < 2 ^ 64 \<and>
     us_total_strike_count r < 2 ^ 64 \<and> us_total_order_count r < 2 ^ 64"

lemma underlying_summary_read [json_simps]: "underlying_summary_ok r \<Longrightarrow> dec_underlying_summary_c (enc_underlying_summary_s r) = Some r"
  by (cases r) (auto simp: underlying_summary_ok_def enc_underlying_summary_s_def dec_underlying_summary_c_def field_defs json_simps list_all_iff split: option.splits)

definition enc_expiration_summary_s :: "expiration_summary \<Rightarrow> json" where
  "enc_expiration_summary_s r = JObj [(''expiration'', JStr (xs_expiration r)),
     (''strike_count'', enc_usize (xs_strike_count r)), (''total_order_count'', enc_usize (xs_total_order_count r))]"

definition dec_expiration_summary_c :: "json \<Rightarrow> expiration_summary option" where
  "dec_expiration_summary_c = dec_obj (\<lambda>ms. do {
     expiration \<leftarrow> field ''expiration'' dec_str ms;
     strike_count \<leftarrow> field ''strike_count'' dec_usize ms;
     total_order_count \<leftarrow> field ''total_order_count'' dec_usize ms;
     Some \<lparr>xs_expiration = expiration, xs_strike_count = strike_count, xs_total_order_count = total_order_count\<rparr> })"

definition expiration_summary_ok :: "expiration_summary \<Rightarrow> bool" where
  "expiration_summary_ok r \<longleftrightarrow> xs_strike_count r < 2 ^ 64 \<and> xs_total_order_count r < 2 ^ 64"

lemma expiration_summary_read [json_simps]: "expiration_summary_ok r \<Longrightarrow> dec_expiration_summary_c (enc_expiration_summary_s r) = Some r"
  by (cases r) (auto simp: expiration_summary_ok_def enc_expiration_summary_s_def dec_expiration_summary_c_def field_defs json_simps list_all_iff split: option.splits)

definition enc_quote_s :: "quote_response \<Rightarrow> json" where
  "enc_quote_s r = JObj [(''bid_price'', (enc_opt enc_word) (qr_bid_price r)),
     (''bid_size'', enc_word (qr_bid_size r)), (''ask_price'', (enc_opt enc_word) (qr_ask_price r)),
     (''ask_size'', enc_word (qr_ask_size r)), (''timestamp_ms'', enc_word (qr_timestamp_ms r))]"

definition dec_quote_c :: "json \<Rightarrow> quote_response option" where
  "dec_quote_c = dec_obj (\<lambda>ms. do {
     bid_price \<leftarrow> opt_field ''bid_price'' dec_word ms;
     bid_size \<leftarrow> field ''bid_size'' dec_word ms;
     ask_price \<leftarrow> opt_field ''ask_price'' dec_word ms;
     ask_size \<leftarrow> field ''ask_size'' dec_word ms;
     timestamp_ms \<leftarrow> field ''timestamp_ms'' dec_word ms;
     Some \<lparr>qr_bid_price = bid_price, qr_bid_size = bid_size, qr_ask_price = ask_price, qr_ask_size = ask_size,
       qr_timestamp_ms = timestamp_ms\<rparr> })"

lemma quote_read [json_simps]: "dec_quote_c (enc_quote_s r) = Some r"
  by (cases r) (auto simp: enc_quote_s_def dec_quote_c_def field_defs json_simps list_all_iff split: option.splits)

definition enc_strike_summary_s :: "strike_summary \<Rightarrow> json" where
  "enc_strike_summary_s r = JObj [(''strike'', enc_word (ks_strike r)),
     (''call_order_count'', enc_usize (ks_call_order_count r)),
     (''put_order_count'', enc_usize (ks_put_order_count r)), (''call_quote'', enc_quote_s (ks_call_quote r)),
     (''put_quote'', enc_quote_s (ks_put_quote r))]"

definition dec_strike_summary_c :: "json \<Rightarrow> strike_summary option" where
  "dec_strike_summary_c = dec_obj (\<lambda>ms. do {
     strike \<leftarrow> field ''strike'' dec_word ms;
     call_order_count \<leftarrow> field ''call_order_count'' dec_usize ms;
     put_order_count \<leftarrow> field ''put_order_count'' dec_usize ms;
     call_quote \<leftarrow> field ''call_quote'' dec_quote_c ms;
     put_quote \<leftarrow> field ''put_quote'' dec_quote_c ms;
     Some \<lparr>ks_strike = strike, ks_call_order_count = call_order_count, ks_put_order_count = put_order_count,
       ks_call_quote = call_quote, ks_put_quote = put_quote\<rparr> })"

definition strike_summary_ok :: "strike_summary \<Rightarrow> bool" where
  "strike_summary_ok r \<longleftrightarrow> ks_call_order_count r < 2 ^ 64 \<and> ks_put_order_count r < 2 ^ 64"

lemma strike_summary_read [json_simps]: "strike_summary_ok r \<Longrightarrow> dec_strike_summary_c (enc_strike_summary_s r) = Some r"
  by (cases r) (auto simp: strike_summary_ok_def enc_strike_summary_s_def dec_strike_summary_c_def field_defs json_simps list_all_iff split: option.splits)

definition enc_option_book_s :: "order_book_snapshot_response \<Rightarrow> json" where
  "enc_option_book_s r = JObj [(''symbol'', JStr (obs_symbol r)),
     (''total_bid_depth'', enc_word (obs_total_bid_depth r)), (''total_ask_depth'', enc_word (obs_total_ask_depth r)),
     (''bid_level_count'', enc_usize (obs_bid_level_count r)),
     (''ask_level_count'', enc_usize (obs_ask_level_count r)), (''order_count'', enc_usize (obs_order_count r)),
     (''quote'', enc_quote_s (obs_quote r))]"

definition dec_option_book_c :: "json \<Rightarrow> order_book_snapshot_response option" where
  "dec_option_book_c = dec_obj (\<lambda>ms. do {
     symbol \<leftarrow> field ''symbol'' dec_str ms;
     total_bid_depth \<leftarrow> field ''total_bid_depth'' dec_word ms;
     total_ask_depth \<leftarrow> field ''total_ask_depth'' dec_word ms;
     bid_level_count \<leftarrow> field ''bid_level_count'' dec_usize ms;
     ask_level_count \<leftarrow> field ''ask_level_count'' dec_usize ms;
     order_count \<leftarrow> field ''order_count'' dec_usize ms;
     quote \<leftarrow> field ''quote'' dec_quote_c ms;
     Some \<lparr>obs_symbol = symbol, obs_total_bid_depth = total_bid_depth, obs_total_ask_depth = total_ask_depth,
       obs_bid_level_count = bid_level_count, obs_ask_level_count = ask_level_count, obs_order_count = order_count,
       obs_quote = quote\<rparr> })"

definition option_book_ok :: "order_book_snapshot_response \<Rightarrow> bool" where
  "option_book_ok r \<longleftrightarrow> obs_bid_level_count r < 2 ^ 64 \<and> obs_ask_level_count r < 2 ^ 64 \<and>
     obs_order_count r < 2 ^ 64"

lemma option_book_read [json_simps]: "option_book_ok r \<Longrightarrow> dec_option_book_c (enc_option_book_s r) = Some r"
  by (cases r) (auto simp: option_book_ok_def enc_option_book_s_def dec_option_book_c_def field_defs json_simps list_all_iff split: option.splits)

definition enc_price_level_s :: "price_level_info \<Rightarrow> json" where
  "enc_price_level_s r = JObj [(''price'', enc_word (pli_price r)), (''quantity'', enc_word (pli_quantity r)),
     (''order_count'', enc_usize (pli_order_count r))]"

definition dec_price_level_c :: "json \<Rightarrow> price_level_info option" where
  "dec_price_level_c = dec_obj (\<lambda>ms. do {
     price \<leftarrow> field ''price'' dec_word ms;
     quantity \<leftarrow> field ''quantity'' dec_word ms;
     order_count \<leftarrow> field ''order_count'' dec_usize ms;
     Some \<lparr>pli_price = price, pli_quantity = quantity, pli_order_count = order_count\<rparr> })"

definition price_level_ok :: "price_level_info \<Rightarrow> bool" where
  "price_level_ok r \<longleftrightarrow> pli_order_count r < 2 ^ 64"

lemma price_level_read [json_simps]: "price_level_ok r \<Longrightarrow> dec_price_level_c (enc_price_level_s r) = Some r"
  by (cases r) (auto simp: price_level_ok_def enc_price_level_s_def dec_price_level_c_def field_defs json_simps list_all_iff split: option.splits)

definition enc_snapshot_stats_s :: "snapshot_stats \<Rightarrow> json" where
  "enc_snapshot_stats_s r = JObj [(''mid_price'', (enc_opt enc_f64) (ss_mid_price r)),
     (''spread_bps'', (enc_opt enc_f64) (ss_spread_bps r)), (''bid_depth_total'', enc_word (ss_bid_depth_total r)),
     (''ask_depth_total'', enc_word (ss_ask_depth_total r)), (''imbalance'', enc_f64 (ss_imbalance r)),
     (''vwap_bid'', (enc_opt enc_f64) (ss_vwap_bid r)), (''vwap_ask'', (enc_opt enc_f64) (ss_vwap_ask r))]"

definition dec_snapshot_stats_c :: "json \<Rightarrow> snapshot_stats option" where
  "dec_snapshot_stats_c = dec_obj (\<lambda>ms. do {
     mid_price \<leftarrow> opt_field ''mid_price'' dec_f64 ms;
     spread_bps \<leftarrow> opt_field ''spread_bps'' dec_f64 ms;
     bid_depth_total \<leftarrow> field ''bid_depth_total'' dec_word ms;
     ask_depth_total \<leftarrow> field ''ask_depth_total'' dec_word ms;
     imbalance \<leftarrow> field ''imbalance'' dec_f64 ms;
     vwap_bid \<leftarrow> opt_field ''vwap_bid'' dec_f64 ms;
     vwap_ask \<leftarrow> opt_field ''vwap_ask'' dec_f64 ms;
     Some \<lparr>ss_mid_price = mid_price, ss_spread_bps = spread_bps, ss_bid_depth_total = bid_depth_total,
       ss_ask_depth_total = ask_depth_total, ss_imbalance = imbalance, ss_vwap_bid = vwap_bid, ss_vwap_ask = vwap_ask\<rparr> })"

definition snapshot_stats_ok :: "snapshot_stats \<Rightarrow> bool" where
  "snapshot_stats_ok r \<longleftrightarrow> finite_opt (ss_mid_price r) \<and> finite_opt (ss_spread_bps r) \<and>
     f_is_finite (ss_imbalance r) \<and> finite_opt (ss_vwap_bid r) \<and> finite_opt (ss_vwap_ask r)"

lemma snapshot_stats_read [json_simps]: "snapshot_stats_ok r \<Longrightarrow> dec_snapshot_stats_c (enc_snapshot_stats_s r) = Some r"
  by (cases r) (auto simp: snapshot_stats_ok_def enc_snapshot_stats_s_def dec_snapshot_stats_c_def field_defs json_simps list_all_iff split: option.splits)

definition enc_enriched_snapshot_s :: "enriched_snapshot_response \<Rightarrow> json" where
  "enc_enriched_snapshot_s r = JObj [(''symbol'', JStr (es_symbol r)), (''sequence'', enc_word (es_sequence r)),
     (''timestamp_ms'', enc_word (es_timestamp_ms r)), (''bids'', (enc_list enc_price_level_s) (es_bids r)),
     (''asks'', (enc_list enc_price_level_s) (es_asks r)), (''stats'', enc_snapshot_stats_s (es_stats r))]"

definition dec_enriched_snapshot_c :: "json \<Rightarrow> enriched_snapshot_response option" where
  "dec_enriched_snapshot_c = dec_obj (\<lambda>ms. do {
     symbol \<leftarrow> field ''symbol'' dec_str ms;
     sequence \<leftarrow> field ''sequence'' dec_word ms;
     timestamp_ms \<leftarrow> field ''timestamp_ms'' dec_word ms;
     bids \<leftarrow> field ''bids'' (dec_list dec_price_level_c) ms;
     asks \<leftarrow> field ''asks'' (dec_list dec_price_level_c) ms;
     stats \<leftarrow> field ''stats'' dec_snapshot_stats_c ms;
     Some \<lparr>es_symbol = symbol, es_sequence = sequence, es_timestamp_ms = timestamp_ms, es_bids = bids,
       es_asks = asks, es_stats = stats\<rparr> })"

definition enriched_snapshot_ok :: "enriched_snapshot_response \<Rightarrow> bool" where
  "enriched_snapshot_ok r \<longleftrightarrow> list_all price_level_ok (es_bids r) \<and>
     list_all price_level_ok (es_asks r) \<and> snapshot_stats_ok (es_stats r)"

lemma enriched_snapshot_read [json_simps]: "enriched_snapshot_ok r \<Longrightarrow> dec_enriched_snapshot_c (enc_enriched_snapshot_s r) = Some r"
  by (cases r) (auto simp: enriched_snapshot_ok_def enc_enriched_snapshot_s_def dec_enriched_snapshot_c_def field_defs json_simps list_all_iff split: option.splits)

definition enc_spread_metrics_s :: "spread_metrics \<Rightarrow> json" where
  "enc_spread_metrics_s r = JObj [(''current'', (enc_opt enc_word) (sp_current r)),
     (''spread_bps'', (enc_opt enc_f64) (sp_spread_bps r))]"

definition dec_spread_metrics_c :: "json \<Rightarrow> spread_metrics option" where
  "dec_spread_metrics_c = dec_obj (\<lambda>ms. do {
     current \<leftarrow> opt_field ''current'' dec_word ms;
     spread_bps \<leftarrow> opt_field ''spread_bps'' dec_f64 ms;
     Some \<lparr>sp_current = current, sp_spread_bps = spread_bps\<rparr> })"

definition spread_metrics_ok :: "spread_metrics \<Rightarrow> bool" where
  "spread_metrics_ok r \<longleftrightarrow> finite_opt (sp_spread_bps r)"

lemma spread_metrics_read [json_simps]: "spread_metrics_ok r \<Longrightarrow> dec_spread_metrics_c (enc_spread_metrics_s r) = Some r"
  by (cases r) (auto simp: spread_metrics_ok_def enc_spread_metrics_s_def dec_spread_metrics_c_def field_defs json_simps list_all_iff split: option.splits)

definition enc_depth_metrics_s :: "depth_metrics \<Rightarrow> json" where
  "enc_depth_metrics_s r = JObj [(''bid_depth_total'', enc_word (dp_bid_depth_total r)),
     (''ask_depth_total'', enc_word (dp_ask_depth_total r)), (''imbalance'', enc_f64 (dp_imbalance r))]"

definition dec_depth_metrics_c :: "json \<Rightarrow> depth_metrics option" where
  "dec_depth_metrics_c = dec_obj (\<lambda>ms. do {
     bid_depth_total \<leftarrow> field ''bid_depth_total'' dec_word ms;
     ask_depth_total \<leftarrow> field ''ask_depth_total'' dec_word ms;
     imbalance \<leftarrow> field ''imbalance'' dec_f64 ms;
     Some \<lparr>dp_bid_depth_total = bid_depth_total, dp_ask_depth_total = ask_depth_total, dp_imbalance = imbalance\<rparr> })"

definition depth_metrics_ok :: "depth_metrics \<Rightarrow> bool" where
  "depth_metrics_ok r \<longleftrightarrow> f_is_finite (dp_imbalance r)"

lemma depth_metrics_read [json_simps]: "depth_metrics_ok r \<Longrightarrow> dec_depth_metrics_c (enc_depth_metrics_s r) = Some r"
  by (cases r) (auto simp: depth_metrics_ok_def enc_depth_metrics_s_def dec_depth_metrics_c_def field_defs json_simps list_all_iff split: option.splits)

definition enc_price_metrics_s :: "price_metrics \<Rightarrow> json" where
  "enc_price_metrics_s r = JObj [(''mid_price'', (enc_opt enc_f64) (pm_mid_price r)),
     (''micro_price'', (enc_opt enc_f64) (pm_micro_price r)), (''vwap_bid'', (enc_opt enc_f64) (pm_vwap_bid r)),
     (''vwap_ask'', (enc_opt enc_f64) (pm_vwap_ask r))]"

definition dec_price_metrics_c :: "json \<Rightarrow> price_metrics option" where
  "dec_price_metrics_c = dec_obj (\<lambda>ms. do {
     mid_price \<leftarrow> opt_field ''mid_price'' dec_f64 ms;
     micro_price \<leftarrow> opt_field ''micro_price'' dec_f64 ms;
     vwap_bid \<leftarrow> opt_field ''vwap_bid'' dec_f64 ms;
     vwap_ask \<leftarrow> opt_field ''vwap_ask'' dec_f64 ms;
     Some \<lparr>pm_mid_price = mid_price, pm_micro_price = micro_price, pm_vwap_bid = vwap_bid,
       pm_vwap_ask = vwap_ask\<rparr> })"

definition price_metrics_ok :: "price_metrics \<Rightarrow> bool" where
  "price_metrics_ok r \<longleftrightarrow> finite_opt (pm_mid_price r) \<and> finite_opt (pm_micro_price r) \<and>
     finite_opt (pm_vwap_bid r) \<and> finite_opt (pm_vwap_ask r)"

lemma price_metrics_read [json_simps]: "price_metrics_ok r \<Longrightarrow> dec_price_metrics_c (enc_price_metrics_s r) = Some r"
  by (cases r) (auto simp: price_metrics_ok_def enc_price_metrics_s_def dec_price_metrics_c_def field_defs json_simps list_all_iff split: option.splits)

definition enc_impact_metrics_s :: "impact_metrics \<Rightarrow> json" where
  "enc_impact_metrics_s r = JObj [(''avg_price'', (enc_opt enc_f64) (im_avg_price r)),
     (''slippage_bps'', (enc_opt enc_f64) (im_slippage_bps r))]"

definition dec_impact_metrics_c :: "json \<Rightarrow> impact_metrics option" where
  "dec_impact_metrics_c = dec_obj (\<lambda>ms. do {
     avg_price \<leftarrow> opt_field ''avg_price'' dec_f64 ms;
     slippage_bps \<leftarrow> opt_field ''slippage_bps'' dec_f64 ms;
     Some \<lparr>im_avg_price = avg_price, im_slippage_bps = slippage_bps\<rparr> })"

definition impact_metrics_ok :: "impact_metrics \<Rightarrow> bool" where
  "impact_metrics_ok r \<longleftrightarrow> finite_opt (im_avg_price r) \<and> finite_opt (im_slippage_bps r)"

lemma impact_metrics_read [json_simps]: "impact_metrics_ok r \<Longrightarrow> dec_impact_metrics_c (enc_impact_metrics_s r) = Some r"
  by (cases r) (auto simp: impact_metrics_ok_def enc_impact_metrics_s_def dec_impact_metrics_c_def field_defs json_simps list_all_iff split: option.splits)

definition enc_market_impact_s :: "market_impact_metrics \<Rightarrow> json" where
  "enc_market_impact_s r = JObj [(''buy_100'', enc_impact_metrics_s (mi_buy_100 r)),
     (''sell_100'', enc_impact_metrics_s (mi_sell_100 r))]"

definition dec_market_impact_c :: "json \<Rightarrow> market_impact_metrics option" where
  "dec_market_impact_c = dec_obj (\<lambda>ms. do {
     buy_100 \<leftarrow> field ''buy_100'' dec_impact_metrics_c ms;
     sell_100 \<leftarrow> field ''sell_100'' dec_impact_metrics_c ms;
     Some \<lparr>mi_buy_100 = buy_100, mi_sell_100 = sell_100\<rparr> })"

definition market_impact_ok :: "market_impact_metrics \<Rightarrow> bool" where
  "market_impact_ok r \<longleftrightarrow> impact_metrics_ok (mi_buy_100 r) \<and> impact_metrics_ok (mi_sell_100 r)"

lemma market_impact_read [json_simps]: "market_impact_ok r \<Longrightarrow> dec_market_impact_c (enc_market_impact_s r) = Some r"
  by (cases r) (auto simp: market_impact_ok_def enc_market_impact_s_def dec_market_impact_c_def field_defs json_simps list_all_iff split: option.splits)

definition enc_metrics_s :: "orderbook_metrics_response \<Rightarrow> json" where
  "enc_metrics_s r = JObj [(''symbol'', JStr (om_symbol r)), (''timestamp_ms'', enc_word (om_timestamp_ms r)),
     (''spread'', enc_spread_metrics_s (om_spread r)), (''depth'', enc_depth_metrics_s (om_depth r)),
     (''prices'', enc_price_metrics_s (om_prices r)), (''market_impact'', enc_market_impact_s (om_market_impact r))]"

definition dec_metrics_c :: "json \<Rightarrow> orderbook_metrics_response option" where
  "dec_metrics_c = dec_obj (\<lambda>ms. do {
     symbol \<leftarrow> field ''symbol'' dec_str ms;
     timestamp_ms \<leftarrow> field ''timestamp_ms'' dec_word ms;
     spread \<leftarrow> field ''spread'' dec_spread_metrics_c ms;
     depth \<leftarrow> field ''depth'' dec_depth_metrics_c ms;
     prices \<leftarrow> field ''prices'' dec_price_metrics_c ms;
     market_impact \<leftarrow> field ''market_impact'' dec_market_impact_c ms;
     Some \<lparr>om_symbol = symbol, om_timestamp_ms = timestamp_ms, om_spread = spread, om_depth = depth,
       om_prices = prices, om_market_impact = market_impact\<rparr> })"

definition metrics_ok :: "orderbook_metrics_response \<Rightarrow> bool" where
  "metrics_ok r \<longleftrightarrow> spread_metrics_ok (om_spread r) \<and> depth_metrics_ok (om_depth r) \<and>
     price_metrics_ok (om_prices r) \<and> market_impact_ok (om_market_impact r)"

lemma metrics_read [json_simps]: "metrics_ok r \<Longrightarrow> dec_metrics_c (enc_metrics_s r) = Some r"
  by (cases r) (auto simp: metrics_ok_def enc_metrics_s_def dec_metrics_c_def field_defs json_simps list_all_iff split: option.splits)

definition enc_strike_iv_s :: "strike_iv \<Rightarrow> json" where
  "enc_strike_iv_s r = JObj (opt_member ''call_iv'' enc_f64 (si_call_iv r) @
     opt_member ''put_iv'' enc_f64 (si_put_iv r))"

definition dec_strike_iv_c :: "json \<Rightarrow> strike_iv option" where
  "dec_strike_iv_c = dec_obj (\<lambda>ms. do {
     call_iv \<leftarrow> opt_field ''call_iv'' dec_f64 ms;
     put_iv \<leftarrow> opt_field ''put_iv'' dec_f64 ms;
     Some \<lparr>si_call_iv = call_iv, si_put_iv = put_iv\<rparr> })"

definition strike_iv_ok :: "strike_iv \<Rightarrow> bool" where
  "strike_iv_ok r \<longleftrightarrow> finite_opt (si_call_iv r) \<and> finite_opt (si_put_iv r)"

lemma strike_iv_read [json_simps]: "strike_iv_ok r \<Longrightarrow> dec_strike_iv_c (enc_strike_iv_s r) = Some r"
  by (cases r) (auto simp: strike_iv_ok_def enc_strike_iv_s_def dec_strike_iv_c_def field_defs json_simps list_all_iff split: option.splits)

definition enc_atm_point_s :: "atm_point \<Rightarrow> json" where
  "enc_atm_point_s r = JObj [(''expiration'', JStr (tp_expiration r)), (''days'', enc_word (tp_days r)),
     (''iv'', enc_f64 (tp_iv r))]"

definition dec_atm_point_c :: "json \<Rightarrow> atm_point option" where
  "dec_atm_point_c = dec_obj (\<lambda>ms. do {
     expiration \<leftarrow> field ''expiration'' dec_str ms;
     days \<leftarrow> field ''days'' dec_word ms;
     iv \<leftarrow> field ''iv'' dec_f64 ms;
     Some \<lparr>tp_expiration = expiration, tp_days = days, tp_iv = iv\<rparr> })"

definition atm_point_ok :: "atm_point \<Rightarrow> bool" where
  "atm_point_ok r \<longleftrightarrow> f_is_finite (tp_iv r)"

lemma atm_point_read [json_simps]: "atm_point_ok r \<Longrightarrow> dec_atm_point_c (enc_atm_point_s r) = Some r"
  by (cases r) (auto simp: atm_point_ok_def enc_atm_point_s_def dec_atm_point_c_def field_defs json_simps list_all_iff split: option.splits)

section \<open>Lists\<close>

definition enc_underlyings_s :: "string list \<Rightarrow> json" where
  "enc_underlyings_s us = JObj [(''underlyings'', enc_list JStr us)]"

definition dec_underlyings_c :: "json \<Rightarrow> string list option" where
  "dec_underlyings_c = dec_obj (field ''underlyings'' (dec_list dec_str))"

definition enc_expirations_s :: "string list \<Rightarrow> json" where
  "enc_expirations_s es = JObj [(''expirations'', enc_list JStr es)]"

definition dec_expirations_c :: "json \<Rightarrow> string list option" where
  "dec_expirations_c = dec_obj (field ''expirations'' (dec_list dec_str))"

definition enc_strikes_s :: "u64 list \<Rightarrow> json" where
  "enc_strikes_s ks = JObj [(''strikes'', enc_list enc_word ks)]"

definition dec_strikes_c :: "json \<Rightarrow> u64 list option" where
  "dec_strikes_c = dec_obj (field ''strikes'' (dec_list dec_word))"

text \<open>The answer to a deletion: its flag is always set, the model keeps the message.\<close>

definition enc_delete_underlying_s :: "string \<Rightarrow> json" where
  "enc_delete_underlying_s message = JObj [(''success'', JBool True), (''message'', JStr message)]"

definition dec_delete_underlying_c :: "json \<Rightarrow> (bool \<times> string) option" where
  "dec_delete_underlying_c = dec_obj (\<lambda>ms. do { success \<leftarrow> field ''success'' dec_bool ms; message \<leftarrow> field ''message'' dec_str ms; Some (success, message) })"

lemma lists_read [json_simps]:
  "dec_underlyings_c (enc_underlyings_s us) = Some us"
  "dec_expirations_c (enc_expirations_s es) = Some es"
  "dec_strikes_c (enc_strikes_s ks) = Some ks"
  "dec_delete_underlying_c (enc_delete_underlying_s message) = Some (True, message)"
  by (simp_all add: enc_underlyings_s_def dec_underlyings_c_def enc_expirations_s_def dec_expirations_c_def
      enc_strikes_s_def dec_strikes_c_def enc_delete_underlying_s_def dec_delete_underlying_c_def field_defs json_simps)

section \<open>The option chain\<close>

text \<open>The placeholders of a cell are constants on the server; the client reads all twelve fields.\<close>

record c_option_quote_data =
  cq_bid :: "u128 option"
  cq_ask :: "u128 option"
  cq_bid_size :: u64
  cq_ask_size :: u64
  cq_last_trade :: "u128 option"
  cq_volume :: u64
  cq_open_interest :: u64
  cq_delta :: "f64 option"
  cq_gamma :: "f64 option"
  cq_theta :: "f64 option"
  cq_vega :: "f64 option"
  cq_iv :: "f64 option"

definition enc_option_quote_s :: "option_quote_data \<Rightarrow> json" where
  "enc_option_quote_s q = JObj [(''bid'', enc_opt enc_word (oqd_bid q)), (''ask'', enc_opt enc_word (oqd_ask q)),
     (''bid_size'', enc_word (oqd_bid_size q)), (''ask_size'', enc_word (oqd_ask_size q)),
     (''last_trade'', enc_opt enc_word (oqd_last_trade q)), (''volume'', enc_word (0 :: u64)), (''open_interest'', enc_word (0 :: u64))]"

definition dec_option_quote_c :: "json \<Rightarrow> c_option_quote_data option" where
  "dec_option_quote_c = dec_obj (\<lambda>ms. do {
     bid \<leftarrow> opt_field ''bid'' dec_word ms;
     ask \<leftarrow> opt_field ''ask'' dec_word ms;
     bid_size \<leftarrow> field ''bid_size'' dec_word ms;
     ask_size \<leftarrow> field ''ask_size'' dec_word ms;
     last_trade \<leftarrow> opt_field ''last_trade'' dec_word ms;
     volume \<leftarrow> field ''volume'' dec_word ms;
     open_interest \<leftarrow> field ''open_interest'' dec_word ms;
     delta \<leftarrow> opt_field ''delta'' dec_f64 ms;
     gamma \<leftarrow> opt_field ''gamma'' dec_f64 ms;
     theta \<leftarrow> opt_field ''theta'' dec_f64 ms;
     vega \<leftarrow> opt_field ''vega'' dec_f64 ms;
     iv \<leftarrow> opt_field ''iv'' dec_f64 ms;
     Some \<lparr>cq_bid = bid, cq_ask = ask, cq_bid_size = bid_size, cq_ask_size = ask_size, cq_last_trade = last_trade,
       cq_volume = volume, cq_open_interest = open_interest, cq_delta = delta, cq_gamma = gamma, cq_theta = theta,
       cq_vega = vega, cq_iv = iv\<rparr> })"

definition quote_cell :: "option_quote_data \<Rightarrow> c_option_quote_data" where
  "quote_cell q = \<lparr>cq_bid = oqd_bid q, cq_ask = oqd_ask q, cq_bid_size = oqd_bid_size q, cq_ask_size = oqd_ask_size q,
     cq_last_trade = oqd_last_trade q, cq_volume = 0, cq_open_interest = 0, cq_delta = None, cq_gamma = None,
     cq_theta = None, cq_vega = None, cq_iv = None\<rparr>"

lemma option_quote_read [json_simps]: "dec_option_quote_c (enc_option_quote_s q) = Some (quote_cell q)"
  by (simp add: enc_option_quote_s_def dec_option_quote_c_def quote_cell_def field_defs json_simps)

record c_chain_row =
  crow_strike :: u64
  crow_call :: c_option_quote_data
  crow_put :: c_option_quote_data

definition enc_chain_row_s :: "chain_strike_row \<Rightarrow> json" where
  "enc_chain_row_s r = JObj [(''strike'', enc_word (row_strike r)), (''call'', enc_option_quote_s (row_call r)),
     (''put'', enc_option_quote_s (row_put r))]"

definition dec_chain_row_c :: "json \<Rightarrow> c_chain_row option" where
  "dec_chain_row_c = dec_obj (\<lambda>ms. do {
     strike \<leftarrow> field ''strike'' dec_word ms;
     call \<leftarrow> field ''call'' dec_option_quote_c ms;
     put \<leftarrow> field ''put'' dec_option_quote_c ms;
     Some \<lparr>crow_strike = strike, crow_call = call, crow_put = put\<rparr> })"

definition chain_cells :: "chain_strike_row \<Rightarrow> c_chain_row" where
  "chain_cells r = \<lparr>crow_strike = row_strike r, crow_call = quote_cell (row_call r), crow_put = quote_cell (row_put r)\<rparr>"

lemma chain_row_read [json_simps]: "dec_chain_row_c (enc_chain_row_s r) = Some (chain_cells r)"
  by (simp add: enc_chain_row_s_def dec_chain_row_c_def chain_cells_def field_defs json_simps)

record c_option_chain =
  cch_underlying :: string
  cch_expiration :: string
  cch_spot_price :: "u128 option"
  cch_atm_strike :: "u64 option"
  cch_chain :: "c_chain_row list"

definition enc_option_chain_s :: "option_chain_response \<Rightarrow> json" where
  "enc_option_chain_s r = JObj [(''underlying'', JStr (oc_underlying r)), (''expiration'', JStr (oc_expiration r)),
     (''spot_price'', enc_opt enc_word (oc_spot_price r)), (''atm_strike'', enc_opt enc_word (oc_atm_strike r)),
     (''chain'', enc_list enc_chain_row_s (oc_chain r))]"

definition dec_option_chain_c :: "json \<Rightarrow> c_option_chain option" where
  "dec_option_chain_c = dec_obj (\<lambda>ms. do {
     underlying \<leftarrow> field ''underlying'' dec_str ms;
     expiration \<leftarrow> field ''expiration'' dec_str ms;
     spot_price \<leftarrow> opt_field ''spot_price'' dec_word ms;
     atm_strike \<leftarrow> opt_field ''atm_strike'' dec_word ms;
     chain \<leftarrow> field ''chain'' (dec_list dec_chain_row_c) ms;
     Some \<lparr>cch_underlying = underlying, cch_expiration = expiration, cch_spot_price = spot_price,
       cch_atm_strike = atm_strike, cch_chain = chain\<rparr> })"

lemma dec_all_image: "(\<And>x. d (e x) = Some (g x)) \<Longrightarrow> dec_all d (map e xs) = Some (map g xs)"
  by (induction xs) simp_all

lemma option_chain_read:
  "dec_option_chain_c (enc_option_chain_s r) = Some \<lparr>cch_underlying = oc_underlying r, cch_expiration = oc_expiration r,
     cch_spot_price = oc_spot_price r, cch_atm_strike = oc_atm_strike r, cch_chain = map chain_cells (oc_chain r)\<rparr>"
  by (simp add: enc_option_chain_s_def dec_option_chain_c_def field_defs json_simps enc_list_def dec_all_image [where g = chain_cells])

section \<open>Greeks\<close>

text \<open>The client keeps the five first-order greeks.\<close>

record c_greeks_data =
  cgd_delta :: f64
  cgd_gamma :: f64
  cgd_theta :: f64
  cgd_vega :: f64
  cgd_rho :: f64

record c_greeks_response =
  cgr_symbol :: string
  cgr_greeks :: c_greeks_data
  cgr_iv :: f64
  cgr_theoretical_value :: f64
  cgr_timestamp_ms :: u64

definition enc_greeks_data_s :: "greeks_data \<Rightarrow> json" where
  "enc_greeks_data_s g = JObj ([(''delta'', enc_f64 (gd_delta g)), (''gamma'', enc_f64 (gd_gamma g)), (''theta'', enc_f64 (gd_theta g)),
     (''vega'', enc_f64 (gd_vega g)), (''rho'', enc_f64 (gd_rho g))]
     @ opt_member ''vanna'' enc_f64 (gd_vanna g) @ opt_member ''vomma'' enc_f64 (gd_vomma g)
     @ opt_member ''charm'' enc_f64 (gd_charm g) @ opt_member ''color'' enc_f64 (gd_color g))"

definition dec_greeks_data_c :: "json \<Rightarrow> c_greeks_data option" where
  "dec_greeks_data_c = dec_obj (\<lambda>ms. do {
     delta \<leftarrow> field ''delta'' dec_f64 ms;
     gamma \<leftarrow> field ''gamma'' dec_f64 ms;
     theta \<leftarrow> field ''theta'' dec_f64 ms;
     vega \<leftarrow> field ''vega'' dec_f64 ms;
     rho \<leftarrow> field ''rho'' dec_f64 ms;
     Some \<lparr>cgd_delta = delta, cgd_gamma = gamma, cgd_theta = theta, cgd_vega = vega, cgd_rho = rho\<rparr> })"

definition enc_greeks_s :: "greeks_response \<Rightarrow> json" where
  "enc_greeks_s r = JObj [(''symbol'', JStr (gr_symbol r)), (''greeks'', enc_greeks_data_s (gr_greeks r)), (''iv'', enc_f64 (gr_iv r)),
     (''theoretical_value'', enc_f64 (gr_theoretical_value r)), (''timestamp_ms'', enc_word (gr_timestamp_ms r))]"

definition dec_greeks_c :: "json \<Rightarrow> c_greeks_response option" where
  "dec_greeks_c = dec_obj (\<lambda>ms. do {
     symbol \<leftarrow> field ''symbol'' dec_str ms;
     greeks \<leftarrow> field ''greeks'' dec_greeks_data_c ms;
     iv \<leftarrow> field ''iv'' dec_f64 ms;
     theoretical_value \<leftarrow> field ''theoretical_value'' dec_f64 ms;
     timestamp_ms \<leftarrow> field ''timestamp_ms'' dec_word ms;
     Some \<lparr>cgr_symbol = symbol, cgr_greeks = greeks, cgr_iv = iv, cgr_theoretical_value = theoretical_value,
       cgr_timestamp_ms = timestamp_ms\<rparr> })"

definition first_greeks :: "greeks_data \<Rightarrow> c_greeks_data" where
  "first_greeks g = \<lparr>cgd_delta = gd_delta g, cgd_gamma = gd_gamma g, cgd_theta = gd_theta g, cgd_vega = gd_vega g, cgd_rho = gd_rho g\<rparr>"

definition greeks_ok :: "greeks_response \<Rightarrow> bool" where
  "greeks_ok r \<longleftrightarrow> f_is_finite (gd_delta (gr_greeks r)) \<and> f_is_finite (gd_gamma (gr_greeks r)) \<and> f_is_finite (gd_theta (gr_greeks r))
     \<and> f_is_finite (gd_vega (gr_greeks r)) \<and> f_is_finite (gd_rho (gr_greeks r)) \<and> f_is_finite (gr_iv r)
     \<and> f_is_finite (gr_theoretical_value r)"

lemma greeks_read:
  "greeks_ok r \<Longrightarrow> dec_greeks_c (enc_greeks_s r) = Some \<lparr>cgr_symbol = gr_symbol r, cgr_greeks = first_greeks (gr_greeks r),
     cgr_iv = gr_iv r, cgr_theoretical_value = gr_theoretical_value r, cgr_timestamp_ms = gr_timestamp_ms r\<rparr>"
  by (cases "gr_greeks r") (auto simp: greeks_ok_def first_greeks_def enc_greeks_s_def dec_greeks_c_def enc_greeks_data_s_def
      dec_greeks_data_c_def field_defs json_simps split: option.splits)

text \<open>A greek that is not a number makes the whole answer unreadable for the client.\<close>

lemma nan_greek_unreadable: "gd_delta (gr_greeks r) = NaN \<Longrightarrow> dec_greeks_c (enc_greeks_s r) = None"
  by (auto simp: enc_greeks_s_def dec_greeks_c_def enc_greeks_data_s_def dec_greeks_data_c_def field_defs json_simps
      enc_f64_def split: option.splits)

section \<open>The volatility surface\<close>

text \<open>A map is an object whose keys are strings; a number as a key is written in decimal.\<close>

definition enc_map :: "('k \<Rightarrow> string) \<Rightarrow> ('v \<Rightarrow> json) \<Rightarrow> ('k, 'v) dashmap \<Rightarrow> json" where
  "enc_map k e m = JObj (map (\<lambda>p. (k (fst p), e (snd p))) m)"

fun dec_entries :: "(string \<Rightarrow> 'k option) \<Rightarrow> (json \<Rightarrow> 'v option) \<Rightarrow> members \<Rightarrow> ('k, 'v) dashmap \<Rightarrow> ('k, 'v) dashmap option" where
  "dec_entries k d [] m = Some m"
| "dec_entries k d ((n, v) # ms) m = do { key \<leftarrow> k n; x \<leftarrow> d v; dec_entries k d ms (dm_insert key x m) }"

definition dec_map :: "(string \<Rightarrow> 'k option) \<Rightarrow> (json \<Rightarrow> 'v option) \<Rightarrow> json \<Rightarrow> ('k, 'v) dashmap option" where
  "dec_map k d = dec_obj (\<lambda>ms. dec_entries k d ms [])"

lemma dm_insert_new: "key \<notin> set (map fst m) \<Longrightarrow> dm_insert key x m = m @ [(key, x)]"
  by (induction m) auto

lemma dec_entries_map:
  assumes "\<And>key. k (sh key) = Some key" and "\<And>p. p \<in> set m \<Longrightarrow> d (e (snd p)) = Some (snd p)"
    and "distinct (map fst (acc @ m))"
  shows "dec_entries k d (map (\<lambda>p. (sh (fst p), e (snd p))) m) acc = Some (acc @ m)"
  using assms(2,3)
proof (induction m arbitrary: acc)
  case (Cons p m)
  have "dm_insert (fst p) (snd p) acc = acc @ [p]"
    using Cons.prems(2) by (subst dm_insert_new) auto
  with Cons.IH [of "acc @ [p]"] Cons.prems show ?case by (simp add: assms(1))
qed simp

lemma dec_map_enc:
  assumes "dm_ok m" and "\<And>key. k (sh key) = Some key" and "\<And>p. p \<in> set m \<Longrightarrow> d (e (snd p)) = Some (snd p)"
  shows "dec_map k d (enc_map sh e m) = Some m"
  using dec_entries_map [of k sh m d e "[]", OF assms(2,3)] assms(1)
  by (simp add: dec_map_def enc_map_def dm_ok_def)

definition enc_surface_s :: "surface_response \<Rightarrow> json" where
  "enc_surface_s r = JObj [(''underlying'', JStr (vs_underlying r)), (''spot_price'', enc_opt enc_word (vs_spot_price r)),
     (''timestamp_ms'', enc_word (vs_timestamp_ms r)), (''expirations'', enc_list JStr (vs_expirations r)),
     (''strikes'', enc_list enc_word (vs_strikes r)),
     (''surface'', enc_map id (enc_map show_word enc_strike_iv_s) (vs_surface r)),
     (''atm_term_structure'', enc_list enc_atm_point_s (vs_atm_term_structure r))]"

definition dec_surface_c :: "json \<Rightarrow> surface_response option" where
  "dec_surface_c = dec_obj (\<lambda>ms. do {
     underlying \<leftarrow> field ''underlying'' dec_str ms;
     spot_price \<leftarrow> opt_field ''spot_price'' dec_word ms;
     timestamp_ms \<leftarrow> field ''timestamp_ms'' dec_word ms;
     expirations \<leftarrow> field ''expirations'' (dec_list dec_str) ms;
     strikes \<leftarrow> field ''strikes'' (dec_list dec_word) ms;
     surface \<leftarrow> field ''surface'' (dec_map Some (dec_map parse_u64 dec_strike_iv_c)) ms;
     atm_term_structure \<leftarrow> field ''atm_term_structure'' (dec_list dec_atm_point_c) ms;
     Some \<lparr>vs_underlying = underlying, vs_spot_price = spot_price, vs_timestamp_ms = timestamp_ms,
       vs_expirations = expirations, vs_strikes = strikes, vs_surface = surface, vs_atm_term_structure = atm_term_structure\<rparr> })"

definition surface_ok :: "surface_response \<Rightarrow> bool" where
  "surface_ok r \<longleftrightarrow> dm_ok (vs_surface r)
     \<and> list_all (\<lambda>p. dm_ok (snd p) \<and> list_all (\<lambda>q. strike_iv_ok (snd q)) (snd p)) (vs_surface r)
     \<and> list_all atm_point_ok (vs_atm_term_structure r)"

lemma surface_read:
  assumes "surface_ok r"
  shows "dec_surface_c (enc_surface_s r) = Some r"
proof -
  have inner: "dec_map parse_u64 dec_strike_iv_c (enc_map show_word enc_strike_iv_s (snd p)) = Some (snd p)"
    if "p \<in> set (vs_surface r)" for p
    by (rule dec_map_enc) (use assms that in \<open>auto simp: surface_ok_def list_all_iff json_simps parse_u64_show_word\<close>)
  have "dec_map Some (dec_map parse_u64 dec_strike_iv_c) (enc_map id (enc_map show_word enc_strike_iv_s) (vs_surface r)) = Some (vs_surface r)"
    by (rule dec_map_enc) (use assms inner in \<open>auto simp: surface_ok_def\<close>)
  with assms show ?thesis
    by (cases r) (auto simp: surface_ok_def list_all_iff enc_surface_s_def dec_surface_c_def field_defs json_simps)
qed

section \<open>The client reads what the server writes\<close>

text \<open>
  Every answer of the server about the hierarchy, the quotes, the option chain and the analytics
  is read by the client as the value the handler returned; the greeks lose the second-order
  ones, and the cells of the chain get their placeholders.
\<close>

theorem market_answers_understood:
  assumes "global_stats_ok g" "underlying_summary_ok u" "expiration_summary_ok e" "strike_summary_ok k"
    "option_book_ok b" "enriched_snapshot_ok n" "metrics_ok m" "greeks_ok gr" "surface_ok s"
  shows "dec_health_c (enc_health_s h) = Some h
     \<and> dec_global_stats_c (enc_global_stats_s g) = Some g
     \<and> dec_underlyings_c (enc_underlyings_s us) = Some us
     \<and> dec_underlying_summary_c (enc_underlying_summary_s u) = Some u
     \<and> dec_expirations_c (enc_expirations_s es) = Some es
     \<and> dec_expiration_summary_c (enc_expiration_summary_s e) = Some e
     \<and> dec_strikes_c (enc_strikes_s ks) = Some ks
     \<and> dec_strike_summary_c (enc_strike_summary_s k) = Some k
     \<and> dec_option_book_c (enc_option_book_s b) = Some b
     \<and> dec_quote_c (enc_quote_s q) = Some q
     \<and> dec_enriched_snapshot_c (enc_enriched_snapshot_s n) = Some n
     \<and> dec_metrics_c (enc_metrics_s m) = Some m
     \<and> dec_surface_c (enc_surface_s s) = Some s
     \<and> map_option cgr_greeks (dec_greeks_c (enc_greeks_s gr)) = Some (first_greeks (gr_greeks gr))
     \<and> map_option cch_chain (dec_option_chain_c (enc_option_chain_s ch)) = Some (map chain_cells (oc_chain ch))"
  by (simp add: json_simps surface_read greeks_read option_chain_read assms)

end
