(* ===== verification/Client.thy ===== *)
theory Client
  imports Wire_Requests
begin

text \<open>
  The HTTP client of \<open>src/crates/orderbook-client/src/client.rs\<close>: its configuration, the request
  every method sends, and how a response becomes a result. Percent-encoding (the \<open>url\<close> crate),
  the form encoding of queries and the transport are parameters. The routes of the server are
  those of \<open>Gateway\<close>.
\<close>

section \<open>Configuration and errors\<close>

datatype client_error =
    CeHttp string
  | CeJson string
  | CeWebSocket string
  | CeApi nat string
  | CeNotFound string
  | CeInvalidRequest string
  | CeConnectionClosed

fun client_error_display :: "client_error \<Rightarrow> string" where
  "client_error_display (CeHttp e) = ''HTTP request failed: '' @ e"
| "client_error_display (CeJson e) = ''JSON error: '' @ e"
| "client_error_display (CeWebSocket e) = ''WebSocket error: '' @ e"
| "client_error_display (CeApi status message) = ''API error ('' @ show_nat status @ ''): '' @ message"
| "client_error_display (CeNotFound s) = ''Not found: '' @ s"
| "client_error_display (CeInvalidRequest s) = ''Invalid request: '' @ s"
| "client_error_display CeConnectionClosed = ''Connection closed''"

record client_config =
  clc_base_url :: string
  clc_timeout_secs :: nat
  clc_token :: "string option"

definition client_config_default :: client_config where
  "client_config_default = \<lparr>clc_base_url = ''http://localhost:8080'', clc_timeout_secs = 30, clc_token = None\<rparr>"

text \<open>A client, with the headers and the timeout its reqwest client was built with.\<close>

record orderbook_client =
  ob_headers :: "(string \<times> string) list"
  ob_timeout_secs :: nat
  ob_base_url :: string
  ob_token :: "string option"

text \<open>
  \<open>header_ok\<close> is what \<open>HeaderValue::from_str\<close> accepts; \<open>build_error\<close> the failure of building the
  reqwest client, if it fails.
\<close>

definition client_new :: "(string \<Rightarrow> bool) \<Rightarrow> string option \<Rightarrow> client_config \<Rightarrow> client_error + orderbook_client" where
  "client_new header_ok build_error cfg =
     (let headers = (case clc_token cfg of
            None \<Rightarrow> Inr []
          | Some token \<Rightarrow>
              if header_ok (''Bearer '' @ token) then Inr [(''authorization'', ''Bearer '' @ token)]
              else Inl (CeInvalidRequest ''invalid bearer token''))
      in case headers of
           Inl e \<Rightarrow> Inl e
         | Inr hs \<Rightarrow>
             (case build_error of
                Some e \<Rightarrow> Inl (CeHttp e)
              | None \<Rightarrow> Inr \<lparr>ob_headers = hs, ob_timeout_secs = clc_timeout_secs cfg,
                  ob_base_url = rev (dropWhile (\<lambda>ch. ch = CHR ''/'') (rev (clc_base_url cfg))), ob_token = clc_token cfg\<rparr>))"

definition client_with_base_url :: "(string \<Rightarrow> bool) \<Rightarrow> string option \<Rightarrow> string \<Rightarrow> client_error + orderbook_client" where
  "client_with_base_url header_ok build_error base_url =
     client_new header_ok build_error (client_config_default\<lparr>clc_base_url := base_url\<rparr>)"

definition client_with_token :: "(string \<Rightarrow> bool) \<Rightarrow> string option \<Rightarrow> string \<Rightarrow> string \<Rightarrow> client_error + orderbook_client" where
  "client_with_token header_ok build_error base_url token =
     client_new header_ok build_error (client_config_default\<lparr>clc_base_url := base_url, clc_token := Some token\<rparr>)"

section \<open>Paths\<close>

text \<open>
  The calls of the \<open>url\<close> crate: parsing, \<open>path_segments_mut\<close> (which may refuse) followed by
  \<open>pop_if_empty\<close> and \<open>push\<close>, and the path.
\<close>

record 'u url_lib =
  ul_parse :: "string \<Rightarrow> 'u option"
  ul_push :: "'u \<Rightarrow> string \<Rightarrow> 'u option"
  ul_path :: "'u \<Rightarrow> string"

definition encode_segment :: "'u url_lib \<Rightarrow> string \<Rightarrow> string" where
  "encode_segment U segment =
     (case ul_parse U ''http://segment.invalid/'' of
        None \<Rightarrow> segment
      | Some url \<Rightarrow>
          (case ul_push U url segment of
             None \<Rightarrow> segment
           | Some url \<Rightarrow> dropWhile (\<lambda>ch. ch = CHR ''/'') (ul_path U url)))"

record option_path =
  op_underlying :: string
  op_expiration :: string
  op_strike :: u64
  op_style :: string

definition option_path_call :: "string \<Rightarrow> string \<Rightarrow> u64 \<Rightarrow> option_path" where
  "option_path_call underlying expiration strike =
     \<lparr>op_underlying = underlying, op_expiration = expiration, op_strike = strike, op_style = ''call''\<rparr>"

definition option_path_put :: "string \<Rightarrow> string \<Rightarrow> u64 \<Rightarrow> option_path" where
  "option_path_put underlying expiration strike =
     \<lparr>op_underlying = underlying, op_expiration = expiration, op_strike = strike, op_style = ''put''\<rparr>"

definition option_base :: "'u url_lib \<Rightarrow> orderbook_client \<Rightarrow> option_path \<Rightarrow> string" where
  "option_base U c path =
     ob_base_url c @ ''/api/v1/underlyings/'' @ encode_segment U (op_underlying path)
     @ ''/expirations/'' @ encode_segment U (op_expiration path)
     @ ''/strikes/'' @ show_word (op_strike path) @ ''/options/'' @ encode_segment U (op_style path)"

fun str_replace :: "string \<Rightarrow> string \<Rightarrow> string \<Rightarrow> string" where
  "str_replace old new [] = []"
| "str_replace old new (ch # s) =
     (if old \<noteq> [] \<and> starts_with old (ch # s) then new @ str_replace old new (drop (length old - 1) s)
      else ch # str_replace old new s)"

definition ws_url :: "orderbook_client \<Rightarrow> string" where
  "ws_url c =
     (let ws_base = str_replace ''https://'' ''wss://'' (str_replace ''http://'' ''ws://'' (ob_base_url c))
      in case ob_token c of
           Some token \<Rightarrow> ws_base @ ''/ws?token='' @ token
         | None \<Rightarrow> ws_base @ ''/ws'')"

section \<open>Requests\<close>

record client_request =
  crq_method :: string
  crq_url :: string
  crq_body :: "json option"

text \<open>\<open>serde_urlencoded::to_string\<close>; a failure gives the empty string.\<close>

type_synonym form_codec = "params \<Rightarrow> string"

definition with_query :: "string \<Rightarrow> string option \<Rightarrow> string" where
  "with_query url query =
     (case query of
        Some q \<Rightarrow> if q \<noteq> [] then url @ ''?'' @ q else url
      | None \<Rightarrow> url)"

definition client_health_check :: "orderbook_client \<Rightarrow> client_request" where
  "client_health_check c =
     \<lparr>crq_method = ''GET'', crq_url = ob_base_url c @ ''/health'', crq_body = None\<rparr>"

definition client_get_global_stats :: "orderbook_client \<Rightarrow> client_request" where
  "client_get_global_stats c =
     \<lparr>crq_method = ''GET'', crq_url = ob_base_url c @ ''/api/v1/stats'', crq_body = None\<rparr>"

definition client_list_underlyings :: "orderbook_client \<Rightarrow> client_request" where
  "client_list_underlyings c =
     \<lparr>crq_method = ''GET'', crq_url = ob_base_url c @ ''/api/v1/underlyings'', crq_body = None\<rparr>"

definition client_create_underlying :: "'u url_lib \<Rightarrow> orderbook_client \<Rightarrow> string \<Rightarrow> client_request" where
  "client_create_underlying U c symbol =
     \<lparr>crq_method = ''POST'', crq_url = ob_base_url c @ ''/api/v1/underlyings/'' @ encode_segment U symbol, crq_body = None\<rparr>"

definition client_get_underlying :: "'u url_lib \<Rightarrow> orderbook_client \<Rightarrow> string \<Rightarrow> client_request" where
  "client_get_underlying U c symbol =
     \<lparr>crq_method = ''GET'', crq_url = ob_base_url c @ ''/api/v1/underlyings/'' @ encode_segment U symbol, crq_body = None\<rparr>"

definition client_delete_underlying :: "'u url_lib \<Rightarrow> orderbook_client \<Rightarrow> string \<Rightarrow> client_request" where
  "client_delete_underlying U c symbol =
     \<lparr>crq_method = ''DELETE'', crq_url = ob_base_url c @ ''/api/v1/underlyings/'' @ encode_segment U symbol, crq_body = None\<rparr>"

definition client_list_expirations :: "'u url_lib \<Rightarrow> orderbook_client \<Rightarrow> string \<Rightarrow> client_request" where
  "client_list_expirations U c underlying =
     \<lparr>crq_method = ''GET'', crq_url = ob_base_url c @ ''/api/v1/underlyings/'' @ encode_segment U underlying @ ''/expirations'', crq_body = None\<rparr>"

definition client_create_expiration :: "'u url_lib \<Rightarrow> orderbook_client \<Rightarrow> string \<Rightarrow> string \<Rightarrow> client_request" where
  "client_create_expiration U c underlying expiration =
     \<lparr>crq_method = ''POST'', crq_url = ob_base_url c @ ''/api/v1/underlyings/'' @ encode_segment U underlying @ ''/expirations/'' @ encode_segment U expiration, crq_body = None\<rparr>"

definition client_get_expiration :: "'u url_lib \<Rightarrow> orderbook_client \<Rightarrow> string \<Rightarrow> string \<Rightarrow> client_request" where
  "client_get_expiration U c underlying expiration =
     \<lparr>crq_method = ''GET'', crq_url = ob_base_url c @ ''/api/v1/underlyings/'' @ encode_segment U underlying @ ''/expirations/'' @ encode_segment U expiration, crq_body = None\<rparr>"

definition client_list_strikes :: "'u url_lib \<Rightarrow> orderbook_client \<Rightarrow> string \<Rightarrow> string \<Rightarrow> client_request" where
  "client_list_strikes U c underlying expiration =
     \<lparr>crq_method = ''GET'', crq_url = ob_base_url c @ ''/api/v1/underlyings/'' @ encode_segment U underlying @ ''/expirations/'' @ encode_segment U expiration @ ''/strikes'', crq_body = None\<rparr>"

definition client_create_strike :: "'u url_lib \<Rightarrow> orderbook_client \<Rightarrow> string \<Rightarrow> string \<Rightarrow> u64 \<Rightarrow> client_request" where
  "client_create_strike U c underlying expiration strike =
     \<lparr>crq_method = ''POST'', crq_url = ob_base_url c @ ''/api/v1/underlyings/'' @ encode_segment U underlying @ ''/expirations/'' @ encode_segment U expiration @ ''/strikes/'' @ show_word strike, crq_body = None\<rparr>"

definition client_get_strike :: "'u url_lib \<Rightarrow> orderbook_client \<Rightarrow> string \<Rightarrow> string \<Rightarrow> u64 \<Rightarrow> client_request" where
  "client_get_strike U c underlying expiration strike =
     \<lparr>crq_method = ''GET'', crq_url = ob_base_url c @ ''/api/v1/underlyings/'' @ encode_segment U underlying @ ''/expirations/'' @ encode_segment U expiration @ ''/strikes/'' @ show_word strike, crq_body = None\<rparr>"

definition client_get_option_book :: "'u url_lib \<Rightarrow> orderbook_client \<Rightarrow> option_path \<Rightarrow> client_request" where
  "client_get_option_book U c path =
     \<lparr>crq_method = ''GET'', crq_url = option_base U c path, crq_body = None\<rparr>"

definition client_get_option_quote :: "'u url_lib \<Rightarrow> orderbook_client \<Rightarrow> option_path \<Rightarrow> client_request" where
  "client_get_option_quote U c path =
     \<lparr>crq_method = ''GET'', crq_url = option_base U c path @ ''/quote'', crq_body = None\<rparr>"

definition client_add_order :: "'u url_lib \<Rightarrow> orderbook_client \<Rightarrow> option_path \<Rightarrow> c_add_order_request \<Rightarrow> client_request" where
  "client_add_order U c path request =
     \<lparr>crq_method = ''POST'', crq_url = option_base U c path @ ''/orders'', crq_body = (Some (c_enc_add_order request))\<rparr>"

definition client_submit_market_order :: "'u url_lib \<Rightarrow> orderbook_client \<Rightarrow> option_path \<Rightarrow> market_order_request \<Rightarrow> client_request" where
  "client_submit_market_order U c path request =
     \<lparr>crq_method = ''POST'', crq_url = option_base U c path @ ''/orders/market'', crq_body = (Some (c_enc_market_order request))\<rparr>"

definition client_cancel_order :: "'u url_lib \<Rightarrow> orderbook_client \<Rightarrow> option_path \<Rightarrow> string \<Rightarrow> client_request" where
  "client_cancel_order U c path order_id =
     \<lparr>crq_method = ''DELETE'', crq_url = option_base U c path @ ''/orders/'' @ encode_segment U order_id, crq_body = None\<rparr>"

definition client_get_option_snapshot :: "'u url_lib \<Rightarrow> orderbook_client \<Rightarrow> option_path \<Rightarrow> string option \<Rightarrow> client_request" where
  "client_get_option_snapshot U c path depth =
     \<lparr>crq_method = ''GET'', crq_url = option_base U c path @ ''/snapshot'' @ (case depth of Some d \<Rightarrow> ''?depth='' @ d | None \<Rightarrow> []), crq_body = None\<rparr>"

definition client_get_controls :: "orderbook_client \<Rightarrow> client_request" where
  "client_get_controls c =
     \<lparr>crq_method = ''GET'', crq_url = ob_base_url c @ ''/api/v1/controls'', crq_body = None\<rparr>"

definition client_kill_switch :: "orderbook_client \<Rightarrow> client_request" where
  "client_kill_switch c =
     \<lparr>crq_method = ''POST'', crq_url = ob_base_url c @ ''/api/v1/controls/kill-switch'', crq_body = None\<rparr>"

definition client_enable_quoting :: "orderbook_client \<Rightarrow> client_request" where
  "client_enable_quoting c =
     \<lparr>crq_method = ''POST'', crq_url = ob_base_url c @ ''/api/v1/controls/enable'', crq_body = None\<rparr>"

definition client_update_parameters :: "orderbook_client \<Rightarrow> update_parameters_request \<Rightarrow> client_request" where
  "client_update_parameters c request =
     \<lparr>crq_method = ''POST'', crq_url = ob_base_url c @ ''/api/v1/controls/parameters'', crq_body = (Some (c_enc_update_parameters request))\<rparr>"

definition client_list_instruments :: "orderbook_client \<Rightarrow> client_request" where
  "client_list_instruments c =
     \<lparr>crq_method = ''GET'', crq_url = ob_base_url c @ ''/api/v1/controls/instruments'', crq_body = None\<rparr>"

definition client_toggle_instrument :: "'u url_lib \<Rightarrow> orderbook_client \<Rightarrow> string \<Rightarrow> client_request" where
  "client_toggle_instrument U c symbol =
     \<lparr>crq_method = ''POST'', crq_url = ob_base_url c @ ''/api/v1/controls/instrument/'' @ encode_segment U symbol @ ''/toggle'', crq_body = None\<rparr>"

definition client_insert_price :: "orderbook_client \<Rightarrow> insert_price_request \<Rightarrow> client_request" where
  "client_insert_price c request =
     \<lparr>crq_method = ''POST'', crq_url = ob_base_url c @ ''/api/v1/prices'', crq_body = (Some (c_enc_insert_price request))\<rparr>"

definition client_get_latest_price :: "'u url_lib \<Rightarrow> orderbook_client \<Rightarrow> string \<Rightarrow> client_request" where
  "client_get_latest_price U c symbol =
     \<lparr>crq_method = ''GET'', crq_url = ob_base_url c @ ''/api/v1/prices/'' @ encode_segment U symbol, crq_body = None\<rparr>"

definition client_get_all_prices :: "orderbook_client \<Rightarrow> client_request" where
  "client_get_all_prices c =
     \<lparr>crq_method = ''GET'', crq_url = ob_base_url c @ ''/api/v1/prices'', crq_body = None\<rparr>"

definition client_issue_token :: "orderbook_client \<Rightarrow> c_token_request \<Rightarrow> client_request" where
  "client_issue_token c request =
     \<lparr>crq_method = ''POST'', crq_url = ob_base_url c @ ''/api/v1/auth/token'', crq_body = (Some (c_enc_token request))\<rparr>"

definition client_list_executions :: "form_codec \<Rightarrow> orderbook_client \<Rightarrow> c_executions_query option \<Rightarrow> client_request" where
  "client_list_executions F c query =
     \<lparr>crq_method = ''GET'', crq_url = with_query (ob_base_url c @ ''/api/v1/executions'') (map_option (F \<circ> c_enc_executions_query) query), crq_body = None\<rparr>"

definition client_get_execution :: "'u url_lib \<Rightarrow> orderbook_client \<Rightarrow> string \<Rightarrow> client_request" where
  "client_get_execution U c execution_id =
     \<lparr>crq_method = ''GET'', crq_url = ob_base_url c @ ''/api/v1/executions/'' @ encode_segment U execution_id, crq_body = None\<rparr>"

definition client_list_positions :: "form_codec \<Rightarrow> orderbook_client \<Rightarrow> (string option) option \<Rightarrow> client_request" where
  "client_list_positions F c query =
     \<lparr>crq_method = ''GET'', crq_url = with_query (ob_base_url c @ ''/api/v1/positions'') (map_option (F \<circ> c_enc_position_query) query), crq_body = None\<rparr>"

definition client_get_position :: "'u url_lib \<Rightarrow> orderbook_client \<Rightarrow> string \<Rightarrow> client_request" where
  "client_get_position U c symbol =
     \<lparr>crq_method = ''GET'', crq_url = ob_base_url c @ ''/api/v1/positions/'' @ encode_segment U symbol, crq_body = None\<rparr>"

definition client_create_snapshot :: "orderbook_client \<Rightarrow> client_request" where
  "client_create_snapshot c =
     \<lparr>crq_method = ''POST'', crq_url = ob_base_url c @ ''/api/v1/admin/snapshot'', crq_body = None\<rparr>"

definition client_list_snapshots :: "orderbook_client \<Rightarrow> client_request" where
  "client_list_snapshots c =
     \<lparr>crq_method = ''GET'', crq_url = ob_base_url c @ ''/api/v1/admin/snapshots'', crq_body = None\<rparr>"

definition client_get_snapshot :: "'u url_lib \<Rightarrow> orderbook_client \<Rightarrow> string \<Rightarrow> client_request" where
  "client_get_snapshot U c snapshot_id =
     \<lparr>crq_method = ''GET'', crq_url = ob_base_url c @ ''/api/v1/admin/snapshots/'' @ encode_segment U snapshot_id, crq_body = None\<rparr>"

definition client_restore_snapshot :: "'u url_lib \<Rightarrow> orderbook_client \<Rightarrow> string \<Rightarrow> client_request" where
  "client_restore_snapshot U c snapshot_id =
     \<lparr>crq_method = ''POST'', crq_url = ob_base_url c @ ''/api/v1/admin/snapshots/'' @ encode_segment U snapshot_id @ ''/restore'', crq_body = None\<rparr>"

definition client_list_orders :: "form_codec \<Rightarrow> orderbook_client \<Rightarrow> c_order_list_query option \<Rightarrow> client_request" where
  "client_list_orders F c query =
     \<lparr>crq_method = ''GET'', crq_url = with_query (ob_base_url c @ ''/api/v1/orders'') (map_option (F \<circ> c_enc_order_list_query) query), crq_body = None\<rparr>"

definition client_get_order_status :: "'u url_lib \<Rightarrow> orderbook_client \<Rightarrow> string \<Rightarrow> client_request" where
  "client_get_order_status U c order_id =
     \<lparr>crq_method = ''GET'', crq_url = ob_base_url c @ ''/api/v1/orders/'' @ encode_segment U order_id, crq_body = None\<rparr>"

definition client_modify_order :: "'u url_lib \<Rightarrow> orderbook_client \<Rightarrow> option_path \<Rightarrow> string \<Rightarrow> modify_order_request \<Rightarrow> client_request" where
  "client_modify_order U c path order_id request =
     \<lparr>crq_method = ''PATCH'', crq_url = option_base U c path @ ''/orders/'' @ encode_segment U order_id, crq_body = (Some (c_enc_modify_order request))\<rparr>"

definition client_bulk_submit_orders :: "orderbook_client \<Rightarrow> bulk_order_request \<Rightarrow> client_request" where
  "client_bulk_submit_orders c request =
     \<lparr>crq_method = ''POST'', crq_url = ob_base_url c @ ''/api/v1/orders/bulk'', crq_body = (Some (c_enc_bulk_order request))\<rparr>"

definition client_bulk_cancel_orders :: "orderbook_client \<Rightarrow> string list \<Rightarrow> client_request" where
  "client_bulk_cancel_orders c request =
     \<lparr>crq_method = ''DELETE'', crq_url = ob_base_url c @ ''/api/v1/orders/bulk'', crq_body = (Some (c_enc_bulk_cancel request))\<rparr>"

definition client_cancel_all_orders :: "form_codec \<Rightarrow> orderbook_client \<Rightarrow> c_cancel_all_query option \<Rightarrow> client_request" where
  "client_cancel_all_orders F c query =
     \<lparr>crq_method = ''DELETE'', crq_url = with_query (ob_base_url c @ ''/api/v1/orders/cancel-all'') (map_option (F \<circ> c_enc_cancel_all_query) query), crq_body = None\<rparr>"

definition client_get_option_greeks :: "'u url_lib \<Rightarrow> orderbook_client \<Rightarrow> option_path \<Rightarrow> client_request" where
  "client_get_option_greeks U c path =
     \<lparr>crq_method = ''GET'', crq_url = option_base U c path @ ''/greeks'', crq_body = None\<rparr>"

definition client_get_last_trade :: "'u url_lib \<Rightarrow> orderbook_client \<Rightarrow> option_path \<Rightarrow> client_request" where
  "client_get_last_trade U c path =
     \<lparr>crq_method = ''GET'', crq_url = option_base U c path @ ''/last-trade'', crq_body = None\<rparr>"

definition client_get_ohlc :: "'u url_lib \<Rightarrow> form_codec \<Rightarrow> orderbook_client \<Rightarrow> option_path \<Rightarrow> c_ohlc_query option \<Rightarrow> client_request" where
  "client_get_ohlc U F c path query =
     \<lparr>crq_method = ''GET'', crq_url = with_query (option_base U c path @ ''/ohlc'') (map_option (F \<circ> c_enc_ohlc_query) query), crq_body = None\<rparr>"

definition client_get_orderbook_metrics :: "'u url_lib \<Rightarrow> orderbook_client \<Rightarrow> option_path \<Rightarrow> client_request" where
  "client_get_orderbook_metrics U c path =
     \<lparr>crq_method = ''GET'', crq_url = option_base U c path @ ''/metrics'', crq_body = None\<rparr>"

definition client_get_volatility_surface :: "'u url_lib \<Rightarrow> orderbook_client \<Rightarrow> string \<Rightarrow> client_request" where
  "client_get_volatility_surface U c underlying =
     \<lparr>crq_method = ''GET'', crq_url = ob_base_url c @ ''/api/v1/underlyings/'' @ encode_segment U underlying @ ''/volatility-surface'', crq_body = None\<rparr>"

definition client_get_option_chain :: "'u url_lib \<Rightarrow> orderbook_client \<Rightarrow> string \<Rightarrow> string \<Rightarrow> client_request" where
  "client_get_option_chain U c underlying expiration =
     \<lparr>crq_method = ''GET'', crq_url = ob_base_url c @ ''/api/v1/underlyings/'' @ encode_segment U underlying @ ''/expirations/'' @ encode_segment U expiration @ ''/chain'', crq_body = None\<rparr>"

section \<open>Responses\<close>

text \<open>
  The body is \<open>None\<close> when it could not be read; \<open>parse\<close> is serde_json's reading of a text and
  \<open>d\<close> the reading of the expected type.
\<close>

definition handle_response :: "(string \<Rightarrow> json option) \<Rightarrow> (json \<Rightarrow> 'a option) \<Rightarrow> nat \<Rightarrow> string option \<Rightarrow> client_error + 'a" where
  "handle_response parse d status body =
     (let text = (case body of Some t \<Rightarrow> t | None \<Rightarrow> []) in
      if 200 \<le> status \<and> status < 300
      then (case Option.bind (Option.bind body parse) d of
              Some v \<Rightarrow> Inr v
            | None \<Rightarrow> Inl (CeHttp ''error decoding response body''))
      else if status = 404 then Inl (CeNotFound text)
      else Inl (CeApi status text))"

section \<open>Every request of the client has its handler\<close>

text \<open>
  What is promised of percent-encoding: a pushed segment becomes the last part of the path, with
  no delimiter in it, and decodes to itself; \<open>.\<close> and \<open>..\<close> are ignored by \<open>push\<close>; text without
  a percent sign decodes to itself.
\<close>

definition undelimited :: "string \<Rightarrow> bool" where
  "undelimited s \<longleftrightarrow> CHR ''/'' \<notin> set s \<and> CHR ''?'' \<notin> set s \<and> CHR ''#'' \<notin> set s"

definition url_laws :: "'u url_lib \<Rightarrow> (string \<Rightarrow> string) \<Rightarrow> bool" where
  "url_laws U decode \<longleftrightarrow>
     (\<forall>s. CHR ''%'' \<notin> set s \<longrightarrow> decode s = s)
   \<and> (\<exists>url. ul_parse U ''http://segment.invalid/'' = Some url
        \<and> (\<forall>s. \<exists>url'. ul_push U url s = Some url'
             \<and> (if s = ''.'' \<or> s = ''..'' then ul_path U url' = ''/''
                else \<exists>e. ul_path U url' = CHR ''/'' # e \<and> undelimited e \<and> decode e = s \<and> (e = [] \<longleftrightarrow> s = []))))"

text \<open>A name that can stand in a path.\<close>

definition nameable :: "string \<Rightarrow> bool" where
  "nameable s \<longleftrightarrow> s \<noteq> [] \<and> s \<noteq> ''.'' \<and> s \<noteq> ''..''"

lemma encode_segment_name:
  assumes "url_laws U decode" and "nameable s"
  shows "encode_segment U s \<noteq> []" and "undelimited (encode_segment U s)" and "decode (encode_segment U s) = s"
proof -
  from assms obtain url url' e where "ul_parse U ''http://segment.invalid/'' = Some url" "ul_push U url s = Some url'"
    "ul_path U url' = CHR ''/'' # e" and e: "undelimited e" "decode e = s" "e = [] \<longleftrightarrow> s = []"
    unfolding url_laws_def nameable_def by metis
  then have "encode_segment U s = dropWhile (\<lambda>ch. ch = CHR ''/'') e" by (simp add: encode_segment_def)
  also have "\<dots> = e" using e(1) by (cases e) (auto simp: undelimited_def)
  finally have "encode_segment U s = e" .
  with e assms(2) show "encode_segment U s \<noteq> []" "undelimited (encode_segment U s)" "decode (encode_segment U s) = s"
    by (auto simp: nameable_def)
qed

text \<open>
  The two names that cannot be addressed: their segment disappears, and the path of the
  underlying of that name is the path of no route.
\<close>

lemma dot_segments_vanish:
  "url_laws U decode \<Longrightarrow> encode_segment U ''.'' = [] \<and> encode_segment U ''..'' = []"
proof -
  assume laws: "url_laws U decode"
  then obtain url where url: "ul_parse U ''http://segment.invalid/'' = Some url"
    and push: "\<And>s. \<exists>url'. ul_push U url s = Some url' \<and> (s = ''.'' \<or> s = ''..'' \<longrightarrow> ul_path U url' = ''/'')"
    unfolding url_laws_def by metis
  from push [of "''.''"] push [of "''..''"] show ?thesis
    by (auto simp: encode_segment_def url)
qed

text \<open>
  The route of a path, by the rule axum documents for its router: the matching pattern that wins
  against every other one, a literal segment winning against a parameter.
\<close>

fun more_specific :: "segment list \<Rightarrow> segment list \<Rightarrow> bool" where
  "more_specific (Lit l # p) (Param n # q) = True"
| "more_specific (Lit l # p) (Lit l' # q) = more_specific p q"
| "more_specific (Param n # p) (Param n' # q) = more_specific p q"
| "more_specific _ _ = False"

fun path_matches :: "segment list \<Rightarrow> string list \<Rightarrow> bool" where
  "path_matches [] [] = True"
| "path_matches (Lit l # p) (s # segs) = (if s = l then path_matches p segs else False)"
| "path_matches (Param n # p) (s # segs) = (if s \<noteq> [] \<and> CHR ''/'' \<notin> set s then path_matches p segs else False)"
| "path_matches _ _ = False"

lemma path_matches_instance: "path_matches pat segs \<longleftrightarrow> list_all2 seg_matches pat segs"
  by (induction pat segs rule: path_matches.induct) auto

definition matching_routes :: "string list \<Rightarrow> route list" where
  "matching_routes segs = filter (\<lambda>r. path_matches (fst r) segs) create_router"

definition route_of :: "string list \<Rightarrow> route option" where
  "route_of segs =
     (let rs = matching_routes segs
      in find (\<lambda>r. list_all (\<lambda>r'. fst r' = fst r \<or> more_specific (fst r) (fst r')) rs) rs)"

fun param_values :: "segment list \<Rightarrow> string list \<Rightarrow> string list" where
  "param_values (Lit l # p) (s # segs) = param_values p segs"
| "param_values (Param n # p) (s # segs) = s # param_values p segs"
| "param_values _ _ = []"

definition dispatches :: "(string \<Rightarrow> string) \<Rightarrow> string \<Rightarrow> string list \<Rightarrow> string \<Rightarrow> string list \<Rightarrow> bool" where
  "dispatches decode meth segs handler args \<longleftrightarrow>
     (case route_of segs of
        None \<Rightarrow> False
      | Some r \<Rightarrow> (meth, handler) \<in> set (snd r) \<and> map decode (param_values (fst r) segs) = args)"

text \<open>Arguments for every method of the client.\<close>

record call_args =
  arg_name :: string
  arg_expiration :: string
  arg_strike :: u64
  arg_path :: option_path
  arg_id :: string
  arg_depth :: "string option"
  arg_executions :: "c_executions_query option"
  arg_positions :: "string option option"
  arg_orders :: "c_order_list_query option"
  arg_cancel_all :: "c_cancel_all_query option"
  arg_ohlc :: "c_ohlc_query option"
  arg_add :: c_add_order_request
  arg_market :: market_order_request
  arg_modify :: modify_order_request
  arg_bulk :: bulk_order_request
  arg_ids :: "string list"
  arg_params :: update_parameters_request
  arg_price :: insert_price_request
  arg_token :: c_token_request

definition option_segs :: "'u url_lib \<Rightarrow> option_path \<Rightarrow> string list" where
  "option_segs U p = [''api'', ''v1'', ''underlyings'', encode_segment U (op_underlying p), ''expirations'',
     encode_segment U (op_expiration p), ''strikes'', show_word (op_strike p), ''options'', encode_segment U (op_style p)]"

definition option_args :: "option_path \<Rightarrow> string list" where
  "option_args p = [op_underlying p, op_expiration p, show_word (op_strike p), op_style p]"

text \<open>
  Every method: the request it sends, the segments of the path it addresses, the handler it is
  meant for, and the path arguments the handler is meant to get.
\<close>

definition client_calls ::
  "'u url_lib \<Rightarrow> form_codec \<Rightarrow> orderbook_client \<Rightarrow> call_args \<Rightarrow> (client_request \<times> string list \<times> string \<times> string list) list" where
  "client_calls U F c A =
     [(client_health_check c, [''health''], ''health_check'', []),
      (client_get_global_stats c, [''api'', ''v1'', ''stats''], ''get_global_stats'', []),
      (client_list_underlyings c, [''api'', ''v1'', ''underlyings''], ''list_underlyings'', []),
      (client_create_underlying U c (arg_name A), [''api'', ''v1'', ''underlyings'', encode_segment U (arg_name A)], ''create_underlying'', [arg_name A]),
      (client_get_underlying U c (arg_name A), [''api'', ''v1'', ''underlyings'', encode_segment U (arg_name A)], ''get_underlying'', [arg_name A]),
      (client_delete_underlying U c (arg_name A), [''api'', ''v1'', ''underlyings'', encode_segment U (arg_name A)], ''delete_underlying'', [arg_name A]),
      (client_list_expirations U c (arg_name A), [''api'', ''v1'', ''underlyings'', encode_segment U (arg_name A), ''expirations''], ''list_expirations'', [arg_name A]),
      (client_create_expiration U c (arg_name A) (arg_expiration A), [''api'', ''v1'', ''underlyings'', encode_segment U (arg_name A), ''expirations'', encode_segment U (arg_expiration A)], ''create_expiration'', [arg_name A, arg_expiration A]),
      (client_get_expiration U c (arg_name A) (arg_expiration A), [''api'', ''v1'', ''underlyings'', encode_segment U (arg_name A), ''expirations'', encode_segment U (arg_expiration A)], ''get_expiration'', [arg_name A, arg_expiration A]),
      (client_list_strikes U c (arg_name A) (arg_expiration A), [''api'', ''v1'', ''underlyings'', encode_segment U (arg_name A), ''expirations'', encode_segment U (arg_expiration A), ''strikes''], ''list_strikes'', [arg_name A, arg_expiration A]),
      (client_create_strike U c (arg_name A) (arg_expiration A) (arg_strike A), [''api'', ''v1'', ''underlyings'', encode_segment U (arg_name A), ''expirations'', encode_segment U (arg_expiration A), ''strikes'', show_word (arg_strike A)], ''create_strike'', [arg_name A, arg_expiration A, show_word (arg_strike A)]),
      (client_get_strike U c (arg_name A) (arg_expiration A) (arg_strike A), [''api'', ''v1'', ''underlyings'', encode_segment U (arg_name A), ''expirations'', encode_segment U (arg_expiration A), ''strikes'', show_word (arg_strike A)], ''get_strike'', [arg_name A, arg_expiration A, show_word (arg_strike A)]),
      (client_get_option_book U c (arg_path A), option_segs U (arg_path A), ''get_option_book'', option_args (arg_path A)),
      (client_get_option_quote U c (arg_path A), option_segs U (arg_path A) @ [''quote''], ''get_option_quote'', option_args (arg_path A)),
      (client_add_order U c (arg_path A) (arg_add A), option_segs U (arg_path A) @ [''orders''], ''add_order'', option_args (arg_path A)),
      (client_submit_market_order U c (arg_path A) (arg_market A), option_segs U (arg_path A) @ [''orders'', ''market''], ''submit_market_order'', option_args (arg_path A)),
      (client_cancel_order U c (arg_path A) (arg_id A), option_segs U (arg_path A) @ [''orders'', encode_segment U (arg_id A)], ''cancel_order'', option_args (arg_path A) @ [arg_id A]),
      (client_get_option_snapshot U c (arg_path A) (arg_depth A), option_segs U (arg_path A) @ [''snapshot''], ''get_option_snapshot'', option_args (arg_path A)),
      (client_get_controls c, [''api'', ''v1'', ''controls''], ''get_controls'', []),
      (client_kill_switch c, [''api'', ''v1'', ''controls'', ''kill-switch''], ''kill_switch'', []),
      (client_enable_quoting c, [''api'', ''v1'', ''controls'', ''enable''], ''enable_quoting'', []),
      (client_update_parameters c (arg_params A), [''api'', ''v1'', ''controls'', ''parameters''], ''update_parameters'', []),
      (client_list_instruments c, [''api'', ''v1'', ''controls'', ''instruments''], ''list_instruments'', []),
      (client_toggle_instrument U c (arg_name A), [''api'', ''v1'', ''controls'', ''instrument'', encode_segment U (arg_name A), ''toggle''], ''toggle_instrument'', [arg_name A]),
      (client_insert_price c (arg_price A), [''api'', ''v1'', ''prices''], ''insert_price'', []),
      (client_get_latest_price U c (arg_name A), [''api'', ''v1'', ''prices'', encode_segment U (arg_name A)], ''get_latest_price'', [arg_name A]),
      (client_get_all_prices c, [''api'', ''v1'', ''prices''], ''get_all_prices'', []),
      (client_issue_token c (arg_token A), [''api'', ''v1'', ''auth'', ''token''], ''issue_token'', []),
      (client_list_executions F c (arg_executions A), [''api'', ''v1'', ''executions''], ''list_executions'', []),
      (client_get_execution U c (arg_id A), [''api'', ''v1'', ''executions'', encode_segment U (arg_id A)], ''get_execution'', [arg_id A]),
      (client_list_positions F c (arg_positions A), [''api'', ''v1'', ''positions''], ''list_positions'', []),
      (client_get_position U c (arg_name A), [''api'', ''v1'', ''positions'', encode_segment U (arg_name A)], ''get_position'', [arg_name A]),
      (client_create_snapshot c, [''api'', ''v1'', ''admin'', ''snapshot''], ''create_snapshot'', []),
      (client_list_snapshots c, [''api'', ''v1'', ''admin'', ''snapshots''], ''list_snapshots'', []),
      (client_get_snapshot U c (arg_id A), [''api'', ''v1'', ''admin'', ''snapshots'', encode_segment U (arg_id A)], ''get_snapshot'', [arg_id A]),
      (client_restore_snapshot U c (arg_id A), [''api'', ''v1'', ''admin'', ''snapshots'', encode_segment U (arg_id A), ''restore''], ''restore_snapshot'', [arg_id A]),
      (client_list_orders F c (arg_orders A), [''api'', ''v1'', ''orders''], ''list_orders'', []),
      (client_get_order_status U c (arg_id A), [''api'', ''v1'', ''orders'', encode_segment U (arg_id A)], ''get_order_status'', [arg_id A]),
      (client_modify_order U c (arg_path A) (arg_id A) (arg_modify A), option_segs U (arg_path A) @ [''orders'', encode_segment U (arg_id A)], ''modify_order'', option_args (arg_path A) @ [arg_id A]),
      (client_bulk_submit_orders c (arg_bulk A), [''api'', ''v1'', ''orders'', ''bulk''], ''bulk_submit_orders'', []),
      (client_bulk_cancel_orders c (arg_ids A), [''api'', ''v1'', ''orders'', ''bulk''], ''bulk_cancel_orders'', []),
      (client_cancel_all_orders F c (arg_cancel_all A), [''api'', ''v1'', ''orders'', ''cancel-all''], ''cancel_all_orders'', []),
      (client_get_option_greeks U c (arg_path A), option_segs U (arg_path A) @ [''greeks''], ''get_option_greeks'', option_args (arg_path A)),
      (client_get_last_trade U c (arg_path A), option_segs U (arg_path A) @ [''last-trade''], ''get_last_trade'', option_args (arg_path A)),
      (client_get_ohlc U F c (arg_path A) (arg_ohlc A), option_segs U (arg_path A) @ [''ohlc''], ''get_ohlc'', option_args (arg_path A)),
      (client_get_orderbook_metrics U c (arg_path A), option_segs U (arg_path A) @ [''metrics''], ''get_orderbook_metrics'', option_args (arg_path A)),
      (client_get_volatility_surface U c (arg_name A), [''api'', ''v1'', ''underlyings'', encode_segment U (arg_name A), ''volatility-surface''], ''get_volatility_surface'', [arg_name A]),
      (client_get_option_chain U c (arg_name A) (arg_expiration A), [''api'', ''v1'', ''underlyings'', encode_segment U (arg_name A), ''expirations'', encode_segment U (arg_expiration A), ''chain''], ''get_option_chain'', [arg_name A, arg_expiration A])]"

definition addresses :: "orderbook_client \<Rightarrow> client_request \<Rightarrow> string list \<Rightarrow> bool" where
  "addresses c rq segs \<longleftrightarrow>
     (\<exists>query. crq_url rq = ob_base_url c @ path_of segs @ query \<and> (query = [] \<or> hd query = CHR ''?''))"

lemma addresses_plain: "crq_url rq = ob_base_url c @ path_of segs \<Longrightarrow> addresses c rq segs"
  unfolding addresses_def by (intro exI [of _ "[]"]) simp

lemma addresses_query: "crq_url rq = with_query (ob_base_url c @ path_of segs) q \<Longrightarrow> addresses c rq segs"
  unfolding addresses_def with_query_def
  by (cases q) (auto intro: exI [of _ "CHR ''?'' # the q"] split: if_splits)

lemmas client_defs = client_health_check_def client_get_global_stats_def client_list_underlyings_def client_create_underlying_def client_get_underlying_def client_delete_underlying_def client_list_expirations_def client_create_expiration_def client_get_expiration_def client_list_strikes_def client_create_strike_def client_get_strike_def client_get_option_book_def client_get_option_quote_def client_add_order_def client_submit_market_order_def client_cancel_order_def client_get_option_snapshot_def client_get_controls_def client_kill_switch_def client_enable_quoting_def client_update_parameters_def client_list_instruments_def client_toggle_instrument_def client_insert_price_def client_get_latest_price_def client_get_all_prices_def client_issue_token_def client_list_executions_def client_get_execution_def client_list_positions_def client_get_position_def client_create_snapshot_def client_list_snapshots_def client_get_snapshot_def client_restore_snapshot_def client_list_orders_def client_get_order_status_def client_modify_order_def client_bulk_submit_orders_def client_bulk_cancel_orders_def client_cancel_all_orders_def client_get_option_greeks_def client_get_last_trade_def client_get_ohlc_def client_get_orderbook_metrics_def client_get_volatility_surface_def client_get_option_chain_def

lemma client_addresses: "list_all (\<lambda>(rq, segs, _, _). addresses c rq segs) (client_calls U F c A)"
  unfolding client_calls_def list.pred_inject prod.case
  by (intro conjI TrueI;
      (rule addresses_plain, simp add: client_defs option_base_def option_segs_def path_of_def; fail)?;
      (rule addresses_query, simp add: client_defs option_base_def option_segs_def path_of_def; fail)?;
      simp add: addresses_def client_defs option_base_def option_segs_def path_of_def split: option.split)

lemma show_word_segment: "show_word (k :: u64) \<noteq> []" "CHR ''/'' \<notin> set (show_word k)" "CHR ''%'' \<notin> set (show_word k)"
proof -
  have "\<forall>ch \<in> set (show_nat (unat k)). is_digit ch" using show_nat_digits by (simp add: list_all_iff)
  then have "\<not> is_digit ch \<Longrightarrow> ch \<notin> set (show_word k)" for ch by (auto simp: show_word_def)
  then show "CHR ''/'' \<notin> set (show_word k)" "CHR ''%'' \<notin> set (show_word k)" by (simp_all add: is_digit_def)
  show "show_word k \<noteq> []" by (simp add: show_word_def show_nat_nonempty)
qed

text \<open>The routes of one resource, and those of an option book, with what follows the common part.\<close>

definition resource_routes :: "string \<Rightarrow> (segment list \<times> route) list" where
  "resource_routes l = map (\<lambda>r. (drop 3 (fst r), r)) (filter (\<lambda>r. take 3 (fst r) = [Lit ''api'', Lit ''v1'', Lit l]) create_router)"

definition option_routes :: "(segment list \<times> route) list" where
  "option_routes = map (\<lambda>r. (drop 10 (fst r), r)) (filter (\<lambda>r. take 10 (fst r) = option_prefix) create_router)"

definition tail_matches :: "(segment list \<times> route) list \<Rightarrow> string list \<Rightarrow> route list" where
  "tail_matches table segs = map snd (filter (\<lambda>r. path_matches (fst r) segs) table)"

fun api_pattern :: "segment list \<Rightarrow> bool" where
  "api_pattern [Lit _] = True"
| "api_pattern (Lit a # Lit b # Lit _ # _) = (a = ''api'' \<and> b = ''v1'')"
| "api_pattern _ = False"

lemma api_pattern_matches:
  "api_pattern p \<Longrightarrow> path_matches p (''api'' # ''v1'' # l # segs)
     \<longleftrightarrow> take 3 p = [Lit ''api'', Lit ''v1'', Lit l] \<and> path_matches (drop 3 p) segs"
  by (cases p rule: api_pattern.cases) (auto simp: numeral_3_eq_3)

lemma resource_matching: "matching_routes (''api'' # ''v1'' # l # segs) = tail_matches (resource_routes l) segs"
proof -
  have "list_all (\<lambda>r. api_pattern (fst r)) create_router" by code_simp
  then have "filter (\<lambda>r. path_matches (fst r) (''api'' # ''v1'' # l # segs)) create_router
      = filter (\<lambda>r. take 3 (fst r) = [Lit ''api'', Lit ''v1'', Lit l] \<and> path_matches (drop 3 (fst r)) segs) create_router"
    by (intro filter_cong refl) (simp add: list_all_iff api_pattern_matches)
  also have "\<dots> = filter (\<lambda>r. path_matches (drop 3 (fst r)) segs)
      (filter (\<lambda>r. take 3 (fst r) = [Lit ''api'', Lit ''v1'', Lit l]) create_router)"
    by (simp add: conj_commute)
  finally show ?thesis
    by (simp add: matching_routes_def resource_routes_def tail_matches_def filter_map comp_def)
qed

lemma stats_routes: "resource_routes ''stats'' =
     [([], (api [Lit ''stats''], [(''GET'', ''get_global_stats'')]))]"
  by code_simp

lemma auth_routes: "resource_routes ''auth'' =
     [([Lit ''token''], (api [Lit ''auth'', Lit ''token''], [(''POST'', ''issue_token'')]))]"
  by code_simp

lemma controls_routes: "resource_routes ''controls'' =
     [([], (api [Lit ''controls''], [(''GET'', ''get_controls'')])),
      ([Lit ''kill-switch''], (api [Lit ''controls'', Lit ''kill-switch''], [(''POST'', ''kill_switch'')])),
      ([Lit ''enable''], (api [Lit ''controls'', Lit ''enable''], [(''POST'', ''enable_quoting'')])),
      ([Lit ''parameters''], (api [Lit ''controls'', Lit ''parameters''], [(''POST'', ''update_parameters'')])),
      ([Lit ''instruments''], (api [Lit ''controls'', Lit ''instruments''], [(''GET'', ''list_instruments'')])),
      ([Lit ''instrument'', Param ''symbol'', Lit ''toggle''], (api [Lit ''controls'', Lit ''instrument'', Param ''symbol'', Lit ''toggle''], [(''POST'', ''toggle_instrument'')]))]"
  by code_simp

lemma prices_routes: "resource_routes ''prices'' =
     [([], (api [Lit ''prices''], [(''GET'', ''get_all_prices''), (''POST'', ''insert_price'')])),
      ([Param ''symbol''], (api [Lit ''prices'', Param ''symbol''], [(''GET'', ''get_latest_price'')]))]"
  by code_simp

lemma orders_routes: "resource_routes ''orders'' =
     [([], (api [Lit ''orders''], [(''GET'', ''list_orders'')])),
      ([Param ''order_id''], (api [Lit ''orders'', Param ''order_id''], [(''GET'', ''get_order_status'')])),
      ([Lit ''bulk''], (api [Lit ''orders'', Lit ''bulk''], [(''POST'', ''bulk_submit_orders''), (''DELETE'', ''bulk_cancel_orders'')])),
      ([Lit ''cancel-all''], (api [Lit ''orders'', Lit ''cancel-all''], [(''DELETE'', ''cancel_all_orders'')]))]"
  by code_simp

lemma positions_routes: "resource_routes ''positions'' =
     [([], (api [Lit ''positions''], [(''GET'', ''list_positions'')])),
      ([Param ''symbol''], (api [Lit ''positions'', Param ''symbol''], [(''GET'', ''get_position'')]))]"
  by code_simp

lemma executions_routes: "resource_routes ''executions'' =
     [([], (api [Lit ''executions''], [(''GET'', ''list_executions'')])),
      ([Param ''execution_id''], (api [Lit ''executions'', Param ''execution_id''], [(''GET'', ''get_execution'')]))]"
  by code_simp

lemma admin_routes: "resource_routes ''admin'' =
     [([Lit ''snapshot''], (api [Lit ''admin'', Lit ''snapshot''], [(''POST'', ''create_snapshot'')])),
      ([Lit ''snapshots''], (api [Lit ''admin'', Lit ''snapshots''], [(''GET'', ''list_snapshots'')])),
      ([Lit ''snapshots'', Param ''snapshot_id''], (api [Lit ''admin'', Lit ''snapshots'', Param ''snapshot_id''], [(''GET'', ''get_snapshot'')])),
      ([Lit ''snapshots'', Param ''snapshot_id'', Lit ''restore''], (api [Lit ''admin'', Lit ''snapshots'', Param ''snapshot_id'', Lit ''restore''], [(''POST'', ''restore_snapshot'')]))]"
  by code_simp

lemma underlyings_routes: "resource_routes ''underlyings'' =
     [([], (api [Lit ''underlyings''], [(''GET'', ''list_underlyings'')])),
      ([Param ''underlying''], (api [Lit ''underlyings'', Param ''underlying''], [(''POST'', ''create_underlying''), (''GET'', ''get_underlying''), (''DELETE'', ''delete_underlying'')])),
      ([Param ''underlying'', Lit ''expirations''], (api [Lit ''underlyings'', Param ''underlying'', Lit ''expirations''], [(''GET'', ''list_expirations'')])),
      ([Param ''underlying'', Lit ''expirations'', Param ''expiration''], (api [Lit ''underlyings'', Param ''underlying'', Lit ''expirations'', Param ''expiration''], [(''POST'', ''create_expiration''), (''GET'', ''get_expiration'')])),
      ([Param ''underlying'', Lit ''volatility-surface''], (api [Lit ''underlyings'', Param ''underlying'', Lit ''volatility-surface''], [(''GET'', ''get_volatility_surface'')])),
      ([Param ''underlying'', Lit ''expirations'', Param ''expiration'', Lit ''chain''], (api [Lit ''underlyings'', Param ''underlying'', Lit ''expirations'', Param ''expiration'', Lit ''chain''], [(''GET'', ''get_option_chain'')])),
      ([Param ''underlying'', Lit ''expirations'', Param ''expiration'', Lit ''strikes''], (api [Lit ''underlyings'', Param ''underlying'', Lit ''expirations'', Param ''expiration'', Lit ''strikes''], [(''GET'', ''list_strikes'')])),
      ([Param ''underlying'', Lit ''expirations'', Param ''expiration'', Lit ''strikes'', Param ''strike''], (api [Lit ''underlyings'', Param ''underlying'', Lit ''expirations'', Param ''expiration'', Lit ''strikes'', Param ''strike''], [(''POST'', ''create_strike''), (''GET'', ''get_strike'')])),
      ([Param ''underlying'', Lit ''expirations'', Param ''expiration'', Lit ''strikes'', Param ''strike'', Lit ''options'', Param ''style''], (option_prefix, [(''GET'', ''get_option_book'')])),
      ([Param ''underlying'', Lit ''expirations'', Param ''expiration'', Lit ''strikes'', Param ''strike'', Lit ''options'', Param ''style'', Lit ''orders''], (option_prefix @ [Lit ''orders''], [(''POST'', ''add_order'')])),
      ([Param ''underlying'', Lit ''expirations'', Param ''expiration'', Lit ''strikes'', Param ''strike'', Lit ''options'', Param ''style'', Lit ''orders'', Lit ''market''], (option_prefix @ [Lit ''orders'', Lit ''market''], [(''POST'', ''submit_market_order'')])),
      ([Param ''underlying'', Lit ''expirations'', Param ''expiration'', Lit ''strikes'', Param ''strike'', Lit ''options'', Param ''style'', Lit ''orders'', Param ''order_id''], (option_prefix @ [Lit ''orders'', Param ''order_id''], [(''DELETE'', ''cancel_order''), (''PATCH'', ''modify_order'')])),
      ([Param ''underlying'', Lit ''expirations'', Param ''expiration'', Lit ''strikes'', Param ''strike'', Lit ''options'', Param ''style'', Lit ''quote''], (option_prefix @ [Lit ''quote''], [(''GET'', ''get_option_quote'')])),
      ([Param ''underlying'', Lit ''expirations'', Param ''expiration'', Lit ''strikes'', Param ''strike'', Lit ''options'', Param ''style'', Lit ''greeks''], (option_prefix @ [Lit ''greeks''], [(''GET'', ''get_option_greeks'')])),
      ([Param ''underlying'', Lit ''expirations'', Param ''expiration'', Lit ''strikes'', Param ''strike'', Lit ''options'', Param ''style'', Lit ''snapshot''], (option_prefix @ [Lit ''snapshot''], [(''GET'', ''get_option_snapshot'')])),
      ([Param ''underlying'', Lit ''expirations'', Param ''expiration'', Lit ''strikes'', Param ''strike'', Lit ''options'', Param ''style'', Lit ''last-trade''], (option_prefix @ [Lit ''last-trade''], [(''GET'', ''get_last_trade'')])),
      ([Param ''underlying'', Lit ''expirations'', Param ''expiration'', Lit ''strikes'', Param ''strike'', Lit ''options'', Param ''style'', Lit ''ohlc''], (option_prefix @ [Lit ''ohlc''], [(''GET'', ''get_ohlc'')])),
      ([Param ''underlying'', Lit ''expirations'', Param ''expiration'', Lit ''strikes'', Param ''strike'', Lit ''options'', Param ''style'', Lit ''metrics''], (option_prefix @ [Lit ''metrics''], [(''GET'', ''get_orderbook_metrics'')]))]"
  by code_simp

lemma option_routes_table: "option_routes =
     [([], (option_prefix, [(''GET'', ''get_option_book'')])),
      ([Lit ''orders''], (option_prefix @ [Lit ''orders''], [(''POST'', ''add_order'')])),
      ([Lit ''orders'', Lit ''market''], (option_prefix @ [Lit ''orders'', Lit ''market''], [(''POST'', ''submit_market_order'')])),
      ([Lit ''orders'', Param ''order_id''], (option_prefix @ [Lit ''orders'', Param ''order_id''], [(''DELETE'', ''cancel_order''), (''PATCH'', ''modify_order'')])),
      ([Lit ''quote''], (option_prefix @ [Lit ''quote''], [(''GET'', ''get_option_quote'')])),
      ([Lit ''greeks''], (option_prefix @ [Lit ''greeks''], [(''GET'', ''get_option_greeks'')])),
      ([Lit ''snapshot''], (option_prefix @ [Lit ''snapshot''], [(''GET'', ''get_option_snapshot'')])),
      ([Lit ''last-trade''], (option_prefix @ [Lit ''last-trade''], [(''GET'', ''get_last_trade'')])),
      ([Lit ''ohlc''], (option_prefix @ [Lit ''ohlc''], [(''GET'', ''get_ohlc'')])),
      ([Lit ''metrics''], (option_prefix @ [Lit ''metrics''], [(''GET'', ''get_orderbook_metrics'')]))]"
  by code_simp

lemma option_matching:
  assumes "url_laws U decode" and "nameable (op_underlying p)" "nameable (op_expiration p)" "nameable (op_style p)"
  shows "matching_routes (option_segs U p @ rest) = tail_matches option_routes rest"
proof -
  note enc = encode_segment_name [OF assms(1)]
  have fresh: "encode_segment U s \<noteq> []" "CHR ''/'' \<notin> set (encode_segment U s)" if "nameable s" for s
    using enc [OF that] by (simp_all add: undelimited_def)
  show ?thesis
    by (simp add: option_segs_def resource_matching underlyings_routes option_routes_table tail_matches_def
        fresh assms show_word_segment)
qed

lemma api_patterns [simp]:
  "api p = api q \<longleftrightarrow> p = q" "more_specific (api p) (api q) = more_specific p q"
  "param_values (api p) (a # b # segs) = param_values p segs"
  by (simp_all add: api_def)

lemma option_patterns [simp]:
  "more_specific option_prefix option_prefix = False"
  "more_specific (option_prefix @ p) (option_prefix @ q) = more_specific p q"
  "param_values (option_prefix @ p) (option_segs U path @ segs) =
     [encode_segment U (op_underlying path), encode_segment U (op_expiration path), show_word (op_strike path),
      encode_segment U (op_style path)] @ param_values p segs"
  by (simp_all add: option_prefix_def api_def option_segs_def)

lemma option_route_params [simp]:
  "param_values option_prefix (option_segs U path) =
     [encode_segment U (op_underlying path), encode_segment U (op_expiration path), show_word (op_strike path),
      encode_segment U (op_style path)]"
  by (simp add: option_prefix_def api_def option_segs_def)

lemma client_dispatch:
  assumes laws: "url_laws U decode"
    and names: "nameable (arg_name A)" "nameable (arg_expiration A)" "nameable (arg_id A)"
      "nameable (op_underlying (arg_path A))" "nameable (op_expiration (arg_path A))" "nameable (op_style (arg_path A))"
    and ids: "encode_segment U (arg_id A) \<noteq> ''bulk''" "encode_segment U (arg_id A) \<noteq> ''cancel-all''"
      "encode_segment U (arg_id A) \<noteq> ''market''"
  shows "list_all (\<lambda>(rq, segs, handler, args). dispatches decode (crq_method rq) segs handler args) (client_calls U F c A)"
proof -
  note enc = encode_segment_name [OF laws]
  have fresh: "encode_segment U s \<noteq> []" "CHR ''/'' \<notin> set (encode_segment U s)" "decode (encode_segment U s) = s"
    if "nameable s" for s using enc [OF that] by (simp_all add: undelimited_def)
  have literal: "decode (show_word k) = show_word k" for k :: u64
    using laws show_word_segment(3) by (simp add: url_laws_def)
  have plain: "matching_routes (option_segs U (arg_path A)) = tail_matches option_routes []"
    using option_matching [OF laws names(4-6), of "[]"] by simp
  note option = plain option_matching [OF laws names(4-6)] option_routes_table option_args_def
  note resource = resource_matching stats_routes auth_routes controls_routes prices_routes orders_routes positions_routes
    executions_routes admin_routes underlyings_routes
  have health: "matching_routes [''health''] = [([Lit ''health''], [(''GET'', ''health_check'')])]"
    by code_simp
  note base = dispatches_def route_of_def Let_def tail_matches_def fresh names ids literal show_word_segment client_defs
  show ?thesis
    unfolding client_calls_def list.pred_inject prod.case
    by (intro conjI TrueI; (simp add: base option resource health; fail)?)
qed

section \<open>Properties\<close>

text \<open>
  Client and server agree on the routes. Whatever the arguments, as long as the names can stand in
  a path, every one of the client's methods addresses the path it means, the route of the server's
  table that wins for that path has a handler for the client's HTTP method, it is the handler the
  method is named after, and the server decodes its path parameters to the client's arguments. Three
  order ids are words of the table themselves and are excepted.
\<close>

theorem client_requests_routed:
  assumes "url_laws U decode"
    and "nameable (arg_name A)" "nameable (arg_expiration A)" "nameable (arg_id A)"
    and "nameable (op_underlying (arg_path A))" "nameable (op_expiration (arg_path A))" "nameable (op_style (arg_path A))"
    and "arg_id A \<notin> {''bulk'', ''cancel-all'', ''market''}"
  shows "list_all (\<lambda>(rq, segs, handler, args). addresses c rq segs \<and> dispatches decode (crq_method rq) segs handler args)
     (client_calls U F c A)"
proof -
  have word: "decode w = w" if "CHR ''%'' \<notin> set w" for w
    using assms(1) that by (simp add: url_laws_def)
  have "encode_segment U (arg_id A) \<noteq> w" if "w \<in> {''bulk'', ''cancel-all'', ''market''}" for w
    using encode_segment_name(3) [OF assms(1,4)] word [of w] assms(8) that by auto
  then have "list_all (\<lambda>(rq, segs, handler, args). dispatches decode (crq_method rq) segs handler args) (client_calls U F c A)"
    by (intro client_dispatch [OF assms(1-7)]) simp_all
  with client_addresses [of c U F A] show ?thesis by (auto simp: list_all_iff)
qed

text \<open>An encoding with these laws: every character becomes a percent sign and two letters.\<close>

definition demo_encode :: "string \<Rightarrow> string" where
  "demo_encode s = concat (map (\<lambda>ch. [CHR ''%'', char_of (65 + of_char ch div 16 :: nat), char_of (65 + of_char ch mod 16 :: nat)]) s)"

fun demo_decode :: "string \<Rightarrow> string" where
  "demo_decode (p # a # b # s) =
     (if p = CHR ''%'' then char_of ((of_char a - 65) * 16 + (of_char b - 65) :: nat) # demo_decode s
      else p # demo_decode (a # b # s))"
| "demo_decode s = s"

definition demo_url :: "string url_lib" where
  "demo_url = \<lparr>ul_parse = \<lambda>_. Some [], ul_push = \<lambda>_ s. Some (if s = ''.'' \<or> s = ''..'' then [] else demo_encode s),
     ul_path = \<lambda>e. CHR ''/'' # e\<rparr>"

lemma demo_letters: "n < 16 \<Longrightarrow> of_char (char_of (65 + n :: nat) :: char) = 65 + n"
  by (simp add: of_char_of)

lemma demo_nibbles: "(of_char ch :: nat) div 16 < 16" "(of_char ch :: nat) mod 16 < 16"
proof -
  have "(of_char ch :: nat) < 256"
    using of_char_mod_256 [where ?'a = nat, of ch] by (metis mod_less_divisor zero_less_numeral)
  then show "(of_char ch :: nat) div 16 < 16" "(of_char ch :: nat) mod 16 < 16" by presburger+
qed

lemma demo_no_delimiter: "n < 16 \<Longrightarrow> (of_char ch :: nat) < 65 \<Longrightarrow> ch \<noteq> char_of (65 + n :: nat)"
  using demo_letters [of n] by (metis not_add_less1)

lemma demo_letter_value: "(of_char (char_of (65 + of_char ch div 16 :: nat) :: char) :: nat) = 65 + of_char ch div 16"
  "(of_char (char_of (65 + of_char ch mod 16 :: nat) :: char) :: nat) = 65 + of_char ch mod 16"
  by (rule demo_letters, rule demo_nibbles)+

lemma demo_decode_encode: "demo_decode (demo_encode s) = s"
  by (induction s) (simp_all add: demo_encode_def demo_letter_value del: of_char_of)

lemma demo_undelimited: "undelimited (demo_encode s)"
  by (induction s) (simp_all add: demo_encode_def undelimited_def demo_no_delimiter demo_nibbles)

lemma demo_encode_empty: "demo_encode s = [] \<longleftrightarrow> s = []"
  by (cases s) (simp_all add: demo_encode_def)

lemma demo_decode_plain: "CHR ''%'' \<notin> set s \<Longrightarrow> demo_decode s = s"
  by (induction s rule: demo_decode.induct) auto

lemma demo_url_laws: "url_laws demo_url demo_decode"
  using demo_decode_encode demo_undelimited
  by (simp add: url_laws_def demo_url_def demo_decode_plain demo_encode_empty)

definition demo_args :: call_args where
  "demo_args = \<lparr>arg_name = ''BTC'', arg_expiration = ''20300101'', arg_strike = 100,
     arg_path = option_path_call ''BTC'' ''20300101'' 100, arg_id = ''a/b'', arg_depth = None, arg_executions = None,
     arg_positions = None, arg_orders = None, arg_cancel_all = None, arg_ohlc = None,
     arg_add = \<lparr>cao_side = Buy, cao_price = 1, cao_quantity = 1\<rparr>, arg_market = \<lparr>mo_side = Buy, mo_quantity = 1\<rparr>,
     arg_modify = \<lparr>mod_price = None, mod_quantity = None\<rparr>, arg_bulk = \<lparr>br_orders = [], br_atomic = False\<rparr>,
     arg_ids = [],
     arg_params = \<lparr>pq_spread_multiplier = None, pq_size_scalar = None, pq_directional_skew = None\<rparr>,
     arg_price = \<lparr>iq_symbol = ''BTC'', iq_price = f_zero, iq_bid = None, iq_ask = None, iq_volume = None, iq_source = None\<rparr>,
     arg_token = \<lparr>ctr_secret = [], ctr_permissions = [], ctr_ttl_secs = None\<rparr>\<rparr>"

definition demo_client :: orderbook_client where
  "demo_client = \<lparr>ob_headers = [], ob_timeout_secs = 30, ob_base_url = ''http://localhost:8080'', ob_token = None\<rparr>"

lemma demo_segment:
  assumes "nameable s"
  shows "encode_segment demo_url s = demo_encode s"
proof -
  have "dropWhile (\<lambda>ch. ch = CHR ''/'') (demo_encode s) = demo_encode s"
    using demo_undelimited [of s] by (cases "demo_encode s") (auto simp: undelimited_def)
  with assms show ?thesis by (simp add: encode_segment_def demo_url_def nameable_def)
qed

lemma client_requests_routed_witness:
  "dispatches demo_decode ''DELETE'' [''api'', ''v1'', ''underlyings'', demo_encode ''BTC'', ''expirations'', demo_encode ''20300101'',
     ''strikes'', show_word (100 :: u64), ''options'', demo_encode ''call'', ''orders'', demo_encode ''a/b'']
     ''cancel_order'' [''BTC'', ''20300101'', show_word (100 :: u64), ''call'', ''a/b'']"
proof -
  have names: "nameable (arg_name demo_args)" "nameable (arg_expiration demo_args)" "nameable (arg_id demo_args)"
    "nameable (op_underlying (arg_path demo_args))" "nameable (op_expiration (arg_path demo_args))"
    "nameable (op_style (arg_path demo_args))" "arg_id demo_args \<notin> {''bulk'', ''cancel-all'', ''market''}"
    by (simp_all add: demo_args_def nameable_def option_path_call_def)
  have path: "option_segs demo_url (arg_path demo_args) = [''api'', ''v1'', ''underlyings'', demo_encode ''BTC'', ''expirations'',
      demo_encode ''20300101'', ''strikes'', show_word (100 :: u64), ''options'', demo_encode ''call'']"
    "option_args (arg_path demo_args) = [''BTC'', ''20300101'', show_word (100 :: u64), ''call'']"
    "encode_segment demo_url (arg_id demo_args) = demo_encode ''a/b''" "arg_id demo_args = ''a/b''"
    by (simp_all only: option_segs_def option_args_def demo_segment [OF names(3)] demo_segment [OF names(4)]
        demo_segment [OF names(5)] demo_segment [OF names(6)]) (simp_all add: demo_args_def option_path_call_def)
  have "(client_cancel_order demo_url demo_client (arg_path demo_args) (arg_id demo_args),
      option_segs demo_url (arg_path demo_args) @ [''orders'', encode_segment demo_url (arg_id demo_args)], ''cancel_order'',
      option_args (arg_path demo_args) @ [arg_id demo_args]) \<in> set (client_calls demo_url (\<lambda>_. []) demo_client demo_args)"
    by (simp only: client_calls_def list.set insert_iff simp_thms)
  from bspec [OF client_requests_routed [OF demo_url_laws names, unfolded list_all_iff] this]
  have "dispatches demo_decode (crq_method (client_cancel_order demo_url demo_client (arg_path demo_args) (arg_id demo_args)))
      (option_segs demo_url (arg_path demo_args) @ [''orders'', encode_segment demo_url (arg_id demo_args)]) ''cancel_order''
      (option_args (arg_path demo_args) @ [arg_id demo_args])" by (simp only: prod.case)
  then show ?thesis by (simp only: path(1-3) append.simps) (simp add: client_cancel_order_def path(4))
qed

text \<open>
  The token reaches the server. A client built with a token sends it so that the server's
  middleware finds exactly that token, and the WebSocket URL carries it as the parameter the
  middleware falls back on; a token with a separator of query strings in it would be cut there.
\<close>

theorem client_authenticates:
  assumes "client_new header_ok build_error cfg = Inr c" and "clc_token cfg = Some t" and "trim t = t" and "t \<noteq> []"
    and "rq_authorization rq = map_of (ob_headers c) ''authorization''"
  shows "extract_token rq = Some t
    \<and> (\<exists>ws_base. ws_url c = ws_base @ ''/ws?'' @ ''token='' @ t)
    \<and> (CHR ''&'' \<notin> set t \<longrightarrow> query_token (rq\<lparr>rq_query := Some (''token='' @ t)\<rparr>) = Some t)"
proof -
  have c: "ob_headers c = [(''authorization'', ''Bearer '' @ t)]" "ob_token c = Some t"
    using assms(1,2) by (auto simp: client_new_def split: if_splits option.splits)
  have "extract_token rq = Some t"
    using assms(3-5) c(1) by (simp add: extract_token_def strip_prefix_str_def)
  moreover have "\<exists>ws_base. ws_url c = ws_base @ ''/ws?'' @ ''token='' @ t" using c(2) by (simp add: ws_url_def Let_def)
  moreover have "split_on (CHR ''&'') (''token='' @ t) = [''token='' @ t]" if "CHR ''&'' \<notin> set t"
    using that split_on_notin [of "CHR ''&''" "''token='' @ t"] by simp
  then have "CHR ''&'' \<notin> set t \<Longrightarrow> query_token (rq\<lparr>rq_query := Some (''token='' @ t)\<rparr>) = Some t"
    using assms(4) by (simp add: query_token_def strip_prefix_str_def)
  ultimately show ?thesis by blast
qed

lemma client_authenticates_witness:
  "extract_token (demo_request\<lparr>rq_authorization := Some ''Bearer abc''\<rparr>) = Some ''abc''"
proof -
  obtain c where c: "client_with_token (\<lambda>_. True) None ''http://localhost/'' ''abc'' = Inr c"
    by (simp add: client_with_token_def client_new_def)
  then have headers: "ob_headers c = [(''authorization'', ''Bearer abc'')]"
    by (auto simp: client_with_token_def client_new_def)
  show ?thesis
    using client_authenticates [OF c [unfolded client_with_token_def], of "''abc''" "demo_request\<lparr>rq_authorization := Some ''Bearer abc''\<rparr>"]
    by (simp add: headers trim_def is_space_def)
qed

text \<open>
  What the caller gets for every error of the server: not found for a 404, and otherwise the
  status with the body.
\<close>

lemma client_sees_errors:
  "handle_response parse d (resp_status (into_response e)) (Some body)
     = Inl (if resp_status (into_response e) = 404 then CeNotFound body else CeApi (resp_status (into_response e)) body)"
  by (cases e) (simp_all add: handle_response_def)

end
