(* ===== verification/Client_Ws.thy ===== *)
theory Client_Ws
  imports Subscriptions Client "HOL-Library.Countable"
begin

text \<open>
  The WebSocket client of \<open>src/crates/orderbook-client/src/websocket.rs\<close>: the commands it builds
  and writes, the messages it reads, and its two background tasks; with the server's side of the
  same texts (\<open>src/src/api/websocket.rs\<close>). The text of a JSON value and the socket are parameters.
\<close>

section \<open>Commands\<close>

definition command :: "string \<Rightarrow> client_command" where
  "command action = \<lparr>cc_action = action, cc_channel = None, cc_symbol = None, cc_depth = None, cc_value = None,
     cc_request_id = None, cc_channels = None\<rparr>"

definition cmd_subscribe :: "string \<Rightarrow> client_command" where
  "cmd_subscribe symbol = (command ''subscribe'')\<lparr>cc_symbol := Some symbol\<rparr>"

definition cmd_subscribe_orderbook :: "string \<Rightarrow> nat option \<Rightarrow> client_command" where
  "cmd_subscribe_orderbook symbol depth =
     (command ''subscribe'')\<lparr>cc_channel := Some ''orderbook'', cc_symbol := Some symbol, cc_depth := depth\<rparr>"

definition cmd_unsubscribe :: "string \<Rightarrow> client_command" where
  "cmd_unsubscribe symbol = (command ''unsubscribe'')\<lparr>cc_symbol := Some symbol\<rparr>"

definition cmd_unsubscribe_orderbook :: "string \<Rightarrow> client_command" where
  "cmd_unsubscribe_orderbook symbol =
     (command ''unsubscribe'')\<lparr>cc_channel := Some ''orderbook'', cc_symbol := Some symbol\<rparr>"

definition cmd_subscribe_trades :: "string \<Rightarrow> client_command" where
  "cmd_subscribe_trades symbol = (command ''subscribe'')\<lparr>cc_channel := Some ''trades'', cc_symbol := Some symbol\<rparr>"

definition cmd_unsubscribe_trades :: "string \<Rightarrow> client_command" where
  "cmd_unsubscribe_trades symbol = (command ''unsubscribe'')\<lparr>cc_channel := Some ''trades'', cc_symbol := Some symbol\<rparr>"

definition cmd_set_spread :: "f64 \<Rightarrow> client_command" where
  "cmd_set_spread v = (command ''set_spread'')\<lparr>cc_value := Some v\<rparr>"

definition cmd_set_size :: "f64 \<Rightarrow> client_command" where
  "cmd_set_size v = (command ''set_size'')\<lparr>cc_value := Some v\<rparr>"

definition cmd_set_skew :: "f64 \<Rightarrow> client_command" where
  "cmd_set_skew v = (command ''set_skew'')\<lparr>cc_value := Some v\<rparr>"

definition cmd_kill :: client_command where
  "cmd_kill = command ''kill''"

definition cmd_enable :: client_command where
  "cmd_enable = command ''enable''"

definition cmd_batch_subscribe :: "channel_subscription list \<Rightarrow> string option \<Rightarrow> client_command" where
  "cmd_batch_subscribe channels request_id =
     (command ''batch_subscribe'')\<lparr>cc_request_id := request_id, cc_channels := Some channels\<rparr>"

definition cmd_batch_unsubscribe :: "channel_subscription list \<Rightarrow> string option \<Rightarrow> client_command" where
  "cmd_batch_unsubscribe channels request_id =
     (command ''batch_unsubscribe'')\<lparr>cc_request_id := request_id, cc_channels := Some channels\<rparr>"

definition cmd_list_subscriptions :: client_command where
  "cmd_list_subscriptions = command ''list_subscriptions''"

section \<open>Commands on the wire\<close>

definition enc_channel :: "subscription_channel \<Rightarrow> json" where
  "enc_channel ch = JStr (subscription_channel_display ch)"

definition dec_channel :: "json \<Rightarrow> subscription_channel option" where
  "dec_channel = dec_variant [(ChOrderbook, ''orderbook''), (ChTrades, ''trades''), (ChQuotes, ''quotes''),
     (ChPrices, ''prices''), (ChFills, ''fills'')]"

definition c_enc_channel_subscription :: "channel_subscription \<Rightarrow> json" where
  "c_enc_channel_subscription s = JObj ([(''channel'', enc_channel (cs_channel s))]
     @ opt_member ''symbol'' JStr (cs_symbol s) @ opt_member ''underlying'' JStr (cs_underlying s)
     @ opt_member ''expiration'' JStr (cs_expiration s) @ opt_member ''depth'' enc_usize (cs_depth s))"

definition s_dec_channel_subscription :: "json \<Rightarrow> channel_subscription option" where
  "s_dec_channel_subscription = dec_obj (\<lambda>ms. do {
     channel \<leftarrow> field ''channel'' dec_channel ms;
     symbol \<leftarrow> opt_field ''symbol'' dec_str ms;
     underlying \<leftarrow> opt_field ''underlying'' dec_str ms;
     expiration \<leftarrow> opt_field ''expiration'' dec_str ms;
     depth \<leftarrow> opt_field ''depth'' dec_usize ms;
     Some \<lparr>cs_channel = channel, cs_symbol = symbol, cs_underlying = underlying, cs_expiration = expiration,
       cs_depth = depth\<rparr> })"

definition c_enc_command :: "client_command \<Rightarrow> json" where
  "c_enc_command c = JObj ([(''action'', JStr (cc_action c))]
     @ opt_member ''channel'' JStr (cc_channel c) @ opt_member ''symbol'' JStr (cc_symbol c)
     @ opt_member ''depth'' enc_usize (cc_depth c) @ opt_member ''value'' enc_f64 (cc_value c)
     @ opt_member ''request_id'' JStr (cc_request_id c)
     @ opt_member ''channels'' (enc_list c_enc_channel_subscription) (cc_channels c))"

definition s_dec_command :: "json \<Rightarrow> client_command option" where
  "s_dec_command = dec_obj (\<lambda>ms. do {
     action \<leftarrow> field ''action'' dec_str ms;
     channel \<leftarrow> opt_field ''channel'' dec_str ms;
     symbol \<leftarrow> opt_field ''symbol'' dec_str ms;
     depth \<leftarrow> opt_field ''depth'' dec_usize ms;
     v \<leftarrow> opt_field ''value'' dec_f64 ms;
     request_id \<leftarrow> opt_field ''request_id'' dec_str ms;
     channels \<leftarrow> opt_field ''channels'' (dec_list s_dec_channel_subscription) ms;
     Some \<lparr>cc_action = action, cc_channel = channel, cc_symbol = symbol, cc_depth = depth, cc_value = v,
       cc_request_id = request_id, cc_channels = channels\<rparr> })"

section \<open>Messages on the wire\<close>

definition enc_subscription_result_s :: "subscription_result \<Rightarrow> json" where
  "enc_subscription_result_s r = JObj ([(''channel'', enc_channel (sr_channel r))]
     @ opt_member ''symbol'' JStr (sr_symbol r) @ opt_member ''underlying'' JStr (sr_underlying r)
     @ [(''status'', JStr (sr_status r))])"

definition dec_subscription_result_c :: "json \<Rightarrow> subscription_result option" where
  "dec_subscription_result_c = dec_obj (\<lambda>ms. do {
     channel \<leftarrow> field ''channel'' dec_channel ms;
     symbol \<leftarrow> opt_field ''symbol'' dec_str ms;
     underlying \<leftarrow> opt_field ''underlying'' dec_str ms;
     status \<leftarrow> field ''status'' dec_str ms;
     Some \<lparr>sr_channel = channel, sr_symbol = symbol, sr_underlying = underlying, sr_status = status\<rparr> })"

definition enc_active_subscription_s :: "active_subscription \<Rightarrow> json" where
  "enc_active_subscription_s a = JObj ([(''channel'', enc_channel (asb_channel a))]
     @ opt_member ''symbol'' JStr (asb_symbol a) @ opt_member ''underlying'' JStr (asb_underlying a)
     @ opt_member ''depth'' enc_usize (asb_depth a))"

definition dec_active_subscription_c :: "json \<Rightarrow> active_subscription option" where
  "dec_active_subscription_c = dec_obj (\<lambda>ms. do {
     channel \<leftarrow> field ''channel'' dec_channel ms;
     symbol \<leftarrow> opt_field ''symbol'' dec_str ms;
     underlying \<leftarrow> opt_field ''underlying'' dec_str ms;
     depth \<leftarrow> opt_field ''depth'' dec_usize ms;
     Some \<lparr>asb_channel = channel, asb_symbol = symbol, asb_underlying = underlying, asb_depth = depth\<rparr> })"

definition enc_price_level_data_s :: "price_level_data \<Rightarrow> json" where
  "enc_price_level_data_s l = JObj [(''price'', enc_word (pl_price l)), (''quantity'', enc_word (pl_quantity l))]"

definition dec_price_level_data_c :: "json \<Rightarrow> price_level_data option" where
  "dec_price_level_data_c = dec_obj (\<lambda>ms. do {
     price \<leftarrow> field ''price'' dec_word ms;
     quantity \<leftarrow> field ''quantity'' dec_word ms;
     Some \<lparr>pl_price = price, pl_quantity = quantity\<rparr> })"

definition enc_price_level_change_s :: "price_level_change \<Rightarrow> json" where
  "enc_price_level_change_s l = JObj [(''side'', JStr (pc_side l)), (''price'', enc_word (pc_price l)),
     (''quantity'', enc_word (pc_quantity l))]"

definition dec_price_level_change_c :: "json \<Rightarrow> price_level_change option" where
  "dec_price_level_change_c = dec_obj (\<lambda>ms. do {
     side \<leftarrow> field ''side'' dec_str ms;
     price \<leftarrow> field ''price'' dec_word ms;
     quantity \<leftarrow> field ''quantity'' dec_word ms;
     Some \<lparr>pc_side = side, pc_price = price, pc_quantity = quantity\<rparr> })"

text \<open>A message is its type and its data.\<close>

definition tagged :: "string \<Rightarrow> members \<Rightarrow> json" where
  "tagged tag ms = JObj [(''type'', JStr tag), (''data'', JObj ms)]"

fun enc_ws_s :: "ws_message \<Rightarrow> json" where
  "enc_ws_s (WsQuote symbol expiration strike style bid_price ask_price bid_size ask_size) =
     tagged ''quote'' [(''symbol'', JStr symbol), (''expiration'', JStr expiration), (''strike'', enc_word strike),
       (''style'', JStr style), (''bid_price'', enc_word bid_price), (''ask_price'', enc_word ask_price),
       (''bid_size'', enc_word bid_size), (''ask_size'', enc_word ask_size)]"
| "enc_ws_s (WsFill order_id symbol instrument side quantity price edge) =
     tagged ''fill'' [(''order_id'', JStr order_id), (''symbol'', JStr symbol), (''instrument'', JStr instrument),
       (''side'', JStr side), (''quantity'', enc_word quantity), (''price'', enc_word price), (''edge'', JInt edge)]"
| "enc_ws_s (WsConfig enabled spread_multiplier size_scalar directional_skew) =
     tagged ''config'' [(''enabled'', JBool enabled), (''spread_multiplier'', enc_f64 spread_multiplier),
       (''size_scalar'', enc_f64 size_scalar), (''directional_skew'', enc_f64 directional_skew)]"
| "enc_ws_s (WsPrice symbol price_cents) =
     tagged ''price'' [(''symbol'', JStr symbol), (''price_cents'', enc_word price_cents)]"
| "enc_ws_s (WsConnected message) = tagged ''connected'' [(''message'', JStr message)]"
| "enc_ws_s (WsHeartbeat timestamp) = tagged ''heartbeat'' [(''timestamp'', enc_word timestamp)]"
| "enc_ws_s (WsOrderbookSnapshot channel symbol sequence bids asks) =
     tagged ''orderbook_snapshot'' [(''channel'', JStr channel), (''symbol'', JStr symbol), (''sequence'', enc_word sequence),
       (''bids'', enc_list enc_price_level_data_s bids), (''asks'', enc_list enc_price_level_data_s asks)]"
| "enc_ws_s (WsOrderbookDelta symbol sequence changes) =
     tagged ''orderbook_delta'' [(''symbol'', JStr symbol), (''sequence'', enc_word sequence),
       (''changes'', enc_list enc_price_level_change_s changes)]"
| "enc_ws_s (WsSubscribed channel symbol) =
     tagged ''subscribed'' [(''channel'', JStr channel), (''symbol'', JStr symbol)]"
| "enc_ws_s (WsUnsubscribed channel symbol) =
     tagged ''unsubscribed'' [(''channel'', JStr channel), (''symbol'', JStr symbol)]"
| "enc_ws_s (WsError message) = tagged ''error'' [(''message'', JStr message)]"
| "enc_ws_s (WsTrade trade_id symbol price quantity timestamp_ms maker_order_id taker_order_id) =
     tagged ''trade'' [(''trade_id'', JStr trade_id), (''symbol'', JStr symbol), (''price'', enc_word price),
       (''quantity'', enc_word quantity), (''timestamp_ms'', enc_word timestamp_ms),
       (''maker_order_id'', JStr maker_order_id), (''taker_order_id'', JStr taker_order_id)]"
| "enc_ws_s (WsBatchSubscribed request_id subscriptions) =
     tagged ''batch_subscribed'' (opt_member ''request_id'' JStr request_id
       @ [(''subscriptions'', enc_list enc_subscription_result_s subscriptions)])"
| "enc_ws_s (WsBatchUnsubscribed request_id subscriptions) =
     tagged ''batch_unsubscribed'' (opt_member ''request_id'' JStr request_id
       @ [(''subscriptions'', enc_list enc_subscription_result_s subscriptions)])"
| "enc_ws_s (WsSubscriptionList active) =
     tagged ''subscriptions'' [(''active'', enc_list enc_active_subscription_s active)]"

text \<open>The reading of the data of one variant.\<close>

type_synonym ws_reader = "members \<Rightarrow> ws_message option"

definition read_quote :: ws_reader where
  "read_quote ms = do {
     symbol \<leftarrow> field ''symbol'' dec_str ms; expiration \<leftarrow> field ''expiration'' dec_str ms;
     strike \<leftarrow> field ''strike'' dec_word ms; style \<leftarrow> field ''style'' dec_str ms;
     bid_price \<leftarrow> field ''bid_price'' dec_word ms; ask_price \<leftarrow> field ''ask_price'' dec_word ms;
     bid_size \<leftarrow> field ''bid_size'' dec_word ms; ask_size \<leftarrow> field ''ask_size'' dec_word ms;
     Some (WsQuote symbol expiration strike style bid_price ask_price bid_size ask_size) }"

definition read_fill :: ws_reader where
  "read_fill ms = do {
     order_id \<leftarrow> field ''order_id'' dec_str ms; symbol \<leftarrow> field ''symbol'' dec_str ms;
     instrument \<leftarrow> field ''instrument'' dec_str ms; side \<leftarrow> field ''side'' dec_str ms;
     quantity \<leftarrow> field ''quantity'' dec_word ms; price \<leftarrow> field ''price'' dec_word ms; edge \<leftarrow> field ''edge'' dec_i64 ms;
     Some (WsFill order_id symbol instrument side quantity price edge) }"

definition read_config :: ws_reader where
  "read_config ms = do {
     enabled \<leftarrow> field ''enabled'' dec_bool ms; spread_multiplier \<leftarrow> field ''spread_multiplier'' dec_f64 ms;
     size_scalar \<leftarrow> field ''size_scalar'' dec_f64 ms; directional_skew \<leftarrow> field ''directional_skew'' dec_f64 ms;
     Some (WsConfig enabled spread_multiplier size_scalar directional_skew) }"

definition read_price :: ws_reader where
  "read_price ms = do {
     symbol \<leftarrow> field ''symbol'' dec_str ms; price_cents \<leftarrow> field ''price_cents'' dec_word ms;
     Some (WsPrice symbol price_cents) }"

definition read_message :: "(string \<Rightarrow> ws_message) \<Rightarrow> ws_reader" where
  "read_message f ms = map_option f (field ''message'' dec_str ms)"

definition read_heartbeat :: ws_reader where
  "read_heartbeat ms = map_option WsHeartbeat (field ''timestamp'' dec_word ms)"

definition read_orderbook_snapshot :: ws_reader where
  "read_orderbook_snapshot ms = do {
     channel \<leftarrow> field ''channel'' dec_str ms; symbol \<leftarrow> field ''symbol'' dec_str ms;
     sequence \<leftarrow> field ''sequence'' dec_word ms;
     bids \<leftarrow> field ''bids'' (dec_list dec_price_level_data_c) ms; asks \<leftarrow> field ''asks'' (dec_list dec_price_level_data_c) ms;
     Some (WsOrderbookSnapshot channel symbol sequence bids asks) }"

definition read_orderbook_delta :: ws_reader where
  "read_orderbook_delta ms = do {
     symbol \<leftarrow> field ''symbol'' dec_str ms; sequence \<leftarrow> field ''sequence'' dec_word ms;
     changes \<leftarrow> field ''changes'' (dec_list dec_price_level_change_c) ms;
     Some (WsOrderbookDelta symbol sequence changes) }"

definition read_subscribed :: "(string \<Rightarrow> string \<Rightarrow> ws_message) \<Rightarrow> ws_reader" where
  "read_subscribed f ms = do {
     channel \<leftarrow> field ''channel'' dec_str ms; symbol \<leftarrow> field ''symbol'' dec_str ms; Some (f channel symbol) }"

definition read_trade :: ws_reader where
  "read_trade ms = do {
     trade_id \<leftarrow> field ''trade_id'' dec_str ms; symbol \<leftarrow> field ''symbol'' dec_str ms;
     price \<leftarrow> field ''price'' dec_word ms; quantity \<leftarrow> field ''quantity'' dec_word ms;
     timestamp_ms \<leftarrow> field ''timestamp_ms'' dec_word ms;
     maker_order_id \<leftarrow> field ''maker_order_id'' dec_str ms; taker_order_id \<leftarrow> field ''taker_order_id'' dec_str ms;
     Some (WsTrade trade_id symbol price quantity timestamp_ms maker_order_id taker_order_id) }"

definition read_batch :: "(string option \<Rightarrow> subscription_result list \<Rightarrow> ws_message) \<Rightarrow> ws_reader" where
  "read_batch f ms = do {
     request_id \<leftarrow> opt_field ''request_id'' dec_str ms;
     subscriptions \<leftarrow> field ''subscriptions'' (dec_list dec_subscription_result_c) ms;
     Some (f request_id subscriptions) }"

definition read_subscriptions :: ws_reader where
  "read_subscriptions ms = map_option WsSubscriptionList (field ''active'' (dec_list dec_active_subscription_c) ms)"

definition ws_readers :: "(string \<times> ws_reader) list" where
  "ws_readers =
     [(''quote'', read_quote), (''fill'', read_fill), (''config'', read_config), (''price'', read_price),
      (''connected'', read_message WsConnected), (''heartbeat'', read_heartbeat),
      (''orderbook_snapshot'', read_orderbook_snapshot), (''orderbook_delta'', read_orderbook_delta),
      (''subscribed'', read_subscribed WsSubscribed), (''unsubscribed'', read_subscribed WsUnsubscribed),
      (''error'', read_message WsError), (''trade'', read_trade),
      (''batch_subscribed'', read_batch WsBatchSubscribed), (''batch_unsubscribed'', read_batch WsBatchUnsubscribed),
      (''subscriptions'', read_subscriptions)]"

definition dec_ws_c :: "json \<Rightarrow> ws_message option" where
  "dec_ws_c = dec_obj (\<lambda>ms. do {
     tag \<leftarrow> field ''type'' dec_str ms;
     reader \<leftarrow> map_of ws_readers tag;
     field ''data'' (dec_obj reader) ms })"

section \<open>The tasks of the client\<close>

datatype ws_frame = FrText string | FrClose | FrError | FrOther

text \<open>
  The read task: what arrives on the channel. \<open>accepts n\<close> is whether the receiver still takes the
  \<open>n\<close>-th message; a text that is not a message is dropped.
\<close>

fun read_task :: "(nat \<Rightarrow> bool) \<Rightarrow> (string \<Rightarrow> ws_message option) \<Rightarrow> nat \<Rightarrow> ws_frame list \<Rightarrow> ws_message list" where
  "read_task accepts parse n [] = []"
| "read_task accepts parse n (FrText t # frames) =
     (case parse t of
        Some m \<Rightarrow> if accepts n then m # read_task accepts parse (Suc n) frames else []
      | None \<Rightarrow> read_task accepts parse n frames)"
| "read_task accepts parse n (FrClose # frames) = []"
| "read_task accepts parse n (FrError # frames) = []"
| "read_task accepts parse n (FrOther # frames) = read_task accepts parse n frames"

text \<open>The write task: the texts that are sent, until the socket refuses one.\<close>

fun write_task :: "(nat \<Rightarrow> bool) \<Rightarrow> (client_command \<Rightarrow> string option) \<Rightarrow> nat \<Rightarrow> client_command list \<Rightarrow> string list" where
  "write_task sends text_of n [] = []"
| "write_task sends text_of n (cmd # cmds) =
     (case text_of cmd of
        Some t \<Rightarrow> if sends n then t # write_task sends text_of (Suc n) cmds else []
      | None \<Rightarrow> write_task sends text_of n cmds)"

text \<open>
  The client a caller holds: the messages the read task has delivered, the commands on their way to
  the write task, and whether that task still takes them. Receiving from an empty channel waits;
  here it is the end of the read task, \<open>None\<close>.
\<close>

record ws_client =
  wc_inbox :: "ws_message list"
  wc_commands :: "client_command list"
  wc_open :: bool

definition ws_recv :: "ws_client \<Rightarrow> ws_message option \<times> ws_client" where
  "ws_recv c = (case wc_inbox c of [] \<Rightarrow> (None, c) | m # ms \<Rightarrow> (Some m, c\<lparr>wc_inbox := ms\<rparr>))"

definition ws_send :: "client_command \<Rightarrow> ws_client \<Rightarrow> (client_error + unit) \<times> ws_client" where
  "ws_send cmd c = (if wc_open c then (Inr (), c\<lparr>wc_commands := wc_commands c @ [cmd]\<rparr>) else (Inl CeConnectionClosed, c))"

definition ws_subscribe :: "string \<Rightarrow> ws_client \<Rightarrow> (client_error + unit) \<times> ws_client" where
  "ws_subscribe symbol = ws_send (cmd_subscribe symbol)"

definition ws_unsubscribe :: "string \<Rightarrow> ws_client \<Rightarrow> (client_error + unit) \<times> ws_client" where
  "ws_unsubscribe symbol = ws_send (cmd_unsubscribe symbol)"

definition ws_subscribe_orderbook :: "string \<Rightarrow> nat option \<Rightarrow> ws_client \<Rightarrow> (client_error + unit) \<times> ws_client" where
  "ws_subscribe_orderbook symbol depth = ws_send (cmd_subscribe_orderbook symbol depth)"

definition ws_unsubscribe_orderbook :: "string \<Rightarrow> ws_client \<Rightarrow> (client_error + unit) \<times> ws_client" where
  "ws_unsubscribe_orderbook symbol = ws_send (cmd_unsubscribe_orderbook symbol)"

definition ws_subscribe_trades :: "string \<Rightarrow> ws_client \<Rightarrow> (client_error + unit) \<times> ws_client" where
  "ws_subscribe_trades symbol = ws_send (cmd_subscribe_trades symbol)"

definition ws_unsubscribe_trades :: "string \<Rightarrow> ws_client \<Rightarrow> (client_error + unit) \<times> ws_client" where
  "ws_unsubscribe_trades symbol = ws_send (cmd_unsubscribe_trades symbol)"

definition ws_batch_subscribe :: "channel_subscription list \<Rightarrow> string option \<Rightarrow> ws_client \<Rightarrow> (client_error + unit) \<times> ws_client" where
  "ws_batch_subscribe channels request_id = ws_send (cmd_batch_subscribe channels request_id)"

definition ws_batch_unsubscribe :: "channel_subscription list \<Rightarrow> string option \<Rightarrow> ws_client \<Rightarrow> (client_error + unit) \<times> ws_client" where
  "ws_batch_unsubscribe channels request_id = ws_send (cmd_batch_unsubscribe channels request_id)"

definition ws_list_subscriptions :: "ws_client \<Rightarrow> (client_error + unit) \<times> ws_client" where
  "ws_list_subscriptions = ws_send cmd_list_subscriptions"

section \<open>Reading back\<close>

lemma dec_channel_enc [json_simps]: "dec_channel (enc_channel ch) = Some ch"
  by (cases ch) (simp_all add: dec_channel_def enc_channel_def)

text \<open>The numbers JSON and the client's types can carry.\<close>

fun usize_opt :: "nat option \<Rightarrow> bool" where
  "usize_opt None = True"
| "usize_opt (Some n) = (n < 2 ^ 64)"

definition command_ok :: "client_command \<Rightarrow> bool" where
  "command_ok c \<longleftrightarrow> usize_opt (cc_depth c) \<and> finite_opt (cc_value c)
     \<and> (case cc_channels c of None \<Rightarrow> True | Some subs \<Rightarrow> list_all (\<lambda>s. usize_opt (cs_depth s)) subs)"

fun message_ok :: "ws_message \<Rightarrow> bool" where
  "message_ok (WsFill _ _ _ _ _ _ edge) = in_i64 edge"
| "message_ok (WsConfig _ a b c) = (f_is_finite a \<and> f_is_finite b \<and> f_is_finite c)"
| "message_ok (WsSubscriptionList active) = list_all (\<lambda>a. usize_opt (asb_depth a)) active"
| "message_ok _ = True"

lemma dec_opt_usize [json_simps]: "n < 2 ^ 64 \<Longrightarrow> dec_opt dec_usize (enc_usize n) = Some (Some n)"
  by (simp add: dec_opt_Some json_simps)

lemma channel_subscription_read [json_simps]:
  "usize_opt (cs_depth s) \<Longrightarrow> s_dec_channel_subscription (c_enc_channel_subscription s) = Some s"
  by (cases s) (auto simp: s_dec_channel_subscription_def c_enc_channel_subscription_def field_defs json_simps split: option.splits)

lemma channels_read [json_simps]:
  "list_all (\<lambda>s. usize_opt (cs_depth s)) subs \<Longrightarrow>
   dec_opt (dec_list s_dec_channel_subscription) (enc_list c_enc_channel_subscription subs) = Some (Some subs)"
  by (intro dec_opt_Some) (simp_all add: dec_list_enc list_all_iff json_simps)

lemma command_read: "command_ok c \<Longrightarrow> s_dec_command (c_enc_command c) = Some c"
  by (cases c) (auto simp: command_ok_def s_dec_command_def c_enc_command_def field_defs json_simps split: option.splits)

lemma subscription_result_read [json_simps]: "dec_subscription_result_c (enc_subscription_result_s r) = Some r"
  by (cases r) (auto simp: dec_subscription_result_c_def enc_subscription_result_s_def field_defs json_simps split: option.splits)

lemma active_subscription_read [json_simps]:
  "usize_opt (asb_depth a) \<Longrightarrow> dec_active_subscription_c (enc_active_subscription_s a) = Some a"
  by (cases a) (auto simp: dec_active_subscription_c_def enc_active_subscription_s_def field_defs json_simps split: option.splits)

lemma price_level_data_read [json_simps]: "dec_price_level_data_c (enc_price_level_data_s l) = Some l"
  by (simp add: dec_price_level_data_c_def enc_price_level_data_s_def field_defs json_simps)

lemma price_level_change_read [json_simps]: "dec_price_level_change_c (enc_price_level_change_s l) = Some l"
  by (simp add: dec_price_level_change_c_def enc_price_level_change_s_def field_defs json_simps)

lemma tagged_read:
  "dec_ws_c (tagged tag ms) = Option.bind (map_of ws_readers tag) (\<lambda>reader. reader ms)"
  by (simp add: dec_ws_c_def tagged_def field_defs json_simps split: option.split)

lemmas readers = read_quote_def read_fill_def read_config_def read_price_def read_message_def read_heartbeat_def
  read_orderbook_snapshot_def read_orderbook_delta_def read_subscribed_def read_trade_def read_batch_def read_subscriptions_def

lemma message_read: "message_ok m \<Longrightarrow> dec_ws_c (enc_ws_s m) = Some m"
  by (cases m) (auto simp: tagged_read ws_readers_def readers field_defs json_simps list_all_iff split: option.splits)

text \<open>Text that stands for a JSON value.\<close>

definition json_text :: "(string \<Rightarrow> json option) \<Rightarrow> (json \<Rightarrow> string) \<Rightarrow> bool" where
  "json_text parse print \<longleftrightarrow> (\<forall>j. parse (print j) = Some j)"

definition s_parse_command :: "(string \<Rightarrow> json option) \<Rightarrow> string \<Rightarrow> client_command option" where
  "s_parse_command parse t = Option.bind (parse t) s_dec_command"

definition c_parse_message :: "(string \<Rightarrow> json option) \<Rightarrow> string \<Rightarrow> ws_message option" where
  "c_parse_message parse t = Option.bind (parse t) dec_ws_c"

definition ws_frames :: "(json \<Rightarrow> string) \<Rightarrow> ws_message list \<Rightarrow> ws_frame list" where
  "ws_frames print ms = map (\<lambda>m. FrText (print (enc_ws_s m))) ms"

lemma read_task_all:
  "json_text parse print \<Longrightarrow> list_all message_ok ms \<Longrightarrow>
   read_task (\<lambda>_. True) (c_parse_message parse) n (ws_frames print ms) = ms"
  by (induction ms arbitrary: n) (simp_all add: ws_frames_def c_parse_message_def json_text_def message_read)

text \<open>A receiver that goes away misses a suffix, never a message in between.\<close>

lemma read_task_prefix:
  "json_text parse print \<Longrightarrow> list_all message_ok ms \<Longrightarrow>
   \<exists>rest. ms = read_task accepts (c_parse_message parse) n (ws_frames print ms) @ rest"
  by (induction ms arbitrary: n) (auto simp: ws_frames_def c_parse_message_def json_text_def message_read)

lemma write_task_all:
  "write_task (\<lambda>_. True) (\<lambda>c. Some (text c)) n cmds = map text cmds"
  by (induction cmds arbitrary: n) simp_all

text \<open>What was queued through an open client is written in this order and nothing else.\<close>

lemma ws_send_queue:
  "wc_open c \<Longrightarrow> fold (\<lambda>cmd c. snd (ws_send cmd c)) cmds c = c\<lparr>wc_commands := wc_commands c @ cmds\<rparr>"
  by (induction cmds arbitrary: c) (simp_all add: ws_send_def)

lemma ws_closed_refuses: "\<not> wc_open c \<Longrightarrow> ws_send cmd c = (Inl CeConnectionClosed, c)"
  by (simp add: ws_send_def)

text \<open>
  The plain subscription of the client names no channel, and the server ignores it: no
  subscription, no answer, not even an error.
\<close>

lemma plain_subscribe_ignored:
  assumes "json_text parse print"
  shows "handle_client_message X D qt gen msg (s_parse_command parse) perms (print (c_enc_command (cmd_subscribe symbol))) cn st
      = (st, cn, [])"
    and "handle_client_message X D qt gen msg (s_parse_command parse) perms (print (c_enc_command (cmd_unsubscribe symbol))) cn st
      = (st, cn, [])"
  using assms command_read [of "cmd_subscribe symbol"] command_read [of "cmd_unsubscribe symbol"]
  by (simp_all add: json_text_def s_parse_command_def handle_client_message_def cmd_subscribe_def cmd_unsubscribe_def
      command_def command_ok_def)

section \<open>Properties\<close>

text \<open>
  The conversation survives the wire. Every command the client builds is read by the server as
  that command, every message the server sends is read by the client as that message, in the
  order they were sent; a receiver that goes away loses a suffix of them only.
\<close>

theorem ws_conversation_understood:
  assumes "json_text parse print" and "list_all message_ok ms" and "list_all command_ok cmds"
  shows "read_task (\<lambda>_. True) (c_parse_message parse) 0 (ws_frames print ms) = ms
    \<and> (\<exists>rest. ms = read_task accepts (c_parse_message parse) 0 (ws_frames print ms) @ rest)
    \<and> map (s_parse_command parse) (write_task (\<lambda>_. True) (\<lambda>c. Some (print (c_enc_command c))) 0 cmds) = map Some cmds"
  using read_task_all [OF assms(1,2)] read_task_prefix [OF assms(1,2)] assms(1,3)
  by (simp add: write_task_all json_text_def s_parse_command_def command_read list_all_iff)

text \<open>
  An order-book subscription through the client works end to end. The command it sends for a
  well-formed symbol, within the limit, is answered by the confirmation and at most a snapshot of
  that symbol, and the next change of the book is read by the client as the delta it is; once it
  has unsubscribed, the change is no longer sent unless the whole underlying is subscribed.
\<close>

theorem client_subscription_delivers:
  assumes "json_text parse print" and "usize_opt depth"
    and "well_formed_symbol (de_symbol d)" and "can_add_subscription (cn_symbols cn) (de_symbol d)"
    and "handle_client_message X D qt gen msg (s_parse_command parse) perms
           (print (c_enc_command (cmd_subscribe_orderbook (de_symbol d) depth))) cn st = (st1, cn1, msgs)"
    and "handle_client_message X D qt gen msg (s_parse_command parse) perms
           (print (c_enc_command (cmd_unsubscribe_orderbook (de_symbol d)))) cn1 st1 = (st2, cn2, msgs2)"
  shows "(\<exists>snapshot. read_task (\<lambda>_. True) (c_parse_message parse) 0 (ws_frames print (msgs @ forward_delta cn1 d))
        = WsSubscribed ''orderbook'' (de_symbol d) # snapshot
          @ [WsOrderbookDelta (de_symbol d) (de_sequence d)
               [\<lparr>pc_side = de_side d, pc_price = de_price d, pc_quantity = de_quantity d\<rparr>]]
        \<and> (snapshot = [] \<or> (\<exists>n bids asks. snapshot = [WsOrderbookSnapshot ''orderbook'' (de_symbol d) n bids asks])))
    \<and> (forward_delta cn2 d \<noteq> [] \<longleftrightarrow>
         (\<exists>u r. split_once (CHR ''-'') (de_symbol d) = Some (u, r) \<and> wildcard u \<in> set (cn_symbols cn) \<and> wildcard u \<noteq> de_symbol d))"
proof -
  have parsed: "s_parse_command parse (print (c_enc_command c)) = Some c" if "command_ok c" for c
    using assms(1) command_read [OF that] by (simp add: s_parse_command_def json_text_def)
  have "command_ok (cmd_subscribe_orderbook (de_symbol d) depth)" "command_ok (cmd_unsubscribe_orderbook (de_symbol d))"
    using assms(2) by (simp_all add: command_ok_def cmd_subscribe_orderbook_def cmd_unsubscribe_orderbook_def command_def)
  note parsed = this [THEN parsed]
  have sub: "handle_orderbook_subscribe X D (cmd_subscribe_orderbook (de_symbol d) depth) cn st = (st1, cn1, msgs)"
    using assms(5) unfolding handle_client_message_def parsed option.case
    by (simp add: cmd_subscribe_orderbook_def command_def)
  have unsub: "cn2 = cn1\<lparr>cn_symbols := removeAll (de_symbol d) (cn_symbols cn1)\<rparr>"
    using assms(6) unfolding handle_client_message_def parsed option.case
    by (simp add: cmd_unsubscribe_orderbook_def command_def handle_orderbook_unsubscribe_def)
  have cn1: "cn_symbols cn1 = List.insert (de_symbol d) (cn_symbols cn)"
    and msgs: "\<exists>snapshot. msgs = WsSubscribed ''orderbook'' (de_symbol d) # snapshot
        \<and> (snapshot = [] \<or> (\<exists>n bids asks. snapshot = [WsOrderbookSnapshot ''orderbook'' (de_symbol d) n bids asks]))"
    using sub assms(3,4)
    by (auto simp: handle_orderbook_subscribe_def cmd_subscribe_orderbook_def command_def Let_def
        split: option.splits prod.splits)
  have delta: "forward_delta cn1 d = [WsOrderbookDelta (de_symbol d) (de_sequence d)
      [\<lparr>pc_side = de_side d, pc_price = de_price d, pc_quantity = de_quantity d\<rparr>]]"
    by (simp add: forward_delta_def subscription_matches_def cn1)
  have "list_all message_ok (msgs @ forward_delta cn1 d)" using msgs by (auto simp: delta)
  note read = read_task_all [OF assms(1) this, of 0]
  have after: "forward_delta cn2 d \<noteq> [] \<longleftrightarrow>
      (\<exists>u r. split_once (CHR ''-'') (de_symbol d) = Some (u, r) \<and> wildcard u \<in> set (cn_symbols cn) \<and> wildcard u \<noteq> de_symbol d)"
    using matches_wildcard [OF assms(3)] by (auto simp: forward_delta_def unsub cn1)
  from msgs obtain snapshot where snapshot: "msgs = WsSubscribed ''orderbook'' (de_symbol d) # snapshot"
    "snapshot = [] \<or> (\<exists>n bids asks. snapshot = [WsOrderbookSnapshot ''orderbook'' (de_symbol d) n bids asks])" by blast
  show ?thesis
    unfolding read by (intro conjI exI [of _ snapshot]) (simp add: delta snapshot(1), rule snapshot(2), rule after)
qed

text \<open>JSON values are countable, so there is a text for each.\<close>

instance f64 :: countable
  by countable_datatype

instance json :: countable
  by countable_datatype

definition demo_print :: "json \<Rightarrow> string" where
  "demo_print j = replicate (to_nat j) (CHR ''x'')"

definition demo_parse :: "string \<Rightarrow> json option" where
  "demo_parse t = Some (from_nat (length t))"

lemma demo_json_text: "json_text demo_parse demo_print"
  by (simp add: json_text_def demo_parse_def demo_print_def)

lemma ws_conversation_understood_witness:
  "read_task (\<lambda>_. True) (c_parse_message demo_parse) 0 (ws_frames demo_print [WsHeartbeat 5, WsError ''no'']) = [WsHeartbeat 5, WsError ''no'']
   \<and> map (s_parse_command demo_parse) (write_task (\<lambda>_. True) (\<lambda>c. Some (demo_print (c_enc_command c))) 0 [cmd_kill]) = [Some cmd_kill]"
proof -
  have "command_ok cmd_kill" by (simp add: command_ok_def cmd_kill_def command_def)
  then show ?thesis
    using ws_conversation_understood [OF demo_json_text, of "[WsHeartbeat 5, WsError ''no'']" "[cmd_kill]"] by simp
qed

lemma client_subscription_delivers_witness:
  "\<exists>cn st msgs. handle_client_message demo_exchange (\<lambda>_ _ _. ([], [])) (demo_quoter f_zero) (\<lambda>n. n) (\<lambda>f _. f)
       (s_parse_command demo_parse) [PermRead]
       (demo_print (c_enc_command (cmd_subscribe_orderbook (de_symbol demo_delta) (Some 5)))) (fst connection_new) demo_resting
     = (st, cn, msgs)
   \<and> (\<exists>m ms. read_task (\<lambda>_. True) (c_parse_message demo_parse) 0 (ws_frames demo_print (msgs @ forward_delta cn demo_delta)) = m # ms)"
proof -
  let ?handle = "handle_client_message demo_exchange (\<lambda>_ _ _. ([], [])) (demo_quoter f_zero) (\<lambda>n. n) (\<lambda>f _. f)
       (s_parse_command demo_parse) [PermRead]"
  obtain st1 cn1 msgs where run: "?handle (demo_print (c_enc_command (cmd_subscribe_orderbook (de_symbol demo_delta) (Some 5))))
      (fst connection_new) demo_resting = (st1, cn1, msgs)" by (metis prod.collapse)
  obtain st2 cn2 msgs2 where run2: "?handle (demo_print (c_enc_command (cmd_unsubscribe_orderbook (de_symbol demo_delta)))) cn1 st1
      = (st2, cn2, msgs2)" by (metis prod.collapse)
  have "well_formed_symbol (de_symbol demo_delta)" by code_simp
  moreover have "can_add_subscription (cn_symbols (fst connection_new)) (de_symbol demo_delta)"
    by (simp add: can_add_subscription_def connection_new_def max_subscriptions_per_connection_def)
  ultimately show ?thesis
    using client_subscription_delivers [OF demo_json_text _ _ _ run run2] run by auto
qed

end
