(* ===== verification/Socket.thy ===== *)
theory Socket
  imports Subscriptions "HOL-Library.Sublist"
begin

text \<open>
  The life of one WebSocket connection (\<open>handle_socket\<close> of \<open>src/src/api/websocket.rs\<close>): a task that
  reads the client's frames, a task that waits for the events of the server, the heartbeat and the
  shutdown signal, and the end of both. What happens is a sequence of inputs, in any order the
  two tasks and the rest of the server may produce; each iteration of a task is one step. The
  frames are those handed to the socket; whether a send succeeds is part of the input.
\<close>

section \<open>The tasks\<close>

datatype out_frame = OutMsg ws_message | OutClose

datatype socket_input =
    InText string
  | InPing
  | InOther
  | InClose
  | InError
  | EvEngine mm_event
  | EvDelta delta_event
  | EvTrade trade_event
  | EvLagged u64
  | EvClosed
  | EvHeartbeat u64
  | EvShutdown
  | AbortSibling

text \<open>The connection, the frames so far, and which of the two tasks still runs.\<close>

record socket =
  so_conn :: connection
  so_sent :: "out_frame list"
  so_reader :: bool
  so_writer :: bool

definition socket_new :: socket where
  "socket_new = (let (cn, msgs) = connection_new
     in \<lparr>so_conn = cn, so_sent = map OutMsg msgs, so_reader = True, so_writer = True\<rparr>)"

text \<open>
  One iteration of the sending task on an input meant for it: the frames and whether it goes on.
  A lagged receiver has lost events and goes on, a closed one ends the task, and so does a send
  that fails.
\<close>

fun writer_step :: "bool \<Rightarrow> socket_input \<Rightarrow> connection \<Rightarrow> (out_frame list \<times> bool) option" where
  "writer_step ok (EvEngine event) cn =
     (case event_to_ws_message event of Some m \<Rightarrow> Some ([OutMsg m], ok) | None \<Rightarrow> Some ([], True))"
| "writer_step ok (EvDelta d) cn =
     (let msgs = forward_delta cn d in Some (map OutMsg msgs, msgs = [] \<or> ok))"
| "writer_step ok (EvTrade t) cn =
     (let msgs = forward_trade cn t in Some (map OutMsg msgs, msgs = [] \<or> ok))"
| "writer_step ok (EvLagged n) cn = Some ([], True)"
| "writer_step ok EvClosed cn = Some ([], False)"
| "writer_step ok (EvHeartbeat timestamp) cn = Some ([OutMsg (WsHeartbeat timestamp)], ok)"
| "writer_step ok EvShutdown cn = Some ([OutClose], False)"
| "writer_step ok _ cn = None"

text \<open>One iteration of the reading task on a frame of the client.\<close>

type_synonym ('m, 'o) message_handler =
  "string \<Rightarrow> connection \<Rightarrow> ('m, 'o) app_state \<Rightarrow> ('m, 'o) app_state \<times> connection \<times> ws_message list"

fun reader_step ::
  "('m, 'o) message_handler \<Rightarrow> socket_input \<Rightarrow> connection \<Rightarrow> ('m, 'o) app_state
   \<Rightarrow> (('m, 'o) app_state \<times> connection \<times> out_frame list \<times> bool) option" where
  "reader_step h (InText raw) cn st = (let (st, cn, msgs) = h raw cn st in Some (st, cn, map OutMsg msgs, True))"
| "reader_step h InPing cn st = Some (st, cn, [], True)"
| "reader_step h InOther cn st = Some (st, cn, [], True)"
| "reader_step h InClose cn st = Some (st, cn, [], False)"
| "reader_step h InError cn st = Some (st, cn, [], False)"
| "reader_step h _ cn st = None"

text \<open>
  The steps of a connection, with the state of the server: an iteration of one of the tasks, and,
  when exactly one of them has ended, the abort of the other.
\<close>

inductive socket_step ::
  "('m, 'o) message_handler \<Rightarrow> socket \<times> ('m, 'o) app_state \<Rightarrow> socket_input \<Rightarrow> socket \<times> ('m, 'o) app_state \<Rightarrow> bool"
  for h where
  on_read: "so_reader s \<Longrightarrow> reader_step h i (so_conn s) st = Some (st', cn, frames, go) \<Longrightarrow>
     socket_step h (s, st) i (s\<lparr>so_conn := cn, so_sent := so_sent s @ frames, so_reader := go\<rparr>, st')"
| on_event: "so_writer s \<Longrightarrow> writer_step ok i (so_conn s) = Some (frames, go) \<Longrightarrow>
     socket_step h (s, st) i (s\<lparr>so_sent := so_sent s @ frames, so_writer := go\<rparr>, st)"
| on_abort: "so_reader s \<noteq> so_writer s \<Longrightarrow>
     socket_step h (s, st) AbortSibling (s\<lparr>so_reader := False, so_writer := False\<rparr>, st)"

text \<open>
  A run of a connection with the inputs so far. Between two of its steps the rest of the server
  may change the state in any way.
\<close>

inductive socket_run ::
  "('m, 'o) message_handler \<Rightarrow> socket_input list \<Rightarrow> socket \<times> ('m, 'o) app_state \<Rightarrow> bool" for h where
  run_start: "socket_run h [] (socket_new, st)"
| run_elsewhere: "socket_run h ins (s, st) \<Longrightarrow> socket_run h ins (s, st')"
| run_step: "socket_run h ins p \<Longrightarrow> socket_step h p i p' \<Longrightarrow> socket_run h (ins @ [i]) p'"

inductive_cases socket_stepE: "socket_step h (s, st) i (s', st')"

section \<open>What a connection is sent\<close>

text \<open>The broadcast events a message stands for, and those among the inputs.\<close>

fun frame_deltas :: "out_frame \<Rightarrow> (string \<times> u64) list" where
  "frame_deltas (OutMsg (WsOrderbookDelta symbol n changes)) = [(symbol, n)]"
| "frame_deltas _ = []"

fun frame_trades :: "out_frame \<Rightarrow> string list" where
  "frame_trades (OutMsg (WsTrade trade_id symbol price quantity t maker taker)) = [trade_id]"
| "frame_trades _ = []"

fun input_deltas :: "socket_input \<Rightarrow> (string \<times> u64) list" where
  "input_deltas (EvDelta d) = [(de_symbol d, de_sequence d)]"
| "input_deltas _ = []"

fun input_trades :: "socket_input \<Rightarrow> string list" where
  "input_trades (EvTrade t) = [te_trade_id t]"
| "input_trades _ = []"

text \<open>An answer to a command is never a delta or a trade.\<close>

fun is_answer :: "ws_message \<Rightarrow> bool" where
  "is_answer (WsOrderbookDelta _ _ _) = False"
| "is_answer (WsTrade _ _ _ _ _ _ _) = False"
| "is_answer _ = True"

lemma control_command_answers: "list_all is_answer (snd (control_command X qt gen msg cmd v))"
  by (simp add: control_command_def control_value_def Let_def split: option.split)

lemma single_answers:
  "list_all is_answer (snd (snd (handle_orderbook_subscribe X D cmd cn st)))"
  "list_all is_answer (snd (handle_trades_subscribe cmd cn))"
  "list_all is_answer (snd (handle_orderbook_unsubscribe cmd cn))"
  "list_all is_answer (snd (handle_trades_unsubscribe cmd cn))"
  "list_all is_answer (snd (handle_batch_subscribe cmd cn))"
  "list_all is_answer (snd (handle_batch_unsubscribe cmd cn))"
  by (auto simp: handle_orderbook_subscribe_def handle_trades_subscribe_def handle_orderbook_unsubscribe_def
      handle_trades_unsubscribe_def handle_batch_subscribe_def handle_batch_unsubscribe_def Let_def case_prod_beta
      split: option.split)

lemma client_message_answers:
  "list_all is_answer (snd (snd (handle_client_message X D qt gen msg parse perms raw cn st)))"
  by (simp add: handle_client_message_def Let_def single_answers control_command_answers handle_list_subscriptions_def
      case_prod_beta split: option.split)

lemma answers_carry_no_event:
  "list_all is_answer msgs \<Longrightarrow> concat (map frame_deltas (map OutMsg msgs)) = [] \<and> concat (map frame_trades (map OutMsg msgs)) = []"
proof (induction msgs)
  case (Cons m msgs)
  then show ?case by (cases m) simp_all
qed simp

lemma writer_events:
  assumes "writer_step ok i cn = Some (frames, go)"
  shows "subseq (concat (map frame_deltas frames)) (input_deltas i)" and "subseq (concat (map frame_trades frames)) (input_trades i)"
  using assms
  by (cases i; auto simp: forward_delta_def forward_trade_def Let_def event_to_ws_message.simps
      elim!: event_to_ws_message.elims split: option.splits if_splits)+

lemma writer_close: "writer_step ok i cn = Some (frames, go) \<Longrightarrow> OutClose \<in> set frames \<Longrightarrow> frames = [OutClose] \<and> \<not> go"
  by (cases i) (auto simp: Let_def split: option.splits)

section \<open>The invariant of a connection\<close>

definition socket_ok :: "socket_input list \<Rightarrow> socket \<Rightarrow> bool" where
  "socket_ok ins s \<longleftrightarrow>
     connection_ok (so_conn s)
   \<and> (\<exists>rest. so_sent s = OutMsg (WsConnected ''Connected to Option Chain OrderBook'') # rest)
   \<and> subseq (concat (map frame_deltas (so_sent s))) (concat (map input_deltas ins))
   \<and> subseq (concat (map frame_trades (so_sent s))) (concat (map input_trades ins))
   \<and> (OutClose \<in> set (so_sent s) \<longrightarrow> \<not> so_writer s)"

text \<open>The handler of the server: it keeps the subscription sets bounded and answers with no event.\<close>

definition client_handler :: "('m, 'o) message_handler \<Rightarrow> bool" where
  "client_handler h \<longleftrightarrow> (\<forall>raw cn st. connection_ok cn \<longrightarrow>
     connection_ok (fst (snd (h raw cn st))) \<and> list_all is_answer (snd (snd (h raw cn st))))"

lemma client_handler_server: "client_handler (handle_client_message X D qt gen msg parse perms)"
  by (simp add: client_handler_def handle_client_message_ok client_message_answers)

lemma reader_frames:
  assumes "client_handler h" and "connection_ok cn" and "reader_step h i cn st = Some (st', cn', frames, go)"
  shows "connection_ok cn'" and "concat (map frame_deltas frames) = []" and "concat (map frame_trades frames) = []"
    and "OutClose \<notin> set frames"
proof -
  have "connection_ok cn' \<and> (\<exists>msgs. list_all is_answer msgs \<and> frames = map OutMsg msgs)"
    using assms
  proof (cases i)
    case (InText raw)
    with assms show ?thesis
      by (auto simp: client_handler_def dest!: spec [of _ raw] spec [of _ cn] spec [of _ st] split: prod.splits)
  qed (use assms in \<open>auto intro: exI [of _ "[]"]\<close>)
  then show "connection_ok cn'" "concat (map frame_deltas frames) = []" "concat (map frame_trades frames) = []"
    "OutClose \<notin> set frames"
    using answers_carry_no_event by auto
qed

lemma socket_new_ok: "socket_ok [] socket_new"
  by (simp add: socket_ok_def socket_new_def connection_new_def connection_ok_def sub_set_ok_def)

lemma socket_step_ok:
  assumes "client_handler h" and "socket_ok ins s" and "socket_step h (s, st) i (s', st')"
  shows "socket_ok (ins @ [i]) s'"
  using assms(3)
proof cases
  case (on_read cn frames go)
  note h = reader_frames [OF assms(1) _ on_read(3)]
  have ok: "connection_ok (so_conn s)" using assms(2) by (simp add: socket_ok_def)
  have same: "concat (map frame_deltas (so_sent s')) = concat (map frame_deltas (so_sent s))"
    "concat (map frame_trades (so_sent s')) = concat (map frame_trades (so_sent s))"
    using h(2,3) [OF ok] on_read by simp_all
  have "OutClose \<in> set (so_sent s') \<longleftrightarrow> OutClose \<in> set (so_sent s)" "so_writer s' = so_writer s" "so_conn s' = cn"
    "\<exists>rest. so_sent s' = so_sent s @ rest"
    using on_read h(4) [OF ok] by auto
  with assms(2) h(1) [OF ok] show ?thesis unfolding socket_ok_def same by fastforce
next
  case (on_event ok frames go)
  have "subseq (concat (map frame_deltas (so_sent s)) @ concat (map frame_deltas frames)) (concat (map input_deltas ins) @ input_deltas i)"
    "subseq (concat (map frame_trades (so_sent s)) @ concat (map frame_trades frames)) (concat (map input_trades ins) @ input_trades i)"
    using assms(2) writer_events [OF on_event(4)] by (auto simp: socket_ok_def intro: list_emb_append_mono)
  moreover have "OutClose \<in> set frames \<longrightarrow> \<not> go" using writer_close [OF on_event(4)] by blast
  ultimately show ?thesis using assms(2) on_event by (auto simp: socket_ok_def)
qed (use assms(2) in \<open>auto simp: socket_ok_def\<close>)

lemma socket_run_ok: "socket_run h ins p \<Longrightarrow> client_handler h \<Longrightarrow> socket_ok ins (fst p)"
proof (induction rule: socket_run.induct)
  case (run_step ins p i p')
  then show ?case using socket_step_ok [of h ins "fst p" "snd p" i "fst p'" "snd p'"] by simp
qed (simp_all add: socket_new_ok)

text \<open>A connection whose two tasks have ended takes no step.\<close>

lemma ended_is_final: "\<not> so_reader s \<Longrightarrow> \<not> so_writer s \<Longrightarrow> \<not> socket_step h (s, st) i p"
  by (auto elim: socket_step.cases)

lemma socket_step_exI:
  "so_writer s \<Longrightarrow> socket_step h (s, st) EvShutdown (s\<lparr>so_sent := so_sent s @ [OutClose], so_writer := False\<rparr>, st)"
  by (rule on_event) simp_all

text \<open>The heartbeat does not depend on the traffic: it is sent whenever it is due.\<close>

lemma heartbeat_is_sent:
  assumes "socket_step h (s, st) (EvHeartbeat t) (s', st')"
  shows "so_sent s' = so_sent s @ [OutMsg (WsHeartbeat t)] \<and> st' = st"
  using assms by (cases rule: socket_stepE) auto

section \<open>Properties\<close>



end
