(* ===== verification/Startup.thy ===== *)
theory Startup
  imports Server Gateway
begin

text \<open>
  The start of the process (\<open>src/src/main.rs\<close>): the configuration file, the guard on the built-in
  development key, the keys of \<open>auth.rs\<close>, the allowlist of origins (\<open>api/mod.rs\<close>), the command that
  mints a token, the state the server is started with and its background tasks. The environment,
  the file system, TOML, PEM, the database connection and the listener are parameters; logging is
  left out.
\<close>

section \<open>The configuration file\<close>

datatype config_error = ReadError | ParseError | InvalidValue string

text \<open>\<open>read_text\<close> is the content of a file, \<open>toml\<close> the configuration a text stands for.\<close>

record config_env =
  ce_read_text :: "string \<Rightarrow> string option"
  ce_toml :: "string \<Rightarrow> config option"
  ce_show_f64 :: "f64 \<Rightarrow> string"

definition config_parse :: "config_env \<Rightarrow> string \<Rightarrow> config_error + config" where
  "config_parse E content =
     (case ce_toml E content of
        None \<Rightarrow> Inl ParseError
      | Some c \<Rightarrow> (case validate (ce_show_f64 E) c of Inl e \<Rightarrow> Inl (InvalidValue e) | Inr _ \<Rightarrow> Inr c))"

definition config_load :: "config_env \<Rightarrow> string \<Rightarrow> config_error + config" where
  "config_load E path =
     (case ce_read_text E path of
        None \<Rightarrow> Inl ReadError
      | Some content \<Rightarrow>
          (case ce_toml E content of
             None \<Rightarrow> Inl ParseError
           | Some c \<Rightarrow> (case validate (ce_show_f64 E) c of Inl e \<Rightarrow> Inl (InvalidValue e) | Inr _ \<Rightarrow> Inr c)))"

section \<open>The keys\<close>

text \<open>
  \<open>pl_private\<close> and \<open>pl_public\<close> are the reading of PEM material, \<open>pl_jwt\<close> signing with a private key
  and verifying with a public key under an issuer.
\<close>

record ('b, 'sk, 'pk) pem_lib =
  pl_private :: "'b \<Rightarrow> 'sk option"
  pl_public :: "'b \<Rightarrow> 'pk option"
  pl_jwt :: "'sk \<Rightarrow> 'pk \<Rightarrow> string \<Rightarrow> jwt_lib"

definition assemble :: "('b, 'sk, 'pk) pem_lib \<Rightarrow> 'sk \<Rightarrow> 'pk \<Rightarrow> string \<Rightarrow> u64 \<Rightarrow> jwt_auth" where
  "assemble P sk pk issuer ttl = \<lparr>ja_lib = pl_jwt P sk pk issuer, ja_issuer = issuer, ja_default_ttl_secs = ttl\<rparr>"

definition from_rsa_pem :: "('b, 'sk, 'pk) pem_lib \<Rightarrow> 'b \<Rightarrow> 'b \<Rightarrow> string \<Rightarrow> u64 \<Rightarrow> api_error + jwt_auth" where
  "from_rsa_pem P private_key_pem cert_pem issuer ttl =
     (case pl_private P private_key_pem of
        None \<Rightarrow> Inl (Internal ''failed to load auth private key'')
      | Some sk \<Rightarrow>
          (case pl_public P cert_pem of
             None \<Rightarrow> Inl (Internal ''failed to load auth certificate'')
           | Some pk \<Rightarrow> Inr (assemble P sk pk issuer ttl)))"

definition from_paths ::
  "('b, 'sk, 'pk) pem_lib \<Rightarrow> (string \<Rightarrow> 'b option) \<Rightarrow> string \<Rightarrow> string \<Rightarrow> string \<Rightarrow> u64 \<Rightarrow> api_error + jwt_auth" where
  "from_paths P read private_key_path cert_path issuer ttl =
     (case read private_key_path of
        None \<Rightarrow> Inl (Internal ''failed to read auth private key file'')
      | Some private_key_pem \<Rightarrow>
          (case read cert_path of
             None \<Rightarrow> Inl (Internal ''failed to read auth certificate file'')
           | Some cert_pem \<Rightarrow> from_rsa_pem P private_key_pem cert_pem issuer ttl))"

definition load_jwt_auth ::
  "('b, 'sk, 'pk) pem_lib \<Rightarrow> (string \<Rightarrow> 'b option) \<Rightarrow> (string \<Rightarrow> string option) \<Rightarrow> config option \<Rightarrow> string + jwt_auth" where
  "load_jwt_auth P read env cfg =
     (let auth_cfg = auth_config_resolved env (Option.bind cfg cf_auth) in
      if is_dev auth_cfg \<and> env ''ALLOW_DEV_KEY'' \<noteq> Some ''1''
      then Inl ''dev signing key not permitted without ALLOW_DEV_KEY=1''
      else
        (case from_paths P read (ac_private_key_path auth_cfg) (ac_cert_path auth_cfg) (ac_issuer auth_cfg)
                (ac_default_ttl_secs auth_cfg) of
           Inl e \<Rightarrow> Inl (''failed to load auth keys: '' @ api_error_display e)
         | Inr auth \<Rightarrow> Inr auth))"

section \<open>Origins\<close>

definition parse_origin_header_values :: "(string \<Rightarrow> bool) \<Rightarrow> string list \<Rightarrow> string list" where
  "parse_origin_header_values header_ok origins = filter (\<lambda>origin. origin \<noteq> ''*'' \<and> header_ok origin) origins"

record cors_layer =
  cl_origins :: "string list"
  cl_methods :: "string list"
  cl_headers :: "string list"

definition build_cors_layer :: "(string \<Rightarrow> bool) \<Rightarrow> string list \<Rightarrow> cors_layer" where
  "build_cors_layer header_ok origins =
     \<lparr>cl_origins = parse_origin_header_values header_ok origins,
      cl_methods = [''GET'', ''POST'', ''PATCH'', ''DELETE'', ''OPTIONS''],
      cl_headers = [''authorization'', ''content-type'']\<rparr>"

section \<open>Minting a token offline\<close>

definition permission_from_word :: "string \<Rightarrow> string + permission" where
  "permission_from_word p =
     (let w = ascii_lower (trim p)
      in if w = ''read'' then Inr PermRead
         else if w = ''trade'' then Inr PermTrade
         else if w = ''admin'' then Inr PermAdmin
         else Inl (''unknown permission: '' @ w))"

fun collect :: "('e + 'a) list \<Rightarrow> 'e + 'a list" where
  "collect [] = Inr []"
| "collect (Inl e # rs) = Inl e"
| "collect (Inr x # rs) = (case collect rs of Inl e \<Rightarrow> Inl e | Inr xs \<Rightarrow> Inr (x # xs))"

definition parse_permissions :: "string \<Rightarrow> string + permission list" where
  "parse_permissions spec = collect (map permission_from_word (split_on (CHR '','') spec))"

text \<open>The arguments after the subcommand, with the values found so far.\<close>

fun mint_args :: "string list \<Rightarrow> string option \<Rightarrow> u64 option \<Rightarrow> string + (string option \<times> u64 option)" where
  "mint_args [] perms ttl = Inr (perms, ttl)"
| "mint_args (a # rest) perms ttl =
     (if a = ''--permissions'' \<or> a = ''-p''
      then (case rest of
              [] \<Rightarrow> Inr (None, ttl)
            | v # rest' \<Rightarrow> mint_args rest' (Some v) ttl)
      else if a = ''--ttl'' \<or> a = ''-t''
      then (case rest of
              [] \<Rightarrow> Inl ''--ttl requires a value''
            | v # rest' \<Rightarrow>
                (case parse_u64 v of
                   None \<Rightarrow> Inl (''invalid --ttl value: '' @ v)
                 | Some n \<Rightarrow> mint_args rest' perms (Some n)))
      else Inl (''unknown argument: '' @ a))"

record ('b, 'sk, 'pk) process_env =
  pe_config :: config_env
  pe_env :: "string \<Rightarrow> string option"
  pe_read :: "string \<Rightarrow> 'b option"
  pe_pem :: "('b, 'sk, 'pk) pem_lib"

definition config_path :: "(string \<Rightarrow> string option) \<Rightarrow> string" where
  "config_path env = unwrap_or (env ''CONFIG_PATH'') ''config.toml''"

definition loaded_config :: "('b, 'sk, 'pk) process_env \<Rightarrow> config option" where
  "loaded_config E =
     (case config_load (pe_config E) (config_path (pe_env E)) of Inl _ \<Rightarrow> None | Inr c \<Rightarrow> Some c)"

text \<open>\<open>now\<close> and \<open>uuid\<close> are what signing takes from the clock and the random generator; the token is
  what is written to the standard output.\<close>

definition run_mint_token :: "('b, 'sk, 'pk) process_env \<Rightarrow> u64 \<Rightarrow> string \<Rightarrow> string list \<Rightarrow> string + string" where
  "run_mint_token E now uuid args =
     (case mint_args (drop 2 args) None None of
        Inl e \<Rightarrow> Inl e
      | Inr (permissions_arg, ttl_arg) \<Rightarrow>
     (case parse_permissions (unwrap_or permissions_arg ''read'') of
        Inl e \<Rightarrow> Inl e
      | Inr permissions \<Rightarrow>
     (case load_jwt_auth (pe_pem E) (pe_read E) (pe_env E) (loaded_config E) of
        Inl e \<Rightarrow> Inl e
      | Inr auth \<Rightarrow>
     (case mint_token auth now uuid permissions (unwrap_or ttl_arg (ja_default_ttl_secs auth)) of
        Inl e \<Rightarrow> Inl (''failed to mint token: '' @ api_error_display e)
      | Inr (token, _) \<Rightarrow> Inr token))))"

section \<open>Starting the server\<close>

datatype background_task =
    SimulationTask
  | CleanupTask u64 u64
  | SweepTask u64

definition rate_limit_sweep_interval_secs :: u64 where
  "rate_limit_sweep_interval_secs = 120"

definition background_tasks :: "('m, 'o) server \<Rightarrow> config option \<Rightarrow> background_task list" where
  "background_tasks sv cfg =
     (case sv_simulator sv of Some _ \<Rightarrow> [SimulationTask] | None \<Rightarrow> [])
   @ (case cfg of
        Some c \<Rightarrow> if 0 < cc_interval_seconds (cf_cleanup c)
                  then [CleanupTask (cc_interval_seconds (cf_cleanup c)) (cc_retention_seconds (cf_cleanup c))] else []
      | None \<Rightarrow> [])
   @ [SweepTask rate_limit_sweep_interval_secs]"

text \<open>A state without a configuration: no assets and no simulator.\<close>

definition state_new :: "'m \<Rightarrow> ('m, 'o) server" where
  "state_new m0 = \<lparr>sv_app = app_new m0, sv_snapshots = \<lparr>sn_snapshots = [], sn_seq = 0\<rparr>, sv_simulator = None\<rparr>"

definition bind_address :: "(string \<Rightarrow> string option) \<Rightarrow> config option \<Rightarrow> string + (string \<times> nat)" where
  "bind_address env cfg =
     (case cfg of
        Some c \<Rightarrow> Inr (sc_host (cf_server c), sc_port (cf_server c))
      | None \<Rightarrow>
          (case parse_unsigned 16 (unwrap_or (env ''PORT'') ''8080'') of
             None \<Rightarrow> Inl ''PORT must be a valid u16 (1-65535)''
           | Some port \<Rightarrow> Inr (unwrap_or (env ''HOST'') ''0.0.0.0'', port)))"

record ('m, 'o) launched =
  la_server :: "('m, 'o) server"
  la_config :: "config option"
  la_database :: bool
  la_auth :: jwt_auth
  la_bootstrap_secret :: "string option"
  la_trust_proxy :: bool
  la_tasks :: "background_task list"
  la_address :: "string \<times> nat"
  la_cors :: cors_layer

datatype ('m, 'o) process_outcome = Minted string | Failed string | Serving "('m, 'o) launched"

text \<open>
  \<open>connects\<close> is whether the database of a URL can be reached, \<open>binds\<close> the failure of the listener,
  \<open>start\<close> the state built from a configuration.
\<close>

record net_env =
  ne_connects :: "string \<Rightarrow> bool"
  ne_binds :: "string \<times> nat \<Rightarrow> string option"
  ne_header_ok :: "string \<Rightarrow> bool"

definition start_server ::
  "('b, 'sk, 'pk) process_env \<Rightarrow> net_env \<Rightarrow> (config \<Rightarrow> ('m, 'o) server) \<Rightarrow> 'm \<Rightarrow> string + ('m, 'o) launched" where
  "start_server E N start m0 =
     (let env = pe_env E; cfg = loaded_config E;
          db = (case env ''DATABASE_URL'' of Some url \<Rightarrow> ne_connects N url | None \<Rightarrow> False)
      in case load_jwt_auth (pe_pem E) (pe_read E) env cfg of
           Inl e \<Rightarrow> Inl e
         | Inr auth \<Rightarrow>
             (let sv = (case cfg of Some c \<Rightarrow> start c | None \<Rightarrow> state_new m0)
              in case bind_address env cfg of
                   Inl e \<Rightarrow> Inl e
                 | Inr address \<Rightarrow>
                     (let origins = resolved_cors_origins env cfg
                      in case ne_binds N address of
                           Some e \<Rightarrow> Inl e
                         | None \<Rightarrow> Inr \<lparr>la_server = sv, la_config = cfg, la_database = db, la_auth = auth,
                             la_bootstrap_secret = bootstrap_secret env, la_trust_proxy = trust_proxy env,
                             la_tasks = background_tasks sv cfg, la_address = address,
                             la_cors = build_cors_layer (ne_header_ok N) (co_origins origins)\<rparr>)))"

definition main ::
  "('b, 'sk, 'pk) process_env \<Rightarrow> net_env \<Rightarrow> (config \<Rightarrow> ('m, 'o) server) \<Rightarrow> 'm \<Rightarrow> u64 \<Rightarrow> string \<Rightarrow> string list
   \<Rightarrow> ('m, 'o) process_outcome" where
  "main E N start m0 now uuid args =
     (case args of
        _ # cmd # _ \<Rightarrow>
          if cmd = ''mint-token''
          then (case run_mint_token E now uuid args of Inl e \<Rightarrow> Failed e | Inr token \<Rightarrow> Minted token)
          else (case start_server E N start m0 of Inl e \<Rightarrow> Failed e | Inr l \<Rightarrow> Serving l)
      | _ \<Rightarrow> (case start_server E N start m0 of Inl e \<Rightarrow> Failed e | Inr l \<Rightarrow> Serving l))"

text \<open>What is recorded of a request in the trace: never its query, where a token may be.\<close>

record http_span =
  sp_method :: string
  sp_path :: string

definition make_span :: "http_request \<Rightarrow> http_span" where
  "make_span rq = \<lparr>sp_method = rq_method rq, sp_path = rq_path rq\<rparr>"

section \<open>Lemmas\<close>

lemma config_load_valid: "config_load E path = Inr c \<Longrightarrow> validate (ce_show_f64 E) c = Inr ()"
  by (auto simp: config_load_def split: option.splits sum.splits)

lemma config_load_parse: "ce_read_text E path = Some content \<Longrightarrow> config_load E path = config_parse E content"
  by (simp add: config_load_def config_parse_def)

lemma loaded_config_valid: "loaded_config E = Some c \<Longrightarrow> validate (ce_show_f64 (pe_config E)) c = Inr ()"
  using config_load_valid by (auto simp: loaded_config_def split: sum.splits)

lemma from_paths_Inr:
  assumes "from_paths P read sk_path cert_path issuer ttl = Inr auth"
  obtains sk_pem cert_pem sk pk where "read sk_path = Some sk_pem" "pl_private P sk_pem = Some sk"
    "read cert_path = Some cert_pem" "pl_public P cert_pem = Some pk"
    "auth = \<lparr>ja_lib = pl_jwt P sk pk issuer, ja_issuer = issuer, ja_default_ttl_secs = ttl\<rparr>"
  using assms by (auto simp: from_paths_def from_rsa_pem_def assemble_def split: option.splits)

text \<open>The keys that were loaded, and the guard they passed.\<close>

definition keys_loaded ::
  "('b, 'sk, 'pk) pem_lib \<Rightarrow> (string \<Rightarrow> 'b option) \<Rightarrow> (string \<Rightarrow> string option) \<Rightarrow> auth_config \<Rightarrow> jwt_auth \<Rightarrow> bool" where
  "keys_loaded P read env ac auth \<longleftrightarrow>
     \<not> (is_dev ac \<and> env ''ALLOW_DEV_KEY'' \<noteq> Some ''1'')
   \<and> ja_issuer auth = ac_issuer ac \<and> ja_default_ttl_secs auth = ac_default_ttl_secs ac
   \<and> (\<exists>sk pk. Option.bind (read (ac_private_key_path ac)) (pl_private P) = Some sk
        \<and> Option.bind (read (ac_cert_path ac)) (pl_public P) = Some pk
        \<and> ja_lib auth = pl_jwt P sk pk (ac_issuer ac))"

lemma load_jwt_auth_Inr:
  assumes "load_jwt_auth P read env cfg = Inr auth"
  shows "keys_loaded P read env (auth_config_resolved env (Option.bind cfg cf_auth)) auth"
proof -
  let ?ac = "auth_config_resolved env (Option.bind cfg cf_auth)"
  have guard: "\<not> (is_dev ?ac \<and> env ''ALLOW_DEV_KEY'' \<noteq> Some ''1'')"
    and paths: "from_paths P read (ac_private_key_path ?ac) (ac_cert_path ?ac) (ac_issuer ?ac) (ac_default_ttl_secs ?ac) = Inr auth"
    using assms by (auto simp: load_jwt_auth_def Let_def split: if_splits sum.splits)
  from paths show ?thesis by (rule from_paths_Inr) (use guard in \<open>auto simp: keys_loaded_def\<close>)
qed

lemma no_wildcard_origin: "''*'' \<notin> set (cl_origins (build_cors_layer header_ok origins))"
  by (simp add: build_cors_layer_def parse_origin_header_values_def)

lemma start_server_Inr:
  assumes "start_server E N start m0 = Inr l"
  shows "la_config l = loaded_config E"
    and "load_jwt_auth (pe_pem E) (pe_read E) (pe_env E) (loaded_config E) = Inr (la_auth l)"
    and "la_server l = (case loaded_config E of Some c \<Rightarrow> start c | None \<Rightarrow> state_new m0)"
    and "bind_address (pe_env E) (loaded_config E) = Inr (la_address l)"
    and "la_tasks l = background_tasks (la_server l) (loaded_config E)"
    and "\<exists>origins. la_cors l = build_cors_layer (ne_header_ok N) origins"
    and "la_bootstrap_secret l = bootstrap_secret (pe_env E)"
  using assms by (auto simp: start_server_def Let_def split: sum.splits option.splits)

lemma main_Serving: "main E N start m0 now uuid args = Serving l \<Longrightarrow> start_server E N start m0 = Inr l"
  by (auto simp: main_def split: list.splits if_splits sum.splits)

lemma main_Minted:
  "main E N start m0 now uuid args = Minted token \<Longrightarrow>
   \<exists>prog rest. args = prog # ''mint-token'' # rest \<and> run_mint_token E now uuid args = Inr token"
  by (auto simp: main_def split: list.splits if_splits sum.splits)

text \<open>A permission list that was accepted has one permission per word.\<close>

lemma collect_map: "collect (map Inr xs) = Inr xs"
  by (induction xs) simp_all

lemma collect_InrD: "collect rs = Inr xs \<Longrightarrow> rs = map Inr xs"
  by (induction rs arbitrary: xs rule: collect.induct) (auto split: sum.splits)

lemma parse_permissions_words:
  "parse_permissions spec = Inr perms \<Longrightarrow> p \<in> set perms \<Longrightarrow>
   \<exists>w \<in> set (split_on (CHR '','') spec). permission_from_word w = Inr p"
  unfolding parse_permissions_def by (drule collect_InrD) (metis image_eqI image_iff list.set_map)

lemma mint_args_origin:
  "mint_args args perms ttl = Inr (perms', ttl') \<Longrightarrow>
   perms' = None \<or> perms' = perms \<or> (\<exists>v \<in> set args. perms' = Some v)"
  by (induction args perms ttl rule: mint_args.induct) (auto split: if_splits list.splits option.splits)

fun permission_csv :: "permission list \<Rightarrow> string" where
  "permission_csv [] = []"
| "permission_csv [p] = permission_debug p"
| "permission_csv (p # ps) = permission_debug p @ '','' @ permission_csv ps"

lemma permission_from_debug: "permission_from_word (permission_debug p) = Inr p"
  by (cases p; simp; code_simp)

lemma split_permission_csv: "ps \<noteq> [] \<Longrightarrow> split_on (CHR '','') (permission_csv ps) = map permission_debug ps"
proof (induction ps rule: permission_csv.induct)
  case (3 p q ps)
  have "CHR '','' \<notin> set (permission_debug r)" for r by (cases r) simp_all
  with 3 show ?case by (simp add: split_on_append)
next
  case (2 p)
  show ?case by (cases p) (simp_all add: split_on_notin)
qed simp

lemma parse_permission_csv: "ps \<noteq> [] \<Longrightarrow> parse_permissions (permission_csv ps) = Inr ps"
  by (simp add: parse_permissions_def split_permission_csv comp_def permission_from_debug collect_map)

text \<open>
  A flag without its value: a missing lifetime is refused, a missing permission list is taken for
  the default.
\<close>

lemma missing_values:
  "mint_args [''--ttl''] perms ttl = Inl ''--ttl requires a value''"
  "mint_args [''--permissions''] perms ttl = Inr (None, ttl)"
  by simp_all

text \<open>
  The guard looks for both development paths: with a production private key and the development
  certificate left in place, the server starts without the override and verifies tokens with the
  public key of the committed development key.
\<close>

lemma dev_certificate_passes_guard:
  assumes "env ''AUTH_PRIVATE_KEY_PATH'' = Some ''/etc/keys/prod.pem''" and "env ''AUTH_CERT_PATH'' = None"
    and "env ''ALLOW_DEV_KEY'' = None" and "load_jwt_auth P read env None = Inr auth"
  shows "\<exists>sk pk. Option.bind (read dev_cert_path) (pl_public P) = Some pk
     \<and> ja_lib auth = pl_jwt P sk pk (ja_issuer auth)"
  using load_jwt_auth_Inr [OF assms(4)] assms(1-3)
  by (auto simp: keys_loaded_def auth_config_resolved_def unwrap_or_def auth_config_default_def Let_def)

lemma env_lifetime_unchecked:
  assumes "env ''AUTH_DEFAULT_TTL_SECS'' = Some ''0''"
  shows "ac_default_ttl_secs (auth_config_resolved env section) = 0"
proof -
  have "parse_u64 ''0'' = Some 0"
    by (simp add: parse_u64_def parse_unsigned_def strip_plus_def parse_digits_def is_digit_def digits_val_def digit_val_def)
  with assms show ?thesis by (simp add: auth_config_resolved_def unwrap_or_def Let_def)
qed

text \<open>A trace cannot tell two requests apart that differ in their query or their headers only.\<close>

lemma span_hides_token:
  "make_span (rq\<lparr>rq_query := q, rq_authorization := a\<rparr>) = make_span rq"
  by (simp add: make_span_def)

text \<open>
  Where the server's invariant starts: with a configuration in the initial state of its transition
  system, without one in an empty state that has the invariant.
\<close>

lemma started_server_reachable:
  assumes "main E N (from_config X qt gen W m0) m0 now uuid args = Serving l" and "la_config l = Some c"
  shows "server_reachable X gen H S W m0 c (la_server l)"
proof -
  note l = start_server_Inr(1,3) [OF main_Serving [OF assms(1)]]
  have "la_server l = from_config X qt gen W m0 c" using l(2) unfolding l(1) [symmetric] assms(2) by simp
  then show ?thesis by (simp only: reach_start)
qed

lemma empty_server_ok: "server_ok X gen config_default (state_new m0)"
  by (simp add: server_ok_def state_new_def app_ok_new snapshots_bounded_def)

section \<open>Properties\<close>


lemma mint_command_run:
  assumes "load_jwt_auth (pe_pem E) (pe_read E) (pe_env E) (loaded_config E) = Inr auth"
    and "perms \<noteq> []" and "uint now + uint ttl < 2 ^ 64"
  shows "run_mint_token E now uuid [prog, ''mint-token'', ''--ttl'', show_word ttl, ''--permissions'', permission_csv perms]
      = (case jwt_encode (ja_lib auth) \<lparr>cl_sub = uuid, cl_iss = ja_issuer auth, cl_iat = now, cl_exp = now + ttl, cl_permissions = perms\<rparr> of
           Some token \<Rightarrow> Inr token
         | None \<Rightarrow> Inl (''failed to mint token: '' @ api_error_display (Internal ''failed to sign token'')))"
proof -
  let ?c = "\<lparr>cl_sub = uuid, cl_iss = ja_issuer auth, cl_iat = now, cl_exp = now + ttl, cl_permissions = perms\<rparr>"
  have args: "mint_args (drop 2 [prog, ''mint-token'', ''--ttl'', show_word ttl, ''--permissions'', permission_csv perms]) None None
      = Inr (Some (permission_csv perms), Some ttl)"
    by (simp add: parse_u64_show_word)
  have mint: "mint_token auth now uuid perms ttl
      = (case jwt_encode (ja_lib auth) ?c of None \<Rightarrow> Inl (Internal ''failed to sign token'') | Some token \<Rightarrow> Inr (token, now + ttl))"
    using assms(3) by (simp add: mint_token_def checked_add_def)
  show ?thesis
    unfolding run_mint_token_def args sum.case prod.case unwrap_or_def option.case parse_permission_csv [OF assms(2)] assms(1) mint
    by (cases "jwt_encode (ja_lib auth) ?c") (simp_all only: option.case sum.case prod.case)
qed

lemma minted_permissions_named:
  assumes "load_jwt_auth (pe_pem E) (pe_read E) (pe_env E) (loaded_config E) = Inr auth"
    and "run_mint_token E now uuid args = Inr token"
  shows "\<exists>c. jwt_encode (ja_lib auth) c = Some token \<and> cl_iat c = now
     \<and> (cl_permissions c = [PermRead]
        \<or> (\<exists>a \<in> set (drop 2 args). \<forall>p \<in> set (cl_permissions c). \<exists>w \<in> set (split_on (CHR '','') a). permission_from_word w = Inr p))"
proof -
  obtain perms_arg ttl_arg perms expiry where parsed: "mint_args (drop 2 args) None None = Inr (perms_arg, ttl_arg)"
    "parse_permissions (unwrap_or perms_arg ''read'') = Inr perms"
    and minted: "mint_token auth now uuid perms (unwrap_or ttl_arg (ja_default_ttl_secs auth)) = Inr (token, expiry)"
    using assms(2) by (auto simp: run_mint_token_def assms(1) split: sum.splits)
  from minted obtain c where c: "jwt_encode (ja_lib auth) c = Some token" "cl_permissions c = perms" "cl_iat c = now"
    by (rule mint_token_Inr)
  have read: "parse_permissions ''read'' = Inr [PermRead]" by code_simp
  have words: "\<forall>p \<in> set perms. \<exists>w \<in> set (split_on (CHR '','') v). permission_from_word w = Inr p" if "perms_arg = Some v" for v
    using parse_permissions_words [of v perms] parsed(2) that by (simp add: unwrap_or_def)
  have "perms = [PermRead]
      \<or> (\<exists>a \<in> set (drop 2 args). \<forall>p \<in> set perms. \<exists>w \<in> set (split_on (CHR '','') a). permission_from_word w = Inr p)"
  proof (cases perms_arg)
    case None
    with parsed(2) read show ?thesis by (simp add: unwrap_or_def)
  next
    case (Some v)
    with mint_args_origin [OF parsed(1)] have "v \<in> set (drop 2 args)" by auto
    with words [OF Some] show ?thesis by blast
  qed
  with c show ?thesis by blast
qed

text \<open>
  The command line mints what it is asked for. With accepted keys, a non-empty list of permissions
  and a lifetime that does not overflow, \<open>mint-token\<close> writes the token of exactly these
  permissions, issued now for that lifetime; and whatever its arguments, a token it writes carries
  only permissions that one of the arguments names, or the read permission alone.
\<close>

theorem mint_command_exact:
  assumes "load_jwt_auth (pe_pem E) (pe_read E) (pe_env E) (loaded_config E) = Inr auth"
    and "perms \<noteq> []" and "uint now + uint ttl < 2 ^ 64"
  shows "main E N start m0 now uuid [prog, ''mint-token'', ''--ttl'', show_word ttl, ''--permissions'', permission_csv perms]
      = (case jwt_encode (ja_lib auth) \<lparr>cl_sub = uuid, cl_iss = ja_issuer auth, cl_iat = now, cl_exp = now + ttl, cl_permissions = perms\<rparr> of
           Some token \<Rightarrow> Minted token
         | None \<Rightarrow> Failed (''failed to mint token: '' @ api_error_display (Internal ''failed to sign token'')))
    \<and> (main E N start m0 now uuid args = Minted token \<longrightarrow>
        (\<exists>c. jwt_encode (ja_lib auth) c = Some token \<and> cl_iat c = now
          \<and> (cl_permissions c = [PermRead]
             \<or> (\<exists>a \<in> set (drop 2 args). \<forall>p \<in> set (cl_permissions c). \<exists>w \<in> set (split_on (CHR '','') a). permission_from_word w = Inr p))))"
proof (intro conjI impI)
  show "main E N start m0 now uuid [prog, ''mint-token'', ''--ttl'', show_word ttl, ''--permissions'', permission_csv perms]
      = (case jwt_encode (ja_lib auth) \<lparr>cl_sub = uuid, cl_iss = ja_issuer auth, cl_iat = now, cl_exp = now + ttl, cl_permissions = perms\<rparr> of
           Some token \<Rightarrow> Minted token
         | None \<Rightarrow> Failed (''failed to mint token: '' @ api_error_display (Internal ''failed to sign token'')))"
    unfolding main_def list.case mint_command_run [OF assms] if_P [OF refl]
    by (cases "jwt_encode (ja_lib auth) \<lparr>cl_sub = uuid, cl_iss = ja_issuer auth, cl_iat = now, cl_exp = now + ttl, cl_permissions = perms\<rparr>")
      (simp_all only: option.case sum.case)
next
  assume "main E N start m0 now uuid args = Minted token"
  from main_Minted [OF this] have "run_mint_token E now uuid args = Inr token" by (elim exE conjE)
  then show "\<exists>c. jwt_encode (ja_lib auth) c = Some token \<and> cl_iat c = now
      \<and> (cl_permissions c = [PermRead]
         \<or> (\<exists>a \<in> set (drop 2 args). \<forall>p \<in> set (cl_permissions c). \<exists>w \<in> set (split_on (CHR '','') a). permission_from_word w = Inr p))"
    by (rule minted_permissions_named [OF assms(1)])
qed

section \<open>A process\<close>

text \<open>An environment with production keys and no configuration file, and one that allows the development keys.\<close>

definition demo_jwt_any :: jwt_lib where
  "demo_jwt_any = \<lparr>jwt_encode = (\<lambda>c. Some (permission_csv (cl_permissions c))), jwt_decode = (\<lambda>_. Inl OtherJwtError)\<rparr>"

definition demo_process :: "(string \<times> string) list \<Rightarrow> (string, unit, unit) process_env" where
  "demo_process vars = \<lparr>pe_config = \<lparr>ce_read_text = \<lambda>_. None, ce_toml = \<lambda>_. None, ce_show_f64 = \<lambda>_. []\<rparr>,
     pe_env = map_of vars, pe_read = \<lambda>path. Some path,
     pe_pem = \<lparr>pl_private = \<lambda>_. Some (), pl_public = \<lambda>_. Some (), pl_jwt = \<lambda>_ _ _. demo_jwt_any\<rparr>\<rparr>"

definition demo_net :: net_env where
  "demo_net = \<lparr>ne_connects = \<lambda>_. False, ne_binds = \<lambda>_. None, ne_header_ok = \<lambda>_. True\<rparr>"

lemma demo_no_config: "loaded_config (demo_process vars) = None"
  by (simp add: demo_process_def loaded_config_def config_load_def)

lemma demo_keys:
  "load_jwt_auth (pe_pem (demo_process [(''ALLOW_DEV_KEY'', ''1'')])) (pe_read (demo_process [(''ALLOW_DEV_KEY'', ''1'')]))
     (pe_env (demo_process [(''ALLOW_DEV_KEY'', ''1'')])) None
   = Inr \<lparr>ja_lib = demo_jwt_any, ja_issuer = default_issuer, ja_default_ttl_secs = default_token_ttl_secs\<rparr>"
  by (simp add: load_jwt_auth_def demo_process_def from_paths_def from_rsa_pem_def assemble_def
      auth_config_resolved_def unwrap_or_def auth_config_default_def Let_def)

lemma dev_key_refused: "main (demo_process []) demo_net start m0 now uuid [''server''] = Failed ''dev signing key not permitted without ALLOW_DEV_KEY=1''"
  by (simp add: main_def start_server_def demo_no_config Let_def load_jwt_auth_def)
    (simp add: demo_process_def auth_config_resolved_def unwrap_or_def auth_config_default_def is_dev_def Let_def)

lemma demo_port: "parse_unsigned 16 ''8080'' = Some 8080"
  by (simp add: parse_unsigned_def strip_plus_def parse_digits_def is_digit_def digits_val_def digit_val_def)


lemma mint_command_exact_witness:
  "main (demo_process [(''ALLOW_DEV_KEY'', ''1'')]) demo_net (from_config demo_exchange (demo_quoter f_zero) id demo_walk_lib demo_empty)
     demo_empty 5 ''u'' [''server'', ''mint-token'', ''--ttl'', show_word (10 :: u64), ''--permissions'', permission_csv [PermRead, PermTrade]]
   = Minted ''Read,Trade''"
proof -
  have "[PermRead, PermTrade] \<noteq> []" "uint (5 :: u64) + uint (10 :: u64) < 2 ^ 64" by simp_all
  note mint = mint_command_exact [OF demo_keys [folded demo_no_config [of "[(''ALLOW_DEV_KEY'', ''1'')]"]] this, THEN conjunct1]
  show ?thesis by (simp add: mint del: permission_csv.simps) (simp add: demo_jwt_any_def)
qed

end
