(* ===== verification/Threads.thy ===== *)
theory Threads
  imports Prelude
begin

text \<open>
  Interleaving. The handlers run on a pool of threads over one shared state, and inside an
  operation another thread may move wherever no lock is held. A program says what one thread does
  in one such step: from an input (the clock, the next call), its own control point and the shared
  state to the new control point and state, or nothing when it cannot move. A pool is a list of
  control points and the state; in a step one of its threads moves. The interface
  \<open>pool_invariant\<close> is what a property of all interleavings is proved through.
\<close>

type_synonym ('a, 'p, 's) program = "'a \<Rightarrow> 'p \<Rightarrow> 's \<Rightarrow> ('p \<times> 's) option"

type_synonym ('p, 's) pool = "'p list \<times> 's"

definition pool_step :: "('a, 'p, 's) program \<Rightarrow> nat \<times> 'a \<Rightarrow> ('p, 's) pool \<Rightarrow> ('p, 's) pool option" where
  "pool_step prog = (\<lambda>(i, a) (ts, s).
     if i < length ts
     then (case prog a (ts ! i) s of None \<Rightarrow> None | Some (p, s') \<Rightarrow> Some (ts[i := p], s'))
     else None)"

text \<open>A schedule says who moves next and with which input.\<close>

fun pool_run ::
  "('a, 'p, 's) program \<Rightarrow> (nat \<times> 'a) list \<Rightarrow> ('p, 's) pool \<Rightarrow> ('p, 's) pool option" where
  "pool_run prog [] c = Some c"
| "pool_run prog (x # xs) c =
     (case pool_step prog x c of None \<Rightarrow> None | Some c' \<Rightarrow> pool_run prog xs c')"

text \<open>One thread that runs with nobody in between.\<close>

fun solo_run :: "('a, 'p, 's) program \<Rightarrow> 'a list \<Rightarrow> 'p \<times> 's \<Rightarrow> ('p \<times> 's) option" where
  "solo_run prog [] c = Some c"
| "solo_run prog (a # as) (p, s) =
     (case prog a p s of None \<Rightarrow> None | Some c' \<Rightarrow> solo_run prog as c')"

text \<open>The pools reachable when a thread moves only where \<open>may\<close> allows it.\<close>

inductive pool_reach ::
  "('a, 'p, 's) program \<Rightarrow> (nat \<Rightarrow> 'p list \<Rightarrow> bool) \<Rightarrow> ('p, 's) pool \<Rightarrow> ('p, 's) pool \<Rightarrow> bool"
  for prog may c0 where
  stay: "pool_reach prog may c0 c0"
| move: "pool_reach prog may c0 (ts, s) \<Longrightarrow> may i ts \<Longrightarrow> pool_step prog (i, a) (ts, s) = Some c \<Longrightarrow>
    pool_reach prog may c0 c"

abbreviation any_order :: "nat \<Rightarrow> 'p list \<Rightarrow> bool" where
  "any_order \<equiv> (\<lambda>_ _. True)"

lemma pool_step_Some:
  "pool_step prog (i, a) (ts, s) = Some (ts', s') \<longleftrightarrow>
     i < length ts \<and> (\<exists>p. prog a (ts ! i) s = Some (p, s') \<and> ts' = ts[i := p])"
  by (auto simp: pool_step_def split: option.splits)

lemma pool_run_append:
  "pool_run prog (xs @ ys) c =
     (case pool_run prog xs c of None \<Rightarrow> None | Some c' \<Rightarrow> pool_run prog ys c')"
  by (induction xs arbitrary: c) (auto split: option.splits)

lemma pool_run_trans:
  "pool_run prog xs c = Some c' \<Longrightarrow> pool_run prog ys c' = Some c'' \<Longrightarrow>
   pool_run prog (xs @ ys) c = Some c''"
  by (simp add: pool_run_append)

lemma solo_run_append:
  "solo_run prog (xs @ ys) c =
     (case solo_run prog xs c of None \<Rightarrow> None | Some c' \<Rightarrow> solo_run prog ys c')"
  by (induction xs arbitrary: c) (auto split: option.splits)

lemma solo_run_trans:
  "solo_run prog xs c = Some c' \<Longrightarrow> solo_run prog ys c' = Some c'' \<Longrightarrow>
   solo_run prog (xs @ ys) c = Some c''"
  by (simp add: solo_run_append)

text \<open>A thread that runs alone is a schedule of the pool that names only it.\<close>

lemma pool_run_solo:
  "solo_run prog as (p, s) = Some (p', s') \<Longrightarrow> i < length ts \<Longrightarrow> ts ! i = p \<Longrightarrow>
   pool_run prog (map (Pair i) as) (ts, s) = Some (ts[i := p'], s')"
proof (induction as arbitrary: p s ts)
  case Nil
  then show ?case by (auto simp: list_update_id)
next
  case (Cons a as)
  then obtain q r where step: "prog a p s = Some (q, r)" and rest: "solo_run prog as (q, r) = Some (p', s')"
    by (auto split: option.splits)
  have "pool_run prog (map (Pair i) as) (ts[i := q], r) = Some ((ts[i := q])[i := p'], s')"
    using Cons.prems rest by (intro Cons.IH) auto
  with step Cons.prems show ?case by (simp add: pool_step_def)
qed

text \<open>Does every move of a schedule respect \<open>may\<close>?\<close>

fun lawful ::
  "('a, 'p, 's) program \<Rightarrow> (nat \<Rightarrow> 'p list \<Rightarrow> bool) \<Rightarrow> (nat \<times> 'a) list \<Rightarrow> ('p, 's) pool \<Rightarrow> bool" where
  "lawful prog may [] c = True"
| "lawful prog may (x # xs) c = (may (fst x) (fst c) \<and>
     (case pool_step prog x c of None \<Rightarrow> True | Some c' \<Rightarrow> lawful prog may xs c'))"

lemma lawful_any_order: "lawful prog any_order xs c"
  by (induction xs arbitrary: c) (auto split: option.splits)

lemma pool_reach_lawful:
  "pool_run prog xs c = Some c' \<Longrightarrow> lawful prog may xs c \<Longrightarrow> pool_reach prog may c0 c \<Longrightarrow>
   pool_reach prog may c0 c'"
proof (induction xs arbitrary: c)
  case (Cons x xs)
  obtain i a ts s where [simp]: "x = (i, a)" "c = (ts, s)" by fastforce
  obtain d where "pool_step prog (i, a) (ts, s) = Some d" and "pool_run prog xs d = Some c'"
    using Cons.prems(1) by (auto split: option.splits)
  with Cons.IH [of d] Cons.prems show ?case by (auto intro: pool_reach.move)
qed simp

lemmas pool_reach_run = pool_reach_lawful [OF _ lawful_any_order]

lemma pool_reach_length:
  "pool_reach prog may c0 c \<Longrightarrow> length (fst c) = length (fst c0)"
proof (induction rule: pool_reach.induct)
  case (move ts s i a c)
  then show ?case by (cases c) (auto simp: pool_step_Some)
qed simp

text \<open>What the threads hold together, when one of them moves.\<close>

definition total_held :: "('p \<Rightarrow> int) \<Rightarrow> 'p list \<Rightarrow> int" where
  "total_held h ts = sum_list (map h ts)"

lemma sum_held_move:
  "i < length ts \<Longrightarrow> sum_list (map h (ts[i := p])) + h (ts ! i) = sum_list (map h ts) + h p"
  for h :: "'p \<Rightarrow> 'b::comm_monoid_add"
  by (induction ts arbitrary: i) (auto simp: ac_simps split: nat.splits)

lemma total_held_move:
  "i < length ts \<Longrightarrow> total_held h (ts[i := p]) = total_held h ts + h p - h (ts ! i)"
  using sum_held_move [of i ts h p] by (simp add: total_held_def algebra_simps)

lemma total_held_bounds:
  "(\<And>p. 0 \<le> h p \<and> h p \<le> 1) \<Longrightarrow> 0 \<le> total_held h ts \<and> total_held h ts \<le> int (length ts)"
proof (induction ts)
  case (Cons p ts)
  have "0 \<le> h p" "h p \<le> 1" using Cons.prems [of p] by auto
  moreover have "0 \<le> total_held h ts \<and> total_held h ts \<le> int (length ts)" by (rule Cons.IH [OF Cons.prems])
  moreover have "total_held h (p # ts) = h p + total_held h ts" by (simp add: total_held_def)
  ultimately show ?case by simp
qed (simp add: total_held_def)

lemma total_held_ge: "(\<And>p. 0 \<le> h p) \<Longrightarrow> i < length ts \<Longrightarrow> h (ts ! i) \<le> total_held h ts"
  unfolding total_held_def by (rule member_le_sum_list) auto

lemma total_held_mono: "(\<And>p. h p \<le> g p) \<Longrightarrow> total_held h ts \<le> total_held g ts"
  unfolding total_held_def by (rule sum_list_mono)

section \<open>Invariants of all interleavings\<close>

locale pool_invariant =
  fixes prog :: "('a, 'p, 's) program"
    and may :: "nat \<Rightarrow> 'p list \<Rightarrow> bool"
    and good :: "'p list \<Rightarrow> 's \<Rightarrow> bool"
  assumes keeps: "good ts s \<Longrightarrow> i < length ts \<Longrightarrow> may i ts \<Longrightarrow> prog a (ts ! i) s = Some (p, s') \<Longrightarrow>
    good (ts[i := p]) s'"
begin

lemma reachable:
  "pool_reach prog may (ts0, s0) c \<Longrightarrow> good ts0 s0 \<Longrightarrow> good (fst c) (snd c)"
proof (induction rule: pool_reach.induct)
  case (move ts s i a c)
  then show ?case using keeps by (cases c) (auto simp: pool_step_Some)
qed simp

end

end
