(* ===== verification/Limiter_Threads.thy ===== *)
theory Limiter_Threads
  imports Auth Threads
begin

text \<open>
  The rate limiter of \<open>src/src/auth.rs\<close> used by many threads at once. \<open>Auth\<close> models each operation
  as one step; here an operation is the sequence of its accesses to the shared map and to the
  atomic counter, and other threads move in between. A bucket is locked from its lookup to the
  end of the recording, so each of those is one step, with the refund of a slot that is made under
  that lock; \<open>retain\<close>, \<open>len\<close> and the sample of the eviction visit the shards of the map one after the
  other and are one step each here. The results: a thread alone computes what \<open>Auth\<close> says; while
  no sweep runs the cap on the tracked keys holds exactly; with sweeps it holds up to the number of
  threads, as long as nobody moves between the removals of a sweep and its write of the counter;
  and without that proviso it does not hold.
\<close>

section \<open>Control points\<close>

text \<open>
  A sweep runs for the background task or inside an admission, which goes on with its key, its
  limit, its time and the rounds it has left. \<open>In_now\<close> is a reading of the clock.
\<close>

datatype sweep_caller = Background | Admission string u32 u64 nat

datatype limiter_input = In_call string u32 | In_sweep | In_now u64 | In_go

datatype limiter_pc =
    Lim_idle
  | Lim_clock string u32
  | Lim_probe string u32 u64
  | Lim_admit string u32 u64 nat
  | Lim_sweep sweep_caller
  | Lim_before sweep_caller u64
  | Lim_retain sweep_caller u64 nat
  | Lim_removed sweep_caller nat
  | Lim_len sweep_caller nat
  | Lim_store sweep_caller nat nat
  | Lim_evict string u32 u64 nat
  | Lim_pick string u32 u64 nat u64
  | Lim_remove string u32 u64 nat string
  | Lim_evicted string u32 u64 nat
  | Lim_slot string u32 u64
  | Lim_done rate_limit_decision
  | Lim_swept nat

definition rejection :: "u64 \<Rightarrow> rate_limit_decision" where
  "rejection now = \<lparr>rd_allowed = False, rd_remaining = 0,
     rd_reset_secs = div_ceil (saturating_add now rate_limit_window_ms) 1000\<rparr>"

text \<open>Where a sweep returns to: an admission evicts when nothing was swept.\<close>

fun after_sweep :: "sweep_caller \<Rightarrow> nat \<Rightarrow> limiter_pc" where
  "after_sweep Background removed = Lim_swept removed"
| "after_sweep (Admission key limit now n) removed =
     (if removed = 0 then Lim_evict key limit now n else Lim_admit key limit now n)"

definition retain_live :: "u64 \<Rightarrow> rate_limiter \<Rightarrow> rate_limiter" where
  "retain_live now rl =
     rl\<lparr>rl_windows := filter (\<lambda>(_, w). w \<noteq> [])
          (map (\<lambda>(k, w). (k, prune_window (saturating_sub now rate_limit_window_ms) w)) (rl_windows rl))\<rparr>"

text \<open>Recording into the bucket of a key, or into a fresh one.\<close>

definition record_in :: "string \<Rightarrow> u32 \<Rightarrow> u64 \<Rightarrow> u64 list \<Rightarrow> rate_limiter \<Rightarrow> limiter_pc \<times> rate_limiter" where
  "record_in key limit now window rl =
     (let (w, d) = prune_and_record window now (saturating_sub now rate_limit_window_ms) limit
      in (Lim_done d, rl\<lparr>rl_windows := dm_insert key w (rl_windows rl)\<rparr>))"

text \<open>The next call of a thread that is between operations.\<close>

fun limiter_call :: "limiter_input \<Rightarrow> limiter_pc option" where
  "limiter_call (In_call key limit) = Some (Lim_clock key limit)"
| "limiter_call In_sweep = Some (Lim_sweep Background)"
| "limiter_call _ = None"

text \<open>The two points that read the clock and then go on with it.\<close>

definition on_clock :: "limiter_input \<Rightarrow> (u64 \<Rightarrow> limiter_pc) \<Rightarrow> rate_limiter \<Rightarrow> (limiter_pc \<times> rate_limiter) option" where
  "on_clock i next rl = (case i of In_now now \<Rightarrow> Some (next now, rl) | _ \<Rightarrow> None)"

fun limiter_prog :: "(limiter_input, limiter_pc, rate_limiter) program" where
  "limiter_prog i Lim_idle rl = map_option (\<lambda>p. (p, rl)) (limiter_call i)"
| "limiter_prog i (Lim_done d) rl = map_option (\<lambda>p. (p, rl)) (limiter_call i)"
| "limiter_prog i (Lim_swept removed) rl = map_option (\<lambda>p. (p, rl)) (limiter_call i)"
| "limiter_prog i (Lim_clock key limit) rl = on_clock i (Lim_probe key limit) rl"
| "limiter_prog i (Lim_probe key limit now) rl =
     Some (case dm_get (rl_windows rl) key of
             Some w \<Rightarrow> record_in key limit now w rl
           | None \<Rightarrow> (Lim_admit key limit now 3, rl))"
| "limiter_prog i (Lim_admit key limit now 0) rl = Some (Lim_done (rejection now), rl)"
| "limiter_prog i (Lim_admit key limit now (Suc n)) rl =
     Some (if rl_tracked rl < max_tracked_keys
           then (Lim_slot key limit now, rl\<lparr>rl_tracked := rl_tracked rl + 1\<rparr>)
           else (Lim_sweep (Admission key limit now n), rl))"
| "limiter_prog i (Lim_sweep caller) rl = on_clock i (Lim_before caller) rl"
| "limiter_prog i (Lim_before caller now) rl = Some (Lim_retain caller now (length (rl_windows rl)), rl)"
| "limiter_prog i (Lim_retain caller now before) rl = Some (Lim_removed caller before, retain_live now rl)"
| "limiter_prog i (Lim_removed caller before) rl =
     Some (Lim_len caller (before - length (rl_windows rl)), rl)"
| "limiter_prog i (Lim_len caller removed) rl = Some (Lim_store caller removed (length (rl_windows rl)), rl)"
| "limiter_prog i (Lim_store caller removed n) rl = Some (after_sweep caller removed, rl\<lparr>rl_tracked := n\<rparr>)"
| "limiter_prog i (Lim_evict key limit now n) rl = on_clock i (Lim_pick key limit now n) rl"
| "limiter_prog i (Lim_pick key limit now n t) rl =
     Some (case evict_victim (saturating_sub t rate_limit_window_ms) key (rl_windows rl) of
             None \<Rightarrow> (Lim_admit key limit now n, rl)
           | Some victim \<Rightarrow> (Lim_remove key limit now n victim, rl))"
| "limiter_prog i (Lim_remove key limit now n victim) rl =
     Some (if dm_get (rl_windows rl) victim \<noteq> None
           then (Lim_evicted key limit now n, rl\<lparr>rl_windows := dm_remove victim (rl_windows rl)\<rparr>)
           else (Lim_admit key limit now n, rl))"
| "limiter_prog i (Lim_evicted key limit now n) rl =
     Some (Lim_admit key limit now n, rl\<lparr>rl_tracked := usize_fetch_sub (rl_tracked rl)\<rparr>)"
| "limiter_prog i (Lim_slot key limit now) rl =
     Some (case dm_get (rl_windows rl) key of
             Some w \<Rightarrow> record_in key limit now w (rl\<lparr>rl_tracked := usize_fetch_sub (rl_tracked rl)\<rparr>)
           | None \<Rightarrow> record_in key limit now [] rl)"

section \<open>A thread alone\<close>

lemma record_in_windows:
  "rl_tracked (snd (record_in key limit now w rl)) = rl_tracked rl"
  "\<exists>v. rl_windows (snd (record_in key limit now w rl)) = dm_insert key v (rl_windows rl)"
  "\<exists>d. fst (record_in key limit now w rl) = Lim_done d"
  by (auto simp: record_in_def Let_def split: prod.splits)

lemma solo_sweep:
  "solo_run limiter_prog [In_now now, In_go, In_go, In_go, In_go, In_go] (Lim_sweep caller, rl) =
     (let (rl', removed) = sweep_expired now rl in Some (after_sweep caller removed, rl'))"
  by (simp add: on_clock_def sweep_expired_def retain_live_def Let_def)

lemma solo_evict:
  "\<exists>ins. solo_run limiter_prog ins (Lim_evict key limit now n, rl) =
     Some (Lim_admit key limit now n, evict_idlest_of_sample t key rl)"
proof (cases "evict_victim (saturating_sub t rate_limit_window_ms) key (rl_windows rl)")
  case None
  then have "solo_run limiter_prog [In_now t, In_go] (Lim_evict key limit now n, rl) =
      Some (Lim_admit key limit now n, evict_idlest_of_sample t key rl)"
    by (simp add: on_clock_def evict_idlest_of_sample_def Let_def)
  then show ?thesis by blast
next
  case (Some victim)
  have "solo_run limiter_prog [In_now t, In_go, In_go] (Lim_evict key limit now n, rl) =
      Some (Lim_admit key limit now n, evict_idlest_of_sample t key rl)"
    if "dm_get (rl_windows rl) victim = None"
    using Some that by (simp add: on_clock_def evict_idlest_of_sample_def Let_def)
  moreover have "solo_run limiter_prog [In_now t, In_go, In_go, In_go] (Lim_evict key limit now n, rl) =
      Some (Lim_admit key limit now n, evict_idlest_of_sample t key rl)"
    if "dm_get (rl_windows rl) victim \<noteq> None"
    using Some that by (auto simp: on_clock_def evict_idlest_of_sample_def Let_def)
  ultimately show ?thesis by blast
qed

lemma solo_admit:
  "admit_loop n i clock key rl = (rl', admitted) \<Longrightarrow>
   \<exists>ins. solo_run limiter_prog ins (Lim_admit key limit now n, rl) =
     Some (if admitted then Lim_slot key limit now else Lim_done (rejection now), rl')"
proof (induction n arbitrary: i rl)
  case 0
  then have "solo_run limiter_prog [In_go] (Lim_admit key limit now 0, rl) =
      Some (if admitted then Lim_slot key limit now else Lim_done (rejection now), rl')"
    by auto
  then show ?case by blast
next
  case (Suc n)
  show ?case
  proof (cases "rl_tracked rl < max_tracked_keys")
    case True
    then have "solo_run limiter_prog [In_go] (Lim_admit key limit now (Suc n), rl) =
        Some (if admitted then Lim_slot key limit now else Lim_done (rejection now), rl')"
      using Suc.prems by auto
    then show ?thesis by blast
  next
    case False
    obtain r1 swept where sw: "sweep_expired (clock i) rl = (r1, swept)" by fastforce
    let ?r2 = "if swept = 0 then evict_idlest_of_sample (clock (i + 1)) key r1 else r1"
    have rest: "admit_loop n (i + 2) clock key ?r2 = (rl', admitted)"
      using Suc.prems False sw by (simp add: Let_def)
    have "solo_run limiter_prog (In_go # [In_now (clock i), In_go, In_go, In_go, In_go, In_go])
        (Lim_admit key limit now (Suc n), rl) = Some (after_sweep (Admission key limit now n) swept, r1)"
      using False solo_sweep [of "clock i" "Admission key limit now n" rl] sw by simp
    moreover obtain ins where
      "solo_run limiter_prog ins (after_sweep (Admission key limit now n) swept, r1) =
        Some (Lim_admit key limit now n, ?r2)"
    proof (cases "swept = 0")
      case True
      then show ?thesis
        using solo_evict [of key limit now n r1 "clock (i + 1)"] that by auto
    next
      case False
      then show ?thesis using that [of "[]"] by simp
    qed
    moreover obtain more where "solo_run limiter_prog more (Lim_admit key limit now n, ?r2) =
        Some (if admitted then Lim_slot key limit now else Lim_done (rejection now), rl')"
      using Suc.IH [OF rest] by blast
    ultimately show ?thesis by (meson solo_run_trans)
  qed
qed

lemma record_in_done:
  "prune_and_record w now (saturating_sub now rate_limit_window_ms) limit = (w', d) \<Longrightarrow>
   record_in key limit now w rl = (Lim_done d, rl\<lparr>rl_windows := dm_insert key w' (rl_windows rl)\<rparr>)"
  by (simp add: record_in_def)

lemma solo_slot:
  "solo_run limiter_prog [In_go] (Lim_slot key limit now, rl) =
     Some (case dm_get (rl_windows rl) key of
             Some w \<Rightarrow> record_in key limit now w (rl\<lparr>rl_tracked := usize_fetch_sub (rl_tracked rl)\<rparr>)
           | None \<Rightarrow> record_in key limit now [] rl)"
  by (auto split: option.splits)

lemma solo_call:
  "\<exists>ins. solo_run limiter_prog ins (Lim_idle, rl) =
     (let (rl', d) = check_and_record_status clock key limit rl in Some (Lim_done d, rl'))"
proof -
  let ?now = "clock 0"
  let ?ws = "saturating_sub ?now rate_limit_window_ms"
  have start: "solo_run limiter_prog [In_call key limit, In_now ?now, In_go] (Lim_idle, rl) =
      Some (case dm_get (rl_windows rl) key of
              Some w \<Rightarrow> record_in key limit ?now w rl
            | None \<Rightarrow> (Lim_admit key limit ?now 3, rl))"
    by (auto simp: on_clock_def split: option.splits)
  show ?thesis
  proof (cases "dm_get (rl_windows rl) key")
    case (Some w)
    obtain w' d where "prune_and_record w ?now ?ws limit = (w', d)" by fastforce
    with start Some show ?thesis
      by (intro exI [of _ "[In_call key limit, In_now ?now, In_go]"])
        (simp add: check_and_record_status_def Let_def record_in_done)
  next
    case None
    obtain r admitted where adm: "admit_loop 3 1 clock key rl = (r, admitted)" by fastforce
    obtain ins where "solo_run limiter_prog ins (Lim_admit key limit ?now 3, rl) =
        Some (if admitted then Lim_slot key limit ?now else Lim_done (rejection ?now), r)"
      using solo_admit [OF adm] by blast
    with start None have upto: "solo_run limiter_prog ([In_call key limit, In_now ?now, In_go] @ ins) (Lim_idle, rl) =
        Some (if admitted then Lim_slot key limit ?now else Lim_done (rejection ?now), r)"
      by (intro solo_run_trans) simp_all
    show ?thesis
    proof (cases admitted)
      case False
      with upto None adm show ?thesis
        by (intro exI [of _ "[In_call key limit, In_now ?now, In_go] @ ins"])
          (simp add: check_and_record_status_def Let_def rejection_def)
    next
      case True
      let ?w = "case dm_get (rl_windows r) key of Some w \<Rightarrow> w | None \<Rightarrow> []"
      obtain w' d where pr: "prune_and_record ?w ?now ?ws limit = (w', d)" by fastforce
      have "solo_run limiter_prog [In_go] (Lim_slot key limit ?now, r) =
          (let (rl', d) = check_and_record_status clock key limit rl in Some (Lim_done d, rl'))"
        unfolding solo_slot using None adm True pr
        by (cases "dm_get (rl_windows r) key")
          (simp_all add: check_and_record_status_def Let_def record_in_done)
      then show ?thesis
        using solo_run_trans [OF upto [unfolded if_P [OF True]]]
        by (auto simp: case_prod_beta Let_def simp del: solo_run.simps)
    qed
  qed
qed

section \<open>Counting\<close>

text \<open>
  A thread holds one unit of the counter that is not a bucket: a slot it has won and not yet
  filled, or a bucket it has removed and not yet subtracted.
\<close>

fun slot_held :: "limiter_pc \<Rightarrow> int" where
  "slot_held (Lim_slot key limit now) = 1"
| "slot_held _ = 0"

fun unit_held :: "limiter_pc \<Rightarrow> int" where
  "unit_held (Lim_slot key limit now) = 1"
| "unit_held (Lim_evicted key limit now n) = 1"
| "unit_held _ = 0"

text \<open>A sweep between its removals and its write of the counter.\<close>

fun resyncing :: "limiter_pc \<Rightarrow> bool" where
  "resyncing (Lim_removed caller before) = True"
| "resyncing (Lim_len caller removed) = True"
| "resyncing (Lim_store caller removed n) = True"
| "resyncing _ = False"

fun sweeping :: "limiter_pc \<Rightarrow> bool" where
  "sweeping (Lim_retain caller now before) = True"
| "sweeping p = resyncing p"

abbreviation keys_tracked :: "rate_limiter \<Rightarrow> int" where
  "keys_tracked rl \<equiv> int (length (rl_windows rl))"

lemma held_bounds: "0 \<le> slot_held p" "slot_held p \<le> unit_held p" "0 \<le> unit_held p" "unit_held p \<le> 1"
  by (cases p; simp)+

lemma slots_nonneg: "0 \<le> total_held slot_held ts"
  using total_held_bounds [of slot_held ts] held_bounds by (meson order_trans)

lemma units_bounds: "0 \<le> total_held unit_held ts" "total_held unit_held ts \<le> int (length ts)"
  using total_held_bounds [of unit_held ts] held_bounds by auto

lemma slots_le_units: "total_held slot_held ts \<le> total_held unit_held ts"
  by (rule total_held_mono) (rule held_bounds)

lemma after_sweep_held [simp]:
  "slot_held (after_sweep caller removed) = 0" "unit_held (after_sweep caller removed) = 0"
  "\<not> resyncing (after_sweep caller removed)"
  by (cases caller; simp)+

lemma call_held [simp]:
  "limiter_call i = Some p \<Longrightarrow> slot_held p = 0 \<and> unit_held p = 0 \<and> \<not> resyncing p"
  by (cases i) auto

lemma retain_facts:
  assumes "dm_ok (rl_windows rl)"
  shows "dm_ok (rl_windows (retain_live now rl))"
    and "keys_tracked (retain_live now rl) \<le> keys_tracked rl"
    and "rl_tracked (retain_live now rl) = rl_tracked rl"
proof -
  have "rl_windows (retain_live now rl) = rl_windows (fst (sweep_expired now rl))"
    by (simp add: retain_live_def sweep_expired_def Let_def)
  then show "dm_ok (rl_windows (retain_live now rl))"
      and "keys_tracked (retain_live now rl) \<le> keys_tracked rl"
    using sweep_windows [OF assms, of now] by simp_all
  show "rl_tracked (retain_live now rl) = rl_tracked rl" by (simp add: retain_live_def)
qed

text \<open>
  What a step outside the sweeps does: it leaves the counter alone and what it takes from the
  buckets it holds, or it wins a slot, or it lowers the counter by a unit it held.
\<close>

definition unit_kept :: "limiter_pc \<Rightarrow> rate_limiter \<Rightarrow> limiter_pc \<Rightarrow> rate_limiter \<Rightarrow> bool" where
  "unit_kept p rl p' rl' \<longleftrightarrow> rl_tracked rl' = rl_tracked rl
     \<and> keys_tracked rl' + unit_held p' = keys_tracked rl + unit_held p"

definition slot_won :: "limiter_pc \<Rightarrow> rate_limiter \<Rightarrow> limiter_pc \<Rightarrow> rate_limiter \<Rightarrow> bool" where
  "slot_won p rl p' rl' \<longleftrightarrow> rl_tracked rl < max_tracked_keys \<and> rl_tracked rl' = rl_tracked rl + 1
     \<and> keys_tracked rl' = keys_tracked rl \<and> unit_held p = 0 \<and> unit_held p' = 1
     \<and> slot_held p = 0 \<and> slot_held p' = 1"

definition unit_returned :: "limiter_pc \<Rightarrow> rate_limiter \<Rightarrow> limiter_pc \<Rightarrow> rate_limiter \<Rightarrow> bool" where
  "unit_returned p rl p' rl' \<longleftrightarrow> rl_tracked rl' = usize_fetch_sub (rl_tracked rl)
     \<and> keys_tracked rl' = keys_tracked rl \<and> unit_held p = 1 \<and> unit_held p' = 0"

lemma quiet_step:
  assumes ok: "dm_ok (rl_windows rl)" and step: "limiter_prog i p rl = Some (p', rl')"
    and quiet: "\<not> sweeping p"
  shows "dm_ok (rl_windows rl') \<and> \<not> resyncing p'
    \<and> (unit_kept p rl p' rl' \<and> keys_tracked rl' + slot_held p' \<le> keys_tracked rl + slot_held p
        \<or> slot_won p rl p' rl'
        \<or> unit_returned p rl p' rl' \<and> keys_tracked rl' + slot_held p' \<le> keys_tracked rl + slot_held p)"
proof -
  have rec: "dm_ok (rl_windows r') \<and> \<not> resyncing q \<and> unit_held q = 0 \<and> slot_held q = 0
      \<and> rl_tracked r' = rl_tracked r
      \<and> keys_tracked r' = keys_tracked r + (if dm_get (rl_windows r) key = None then 1 else 0)"
    if "record_in key limit now w r = (q, r')" "dm_ok (rl_windows r)" for key limit now w r q r'
    using record_in_windows [of key limit now w r] that
    by (auto simp: dm.size_put dm_ok_insert)
  show ?thesis
  proof (cases p)
    case (Lim_probe key limit now)
    then show ?thesis
      using step ok rec [of key limit now _ rl p' rl'] by (auto simp: unit_kept_def split: option.splits)
  next
    case (Lim_admit key limit now n)
    then show ?thesis using step ok by (cases n) (auto simp: unit_kept_def slot_won_def split: if_splits)
  next
    case (Lim_remove key limit now n victim)
    then show ?thesis
      using step ok dm.size_del_present [OF ok, of victim]
      by (auto simp: unit_kept_def dm_ok_remove split: if_splits)
  next
    case (Lim_slot key limit now)
    let ?r = "rl\<lparr>rl_tracked := usize_fetch_sub (rl_tracked rl)\<rparr>"
    show ?thesis
    proof (cases "dm_get (rl_windows rl) key")
      case None
      then show ?thesis using Lim_slot step ok rec [of key limit now "[]" rl p' rl'] by (auto simp: unit_kept_def)
    next
      case (Some w)
      then show ?thesis
        using Lim_slot step ok rec [of key limit now w ?r p' rl'] by (auto simp: unit_returned_def)
    qed
  qed (use step ok quiet in \<open>auto simp: unit_kept_def unit_returned_def on_clock_def
         split: option.splits limiter_input.splits\<close>)
qed

lemma int_fetch_sub: "int (usize_fetch_sub n) = (int n - 1) mod 2 ^ 64"
proof -
  have "int (usize_fetch_sub n) = (int n + 18446744073709551615) mod 2 ^ 64"
    by (simp add: usize_fetch_sub_def zmod_int)
  also have "int n + 18446744073709551615 = (int n - 1) + 2 ^ 64" by simp
  also have "((int n - 1) + 2 ^ 64) mod 2 ^ 64 = (int n - 1) mod 2 ^ 64" by (rule mod_add_self2)
  finally show ?thesis .
qed

section \<open>The cap while no sweep runs\<close>

definition no_sweep :: "nat \<Rightarrow> limiter_pc list \<Rightarrow> bool" where
  "no_sweep i ts \<longleftrightarrow> \<not> sweeping (ts ! i)"

definition counter_exact :: "limiter_pc list \<Rightarrow> rate_limiter \<Rightarrow> bool" where
  "counter_exact ts rl \<longleftrightarrow> dm_ok (rl_windows rl) \<and> rl_tracked rl \<le> max_tracked_keys
     \<and> int (rl_tracked rl) = keys_tracked rl + total_held unit_held ts"

interpretation exact_cap: pool_invariant limiter_prog no_sweep counter_exact
proof
  fix ts rl i a p rl'
  assume good: "counter_exact ts rl" and i: "i < length ts" and may: "no_sweep i ts"
    and step: "limiter_prog a (ts ! i) rl = Some (p, rl')"
  have dm: "dm_ok (rl_windows rl)" and cap: "rl_tracked rl \<le> max_tracked_keys"
    and eq: "int (rl_tracked rl) = keys_tracked rl + total_held unit_held ts"
    using good by (auto simp: counter_exact_def)
  note q = quiet_step [OF dm step] may [unfolded no_sweep_def]
  have held: "unit_held (ts ! i) \<le> total_held unit_held ts"
    by (rule total_held_ge [OF held_bounds(3) i])
  have "int (usize_fetch_sub (rl_tracked rl)) = int (rl_tracked rl) - 1" if "unit_held (ts ! i) = 1"
  proof -
    have "1 \<le> int (rl_tracked rl)" using eq held that by simp
    then show ?thesis using cap by (simp add: int_fetch_sub max_tracked_keys_def)
  qed
  then show "counter_exact (ts[i := p]) rl'"
    using q eq cap
    by (auto simp: counter_exact_def total_held_move [OF i] unit_kept_def slot_won_def unit_returned_def)
qed

section \<open>The cap with sweeps\<close>

text \<open>Nobody moves while another thread stands between the removals of its sweep and its write.\<close>

definition resync_alone :: "nat \<Rightarrow> limiter_pc list \<Rightarrow> bool" where
  "resync_alone i ts \<longleftrightarrow> (\<forall>j < length ts. j \<noteq> i \<longrightarrow> \<not> resyncing (ts ! j))"

text \<open>
  The counter stands for some integer \<open>c\<close> (it wraps when it is lowered at zero) that misses at
  most the units of the threads.
\<close>

definition counter_near :: "limiter_pc list \<Rightarrow> rate_limiter \<Rightarrow> bool" where
  "counter_near ts rl \<longleftrightarrow> (\<exists>c. int (rl_tracked rl) = c mod 2 ^ 64
     \<and> c \<le> keys_tracked rl + total_held unit_held ts
     \<and> keys_tracked rl + total_held unit_held ts \<le> c + int (length ts))"

definition store_current :: "rate_limiter \<Rightarrow> limiter_pc \<Rightarrow> bool" where
  "store_current rl p \<longleftrightarrow> (\<forall>caller removed n. p = Lim_store caller removed n \<longrightarrow> n = length (rl_windows rl))"

definition counter_bounded :: "limiter_pc list \<Rightarrow> rate_limiter \<Rightarrow> bool" where
  "counter_bounded ts rl \<longleftrightarrow> int (length ts) < 2 ^ 62 \<and> dm_ok (rl_windows rl)
     \<and> keys_tracked rl + total_held slot_held ts \<le> int max_tracked_keys + int (length ts)
     \<and> list_all (store_current rl) ts
     \<and> (list_ex resyncing ts \<or> counter_near ts rl)"

lemma store_current_quiet: "\<not> resyncing p \<Longrightarrow> store_current rl p"
  by (auto simp: store_current_def)

lemma none_resyncing:
  assumes "\<not> list_ex resyncing ts"
  shows "list_all (store_current rl) ts"
  using assms store_current_quiet by (fastforce simp: list_all_iff list_ex_iff)

lemma others_quiet:
  assumes "resync_alone i ts" "i < length ts" "\<not> resyncing p"
  shows "\<not> list_ex resyncing (ts[i := p])"
  using assms by (auto simp: resync_alone_def list_ex_iff in_set_conv_nth nth_list_update split: if_splits)

lemma near_move:
  assumes near: "counter_near ts rl" and i: "i < length ts"
    and move: "unit_kept (ts ! i) rl p rl' \<or> slot_won (ts ! i) rl p rl' \<or> unit_returned (ts ! i) rl p rl'"
  shows "counter_near (ts[i := p]) rl'"
proof -
  obtain c where c: "int (rl_tracked rl) = c mod 2 ^ 64"
      "c \<le> keys_tracked rl + total_held unit_held ts"
      "keys_tracked rl + total_held unit_held ts \<le> c + int (length ts)"
    using near by (auto simp: counter_near_def)
  have won: "int (rl_tracked rl) + 1 = (c + 1) mod 2 ^ 64" if "rl_tracked rl < max_tracked_keys"
  proof -
    have "(c + 1) mod 2 ^ 64 = (int (rl_tracked rl) + 1) mod 2 ^ 64"
      by (simp only: c(1) mod_add_left_eq)
    also have "\<dots> = int (rl_tracked rl) + 1" using that by (simp add: max_tracked_keys_def)
    finally show ?thesis by simp
  qed
  have lowered: "int (usize_fetch_sub (rl_tracked rl)) = (c - 1) mod 2 ^ 64"
    by (simp add: int_fetch_sub c(1) mod_diff_left_eq)
  show ?thesis
    using move
  proof (elim disjE)
    assume "unit_kept (ts ! i) rl p rl'"
    with c i show ?thesis
      by (auto simp: counter_near_def unit_kept_def total_held_move intro!: exI [of _ c])
  next
    assume "slot_won (ts ! i) rl p rl'"
    with c i won show ?thesis
      by (auto simp: counter_near_def slot_won_def total_held_move intro!: exI [of _ "c + 1"])
  next
    assume "unit_returned (ts ! i) rl p rl'"
    with c i lowered show ?thesis
      by (auto simp: counter_near_def unit_returned_def total_held_move intro!: exI [of _ "c - 1"])
  qed
qed

text \<open>A slot is won below the cap, so the buckets and the slots stay below the cap and the threads.\<close>

lemma near_below_cap:
  assumes near: "counter_near ts rl" and few: "int (length ts) < 2 ^ 62"
    and cap: "rl_tracked rl < max_tracked_keys"
    and keys: "keys_tracked rl + total_held slot_held ts \<le> int max_tracked_keys + int (length ts)"
  shows "keys_tracked rl + total_held slot_held ts + 1 \<le> int max_tracked_keys + int (length ts)"
proof -
  obtain c where c: "int (rl_tracked rl) = c mod 2 ^ 64"
      "c \<le> keys_tracked rl + total_held unit_held ts"
      "keys_tracked rl + total_held unit_held ts \<le> c + int (length ts)"
    using near by (auto simp: counter_near_def)
  have "0 \<le> keys_tracked rl" by simp
  then have low: "- (2 ^ 62) < c" using c(3) few units_bounds(1) [of ts] by linarith
  have "keys_tracked rl \<le> int max_tracked_keys + int (length ts)"
    using keys slots_nonneg [of ts] by linarith
  then have "c < 2 ^ 64"
    using c(2) few units_bounds(2) [of ts] by (simp add: max_tracked_keys_def)
  have "0 \<le> c"
  proof (rule ccontr)
    assume neg: "\<not> 0 \<le> c"
    have "c mod 2 ^ 64 = (c + 2 ^ 64) mod 2 ^ 64" by (rule mod_add_self2 [symmetric])
    also have "\<dots> = c + 2 ^ 64" using neg low by (intro mod_pos_pos_trivial) simp_all
    finally have "int (rl_tracked rl) = c + 2 ^ 64" using c(1) by simp
    with cap low show False by (simp add: max_tracked_keys_def)
  qed
  with \<open>c < 2 ^ 64\<close> c(1) have "int (rl_tracked rl) = c" by simp
  then show ?thesis using c(3) cap slots_le_units [of ts] by linarith
qed

lemma bounded_quiet:
  assumes good: "counter_bounded ts rl" and i: "i < length ts" and may: "resync_alone i ts"
    and step: "limiter_prog a (ts ! i) rl = Some (p, rl')" and quiet: "\<not> sweeping (ts ! i)"
  shows "counter_bounded (ts[i := p]) rl'"
proof -
  have dm: "dm_ok (rl_windows rl)" and few: "int (length ts) < 2 ^ 62"
    and keys: "keys_tracked rl + total_held slot_held ts \<le> int max_tracked_keys + int (length ts)"
    using good by (auto simp: counter_bounded_def)
  note q = quiet_step [OF dm step quiet]
  have "\<not> resyncing (ts ! i)" using quiet by (cases "ts ! i") auto
  then have none: "\<not> list_ex resyncing ts" using others_quiet [OF may i, of "ts ! i"] by simp
  then have near: "counter_near ts rl" using good by (simp add: counter_bounded_def)
  have none': "\<not> list_ex resyncing (ts[i := p])" using others_quiet [OF may i] q by blast
  have "counter_near (ts[i := p]) rl'" using near_move [OF near i] q by blast
  moreover have "keys_tracked rl' + total_held slot_held (ts[i := p]) \<le> int max_tracked_keys + int (length ts)"
    using q keys near_below_cap [OF near few _ keys] by (auto simp: total_held_move [OF i] slot_won_def)
  ultimately show ?thesis
    using q none_resyncing [OF none'] few by (simp add: counter_bounded_def)
qed

lemma bounded_sweeping:
  assumes good: "counter_bounded ts rl" and i: "i < length ts" and may: "resync_alone i ts"
    and step: "limiter_prog a (ts ! i) rl = Some (p, rl')" and sweep: "sweeping (ts ! i)"
  shows "counter_bounded (ts[i := p]) rl'"
proof -
  have dm: "dm_ok (rl_windows rl)" and few: "int (length ts) < 2 ^ 62"
    and keys: "keys_tracked rl + total_held slot_held ts \<le> int max_tracked_keys + int (length ts)"
    and stores: "list_all (store_current rl) ts"
    using good by (auto simp: counter_bounded_def)
  have held: "slot_held (ts ! i) = 0" "unit_held (ts ! i) = 0" using sweep by (cases "ts ! i"; simp)+
  have still: "list_all (store_current r) (ts[i := p])" if "store_current r p" for r
    unfolding list_all_iff
  proof
    fix q assume "q \<in> set (ts[i := p])"
    then obtain j where "j < length ts" "q = ts[i := p] ! j" by (auto simp: in_set_conv_nth)
    then show "store_current r q"
      using that may store_current_quiet by (cases "j = i") (auto simp: resync_alone_def)
  qed
  have on: "list_ex resyncing (ts[i := p])" if "resyncing p"
    using that i set_update_memI [OF i] by (auto simp: list_ex_iff)
  note defs = counter_bounded_def total_held_move [OF i] held
  show ?thesis
  proof (cases "ts ! i")
    case (Lim_retain caller now before)
    then have p: "p = Lim_removed caller before" "rl' = retain_live now rl" using step by simp_all
    then have "store_current rl' p" by (simp add: store_current_def)
    from still [OF this] on p show ?thesis
      using retain_facts [OF dm, of now] few keys by (simp add: defs)
  next
    case (Lim_removed caller before)
    then have p: "rl' = rl" "resyncing p" "slot_held p = 0" "store_current rl' p"
      using step by (auto simp: store_current_def)
    from still [OF p(4)] on p show ?thesis using dm few keys by (simp add: defs)
  next
    case (Lim_len caller removed)
    then have p: "rl' = rl" "resyncing p" "slot_held p = 0" "store_current rl' p"
      using step by (auto simp: store_current_def)
    from still [OF p(4)] on p show ?thesis using dm few keys by (simp add: defs)
  next
    case (Lim_store caller removed n)
    then have p: "p = after_sweep caller removed" "rl' = rl\<lparr>rl_tracked := n\<rparr>" using step by simp_all
    have "store_current rl (ts ! i)" using stores i by (auto simp: list_all_iff)
    then have n: "n = length (rl_windows rl)" using Lim_store by (simp add: store_current_def)
    have "keys_tracked rl < 2 ^ 64"
      using keys slots_nonneg [of ts] few by (simp add: max_tracked_keys_def)
    then have "counter_near (ts[i := p]) rl'"
      using units_bounds [of ts]
      by (auto simp: counter_near_def p n total_held_move [OF i] held intro!: exI [of _ "keys_tracked rl"])
    moreover have "store_current rl' p" by (rule store_current_quiet) (simp add: p)
    ultimately show ?thesis using still dm few keys by (auto simp: defs p)
  qed (use sweep in auto)
qed

interpretation bounded_cap: pool_invariant limiter_prog resync_alone counter_bounded
  by unfold_locales (meson bounded_quiet bounded_sweeping)

section \<open>Two threads past the cap\<close>

text \<open>A thread that is admitted at once: call, clock, probe, counter, bucket.\<close>

definition admission :: "u32 \<Rightarrow> u64 \<Rightarrow> string \<Rightarrow> limiter_input list" where
  "admission limit now key = [In_call key limit, In_now now, In_go, In_go, In_go]"

fun between_calls :: "limiter_pc \<Rightarrow> bool" where
  "between_calls Lim_idle = True"
| "between_calls (Lim_done d) = True"
| "between_calls (Lim_swept removed) = True"
| "between_calls _ = False"

lemma solo_admission:
  assumes "between_calls p" "dm_get (rl_windows rl) key = None" "rl_tracked rl < max_tracked_keys"
  shows "\<exists>d w. solo_run limiter_prog (admission limit now key) (p, rl) =
    Some (Lim_done d, \<lparr>rl_windows = dm_insert key w (rl_windows rl), rl_tracked = Suc (rl_tracked rl)\<rparr>)"
proof -
  obtain w d where "prune_and_record [] now (saturating_sub now rate_limit_window_ms) limit = (w, d)"
    by fastforce
  then show ?thesis
    using assms by (cases p; cases rl) (auto simp: admission_def on_clock_def record_in_done numeral_3_eq_3)
qed

lemma solo_admissions:
  "distinct keys \<Longrightarrow> set keys \<inter> dom (dm_get (rl_windows rl)) = {} \<Longrightarrow> dm_ok (rl_windows rl) \<Longrightarrow>
   rl_tracked rl + length keys \<le> max_tracked_keys \<Longrightarrow> between_calls p \<Longrightarrow>
   \<exists>p' rl'. solo_run limiter_prog (concat (map (admission limit now) keys)) (p, rl) = Some (p', rl')
     \<and> between_calls p' \<and> dm_ok (rl_windows rl')
     \<and> dom (dm_get (rl_windows rl')) = dom (dm_get (rl_windows rl)) \<union> set keys
     \<and> length (rl_windows rl') = length (rl_windows rl) + length keys
     \<and> rl_tracked rl' = rl_tracked rl + length keys"
proof (induction keys arbitrary: p rl)
  case (Cons k ks)
  have new: "dm_get (rl_windows rl) k = None" using Cons.prems(2) by (auto simp: domIff)
  obtain d w where one: "solo_run limiter_prog (admission limit now k) (p, rl) =
      Some (Lim_done d, \<lparr>rl_windows = dm_insert k w (rl_windows rl), rl_tracked = Suc (rl_tracked rl)\<rparr>)"
    using solo_admission [OF Cons.prems(5) new, of limit now] Cons.prems(4) by auto
  let ?r = "\<lparr>rl_windows = dm_insert k w (rl_windows rl), rl_tracked = Suc (rl_tracked rl)\<rparr>"
  have dom: "dom (dm_get (rl_windows ?r)) = insert k (dom (dm_get (rl_windows rl)))"
    by (auto simp: dm_get_insert)
  have size: "length (rl_windows ?r) = Suc (length (rl_windows rl))"
    using new Cons.prems(3) by (simp add: dm.size_put)
  have "\<exists>p' rl'. solo_run limiter_prog (concat (map (admission limit now) ks)) (Lim_done d, ?r) = Some (p', rl')
      \<and> between_calls p' \<and> dm_ok (rl_windows rl')
      \<and> dom (dm_get (rl_windows rl')) = dom (dm_get (rl_windows ?r)) \<union> set ks
      \<and> length (rl_windows rl') = length (rl_windows ?r) + length ks
      \<and> rl_tracked rl' = rl_tracked ?r + length ks"
    by (rule Cons.IH) (use Cons.prems dom in \<open>auto simp: dm_ok_insert\<close>)
  then obtain p' rl' where
      rest: "solo_run limiter_prog (concat (map (admission limit now) ks)) (Lim_done d, ?r) = Some (p', rl')"
      and facts: "between_calls p'" "dm_ok (rl_windows rl')"
      "dom (dm_get (rl_windows rl')) = dom (dm_get (rl_windows ?r)) \<union> set ks"
      "length (rl_windows rl') = length (rl_windows ?r) + length ks"
      "rl_tracked rl' = rl_tracked ?r + length ks"
    by blast
  from solo_run_trans [OF one rest] facts dom size show ?case by auto
qed auto

section \<open>Properties\<close>

abbreviation limiter_pool :: "nat \<Rightarrow> (limiter_pc, rate_limiter) pool" where
  "limiter_pool n \<equiv> (replicate n Lim_idle, limiter_new)"

text \<open>
  With nobody in between, the accesses of a thread that calls the limiter amount to the one step
  of \<open>Auth\<close>: whatever the other threads of the pool stand at, there are moves of this thread alone
  that end its call with the decision and the limiter of \<open>check_and_record_status\<close>.
\<close>

theorem limiter_alone_is_atomic:
  assumes "i < length ts" and "ts ! i = Lim_idle"
  shows "\<exists>ins. pool_run limiter_prog (map (Pair i) ins) (ts, rl) =
    (let (rl', d) = check_and_record_status clock key limit rl in Some (ts[i := Lim_done d], rl'))"
proof -
  obtain rl' d where c: "check_and_record_status clock key limit rl = (rl', d)" by fastforce
  then obtain ins where "solo_run limiter_prog ins (Lim_idle, rl) = Some (Lim_done d, rl')"
    using solo_call [of rl clock key limit] by auto
  from pool_run_solo [OF this assms] c show ?thesis by auto
qed

lemma limiter_alone_is_atomic_witness:
  "\<exists>ins. pool_run limiter_prog (map (Pair 1) ins) ([Lim_evicted ''a'' 1 0 2, Lim_idle], limiter_new) =
     (let (rl', d) = check_and_record_status (\<lambda>_. 60000) ''b'' 5 limiter_new
      in Some ([Lim_evicted ''a'' 1 0 2, Lim_done d], rl'))"
  using limiter_alone_is_atomic
    [of 1 "[Lim_evicted ''a'' 1 0 2, Lim_idle]" limiter_new "\<lambda>_. 60000" "''b''" 5]
  by simp

text \<open>
  C21. The cap on the tracked keys under concurrent admissions. In every interleaving of \<open>n\<close> threads in
  which no sweep moves, at most \<open>MAX_TRACKED_KEYS\<close> buckets are tracked and the counter is their number plus
  the slots and removals under way. With sweeps, if nobody moves between the removals of a sweep
  and its write of the counter, the cap is exceeded by at most the number of threads.
\<close>

theorem limiter_cap_concurrent:
  assumes few: "int n < 2 ^ 62"
  shows "(pool_reach limiter_prog no_sweep (limiter_pool n) (ts, rl) \<longrightarrow>
      length (rl_windows rl) \<le> max_tracked_keys
      \<and> int (rl_tracked rl) = int (length (rl_windows rl)) + total_held unit_held ts)
    \<and> (pool_reach limiter_prog resync_alone (limiter_pool n) (ts, rl) \<longrightarrow>
      length (rl_windows rl) \<le> max_tracked_keys + n)"
proof (intro conjI impI)
  have held: "total_held h (replicate n Lim_idle) = 0" if "h Lim_idle = 0" for h
    using that by (simp add: total_held_def sum_list_replicate)
  {
    assume "pool_reach limiter_prog no_sweep (limiter_pool n) (ts, rl)"
    from exact_cap.reachable [OF this] have "counter_exact ts rl"
      using held by (simp add: counter_exact_def limiter_new_def)
    then show "length (rl_windows rl) \<le> max_tracked_keys"
      and "int (rl_tracked rl) = int (length (rl_windows rl)) + total_held unit_held ts"
      using units_bounds(1) [of ts] by (auto simp: counter_exact_def)
  }
  assume reach: "pool_reach limiter_prog resync_alone (limiter_pool n) (ts, rl)"
  have "counter_near (replicate n Lim_idle) limiter_new"
    using held by (auto simp: counter_near_def limiter_new_def intro!: exI [of _ 0])
  moreover have "list_all (store_current limiter_new) (replicate n Lim_idle)"
    by (auto simp: list_all_iff store_current_def)
  ultimately have "counter_bounded ts rl"
    using bounded_cap.reachable [OF reach] held few by (simp add: counter_bounded_def limiter_new_def)
  then show "length (rl_windows rl) \<le> max_tracked_keys + n"
    using pool_reach_length [OF reach] slots_nonneg [of ts] by (simp add: counter_bounded_def)
qed

definition demo_admissions :: "(nat \<times> limiter_input) list" where
  "demo_admissions = [(0, In_call ''k'' 5), (1, In_call ''k'' 5), (0, In_now 60000), (1, In_now 60001),
     (0, In_go), (1, In_go), (0, In_go), (1, In_go), (1, In_go)]"

lemma demo_admissions_run:
  "\<exists>d w. pool_run limiter_prog demo_admissions (limiter_pool 2) =
     Some ([Lim_slot ''k'' 5 60000, Lim_done d], \<lparr>rl_windows = [(''k'', w)], rl_tracked = 2\<rparr>)"
  by (simp add: demo_admissions_def limiter_new_def numeral_2_eq_2 numeral_3_eq_3 pool_step_def on_clock_def
      max_tracked_keys_def record_in_def case_prod_beta Let_def)

lemma demo_admissions_lawful: "lawful limiter_prog no_sweep demo_admissions (limiter_pool 2)"
  by (simp add: demo_admissions_def limiter_new_def numeral_2_eq_2 numeral_3_eq_3 pool_step_def on_clock_def
      max_tracked_keys_def record_in_def no_sweep_def case_prod_beta Let_def)

lemma limiter_cap_concurrent_witness:
  "\<exists>d w. pool_run limiter_prog demo_admissions (limiter_pool 2) =
      Some ([Lim_slot ''k'' 5 60000, Lim_done d], \<lparr>rl_windows = [(''k'', w)], rl_tracked = 2\<rparr>)
    \<and> length [(''k'', w)] \<le> max_tracked_keys
    \<and> int 2 = int (length [(''k'', w)]) + total_held unit_held [Lim_slot ''k'' 5 60000, Lim_done d]"
proof -
  obtain d w where run: "pool_run limiter_prog demo_admissions (limiter_pool 2) =
      Some ([Lim_slot ''k'' 5 60000, Lim_done d], \<lparr>rl_windows = [(''k'', w)], rl_tracked = 2\<rparr>)"
    using demo_admissions_run by blast
  then have "pool_reach limiter_prog no_sweep (limiter_pool 2)
      ([Lim_slot ''k'' 5 60000, Lim_done d], \<lparr>rl_windows = [(''k'', w)], rl_tracked = 2\<rparr>)"
    by (rule pool_reach_lawful) (rule demo_admissions_lawful pool_reach.stay)+
  from limiter_cap_concurrent [of 2, THEN conjunct1, rule_format, OF _ this] run show ?thesis by simp
qed

text \<open>
  Without the proviso the bound is lost. Two threads are enough to track twice as many keys as the
  cap: one reads the length of the empty map in a sweep, the other is admitted with as many keys
  as the cap allows, the first writes the length it read, and the other is admitted as often again.
\<close>

definition spare_key :: "nat \<Rightarrow> string" where
  "spare_key n = replicate n (CHR ''k'')"

lemma spare_keys: "distinct (map spare_key [a..<b])" "set (map spare_key [a..<b]) = spare_key ` {a..<b}"
  by (simp_all add: distinct_map inj_on_def spare_key_def)

lemma resync_loses_admissions:
  "\<exists>sched ts rl. pool_run limiter_prog sched (limiter_pool 2) = Some (ts, rl)
     \<and> list_all between_calls ts \<and> rl_tracked rl = max_tracked_keys
     \<and> length (rl_windows rl) = 2 * max_tracked_keys"
proof -
  let ?N = max_tracked_keys
  let ?a = "concat (map (admission 1 60000) (map spare_key [0..<?N]))"
  let ?b = "concat (map (admission 1 60000) (map spare_key [?N..<?N + ?N]))"
  have sweep: "solo_run limiter_prog [In_sweep, In_now 60000, In_go, In_go, In_go, In_go] (Lim_idle, limiter_new) =
      Some (Lim_store Background 0 0, limiter_new)"
    by (simp add: on_clock_def limiter_new_def retain_live_def)
  obtain p r where a: "solo_run limiter_prog ?a (Lim_idle, limiter_new) = Some (p, r)"
      "between_calls p" "dm_ok (rl_windows r)" "dom (dm_get (rl_windows r)) = spare_key ` {0..<?N}"
      "length (rl_windows r) = ?N"
    using solo_admissions [of "map spare_key [0..<?N]" limiter_new Lim_idle 1 60000]
    by (auto simp: limiter_new_def spare_keys)
  let ?r = "r\<lparr>rl_tracked := 0\<rparr>"
  have "spare_key ` {?N..<?N + ?N} \<inter> dom (dm_get (rl_windows r)) = {}"
    unfolding a(4) by (auto simp: spare_key_def)
  then obtain q s where b: "solo_run limiter_prog ?b (p, ?r) = Some (q, s)"
      "between_calls q" "length (rl_windows s) = 2 * ?N" "rl_tracked s = ?N"
    using solo_admissions [of "map spare_key [?N..<?N + ?N]" ?r p 1 60000] a
    by (auto simp: spare_keys simp del: set_map)
  let ?s = "map (Pair 0) [In_sweep, In_now 60000, In_go, In_go, In_go, In_go] @ map (Pair 1) ?a
    @ map (Pair 0) [In_go] @ map (Pair 1) ?b"
  have "pool_run limiter_prog (map (Pair 0) [In_sweep, In_now 60000, In_go, In_go, In_go, In_go]) (limiter_pool 2) =
      Some ([Lim_store Background 0 0, Lim_idle], limiter_new)"
    using pool_run_solo [OF sweep, of 0 "[Lim_idle, Lim_idle]"] by (simp add: numeral_2_eq_2)
  moreover have "pool_run limiter_prog (map (Pair 1) ?a) ([Lim_store Background 0 0, Lim_idle], limiter_new) =
      Some ([Lim_store Background 0 0, p], r)"
    using pool_run_solo [OF a(1), of 1 "[Lim_store Background 0 0, Lim_idle]"] by simp
  moreover have "pool_run limiter_prog (map (Pair 0) [In_go]) ([Lim_store Background 0 0, p], r) =
      Some ([Lim_swept 0, p], ?r)"
    by (simp add: pool_step_def)
  moreover have "pool_run limiter_prog (map (Pair 1) ?b) ([Lim_swept 0, p], ?r) = Some ([Lim_swept 0, q], s)"
    using pool_run_solo [OF b(1), of 1 "[Lim_swept 0, p]"] by simp
  ultimately have "pool_run limiter_prog ?s (limiter_pool 2) = Some ([Lim_swept 0, q], s)"
    by (meson pool_run_trans)
  with b show ?thesis by (intro exI [of _ ?s] exI [of _ "[Lim_swept 0, q]"] exI [of _ s]) simp
qed

end
