(* ===== verification/Delta_Threads.thy ===== *)
theory Delta_Threads
  imports Subscriptions Threads "HOL-Library.Multiset"
begin

text \<open>
  Order-book deltas published by many handlers at once. \<open>publish_level_delta\<close> of
  \<open>src/src/api/handlers.rs\<close> reads the level, then takes a number, then broadcasts, and holds no lock
  from one to the next; a new subscriber (\<open>src/src/api/websocket.rs\<close>) reads the book and then takes a
  number. \<open>Trading\<close> and \<open>Subscriptions\<close> model each as one step; here they are the three and the two
  steps they are, with the calls that change the books in between. The results: alone they are
  what those theories say; in every interleaving a number is used at most once and a delta carries
  a quantity its level had; if publications exclude each other the deltas are sent in the order of
  their numbers; and without that the delta with the last number can be the stale one.
\<close>

section \<open>Control points\<close>

datatype 'm delta_input =
    In_book "'m \<Rightarrow> 'm"
  | In_publish book_key book_side u128
  | In_subscribe string nat
  | In_go

datatype delta_pc =
    Dl_idle
  | Dl_read book_key book_side u128
  | Dl_number string book_side u128 u64
  | Dl_send delta_event
  | Dl_view string nat
  | Dl_count string "price_level_data list" "price_level_data list"
  | Dl_shown ws_message

text \<open>
  A thread between calls changes the books by a call of the order-book library, starts to publish
  a level, or starts to send a snapshot.
\<close>

fun delta_call :: "'m delta_input \<Rightarrow> ('m, 'o) app_state \<Rightarrow> (delta_pc \<times> ('m, 'o) app_state) option" where
  "delta_call (In_book f) st = Some (Dl_idle, set_manager (f (st_manager st)) st)"
| "delta_call (In_publish bk side price) st = Some (Dl_read bk side price, st)"
| "delta_call (In_subscribe symbol depth) st = Some (Dl_view symbol depth, st)"
| "delta_call In_go st = None"

fun delta_prog ::
  "('m, 'o) exchange \<Rightarrow> 'm book_depth \<Rightarrow> ('m delta_input, delta_pc, ('m, 'o) app_state) program" where
  "delta_prog X D i Dl_idle st = delta_call i st"
| "delta_prog X D i (Dl_shown msg) st = delta_call i st"
| "delta_prog X D i (Dl_read bk side price) st =
     Some (Dl_number (x_symbol X (st_manager st) bk) side price
             (level_visible_quantity X (st_manager st) bk side price), st)"
| "delta_prog X D i (Dl_number symbol side price quantity) st =
     (let (sequence, st) = next_sequence symbol st
      in Some (Dl_send (build_level_delta symbol side price quantity sequence), st))"
| "delta_prog X D i (Dl_send d) st = Some (Dl_idle, st\<lparr>st_deltas := st_deltas st @ [d]\<rparr>)"
| "delta_prog X D i (Dl_view symbol depth) st =
     Some (case get_orderbook_snapshot X D (st_manager st) symbol depth of
             None \<Rightarrow> (Dl_idle, st)
           | Some (bids, asks) \<Rightarrow> (Dl_count symbol bids asks, st))"
| "delta_prog X D i (Dl_count symbol bids asks) st =
     (let (sequence, st) = next_sequence symbol st
      in Some (Dl_shown (WsOrderbookSnapshot ''orderbook'' symbol sequence bids asks), st))"

lemma solo_publish:
  "solo_run (delta_prog X D) [In_publish bk side price, In_go, In_go, In_go] (Dl_idle, st) =
     Some (Dl_idle, publish_level_delta X bk side price st)"
  by (simp add: publish_level_delta_def Let_def case_prod_beta)

lemma solo_subscribe:
  assumes "cc_symbol cmd = Some symbol" and "well_formed_symbol symbol"
    and "can_add_subscription (cn_symbols cn) symbol"
    and "get_orderbook_snapshot X D (st_manager st) symbol (case cc_depth cmd of Some d \<Rightarrow> d | None \<Rightarrow> 10)
      = Some (bids, asks)"
  shows "\<exists>st' msg. solo_run (delta_prog X D)
      [In_subscribe symbol (case cc_depth cmd of Some d \<Rightarrow> d | None \<Rightarrow> 10), In_go, In_go] (Dl_idle, st) =
      Some (Dl_shown msg, st')
    \<and> handle_orderbook_subscribe X D cmd cn st =
      (st', cn\<lparr>cn_symbols := List.insert symbol (cn_symbols cn)\<rparr>, [WsSubscribed ''orderbook'' symbol, msg])"
  using assms by (simp add: handle_orderbook_subscribe_def Let_def case_prod_beta)

section \<open>Numbers\<close>

text \<open>The number a thread has taken and not yet broadcast.\<close>

fun pending :: "string \<Rightarrow> delta_pc \<Rightarrow> u64 list" where
  "pending symbol (Dl_send d) = (if de_symbol d = symbol then [de_sequence d] else [])"
| "pending symbol _ = []"

definition numbers_out :: "string \<Rightarrow> delta_pc list \<Rightarrow> ('m, 'o) app_state \<Rightarrow> u64 multiset" where
  "numbers_out symbol ts st =
     mset (map de_sequence (deltas_of st symbol)) + sum_list (map (\<lambda>p. mset (pending symbol p)) ts)"

definition numbers_once :: "delta_pc list \<Rightarrow> ('m, 'o) app_state \<Rightarrow> bool" where
  "numbers_once ts st \<longleftrightarrow> (\<forall>symbol. \<exists>A m. A \<subseteq> {..<m} \<and> current_sequence st symbol = word_of_nat m
     \<and> numbers_out symbol ts st = image_mset word_of_nat (mset_set A))"

text \<open>One step, as far as the numbers of a symbol are concerned.\<close>

lemma delta_step_numbers:
  assumes "delta_prog X D a p st = Some (q, st')"
  shows "st_deltas st' = st_deltas st \<and> pending sy q = pending sy p
      \<and> current_sequence st' sy = current_sequence st sy
    \<or> st_deltas st' = st_deltas st \<and> pending sy p = []
      \<and> (pending sy q = [current_sequence st sy] \<or> pending sy q = [])
      \<and> current_sequence st' sy = current_sequence st sy + 1
    \<or> (\<exists>d. p = Dl_send d \<and> q = Dl_idle \<and> st_deltas st' = st_deltas st @ [d]
      \<and> current_sequence st' sy = current_sequence st sy)"
proof -
  have book: "current_sequence (set_manager m st) sy = current_sequence st sy"
    "st_deltas (set_manager m st) = st_deltas st" for m
    by (simp_all add: current_sequence_def set_manager_def)
  have idle: "st_deltas st' = st_deltas st \<and> pending sy q = []
      \<and> current_sequence st' sy = current_sequence st sy" if "delta_call a st = Some (q, st')"
    using that by (cases a) (auto simp: book)
  show ?thesis
  proof (cases p)
    case Dl_idle
    with assms idle show ?thesis by simp
  next
    case (Dl_shown msg)
    with assms idle show ?thesis by simp
  next
    case (Dl_number symbol side price quantity)
    with assms show ?thesis
      by (cases "symbol = sy")
        (auto simp: current_sequence_next current_sequence_def build_level_delta_def store_simps)
  next
    case (Dl_count symbol bids asks)
    with assms show ?thesis
      by (cases "symbol = sy") (auto simp: current_sequence_next current_sequence_def store_simps)
  qed (use assms in \<open>auto simp: current_sequence_def split: option.splits\<close>)
qed

lemma numbers_out_move:
  "i < length ts \<Longrightarrow>
   numbers_out sy (ts[i := q]) st' + mset (pending sy (ts ! i)) + mset (map de_sequence (deltas_of st sy)) =
   numbers_out sy ts st + mset (pending sy q) + mset (map de_sequence (deltas_of st' sy))"
  using sum_held_move [of i ts "\<lambda>p. mset (pending sy p)" q]
  by (simp add: numbers_out_def ac_simps)

interpretation numbered: pool_invariant "delta_prog X D" any_order numbers_once
proof (unfold_locales, unfold numbers_once_def, intro allI)
  fix ts i a p sy and st st' :: "('a, 'b) app_state"
  assume good: "\<forall>symbol. \<exists>A m. A \<subseteq> {..<m} \<and> current_sequence st symbol = word_of_nat m
      \<and> numbers_out symbol ts st = image_mset word_of_nat (mset_set A)"
    and i: "i < length ts" and step: "delta_prog X D a (ts ! i) st = Some (p, st')"
  obtain A m where A: "A \<subseteq> {..<m}" "current_sequence st sy = word_of_nat m"
      "numbers_out sy ts st = image_mset word_of_nat (mset_set A)"
    using good by blast
  note move = numbers_out_move [OF i, of sy p st' st]
  have fresh: "mset_set (insert m A) = add_mset m (mset_set A)"
    using A(1) finite_subset [OF A(1)] by (subst mset_set.insert) auto
  have same: "deltas_of st' sy = deltas_of st sy" if "st_deltas st' = st_deltas st"
    using that by (simp add: deltas_of_def)
  from delta_step_numbers [OF step, of sy]
  show "\<exists>A m. A \<subseteq> {..<m} \<and> current_sequence st' sy = word_of_nat m
      \<and> numbers_out sy (ts[i := p]) st' = image_mset word_of_nat (mset_set A)"
  proof (elim disjE conjE exE)
    assume "st_deltas st' = st_deltas st" "pending sy p = pending sy (ts ! i)"
      "current_sequence st' sy = current_sequence st sy"
    then show ?thesis using A move same by (intro exI [of _ A] exI [of _ m]) simp
  next
    assume *: "st_deltas st' = st_deltas st" "pending sy (ts ! i) = []"
      "pending sy p = [current_sequence st sy]" "current_sequence st' sy = current_sequence st sy + 1"
    then have "numbers_out sy (ts[i := p]) st' = image_mset word_of_nat (mset_set (insert m A))"
      using A move same fresh by simp
    then show ?thesis using A * by (intro exI [of _ "insert m A"] exI [of _ "Suc m"]) auto
  next
    assume *: "st_deltas st' = st_deltas st" "pending sy (ts ! i) = []"
      "pending sy p = []" "current_sequence st' sy = current_sequence st sy + 1"
    then show ?thesis
      using A move same by (intro exI [of _ A] exI [of _ "Suc m"]) auto
  next
    fix d assume *: "ts ! i = Dl_send d" "p = Dl_idle" "st_deltas st' = st_deltas st @ [d]"
      "current_sequence st' sy = current_sequence st sy"
    then have "numbers_out sy (ts[i := p]) st' = numbers_out sy ts st"
      using move by (cases "de_symbol d = sy") (auto simp: deltas_of_def)
    then show ?thesis using A * by (intro exI [of _ A] exI [of _ m]) simp
  qed
qed

section \<open>Quantities\<close>

text \<open>What a level read in some state of the run before says.\<close>

definition read_before ::
  "('m, 'o) exchange \<Rightarrow> 'm list \<Rightarrow> string \<Rightarrow> string \<Rightarrow> u128 \<Rightarrow> u64 \<Rightarrow> bool" where
  "read_before X past symbol side_str price quantity \<longleftrightarrow>
     (\<exists>m \<in> set past. \<exists>bk side. side_str = resting_side_str side \<and> symbol = x_symbol X m bk
        \<and> quantity = level_visible_quantity X m bk side price)"

text \<open>The managers a schedule goes through.\<close>

fun managers_of ::
  "('a, 'p, ('m, 'o) app_state) program \<Rightarrow> (nat \<times> 'a) list \<Rightarrow> ('p, ('m, 'o) app_state) pool \<Rightarrow> 'm list" where
  "managers_of prog [] c = [st_manager (snd c)]"
| "managers_of prog (x # xs) c =
     st_manager (snd c) # (case pool_step prog x c of None \<Rightarrow> [] | Some c' \<Rightarrow> managers_of prog xs c')"

fun carries :: "('m, 'o) exchange \<Rightarrow> 'm list \<Rightarrow> delta_pc \<Rightarrow> bool" where
  "carries X past (Dl_number symbol side price quantity) =
     read_before X past symbol (resting_side_str side) price quantity"
| "carries X past (Dl_send d) = read_before X past (de_symbol d) (de_side d) (de_price d) (de_quantity d)"
| "carries X past _ = True"

definition delta_read :: "('m, 'o) exchange \<Rightarrow> 'm list \<Rightarrow> delta_event \<Rightarrow> bool" where
  "delta_read X past d \<longleftrightarrow> read_before X past (de_symbol d) (de_side d) (de_price d) (de_quantity d)"

lemma read_before_mono: "read_before X past sy sd p q \<Longrightarrow> set past \<subseteq> set past' \<Longrightarrow> read_before X past' sy sd p q"
  unfolding read_before_def by blast

lemma carries_mono: "carries X past p \<Longrightarrow> set past \<subseteq> set past' \<Longrightarrow> carries X past' p"
  by (cases p) (auto intro: read_before_mono)

lemma read_now: "read_before X (past @ [m]) (x_symbol X m bk) (resting_side_str side) price
    (level_visible_quantity X m bk side price)"
  unfolding read_before_def by (intro bexI [of _ m] exI [of _ bk] exI [of _ side]) simp_all

lemma delta_step_carries:
  assumes "delta_prog X D a p st = Some (q, st')" and "carries X (past @ [st_manager st]) p"
  shows "carries X (past @ [st_manager st]) q
    \<and> (st_deltas st' = st_deltas st
       \<or> (\<exists>d. st_deltas st' = st_deltas st @ [d] \<and> delta_read X (past @ [st_manager st]) d))"
proof -
  have idle: "carries X past' q \<and> st_deltas st' = st_deltas st" if "delta_call a st = Some (q, st')" for past'
    using that by (cases a) (auto simp: set_manager_def)
  show ?thesis
    using assms idle
    by (cases p)
      (auto simp: read_now delta_read_def next_sequence_def build_level_delta_def Let_def split: option.splits)
qed

lemma run_reads:
  "pool_run (delta_prog X D) sched (ts, st) = Some (ts', st') \<Longrightarrow>
   list_all (carries X (past @ [st_manager st])) ts \<Longrightarrow>
   \<exists>new. st_deltas st' = st_deltas st @ new
     \<and> list_all (delta_read X (past @ managers_of (delta_prog X D) sched (ts, st))) new"
proof (induction sched arbitrary: ts st past)
  case Nil
  then show ?case by simp
next
  case (Cons x sched)
  obtain i a where x [simp]: "x = (i, a)" by fastforce
  obtain u r where step: "pool_step (delta_prog X D) (i, a) (ts, st) = Some (u, r)"
      and rest: "pool_run (delta_prog X D) sched (u, r) = Some (ts', st')"
    using Cons.prems(1) by (auto split: option.splits)
  obtain p where i: "i < length ts" and p: "delta_prog X D a (ts ! i) st = Some (p, r)" "u = ts[i := p]"
    using step by (auto simp: pool_step_Some)
  have own: "carries X (past @ [st_manager st]) (ts ! i)" using Cons.prems(2) i by (auto simp: list_all_iff)
  note c = delta_step_carries [OF p(1) own]
  have "list_all (carries X ((past @ [st_manager st]) @ [st_manager r])) u"
    unfolding list_all_iff
  proof
    fix q assume "q \<in> set u"
    then have "q = p \<or> q \<in> set ts" using set_update_subset_insert [of ts i p] p(2) by auto
    then show "carries X ((past @ [st_manager st]) @ [st_manager r]) q"
      using c Cons.prems(2) by (auto simp: list_all_iff intro: carries_mono)
  qed
  from Cons.IH [OF rest this] obtain new where
      new: "st_deltas st' = st_deltas r @ new"
      "list_all (delta_read X ((past @ [st_manager st]) @ managers_of (delta_prog X D) sched (u, r))) new"
    by blast
  have past: "past @ managers_of (delta_prog X D) (x # sched) (ts, st) =
      (past @ [st_manager st]) @ managers_of (delta_prog X D) sched (u, r)"
    using step by simp
  have "delta_read X (past @ managers_of (delta_prog X D) (x # sched) (ts, st)) d"
    if "delta_read X (past @ [st_manager st]) d" for d
    using that unfolding past delta_read_def by (rule read_before_mono) auto
  then show ?case using new c unfolding past by auto
qed

section \<open>Publications that exclude each other\<close>

fun publishing :: "delta_pc \<Rightarrow> bool" where
  "publishing (Dl_number symbol side price quantity) = True"
| "publishing (Dl_send d) = True"
| "publishing _ = False"

definition publish_alone :: "nat \<Rightarrow> delta_pc list \<Rightarrow> bool" where
  "publish_alone i ts \<longleftrightarrow> (\<forall>j < length ts. j \<noteq> i \<longrightarrow> \<not> publishing (ts ! j))"

text \<open>The numbers broadcast, followed by the one that is about to be, are increasing.\<close>

definition sent_in_order :: "delta_pc list \<Rightarrow> ('m, 'o) app_state \<Rightarrow> bool" where
  "sent_in_order ts st \<longleftrightarrow> (\<forall>symbol. issued_in_order
     (map de_sequence (deltas_of st symbol) @ concat (map (pending symbol) ts)) (current_sequence st symbol))"

lemma concat_alone:
  assumes "i < length ts" and "\<And>j. j < length ts \<Longrightarrow> j \<noteq> i \<Longrightarrow> f (ts ! j) = []"
  shows "concat (map f ts) = f (ts ! i)"
proof -
  have none: "concat (map f (take i ts)) = []" "concat (map f (drop (Suc i) ts)) = []"
    using assms by (auto simp: in_set_conv_nth)
  have "concat (map f ts) = concat (map f (take i ts)) @ f (ts ! i) @ concat (map f (drop (Suc i) ts))"
    by (subst id_take_nth_drop [OF assms(1)]) (simp only: map_append concat_append list.map concat.simps append_assoc)
  then show ?thesis by (simp only: none append_Nil append_Nil2)
qed

interpretation serial: pool_invariant "delta_prog X D" publish_alone sent_in_order
proof (unfold_locales, unfold sent_in_order_def, intro allI)
  fix ts i a p sy and st st' :: "('a, 'b) app_state"
  assume good: "\<forall>symbol. issued_in_order (map de_sequence (deltas_of st symbol) @ concat (map (pending symbol) ts))
      (current_sequence st symbol)"
    and i: "i < length ts" and may: "publish_alone i ts"
    and step: "delta_prog X D a (ts ! i) st = Some (p, st')"
  have quiet: "pending sy q = []" if "\<not> publishing q" for q using that by (cases q) auto
  have before: "concat (map (pending sy) ts) = pending sy (ts ! i)"
    using may quiet by (intro concat_alone [OF i]) (auto simp: publish_alone_def)
  have after: "concat (map (pending sy) (ts[i := p])) = pending sy p"
    using may quiet i concat_alone [of i "ts[i := p]" "pending sy"] by (auto simp: publish_alone_def)
  have now: "issued_in_order (map de_sequence (deltas_of st sy) @ pending sy (ts ! i)) (current_sequence st sy)"
    using good before by metis
  show "issued_in_order (map de_sequence (deltas_of st' sy) @ concat (map (pending sy) (ts[i := p])))
      (current_sequence st' sy)"
    unfolding after
    using delta_step_numbers [OF step, of sy] now issued_in_order_next
    by (auto simp: deltas_of_def)
qed

section \<open>Properties\<close>

abbreviation delta_pool :: "nat \<Rightarrow> 'm \<Rightarrow> (delta_pc, ('m, 'o) app_state) pool" where
  "delta_pool n m \<equiv> (replicate n Dl_idle, app_new m)"

lemma deltas_of_new [simp]: "st_deltas (app_new m) = []" "deltas_of (app_new m) sy = []"
  "current_sequence (app_new m) sy = 0"
  by (simp_all add: app_new_def deltas_of_def current_sequence_def)

lemma numbers_once_new: "numbers_once (replicate n Dl_idle) (app_new m)"
proof -
  have "sum_list (replicate n {#}) = ({#} :: u64 multiset)" by (induction n) simp_all
  then show ?thesis
    unfolding numbers_once_def
    by (intro allI exI [of _ "{}"] exI [of _ 0]) (simp add: numbers_out_def)
qed

lemma distinct_of_once:
  assumes "A \<subseteq> {..<m}" and "m \<le> 2 ^ 64"
    and "mset (xs :: u64 list) \<subseteq># image_mset word_of_nat (mset_set A)"
  shows "distinct xs"
proof -
  have "inj_on (word_of_nat :: nat \<Rightarrow> u64) A"
    using assms(1,2) by (intro inj_on_inverseI [of _ unat]) (auto simp: unsigned_of_nat take_bit_nat_eq_self)
  then have "image_mset word_of_nat (mset_set A) = mset_set ((word_of_nat :: nat \<Rightarrow> u64) ` A)"
    by (rule image_mset_mset_set)
  with assms(3) have "mset xs \<subseteq># mset_set ((word_of_nat :: nat \<Rightarrow> u64) ` A)" by simp
  then have "count (mset xs) x \<le> count (mset_set ((word_of_nat :: nat \<Rightarrow> u64) ` A)) x" for x
    by (rule mset_subset_eq_count)
  then have le: "count (mset xs) x \<le> 1" for x by (rule order_trans) (simp add: count_mset_set')
  have "count (mset xs) x = (if x \<in> set xs then 1 else 0)" for x
    using le [of x] count_greater_zero_iff [of "mset xs" x] count_eq_zero_iff [of "mset xs" x]
    by (auto simp del: count_mset count_greater_zero_iff count_eq_zero_iff)
  then show ?thesis unfolding distinct_count_atmost_1 by blast
qed


text \<open>When publications exclude each other the deltas of a symbol are sent in the order of their numbers.\<close>

lemma serial_deltas_in_order:
  assumes "pool_reach (delta_prog X D) publish_alone (delta_pool n m0) (ts, st)"
  shows "\<exists>seqs. issued_in_order (map de_sequence (deltas_of st symbol) @ seqs) (current_sequence st symbol)"
proof -
  have "sent_in_order (replicate n Dl_idle) (app_new m0)"
    by (simp add: sent_in_order_def concat_replicate_trivial map_replicate_const)
  from serial.reachable [OF assms this] show ?thesis
    by (auto simp: sent_in_order_def)
qed

section \<open>The stale delta\<close>

text \<open>
  One handler adds an order of five contracts and reads its level; another cancels the order and
  publishes the empty level; then the first takes its number and broadcasts. Nothing is left to
  do, the level is empty, and the last delta, with the last number, says five.
\<close>

definition place_five :: "demo_state \<Rightarrow> demo_state" where
  "place_five m = fst (x_add_tif demo_exchange (create_book demo_exchange m ''U'' (DateTime 0) 100)
     demo_call 0 BookBuy 150 5 BookGtc)"

definition cancel_five :: "demo_state \<Rightarrow> demo_state" where
  "cancel_five m = fst (x_cancel demo_exchange m demo_call 0)"

definition stale_schedule :: "(nat \<times> demo_state delta_input) list" where
  "stale_schedule = [(0, In_book place_five), (0, In_publish demo_call BookBuy 150), (0, In_go),
     (1, In_book cancel_five), (1, In_publish demo_call BookBuy 150), (1, In_go), (1, In_go), (1, In_go),
     (0, In_go), (0, In_go)]"

definition no_depth :: "demo_state book_depth" where
  "no_depth = (\<lambda>_ _ _. ([], []))"

definition five_delta :: "u64 \<Rightarrow> u64 \<Rightarrow> delta_event" where
  "five_delta n q = build_level_delta (option_symbol ''U'' ''20300101'' 100 OptCall) BookBuy 150 q n"

lemma place_five_run: "place_five demo_empty = demo_book"
  by (simp add: place_five_def create_book_def demo_fields demo_empty_def add_once_def demo_add_def demo_book_def)

lemma five_levels:
  "level_visible_quantity demo_exchange demo_book demo_call BookBuy 150 = 5"
  "level_visible_quantity demo_exchange (cancel_five demo_book) demo_call BookBuy 150 = 0"
  "x_symbol demo_exchange m demo_call = option_symbol ''U'' ''20300101'' 100 OptCall"
  by code_simp+

definition five_after :: "u64 \<Rightarrow> demo_state \<Rightarrow> delta_event list \<Rightarrow> (demo_state, nat) app_state" where
  "five_after k m ds = (app_new m)\<lparr>st_sequences :=
     (if k = 0 then [] else [(option_symbol ''U'' ''20300101'' 100 OptCall, k)]), st_deltas := ds\<rparr>"

lemma five_manager [simp]: "st_manager (five_after k m ds) = m"
  by (simp add: five_after_def st_manager_def app_new_def engine_new_def)

lemma five_set_manager [simp]: "set_manager m' (five_after k m ds) = five_after k m' ds"
  by (simp add: five_after_def set_manager_def app_new_def engine_new_def)

lemma five_next [simp]:
  "next_sequence (option_symbol ''U'' ''20300101'' 100 OptCall) (five_after 0 m ds) = (0, five_after 1 m ds)"
  "next_sequence (option_symbol ''U'' ''20300101'' 100 OptCall) (five_after 1 m ds) = (1, five_after 2 m ds)"
  by (simp_all add: five_after_def next_sequence_def Let_def app_new_def)

lemma five_send [simp]: "(five_after k m ds)\<lparr>st_deltas := ds'\<rparr> = five_after k m ds'"
  "st_deltas (five_after k m ds) = ds"
  by (simp_all add: five_after_def)

lemma stale_run:
  "pool_run (delta_prog demo_exchange no_depth) stale_schedule (delta_pool 2 demo_empty) =
     Some ([Dl_idle, Dl_idle], five_after 2 (cancel_five demo_book) [five_delta 0 0, five_delta 1 5])"
proof -
  have "app_new demo_empty = five_after 0 demo_empty []" by (simp add: five_after_def app_new_def)
  then show ?thesis
    by (simp add: stale_schedule_def pool_step_def numeral_2_eq_2 place_five_run five_levels five_delta_def)
qed

lemma stale_delta_numbered_last:
  "\<exists>sched ts st. pool_run (delta_prog demo_exchange no_depth) sched (delta_pool 2 demo_empty) = Some (ts, st)
     \<and> list_all (\<lambda>p. p = Dl_idle) ts
     \<and> level_visible_quantity demo_exchange (st_manager st) demo_call BookBuy 150 = 0
     \<and> (\<exists>before. st_deltas st = before @ [five_delta 1 5] \<and> list_all (\<lambda>d. de_sequence d < 1) before)"
  unfolding five_delta_def
  by (intro exI, rule conjI, rule stale_run)
    (simp add: five_levels five_delta_def build_level_delta_def)


end
