(* ===== verification/Engine_Threads.thy ===== *)
theory Engine_Threads
  imports Market_Maker Threads
begin

text \<open>
  The market-maker engine of \<open>src/src/market_maker/engine.rs\<close> driven by many threads: the price
  simulator, the handlers of the controls, and every handler that reports a fill. Each critical
  section of the source (one lock of \<open>config\<close>, \<open>prices\<close>, \<open>active_orders\<close> or \<open>instrument_orders\<close>), each call of
  the order-book library and each broadcast is a task; an operation is a list of tasks, where a task may
  put further ones in front of the rest, and between two tasks of a thread the others move. The
  results: a thread alone does what \<open>Market_Maker\<close> says of its operation; in every interleaving an
  order id that has left tracking never returns, so that a dangling id of the reverse index stays
  harmless; but a fill that clears the slot of an order already replaced leaves a live quote out of
  the index, and a requote under way survives the kill switch.
\<close>

section \<open>Tasks\<close>

record quote_job =
  qj_bid :: active_order
  qj_bid_price :: u128
  qj_ask :: active_order
  qj_ask_price :: u128
  qj_event :: mm_event

definition qj_key :: "quote_job \<Rightarrow> instrument_key" where
  "qj_key j = instrument_key_from_order (qj_bid j)"

definition qj_book :: "quote_job \<Rightarrow> book_key" where
  "qj_book j = (act_symbol (qj_bid j), act_expiration (qj_bid j), act_strike (qj_bid j), act_style (qj_bid j))"

datatype 'o engine_task =
    Tk_price string u64
  | Tk_emit mm_event
  | Tk_if_enabled string
  | Tk_if_symbol string
  | Tk_get_price string
  | Tk_get_config string u64
  | Tk_symbol string u64 mm_config
  | Tk_expiration requote_context
  | Tk_strike requote_context u64
  | Tk_quote requote_context u64 opt_style
  | Tk_stale quote_job
  | Tk_cancel_book book_key 'o
  | Tk_prune "'o list"
  | Tk_unindex instrument_key
  | Tk_bid quote_job
  | Tk_ask quote_job "'o option"
  | Tk_track 'o active_order
  | Tk_index instrument_key "'o legs"
  | Tk_config "mm_config \<Rightarrow> mm_config"
  | Tk_config_event
  | Tk_requote_all
  | Tk_collect "string option"
  | Tk_clear_index
  | Tk_cancel 'o
  | Tk_clear_slot instrument_key bool
  | Tk_cancel_order active_order 'o
  | Tk_gate 'o u128 u64
  | Tk_fill 'o u128 u64

text \<open>The orders and the event of one instrument, as \<open>update_quote\<close> builds them.\<close>

definition quote_job_of :: "requote_context \<Rightarrow> u64 \<Rightarrow> opt_style \<Rightarrow> quote_params \<Rightarrow> quote_job" where
  "quote_job_of ctx strike style q =
     (let symbol = rc_symbol ctx; e = rc_expiration ctx;
          instrument = option_symbol symbol (rc_exp_canonical ctx) strike style
      in \<lparr>qj_bid = \<lparr>act_symbol = symbol, act_expiration = e, act_instrument = instrument, act_strike = strike,
             act_style = style, act_is_buy = True, act_theo_cents = qp_theo_price q, act_resting = qp_bid_size q\<rparr>,
          qj_bid_price = qp_bid_price q,
          qj_ask = \<lparr>act_symbol = symbol, act_expiration = e, act_instrument = instrument, act_strike = strike,
             act_style = style, act_is_buy = False, act_theo_cents = qp_theo_price q, act_resting = qp_ask_size q\<rparr>,
          qj_ask_price = qp_ask_price q,
          qj_event = QuoteUpdated symbol (rc_exp_display ctx) strike (canonical_style style)
             (qp_bid_price q) (qp_ask_price q) (qp_bid_size q) (qp_ask_size q)\<rparr>)"

definition quote_input_of :: "requote_context \<Rightarrow> u64 \<Rightarrow> opt_style \<Rightarrow> quote_input" where
  "quote_input_of ctx strike style =
     \<lparr>qi_spot_cents = rc_spot_cents ctx, qi_strike_cents = strike, qi_expiration = rc_expiration ctx,
      qi_style = style, qi_spread_multiplier = cfg_spread_multiplier (rc_config ctx),
      qi_size_scalar = cfg_size_scalar (rc_config ctx),
      qi_directional_skew = cfg_directional_skew (rc_config ctx), qi_iv = None\<rparr>"

definition legs_list :: "'o legs \<Rightarrow> 'o list" where
  "legs_list s = (case fst s of Some i \<Rightarrow> [i] | None \<Rightarrow> []) @ (case snd s of Some i \<Rightarrow> [i] | None \<Rightarrow> [])"

text \<open>Adding one leg of a fresh quote to its book.\<close>

definition add_leg ::
  "('m, 'o) exchange \<Rightarrow> (nat \<Rightarrow> 'o) \<Rightarrow> active_order \<Rightarrow> u128 \<Rightarrow> ('m, 'o) venue \<Rightarrow> 'o option \<times> ('m, 'o) venue" where
  "add_leg X gen a price v =
     (let (oid, v) = new_order_id gen v;
          (m, r) = x_add_limit X (v_manager v) (act_symbol a, act_expiration a, act_strike a, act_style a) oid
                     (if act_is_buy a then BookBuy else BookSell) price (act_resting a)
      in (case r of Inl _ \<Rightarrow> None | Inr _ \<Rightarrow> Some oid, v\<lparr>v_manager := m\<rparr>))"

text \<open>The write section of \<open>on_order_filled\<close> and what follows it.\<close>

definition fill_event :: "('m, 'o) exchange \<Rightarrow> 'o \<Rightarrow> u128 \<Rightarrow> u64 \<Rightarrow> active_order \<Rightarrow> 'o engine_task list" where
  "fill_event X i price reported a =
     (if 2 ^ 64 \<le> uint price then []
      else [Tk_emit (OrderFilled (x_oid_str X i) (act_symbol a) (act_instrument a)
              (if act_is_buy a then ''buy'' else ''sell'') reported price
              (calculate_edge (ucast price) (act_theo_cents a) (act_is_buy a)))])"

text \<open>One task: what it does to the engine, and the tasks it puts in front of the rest.\<close>

fun run_task ::
  "('m, 'o) exchange \<Rightarrow> quoter \<Rightarrow> (nat \<Rightarrow> 'o) \<Rightarrow> 'o engine_task \<Rightarrow> ('m, 'o) venue
   \<Rightarrow> 'o engine_task list \<times> ('m, 'o) venue" where
  "run_task X qt gen (Tk_price symbol p) v = ([], v\<lparr>v_prices := dm_insert symbol p (v_prices v)\<rparr>)"
| "run_task X qt gen (Tk_emit e) v = ([], emit e v)"
| "run_task X qt gen (Tk_if_enabled symbol) v =
     (if cfg_enabled (v_config v) then [Tk_if_symbol symbol] else [], v)"
| "run_task X qt gen (Tk_if_symbol symbol) v =
     (if is_symbol_enabled v symbol then [Tk_get_price symbol] else [], v)"
| "run_task X qt gen (Tk_get_price symbol) v =
     (case dm_get (v_prices v) symbol of Some p \<Rightarrow> [Tk_get_config symbol p] | None \<Rightarrow> [], v)"
| "run_task X qt gen (Tk_get_config symbol p) v = ([Tk_symbol symbol p (v_config v)], v)"
| "run_task X qt gen (Tk_symbol symbol p config) v =
     (if x_get X (v_manager v) symbol = Inr ()
      then map (\<lambda>e. Tk_expiration \<lparr>rc_symbol = symbol, rc_expiration = e, rc_exp_display = x_exp_display X e,
             rc_exp_canonical = format_expiration X e, rc_spot_cents = p, rc_config = config\<rparr>)
           (x_expirations X (v_manager v) symbol)
      else [], v)"
| "run_task X qt gen (Tk_expiration ctx) v =
     (map (Tk_strike ctx) (x_strikes X (v_manager v) (rc_symbol ctx) (rc_expiration ctx)), v)"
| "run_task X qt gen (Tk_strike ctx strike) v =
     (if x_get_strike X (v_manager v) (rc_symbol ctx) (rc_expiration ctx) strike = Inr ()
      then [Tk_quote ctx strike OptCall, Tk_quote ctx strike OptPut] else [], v)"
| "run_task X qt gen (Tk_quote ctx strike style) v =
     (case generate_quote qt (quote_input_of ctx strike style) of
        None \<Rightarrow> []
      | Some q \<Rightarrow> if book_resolves X (v_manager v) (rc_symbol ctx) (rc_expiration ctx) strike
                  then [Tk_stale (quote_job_of ctx strike style q)] else [], v)"
| "run_task X qt gen (Tk_stale j) v =
     (let ids = legs_list (case dm_get (v_index v) (qj_key j) of Some s \<Rightarrow> s | None \<Rightarrow> (None, None))
      in (if ids = [] then [Tk_bid j]
          else map (Tk_cancel_book (qj_book j)) ids @ [Tk_prune ids, Tk_unindex (qj_key j), Tk_bid j], v))"
| "run_task X qt gen (Tk_cancel_book bk i) v =
     ([], v\<lparr>v_manager := fst (x_cancel X (v_manager v) bk i)\<rparr>)"
| "run_task X qt gen (Tk_prune ids) v = ([], v\<lparr>v_active := fold dm_remove ids (v_active v)\<rparr>)"
| "run_task X qt gen (Tk_unindex key) v = ([], v\<lparr>v_index := dm_remove key (v_index v)\<rparr>)"
| "run_task X qt gen (Tk_bid j) v =
     (let (r, v) = add_leg X gen (qj_bid j) (qj_bid_price j) v
      in ((case r of Some i \<Rightarrow> [Tk_track i (qj_bid j)] | None \<Rightarrow> []) @ [Tk_ask j r], v))"
| "run_task X qt gen (Tk_ask j bid) v =
     (let (r, v) = add_leg X gen (qj_ask j) (qj_ask_price j) v
      in ((case r of Some i \<Rightarrow> [Tk_track i (qj_ask j)] | None \<Rightarrow> [])
          @ (if bid = None \<and> r = None then [] else [Tk_index (qj_key j) (bid, r)]) @ [Tk_emit (qj_event j)], v))"
| "run_task X qt gen (Tk_track i a) v = ([], v\<lparr>v_active := dm_insert i a (v_active v)\<rparr>)"
| "run_task X qt gen (Tk_index key s) v = ([], v\<lparr>v_index := dm_insert key s (v_index v)\<rparr>)"
| "run_task X qt gen (Tk_config f) v = ([], v\<lparr>v_config := f (v_config v)\<rparr>)"
| "run_task X qt gen Tk_config_event v = ([], broadcast_config_change v)"
| "run_task X qt gen Tk_requote_all v = (map Tk_if_symbol (x_underlyings X (v_manager v)), v)"
| "run_task X qt gen (Tk_collect scope) v =
     (map (\<lambda>(i, _). Tk_cancel i)
        (filter (\<lambda>(_, a). case scope of None \<Rightarrow> True | Some symbol \<Rightarrow> act_symbol a = symbol) (v_active v)), v)"
| "run_task X qt gen Tk_clear_index v = ([], v\<lparr>v_index := []\<rparr>)"
| "run_task X qt gen (Tk_cancel i) v =
     (case dm_get (v_active v) i of
        None \<Rightarrow> ([], v)
      | Some a \<Rightarrow> ([Tk_clear_slot (instrument_key_from_order a) (act_is_buy a), Tk_cancel_order a i],
                   v\<lparr>v_active := dm_remove i (v_active v)\<rparr>))"
| "run_task X qt gen (Tk_clear_slot key is_buy) v = ([], clear_instrument_slot key is_buy v)"
| "run_task X qt gen (Tk_cancel_order a i) v =
     ([], if book_resolves X (v_manager v) (act_symbol a) (act_expiration a) (act_strike a)
          then v\<lparr>v_manager := fst (x_cancel X (v_manager v)
                   (act_symbol a, act_expiration a, act_strike a, act_style a) i)\<rparr>
          else v)"
| "run_task X qt gen (Tk_gate i price quantity) v =
     (if quantity \<noteq> 0 \<and> dm_get (v_active v) i \<noteq> None then [Tk_fill i price quantity] else [], v)"
| "run_task X qt gen (Tk_fill i price quantity) v =
     (case dm_get (v_active v) i of
        None \<Rightarrow> ([], v)
      | Some a \<Rightarrow>
          (let remaining = act_resting a; tail = fill_event X i price (min quantity remaining) a
           in if quantity \<ge> remaining
              then (Tk_clear_slot (instrument_key_from_order a) (act_is_buy a) # tail,
                    v\<lparr>v_active := dm_remove i (v_active v)\<rparr>)
              else (tail, v\<lparr>v_active := dm_insert i (a\<lparr>act_resting := remaining - quantity\<rparr>) (v_active v)\<rparr>)))"

text \<open>The operations of the engine, and the moves of a thread.\<close>

definition set_parameter :: "bool \<Rightarrow> (mm_config \<Rightarrow> mm_config) \<Rightarrow> 'o engine_task list" where
  "set_parameter fin f = (if \<not> fin then [] else [Tk_config f, Tk_config_event, Tk_requote_all])"

fun engine_call :: "'o mm_command \<Rightarrow> 'o engine_task list" where
  "engine_call (MmPrice symbol p) = [Tk_price symbol p, Tk_emit (PriceUpdated symbol p), Tk_if_enabled symbol]"
| "engine_call (MmEnable b) =
     Tk_config (\<lambda>c. c\<lparr>cfg_enabled := b\<rparr>) # (if \<not> b then [Tk_collect None, Tk_clear_index] else [])
       @ [Tk_config_event]"
| "engine_call (MmSymbol symbol b) =
     Tk_config (\<lambda>c. c\<lparr>cfg_symbol_enabled := dm_insert symbol b (cfg_symbol_enabled c)\<rparr>)
       # (if \<not> b then [Tk_collect (Some symbol)] else [])"
| "engine_call (MmSpread f) = set_parameter (f_is_finite f)
     (\<lambda>c. c\<lparr>cfg_spread_multiplier := f_clamp f spread_multiplier_min spread_multiplier_max\<rparr>)"
| "engine_call (MmSize f) = set_parameter (f_is_finite f)
     (\<lambda>c. c\<lparr>cfg_size_scalar := f_clamp f size_scalar_min size_scalar_max\<rparr>)"
| "engine_call (MmSkew f) = set_parameter (f_is_finite f)
     (\<lambda>c. c\<lparr>cfg_directional_skew := f_clamp f directional_skew_min directional_skew_max\<rparr>)"
| "engine_call (MmFilled i price quantity) = [Tk_gate i price quantity]"

text \<open>A thread between operations starts one, or changes the books as a handler does.\<close>

datatype ('m, 'o) engine_input = En_call "'o mm_command" | En_book "'m \<Rightarrow> 'm" | En_go

fun engine_prog ::
  "('m, 'o) exchange \<Rightarrow> quoter \<Rightarrow> (nat \<Rightarrow> 'o)
   \<Rightarrow> (('m, 'o) engine_input, 'o engine_task list, ('m, 'o) venue) program" where
  "engine_prog X qt gen (En_call c) [] v = Some (engine_call c, v)"
| "engine_prog X qt gen (En_book f) [] v = Some ([], v\<lparr>v_manager := f (v_manager v)\<rparr>)"
| "engine_prog X qt gen En_go (t # ts) v = (let (new, v) = run_task X qt gen t v in Some (new @ ts, v))"
| "engine_prog X qt gen _ _ v = None"

section \<open>A thread alone\<close>

definition runs_to ::
  "('m, 'o) exchange \<Rightarrow> quoter \<Rightarrow> (nat \<Rightarrow> 'o) \<Rightarrow> 'o engine_task list \<Rightarrow> ('m, 'o) venue \<Rightarrow> ('m, 'o) venue \<Rightarrow> bool" where
  "runs_to X qt gen ts v w \<longleftrightarrow>
     (\<forall>rest. \<exists>n. solo_run (engine_prog X qt gen) (replicate n En_go) (ts @ rest, v) = Some (rest, w))"

lemma runs_Nil: "runs_to X qt gen [] v v"
  by (simp add: runs_to_def) (metis replicate_0 solo_run.simps(1))

lemma runs_append:
  assumes "runs_to X qt gen ts v w" and "runs_to X qt gen us w u"
  shows "runs_to X qt gen (ts @ us) v u"
  unfolding runs_to_def
proof
  fix rest
  obtain n where n: "solo_run (engine_prog X qt gen) (replicate n En_go) (ts @ us @ rest, v) = Some (us @ rest, w)"
    using assms(1) by (auto simp: runs_to_def)
  obtain k where k: "solo_run (engine_prog X qt gen) (replicate k En_go) (us @ rest, w) = Some (rest, u)"
    using assms(2) by (auto simp: runs_to_def)
  from solo_run_trans [OF n k]
  show "\<exists>n. solo_run (engine_prog X qt gen) (replicate n En_go) ((ts @ us) @ rest, v) = Some (rest, u)"
    by (metis append_assoc replicate_add)
qed

lemma runs_task:
  assumes "run_task X qt gen t v = (new, w)" and "runs_to X qt gen new w u"
  shows "runs_to X qt gen [t] v u"
  unfolding runs_to_def
proof
  fix rest
  obtain n where "solo_run (engine_prog X qt gen) (replicate n En_go) (new @ rest, w) = Some (rest, u)"
    using assms(2) by (auto simp: runs_to_def)
  with assms(1) have "solo_run (engine_prog X qt gen) (replicate (Suc n) En_go) ([t] @ rest, v) = Some (rest, u)"
    by simp
  then show "\<exists>n. solo_run (engine_prog X qt gen) (replicate n En_go) ([t] @ rest, v) = Some (rest, u)" ..
qed

lemma runs_last: "run_task X qt gen t v = ([], w) \<Longrightarrow> runs_to X qt gen [t] v w"
  by (rule runs_task [OF _ runs_Nil])

lemma runs_Cons: "runs_to X qt gen [t] v w \<Longrightarrow> runs_to X qt gen ts w u \<Longrightarrow> runs_to X qt gen (t # ts) v u"
  using runs_append [of X qt gen "[t]"] by simp

lemma runs_map:
  assumes "\<And>x v. runs_to X qt gen [t x] v (f x v)"
  shows "runs_to X qt gen (map t xs) v (fold f xs v)"
  using assms by (induction xs arbitrary: v) (auto intro: runs_Nil runs_Cons)

lemma runs_cancel: "runs_to X qt gen [Tk_cancel i] v (cancel_order_mm X i v)"
proof (cases "dm_get (v_active v) i")
  case None
  then show ?thesis by (intro runs_last) (simp add: cancel_order_mm_def)
next
  case (Some a)
  let ?v = "v\<lparr>v_active := dm_remove i (v_active v)\<rparr>"
  let ?w = "clear_instrument_slot (instrument_key_from_order a) (act_is_buy a) ?v"
  have "run_task X qt gen (Tk_cancel i) v =
      ([Tk_clear_slot (instrument_key_from_order a) (act_is_buy a), Tk_cancel_order a i], ?v)"
    using Some by simp
  moreover have "runs_to X qt gen [Tk_clear_slot (instrument_key_from_order a) (act_is_buy a), Tk_cancel_order a i]
      ?v (cancel_order_mm X i v)"
    by (rule runs_Cons [of _ _ _ _ _ ?w]; rule runs_last) (simp_all add: Some cancel_order_mm_def Let_def)
  ultimately show ?thesis by (rule runs_task)
qed

lemma runs_cancels: "runs_to X qt gen (map Tk_cancel ids) v (fold (cancel_order_mm X) ids v)"
  by (rule runs_map) (rule runs_cancel)

lemma runs_collect:
  "runs_to X qt gen [Tk_collect scope] v
     (fold (cancel_order_mm X) (map fst (filter (\<lambda>(_, a). case scope of None \<Rightarrow> True
        | Some symbol \<Rightarrow> act_symbol a = symbol) (v_active v))) v)"
  by (rule runs_task [OF _ runs_cancels]) (simp add: case_prod_beta comp_def)

lemma runs_filled: "runs_to X qt gen [Tk_gate i price quantity] v (on_order_filled X i price quantity v)"
proof (cases "quantity \<noteq> 0 \<and> dm_get (v_active v) i \<noteq> None")
  case False
  then show ?thesis by (intro runs_last) (auto simp: on_order_filled_def split: option.splits)
next
  case True
  then obtain a where a: "dm_get (v_active v) i = Some a" by auto
  have tail: "runs_to X qt gen (fill_event X i price q a) w
      (if 2 ^ 64 \<le> uint price then w
       else emit (OrderFilled (x_oid_str X i) (act_symbol a) (act_instrument a)
              (if act_is_buy a then ''buy'' else ''sell'') q price
              (calculate_edge (ucast price) (act_theo_cents a) (act_is_buy a))) w)" for q w
    by (simp add: fill_event_def runs_Nil runs_last)
  have "runs_to X qt gen [Tk_fill i price quantity] v (on_order_filled X i price quantity v)"
  proof (cases "act_resting a \<le> quantity")
    case full: True
    have "run_task X qt gen (Tk_fill i price quantity) v =
        (Tk_clear_slot (instrument_key_from_order a) (act_is_buy a)
           # fill_event X i price (min quantity (act_resting a)) a, v\<lparr>v_active := dm_remove i (v_active v)\<rparr>)"
      using a full by (simp add: Let_def)
    moreover have "runs_to X qt gen (Tk_clear_slot (instrument_key_from_order a) (act_is_buy a)
        # fill_event X i price (min quantity (act_resting a)) a) (v\<lparr>v_active := dm_remove i (v_active v)\<rparr>)
        (on_order_filled X i price quantity v)"
      by (rule runs_Cons [OF runs_last], simp)
        (use True in \<open>simp only: on_order_filled_def Let_def tail a full if_True if_False option.case simp_thms\<close>)
    ultimately show ?thesis by (rule runs_task)
  next
    case part: False
    have "run_task X qt gen (Tk_fill i price quantity) v = (fill_event X i price (min quantity (act_resting a)) a,
        v\<lparr>v_active := dm_insert i (a\<lparr>act_resting := act_resting a - quantity\<rparr>) (v_active v)\<rparr>)"
      using a part by (simp add: Let_def)
    moreover have "runs_to X qt gen (fill_event X i price (min quantity (act_resting a)) a)
        (v\<lparr>v_active := dm_insert i (a\<lparr>act_resting := act_resting a - quantity\<rparr>) (v_active v)\<rparr>)
        (on_order_filled X i price quantity v)"
      using True by (simp only: on_order_filled_def Let_def tail a part if_True if_False option.case simp_thms)
    ultimately show ?thesis by (rule runs_task)
  qed
  with True show ?thesis by (intro runs_task [of X qt gen "Tk_gate i price quantity" v]) auto
qed

lemma runs_books:
  "runs_to X qt gen (map (Tk_cancel_book bk) ids) v
     (v\<lparr>v_manager := fold (\<lambda>i m. fst (x_cancel X m bk i)) ids (v_manager v)\<rparr>)"
proof (induction ids arbitrary: v)
  case Nil
  then show ?case by (simp add: runs_Nil)
next
  case (Cons i ids)
  have "runs_to X qt gen [Tk_cancel_book bk i] v (v\<lparr>v_manager := fst (x_cancel X (v_manager v) bk i)\<rparr>)"
    by (rule runs_last) simp
  from runs_Cons [OF this Cons.IH] show ?case by simp
qed

lemma place_leg_add:
  "place_leg X gen a price v =
     (let (r, w) = add_leg X gen a price v
      in (case r of Some i \<Rightarrow> w\<lparr>v_active := dm_insert i a (v_active w)\<rparr> | None \<Rightarrow> w, r))"
  by (simp add: place_leg_def add_leg_def Let_def case_prod_beta split: sum.split)

text \<open>From the lookup of the stale orders on: what \<open>update_quote\<close> does with a quote.\<close>

definition requote_job :: "('m, 'o) exchange \<Rightarrow> (nat \<Rightarrow> 'o) \<Rightarrow> quote_job \<Rightarrow> ('m, 'o) venue \<Rightarrow> ('m, 'o) venue" where
  "requote_job X gen j v =
     (let v = cancel_stale X (qj_book j) (qj_key j) v;
          (v, bid) = place_leg X gen (qj_bid j) (qj_bid_price j) v;
          (v, ask) = place_leg X gen (qj_ask j) (qj_ask_price j) v
      in emit (qj_event j) (record_legs (qj_key j) bid ask v))"

lemma runs_ask:
  "runs_to X qt gen [Tk_ask j bid] v
     (let (w, ask) = place_leg X gen (qj_ask j) (qj_ask_price j) v
      in emit (qj_event j) (record_legs (qj_key j) bid ask w))"
proof -
  obtain r w where add: "add_leg X gen (qj_ask j) (qj_ask_price j) v = (r, w)" by fastforce
  let ?w = "case r of Some i \<Rightarrow> w\<lparr>v_active := dm_insert i (qj_ask j) (v_active w)\<rparr> | None \<Rightarrow> w"
  have "runs_to X qt gen (case r of Some i \<Rightarrow> [Tk_track i (qj_ask j)] | None \<Rightarrow> []) w ?w"
    by (auto intro: runs_Nil runs_last split: option.split)
  moreover have "runs_to X qt gen (if bid = None \<and> r = None then [] else [Tk_index (qj_key j) (bid, r)]) ?w
      (record_legs (qj_key j) bid r ?w)"
    by (simp only: record_legs_def split: if_split) (auto intro: runs_Nil runs_last)
  moreover have "runs_to X qt gen [Tk_emit (qj_event j)] (record_legs (qj_key j) bid r ?w)
      (emit (qj_event j) (record_legs (qj_key j) bid r ?w))"
    by (rule runs_last) simp
  ultimately have "runs_to X qt gen ((case r of Some i \<Rightarrow> [Tk_track i (qj_ask j)] | None \<Rightarrow> [])
      @ (if bid = None \<and> r = None then [] else [Tk_index (qj_key j) (bid, r)]) @ [Tk_emit (qj_event j)]) w
      (emit (qj_event j) (record_legs (qj_key j) bid r ?w))"
    by (meson runs_append)
  then have "runs_to X qt gen [Tk_ask j bid] v (emit (qj_event j) (record_legs (qj_key j) bid r ?w))"
    by (intro runs_task) (simp_all add: add)
  then show ?thesis by (simp only: place_leg_add add Let_def prod.case)
qed

lemma runs_bid:
  "runs_to X qt gen [Tk_bid j] v
     (let (v, bid) = place_leg X gen (qj_bid j) (qj_bid_price j) v;
          (w, ask) = place_leg X gen (qj_ask j) (qj_ask_price j) v
      in emit (qj_event j) (record_legs (qj_key j) bid ask w))"
proof -
  obtain r w where add: "add_leg X gen (qj_bid j) (qj_bid_price j) v = (r, w)" by fastforce
  let ?w = "case r of Some i \<Rightarrow> w\<lparr>v_active := dm_insert i (qj_bid j) (v_active w)\<rparr> | None \<Rightarrow> w"
  have "runs_to X qt gen (case r of Some i \<Rightarrow> [Tk_track i (qj_bid j)] | None \<Rightarrow> []) w ?w"
    by (auto intro: runs_Nil runs_last split: option.split)
  from runs_append [OF this runs_ask]
  have "runs_to X qt gen ((case r of Some i \<Rightarrow> [Tk_track i (qj_bid j)] | None \<Rightarrow> []) @ [Tk_ask j r]) w
     (let (w, ask) = place_leg X gen (qj_ask j) (qj_ask_price j) ?w
      in emit (qj_event j) (record_legs (qj_key j) r ask w))" .
  then have "runs_to X qt gen [Tk_bid j] v (let (w, ask) = place_leg X gen (qj_ask j) (qj_ask_price j) ?w
      in emit (qj_event j) (record_legs (qj_key j) r ask w))"
    by (intro runs_task) (simp_all add: add)
  then show ?thesis by (simp only: place_leg_add [of X gen "qj_bid j"] add Let_def prod.case)
qed

lemma runs_stale: "runs_to X qt gen [Tk_stale j] v (requote_job X gen j v)"
proof -
  define ids where "ids = legs_list (case dm_get (v_index v) (qj_key j) of Some s \<Rightarrow> s | None \<Rightarrow> (None, None))"
  have seq: "cancel_stale X (qj_book j) (qj_key j) v =
      (if ids = [] then v
       else v\<lparr>v_manager := fold (\<lambda>i m. fst (x_cancel X m (qj_book j) i)) ids (v_manager v),
              v_active := fold dm_remove ids (v_active v), v_index := dm_remove (qj_key j) (v_index v)\<rparr>)"
    by (simp add: cancel_stale_def Let_def ids_def legs_list_def)
  have step: "run_task X qt gen (Tk_stale j) v = (if ids = [] then [Tk_bid j]
      else map (Tk_cancel_book (qj_book j)) ids @ [Tk_prune ids, Tk_unindex (qj_key j), Tk_bid j], v)"
    by (simp only: run_task.simps Let_def ids_def)
  have "runs_to X qt gen (fst (run_task X qt gen (Tk_stale j) v)) v (requote_job X gen j v)"
  proof (cases "ids = []")
    case True
    have "requote_job X gen j v =
        (let (v, bid) = place_leg X gen (qj_bid j) (qj_bid_price j) v;
             (w, ask) = place_leg X gen (qj_ask j) (qj_ask_price j) v
         in emit (qj_event j) (record_legs (qj_key j) bid ask w))"
      unfolding requote_job_def seq if_P [OF True] by (simp only: Let_def)
    then show ?thesis unfolding step if_P [OF True] fst_conv by (simp only: runs_bid)
  next
    case False
    let ?m = "v\<lparr>v_manager := fold (\<lambda>i m. fst (x_cancel X m (qj_book j) i)) ids (v_manager v)\<rparr>"
    let ?a = "?m\<lparr>v_active := fold dm_remove ids (v_active ?m)\<rparr>"
    let ?i = "?a\<lparr>v_index := dm_remove (qj_key j) (v_index ?a)\<rparr>"
    have "runs_to X qt gen [Tk_prune ids, Tk_unindex (qj_key j), Tk_bid j] ?m (requote_job X gen j v)"
    proof (rule runs_Cons [of _ _ _ _ _ ?a])
      show "runs_to X qt gen [Tk_prune ids] ?m ?a" by (rule runs_last) simp
      have "runs_to X qt gen [Tk_unindex (qj_key j)] ?a ?i" by (rule runs_last) simp
      moreover have "requote_job X gen j v =
          (let (v, bid) = place_leg X gen (qj_bid j) (qj_bid_price j) ?i;
               (w, ask) = place_leg X gen (qj_ask j) (qj_ask_price j) v
           in emit (qj_event j) (record_legs (qj_key j) bid ask w))"
        using False seq by (simp add: requote_job_def Let_def)
      ultimately show "runs_to X qt gen [Tk_unindex (qj_key j), Tk_bid j] ?a (requote_job X gen j v)"
        using runs_bid [of X qt gen j ?i] by (simp only: runs_Cons)
    qed
    from runs_append [OF runs_books this] show ?thesis unfolding step if_not_P [OF False] fst_conv .
  qed
  then show ?thesis by (intro runs_task) (simp_all only: step fst_conv)
qed

lemma update_quote_job:
  "update_quote X qt gen ctx strike style v =
     (case generate_quote qt (quote_input_of ctx strike style) of
        None \<Rightarrow> v
      | Some q \<Rightarrow> if book_resolves X (v_manager v) (rc_symbol ctx) (rc_expiration ctx) strike
                  then requote_job X gen (quote_job_of ctx strike style q) v else v)"
  by (simp only: update_quote_def quote_input_of_def requote_job_def quote_job_of_def record_legs_def
      qj_key_def qj_book_def instrument_key_new_def instrument_key_from_order_def Let_def
      quote_job.select_convs active_order.select_convs)

lemma runs_quote: "runs_to X qt gen [Tk_quote ctx strike style] v (update_quote X qt gen ctx strike style v)"
proof (cases "generate_quote qt (quote_input_of ctx strike style)")
  case None
  then show ?thesis by (intro runs_last) (simp add: update_quote_job)
next
  case (Some q)
  show ?thesis
  proof (cases "book_resolves X (v_manager v) (rc_symbol ctx) (rc_expiration ctx) strike")
    case True
    with Some have "run_task X qt gen (Tk_quote ctx strike style) v = ([Tk_stale (quote_job_of ctx strike style q)], v)"
      by simp
    from runs_task [OF this runs_stale] Some True show ?thesis by (simp add: update_quote_job)
  next
    case False
    with Some show ?thesis by (intro runs_last) (simp add: update_quote_job)
  qed
qed

lemma runs_strike: "runs_to X qt gen [Tk_strike ctx strike] v (requote_strike X qt gen ctx strike v)"
proof (cases "x_get_strike X (v_manager v) (rc_symbol ctx) (rc_expiration ctx) strike = Inr ()")
  case True
  then have "run_task X qt gen (Tk_strike ctx strike) v = (map (Tk_quote ctx strike) [OptCall, OptPut], v)"
    by simp
  from runs_task [OF this runs_map [OF runs_quote]] True show ?thesis by (simp add: requote_strike_def)
next
  case False
  then show ?thesis by (intro runs_last) (simp add: requote_strike_def)
qed

lemma runs_expiration:
  "runs_to X qt gen [Tk_expiration \<lparr>rc_symbol = symbol, rc_expiration = e, rc_exp_display = x_exp_display X e,
      rc_exp_canonical = format_expiration X e, rc_spot_cents = p, rc_config = config\<rparr>] v
     (requote_expiration X qt gen symbol p config e v)"
  unfolding requote_expiration_def Let_def
  by (rule runs_task [OF _ runs_map [OF runs_strike]]) simp

lemma runs_symbol: "runs_to X qt gen [Tk_get_price symbol] v (requote_symbol X qt gen symbol v)"
proof (cases "dm_get (v_prices v) symbol")
  case None
  then show ?thesis by (intro runs_last) (simp add: requote_symbol_def)
next
  case (Some p)
  have "runs_to X qt gen [Tk_symbol symbol p (v_config v)] v (requote_symbol X qt gen symbol v)"
  proof (cases "x_get X (v_manager v) symbol = Inr ()")
    case True
    have "runs_to X qt gen [Tk_symbol symbol p (v_config v)] v
        (fold (requote_expiration X qt gen symbol p (v_config v)) (x_expirations X (v_manager v) symbol) v)"
      by (rule runs_task [OF _ runs_map [OF runs_expiration]]) (simp add: True)
    with Some True show ?thesis by (simp add: requote_symbol_def)
  next
    case False
    with Some show ?thesis by (intro runs_last) (simp add: requote_symbol_def)
  qed
  then have "runs_to X qt gen [Tk_get_config symbol p] v (requote_symbol X qt gen symbol v)"
    by (intro runs_task) simp_all
  with Some show ?thesis by (intro runs_task [of _ _ _ "Tk_get_price symbol"]) simp_all
qed

lemma runs_if_symbol: "runs_to X qt gen [Tk_if_symbol symbol] v (requote_if_enabled X qt gen symbol v)"
  unfolding requote_if_enabled_def
  by (rule runs_task [where new = "if is_symbol_enabled v symbol then [Tk_get_price symbol] else []" and w = v])
    (simp_all add: runs_symbol runs_Nil)

lemma runs_all: "runs_to X qt gen [Tk_requote_all] v (requote_all X qt gen v)"
  unfolding requote_all_def by (rule runs_task [OF _ runs_map [OF runs_if_symbol]]) simp

lemma runs_price: "runs_to X qt gen (engine_call (MmPrice symbol p)) v (update_price X qt gen symbol p v)"
proof -
  let ?v = "v\<lparr>v_prices := dm_insert symbol p (v_prices v)\<rparr>"
  let ?w = "emit (PriceUpdated symbol p) ?v"
  have "runs_to X qt gen [Tk_if_enabled symbol] ?w
      (if cfg_enabled (v_config ?w) then requote_if_enabled X qt gen symbol ?w else ?w)"
    by (rule runs_task [where new = "if cfg_enabled (v_config ?w) then [Tk_if_symbol symbol] else []" and w = ?w])
      (simp_all add: runs_if_symbol runs_Nil)
  then have "runs_to X qt gen [Tk_if_enabled symbol] ?w (update_price X qt gen symbol p v)"
    by (simp add: update_price_def Let_def requote_if_enabled_def split: if_splits)
  from runs_Cons [OF runs_last runs_Cons [OF runs_last this]] show ?thesis by simp
qed

lemma runs_enable: "runs_to X qt gen (engine_call (MmEnable b)) v (set_enabled X b v)"
proof -
  let ?v = "v\<lparr>v_config := (v_config v)\<lparr>cfg_enabled := b\<rparr>\<rparr>"
  have "runs_to X qt gen [Tk_clear_index] w (w\<lparr>v_index := []\<rparr>)" for w by (rule runs_last) simp
  from runs_Cons [OF runs_collect [of X qt gen None ?v] this]
  have "runs_to X qt gen (if \<not> b then [Tk_collect None, Tk_clear_index] else []) ?v
      (if \<not> b then cancel_all_mm X ?v else ?v)"
    by (cases b) (simp_all add: runs_Nil cancel_all_mm_def Let_def)
  note both = runs_append [OF this, of "[Tk_config_event]"]
  have "runs_to X qt gen ((if \<not> b then [Tk_collect None, Tk_clear_index] else []) @ [Tk_config_event]) ?v
      (set_enabled X b v)"
    unfolding set_enabled_def Let_def by (rule both) (rule runs_last, simp)
  from runs_Cons [OF runs_last this] show ?thesis by simp
qed

lemma runs_symbol_switch: "runs_to X qt gen (engine_call (MmSymbol symbol b)) v (set_symbol_enabled X symbol b v)"
proof -
  let ?v = "v\<lparr>v_config := (v_config v)\<lparr>cfg_symbol_enabled :=
    dm_insert symbol b (cfg_symbol_enabled (v_config v))\<rparr>\<rparr>"
  have "runs_to X qt gen (if \<not> b then [Tk_collect (Some symbol)] else []) ?v (set_symbol_enabled X symbol b v)"
    using runs_collect [of X qt gen "Some symbol" ?v]
    by (cases b) (simp_all add: set_symbol_enabled_def cancel_symbol_orders_def Let_def runs_Nil)
  from runs_Cons [OF runs_last this] show ?thesis by simp
qed

lemma runs_parameter:
  "runs_to X qt gen (set_parameter fin f) v
     (if \<not> fin then v else requote_all X qt gen (broadcast_config_change (v\<lparr>v_config := f (v_config v)\<rparr>)))"
proof (cases fin)
  case True
  from runs_Cons [OF runs_last runs_Cons [OF runs_last runs_all [of X qt gen
      "broadcast_config_change (v\<lparr>v_config := f (v_config v)\<rparr>)"]]] True
  show ?thesis by (simp add: set_parameter_def)
next
  case False
  then show ?thesis by (simp add: set_parameter_def runs_Nil)
qed

lemma runs_command: "runs_to X qt gen (engine_call c) v (mm_exec X qt gen c v)"
proof (cases c)
  case (MmSpread f)
  show ?thesis unfolding MmSpread engine_call.simps mm_exec.simps set_spread_multiplier_def
    by (rule runs_parameter [where f = "\<lambda>c. c\<lparr>cfg_spread_multiplier :=
      f_clamp f spread_multiplier_min spread_multiplier_max\<rparr>"])
next
  case (MmSize f)
  show ?thesis unfolding MmSize engine_call.simps mm_exec.simps set_size_scalar_def
    by (rule runs_parameter [where f = "\<lambda>c. c\<lparr>cfg_size_scalar := f_clamp f size_scalar_min size_scalar_max\<rparr>"])
next
  case (MmSkew f)
  show ?thesis unfolding MmSkew engine_call.simps mm_exec.simps set_directional_skew_def
    by (rule runs_parameter [where f = "\<lambda>c. c\<lparr>cfg_directional_skew :=
      f_clamp f directional_skew_min directional_skew_max\<rparr>"])
next
  case (MmFilled i price quantity)
  show ?thesis unfolding MmFilled engine_call.simps mm_exec.simps by (rule runs_filled)
next
  case (MmPrice symbol p)
  show ?thesis unfolding MmPrice mm_exec.simps by (rule runs_price)
next
  case (MmEnable b)
  show ?thesis unfolding MmEnable mm_exec.simps by (rule runs_enable)
next
  case (MmSymbol symbol b)
  show ?thesis unfolding MmSymbol mm_exec.simps by (rule runs_symbol_switch)
qed

section \<open>Ids that are gone\<close>

text \<open>
  An order is put into tracking right after its book accepted it: a thread that is about to do so
  has that task at the head of its list. An id is gone when it was issued, is not tracked, and
  no thread is about to track it.
\<close>

definition about_to_track :: "'o engine_task list \<Rightarrow> 'o option" where
  "about_to_track ts = (case ts of Tk_track i a # _ \<Rightarrow> Some i | _ \<Rightarrow> None)"

definition issued_id :: "(nat \<Rightarrow> 'o) \<Rightarrow> ('m, 'o) venue \<Rightarrow> 'o \<Rightarrow> bool" where
  "issued_id gen v i \<longleftrightarrow> (\<exists>n < v_next_id v. i = gen n)"

definition gone :: "(nat \<Rightarrow> 'o) \<Rightarrow> 'o engine_task list list \<Rightarrow> ('m, 'o) venue \<Rightarrow> 'o \<Rightarrow> bool" where
  "gone gen ts v i \<longleftrightarrow> issued_id gen v i \<and> dm_get (v_active v) i = None
     \<and> (\<forall>p \<in> set ts. about_to_track p \<noteq> Some i)"

lemma add_leg_frame [simp]:
  "v_active (snd (add_leg X gen a p v)) = v_active v" "v_index (snd (add_leg X gen a p v)) = v_index v"
  "v_next_id (snd (add_leg X gen a p v)) = Suc (v_next_id v)"
  by (auto simp: add_leg_def new_order_id_def Let_def split: prod.splits sum.splits)

lemma add_leg_id: "fst (add_leg X gen a p v) = Some i \<Longrightarrow> i = gen (v_next_id v)"
  by (auto simp: add_leg_def new_order_id_def Let_def split: prod.splits sum.splits)

text \<open>The ids the index holds, and those a thread is about to put there.\<close>

definition leg_ids :: "'o legs \<Rightarrow> 'o set" where
  "leg_ids s = set_option (fst s) \<union> set_option (snd s)"

definition index_ids :: "('m, 'o) venue \<Rightarrow> 'o set" where
  "index_ids v = (\<Union>s \<in> ran (dm_get (v_index v)). leg_ids s)"

fun task_ids :: "'o engine_task \<Rightarrow> 'o set" where
  "task_ids (Tk_index key s) = leg_ids s"
| "task_ids (Tk_ask j bid) = set_option bid"
| "task_ids _ = {}"

definition thread_ids :: "'o engine_task list \<Rightarrow> 'o set" where
  "thread_ids ts = (\<Union>t \<in> set ts. task_ids t)"

fun draws_id :: "'o engine_task \<Rightarrow> bool" where
  "draws_id (Tk_bid j) = True"
| "draws_id (Tk_ask j bid) = True"
| "draws_id _ = False"

fun tracks :: "'o engine_task \<Rightarrow> bool" where
  "tracks (Tk_track i a) = True"
| "tracks _ = False"

lemma index_ids_simps [simp]:
  "index_ids (v\<lparr>v_manager := m\<rparr>) = index_ids v" "index_ids (v\<lparr>v_active := a\<rparr>) = index_ids v"
  "index_ids (v\<lparr>v_prices := p\<rparr>) = index_ids v" "index_ids (v\<lparr>v_config := c\<rparr>) = index_ids v"
  "index_ids (emit e v) = index_ids v" "index_ids (broadcast_config_change v) = index_ids v"
  "index_ids (v\<lparr>v_index := []\<rparr>) = {}"
  by (simp_all add: index_ids_def broadcast_config_change_def Let_def)

lemma index_ids_insert: "index_ids (v\<lparr>v_index := dm_insert key s (v_index v)\<rparr>) \<subseteq> index_ids v \<union> leg_ids s"
proof -
  have "ran ((dm_get (v_index v))(key \<mapsto> s)) \<subseteq> insert s (ran (dm_get (v_index v)))"
    unfolding ran_def by (auto split: if_splits)
  then show ?thesis by (auto simp: index_ids_def dm_get_insert simp del: fun_upd_apply)
qed

lemma index_ids_remove: "index_ids (v\<lparr>v_index := dm_remove key (v_index v)\<rparr>) \<subseteq> index_ids v"
proof -
  have "ran ((dm_get (v_index v))(key := None)) \<subseteq> ran (dm_get (v_index v))"
    unfolding ran_def by (auto split: if_splits)
  then show ?thesis by (auto simp: index_ids_def dm_get_remove simp del: fun_upd_apply)
qed

lemma index_ids_clear: "index_ids (clear_instrument_slot key b v) \<subseteq> index_ids v"
proof (cases "dm_get (v_index v) key")
  case (Some s)
  then have "leg_ids (set_leg b None s) \<subseteq> index_ids v"
    using ranI [of "dm_get (v_index v)" key s] by (auto simp: index_ids_def set_leg_def leg_ids_def split: if_splits)
  with Some show ?thesis
    using index_ids_insert [where v = v and key = key and s = "set_leg b None s"]
      index_ids_remove [where v = v and key = key]
    by (auto simp: clear_instrument_slot_def Let_def)
qed (simp add: clear_instrument_slot_def)

lemma index_ids_add_leg [simp]: "index_ids (snd (add_leg X gen a p v)) = index_ids v"
  by (simp add: index_ids_def)

lemma index_ids_prune [simp]: "ran (dm_get []) = {}"
  by simp

text \<open>What a task does to ids.\<close>

lemma task_next_id:
  assumes "run_task X qt gen t v = (new, w)"
  shows "v_next_id w = (if draws_id t then Suc (v_next_id v) else v_next_id v)"
  using assms
  by (cases t) (auto simp: Let_def case_prod_beta broadcast_config_change_def split: if_splits option.splits)

lemma task_tracked:
  assumes "run_task X qt gen t v = (new, w)" and "dm_get (v_active w) i \<noteq> None"
  shows "dm_get (v_active v) i \<noteq> None \<or> (\<exists>a. t = Tk_track i a)"
  using assms
  by (cases t) (auto simp: Let_def case_prod_beta broadcast_config_change_def dm_get_insert dm_get_remove fold_dm_remove
      split: if_splits option.splits)

lemma task_index:
  assumes "run_task X qt gen t v = (new, w)"
  shows "index_ids w \<subseteq> index_ids v \<union> task_ids t"
  using assms
  by (cases t) (auto simp: Let_def case_prod_beta split: if_splits option.splits
      dest: index_ids_insert [THEN subsetD] index_ids_remove [THEN subsetD] index_ids_clear [THEN subsetD])

text \<open>The tasks it puts in front.\<close>

lemma fill_event_shape: "fill_event X i price q a = [] \<or> (\<exists>e. fill_event X i price q a = [Tk_emit e])"
  by (simp add: fill_event_def)

lemma task_new_ids:
  assumes "run_task X qt gen t v = (new, w)"
  shows "thread_ids new \<subseteq> task_ids t \<union> (if draws_id t then {gen (v_next_id v)} else {})"
proof (cases "draws_id t")
  case True
  then show ?thesis
    using assms
    by (cases t) (auto simp: Let_def case_prod_beta thread_ids_def leg_ids_def dest!: add_leg_id split: option.splits if_splits)
next
  case False
  then show ?thesis
    using assms fill_event_shape
    by (cases t) (auto simp: Let_def case_prod_beta thread_ids_def fill_event_def split: if_splits option.splits)
qed

lemma task_new_tracks:
  assumes "run_task X qt gen t v = (new, w)"
  shows "if draws_id t then \<not> list_ex tracks (tl new) \<and> about_to_track new \<in> {None, Some (gen (v_next_id v))}
    else \<not> list_ex tracks new"
proof (cases "draws_id t")
  case True
  then show ?thesis
    using assms
    by (cases t) (auto simp: Let_def case_prod_beta about_to_track_def dest!: add_leg_id split: option.splits if_splits)
next
  case False
  then show ?thesis
    using assms
    by (cases t) (auto simp: Let_def case_prod_beta list_ex_iff fill_event_def split: if_splits option.splits)
qed

definition draws_now :: "(nat \<Rightarrow> 'o) \<Rightarrow> ('m, 'o) venue \<Rightarrow> ('m, 'o) venue \<Rightarrow> 'o \<Rightarrow> bool" where
  "draws_now gen v w i \<longleftrightarrow> i = gen (v_next_id v) \<and> v_next_id w = Suc (v_next_id v)"

lemma call_no_ids: "\<not> list_ex tracks (engine_call c)" "thread_ids (engine_call c) = {}"
  by (cases c; auto simp: set_parameter_def thread_ids_def list_ex_iff)+

lemma no_tracks_about: "\<not> list_ex tracks ts \<Longrightarrow> about_to_track ts = None"
  by (cases ts) (auto simp: about_to_track_def split: engine_task.split)

lemma about_append: "new \<noteq> [] \<Longrightarrow> about_to_track (new @ rest) = about_to_track new"
  by (cases new) (auto simp: about_to_track_def)

lemma list_ex_tl: "\<not> list_ex P ts \<Longrightarrow> \<not> list_ex P (tl ts)"
  by (cases ts) auto

lemma engine_step:
  assumes step: "engine_prog X qt gen a p v = Some (q, w)" and first: "\<not> list_ex tracks (tl p)"
  shows "v_next_id v \<le> v_next_id w" and "\<not> list_ex tracks (tl q)"
    and "dm_get (v_active w) i \<noteq> None \<Longrightarrow> dm_get (v_active v) i \<noteq> None \<or> about_to_track p = Some i"
    and "index_ids w \<subseteq> index_ids v \<union> thread_ids p"
    and "i \<in> thread_ids q \<Longrightarrow> i \<in> thread_ids p \<or> draws_now gen v w i"
    and "about_to_track q = Some i \<Longrightarrow> draws_now gen v w i"
proof -
  consider (call) c where "p = []" "q = engine_call c" "w = v"
    | (book) f where "p = []" "q = []" "w = v\<lparr>v_manager := f (v_manager v)\<rparr>"
    | (task) t rest new where "p = t # rest" "q = new @ rest" "run_task X qt gen t v = (new, w)"
    using step by (cases p; cases a) (auto split: prod.splits)
  then have "v_next_id v \<le> v_next_id w \<and> \<not> list_ex tracks (tl q)
    \<and> (dm_get (v_active w) i \<noteq> None \<longrightarrow> dm_get (v_active v) i \<noteq> None \<or> about_to_track p = Some i)
    \<and> index_ids w \<subseteq> index_ids v \<union> thread_ids p
    \<and> (i \<in> thread_ids q \<longrightarrow> i \<in> thread_ids p \<or> draws_now gen v w i)
    \<and> (about_to_track q = Some i \<longrightarrow> draws_now gen v w i)"
  proof cases
    case (call c)
    then show ?thesis
      using call_no_ids [of c] no_tracks_about [of "engine_call c"] by (simp add: list_ex_tl)
  next
    case (book f)
    then show ?thesis by (simp add: thread_ids_def about_to_track_def)
  next
    case (task t rest new)
    note facts = task_next_id [OF task(3)] task_tracked [OF task(3), of i] task_index [OF task(3)]
      task_new_ids [OF task(3)] task_new_tracks [OF task(3)]
    have rest: "\<not> list_ex tracks rest" using first task(1) by simp
    have ids: "thread_ids q = thread_ids new \<union> thread_ids rest" "thread_ids p = task_ids t \<union> thread_ids rest"
      by (auto simp: task thread_ids_def)
    have tl: "\<not> list_ex tracks (tl q)"
      using facts(5) rest list_ex_tl [OF rest] list_ex_tl [of tracks new]
      by (cases new) (auto simp: task split: if_splits)
    have about: "about_to_track q = Some i \<longrightarrow> draws_now gen v w i"
      using facts(1,5) no_tracks_about [OF rest] no_tracks_about [of new] about_append [of new rest]
      by (cases "new = []") (auto simp: task draws_now_def split: if_splits)
    have drawn: "i \<in> thread_ids q \<longrightarrow> i \<in> thread_ids p \<or> draws_now gen v w i"
      using facts(1,4) by (auto simp: ids draws_now_def split: if_splits)
    have "dm_get (v_active w) i \<noteq> None \<longrightarrow> dm_get (v_active v) i \<noteq> None \<or> about_to_track p = Some i"
      using facts(2) by (auto simp: task about_to_track_def)
    with facts(1,3) tl about drawn ids show ?thesis by auto
  qed
  then show "v_next_id v \<le> v_next_id w" and "\<not> list_ex tracks (tl q)"
    and "dm_get (v_active w) i \<noteq> None \<Longrightarrow> dm_get (v_active v) i \<noteq> None \<or> about_to_track p = Some i"
    and "index_ids w \<subseteq> index_ids v \<union> thread_ids p"
    and "i \<in> thread_ids q \<Longrightarrow> i \<in> thread_ids p \<or> draws_now gen v w i"
    and "about_to_track q = Some i \<Longrightarrow> draws_now gen v w i"
    by blast+
qed

text \<open>
  The invariant of all interleavings: what is tracked, indexed or about to be indexed was issued, and
  an id about to be tracked is not in the index nor in the hands of another thread.
\<close>

definition engine_sound :: "(nat \<Rightarrow> 'o) \<Rightarrow> 'o engine_task list list \<Rightarrow> ('m, 'o) venue \<Rightarrow> bool" where
  "engine_sound gen ts v \<longleftrightarrow> inj gen
     \<and> (\<forall>p \<in> set ts. \<not> list_ex tracks (tl p))
     \<and> (\<forall>i. dm_get (v_active v) i \<noteq> None \<longrightarrow> issued_id gen v i)
     \<and> (\<forall>i \<in> index_ids v \<union> (\<Union>p \<in> set ts. thread_ids p). issued_id gen v i)
     \<and> (\<forall>s < length ts. \<forall>i. about_to_track (ts ! s) = Some i \<longrightarrow>
          issued_id gen v i \<and> i \<notin> index_ids v \<and> (\<forall>r < length ts. r \<noteq> s \<longrightarrow> i \<notin> thread_ids (ts ! r)))"

lemma issued_mono: "issued_id gen v i \<Longrightarrow> v_next_id v \<le> v_next_id w \<Longrightarrow> issued_id gen w i"
  by (auto simp: issued_id_def intro: less_le_trans)

lemma drawn_issued: "draws_now gen v w i \<Longrightarrow> issued_id gen w i"
  by (auto simp: draws_now_def issued_id_def)

lemma drawn_fresh: "inj gen \<Longrightarrow> draws_now gen v w i \<Longrightarrow> \<not> issued_id gen v i"
  by (auto simp: draws_now_def issued_id_def dest: injD)

interpretation sound: pool_invariant "engine_prog X qt gen" any_order "engine_sound gen"
proof
  fix ts k a p and v w :: "('a, 'b) venue"
  assume good: "engine_sound gen ts v" and k: "k < length ts" and step: "engine_prog X qt gen a (ts ! k) v = Some (p, w)"
  have inj: "inj gen" and first: "\<not> list_ex tracks (tl (ts ! k))" and firsts: "\<forall>p \<in> set ts. \<not> list_ex tracks (tl p)"
    using good k by (auto simp: engine_sound_def)
  note e = engine_step [OF step first]
  have ids: "issued_id gen v i" if "i \<in> index_ids v \<or> i \<in> thread_ids (ts ! s) \<and> s < length ts" for i s
    using good that by (fastforce simp: engine_sound_def)
  have own: "issued_id gen v i \<and> i \<notin> index_ids v \<and> (\<forall>r < length ts. r \<noteq> s \<longrightarrow> i \<notin> thread_ids (ts ! r))"
    if "about_to_track (ts ! s) = Some i" "s < length ts" for s i
    using good that unfolding engine_sound_def by blast
  have new: "issued_id gen w i" if "i \<in> thread_ids p" for i
    using e(5) [OF that] ids [of i k] k by (auto intro: issued_mono [OF _ e(1)] drawn_issued)
  have tracked: "issued_id gen w i" if "dm_get (v_active w) i \<noteq> None" for i
    using e(3) [OF that] own [of k i] k good by (auto simp: engine_sound_def intro: issued_mono [OF _ e(1)])
  have index: "issued_id gen w i" if "i \<in> index_ids w" for i
    using e(4) that ids [of i k] k by (auto intro: issued_mono [OF _ e(1)])
  have others: "issued_id gen w i" if "i \<in> thread_ids q" "q \<in> set ts" for i q
    using ids [of i] that by (metis in_set_conv_nth issued_mono [OF _ e(1)])
  have about: "issued_id gen w i \<and> i \<notin> index_ids w
      \<and> (\<forall>r < length ts. r \<noteq> s \<longrightarrow> i \<notin> thread_ids (ts[k := p] ! r))"
    if s: "s < length ts" and at: "about_to_track (ts[k := p] ! s) = Some i" for s i
  proof (cases "s = k")
    case True
    then have d: "draws_now gen v w i" using at k e(6) by simp
    note fresh = drawn_fresh [OF inj d]
    have "i \<notin> index_ids w" using e(4) fresh ids [of i k] k by blast
    moreover have "i \<notin> thread_ids (ts[k := p] ! r)" if "r < length ts" "r \<noteq> s" for r
      using that True fresh ids [of i r] by auto
    ultimately show ?thesis using drawn_issued [OF d] by blast
  next
    case False
    then have o: "issued_id gen v i" "i \<notin> index_ids v" "\<forall>r < length ts. r \<noteq> s \<longrightarrow> i \<notin> thread_ids (ts ! r)"
      using own [of s i] s at by auto
    then have "i \<notin> thread_ids (ts ! k)" using False k by auto
    then have "i \<notin> index_ids w" "i \<notin> thread_ids p"
      using e(4) o(2) e(5) [of i] drawn_fresh [OF inj, of v w i] o(1) by blast+
    moreover have "i \<notin> thread_ids (ts[k := p] ! r)" if "r < length ts" "r \<noteq> s" for r
      using that o(3) calculation(2) by (cases "r = k") simp_all
    ultimately show ?thesis using issued_mono [OF o(1) e(1)] by blast
  qed
  have sub: "set (ts[k := p]) \<subseteq> insert p (set ts)" by (rule set_update_subset_insert)
  show "engine_sound gen (ts[k := p]) w"
    unfolding engine_sound_def length_list_update
  proof (intro conjI)
    show "\<forall>q \<in> set (ts[k := p]). \<not> list_ex tracks (tl q)" using sub firsts e(2) by blast
    show "\<forall>i \<in> index_ids w \<union> (\<Union>q \<in> set (ts[k := p]). thread_ids q). issued_id gen w i"
      using sub index new others by blast
  qed (use inj tracked about in auto)
qed

lemma gone_stays:
  assumes reach: "pool_reach (engine_prog X qt gen) any_order c0 c" and sound: "engine_sound gen (fst c0) (snd c0)"
    and gone: "gone gen (fst c0) (snd c0) i"
  shows "gone gen (fst c) (snd c) i"
  using reach
proof (induction rule: pool_reach.induct)
  case stay
  show ?case by (rule gone)
next
  case (move ts v k a c)
  obtain us w where c: "c = (us, w)" by fastforce
  have s: "engine_sound gen ts v" using sound.reachable [of X qt gen "fst c0" "snd c0" "(ts, v)"] move.hyps(1) sound by simp
  obtain p where k: "k < length ts" and step: "engine_prog X qt gen a (ts ! k) v = Some (p, w)" "us = ts[k := p]"
    using move.hyps(3) by (auto simp: c pool_step_Some)
  have "\<not> list_ex tracks (tl (ts ! k))" using s k by (simp add: engine_sound_def)
  note e = engine_step [OF step(1) this]
  have g: "issued_id gen v i" "dm_get (v_active v) i = None" "\<forall>p \<in> set ts. about_to_track p \<noteq> Some i"
    using move.IH by (auto simp: gone_def)
  have "about_to_track q \<noteq> Some i" if "q \<in> set us" for q
    using that step(2) set_update_subset_insert [of ts k p] g(1,3) e(6) [of i] drawn_fresh [of gen v w i] s
    by (auto simp: engine_sound_def)
  moreover have "dm_get (v_active w) i = None" using e(3) [of i] g(2,3) k by (meson nth_mem)
  ultimately show ?case
    using issued_mono [OF g(1) e(1)] by (auto simp: gone_def c)
qed

text \<open>A thread alone, as a schedule of the pool.\<close>

lemma engine_alone_run:
  assumes "k < length ts" and "ts ! k = []"
  shows "\<exists>n. pool_run (engine_prog X qt gen) (map (Pair k) (En_call c # replicate n En_go)) (ts, v) =
    Some (ts, mm_exec X qt gen c v)"
proof -
  obtain n where "solo_run (engine_prog X qt gen) (replicate n En_go) (engine_call c @ [], v) =
      Some ([], mm_exec X qt gen c v)"
    using runs_command [of X qt gen c v] unfolding runs_to_def by blast
  then have "solo_run (engine_prog X qt gen) (En_call c # replicate n En_go) ([], v) = Some ([], mm_exec X qt gen c v)"
    by simp
  from pool_run_solo [OF this assms] assms show ?thesis by (metis list_update_id)
qed

section \<open>Properties\<close>

text \<open>
  C17. With nobody in between, the tasks of an operation amount to the one step of \<open>Market_Maker\<close>: whatever
  the other threads of the pool stand at, there is a number of moves of this thread alone after
  which its operation is over and the engine is in the state \<open>mm_exec\<close> gives.
\<close>

theorem engine_alone_is_atomic:
  assumes "k < length ts" and "ts ! k = []"
  shows "\<exists>n. pool_run (engine_prog X qt gen) (map (Pair k) (En_call c # replicate n En_go)) (ts, v) =
    Some (ts, mm_exec X qt gen c v)"
  using assms by (rule engine_alone_run)

lemma engine_alone_is_atomic_witness:
  "\<exists>n. pool_run (engine_prog demo_exchange (demo_quoter (Fin 0)) (\<lambda>n. n))
       (map (Pair 1) (En_call (MmPrice ''BTC'' 100) # replicate n En_go)) ([[Tk_clear_index], []], demo_quoting) =
     Some ([[Tk_clear_index], []],
       mm_exec demo_exchange (demo_quoter (Fin 0)) (\<lambda>n. n) (MmPrice ''BTC'' 100) demo_quoting)"
  by (rule engine_alone_is_atomic) simp_all

text \<open>
  C18. An id in the reverse index that is not tracked is dead. In every interleaving from a fresh engine
  each indexed id was issued, and once it is not tracked it will not be tracked again, however the threads go on;
  so the cancellation that the next requote sends for it can only concern an order the engine
  has given up.
\<close>

theorem dangling_id_stays_dead:
  assumes "inj gen"
    and "pool_run (engine_prog X qt gen) past (replicate n [], engine_new m) = Some (ts, v)"
    and "i \<in> index_ids v" and "dm_get (v_active v) i = None"
    and "pool_run (engine_prog X qt gen) future (ts, v) = Some (us, w)"
  shows "issued_id gen v i \<and> dm_get (v_active w) i = None"
proof -
  have start: "engine_sound gen (replicate n []) (engine_new m)"
    using assms(1) by (auto simp: engine_sound_def engine_new_def index_ids_def thread_ids_def about_to_track_def)
  have "pool_reach (engine_prog X qt gen) any_order (replicate n [], engine_new m) (ts, v)"
    using assms(2) pool_reach.stay by (rule pool_reach_run)
  from sound.reachable [OF this start] have sound: "engine_sound gen ts v" by simp
  then have "gone gen ts v i"
    using assms(3,4) unfolding engine_sound_def gone_def by (metis UnI1 in_set_conv_nth)
  moreover have "pool_reach (engine_prog X qt gen) any_order (ts, v) (us, w)"
    using assms(5) pool_reach.stay by (rule pool_reach_run)
  ultimately show ?thesis
    using gone_stays [of X qt gen "(ts, v)" "(us, w)" i] sound by (simp add: gone_def)
qed

section \<open>Orphans\<close>

text \<open>
  An order that is tracked and not indexed is kept by everything that requotes: the orders to cancel
  are looked up in the index.
\<close>

definition orphan :: "(nat \<Rightarrow> 'o) \<Rightarrow> 'o \<Rightarrow> active_order \<Rightarrow> ('m, 'o) venue \<Rightarrow> bool" where
  "orphan gen i a v \<longleftrightarrow> inj gen \<and> tracked v i = Some a \<and> (\<forall>k. indexed v k \<noteq> Some i) \<and> issued_id gen v i"

lemma orphan_cong:
  "orphan gen i a v \<Longrightarrow> v_active w = v_active v \<Longrightarrow> v_index w = v_index v \<Longrightarrow> v_next_id w = v_next_id v \<Longrightarrow>
   orphan gen i a w"
  using tracked_cong [of w v] indexed_cong [of w v] by (simp add: orphan_def issued_id_def)

lemma orphan_place:
  assumes o: "orphan gen i a v" and place: "place_leg X gen b p v = (w, r)"
  shows "orphan gen i a w" and "r \<noteq> Some i"
proof -
  note res = place_leg_result [OF place]
  have "gen (v_next_id v) \<noteq> i" using o by (auto simp: orphan_def issued_id_def dest: injD)
  then show "r \<noteq> Some i" using res(6) by auto
  then show "orphan gen i a w"
    using o res(4,5) indexed_cong [OF res(1)]
    by (auto simp: orphan_def issued_id_def split: option.splits intro: less_SucI)
qed

lemma orphan_record:
  assumes "orphan gen i a v" and "bid \<noteq> Some i" and "ask \<noteq> Some i"
  shows "orphan gen i a (record_legs key bid ask v)"
  using assms
  by (auto simp: orphan_def record_legs_def tracked_def indexed_def issued_id_def dm_get_insert leg_def
      split: if_splits)

lemma orphan_requote_job:
  assumes "orphan gen i a v"
  shows "orphan gen i a (requote_job X gen j v)"
proof -
  let ?v = "cancel_stale X (qj_book j) (qj_key j) v"
  have c: "orphan gen i a ?v"
    using assms cancel_stale_maps [of X "qj_book j" "qj_key j" v] by (auto simp: orphan_def issued_id_def simp del: split_paired_All)
  obtain w1 bid where p1: "place_leg X gen (qj_bid j) (qj_bid_price j) ?v = (w1, bid)" by fastforce
  obtain w2 ask where p2: "place_leg X gen (qj_ask j) (qj_ask_price j) w1 = (w2, ask)" by fastforce
  have "orphan gen i a (record_legs (qj_key j) bid ask w2)"
    using orphan_place [OF c p1] orphan_place [OF _ p2] by (intro orphan_record) auto
  then show ?thesis by (rule orphan_cong) (simp_all add: requote_job_def Let_def p1 p2)
qed

lemma orphan_fold: "(\<And>x v. orphan gen i a v \<Longrightarrow> orphan gen i a (f x v)) \<Longrightarrow> orphan gen i a v \<Longrightarrow>
    orphan gen i a (fold f xs v)"
  by (induction xs arbitrary: v) auto

lemma orphan_requote_symbol: "orphan gen i a v \<Longrightarrow> orphan gen i a (requote_symbol X qt gen symbol v)"
proof -
  have quote: "orphan gen i a (update_quote X qt gen ctx strike style w)" if "orphan gen i a w" for ctx strike style w
    using that by (auto simp: update_quote_job orphan_requote_job split: option.split)
  have strike: "orphan gen i a (requote_strike X qt gen ctx strike w)" if "orphan gen i a w" for ctx strike w
    unfolding requote_strike_def using that by (auto intro: orphan_fold quote simp del: fold_simps)
  have expiration: "orphan gen i a (requote_expiration X qt gen symbol p config e w)" if "orphan gen i a w" for p config e w
    unfolding requote_expiration_def Let_def using that by (intro orphan_fold strike)
  show "orphan gen i a v \<Longrightarrow> ?thesis"
    unfolding requote_symbol_def by (auto intro: orphan_fold expiration split: option.split)
qed

lemma orphan_kept: "orphan gen i a v \<Longrightarrow> orphan gen i a (update_price X qt gen symbol p v)"
  unfolding update_price_def Let_def
  by (auto intro!: orphan_requote_symbol intro: orphan_cong)

section \<open>A live quote out of the index\<close>

abbreviation demo_engine ::
  "((demo_state, nat) engine_input, nat engine_task list, (demo_state, nat) venue) program" where
  "demo_engine \<equiv> engine_prog demo_exchange (demo_quoter (Fin 0)) (\<lambda>n. n)"

abbreviation demo_exec :: "nat mm_command \<Rightarrow> (demo_state, nat) venue \<Rightarrow> (demo_state, nat) venue" where
  "demo_exec \<equiv> mm_exec demo_exchange (demo_quoter (Fin 0)) (\<lambda>n. n)"

definition btc_call :: instrument_key where
  "btc_call = (''BTC'', KeyDateTime 0, 100, OptCall)"

text \<open>The engine after a first price: bid and ask of the call, bid and ask of the put.\<close>

definition quoted :: "(demo_state, nat) venue" where
  "quoted = demo_exec (MmPrice ''BTC'' 100) (engine_new demo_books)"

text \<open>Then order 0 is filled completely, and removed from tracking; then the price is set again.\<close>

definition half_filled :: "(demo_state, nat) venue" where
  "half_filled = quoted\<lparr>v_active := dm_remove 0 (v_active quoted)\<rparr>"

definition requoted :: "(demo_state, nat) venue" where
  "requoted = demo_exec (MmPrice ''BTC'' 100) half_filled"

lemmas requote_defs = update_price_def emit_def requote_symbol_def requote_expiration_def requote_strike_def
  update_quote_def is_symbol_enabled_def book_resolves_def cancel_stale_def place_leg_def new_order_id_def
  instrument_key_new_def demo_fields

lemma quoted_facts:
  "\<exists>a. dm_get (v_active quoted) 0 = Some a \<and> order_slot a = (btc_call, True)"
  "dm_get (v_index quoted) btc_call = Some (Some 0, Some 1)"
  "v_next_id quoted = 4"
proof -
  obtain Q where Q: "\<And>i. generate_quote (demo_quoter (Fin 0)) i = Some (Q i)"
    using demo_quoter_quotes by metis
  show "\<exists>a. dm_get (v_active quoted) 0 = Some a \<and> order_slot a = (btc_call, True)"
    by (simp add: quoted_def requote_defs Q Let_def demo_books_def engine_new_def mm_config_default_def
        case_prod_beta order_slot_def instrument_key_from_order_def btc_call_def)
  show "dm_get (v_index quoted) btc_call = Some (Some 0, Some 1)"
    by (simp add: quoted_def requote_defs Q Let_def demo_books_def engine_new_def mm_config_default_def
        case_prod_beta btc_call_def)
  show "v_next_id quoted = 4"
    by (simp add: quoted_def requote_defs Q Let_def demo_books_def engine_new_def mm_config_default_def case_prod_beta)
qed

definition btc_put :: instrument_key where
  "btc_put = (''BTC'', KeyDateTime 0, 100, OptPut)"

lemma requoted_facts:
  "\<exists>a. dm_get (v_active requoted) 4 = Some a \<and> order_slot a = (btc_call, True)"
  "set (v_index requoted) = {(btc_call, (Some 4, Some 5)), (btc_put, (Some 6, Some 7))}"
  "v_next_id requoted = 8"
proof -
  obtain Q where Q: "\<And>i. generate_quote (demo_quoter (Fin 0)) i = Some (Q i)"
    using demo_quoter_quotes by metis
  note defs = requoted_def half_filled_def quoted_def requote_defs Q Let_def demo_books_def engine_new_def
    mm_config_default_def case_prod_beta btc_call_def btc_put_def demo_cancel_def
  show "\<exists>a. dm_get (v_active requoted) 4 = Some a \<and> order_slot a = (btc_call, True)"
    by (simp add: defs order_slot_def instrument_key_from_order_def)
  show "set (v_index requoted) = {(btc_call, (Some 4, Some 5)), (btc_put, (Some 6, Some 7))}"
    by (auto simp: defs)
  show "v_next_id requoted = 8" by (simp add: defs)
qed

text \<open>The reporter of the fill clears the slot of order 0, where order 4 now stands.\<close>

definition orphaned :: "(demo_state, nat) venue" where
  "orphaned = clear_instrument_slot btc_call True requoted"

lemma orphaned_facts: "\<exists>a. orphan (\<lambda>n. n) 4 a orphaned \<and> order_slot a = (btc_call, True)"
proof -
  obtain a where a: "dm_get (v_active requoted) 4 = Some a" "order_slot a = (btc_call, True)"
    using requoted_facts(1) by blast
  have only: "k = (btc_call, True)" if k: "indexed requoted k = Some 4" for k
  proof -
    obtain s where s: "dm_get (v_index requoted) (fst k) = Some s" "leg (snd k) s = Some 4"
      using k unfolding indexed_def bind_eq_Some_conv by blast
    from map_of_SomeD [OF s(1)] have "fst k = btc_call \<and> s = (Some 4, Some 5) \<or> s = (Some 6, Some 7)"
      unfolding requoted_facts(2) by blast
    with s(2) show ?thesis by (cases k) (auto simp: leg_def simp del: split_paired_All split: if_splits)
  qed
  have "indexed orphaned k \<noteq> Some 4" for k
    using only [of k] by (cases "k = (btc_call, True)") (auto simp: orphaned_def indexed_clear_slot)
  then have "\<forall>k. indexed orphaned k \<noteq> Some 4" by blast
  with a requoted_facts(3) show ?thesis
    by (intro exI [of _ a]) (simp add: orphan_def orphaned_def tracked_def issued_id_def del: split_paired_All)
qed

lemma order_slotD: "order_slot a = (key, b) \<Longrightarrow> instrument_key_from_order a = key \<and> act_is_buy a = b"
  by (simp add: order_slot_def)

text \<open>The first price, then the report of the fill up to the removal of order 0; then the second price.\<close>

lemma half_filled_run:
  "\<exists>sched e. pool_run demo_engine sched ([[], []], engine_new demo_books) =
     Some ([[], [Tk_clear_slot btc_call True, Tk_emit e]], half_filled)"
proof -
  obtain n where first: "pool_run demo_engine (map (Pair 0) (En_call (MmPrice ''BTC'' 100) # replicate n En_go))
      ([[], []], engine_new demo_books) = Some ([[], []], quoted)"
    using engine_alone_run [of 0 "[[], []]" demo_exchange "demo_quoter (Fin 0)" "\<lambda>n. n" "MmPrice ''BTC'' 100"
        "engine_new demo_books"] by (auto simp: quoted_def)
  obtain a where a: "dm_get (v_active quoted) 0 = Some a" "order_slot a = (btc_call, True)"
    using quoted_facts(1) by blast
  obtain e where "fill_event demo_exchange 0 45 (min (- 1) (act_resting a)) a = [Tk_emit e]"
    by (simp add: fill_event_def)
  then have "pool_run demo_engine (map (Pair 1) [En_call (MmFilled 0 45 (- 1)), En_go, En_go]) ([[], []], quoted) =
      Some ([[], [Tk_clear_slot btc_call True, Tk_emit e]], half_filled)"
    using a order_slotD [OF a(2)] by (simp add: pool_step_def half_filled_def Let_def)
  from pool_run_trans [OF first this] show ?thesis by blast
qed

lemma requoted_run:
  "\<exists>sched. pool_run demo_engine sched ([[], ts], half_filled) = Some ([[], ts], requoted)"
proof -
  have "\<exists>n. pool_run demo_engine (map (Pair 0) (En_call (MmPrice ''BTC'' 100) # replicate n En_go)) ([[], ts], half_filled) =
      Some ([[], ts], requoted)"
    unfolding requoted_def by (rule engine_alone_run) simp_all
  then show ?thesis by blast
qed

lemma dangling_id_stays_dead_witness:
  "\<exists>sched ts. pool_run demo_engine sched (replicate 2 [], engine_new demo_books) = Some (ts, half_filled)
     \<and> 0 \<in> index_ids half_filled \<and> dm_get (v_active half_filled) 0 = None
     \<and> issued_id (\<lambda>n. n) half_filled 0 \<and> dm_get (v_active requoted) 0 = None"
proof -
  obtain past e where past: "pool_run demo_engine past (replicate 2 [], engine_new demo_books) =
      Some ([[], [Tk_clear_slot btc_call True, Tk_emit e]], half_filled)"
    using half_filled_run by (auto simp: numeral_2_eq_2)
  obtain future where future: "pool_run demo_engine future
      ([[], [Tk_clear_slot btc_call True, Tk_emit e]], half_filled) =
      Some ([[], [Tk_clear_slot btc_call True, Tk_emit e]], requoted)"
    using requoted_run by blast
  have "(Some 0, Some 1) \<in> ran (dm_get (v_index half_filled))"
    using quoted_facts(2) by (auto simp: half_filled_def intro: ranI)
  then have idx: "0 \<in> index_ids half_filled"
    unfolding index_ids_def by (rule UN_I) (simp add: leg_ids_def)
  have gone: "dm_get (v_active half_filled) 0 = None" by (simp add: half_filled_def dm_get_remove)
  from dangling_id_stays_dead [OF inj_on_id2 past idx gone future] past idx gone show ?thesis by blast
qed

text \<open>
  A fill against a requote. One thread reports the complete fill of a bid and stops between its two
  critical sections; another requotes the instrument; the first goes on and clears the slot of the
  order that took the place of the filled one. Both threads are done, and the fresh bid is tracked
  but not indexed, so that no requote will cancel it and the next places another bid beside it.
\<close>

lemma fill_orphans_quote:
  "\<exists>sched v a. pool_run demo_engine sched ([[], []], engine_new demo_books) = Some ([[], []], v)
     \<and> orphan (\<lambda>n. n) 4 a v \<and> order_slot a = (btc_call, True)"
proof -
  obtain s1 e where s1: "pool_run demo_engine s1 ([[], []], engine_new demo_books) =
      Some ([[], [Tk_clear_slot btc_call True, Tk_emit e]], half_filled)"
    using half_filled_run by blast
  obtain s2 where s2: "pool_run demo_engine s2 ([[], [Tk_clear_slot btc_call True, Tk_emit e]], half_filled) =
      Some ([[], [Tk_clear_slot btc_call True, Tk_emit e]], requoted)"
    using requoted_run by blast
  have s3: "pool_run demo_engine (map (Pair 1) [En_go, En_go])
      ([[], [Tk_clear_slot btc_call True, Tk_emit e]], requoted) = Some ([[], []], emit e orphaned)"
    by (simp add: pool_step_def orphaned_def)
  obtain b where "orphan (\<lambda>n. n) 4 b orphaned" and slot: "order_slot b = (btc_call, True)"
    using orphaned_facts by blast
  then have "orphan (\<lambda>n. n) 4 b (emit e orphaned)" by (elim orphan_cong) simp_all
  with slot pool_run_trans [OF s1 pool_run_trans [OF s2 s3]] show ?thesis by blast
qed

text \<open>
  A requote against the kill switch. One thread has found the engine enabled and is about to
  requote; another disables the engine and cancels everything; the first goes on. Both threads are
  done, the engine is disabled, and four quotes rest in the books and are tracked.
\<close>

lemma requote_survives_kill_switch:
  "\<exists>sched v. pool_run demo_engine sched ([[], []], engine_new demo_books) = Some ([[], []], v)
     \<and> \<not> cfg_enabled (v_config v) \<and> length (v_active v) = 4"
proof -
  let ?v = "emit (PriceUpdated ''BTC'' 100) ((engine_new demo_books)\<lparr>v_prices := [(''BTC'', 100)]\<rparr>)"
  let ?w = "demo_exec (MmEnable False) ?v"
  let ?u = "requote_symbol demo_exchange (demo_quoter (Fin 0)) (\<lambda>n. n) ''BTC'' ?w"
  have checked: "pool_run demo_engine (map (Pair 0) [En_call (MmPrice ''BTC'' 100), En_go, En_go, En_go, En_go])
      ([[], []], engine_new demo_books) = Some ([[Tk_get_price ''BTC''], []], ?v)"
    by (simp add: pool_step_def engine_new_def mm_config_default_def emit_def is_symbol_enabled_def)
  obtain n where killed: "pool_run demo_engine (map (Pair 1) (En_call (MmEnable False) # replicate n En_go))
      ([[Tk_get_price ''BTC''], []], ?v) = Some ([[Tk_get_price ''BTC''], []], ?w)"
    using engine_alone_run [of 1 "[[Tk_get_price ''BTC''], []]" demo_exchange "demo_quoter (Fin 0)" "\<lambda>n. n"
        "MmEnable False" ?v] by auto
  obtain k where "solo_run demo_engine (replicate k En_go) ([Tk_get_price ''BTC''] @ [], ?w) = Some ([], ?u)"
    using runs_symbol [of demo_exchange "demo_quoter (Fin 0)" "\<lambda>n. n" "''BTC''" ?w] unfolding runs_to_def by blast
  then have quoting: "pool_run demo_engine (map (Pair 0) (replicate k En_go)) ([[Tk_get_price ''BTC''], []], ?w) =
      Some ([[], []], ?u)"
    using pool_run_solo [of demo_engine "replicate k En_go" "[Tk_get_price ''BTC'']" ?w "[]" ?u 0
        "[[Tk_get_price ''BTC''], []]"] by simp
  obtain Q where Q: "\<And>i. generate_quote (demo_quoter (Fin 0)) i = Some (Q i)"
    using demo_quoter_quotes by metis
  have "\<not> cfg_enabled (v_config ?u) \<and> length (v_active ?u) = 4"
    by (simp add: requote_defs Q Let_def demo_books_def engine_new_def mm_config_default_def case_prod_beta
        set_enabled_def cancel_all_mm_def broadcast_config_change_def)
  with pool_run_trans [OF checked pool_run_trans [OF killed quoting]] show ?thesis by blast
qed

end
