(* ===== verification/Api.thy ===== *)
theory Api
  imports Server Wire_Market Client_Ws
begin

text \<open>
  The HTTP server as a whole, and the client talking to it. A request is matched against the route
  table of \<open>src/src/api/routes.rs\<close>, passes the gate of \<open>src/src/api/middleware.rs\<close>, is taken apart by
  the extractors in the signatures of the handlers (\<open>src/src/api/handlers.rs\<close>,
  \<open>src/src/api/controls.rs\<close>), runs the handler on the state of the server, and its answer goes out
  in the format of \<open>Wire_Responses\<close> and \<open>Wire_Market\<close>. The client of
  \<open>src/crates/orderbook-client/src/client.rs\<close> sends one of its requests and reads the answer.

  What axum answers itself (\<open>axum_reply\<close>) is a parameter, as are the text of a JSON value and of a
  query string. The CORS and trace layers and the Swagger UI are outside the gate and left out.
\<close>

section \<open>Requests\<close>

text \<open>\<open>wq_json\<close>: the content type is JSON.\<close>

record web_request =
  wq_head :: http_request
  wq_json :: bool
  wq_body :: string

text \<open>
  The answers that axum gives on its own: for a path or a method without a handler, for an extractor
  that fails, for the upgrade of \<open>/ws\<close>. \<open>Closed\<close> stands for the connection that is closed
  without a response because the handler panicked.
\<close>

datatype axum_reply = NoRoute | NoMethod | BadPath | BadQuery | BadBody | Upgrade | Closed

text \<open>What the handlers share: the libraries they call and the configured parts of \<open>AppState\<close>.\<close>

record ('m, 'o, 'b, 'p, 'q, 'd) site_env =
  en_exchange :: "('m, 'o) exchange"
  en_gen :: "nat \<Rightarrow> 'o"
  en_quoter :: quoter
  en_counters :: "'m book_stats"
  en_counts :: "'m \<Rightarrow> nat \<times> nat \<times> nat \<times> nat"
  en_best :: "'m \<Rightarrow> book_key \<Rightarrow> book_quote"
  en_snap :: "('m, 'b) snapshot_lib"
  en_metrics :: "'m metrics_lib"
  en_iv :: "'p iv_lib"
  en_greeks :: "('q, 'd) greeks_lib"
  en_days :: "expiration \<Rightarrow> int"
  en_message :: "string \<Rightarrow> f64 \<Rightarrow> string"
  en_rfc3339 :: "int \<Rightarrow> string option"
  en_parse_date :: "string \<Rightarrow> int option"
  en_prices :: price_db
  en_version :: string
  en_auth :: jwt_auth
  en_bootstrap :: "u8 list option"
  en_trust_proxy :: bool
  en_parse :: "string \<Rightarrow> json option"
  en_print :: "json \<Rightarrow> string"
  en_form :: "string \<Rightarrow> params option"
  en_decode :: "string \<Rightarrow> string"
  en_reply :: "axum_reply \<Rightarrow> http_response"

text \<open>What one request reads of the outside: clocks, a fresh identifier, the end of a blocking task.\<close>

record moment =
  mo_clock :: "nat \<Rightarrow> u64"
  mo_after :: u64
  mo_now :: u64
  mo_gtd :: u64
  mo_bulk :: "nat \<Rightarrow> u64"
  mo_secs :: u64
  mo_done :: u64
  mo_time :: string
  mo_uuid :: string
  mo_join :: "string option"

text \<open>The state behind the gate: the server and the cache of the volatility surfaces.\<close>

record ('m, 'o) site =
  si_server :: "('m, 'o) server"
  si_surfaces :: "(string, cached_surface) dashmap"

section \<open>Extractors and answers\<close>

definition json_answer :: "('m, 'o, 'b, 'p, 'q, 'd) site_env \<Rightarrow> json \<Rightarrow> http_response" where
  "json_answer E j = \<lparr>resp_status = 200, resp_headers = [], resp_body = OtherBody (en_print E j)\<rparr>"

text \<open>The two forms of a result: \<open>Json<T>\<close> and \<open>Result<Json<T>, ApiError>\<close>.\<close>

definition answer :: "('m, 'o, 'b, 'p, 'q, 'd) site_env \<Rightarrow> ('a \<Rightarrow> json) \<Rightarrow> api_error + 'a \<Rightarrow> http_response" where
  "answer E enc res = (case res of Inl e \<Rightarrow> into_response e | Inr v \<Rightarrow> json_answer E (enc v))"

text \<open>The extractors, each with the rest of the handler.\<close>

definition json_body :: "('m, 'o, 'b, 'p, 'q, 'd) site_env \<Rightarrow> web_request \<Rightarrow> (json \<Rightarrow> 'a option)
   \<Rightarrow> ('a \<Rightarrow> ('m, 'o) site \<times> http_response) \<Rightarrow> ('m, 'o) site \<Rightarrow> ('m, 'o) site \<times> http_response" where
  "json_body E rq d f s =
     (case (if wq_json rq then Option.bind (en_parse E (wq_body rq)) d else None) of
        None \<Rightarrow> (s, en_reply E BadBody)
      | Some body \<Rightarrow> f body)"

definition query_params :: "('m, 'o, 'b, 'p, 'q, 'd) site_env \<Rightarrow> web_request \<Rightarrow> (params \<Rightarrow> 'a option)
   \<Rightarrow> ('a \<Rightarrow> ('m, 'o) site \<times> http_response) \<Rightarrow> ('m, 'o) site \<Rightarrow> ('m, 'o) site \<times> http_response" where
  "query_params E rq d f s =
     (case Option.bind (en_form E (case rq_query (wq_head rq) of Some q \<Rightarrow> q | None \<Rightarrow> [])) d of
        None \<Rightarrow> (s, en_reply E BadQuery)
      | Some query \<Rightarrow> f query)"

definition strike_param :: "('m, 'o, 'b, 'p, 'q, 'd) site_env \<Rightarrow> string
   \<Rightarrow> (u64 \<Rightarrow> ('m, 'o) site \<times> http_response) \<Rightarrow> ('m, 'o) site \<Rightarrow> ('m, 'o) site \<times> http_response" where
  "strike_param E k f s =
     (case parse_u64 k of
        None \<Rightarrow> (s, en_reply E BadPath)
      | Some strike \<Rightarrow> f strike)"

definition s_dec_chain_query :: "params \<Rightarrow> chain_query option" where
  "s_dec_chain_query ps = do {
     min_strike \<leftarrow> opt_param ''min_strike'' parse_u64 ps;
     max_strike \<leftarrow> opt_param ''max_strike'' parse_u64 ps;
     Some \<lparr>cq_min_strike = min_strike, cq_max_strike = max_strike\<rparr> }"

definition s_dec_snapshot_query :: "params \<Rightarrow> string option option" where
  "s_dec_snapshot_query = opt_param ''depth'' Some"

text \<open>A handler that works on a part of the state, and its answer.\<close>

definition on_app :: "('m, 'o) site \<Rightarrow> (('m, 'o) app_state \<Rightarrow> ('m, 'o) app_state \<times> 'a) \<Rightarrow> ('a \<Rightarrow> http_response)
   \<Rightarrow> ('m, 'o) site \<times> http_response" where
  "on_app s f g = (let sv = si_server s; (st, res) = f (sv_app sv)
     in (s\<lparr>si_server := sv\<lparr>sv_app := st\<rparr>\<rparr>, g res))"

definition on_engine :: "('m, 'o) site \<Rightarrow> (('m, 'o) venue \<Rightarrow> ('m, 'o) venue \<times> 'a) \<Rightarrow> ('a \<Rightarrow> http_response)
   \<Rightarrow> ('m, 'o) site \<times> http_response" where
  "on_engine s f g = (let v = st_venue (sv_app (si_server s))
     in (s\<lparr>si_server := on_venue (\<lambda>v. fst (f v)) (si_server s)\<rparr>, g (snd (f v))))"

definition on_books :: "('m, 'o) site \<Rightarrow> ('m \<Rightarrow> 'm \<times> 'a) \<Rightarrow> ('a \<Rightarrow> http_response) \<Rightarrow> ('m, 'o) site \<times> http_response" where
  "on_books s f g = (let m = st_manager (sv_app (si_server s))
     in (s\<lparr>si_server := on_manager (\<lambda>m. fst (f m)) (si_server s)\<rparr>, g (snd (f m))))"

definition site_spot :: "('m, 'o) site \<Rightarrow> string \<Rightarrow> u64 option" where
  "site_spot s u = Option.bind (sv_simulator (si_server s)) (\<lambda>sim. sim_get_price sim u)"

section \<open>The handlers by their names\<close>

text \<open>Order entry and bulk orders.\<close>

definition order_endpoint :: "('m, 'o, 'b, 'p, 'q, 'd) site_env \<Rightarrow> moment \<Rightarrow> web_request \<Rightarrow> string \<Rightarrow> string list
   \<Rightarrow> ('m, 'o) site \<Rightarrow> (('m, 'o) site \<times> http_response) option" where
  "order_endpoint E mo rq handler args s =
     (let X = en_exchange E; gen = en_gen E in
      case args of
        [] \<Rightarrow>
          if handler = ''bulk_submit_orders'' then
            Some (json_body E rq s_dec_bulk_order
              (\<lambda>body. on_app s (bulk_submit_orders X gen (mo_bulk mo) body) (answer E enc_bulk_order_s)) s)
          else if handler = ''bulk_cancel_orders'' then
            Some (json_body E rq s_dec_bulk_cancel
              (\<lambda>ids. on_app s (bulk_cancel_orders X ids) (answer E enc_bulk_cancel_s)) s)
          else if handler = ''cancel_all_orders'' then
            Some (query_params E rq s_dec_cancel_all_query
              (\<lambda>q. on_app s (cancel_all_orders X q) (answer E enc_cancel_all_s)) s)
          else None
      | [u, e, k, style] \<Rightarrow>
          if handler = ''add_order'' then
            Some (strike_param E k (\<lambda>strike. json_body E rq s_dec_add_order
              (\<lambda>body. on_app s (add_order X gen (mo_gtd mo) (mo_now mo) u e strike style body) (answer E enc_add_order_s)) s) s)
          else if handler = ''submit_market_order'' then
            Some (strike_param E k (\<lambda>strike. json_body E rq s_dec_market_order
              (\<lambda>body. on_app s (submit_market_order X gen u e strike style body) (answer E enc_market_order_s)) s) s)
          else None
      | [u, e, k, style, order_id] \<Rightarrow>
          if handler = ''cancel_order'' then
            Some (strike_param E k
              (\<lambda>strike. on_app s (cancel_order X (mo_now mo) u e strike style order_id) (answer E enc_cancel_order_s)) s)
          else if handler = ''modify_order'' then
            Some (strike_param E k (\<lambda>strike. json_body E rq s_dec_modify_order
              (\<lambda>body. on_app s (modify_order X gen (mo_now mo) u e strike style order_id body) (answer E enc_modify_order_s)) s) s)
          else None
      | _ \<Rightarrow> None)"

text \<open>Controls and prices; the price history is written to the database, which no handler here reads back.\<close>

definition control_endpoint :: "('m, 'o, 'b, 'p, 'q, 'd) site_env \<Rightarrow> moment \<Rightarrow> web_request \<Rightarrow> string \<Rightarrow> string list
   \<Rightarrow> ('m, 'o) site \<Rightarrow> (('m, 'o) site \<times> http_response) option" where
  "control_endpoint E mo rq handler args s =
     (let X = en_exchange E; gen = en_gen E; qt = en_quoter E; v = st_venue (sv_app (si_server s)) in
      case args of
        [] \<Rightarrow>
          if handler = ''get_controls'' then Some (s, json_answer E (enc_controls_s (get_controls v)))
          else if handler = ''kill_switch'' then
            Some (on_engine s (kill_switch X) (\<lambda>r. json_answer E (enc_kill_switch_s r)))
          else if handler = ''enable_quoting'' then
            Some (on_engine s (enable_quoting X) (\<lambda>r. json_answer E (enc_kill_switch_s r)))
          else if handler = ''update_parameters'' then
            Some (json_body E rq s_dec_update_parameters
              (\<lambda>body. on_engine s (update_parameters X qt gen (en_message E) body) (answer E enc_update_parameters_s)) s)
          else if handler = ''list_instruments'' then
            Some (s, json_answer E (enc_instruments_s (list_instruments X v)))
          else if handler = ''insert_price'' then
            Some (json_body E rq s_dec_insert_price
              (\<lambda>body. on_engine s (insert_price X qt gen (en_message E) (mo_time mo) body) (answer E (enc_insert_price_s \<circ> fst))) s)
          else if handler = ''get_all_prices'' then
            Some (s, json_answer E (enc_list enc_latest_price_s (all_latest_prices X (mo_time mo) v)))
          else None
      | [symbol] \<Rightarrow>
          if handler = ''toggle_instrument'' then
            Some (on_engine s (toggle_instrument X symbol) (\<lambda>r. json_answer E (enc_instrument_toggle_s r)))
          else if handler = ''get_latest_price'' then
            Some (s, answer E enc_latest_price_s (get_latest_price (en_prices E) (mo_time mo) symbol v))
          else None
      | _ \<Rightarrow> None)"

text \<open>Underlyings, expirations and strikes.\<close>

definition hierarchy_endpoint :: "('m, 'o, 'b, 'p, 'q, 'd) site_env \<Rightarrow> string \<Rightarrow> string list
   \<Rightarrow> ('m, 'o) site \<Rightarrow> (('m, 'o) site \<times> http_response) option" where
  "hierarchy_endpoint E handler args s =
     (let X = en_exchange E; H = en_counters E; m = st_manager (sv_app (si_server s)) in
      case args of
        [] \<Rightarrow>
          if handler = ''list_underlyings'' then Some (s, json_answer E (enc_underlyings_s (list_underlyings X m)))
          else None
      | [u] \<Rightarrow>
          if handler = ''create_underlying'' then
            Some (on_books s (create_underlying X H u) (\<lambda>r. json_answer E (enc_underlying_summary_s r)))
          else if handler = ''get_underlying'' then
            Some (s, answer E enc_underlying_summary_s (get_underlying X H u m))
          else if handler = ''delete_underlying'' then
            Some (on_books s (delete_underlying X u) (answer E enc_delete_underlying_s))
          else if handler = ''list_expirations'' then
            Some (s, answer E enc_expirations_s (list_expirations X u m))
          else None
      | [u, e] \<Rightarrow>
          if handler = ''create_expiration'' then
            Some (on_books s (create_expiration X H u e) (answer E enc_expiration_summary_s))
          else if handler = ''get_expiration'' then
            Some (s, answer E enc_expiration_summary_s (get_expiration X H u e m))
          else if handler = ''list_strikes'' then
            Some (s, answer E enc_strikes_s (list_strikes X u e m))
          else None
      | [u, e, k] \<Rightarrow>
          if handler = ''create_strike'' then
            Some (strike_param E k (\<lambda>strike. on_books s (create_strike X H u e strike) (answer E enc_strike_summary_s)) s)
          else if handler = ''get_strike'' then
            Some (strike_param E k (\<lambda>strike. (s, answer E enc_strike_summary_s (get_strike X H u e strike m))) s)
          else None
      | _ \<Rightarrow> None)"

text \<open>Reads of one option, the option chain and the surface, which is the one read that keeps something.\<close>

definition market_endpoint :: "('m, 'o, 'b, 'p, 'q, 'd) site_env \<Rightarrow> moment \<Rightarrow> web_request \<Rightarrow> string \<Rightarrow> string list
   \<Rightarrow> ('m, 'o) site \<Rightarrow> (('m, 'o) site \<times> http_response) option" where
  "market_endpoint E mo rq handler args s =
     (let X = en_exchange E; H = en_counters E; st = sv_app (si_server s); m = st_manager st; spot = site_spot s in
      case args of
        [u] \<Rightarrow>
          if handler = ''get_volatility_surface'' then
            (let (cache, res) = get_volatility_surface X H (en_iv E) (en_days E) spot (mo_join mo) (mo_now mo) (mo_done mo) u m
                   (si_surfaces s)
             in Some (s\<lparr>si_surfaces := cache\<rparr>, answer E enc_surface_s res))
          else None
      | [u, e] \<Rightarrow>
          if handler = ''get_option_chain'' then
            Some (query_params E rq s_dec_chain_query
              (\<lambda>q. (s, answer E enc_option_chain_s (get_option_chain X H spot (st_last_trades st) u e q m))) s)
          else None
      | [u, e, k, style] \<Rightarrow>
          if handler = ''get_option_book'' then
            Some (strike_param E k (\<lambda>strike. (s, answer E enc_option_book_s (get_option_book X H u e strike style m))) s)
          else if handler = ''get_option_quote'' then
            Some (strike_param E k (\<lambda>strike. (s, answer E enc_quote_s (get_option_quote X H u e strike style m))) s)
          else if handler = ''get_option_greeks'' then
            Some (strike_param E k
              (\<lambda>strike. (s, answer E enc_greeks_s (get_option_greeks X (en_greeks E) (en_days E) spot (mo_now mo) u e strike style m))) s)
          else if handler = ''get_option_snapshot'' then
            Some (strike_param E k (\<lambda>strike. query_params E rq s_dec_snapshot_query
              (\<lambda>depth. (s, answer E enc_enriched_snapshot_s (get_option_snapshot X (en_metrics E) u e strike style depth m))) s) s)
          else if handler = ''get_last_trade'' then
            Some (strike_param E k
              (\<lambda>strike. (s, answer E enc_last_trade_s (get_last_trade u e strike style (st_last_trades st)))) s)
          else if handler = ''get_ohlc'' then
            Some (strike_param E k (\<lambda>strike. query_params E rq s_dec_ohlc_query
              (\<lambda>q. (s, case get_ohlc u e strike style q (st_ohlc st) of
                          None \<Rightarrow> en_reply E Closed
                        | Some res \<Rightarrow> answer E enc_ohlc_s res)) s) s)
          else if handler = ''get_orderbook_metrics'' then
            Some (strike_param E k
              (\<lambda>strike. (s, answer E enc_metrics_s (get_orderbook_metrics X (en_metrics E) (mo_now mo) u e strike style m))) s)
          else None
      | _ \<Rightarrow> None)"

text \<open>Orders, positions and executions, the snapshots, and the endpoints about the server itself.\<close>

definition account_endpoint :: "('m, 'o, 'b, 'p, 'q, 'd) site_env \<Rightarrow> web_request \<Rightarrow> string \<Rightarrow> string list
   \<Rightarrow> ('m, 'o) site \<Rightarrow> (('m, 'o) site \<times> http_response) option" where
  "account_endpoint E rq handler args s =
     (let X = en_exchange E; st = sv_app (si_server s); m = st_manager st in
      case args of
        [] \<Rightarrow>
          if handler = ''list_orders'' then
            Some (query_params E rq s_dec_order_list_query
              (\<lambda>q. (s, answer E enc_order_list_s (list_orders (en_rfc3339 E) q (st_orders st)))) s)
          else if handler = ''list_positions'' then
            Some (query_params E rq s_dec_position_query
              (\<lambda>u. (s, answer E enc_positions_s (list_positions X (en_best E) m u (st_positions st)))) s)
          else if handler = ''list_executions'' then
            Some (query_params E rq s_dec_executions_query
              (\<lambda>q. (s, answer E enc_executions_s (list_executions (en_parse_date E) q (st_executions st)))) s)
          else None
      | [i] \<Rightarrow>
          if handler = ''get_order_status'' then
            Some (s, answer E enc_order_status_response_s (get_order_status (en_rfc3339 E) i (st_orders st)))
          else if handler = ''get_position'' then
            Some (s, answer E enc_position_s (get_position X (en_best E) m i (st_positions st)))
          else if handler = ''get_execution'' then
            Some (s, answer E enc_execution_s (get_execution i (st_executions st)))
          else None
      | _ \<Rightarrow> None)"

definition admin_endpoint :: "('m, 'o, 'b, 'p, 'q, 'd) site_env \<Rightarrow> moment \<Rightarrow> web_request \<Rightarrow> string \<Rightarrow> string list
   \<Rightarrow> ('m, 'o) site \<Rightarrow> (('m, 'o) site \<times> http_response) option" where
  "admin_endpoint E mo rq handler args s =
     (let X = en_exchange E; sv = si_server s; m = st_manager (sv_app sv) in
      case args of
        [] \<Rightarrow>
          if handler = ''health_check'' then Some (s, json_answer E (enc_health_s (health_check (en_version E))))
          else if handler = ''get_global_stats'' then
            Some (s, json_answer E (enc_global_stats_s (get_global_stats (en_counts E) m)))
          else if handler = ''ws_handler'' then Some (s, en_reply E Upgrade)
          else if handler = ''issue_token'' then
            Some (json_body E rq s_dec_token
              (\<lambda>body. (s, answer E enc_token_s
                 (issue_token (en_bootstrap E) (en_auth E) (en_rfc3339 E) (mo_secs mo) (mo_uuid mo) body))) s)
          else if handler = ''create_snapshot'' then
            (let (store, r) = create_snapshot X (en_snap E) (mo_uuid mo) (mo_now mo) m (sv_snapshots sv)
             in Some (s\<lparr>si_server := sv\<lparr>sv_snapshots := store\<rparr>\<rparr>, json_answer E (enc_create_snapshot_s r)))
          else if handler = ''list_snapshots'' then
            Some (s, json_answer E (enc_snapshots_s (list_snapshots (sv_snapshots sv))))
          else None
      | [i] \<Rightarrow>
          if handler = ''get_snapshot'' then
            Some (s, answer E (enc_list enc_snapshot_info_s) (get_snapshot (sv_snapshots sv) i))
          else if handler = ''restore_snapshot'' then
            Some (on_books s (restore_snapshot X (en_snap E) (mo_now mo) i (sv_snapshots sv)) (answer E enc_restore_snapshot_s))
          else None
      | _ \<Rightarrow> None)"

text \<open>
  The handler of a name with its decoded path parameters; a name that is in no group, or with another
  number of parameters, is not in the route table.
\<close>

definition endpoint :: "('m, 'o, 'b, 'p, 'q, 'd) site_env \<Rightarrow> moment \<Rightarrow> web_request \<Rightarrow> string \<Rightarrow> string list
   \<Rightarrow> ('m, 'o) site \<Rightarrow> ('m, 'o) site \<times> http_response" where
  "endpoint E mo rq handler args s =
     (case order_endpoint E mo rq handler args s of Some r \<Rightarrow> r | None \<Rightarrow>
      case control_endpoint E mo rq handler args s of Some r \<Rightarrow> r | None \<Rightarrow>
      case hierarchy_endpoint E handler args s of Some r \<Rightarrow> r | None \<Rightarrow>
      case market_endpoint E mo rq handler args s of Some r \<Rightarrow> r | None \<Rightarrow>
      case account_endpoint E rq handler args s of Some r \<Rightarrow> r | None \<Rightarrow>
      case admin_endpoint E mo rq handler args s of Some r \<Rightarrow> r | None \<Rightarrow> (s, en_reply E NoRoute))"

section \<open>Serving a request\<close>

text \<open>
  The segments of a path. A GET handler also serves HEAD, without the body; the gate is a layer of
  the routes, so that it also stands before the answer to a method without a handler, and a path
  of no route is answered outside of it.
\<close>

definition path_segments :: "string \<Rightarrow> string list option" where
  "path_segments path =
     (case split_on (CHR ''/'') path of [] # segs \<Rightarrow> Some segs | _ \<Rightarrow> None)"

definition method_handler :: "string \<Rightarrow> (string \<times> string) list \<Rightarrow> string option" where
  "method_handler meth hs =
     (case map_of hs meth of
        Some h \<Rightarrow> Some h
      | None \<Rightarrow> if meth = ''HEAD'' then map_of hs ''GET'' else None)"

definition routed :: "('m, 'o, 'b, 'p, 'q, 'd) site_env \<Rightarrow> moment \<Rightarrow> web_request \<Rightarrow> route \<Rightarrow> string list
   \<Rightarrow> ('m, 'o) site \<Rightarrow> ('m, 'o) site \<times> http_response" where
  "routed E mo rq r segs s =
     (let meth = rq_method (wq_head rq) in
      case method_handler meth (snd r) of
        None \<Rightarrow> (s, en_reply E NoMethod)
      | Some h \<Rightarrow>
          (let (s, resp) = endpoint E mo rq h (map (en_decode E) (param_values (fst r) segs)) s
           in (s, if meth = ''HEAD'' then resp\<lparr>resp_body := OtherBody []\<rparr> else resp)))"

definition serve :: "('m, 'o, 'b, 'p, 'q, 'd) site_env \<Rightarrow> moment \<Rightarrow> web_request
   \<Rightarrow> rate_limiter \<times> ('m, 'o) site \<Rightarrow> (rate_limiter \<times> ('m, 'o) site) \<times> http_response" where
  "serve E mo rq st =
     (case path_segments (rq_path (wq_head rq)) of
        None \<Rightarrow> (st, en_reply E NoRoute)
      | Some segs \<Rightarrow>
          (case route_of segs of
             None \<Rightarrow> (st, en_reply E NoRoute)
           | Some r \<Rightarrow>
               auth_middleware (en_auth E) (en_trust_proxy E) (mo_clock mo) (mo_after mo)
                 (\<lambda>_. routed E mo rq r segs) (wq_head rq) st))"

section \<open>A request is at most one step of the server\<close>

text \<open>The outcome leaves the server as it is or takes one of its steps, and the cache holds only surfaces it may serve.\<close>

definition kept :: "('m, 'o, 'b, 'p, 'q, 'd) site_env \<Rightarrow> walk_lib \<Rightarrow> config \<Rightarrow> ('m, 'o) site \<Rightarrow> ('m, 'o) site \<times> http_response \<Rightarrow> bool" where
  "kept E W cfg s p \<longleftrightarrow>
     (server_step (en_exchange E) (en_gen E) (en_counters E) (en_snap E) W cfg)\<^sup>=\<^sup>= (si_server s) (si_server (fst p))
     \<and> (surface_cache_ok (si_surfaces s) \<longrightarrow> surface_cache_ok (si_surfaces (fst p)))"

named_theorems kept_intros \<open>the outcomes of handlers and extractors\<close>

lemma kept_same [kept_intros]: "kept E W cfg s (s, r)"
  by (simp add: kept_def)

lemma surface_cache_ok_request:
  assumes "surface_cache_ok cache"
  shows "surface_cache_ok (fst (get_volatility_surface X H L nd spot je now dn u m cache))"
  using surface_cache_step [OF assms, of X H L nd
      "\<lparr>sr_manager = m, sr_spot = spot, sr_join_error = je, sr_now_ms = now, sr_done_ms = dn, sr_underlying = u\<rparr>"]
  by (simp add: serve_surface_def)

lemma kept_surfaces [kept_intros]:
  "get_volatility_surface X H L nd spot je now dn u m (si_surfaces s) = (c, res) \<Longrightarrow> kept E W cfg s (s\<lparr>si_surfaces := c\<rparr>, r)"
  using surface_cache_ok_request [of "si_surfaces s" X H L nd spot je now dn u m] by (simp add: kept_def)

lemma kept_body [kept_intros]: "(\<And>b. kept E W cfg s (f b)) \<Longrightarrow> kept E W cfg s (json_body E rq d f s)"
  by (simp add: json_body_def kept_same split: option.split)

lemma kept_query [kept_intros]: "(\<And>q. kept E W cfg s (f q)) \<Longrightarrow> kept E W cfg s (query_params E rq d f s)"
  by (simp add: query_params_def kept_same split: option.split)

lemma kept_strike [kept_intros]: "(\<And>k. kept E W cfg s (f k)) \<Longrightarrow> kept E W cfg s (strike_param E k f s)"
  by (simp add: strike_param_def kept_same split: option.split)

lemma kept_app:
  "(\<And>st res. f (sv_app (si_server s)) = (st, res) \<Longrightarrow>
      server_step (en_exchange E) (en_gen E) (en_counters E) (en_snap E) W cfg (si_server s) ((si_server s)\<lparr>sv_app := st\<rparr>))
   \<Longrightarrow> kept E W cfg s (on_app s f g)"
  by (cases "f (sv_app (si_server s))") (simp add: kept_def on_app_def)

lemma kept_orders [kept_intros]:
  "kept E W cfg s (on_app s (add_order (en_exchange E) (en_gen E) gtd now u e k sty add) g1)"
  "kept E W cfg s (on_app s (submit_market_order (en_exchange E) (en_gen E) u e k sty market) g2)"
  "kept E W cfg s (on_app s (cancel_order (en_exchange E) now u e k sty i) g3)"
  "kept E W cfg s (on_app s (modify_order (en_exchange E) (en_gen E) now u e k sty i change) g4)"
  "kept E W cfg s (on_app s (bulk_submit_orders (en_exchange E) (en_gen E) clock bulk) g5)"
  "kept E W cfg s (on_app s (bulk_cancel_orders (en_exchange E) ids) g6)"
  "kept E W cfg s (on_app s (cancel_all_orders (en_exchange E) q) g7)"
  by (rule kept_app, erule server_step.intros)+

lemma kept_engine [kept_intros]:
  "kept E W cfg s (on_engine s (kill_switch (en_exchange E)) g1)"
  "kept E W cfg s (on_engine s (enable_quoting (en_exchange E)) g2)"
  "kept E W cfg s (on_engine s (update_parameters (en_exchange E) qt (en_gen E) msg body) g3)"
  "kept E W cfg s (on_engine s (toggle_instrument (en_exchange E) symbol) g4)"
  "kept E W cfg s (on_engine s (insert_price (en_exchange E) qt (en_gen E) msg ts price) g5)"
  by (simp_all add: kept_def on_engine_def Let_def server_step.intros)

lemma kept_books [kept_intros]:
  "kept E W cfg s (on_books s (create_underlying (en_exchange E) (en_counters E) u) g1)"
  "kept E W cfg s (on_books s (delete_underlying (en_exchange E) u) g2)"
  "kept E W cfg s (on_books s (create_expiration (en_exchange E) (en_counters E) u e) g3)"
  "kept E W cfg s (on_books s (create_strike (en_exchange E) (en_counters E) u e k) g4)"
  "kept E W cfg s (on_books s (restore_snapshot (en_exchange E) (en_snap E) now i (sv_snapshots (si_server s))) g5)"
  by (simp_all add: kept_def on_books_def Let_def server_step.intros)

lemma kept_snapshot [kept_intros]:
  assumes "create_snapshot (en_exchange E) (en_snap E) i now (st_manager (sv_app (si_server s))) (sv_snapshots (si_server s)) = (store, resp)"
  shows "kept E W cfg s (s\<lparr>si_server := (si_server s)\<lparr>sv_snapshots := store\<rparr>\<rparr>, r)"
  using step_snapshot [OF assms] by (simp add: kept_def)

lemmas endpoint_defs = order_endpoint_def control_endpoint_def hierarchy_endpoint_def market_endpoint_def
  account_endpoint_def admin_endpoint_def

lemma kept_endpoint:
  "order_endpoint E mo rq h args s = Some p \<Longrightarrow> kept E W cfg s p"
  "control_endpoint E mo rq h args s = Some p \<Longrightarrow> kept E W cfg s p"
  "hierarchy_endpoint E h args s = Some p \<Longrightarrow> kept E W cfg s p"
  "market_endpoint E mo rq h args s = Some p \<Longrightarrow> kept E W cfg s p"
  "account_endpoint E rq h args s = Some p \<Longrightarrow> kept E W cfg s p"
  "admin_endpoint E mo rq h args s = Some p \<Longrightarrow> kept E W cfg s p"
  by (auto simp: endpoint_defs Let_def split: list.splits if_splits prod.splits intro!: kept_intros)

lemma routed_state:
  "fst (routed E mo rq r segs s) = s \<or> (\<exists>h args. fst (routed E mo rq r segs s) = fst (endpoint E mo rq h args s))"
  by (auto simp: routed_def Let_def case_prod_beta split: option.split)

lemma kept_routed: "kept E W cfg s (routed E mo rq r segs s)"
proof -
  have "kept E W cfg s (endpoint E mo rq h args s)" for h args
    unfolding endpoint_def by (auto intro: kept_endpoint kept_same split: option.split)
  moreover have "kept E W cfg s p \<Longrightarrow> fst q = fst p \<Longrightarrow> kept E W cfg s q" for p q by (simp add: kept_def)
  ultimately show ?thesis using routed_state [of E mo rq r segs s] kept_def [of E W cfg s] by (metis fst_conv kept_same)
qed

lemma serve_outcome:
  assumes "serve E mo rq (rl, s) = ((rl', s'), r)"
  shows "s' = s \<or> (\<exists>rt segs. s' = fst (routed E mo rq rt segs s))"
    and "rl' = rl \<or> (\<exists>key limit. rl' = fst (check_and_record_status (mo_clock mo) key limit rl))"
proof -
  show "s' = s \<or> (\<exists>rt segs. s' = fst (routed E mo rq rt segs s))"
  proof (cases "s' = s")
    case False
    then obtain rt segs where "auth_middleware (en_auth E) (en_trust_proxy E) (mo_clock mo) (mo_after mo)
        (\<lambda>_. routed E mo rq rt segs) (wq_head rq) (rl, s) = ((rl', s'), r)"
      using assms by (auto simp: serve_def split: option.splits)
    from gate_runs [OF this False] show ?thesis by blast
  qed simp
  show "rl' = rl \<or> (\<exists>key limit. rl' = fst (check_and_record_status (mo_clock mo) key limit rl))"
    using assms by (auto simp: serve_def split: option.splits dest: gate_limiter)
qed

lemma kept_serve: "serve E mo rq (rl, s) = ((rl', s'), r) \<Longrightarrow> kept E W cfg s (s', r)"
  using serve_outcome(1) [of E mo rq rl s rl' s' r] kept_routed [of E W cfg s mo rq]
  by (auto simp: kept_def)

section \<open>The whole site\<close>

text \<open>
  The site from its start: requests, and between them the steps of the server that no HTTP request
  takes (WebSocket messages, simulator ticks, the clean-up) and the sweeps of the rate limiter.
\<close>

inductive site_reachable ::
  "('m, 'o, 'b, 'p, 'q, 'd) site_env \<Rightarrow> walk_lib \<Rightarrow> 'm \<Rightarrow> config \<Rightarrow> rate_limiter \<times> ('m, 'o) site \<Rightarrow> bool"
  for E W m0 cfg where
  site_start: "site_reachable E W m0 cfg
     (limiter_new, \<lparr>si_server = from_config (en_exchange E) qt (en_gen E) W m0 cfg, si_surfaces = []\<rparr>)"
| site_request: "site_reachable E W m0 cfg st \<Longrightarrow> serve E mo rq st = (st', r) \<Longrightarrow> site_reachable E W m0 cfg st'"
| site_background: "site_reachable E W m0 cfg (rl, s)
    \<Longrightarrow> server_step (en_exchange E) (en_gen E) (en_counters E) (en_snap E) W cfg (si_server s) sv
    \<Longrightarrow> site_reachable E W m0 cfg (rl, s\<lparr>si_server := sv\<rparr>)"
| site_sweep: "site_reachable E W m0 cfg (rl, s) \<Longrightarrow> site_reachable E W m0 cfg (fst (sweep_expired now rl), s)"

definition site_ok :: "rate_limiter \<times> ('m, 'o) site \<Rightarrow> bool" where
  "site_ok st \<longleftrightarrow> limiter_ok (fst st) \<and> surface_cache_ok (si_surfaces (snd st))"

lemma limiter_ok_check: "limiter_ok rl \<Longrightarrow> limiter_ok (fst (check_and_record_status clock key limit rl))"
  using rate_limiter_bounded_and_available [of rl clock key limit] by blast


lemma site_ok_request:
  assumes "serve E mo rq st = (st', r)" and "site_ok st"
  shows "site_ok st'"
proof -
  obtain rl s rl' s' where st: "st = (rl, s)" "st' = (rl', s')" by (cases st, cases st')
  from kept_serve [OF assms(1) [unfolded st]] assms(2) have "surface_cache_ok (si_surfaces s')"
    by (simp add: kept_def site_ok_def st)
  moreover have "limiter_ok rl'"
    using serve_outcome(2) [OF assms(1) [unfolded st]] assms(2) limiter_ok_check by (auto simp: site_ok_def st)
  ultimately show ?thesis by (simp add: site_ok_def st)
qed

lemma site_reachable_ok: "site_reachable E W m0 cfg st \<Longrightarrow> site_ok st"
proof (induction rule: site_reachable.induct)
  case (site_start qt)
  then show ?case by (simp add: site_ok_def surface_cache_ok_def limiter_ok_def limiter_new_def dm_ok_def)
next
  case (site_request st mo rq st' r)
  then show ?case by (blast intro: site_ok_request)
qed (auto simp: site_ok_def limiter_ok_sweep)

lemma site_reachable_server:
  "site_reachable E W m0 cfg st \<Longrightarrow>
     server_reachable (en_exchange E) (en_gen E) (en_counters E) (en_snap E) W m0 cfg (si_server (snd st))"
proof (induction rule: site_reachable.induct)
  case (site_request st mo rq st' r)
  obtain rl s rl' s' where st: "st = (rl, s)" "st' = (rl', s')" by (cases st, cases st')
  show ?case using kept_serve [OF site_request(2) [unfolded st], of W cfg] site_request.IH
    by (auto simp: kept_def st intro: server_reachable.reach_step)
qed (auto intro: server_reachable.intros)

section \<open>The client at the server\<close>

text \<open>
  A request of the client as it arrives: the path and the query of its URL, the headers the client
  was built with, and its body as text.
\<close>

definition client_http :: "(json \<Rightarrow> string) \<Rightarrow> orderbook_client \<Rightarrow> string option \<Rightarrow> client_request \<Rightarrow> web_request" where
  "client_http print c peer rq =
     (let rest = (case strip_prefix_str (ob_base_url c) (crq_url rq) of Some r \<Rightarrow> r | None \<Rightarrow> crq_url rq);
          query = dropWhile (\<lambda>ch. ch \<noteq> CHR ''?'') rest
      in \<lparr>wq_head = \<lparr>rq_method = crq_method rq, rq_path = takeWhile (\<lambda>ch. ch \<noteq> CHR ''?'') rest,
            rq_query = (case query of [] \<Rightarrow> None | _ # q \<Rightarrow> Some q),
            rq_authorization = map_of (ob_headers c) ''authorization'',
            rq_forwarded_for = None, rq_real_ip = None, rq_peer_ip = peer\<rparr>,
          wq_json = (crq_body rq \<noteq> None),
          wq_body = (case crq_body rq of Some j \<Rightarrow> print j | None \<Rightarrow> [])\<rparr>)"

lemma client_http_head:
  assumes "crq_url rq = ob_base_url c @ path @ query" and "CHR ''?'' \<notin> set path" and "query = [] \<or> hd query = CHR ''?''"
  shows "rq_method (wq_head (client_http print c peer rq)) = crq_method rq"
    and "rq_path (wq_head (client_http print c peer rq)) = path"
    and "rq_query (wq_head (client_http print c peer rq)) = (case query of [] \<Rightarrow> None | _ # q \<Rightarrow> Some q)"
    and "rq_authorization (wq_head (client_http print c peer rq)) = map_of (ob_headers c) ''authorization''"
proof -
  have strip: "strip_prefix_str (ob_base_url c) (crq_url rq) = Some (path @ query)"
    by (simp add: assms(1) strip_prefix_str_def starts_with_def)
  have "takeWhile (\<lambda>ch. ch \<noteq> CHR ''?'') (path @ query) = path" and "dropWhile (\<lambda>ch. ch \<noteq> CHR ''?'') (path @ query) = query"
    using assms(2,3) by (cases query; auto simp: takeWhile_append dropWhile_append)+
  then show "rq_method (wq_head (client_http print c peer rq)) = crq_method rq"
    "rq_path (wq_head (client_http print c peer rq)) = path"
    "rq_query (wq_head (client_http print c peer rq)) = (case query of [] \<Rightarrow> None | _ # q \<Rightarrow> Some q)"
    "rq_authorization (wq_head (client_http print c peer rq)) = map_of (ob_headers c) ''authorization''"
    by (simp_all add: client_http_def Let_def strip)
qed

lemma path_segments_path: "plain_segs segs \<Longrightarrow> path_segments (path_of segs) = Some segs"
  using split_path [of "[]" segs] by (simp add: path_segments_def)

lemma router_literals:
  "list_all (\<lambda>r. list_all (\<lambda>p. case p of Lit x \<Rightarrow> x \<noteq> [] \<and> CHR ''/'' \<notin> set x | Param _ \<Rightarrow> True) (fst r)
     \<and> distinct (map fst (snd r))) create_router"
  by (simp add: create_router_def api_def option_prefix_def)

lemma dispatched_route:
  assumes "dispatches decode meth segs h args"
  obtains r where "route_of segs = Some r" "r \<in> set create_router" "(meth, h) \<in> set (snd r)" "method_handler meth (snd r) = Some h"
    "map decode (param_values (fst r) segs) = args" "list_all2 seg_matches (fst r) segs" "plain_segs segs"
proof -
  obtain r where r: "route_of segs = Some r" "(meth, h) \<in> set (snd r)" "map decode (param_values (fst r) segs) = args"
    using assms by (auto simp: dispatches_def split: option.splits)
  then have "r \<in> set (matching_routes segs)" by (auto simp: route_of_def Let_def find_Some_iff)
  then have m: "r \<in> set create_router" "list_all2 seg_matches (fst r) segs"
    by (auto simp: matching_routes_def path_matches_instance)
  then have "plain_segs segs" and "distinct (map fst (snd r))"
    using router_literals plain_match [of "fst r" segs] by (auto simp: list_all_iff)
  with r m show thesis by (intro that [of r]) (simp_all add: method_handler_def)
qed

text \<open>The client's token reaches the gate.\<close>

lemma client_token:
  assumes "client_new header_ok build_error cfg = Inr c" and "clc_token cfg = Some t" and "trim t = t" and "t \<noteq> []"
    and "rq_authorization rq = map_of (ob_headers c) ''authorization''"
  shows "extract_token rq = Some t"
  using client_authenticates [OF assms] by blast

text \<open>A client with a token that verifies, and room in its window.\<close>

definition signed_in :: "('m, 'o, 'b, 'p, 'q, 'd) site_env \<Rightarrow> moment \<Rightarrow> rate_limiter \<Rightarrow> orderbook_client \<Rightarrow> claims \<Rightarrow> bool" where
  "signed_in E mo rl c cl \<longleftrightarrow>
     (\<exists>header_ok build_error cfg t. client_new header_ok build_error cfg = Inr c \<and> clc_token cfg = Some t
        \<and> trim t = t \<and> t \<noteq> [] \<and> verify_token (en_auth E) t = Inr cl)
   \<and> rd_allowed (snd (check_and_record_status (mo_clock mo) (cl_sub cl) default_rate_limit rl))"

definition window_of :: "moment \<Rightarrow> claims \<Rightarrow> rate_limiter \<Rightarrow> rate_limiter \<times> rate_limit_decision" where
  "window_of mo cl rl = check_and_record_status (mo_clock mo) (cl_sub cl) default_rate_limit rl"

text \<open>What a caller with these claims gets from a handler with this permission.\<close>

definition call_outcome :: "('m, 'o, 'b, 'p, 'q, 'd) site_env \<Rightarrow> moment \<Rightarrow> claims \<Rightarrow> permission \<Rightarrow> web_request \<Rightarrow> string \<Rightarrow> string list
   \<Rightarrow> rate_limiter \<times> ('m, 'o) site \<Rightarrow> (rate_limiter \<times> ('m, 'o) site) \<times> http_response" where
  "call_outcome E mo cl permission wrq handler args st =
     (let (rl, s) = st; (rl', window) = window_of mo cl rl
      in if has_permission cl permission
         then (let (s', resp) = endpoint E mo wrq handler args s
               in ((rl', s'), add_rate_limit_headers resp default_rate_limit window))
         else ((rl', s), into_response (Forbidden (''requires '' @ permission_debug permission @ '' permission''))))"

lemma gate_forbids:
  assumes "rq_path rq \<noteq> health_path" "rq_path rq \<noteq> token_path" "extract_token rq = Some t" "verify_token ja t = Inr c"
    and "rd_allowed (snd (check_and_record_status clock (cl_sub c) default_rate_limit rl))"
    and "\<not> has_permission c (required_permission (rq_method rq) (rq_path rq))"
  shows "auth_middleware ja trust clock after run rq (rl, s) =
    ((fst (check_and_record_status clock (cl_sub c) default_rate_limit rl), s),
     into_response (Forbidden (''requires '' @ permission_debug (required_permission (rq_method rq) (rq_path rq)) @ '' permission'')))"
  using assms by (auto simp: auth_middleware_def Let_def split: prod.split)

lemma exempt_routes:
  "path_segments health_path = Some segs \<Longrightarrow> route_of segs = Some ([Lit ''health''], [(''GET'', ''health_check'')])"
  "path_segments token_path = Some segs \<Longrightarrow> route_of segs = Some (api [Lit ''auth'', Lit ''token''], [(''POST'', ''issue_token'')])"
proof -
  have paths: "path_segments health_path = Some [''health'']" "path_segments token_path = Some [''api'', ''v1'', ''auth'', ''token'']"
    by code_simp+
  have routes: "route_of [''health''] = Some ([Lit ''health''], [(''GET'', ''health_check'')])"
    "route_of [''api'', ''v1'', ''auth'', ''token''] = Some (api [Lit ''auth'', Lit ''token''], [(''POST'', ''issue_token'')])"
    by code_simp+
  show "path_segments health_path = Some segs \<Longrightarrow> route_of segs = Some ([Lit ''health''], [(''GET'', ''health_check'')])"
    "path_segments token_path = Some segs \<Longrightarrow> route_of segs = Some (api [Lit ''auth'', Lit ''token''], [(''POST'', ''issue_token'')])"
    by (auto simp: paths routes)
qed

lemma exempt_paths:
  assumes "dispatches decode meth segs h args" and "h \<notin> {''health_check'', ''issue_token''}"
  shows "path_of segs \<noteq> health_path" and "path_of segs \<noteq> token_path"
proof -
  obtain r where r: "route_of segs = Some r" "(meth, h) \<in> set (snd r)" "plain_segs segs"
    using assms(1) by (rule dispatched_route)
  then show "path_of segs \<noteq> health_path" "path_of segs \<noteq> token_path"
    using path_segments_path [OF r(3)] exempt_routes [of segs] assms(2) by auto
qed

text \<open>A request of a signed-in client that addresses a route.\<close>

lemma signed_in_request:
  assumes signed: "signed_in E mo rl c cl" and wrq: "wrq = client_http (en_print E) c peer rq"
    and url: "crq_url rq = ob_base_url c @ path_of segs @ query" "CHR ''?'' \<notin> set (path_of segs)" "query = [] \<or> hd query = CHR ''?''"
    and disp: "dispatches (en_decode E) (crq_method rq) segs h args"
    and h: "crq_method rq \<noteq> ''HEAD''" "h \<notin> {''health_check'', ''issue_token''}"
  shows "serve E mo wrq (rl, s) = call_outcome E mo cl (handler_permission (crq_method rq) h) wrq h args (rl, s)"
proof -
  note head = client_http_head [OF url, of "en_print E" peer, folded wrq]
  obtain r where r: "route_of segs = Some r" "r \<in> set create_router" "(crq_method rq, h) \<in> set (snd r)"
    "method_handler (crq_method rq) (snd r) = Some h" "map (en_decode E) (param_values (fst r) segs) = args"
    "list_all2 seg_matches (fst r) segs" "plain_segs segs"
    using disp by (rule dispatched_route)
  have "instance_of (fst r) (path_of segs)" using r(6) by (auto simp: instance_of_def)
  then have perm: "required_permission (crq_method rq) (path_of segs) = handler_permission (crq_method rq) h"
    using pattern_ok_permission [of "fst r" "snd r"] pattern_ok_table r(2,3) by (auto simp: list_all_iff)
  obtain t where t: "extract_token (wq_head wrq) = Some t" "verify_token (en_auth E) t = Inr cl"
    using signed client_token head(4) unfolding signed_in_def by metis
  have room: "rd_allowed (snd (window_of mo cl rl))" using signed by (simp add: signed_in_def window_of_def)
  have routed: "routed E mo wrq r segs s = endpoint E mo wrq h args s"
    using h(1) r(4,5) by (simp add: routed_def head(1) Let_def)
  have serve: "serve E mo wrq (rl, s) = auth_middleware (en_auth E) (en_trust_proxy E) (mo_clock mo) (mo_after mo)
      (\<lambda>_. routed E mo wrq r segs) (wq_head wrq) (rl, s)"
    by (simp add: serve_def head(2) path_segments_path [OF r(7)] r(1))
  note gate = exempt_paths [OF disp h(2), folded head(2)] t room [unfolded window_of_def]
  show ?thesis
  proof (cases "has_permission cl (handler_permission (crq_method rq) h)")
    case True
    then have "admitted (en_auth E) (mo_clock mo) rl (wq_head wrq) cl"
      using gate by (simp add: admitted_def head(1,2) perm)
    then show ?thesis using True by (simp add: call_outcome_def serve gate_admits routed window_of_def case_prod_beta)
  next
    case False
    then have "\<not> has_permission cl (required_permission (rq_method (wq_head wrq)) (rq_path (wq_head wrq)))"
      by (simp add: head(1,2) perm)
    then show ?thesis using False
      by (simp add: call_outcome_def serve gate_forbids [OF gate] head(1,2) perm window_of_def case_prod_beta)
  qed
qed

lemma client_paths_plain:
  assumes "url_laws U decode"
    and "nameable (arg_name A)" "nameable (arg_expiration A)" "nameable (arg_id A)"
    and "nameable (op_underlying (arg_path A))" "nameable (op_expiration (arg_path A))" "nameable (op_style (arg_path A))"
  shows "list_all (\<lambda>(rq, segs, _, _). CHR ''?'' \<notin> set (path_of segs) \<and> crq_method rq \<noteq> ''HEAD'') (client_calls U F c A)"
proof -
  have enc: "CHR ''?'' \<notin> set (encode_segment U x)" if "nameable x" for x
    using encode_segment_name(2) [OF assms(1) that] by (simp add: undelimited_def)
  have "\<forall>ch \<in> set (show_word k). is_digit ch" for k :: u64
    using show_nat_digits by (simp add: list_all_iff show_word_def)
  then have digits: "CHR ''?'' \<notin> set (show_word k)" for k :: u64 by (fastforce simp: is_digit_def)
  show ?thesis
    unfolding client_calls_def list.pred_inject prod.case
    by (intro conjI TrueI; simp add: path_of_def option_segs_def enc assms digits client_defs)
qed

text \<open>Arguments whose names can stand in a path and are no words of the route table.\<close>

definition addressable :: "call_args \<Rightarrow> bool" where
  "addressable A \<longleftrightarrow> nameable (arg_name A) \<and> nameable (arg_expiration A) \<and> nameable (arg_id A)
     \<and> nameable (op_underlying (arg_path A)) \<and> nameable (op_expiration (arg_path A)) \<and> nameable (op_style (arg_path A))
     \<and> arg_id A \<notin> {''bulk'', ''cancel-all'', ''market''}"

lemma client_request_served:
  assumes "url_laws U (en_decode E)"
    and "addressable A" and "signed_in E mo rl c cl"
    and call: "(rq, segs, handler, args) \<in> set (client_calls U F c A)" "handler \<notin> {''health_check'', ''issue_token''}"
  shows "serve E mo (client_http (en_print E) c peer rq) (rl, s) =
     call_outcome E mo cl (handler_permission (crq_method rq) handler) (client_http (en_print E) c peer rq) handler args (rl, s)"
proof -
  note names = assms(2) [unfolded addressable_def]
  have "addresses c rq segs \<and> dispatches (en_decode E) (crq_method rq) segs handler args"
    using client_requests_routed [OF assms(1), of A c F] names call(1) by (auto simp: list_all_iff)
  moreover have "CHR ''?'' \<notin> set (path_of segs)" "crq_method rq \<noteq> ''HEAD''"
    using client_paths_plain [OF assms(1), of A F c] names call(1) by (auto simp: list_all_iff)
  ultimately show ?thesis
    using call(2) signed_in_request [OF assms(3) refl, where rq = rq and segs = segs and h = handler and args = args]
    by (auto simp: addresses_def)
qed

section \<open>A call of the client, from its arguments to its result\<close>

text \<open>The text of a response body (\<open>src/src/error.rs\<close>) and what the caller of a client method gets.\<close>

fun body_text :: "(json \<Rightarrow> string) \<Rightarrow> resp_body \<Rightarrow> string" where
  "body_text print (ErrorBody err code) = print (JObj [(''error'', JStr err), (''code'', JStr code)])"
| "body_text print (RateLimitBody err code limit remaining reset retry_after) =
     print (JObj [(''error'', JStr err), (''code'', JStr code), (''limit'', enc_word limit), (''remaining'', enc_word remaining),
       (''reset'', enc_word reset), (''retry_after'', enc_word retry_after)])"
| "body_text print (OtherBody t) = t"

definition client_call :: "('m, 'o, 'b, 'p, 'q, 'd) site_env \<Rightarrow> moment \<Rightarrow> orderbook_client \<Rightarrow> string option \<Rightarrow> (json \<Rightarrow> 'r option)
   \<Rightarrow> client_request \<Rightarrow> rate_limiter \<times> ('m, 'o) site \<Rightarrow> (rate_limiter \<times> ('m, 'o) site) \<times> (client_error + 'r)" where
  "client_call E mo c peer d rq st =
     (let (st', r) = serve E mo (client_http (en_print E) c peer rq) st
      in (st', handle_response (en_parse E) d (resp_status r) (Some (body_text (en_print E) (resp_body r)))))"

text \<open>What a result of a handler is for the caller.\<close>

definition client_view :: "('m, 'o, 'b, 'p, 'q, 'd) site_env \<Rightarrow> ('a \<Rightarrow> json) \<Rightarrow> (json \<Rightarrow> 'r option) \<Rightarrow> api_error + 'a \<Rightarrow> client_error + 'r" where
  "client_view E enc d res =
     (case res of
        Inr v \<Rightarrow> (case d (enc v) of Some w \<Rightarrow> Inr w | None \<Rightarrow> Inl (CeHttp ''error decoding response body''))
      | Inl e \<Rightarrow>
          (let status = resp_status (into_response e); text = body_text (en_print E) (resp_body (into_response e))
           in Inl (if status = 404 then CeNotFound text else CeApi status text)))"

lemma handle_answer:
  assumes "json_text (en_parse E) (en_print E)"
  shows "handle_response (en_parse E) d (resp_status (answer E enc res)) (Some (body_text (en_print E) (resp_body (answer E enc res))))
    = client_view E enc d res"
proof (cases res)
  case (Inl e)
  then show ?thesis using client_sees_errors [of "en_parse E" d e] by (simp add: answer_def client_view_def Let_def)
next
  case (Inr v)
  then show ?thesis using assms
    by (simp add: answer_def json_answer_def client_view_def handle_response_def json_text_def split: option.split)
qed

lemma rate_limit_headers_keep [simp]:
  "resp_status (add_rate_limit_headers r limit d) = resp_status r"
  "resp_body (add_rate_limit_headers r limit d) = resp_body r"
  by (simp_all add: add_rate_limit_headers_def)

text \<open>A handler on the application state, called through the client.\<close>

definition through_client :: "('m, 'o, 'b, 'p, 'q, 'd) site_env \<Rightarrow> moment \<Rightarrow> claims \<Rightarrow> ('a \<Rightarrow> json) \<Rightarrow> (json \<Rightarrow> 'r option)
   \<Rightarrow> (('m, 'o) app_state \<Rightarrow> ('m, 'o) app_state \<times> (api_error + 'a))
   \<Rightarrow> rate_limiter \<times> ('m, 'o) site \<Rightarrow> (rate_limiter \<times> ('m, 'o) site) \<times> (client_error + 'r)" where
  "through_client E mo cl enc d f st =
     (let (rl, s) = st; (app, res) = f (sv_app (si_server s))
      in ((fst (window_of mo cl rl), s\<lparr>si_server := (si_server s)\<lparr>sv_app := app\<rparr>\<rparr>), client_view E enc d res))"

lemma client_call_app:
  assumes "url_laws U (en_decode E)" "addressable A" "signed_in E mo rl c cl" and parsed: "json_text (en_parse E) (en_print E)"
    and call: "(rq, segs, handler, args) \<in> set (client_calls U F c A)" "handler \<notin> {''health_check'', ''issue_token''}"
    and perm: "has_permission cl (handler_permission (crq_method rq) handler)"
    and handler: "endpoint E mo (client_http (en_print E) c peer rq) handler args s = on_app s f (answer E enc)"
  shows "client_call E mo c peer d rq (rl, s) = through_client E mo cl enc d f (rl, s)"
  using perm handle_answer [OF parsed, of d enc] client_request_served [OF assms(1-3) call, of peer s]
  by (simp add: client_call_def call_outcome_def handler on_app_def through_client_def Let_def case_prod_beta)

text \<open>The texts a client and the server exchange.\<close>

definition form_text :: "form_codec \<Rightarrow> (string \<Rightarrow> params option) \<Rightarrow> bool" where
  "form_text F parse \<longleftrightarrow> (\<forall>ps. parse (F ps) = Some ps) \<and> F [] = []"

lemma client_http_body:
  assumes "json_text (en_parse E) (en_print E)" and "crq_body rq = Some j"
  shows "json_body E (client_http (en_print E) c peer rq) d f s = (case d j of None \<Rightarrow> (s, en_reply E BadBody) | Some b \<Rightarrow> f b)"
  using assms by (simp add: json_body_def client_http_def Let_def json_text_def)

lemma client_http_query:
  assumes "form_text F (en_form E)" and "crq_url rq = with_query (ob_base_url c @ path) (map_option F q)" and "CHR ''?'' \<notin> set path"
  shows "query_params E (client_http (en_print E) c peer rq) d f s =
     (case d (case q of Some ps \<Rightarrow> ps | None \<Rightarrow> []) of None \<Rightarrow> (s, en_reply E BadQuery) | Some p \<Rightarrow> f p)"
proof -
  define query where "query = (case q of Some ps \<Rightarrow> if F ps = [] then [] else CHR ''?'' # F ps | None \<Rightarrow> [])"
  have url: "crq_url rq = ob_base_url c @ path @ query" "query = [] \<or> hd query = CHR ''?''"
    using assms(2) by (auto simp: query_def with_query_def split: option.split)
  have "en_form E [] = Some []" and parse: "en_form E (F ps) = Some ps" for ps
    using assms(1) by (auto simp: form_text_def dest: spec [of _ "[]"])
  moreover have "F ps = [] \<longleftrightarrow> ps = []" for ps
    using parse [of ps] parse [of "[]"] assms(1) unfolding form_text_def by (metis option.inject)
  ultimately show ?thesis
    unfolding query_params_def client_http_head(3) [OF url(1) assms(3) url(2)]
    by (auto simp: query_def split: option.split)
qed

lemma option_endpoints:
  "endpoint E mo rq ''add_order'' (option_args p) s = json_body E rq s_dec_add_order
     (\<lambda>b. on_app s (add_order (en_exchange E) (en_gen E) (mo_gtd mo) (mo_now mo) (op_underlying p) (op_expiration p) (op_strike p)
        (op_style p) b) (answer E enc_add_order_s)) s"
  "endpoint E mo rq ''submit_market_order'' (option_args p) s = json_body E rq s_dec_market_order
     (\<lambda>b. on_app s (submit_market_order (en_exchange E) (en_gen E) (op_underlying p) (op_expiration p) (op_strike p)
        (op_style p) b) (answer E enc_market_order_s)) s"
  "endpoint E mo rq ''cancel_order'' (option_args p @ [i]) s =
     on_app s (cancel_order (en_exchange E) (mo_now mo) (op_underlying p) (op_expiration p) (op_strike p)
        (op_style p) i) (answer E enc_cancel_order_s)"
  "endpoint E mo rq ''modify_order'' (option_args p @ [i]) s = json_body E rq s_dec_modify_order
     (\<lambda>b. on_app s (modify_order (en_exchange E) (en_gen E) (mo_now mo) (op_underlying p) (op_expiration p) (op_strike p)
        (op_style p) i b) (answer E enc_modify_order_s)) s"
  "endpoint E mo rq ''bulk_submit_orders'' [] s = json_body E rq s_dec_bulk_order
     (\<lambda>b. on_app s (bulk_submit_orders (en_exchange E) (en_gen E) (mo_bulk mo) b) (answer E enc_bulk_order_s)) s"
  "endpoint E mo rq ''bulk_cancel_orders'' [] s = json_body E rq s_dec_bulk_cancel
     (\<lambda>ids. on_app s (bulk_cancel_orders (en_exchange E) ids) (answer E enc_bulk_cancel_s)) s"
  "endpoint E mo rq ''cancel_all_orders'' [] s = query_params E rq s_dec_cancel_all_query
     (\<lambda>q. on_app s (cancel_all_orders (en_exchange E) q) (answer E enc_cancel_all_s)) s"
  by (simp_all add: endpoint_def order_endpoint_def option_args_def Let_def strike_param_def parse_u64_show_word)

section \<open>Properties\<close>


text \<open>The seven methods among the calls of the client.\<close>

lemma trading_calls:
  "(client_add_order U c (arg_path A) (arg_add A), option_segs U (arg_path A) @ [''orders''], ''add_order'', option_args (arg_path A))
     \<in> set (client_calls U F c A)"
  "(client_submit_market_order U c (arg_path A) (arg_market A), option_segs U (arg_path A) @ [''orders'', ''market''],
     ''submit_market_order'', option_args (arg_path A)) \<in> set (client_calls U F c A)"
  "(client_cancel_order U c (arg_path A) (arg_id A), option_segs U (arg_path A) @ [''orders'', encode_segment U (arg_id A)],
     ''cancel_order'', option_args (arg_path A) @ [arg_id A]) \<in> set (client_calls U F c A)"
  "(client_modify_order U c (arg_path A) (arg_id A) (arg_modify A), option_segs U (arg_path A) @ [''orders'', encode_segment U (arg_id A)],
     ''modify_order'', option_args (arg_path A) @ [arg_id A]) \<in> set (client_calls U F c A)"
  "(client_bulk_submit_orders c (arg_bulk A), [''api'', ''v1'', ''orders'', ''bulk''], ''bulk_submit_orders'', []) \<in> set (client_calls U F c A)"
  "(client_bulk_cancel_orders c (arg_ids A), [''api'', ''v1'', ''orders'', ''bulk''], ''bulk_cancel_orders'', []) \<in> set (client_calls U F c A)"
  "(client_cancel_all_orders F c (arg_cancel_all A), [''api'', ''v1'', ''orders'', ''cancel-all''], ''cancel_all_orders'', [])
     \<in> set (client_calls U F c A)"
  by (simp_all only: client_calls_def list.set insert_iff simp_thms)

text \<open>
  C2. A trading call of the client has exactly the effect of the handler. For a signed-in client with the
  permission to trade, each of the seven methods that enter, change or cancel orders leaves the
  server in the state that the handler leaves it in for the arguments of the call - no other
  part of the state moves - and returns what the client reads of the handler's answer or error.
\<close>

theorem client_trades_end_to_end:
  fixes A :: call_args
  assumes "url_laws U (en_decode E)"
    and "addressable A" and "signed_in E mo rl c cl"
    and "json_text (en_parse E) (en_print E)" and "form_text F (en_form E)" and "has_permission cl PermTrade"
  defines "X \<equiv> en_exchange E" and "gen \<equiv> en_gen E" and "p \<equiv> arg_path A"
  shows "client_call E mo c peer dec_add_order_c (client_add_order U c p (arg_add A)) (rl, s)
      = through_client E mo cl enc_add_order_s dec_add_order_c
          (add_order X gen (mo_gtd mo) (mo_now mo) (op_underlying p) (op_expiration p) (op_strike p) (op_style p) (plain_order (arg_add A))) (rl, s)
    \<and> client_call E mo c peer dec_market_order_c (client_submit_market_order U c p (arg_market A)) (rl, s)
      = through_client E mo cl enc_market_order_s dec_market_order_c
          (submit_market_order X gen (op_underlying p) (op_expiration p) (op_strike p) (op_style p) (arg_market A)) (rl, s)
    \<and> client_call E mo c peer dec_cancel_order_c (client_cancel_order U c p (arg_id A)) (rl, s)
      = through_client E mo cl enc_cancel_order_s dec_cancel_order_c
          (cancel_order X (mo_now mo) (op_underlying p) (op_expiration p) (op_strike p) (op_style p) (arg_id A)) (rl, s)
    \<and> client_call E mo c peer dec_modify_order_c (client_modify_order U c p (arg_id A) (arg_modify A)) (rl, s)
      = through_client E mo cl enc_modify_order_s dec_modify_order_c
          (modify_order X gen (mo_now mo) (op_underlying p) (op_expiration p) (op_strike p) (op_style p) (arg_id A) (arg_modify A)) (rl, s)
    \<and> client_call E mo c peer dec_bulk_order_c (client_bulk_submit_orders c (arg_bulk A)) (rl, s)
      = through_client E mo cl enc_bulk_order_s dec_bulk_order_c (bulk_submit_orders X gen (mo_bulk mo) (arg_bulk A)) (rl, s)
    \<and> client_call E mo c peer dec_bulk_cancel_c (client_bulk_cancel_orders c (arg_ids A)) (rl, s)
      = through_client E mo cl enc_bulk_cancel_s dec_bulk_cancel_c (bulk_cancel_orders X (arg_ids A)) (rl, s)
    \<and> client_call E mo c peer dec_cancel_all_c (client_cancel_all_orders F c (arg_cancel_all A)) (rl, s)
      = through_client E mo cl enc_cancel_all_s dec_cancel_all_c
          (cancel_all_orders X (case arg_cancel_all A of
               None \<Rightarrow> \<lparr>ca_underlying = None, ca_expiration = None, ca_side = None, ca_style = None\<rparr>
             | Some q \<Rightarrow> \<lparr>ca_underlying = ccq_underlying q, ca_expiration = ccq_expiration q,
                 ca_side = map_option order_side_display (ccq_side q), ca_style = ccq_style q\<rparr>)) (rl, s)"
proof -
  note body = client_http_body [OF assms(4)]
  have url: "crq_url (client_cancel_all_orders F c (arg_cancel_all A))
      = with_query (ob_base_url c @ ''/api/v1/orders/cancel-all'') (map_option F (map_option c_enc_cancel_all_query (arg_cancel_all A)))"
    by (simp add: client_cancel_all_orders_def option.map_comp)
  have no_query: "s_dec_cancel_all_query [] = Some \<lparr>ca_underlying = None, ca_expiration = None, ca_side = None, ca_style = None\<rparr>"
    by (simp add: s_dec_cancel_all_query_def field_defs json_simps)
  note query = client_http_query [OF assms(5) url, unfolded client_cancel_all_orders_def]
  note call = client_call_app [OF assms(1-4), where F = F]
  note reads = add_order_request_read market_order_request_read modify_order_request_read bulk_order_request_read
    bulk_cancel_request_read cancel_all_query_read no_query
  show ?thesis unfolding X_def gen_def p_def
    by (intro conjI call [OF trading_calls(1)] call [OF trading_calls(2)] call [OF trading_calls(3)] call [OF trading_calls(4)]
          call [OF trading_calls(5)] call [OF trading_calls(6)] call [OF trading_calls(7)])
      (simp_all add: client_defs handler_permission_def admin_handlers_def assms(6) option_endpoints body query reads split: option.split)
qed

text \<open>What the caller reads of a result that is not an error.\<close>

lemma trading_views:
  "client_view E enc_add_order_s dec_add_order_c (Inr r) = Inr \<lparr>caor_order_id = aor_order_id r, caor_message = aor_message r\<rparr>"
  "client_view E enc_cancel_order_s dec_cancel_order_c (Inr r1) = Inr r1"
  "client_view E enc_modify_order_s dec_modify_order_c (Inr r2) = Inr r2"
  "finite_opt a \<Longrightarrow> client_view E enc_market_order_s dec_market_order_c (Inr (r3, a)) = Inr (r3, a)"
  "bulk_order_ok r4 \<Longrightarrow> client_view E enc_bulk_order_s dec_bulk_order_c (Inr r4) = Inr r4"
  "bulk_cancel_ok r5 \<Longrightarrow> client_view E enc_bulk_cancel_s dec_bulk_cancel_c (Inr r5) = Inr r5"
  "cancel_all_ok r6 \<Longrightarrow> client_view E enc_cancel_all_s dec_cancel_all_c (Inr r6) = Inr r6"
  by (simp_all add: client_view_def add_order_answer_read market_order_answer_read bulk_order_answer_read json_simps)


text \<open>The handlers that can change the server, none of which is behind GET.\<close>

definition changing_handlers :: "string list" where
  "changing_handlers =
     [''add_order'', ''submit_market_order'', ''cancel_order'', ''modify_order'', ''bulk_submit_orders'', ''bulk_cancel_orders'',
      ''cancel_all_orders'', ''kill_switch'', ''enable_quoting'', ''update_parameters'', ''toggle_instrument'', ''insert_price'',
      ''create_underlying'', ''delete_underlying'', ''create_expiration'', ''create_strike'', ''create_snapshot'', ''restore_snapshot'']"

lemma extractors_read:
  "(\<And>b. si_server (fst (f b)) = sv) \<Longrightarrow> si_server s = sv \<Longrightarrow> si_server (fst (json_body E rq d f s)) = sv"
  "(\<And>q. si_server (fst (g q)) = sv) \<Longrightarrow> si_server s = sv \<Longrightarrow> si_server (fst (query_params E rq d' g s)) = sv"
  "(\<And>k. si_server (fst (h k)) = sv) \<Longrightarrow> si_server s = sv \<Longrightarrow> si_server (fst (strike_param E w h s)) = sv"
  by (simp_all add: json_body_def query_params_def strike_param_def split: option.split)

lemma endpoint_reads:
  assumes "h \<notin> set changing_handlers"
  shows "order_endpoint E mo rq h args s = Some p \<Longrightarrow> si_server (fst p) = si_server s"
    and "control_endpoint E mo rq h args s = Some p \<Longrightarrow> si_server (fst p) = si_server s"
    and "hierarchy_endpoint E h args s = Some p \<Longrightarrow> si_server (fst p) = si_server s"
    and "market_endpoint E mo rq h args s = Some p \<Longrightarrow> si_server (fst p) = si_server s"
    and "account_endpoint E rq h args s = Some p \<Longrightarrow> si_server (fst p) = si_server s"
    and "admin_endpoint E mo rq h args s = Some p \<Longrightarrow> si_server (fst p) = si_server s"
  using assms
  by (auto simp: endpoint_defs Let_def changing_handlers_def split: list.splits if_splits prod.splits intro!: extractors_read)

lemma router_reads:
  "list_all (\<lambda>r. list_all (\<lambda>(m, h). m = ''GET'' \<longrightarrow> h \<notin> set changing_handlers) (snd r)) create_router"
  by (simp add: create_router_def api_def option_prefix_def changing_handlers_def)

lemma router_methods:
  "list_all (\<lambda>r. list_all (\<lambda>(m, h). m \<in> {''GET'', ''POST'', ''PATCH'', ''DELETE''}) (snd r)) create_router"
  by (simp add: create_router_def api_def option_prefix_def)

lemma route_in_table: "route_of segs = Some r \<Longrightarrow> r \<in> set create_router"
  by (auto simp: route_of_def Let_def matching_routes_def find_Some_iff dest!: nth_mem)

lemma reading_method:
  assumes "has_permission c (required_permission meth path)" and "\<not> has_permission c PermTrade"
  shows "meth \<notin> {''POST'', ''PATCH'', ''DELETE''}"
  using assms unfolding required_permission_def has_permission_def
  by (auto simp del: starts_with_Cons split: if_splits)

lemma routed_reads:
  assumes "\<And>h. method_handler (rq_method (wq_head rq)) (snd r) = Some h \<Longrightarrow> h \<notin> set changing_handlers"
  shows "si_server (fst (routed E mo rq r segs s)) = si_server s"
proof -
  have "si_server (fst (endpoint E mo rq h args s)) = si_server s" if "h \<notin> set changing_handlers" for h args
    unfolding endpoint_def by (auto dest: endpoint_reads [OF that] split: option.split)
  then show ?thesis using assms by (simp add: routed_def Let_def case_prod_beta split: option.split)
qed

lemma method_reads:
  assumes "r \<in> set create_router" and "meth \<notin> {''POST'', ''PATCH'', ''DELETE''}" and "method_handler meth (snd r) = Some h"
  shows "h \<notin> set changing_handlers"
proof -
  obtain m where m: "(m, h) \<in> set (snd r)" "m = meth \<or> meth = ''HEAD'' \<and> m = ''GET''"
    using assms(3) by (auto simp: method_handler_def split: option.splits if_splits dest!: map_of_SomeD)
  then have "m \<in> {''GET'', ''POST'', ''PATCH'', ''DELETE''}" "m = ''GET'' \<longrightarrow> h \<notin> set changing_handlers"
    using assms(1) router_reads router_methods by (auto simp: list_all_iff)
  then show ?thesis using m(2) assms(2) by blast
qed

lemma exempt_reads:
  assumes "path = health_path \<or> path = token_path" and "path_segments path = Some segs" and "route_of segs = Some r"
    and "method_handler meth (snd r) = Some h"
  shows "h \<notin> set changing_handlers"
proof -
  have "h = ''health_check'' \<or> h = ''issue_token''"
    using assms exempt_routes [of segs] by (auto simp: method_handler_def split: if_splits)
  then show ?thesis by (auto simp: changing_handlers_def)
qed

text \<open>
  C3. Without a token that may trade, nothing changes. Whatever request arrives - any path, any method, any
  headers and body - unless it carries a token that verifies to claims with the permission to trade
  (or to administer), every part of the server is after it as it was before.
\<close>

theorem unauthorised_changes_nothing:
  assumes "serve E mo rq (rl, s) = ((rl', s'), r)"
    and "\<And>token cl. extract_token (wq_head rq) = Some token \<Longrightarrow> verify_token (en_auth E) token = Inr cl
      \<Longrightarrow> \<not> has_permission cl PermTrade"
  shows "si_server s' = si_server s"
proof (cases "s' = s")
  case False
  then obtain rt segs where route: "path_segments (rq_path (wq_head rq)) = Some segs" "route_of segs = Some rt"
    and gate: "auth_middleware (en_auth E) (en_trust_proxy E) (mo_clock mo) (mo_after mo)
        (\<lambda>_. routed E mo rq rt segs) (wq_head rq) (rl, s) = ((rl', s'), r)"
    using assms(1) by (auto simp: serve_def split: option.splits)
  note reads = routed_reads [of rq rt E mo segs s]
  from gate_runs [OF gate False] show ?thesis
  proof (elim disjE exE conjE)
    fix token c
    assume "extract_token (wq_head rq) = Some token" "verify_token (en_auth E) token = Inr c"
      and permitted: "has_permission c (required_permission (rq_method (wq_head rq)) (rq_path (wq_head rq)))"
      and s': "s' = fst (routed E mo rq rt segs s)"
    then have "\<not> has_permission c PermTrade" using assms(2) by blast
    from method_reads [OF route_in_table [OF route(2)] reading_method [OF permitted this]] reads show ?thesis
      by (simp add: s')
  qed (use exempt_reads [OF _ route] reads in auto)
qed simp

text \<open>The small exchange behind the gate, and a client with the permission to trade there.\<close>

definition demo_form :: form_codec where
  "demo_form ps = (if ps = [] then [] else CHR ''x'' # replicate (to_nat ps) (CHR ''x''))"

definition demo_form_parse :: "string \<Rightarrow> params option" where
  "demo_form_parse t = Some (if t = [] then [] else from_nat (length t - 1))"

lemma demo_form_text: "form_text demo_form demo_form_parse"
  by (simp add: form_text_def demo_form_def demo_form_parse_def)

definition demo_trader_claims :: claims where
  "demo_trader_claims = \<lparr>cl_sub = ''u'', cl_iss = ''me'', cl_iat = 5, cl_exp = 15, cl_permissions = [PermTrade]\<rparr>"

definition demo_site_env :: "(demo_state, nat, (nat \<times> book_side \<times> u128 \<times> u64) list, f64, unit, unit) site_env" where
  "demo_site_env = \<lparr>en_exchange = demo_exchange, en_gen = (\<lambda>n. n), en_quoter = demo_quoter f_zero, en_counters = demo_stats,
     en_counts = (\<lambda>_. (0, 0, 0, 0)), en_best = (\<lambda>_ _. demo_quote), en_snap = demo_snapshots,
     en_metrics = \<lparr>ml_enriched = (\<lambda>_ _ _. \<lparr>en_timestamp = 0, en_bids = [], en_asks = [],
          en_stats = \<lparr>ss_mid_price = None, ss_spread_bps = None, ss_bid_depth_total = 0, ss_ask_depth_total = 0,
            ss_imbalance = f_zero, ss_vwap_bid = None, ss_vwap_ask = None\<rparr>\<rparr>),
        ml_micro_price = (\<lambda>_ _. None), ml_market_impact = (\<lambda>_ _ _ _. (f_zero, f_zero))\<rparr>,
     en_iv = demo_iv,
     en_greeks = \<lparr>gl_positive = (\<lambda>_. None), gl_from_f64 = (\<lambda>_. None), gl_default = (), gl_to_f64 = (\<lambda>_. None),
        gl_greeks = (\<lambda>_. Inl ''none''), gl_price = (\<lambda>_. Inl ''none'')\<rparr>,
     en_days = (\<lambda>_. 30), en_message = (\<lambda>_ _. []), en_rfc3339 = (\<lambda>_. None), en_parse_date = (\<lambda>_. None), en_prices = None,
     en_version = ''1'',
     en_auth = \<lparr>ja_lib = \<lparr>jwt_encode = (\<lambda>_. None), jwt_decode = (\<lambda>t. if t = ''t'' then Inr demo_trader_claims else Inl OtherJwtError)\<rparr>,
        ja_issuer = ''me'', ja_default_ttl_secs = 1\<rparr>,
     en_bootstrap = None, en_trust_proxy = False, en_parse = demo_parse, en_print = demo_print, en_form = demo_form_parse,
     en_decode = demo_decode,
     en_reply = (\<lambda>_. \<lparr>resp_status = 404, resp_headers = [], resp_body = OtherBody []\<rparr>)\<rparr>"

definition demo_moment :: moment where
  "demo_moment = \<lparr>mo_clock = (\<lambda>_. 100000), mo_after = 0, mo_now = 7, mo_gtd = 0, mo_bulk = (\<lambda>_. 0), mo_secs = 0, mo_done = 0,
     mo_time = [], mo_uuid = [], mo_join = None\<rparr>"

definition demo_site :: "(demo_state, nat) site" where
  "demo_site = \<lparr>si_server = demo_server, si_surfaces = []\<rparr>"

definition demo_trader :: orderbook_client where
  "demo_trader = \<lparr>ob_headers = [(''authorization'', ''Bearer t'')], ob_timeout_secs = 30, ob_base_url = ''http://localhost:8080'',
     ob_token = Some ''t''\<rparr>"

definition demo_trade_args :: call_args where
  "demo_trade_args = demo_args\<lparr>arg_path := option_path_call ''U'' ''20300101'' 100,
     arg_add := \<lparr>cao_side = Buy, cao_price = 150, cao_quantity = 5\<rparr>\<rparr>"

lemma demo_signed_in: "signed_in demo_site_env demo_moment limiter_new demo_trader demo_trader_claims"
proof -
  have "client_new (\<lambda>_. True) None (client_config_default\<lparr>clc_token := Some ''t''\<rparr>) = Inr demo_trader"
    by (simp add: client_new_def client_config_default_def demo_trader_def)
  moreover have "verify_token (en_auth demo_site_env) ''t'' = Inr demo_trader_claims"
    by (simp add: verify_token_def demo_site_env_def)
  moreover have "trim ''t'' = ''t''" by (simp add: trim_def is_space_def)
  moreover have "clc_token (client_config_default\<lparr>clc_token := Some ''t''\<rparr>) = Some ''t''" by simp
  moreover have "rd_allowed (snd (check_and_record_status (mo_clock demo_moment) (cl_sub demo_trader_claims) default_rate_limit limiter_new))"
    using rate_limiter_bounded_and_available [of limiter_new "mo_clock demo_moment" "cl_sub demo_trader_claims" default_rate_limit]
    by (simp add: limiter_ok_def limiter_new_def prune_and_record_result prune_window_def default_rate_limit_def dm_ok_def)
  ultimately show ?thesis unfolding signed_in_def by blast
qed

lemma demo_addressable: "addressable demo_trade_args"
  by (simp add: addressable_def demo_trade_args_def demo_args_def nameable_def option_path_call_def)

lemma demo_site_fields [simp]:
  "en_exchange demo_site_env = demo_exchange" "en_gen demo_site_env = (\<lambda>n. n)" "en_counters demo_site_env = demo_stats"
  "en_snap demo_site_env = demo_snapshots" "en_decode demo_site_env = demo_decode" "en_print demo_site_env = demo_print"
  "en_parse demo_site_env = demo_parse" "en_form demo_site_env = demo_form_parse"
  "mo_gtd demo_moment = 0" "mo_now demo_moment = 7"
  "si_server demo_site = demo_server" "si_surfaces demo_site = []"
  "has_permission demo_trader_claims PermTrade" "\<not> has_permission demo_trader_claims PermAdmin"
  "sv_app demo_server = demo_start"
  by (simp_all add: demo_site_env_def demo_moment_def demo_site_def demo_trader_claims_def has_permission_def
      demo_server_def from_config_def demo_config_server_def demo_start_def)

lemmas demo_caller = demo_url_laws [folded demo_site_fields(5)] demo_addressable demo_signed_in
  demo_json_text [folded demo_site_fields(6,7)] demo_form_text [folded demo_site_fields(8)]


lemma demo_trade_effect:
  "\<exists>message. through_client demo_site_env demo_moment demo_trader_claims enc_add_order_s dec_add_order_c
     (add_order demo_exchange (\<lambda>n. n) 0 7 ''U'' ''20300101'' 100 ''call'' (plain_order \<lparr>cao_side = Buy, cao_price = 150, cao_quantity = 5\<rparr>))
     (limiter_new, demo_site)
   = ((fst (window_of demo_moment demo_trader_claims limiter_new), demo_site\<lparr>si_server := demo_server\<lparr>sv_app := demo_resting\<rparr>\<rparr>),
      Inr \<lparr>caor_order_id = ''0'', caor_message = message\<rparr>)"
proof -
  have body: "plain_order \<lparr>cao_side = Buy, cao_price = 150, cao_quantity = 5\<rparr> = demo_add_request Buy 5"
    by (simp add: plain_order_def demo_add_request_def)
  obtain resp where "add_order demo_exchange (\<lambda>n. n) 0 7 ''U'' ''20300101'' 100 ''call'' (demo_add_request Buy 5) demo_start
      = (demo_resting, Inr resp)" "aor_order_id resp = ''0''"
    using demo_add_run by blast
  then show ?thesis by (simp add: through_client_def body trading_views)
qed

lemma demo_trade_path:
  "arg_path demo_trade_args = option_path_call ''U'' ''20300101'' 100"
  "arg_add demo_trade_args = \<lparr>cao_side = Buy, cao_price = 150, cao_quantity = 5\<rparr>"
  "op_underlying (option_path_call u e k) = u" "op_expiration (option_path_call u e k) = e"
  "op_strike (option_path_call u e k) = k" "op_style (option_path_call u e k) = ''call''"
  by (simp_all add: demo_trade_args_def option_path_call_def)

lemma client_trades_end_to_end_witness:
  "\<exists>rl' message. client_call demo_site_env demo_moment demo_trader None dec_add_order_c
     (client_add_order demo_url demo_trader (option_path_call ''U'' ''20300101'' 100) \<lparr>cao_side = Buy, cao_price = 150, cao_quantity = 5\<rparr>)
     (limiter_new, demo_site)
   = ((rl', demo_site\<lparr>si_server := demo_server\<lparr>sv_app := demo_resting\<rparr>\<rparr>), Inr \<lparr>caor_order_id = ''0'', caor_message = message\<rparr>)"
  using client_trades_end_to_end [OF demo_caller demo_site_fields(13), THEN conjunct1, of None demo_site] demo_trade_effect
  by (simp add: demo_trade_path) blast


lemma unauthorised_changes_nothing_witness:
  "si_server (snd (fst (serve demo_site_env demo_moment (client_http demo_print demo_client None (client_kill_switch demo_client))
     (limiter_new, demo_site)))) = demo_server"
proof -
  let ?rq = "client_http demo_print demo_client None (client_kill_switch demo_client)"
  obtain rl' s' r where run: "serve demo_site_env demo_moment ?rq (limiter_new, demo_site) = ((rl', s'), r)"
    by (metis prod.collapse)
  have "rq_authorization (wq_head ?rq) = None" "rq_query (wq_head ?rq) = None"
    using client_http_head(3,4) [of "client_kill_switch demo_client" demo_client "''/api/v1/controls/kill-switch''" "[]" demo_print None]
    by (simp_all add: client_kill_switch_def demo_client_def)
  then have "extract_token (wq_head ?rq) = None" by (simp add: extract_token_def query_token_def)
  then have "si_server s' = si_server demo_site" by (intro unauthorised_changes_nothing [OF run]) simp
  then show ?thesis by (simp add: run)
qed

end
