(* ===== verification/Shutdown.thy ===== *)
theory Shutdown
  imports Startup Api Socket
begin

text \<open>
  The life of a serving process (\<open>main\<close> of \<open>src/src/main.rs\<close> from the first background task to the
  return, \<open>run\<close> of \<open>src/src/simulation.rs\<close>): requests, WebSocket connections and the loops of
  the background tasks, the termination signal, the drain of the requests in flight, the shutdown
  flag and the wait for the tasks. A tick of the simulation that the shutdown cuts in the middle
  is modelled here.

  Whether axum's graceful shutdown also waits for connections that were upgraded to WebSockets is a
  parameter (\<open>waits\<close>).
\<close>

section \<open>The loops of the background tasks\<close>

text \<open>What a tick reads: the clocks, the fate of the generation tasks, the dates chrono represents.\<close>

record tick_input =
  ti_now_ms :: u64
  ti_now_ns :: int
  ti_ended :: "string \<Rightarrow> task_end"
  ti_represents :: "int \<Rightarrow> bool"

text \<open>
  One pass through the loop of a task, and whether the loop goes on. A disabled simulation returns
  at once; a clean-up whose retention leaves the calendar panics and is never started again.
\<close>

fun task_tick :: "('m, 'o, 'b, 'p, 'q, 'd) site_env \<Rightarrow> walk_lib \<Rightarrow> config \<Rightarrow> tick_input \<Rightarrow> background_task
   \<Rightarrow> rate_limiter \<times> ('m, 'o) site \<Rightarrow> (rate_limiter \<times> ('m, 'o) site) \<times> bool" where
  "task_tick E W cfg i SimulationTask (rl, s) =
     (let sv = si_server s; v = st_venue (sv_app sv) in
      case sv_simulator sv of
        None \<Rightarrow> ((rl, s), False)
      | Some sim \<Rightarrow>
          if \<not> sim_enabled (cf_simulation cfg) then ((rl, s), False)
          else (let (sim', mm) = process_tick (en_exchange E) (en_quoter E) (en_gen E) W (cf_simulation cfg) (ti_now_ms i) (ti_ended i)
                      (cf_assets cfg) (sim, Some v)
                in ((rl, s\<lparr>si_server := (on_venue (\<lambda>v. unwrap_or mm v) sv)\<lparr>sv_simulator := Some sim'\<rparr>\<rparr>), True)))"
| "task_tick E W cfg i (CleanupTask interval retention) (rl, s) =
     (case cleanup_old_orders (ti_represents i) (ti_now_ns i) retention (sv_app (si_server s)) of
        None \<Rightarrow> ((rl, s), False)
      | Some (n, st) \<Rightarrow> ((rl, s\<lparr>si_server := (si_server s)\<lparr>sv_app := st\<rparr>\<rparr>), True))"
| "task_tick E W cfg i (SweepTask interval) (rl, s) = ((fst (sweep_expired (ti_now_ms i) rl), s), True)"

text \<open>
  A tick of the simulation that the shutdown cuts: the assets before one whose walk is exhausted
  have their new prices, that one has advanced its walk and waits for the generation of the next
  path, and the work is dropped there, the only point where the tick waits.
\<close>

definition cut_tick :: "('m, 'o, 'b, 'p, 'q, 'd) site_env \<Rightarrow> walk_lib \<Rightarrow> config \<Rightarrow> tick_input \<Rightarrow> nat
   \<Rightarrow> ('m, 'o) server \<Rightarrow> ('m, 'o) server option" where
  "cut_tick E W cfg i n sv =
     (case (sv_simulator sv, drop n (cf_assets cfg)) of
        (Some sim, asset # _) \<Rightarrow>
          (let (sim, mm) = process_tick (en_exchange E) (en_quoter E) (en_gen E) W (cf_simulation cfg) (ti_now_ms i) (ti_ended i)
                 (take n (cf_assets cfg)) (sim, Some (st_venue (sv_app sv)))
           in case advance_step (as_symbol asset) sim of
                (NeedsRegen, sim) \<Rightarrow> Some ((on_venue (\<lambda>v. unwrap_or mm v) sv)\<lparr>sv_simulator := Some sim\<rparr>)
              | _ \<Rightarrow> None)
      | _ \<Rightarrow> None)"

section \<open>The process\<close>

datatype phase = Accepting | Draining | Stopped | Joining | Exited

text \<open>
  The open requests are counted; a WebSocket is with the claims of its caller, also after it has
  ended; a task is with whether its loop still runs; \<open>main\<close> returns the error of the server, when it
  had one (\<open>pr_failed\<close>), after the tasks have ended.
\<close>

record ('m, 'o) process =
  pr_phase :: phase
  pr_requests :: nat
  pr_sockets :: "(claims \<times> socket) list"
  pr_flag :: bool
  pr_failed :: bool
  pr_tasks :: "(background_task \<times> bool) list"
  pr_site :: "rate_limiter \<times> ('m, 'o) site"

definition launch :: "('m, 'o) launched \<Rightarrow> ('m, 'o) process" where
  "launch l = \<lparr>pr_phase = Accepting, pr_requests = 0, pr_sockets = [], pr_flag = False, pr_failed = False,
     pr_tasks = map (\<lambda>t. (t, True)) (la_tasks l),
     pr_site = (limiter_new, \<lparr>si_server = la_server l, si_surfaces = []\<rparr>)\<rparr>"

definition is_open :: "socket \<Rightarrow> bool" where
  "is_open so \<longleftrightarrow> so_reader so \<or> so_writer so"

definition open_sockets :: "('m, 'o) process \<Rightarrow> nat" where
  "open_sockets p = length (filter (is_open \<circ> snd) (pr_sockets p))"

text \<open>A request for the upgrade that the gate lets through.\<close>

definition upgrades :: "('m, 'o, 'b, 'p, 'q, 'd) site_env \<Rightarrow> moment \<Rightarrow> web_request \<Rightarrow> rate_limiter \<Rightarrow> claims \<Rightarrow> bool" where
  "upgrades E mo rq rl c \<longleftrightarrow> rq_method (wq_head rq) = ''GET'' \<and> rq_path (wq_head rq) = ''/ws''
     \<and> admitted (en_auth E) (mo_clock mo) rl (wq_head rq) c"

definition finished :: "('m, 'o) process \<Rightarrow> bool" where
  "finished p \<longleftrightarrow> list_all (\<lambda>t. \<not> snd t) (pr_tasks p)"

text \<open>
  What can happen. The flag is raised by \<open>main\<close> after \<open>axum::serve\<close> has returned and before it waits
  for the tasks; the process ends when the last of them has. A loop or connection that sees the flag
  breaks. The inputs of a connection - what its client sends, the events broadcast to it, the
  heartbeat - are any.
\<close>

datatype life_event =
    Connect
  | Request moment web_request
  | Handshake moment web_request
  | Frame nat socket_input
  | Signal
  | ServeFails
  | Drained
  | Raise
  | Tick nat tick_input
  | Cut nat nat tick_input
  | Break nat
  | Exit

inductive life_step ::
  "('m, 'o, 'b, 'p, 'q, 'd) site_env \<Rightarrow> walk_lib \<Rightarrow> config \<Rightarrow> bool \<Rightarrow> life_event \<Rightarrow> ('m, 'o) process \<Rightarrow> ('m, 'o) process \<Rightarrow> bool"
  for E W cfg waits where
  life_connect: "pr_phase p = Accepting \<Longrightarrow> life_step E W cfg waits Connect p (p\<lparr>pr_requests := Suc (pr_requests p)\<rparr>)"
| life_request: "pr_phase p \<noteq> Exited \<Longrightarrow> pr_requests p = Suc n \<Longrightarrow> serve E mo rq (pr_site p) = (st, r)
    \<Longrightarrow> life_step E W cfg waits (Request mo rq) p (p\<lparr>pr_requests := n, pr_site := st\<rparr>)"
| life_handshake: "pr_phase p \<noteq> Exited \<Longrightarrow> pr_requests p = Suc n \<Longrightarrow> upgrades E mo rq (fst (pr_site p)) c
    \<Longrightarrow> serve E mo rq (pr_site p) = (st, r)
    \<Longrightarrow> life_step E W cfg waits (Handshake mo rq) p
          (p\<lparr>pr_requests := n, pr_sockets := pr_sockets p @ [(c, socket_new)], pr_site := st\<rparr>)"
| life_frame: "pr_phase p \<noteq> Exited \<Longrightarrow> j < length (pr_sockets p) \<Longrightarrow> pr_sockets p ! j = (c, so) \<Longrightarrow> pr_site p = (rl, s)
    \<Longrightarrow> (i = EvShutdown \<Longrightarrow> pr_flag p)
    \<Longrightarrow> socket_step (handle_client_message (en_exchange E) D (en_quoter E) (en_gen E) (en_message E) parse (cl_permissions c))
          (so, sv_app (si_server s)) i (so', st)
    \<Longrightarrow> life_step E W cfg waits (Frame j i) p
          (p\<lparr>pr_sockets := (pr_sockets p)[j := (c, so')], pr_site := (rl, s\<lparr>si_server := (si_server s)\<lparr>sv_app := st\<rparr>\<rparr>)\<rparr>)"
| life_signal: "pr_phase p = Accepting \<Longrightarrow> life_step E W cfg waits Signal p (p\<lparr>pr_phase := Draining\<rparr>)"
| life_serve_fails: "pr_phase p = Accepting \<Longrightarrow> life_step E W cfg waits ServeFails p (p\<lparr>pr_phase := Stopped, pr_failed := True\<rparr>)"
| life_drained: "pr_phase p = Draining \<Longrightarrow> pr_requests p = 0 \<Longrightarrow> (waits \<Longrightarrow> open_sockets p = 0)
    \<Longrightarrow> life_step E W cfg waits Drained p (p\<lparr>pr_phase := Stopped\<rparr>)"
| life_raise: "pr_phase p = Stopped \<Longrightarrow> life_step E W cfg waits Raise p (p\<lparr>pr_phase := Joining, pr_flag := True\<rparr>)"
| life_tick: "pr_phase p \<noteq> Exited \<Longrightarrow> k < length (pr_tasks p) \<Longrightarrow> pr_tasks p ! k = (t, True) \<Longrightarrow> task_tick E W cfg i t (pr_site p) = (st, on)
    \<Longrightarrow> life_step E W cfg waits (Tick k i) p (p\<lparr>pr_tasks := (pr_tasks p)[k := (t, on)], pr_site := st\<rparr>)"
| life_cut: "pr_phase p \<noteq> Exited \<Longrightarrow> pr_flag p \<Longrightarrow> k < length (pr_tasks p) \<Longrightarrow> pr_tasks p ! k = (SimulationTask, True)
    \<Longrightarrow> sim_enabled (cf_simulation cfg) \<Longrightarrow> pr_site p = (rl, s) \<Longrightarrow> cut_tick E W cfg i n (si_server s) = Some sv
    \<Longrightarrow> life_step E W cfg waits (Cut k n i) p
          (p\<lparr>pr_tasks := (pr_tasks p)[k := (SimulationTask, False)], pr_site := (rl, s\<lparr>si_server := sv\<rparr>)\<rparr>)"
| life_break: "pr_phase p \<noteq> Exited \<Longrightarrow> pr_flag p \<Longrightarrow> k < length (pr_tasks p) \<Longrightarrow> pr_tasks p ! k = (t, True)
    \<Longrightarrow> life_step E W cfg waits (Break k) p (p\<lparr>pr_tasks := (pr_tasks p)[k := (t, False)]\<rparr>)"
| life_exit: "pr_phase p = Joining \<Longrightarrow> finished p \<Longrightarrow> life_step E W cfg waits Exit p (p\<lparr>pr_phase := Exited\<rparr>)"

text \<open>A run: what happened, in order, from one state to another.\<close>

inductive life_run ::
  "('m, 'o, 'b, 'p, 'q, 'd) site_env \<Rightarrow> walk_lib \<Rightarrow> config \<Rightarrow> bool \<Rightarrow> life_event list \<Rightarrow> ('m, 'o) process \<Rightarrow> ('m, 'o) process \<Rightarrow> bool"
  for E W cfg waits where
  life_none: "life_run E W cfg waits [] p p"
| life_more: "life_step E W cfg waits e p q \<Longrightarrow> life_run E W cfg waits es q r \<Longrightarrow> life_run E W cfg waits (e # es) p r"

inductive_cases life_life_noneE [elim!]: "life_run E W cfg waits [] p q"
inductive_cases life_life_moreE [elim]: "life_run E W cfg waits (e # es) p q"

lemma life_run_append:
  "life_run E W cfg waits es p q \<Longrightarrow> life_run E W cfg waits fs q r \<Longrightarrow> life_run E W cfg waits (es @ fs) p r"
  by (induction rule: life_run.induct) (auto intro: life_more)

section \<open>What every run keeps\<close>

lemma process_tick_some: "\<exists>sim' v'. process_tick X qt gen W c now ended assets (sim, Some v) = (sim', Some v')"
proof (induction assets arbitrary: sim v)
  case (Cons a assets)
  obtain s w where "tick_asset X qt gen W c now ended a (sim, Some v) = (s, Some w)"
    by (cases "get_next_price W c now (ended (as_symbol a)) (as_symbol a) a sim") (simp add: tick_asset_def)
  with Cons.IH [of s w] show ?case by (simp add: process_tick_def)
qed (simp add: process_tick_def)

lemma unwrap_or_Some: "unwrap_or (Some v) = (\<lambda>_. v)"
  by (simp add: unwrap_or_def fun_eq_iff)

text \<open>The server in the state of the process and the parts of the site are consistent.\<close>

definition consistent :: "('m, 'o, 'b, 'p, 'q, 'd) site_env \<Rightarrow> config \<Rightarrow> rate_limiter \<times> ('m, 'o) site \<Rightarrow> bool" where
  "consistent E cfg st \<longleftrightarrow> site_ok st \<and> server_ok (en_exchange E) (en_gen E) cfg (si_server (snd st))"

lemma consistent_step:
  assumes "server_laws (en_exchange E) (en_gen E) cfg" and "consistent E cfg (rl, s)"
    and "(server_step (en_exchange E) (en_gen E) (en_counters E) (en_snap E) W cfg)\<^sup>=\<^sup>= (si_server s) sv"
  shows "consistent E cfg (rl, s\<lparr>si_server := sv\<rparr>)"
proof -
  have "server_ok (en_exchange E) (en_gen E) cfg sv"
    using assms server_ok_step [of "en_exchange E" "en_gen E" "en_counters E" "en_snap E" W cfg "si_server s" sv]
    by (auto simp: server_laws_def consistent_def)
  with assms(2) show ?thesis by (simp add: consistent_def site_ok_def)
qed

lemma consistent_request:
  assumes "server_laws (en_exchange E) (en_gen E) cfg" and "consistent E cfg st" and "serve E mo rq st = (st', r)"
  shows "consistent E cfg st'"
proof -
  obtain rl s rl' s' where st: "st = (rl, s)" "st' = (rl', s')" by (cases st, cases st')
  have "server_ok (en_exchange E) (en_gen E) cfg (si_server s')"
    using kept_serve [OF assms(3) [unfolded st], of undefined cfg] assms(1,2)
      server_ok_step [of "en_exchange E" "en_gen E" "en_counters E" "en_snap E" undefined cfg "si_server s" "si_server s'"]
    by (auto simp: kept_def server_laws_def consistent_def st)
  moreover have "site_ok st'" using site_ok_request [OF assms(3)] assms(2) by (simp add: consistent_def)
  ultimately show ?thesis by (simp add: consistent_def st)
qed

lemma consistent_tick:
  assumes "server_laws (en_exchange E) (en_gen E) cfg" and "consistent E cfg st" and "task_tick E W cfg i t st = (st', on)"
  shows "consistent E cfg st'"
proof (cases t)
  case SimulationTask
  obtain rl s where st: "st = (rl, s)" by (cases st)
  show ?thesis
  proof (cases "sv_simulator (si_server s)")
    case None
    with assms(2,3) SimulationTask st show ?thesis by (auto simp: Let_def)
  next
    case (Some sim)
    obtain sim' v' where tick: "process_tick (en_exchange E) (en_quoter E) (en_gen E) W (cf_simulation cfg) (ti_now_ms i) (ti_ended i)
        (cf_assets cfg) (sim, Some (st_venue (sv_app (si_server s)))) = (sim', Some v')"
      using process_tick_some by blast
    from step_tick [OF Some this]
    have "consistent E cfg (rl, s\<lparr>si_server := (on_venue (\<lambda>_. v') (si_server s))\<lparr>sv_simulator := Some sim'\<rparr>\<rparr>)"
      by (intro consistent_step [OF assms(1) assms(2) [unfolded st]]) auto
    with assms(2,3) SimulationTask st Some tick show ?thesis
      by (auto simp: Let_def unwrap_or_Some split: if_splits)
  qed
next
  case (CleanupTask interval retention)
  obtain rl s where st: "st = (rl, s)" by (cases st)
  show ?thesis
  proof (cases "cleanup_old_orders (ti_represents i) (ti_now_ns i) retention (sv_app (si_server s))")
    case None
    with assms(2,3) CleanupTask st show ?thesis by auto
  next
    case (Some r)
    obtain n app where r: "r = (n, app)" by (cases r)
    from step_cleanup [OF Some [unfolded r]]
    have "consistent E cfg (rl, s\<lparr>si_server := (si_server s)\<lparr>sv_app := app\<rparr>\<rparr>)"
      by (intro consistent_step [OF assms(1) assms(2) [unfolded st]]) auto
    with assms(3) CleanupTask st Some r show ?thesis by auto
  qed
next
  case (SweepTask interval)
  with assms(2,3) show ?thesis by (cases st) (auto simp: consistent_def site_ok_def limiter_ok_sweep)
qed

text \<open>A cut tick: no step of the server, and still consistent.\<close>

lemma consistent_cut:
  assumes "server_laws (en_exchange E) (en_gen E) cfg" and "consistent E cfg (rl, s)" and "cut_tick E W cfg i n (si_server s) = Some sv"
  shows "consistent E cfg (rl, s\<lparr>si_server := sv\<rparr>)"
proof -
  let ?sv = "si_server s"
  have laws: "inj (en_gen E)" and ok: "server_ok (en_exchange E) (en_gen E) cfg ?sv"
    using assms(1,2) by (simp_all add: server_laws_def consistent_def)
  obtain sim asset rest where sim: "sv_simulator ?sv = Some sim" and assets: "drop n (cf_assets cfg) = asset # rest"
    using assms(3) by (auto simp: cut_tick_def split: option.splits list.splits)
  obtain sim1 v where tick: "process_tick (en_exchange E) (en_quoter E) (en_gen E) W (cf_simulation cfg) (ti_now_ms i) (ti_ended i)
      (take n (cf_assets cfg)) (sim, Some (st_venue (sv_app ?sv))) = (sim1, Some v)"
    using process_tick_some by blast
  obtain sim2 where advance: "advance_step (as_symbol asset) sim1 = (NeedsRegen, sim2)"
    and sv: "sv = (on_venue (\<lambda>_. v) ?sv)\<lparr>sv_simulator := Some sim2\<rparr>"
    using assms(3) by (auto simp: cut_tick_def sim assets tick unwrap_or_Some split: prod.splits step_outcome.splits)
  have feed: "feed_ok sim" "priced (cf_assets cfg) sim" using ok sim by (simp_all add: server_ok_def)
  then have "feed_ok sim1" "priced (cf_assets cfg) sim1"
    using fold_tick_ok [of "(sim, Some (st_venue (sv_app ?sv)))" "cf_assets cfg" "take n (cf_assets cfg)" "en_exchange E"
        "en_quoter E" "en_gen E" W "cf_simulation cfg" "ti_now_ms i" "ti_ended i"] tick
    by (auto simp: process_tick_def dest: in_set_takeD)
  then have "feed_ok sim2" "priced (cf_assets cfg) sim2"
    using advance_step_ok [OF _ advance] advance_step_prices [OF advance] by (simp_all add: priced_def sim_get_price_def)
  moreover have "server_ok (en_exchange E) (en_gen E) cfg (on_venue (\<lambda>_. v) ?sv)"
    by (rule server_ok_venue [OF laws ok process_tick_venue [OF tick]])
  ultimately show ?thesis using assms(2) by (simp add: consistent_def site_ok_def sv server_ok_def)
qed

text \<open>The flag follows the phase, and the process ends with no task running.\<close>

definition orderly :: "('m, 'o) process \<Rightarrow> bool" where
  "orderly p \<longleftrightarrow> (pr_flag p \<longleftrightarrow> pr_phase p \<in> {Joining, Exited}) \<and> (pr_phase p = Exited \<longrightarrow> finished p)"

lemma finished_update: "finished p \<Longrightarrow> pr_tasks p ! k = (t, True) \<Longrightarrow> k < length (pr_tasks p) \<Longrightarrow> False"
  using nth_mem [of k "pr_tasks p"] by (auto simp: finished_def list_all_iff)

lemma orderly_step: "life_step E W cfg waits e p q \<Longrightarrow> orderly p \<Longrightarrow> orderly q"
  by (induction rule: life_step.induct) (auto simp: orderly_def finished_def)

lemma socket_step_app:
  "socket_step h (so, st) i (so', st') \<Longrightarrow> st' = st \<or> (\<exists>raw cn cn' msgs. h raw cn st = (st', cn', msgs))"
proof (erule socket_stepE)
  fix cn frames go
  assume "reader_step h i (so_conn so) st = Some (st', cn, frames, go)"
  then show ?thesis by (cases i) (auto split: prod.splits)
qed simp_all

lemma consistent_life_step:
  assumes "life_step E W cfg waits e p q" and "server_laws (en_exchange E) (en_gen E) cfg" and "consistent E cfg (pr_site p)"
  shows "consistent E cfg (pr_site q)"
  using assms
proof cases
  case (life_frame j c so rl s i D parse so' st)
  have "st = sv_app (si_server s) \<or> (\<exists>raw cn cn' msgs. handle_client_message (en_exchange E) D (en_quoter E) (en_gen E)
      (en_message E) parse (cl_permissions c) raw cn (sv_app (si_server s)) = (st, cn', msgs))"
    by (rule socket_step_app [OF life_frame(8)])
  then have "(server_step (en_exchange E) (en_gen E) (en_counters E) (en_snap E) W cfg)\<^sup>=\<^sup>= (si_server s) ((si_server s)\<lparr>sv_app := st\<rparr>)"
    by (auto dest: step_message)
  from consistent_step [OF assms(2) assms(3) [unfolded life_frame(6)] this] show ?thesis by (simp add: life_frame(2))
next
  case (life_handshake n mo rq c st r)
  then show ?thesis using consistent_request [OF assms(2,3)] by simp
next
  case (life_request n mo rq st r)
  then show ?thesis using consistent_request [OF assms(2,3)] by simp
next
  case (life_tick k t i st on)
  then show ?thesis using consistent_tick [OF assms(2,3)] by simp
next
  case (life_cut k rl s i n sv)
  then show ?thesis using consistent_cut [OF assms(2)] assms(3) by simp
qed (use assms(3) in simp_all)

text \<open>
  The connections: each belongs to a caller whose token was verified and who may read, went through
  steps of its own only, and is told of the shutdown only when the flag is up.
\<close>

definition connected :: "('m, 'o, 'b, 'p, 'q, 'd) site_env \<Rightarrow> ('m, 'o) process \<Rightarrow> bool" where
  "connected E p \<longleftrightarrow> (\<forall>(c, so) \<in> set (pr_sockets p).
     (\<exists>token. verify_token (en_auth E) token = Inr c) \<and> has_permission c PermRead
     \<and> (\<exists>ins. socket_ok ins so) \<and> (OutClose \<in> set (so_sent so) \<longrightarrow> pr_flag p))"

lemma upgrades_caller:
  "upgrades E mo rq rl c \<Longrightarrow> (\<exists>token. verify_token (en_auth E) token = Inr c) \<and> has_permission c PermRead"
  by (auto simp: upgrades_def admitted_def required_permission_def is_underlying_root_def)

lemma socket_step_close:
  assumes "socket_step h (so, st) i (so', st')" and "client_handler h" and "connection_ok (so_conn so)"
    and "OutClose \<in> set (so_sent so')"
  shows "OutClose \<in> set (so_sent so) \<or> i = EvShutdown"
  using assms(1)
proof cases
  case (on_read cn frames go)
  then show ?thesis using reader_frames(4) [OF assms(2,3) on_read(3)] assms(4) by auto
next
  case (on_event ok frames go)
  then show ?thesis using assms(4) by (cases i) (auto simp: Let_def split: option.splits)
next
  case on_abort
  then show ?thesis using assms(4) by simp
qed

lemma connected_frame:
  assumes "connected E p" and "j < length (pr_sockets p)" and "pr_sockets p ! j = (c, so)" and "i = EvShutdown \<Longrightarrow> pr_flag p"
    and "socket_step h (so, st) i (so', st')" and "client_handler h"
  shows "connected E (p\<lparr>pr_sockets := (pr_sockets p)[j := (c, so')], pr_site := x\<rparr>)"
proof -
  have old: "(\<exists>token. verify_token (en_auth E) token = Inr c) \<and> has_permission c PermRead
     \<and> (\<exists>ins. socket_ok ins so) \<and> (OutClose \<in> set (so_sent so) \<longrightarrow> pr_flag p)"
    using assms(1) nth_mem [OF assms(2)] by (auto simp: connected_def assms(3))
  then obtain ins where ok: "socket_ok ins so" by blast
  have "socket_ok (ins @ [i]) so'" by (rule socket_step_ok [OF assms(6) ok assms(5)])
  moreover have "OutClose \<in> set (so_sent so') \<longrightarrow> pr_flag p"
    using socket_step_close [OF assms(5,6)] ok old assms(4) by (auto simp: socket_ok_def)
  ultimately have "(\<exists>ins. socket_ok ins so') \<and> (OutClose \<in> set (so_sent so') \<longrightarrow> pr_flag p)" by blast
  with assms(1) old show ?thesis
    by (auto simp: connected_def dest!: set_update_subset_insert [THEN subsetD])
qed

lemma connected_step: "life_step E W cfg waits e p q \<Longrightarrow> connected E p \<Longrightarrow> connected E q"
proof (induction rule: life_step.induct)
  case (life_handshake p n mo rq c st r)
  have "socket_ok [] socket_new" "OutClose \<notin> set (so_sent socket_new)"
    by (rule socket_new_ok) (simp add: socket_new_def connection_new_def)
  with life_handshake upgrades_caller [OF life_handshake(3)] show ?case by (fastforce simp: connected_def)
next
  case (life_frame p j c so rl s i D parse so' st)
  from connected_frame [OF life_frame(7,2,3,5,6) client_handler_server] show ?case by simp
next
  case (life_raise p)
  then show ?case by (fastforce simp: connected_def)
qed (simp_all add: connected_def)

interpretation life: invariant_system
  "\<lambda>p. server_laws (en_exchange E) (en_gen E) cfg
     \<and> (\<exists>l. p = launch l \<and> server_ok (en_exchange E) (en_gen E) cfg (la_server l))"
  "\<lambda>p q. server_laws (en_exchange E) (en_gen E) cfg \<and> (\<exists>e. life_step E W cfg waits e p q)"
  "\<lambda>p. orderly p \<and> connected E p \<and> consistent E cfg (pr_site p)"
proof unfold_locales
  fix p :: "('a, 'b) process"
  assume "server_laws (en_exchange E) (en_gen E) cfg
     \<and> (\<exists>l. p = launch l \<and> server_ok (en_exchange E) (en_gen E) cfg (la_server l))"
  then show "orderly p \<and> connected E p \<and> consistent E cfg (pr_site p)"
    by (auto simp: launch_def orderly_def connected_def consistent_def site_ok_def limiter_ok_def limiter_new_def surface_cache_ok_def dm_ok_def)
qed (auto intro: orderly_step connected_step consistent_life_step)

lemma run_steps: "life_run E W cfg waits es p q \<Longrightarrow> server_laws (en_exchange E) (en_gen E) cfg \<Longrightarrow>
    (\<lambda>p q. server_laws (en_exchange E) (en_gen E) cfg \<and> (\<exists>e. life_step E W cfg waits e p q))\<^sup>*\<^sup>* p q"
  by (induction rule: life_run.induct) (auto intro: converse_rtranclp_into_rtranclp)

section \<open>The end of a run\<close>

text \<open>The loops that still run, and the events that bring the end nearer.\<close>

definition running :: "('m, 'o) process \<Rightarrow> nat" where
  "running p = length (filter snd (pr_tasks p))"

fun closing :: "life_event \<Rightarrow> bool" where
  "closing (Tick k i) = False"
| "closing (Frame j i) = False"
| "closing _ = True"

lemma filter_ended:
  "k < length ts \<Longrightarrow> ts ! k = (t, True) \<Longrightarrow> length (filter snd ts) = Suc (length (filter snd (ts[k := (t, False)])))"
  by (induction ts arbitrary: k) (auto simp: nth_Cons split: nat.splits)

lemma running_end:
  assumes "k < length (pr_tasks p)" and "pr_tasks p ! k = (t, True)"
  shows "length (filter snd ((pr_tasks p)[k := (t, False)])) = running p - 1" and "0 < running p"
    and "length (filter snd ((pr_tasks p)[k := (t, on)])) \<le> running p"
  using filter_ended [OF assms] list_update_id [of "pr_tasks p" k] assms(2) by (cases on; simp add: running_def)+

text \<open>What is left to do once the flag is up; the traffic of the connections and the ticks are not part of it.\<close>

definition left :: "('m, 'o) process \<Rightarrow> nat" where
  "left p = running p + pr_requests p + (if pr_phase p = Exited then 0 else 1)"

lemma left_step:
  assumes "life_step E W cfg waits e p q" and "pr_phase p \<in> {Joining, Exited}"
  shows "pr_phase q \<in> {Joining, Exited} \<and> left q + (if closing e then 1 else 0) \<le> left p"
  using assms
proof cases
  case (life_tick k t i st on)
  then show ?thesis using assms(2) running_end(3) [OF life_tick(4,5), of on] by (auto simp: left_def running_def)
next
  case (life_cut k rl s i n sv)
  then show ?thesis using assms(2) running_end [OF life_cut(5,6)] by (auto simp: left_def running_def)
next
  case (life_break k t)
  then show ?thesis using assms(2) running_end [OF life_break(5,6)] by (auto simp: left_def running_def)
qed (use assms(2) in \<open>auto simp: left_def running_def\<close>)

lemma left_run:
  "life_run E W cfg waits es p q \<Longrightarrow> pr_phase p \<in> {Joining, Exited} \<Longrightarrow> left q + length (filter closing es) \<le> left p"
proof (induction rule: life_run.induct)
  case (life_more e p q es r)
  then show ?case using left_step [OF life_more(1,4)] by auto
qed simp

text \<open>The process can reach its return in so many steps, none of which is one of a connection.\<close>

definition closes :: "('m, 'o, 'b, 'p, 'q, 'd) site_env \<Rightarrow> walk_lib \<Rightarrow> config \<Rightarrow> bool \<Rightarrow> ('m, 'o) process \<Rightarrow> nat \<Rightarrow> bool" where
  "closes E W cfg waits p n \<longleftrightarrow>
     (\<exists>es q. life_run E W cfg waits es p q \<and> pr_phase q = Exited \<and> pr_sockets q = pr_sockets p
        \<and> length es \<le> n)"

lemma closes_step:
  assumes "closes E W cfg waits q n" and "life_step E W cfg waits e p q" and "pr_sockets q = pr_sockets p"
  shows "closes E W cfg waits p (Suc n)"
proof -
  obtain es r where "life_run E W cfg waits es q r" "pr_phase r = Exited" "pr_sockets r = pr_sockets q"
    "length es \<le> n" using assms(1) by (auto simp: closes_def)
  with life_more [OF assms(2), of es r] assms(3) show ?thesis
    unfolding closes_def by (intro exI [of _ "e # es"] exI [of _ r]) auto
qed

lemma closes_join: "pr_phase p = Joining \<Longrightarrow> pr_flag p \<Longrightarrow> closes E W cfg waits p (Suc (running p))"
proof (induction "running p" arbitrary: p)
  case 0
  have "closes E W cfg waits (p\<lparr>pr_phase := Exited\<rparr>) 0"
    unfolding closes_def by (intro exI [of _ "[]"]) (auto intro: life_none)
  moreover have "finished p" using 0 by (auto simp: finished_def running_def list_all_iff filter_empty_conv)
  ultimately show ?case using 0 closes_step [OF _ life_exit] by fastforce
next
  case (Suc n)
  then have "filter snd (pr_tasks p) \<noteq> []" by (auto simp: running_def)
  then obtain k t where k: "k < length (pr_tasks p)" "pr_tasks p ! k = (t, True)"
    by (metis filter_False in_set_conv_nth prod.collapse)
  let ?q = "p\<lparr>pr_tasks := (pr_tasks p)[k := (t, False)]\<rparr>"
  have n: "n = running ?q" using running_end(1) [OF k] Suc(2) by (simp add: running_def)
  have "closes E W cfg waits ?q (Suc (running ?q))" using Suc by (intro Suc(1) [OF n]) simp_all
  then show ?case using closes_step [OF _ life_break [OF _ _ k]] Suc n by fastforce
qed

lemma closes_raise: "pr_phase p = Stopped \<Longrightarrow> closes E W cfg waits p (running p + 2)"
  using closes_step [OF closes_join life_raise] by (fastforce simp: running_def)

lemma closes_drain:
  "pr_phase p = Draining \<Longrightarrow> waits \<longrightarrow> open_sockets p = 0 \<Longrightarrow> closes E W cfg waits p (pr_requests p + running p + 3)"
proof (induction "pr_requests p" arbitrary: p)
  case 0
  let ?q = "p\<lparr>pr_phase := Stopped\<rparr>"
  have step: "life_step E W cfg waits Drained p ?q" using 0 by (intro life_drained) simp_all
  have "closes E W cfg waits ?q (running ?q + 2)" by (intro closes_raise) simp
  from closes_step [OF this step] 0(1) show ?case by (simp add: running_def eval_nat_numeral)
next
  case (Suc n)
  obtain st r where served: "serve E undefined undefined (pr_site p) = (st, r)" by fastforce
  let ?q = "p\<lparr>pr_requests := n, pr_site := st\<rparr>"
  have step: "life_step E W cfg waits (Request undefined undefined) p ?q"
    using Suc(2,3) served by (intro life_request) auto
  have "closes E W cfg waits ?q (pr_requests ?q + running ?q + 3)" using Suc by (intro Suc(1)) (simp_all add: open_sockets_def)
  from closes_step [OF this step] Suc(2) [symmetric] show ?case by (simp add: running_def)
qed

lemma closes_from:
  assumes "orderly p" and "pr_phase p \<noteq> Exited" and "waits \<longrightarrow> pr_flag p \<or> open_sockets p = 0"
  shows "closes E W cfg waits p (pr_requests p + running p + 4)"
proof -
  have more: "closes E W cfg waits p n \<Longrightarrow> n \<le> m \<Longrightarrow> closes E W cfg waits p m" for n m
    unfolding closes_def using le_trans by blast
  show ?thesis
  proof (cases "pr_phase p")
    case Accepting
    let ?q = "p\<lparr>pr_phase := Draining\<rparr>"
    have "closes E W cfg waits ?q (pr_requests ?q + running ?q + 3)"
      using assms(1,3) Accepting by (intro closes_drain) (auto simp: orderly_def open_sockets_def)
    from closes_step [OF this life_signal [OF Accepting]] show ?thesis by (simp add: running_def add_ac)
  next
    case Draining
    have "closes E W cfg waits p (pr_requests p + running p + 3)"
      using assms(1,3) Draining by (intro closes_drain) (auto simp: orderly_def)
    then show ?thesis by (rule more) simp
  next
    case Stopped
    from closes_raise [OF this] show ?thesis by (rule more) simp
  next
    case Joining
    with assms(1) have "closes E W cfg waits p (Suc (running p))" by (intro closes_join) (auto simp: orderly_def)
    then show ?thesis by (rule more) simp
  qed (use assms(2) in simp)
qed

text \<open>The tasks are the ones that were started, and nothing happens after the return.\<close>

lemma tasks_step: "life_step E W cfg waits e p q \<Longrightarrow> map fst (pr_tasks q) = map fst (pr_tasks p)"
  by (induction rule: life_step.induct) (auto simp: map_update list_update_same_conv)

lemma tasks_run: "life_run E W cfg waits es p q \<Longrightarrow> map fst (pr_tasks q) = map fst (pr_tasks p)"
  by (induction rule: life_run.induct) (simp_all add: tasks_step)

lemma exited_stays: "pr_phase p = Exited \<Longrightarrow> \<not> life_step E W cfg waits e p q"
  by (auto elim: life_step.cases)

lemma launched_ok:
  assumes "main PE N (from_config (en_exchange E) qt (en_gen E) W m0) m0 now uuid args = Serving l" and "la_config l \<in> {None, Some cfg}"
    and "server_laws (en_exchange E) (en_gen E) cfg"
  shows "server_ok (en_exchange E) (en_gen E) cfg (la_server l)"
proof (cases "la_config l")
  case None
  with start_server_Inr(1,3) [OF main_Serving [OF assms(1)]] have "la_server l = state_new m0" by simp
  then show ?thesis by (simp add: server_ok_def state_new_def app_ok_new snapshots_bounded_def)
next
  case (Some c)
  with assms(2) have "la_config l = Some cfg" by simp
  from reachable_ok [OF assms(3) started_server_reachable [OF assms(1) this]] show ?thesis .
qed

lemma life_kept:
  assumes "life_run E W cfg waits es (launch l) p" and "server_laws (en_exchange E) (en_gen E) cfg"
    and "server_ok (en_exchange E) (en_gen E) cfg (la_server l)"
  shows "orderly p" and "connected E p" and "consistent E cfg (pr_site p)"
  using life.inv_reachable [of E cfg "launch l" W waits p] run_steps [OF assms(1,2)] assms(2,3) by auto

text \<open>A task of a connection that has ended does not start again.\<close>

lemma socket_step_open: "socket_step h (so, st) i (so', st') \<Longrightarrow> is_open so' \<Longrightarrow> is_open so"
  by (auto elim!: socket_stepE simp: is_open_def)

lemma open_step:
  assumes "life_step E W cfg waits e p q" and "j < length (pr_sockets p)"
  shows "j < length (pr_sockets q) \<and> (is_open (snd (pr_sockets q ! j)) \<longrightarrow> is_open (snd (pr_sockets p ! j)))"
  using assms
proof cases
  case (life_frame k c so rl s i D parse so' st)
  then show ?thesis using assms(2) socket_step_open [OF life_frame(8)] by (cases "j = k") auto
qed (use assms(2) in \<open>auto simp: nth_append\<close>)

lemma open_run:
  "life_run E W cfg waits es p q \<Longrightarrow> j < length (pr_sockets p) \<Longrightarrow> is_open (snd (pr_sockets q ! j)) \<Longrightarrow> is_open (snd (pr_sockets p ! j))"
proof (induction rule: life_run.induct)
  case (life_more e p q es r)
  from open_step [OF life_more(1,4)] life_more(3,5) show ?case by blast
qed

lemma open_counts: "j < length (pr_sockets p) \<Longrightarrow> is_open (snd (pr_sockets p ! j)) \<Longrightarrow> open_sockets p \<noteq> 0"
  using nth_mem [of j "pr_sockets p"] by (auto simp: open_sockets_def filter_empty_conv)

text \<open>When the drain waits for the connections, one that stays open keeps the process from its end.\<close>

lemma open_socket_blocks:
  "life_run E W cfg True es p q \<Longrightarrow> pr_phase p \<in> {Accepting, Draining} \<Longrightarrow> j < length (pr_sockets p)
   \<Longrightarrow> is_open (snd (pr_sockets q ! j)) \<Longrightarrow> ServeFails \<notin> set es \<Longrightarrow> pr_phase q \<in> {Accepting, Draining}"
proof (induction rule: life_run.induct)
  case (life_more e p q es r)
  from open_step [OF life_more(1,5)] have j: "j < length (pr_sockets q)" ..
  with open_run [OF life_more(2)] open_step [OF life_more(1,5)] life_more(6)
  have "open_sockets p \<noteq> 0" by (intro open_counts [OF life_more(5)]) blast
  with life_more(1,4,7) have "pr_phase q \<in> {Accepting, Draining}" by cases auto
  with life_more(3) j life_more(6,7) show ?case by simp
qed

section \<open>Properties\<close>


text \<open>
  C24. The process ends. From every state of such a life before the return, when the drain does not
  wait for WebSockets, or none is open, or the flag is already up, the process can return in
  at most one step per open request and running loop and four more, with no step of a connection.
  Once the flag is up the return cannot be postponed: of the events other than ticks and traffic of
  the connections, at most as many can still happen as there are loops and open requests, and the
  return itself. But when the drain waits, the process does not return, nor raises the flag that
  would close them, before every connection has ended by itself or the server has failed.
\<close>

theorem shutdown_completes:
  assumes "main PE N (from_config (en_exchange E) qt (en_gen E) W m0) m0 now uuid args = Serving l" and "la_config l \<in> {None, Some cfg}"
    and "server_laws (en_exchange E) (en_gen E) cfg" and "life_run E W cfg waits es (launch l) p"
  shows "(pr_phase p \<noteq> Exited \<and> (waits \<longrightarrow> pr_flag p \<or> open_sockets p = 0) \<longrightarrow>
        (\<exists>fs q. life_run E W cfg waits fs p q \<and> pr_phase q = Exited \<and> pr_sockets q = pr_sockets p
           \<and> length fs \<le> pr_requests p + running p + 4))
    \<and> (pr_flag p \<longrightarrow> (\<forall>fs q. life_run E W cfg waits fs p q \<longrightarrow> length (filter closing fs) \<le> left p))
    \<and> (waits \<and> pr_phase p \<in> {Accepting, Draining} \<longrightarrow>
        (\<forall>fs q. life_run E W cfg waits fs p q \<and> ServeFails \<notin> set fs
           \<and> (\<exists>j < length (pr_sockets p). is_open (snd (pr_sockets q ! j))) \<longrightarrow> pr_phase q \<in> {Accepting, Draining} \<and> \<not> pr_flag q))"
proof -
  note ok = launched_ok [OF assms(1-3)]
  note kept = life_kept(1) [OF assms(4,3) ok]
  show ?thesis
  proof (intro conjI impI allI)
    assume "pr_phase p \<noteq> Exited \<and> (waits \<longrightarrow> pr_flag p \<or> open_sockets p = 0)"
    then have "closes E W cfg waits p (pr_requests p + running p + 4)" by (intro closes_from kept) auto
    then show "\<exists>fs q. life_run E W cfg waits fs p q \<and> pr_phase q = Exited \<and> pr_sockets q = pr_sockets p
           \<and> length fs \<le> pr_requests p + running p + 4"
      unfolding closes_def .
  next
    fix fs q
    assume "pr_flag p" "life_run E W cfg waits fs p q"
    with left_run [of E W cfg waits fs p q] kept show "length (filter closing fs) \<le> left p" by (auto simp: orderly_def)
  next
    fix fs q
    assume "waits \<and> pr_phase p \<in> {Accepting, Draining}"
      and *: "life_run E W cfg waits fs p q \<and> ServeFails \<notin> set fs \<and> (\<exists>j < length (pr_sockets p). is_open (snd (pr_sockets q ! j)))"
    then show "pr_phase q \<in> {Accepting, Draining}" using open_socket_blocks [of E W cfg fs p q] by auto
    moreover have "orderly q" using life_kept(1) [OF life_run_append [OF assms(4)] assms(3) ok] * by blast
    ultimately show "\<not> pr_flag q" by (auto simp: orderly_def)
  qed
qed

section \<open>A process that starts and ends\<close>

text \<open>The small server, where the token \<open>t\<close> is one that may read, and a request for a WebSocket.\<close>

definition demo_viewer :: claims where
  "demo_viewer = demo_trader_claims\<lparr>cl_permissions := [PermRead]\<rparr>"

definition demo_ws_env :: "(demo_state, nat, (nat \<times> book_side \<times> u128 \<times> u64) list, f64, unit, unit) site_env" where
  "demo_ws_env = demo_site_env\<lparr>en_auth :=
     \<lparr>ja_lib = \<lparr>jwt_encode = (\<lambda>_. None), jwt_decode = (\<lambda>t. if t = ''t'' then Inr demo_viewer else Inl OtherJwtError)\<rparr>,
      ja_issuer = ''me'', ja_default_ttl_secs = 1\<rparr>\<rparr>"

definition demo_upgrade :: web_request where
  "demo_upgrade = \<lparr>wq_head = \<lparr>rq_method = ''GET'', rq_path = ''/ws'', rq_query = Some ''token=t'', rq_authorization = None,
     rq_forwarded_for = None, rq_real_ip = None, rq_peer_ip = None\<rparr>, wq_json = False, wq_body = []\<rparr>"

abbreviation demo_main :: "(demo_state, nat) process_outcome" where
  "demo_main \<equiv> main (demo_process [(''ALLOW_DEV_KEY'', ''1'')]) demo_net
     (from_config (en_exchange demo_ws_env) (demo_quoter f_zero) (en_gen demo_ws_env) demo_walk_lib demo_empty) demo_empty 0 ''u'' [''server'']"

lemma demo_launched:
  "\<exists>l. demo_main = Serving l \<and> la_config l = None \<and> la_tasks l = [SweepTask rate_limit_sweep_interval_secs]"
proof -
  have "bind_address (pe_env (demo_process [(''ALLOW_DEV_KEY'', ''1'')])) None = Inr (''0.0.0.0'', 8080)"
    by (simp add: bind_address_def demo_process_def unwrap_or_def demo_port)
  then show ?thesis
    by (simp add: main_def start_server_def demo_no_config demo_keys demo_net_def Let_def background_tasks_def state_new_def)
qed

lemma demo_laws: "server_laws (en_exchange demo_ws_env) (en_gen demo_ws_env) demo_config_server"
  by (simp add: demo_ws_env_def demo_site_env_def server_laws_def demo_conserves demo_ids_roundtrip inj_on_def config_priced_def
      demo_config_server_def)

lemma demo_upgrades: "upgrades demo_ws_env demo_moment demo_upgrade limiter_new demo_viewer"
proof -
  have "extract_token (wq_head demo_upgrade) = Some ''t''"
    by (simp add: demo_upgrade_def extract_token_def query_token_def strip_prefix_str_def)
  moreover have "verify_token (en_auth demo_ws_env) ''t'' = Inr demo_viewer"
    by (simp add: verify_token_def demo_ws_env_def)
  moreover have "rd_allowed (snd (check_and_record_status (mo_clock demo_moment) (cl_sub demo_viewer) default_rate_limit limiter_new))"
    using rate_limiter_bounded_and_available [of limiter_new "mo_clock demo_moment" "cl_sub demo_viewer" default_rate_limit]
    by (simp add: limiter_ok_def limiter_new_def prune_and_record_result prune_window_def default_rate_limit_def dm_ok_def)
  ultimately show ?thesis
    by (simp add: upgrades_def admitted_def demo_upgrade_def health_path_def token_path_def required_permission_def
        is_underlying_root_def has_permission_def demo_viewer_def)
qed

text \<open>A connection that no one told: when the drain does not wait for it, the process leaves it open.\<close>

lemma demo_life:
  assumes "la_tasks l = [t]" and "upgrades E mo rq limiter_new c"
  shows "\<exists>p. life_run E W cfg False [Connect, Handshake mo rq, Signal, Drained, Raise, Break 0, Exit] (launch l) p
     \<and> pr_phase p = Exited \<and> pr_sockets p = [(c, socket_new)]"
proof -
  obtain st r where served: "serve E mo rq (pr_site (launch l)) = (st, r)" by fastforce
  let ?p = "\<lambda>ph fl on. (launch l)\<lparr>pr_phase := ph, pr_sockets := [(c, socket_new)], pr_flag := fl, pr_tasks := [(t, on)], pr_site := st\<rparr>"
  let ?q = "(launch l)\<lparr>pr_requests := Suc 0\<rparr>"
  have fields: "pr_phase (launch l) = Accepting" "pr_requests (launch l) = 0" "pr_sockets (launch l) = []"
    "pr_tasks (launch l) = [(t, True)]" "fst (pr_site (launch l)) = limiter_new" "pr_flag (launch l) = False"
    using assms(1) by (simp_all add: launch_def)
  have "life_step E W cfg False Connect (launch l) ?q"
    using life_connect [of "launch l" E W cfg False] by (simp add: fields)
  moreover have "life_step E W cfg False (Handshake mo rq) ?q (?p Accepting False True)"
    using life_handshake [of ?q 0 E mo rq c st r W cfg False] assms(2) served by (simp add: fields) (simp add: launch_def assms(1))
  moreover have "life_step E W cfg False Signal (?p Accepting False True) (?p Draining False True)"
    "life_step E W cfg False Drained (?p Draining False True) (?p Stopped False True)"
    "life_step E W cfg False Raise (?p Stopped False True) (?p Joining True True)"
    "life_step E W cfg False (Break 0) (?p Joining True True) (?p Joining True False)"
    "life_step E W cfg False Exit (?p Joining True False) (?p Exited True False)"
    by (simp_all add: life_step.simps finished_def fields)
  ultimately have "life_run E W cfg False [Connect, Handshake mo rq, Signal, Drained, Raise, Break 0, Exit] (launch l) (?p Exited True False)"
    by (blast intro: life_none life_more)
  then show ?thesis by (intro exI [of _ "?p Exited True False"]) simp
qed


lemma shutdown_completes_witness:
  "\<exists>l fs q. demo_main = Serving l \<and> life_run demo_ws_env demo_walk_lib demo_config_server True fs (launch l) q
     \<and> pr_phase q = Exited \<and> length fs \<le> 5"
proof -
  obtain l where l: "demo_main = Serving l" "la_config l = None" "la_tasks l = [SweepTask rate_limit_sweep_interval_secs]"
    using demo_launched by blast
  have config: "la_config l \<in> {None, Some demo_config_server}" using l(2) by simp
  have "pr_phase (launch l) \<noteq> Exited \<and> (True \<longrightarrow> pr_flag (launch l) \<or> open_sockets (launch l) = 0)"
    and few: "pr_requests (launch l) + running (launch l) + 4 = 5"
    using l(3) by (simp_all add: launch_def running_def open_sockets_def)
  from shutdown_completes [OF l(1) config demo_laws life_none [of demo_ws_env demo_walk_lib demo_config_server True], THEN conjunct1, THEN mp, OF this(1)]
  show ?thesis using l(1) unfolding few by blast
qed

end
