(* ===== verification/Spec2Isabelle.thy ===== *)
theory Spec2Isabelle
  imports Gateway Server Analytics Wire_Market Client Client_Ws Socket Startup
    Limiter_Threads Delta_Threads Engine_Threads Api Shutdown
begin

text \<open>
  Verification of the option-chain order-book backend (\<open>src/\<close>): an HTTP and WebSocket server over
  in-memory option order books, with a market maker, a price simulator, positions, executions,
  candles, snapshots, analytics and authentication, and the Rust client of its two protocols.

  Parts and theories. Each theory opens with what it holds; the sources are under \<open>src/src/\<close>.

  \<^item> \<open>Prelude\<close>: machine integers, strings, the stores (\<open>DashMap\<close> as an association list without
    duplicate keys, \<open>BTreeMap\<close> as one sorted by key) and the interfaces \<open>kv_store\<close>,
    \<open>evicting_store\<close>, \<open>two_way_index\<close> and \<open>command_machine\<close>, with the collections the proofs use.
  \<^item> \<open>Models\<close> (\<open>models.rs\<close>), \<open>Errors\<close> (\<open>error.rs\<close>): the data on the wire and the error responses.
  \<^item> \<open>Position\<close> (\<open>models.rs\<close>) and \<open>Ohlc\<close> (\<open>ohlc.rs\<close>): position accounting and candles.
  \<^item> \<open>Auth\<close> (\<open>auth.rs\<close>) and \<open>Gateway\<close> (\<open>api/middleware.rs\<close>, \<open>api/routes.rs\<close>): tokens, the rate
    limiter, and the gate in front of every handler with the route table.
  \<^item> \<open>Float64\<close>, \<open>Float_Order\<close>: \<open>f64\<close> as rationals with infinities and NaN, every operation rounded
    to nearest even, and the order laws of rounding.
  \<^item> \<open>Exchange\<close> (path helpers of \<open>api/handlers.rs\<close>) with the order-book library as a record of
    functions, and \<open>Demo_Exchange\<close>, a small exchange that has every law assumed of the library.
  \<^item> \<open>Quoter\<close>, \<open>Market_Maker\<close> (\<open>market_maker/\<close>): pricing, quoting and the engine.
  \<^item> \<open>Trading\<close>, \<open>Order_Flow\<close>, \<open>Bulk\<close> (\<open>api/handlers.rs\<close>): the state shared by the handlers, order
    entry with everything it records and publishes, bulk submission with its rollback, bulk
    cancellation and cancel-all.
  \<^item> \<open>Snapshots\<close> (\<open>state.rs\<close>, \<open>api/handlers.rs\<close>): retention, capture and restore.
  \<^item> \<open>Queries\<close>, \<open>Hierarchy\<close> (\<open>api/handlers.rs\<close>): executions, trades, candles, orders, positions;
    underlyings, expirations, strikes, quotes and the option chain.
  \<^item> \<open>Config\<close> (\<open>config.rs\<close>), \<open>Simulation\<close> (\<open>simulation.rs\<close>), \<open>Controls\<close> (\<open>api/controls.rs\<close>).
  \<^item> \<open>Subscriptions\<close> (\<open>api/websocket.rs\<close>): every client command and what is forwarded.
  \<^item> \<open>Socket\<close> (\<open>handle_socket\<close> of \<open>api/websocket.rs\<close>): the life of a connection as steps of its two tasks.
  \<^item> \<open>Startup\<close> (\<open>main.rs\<close>, \<open>auth.rs\<close>, \<open>api/mod.rs\<close>): from the command line, the environment and the
    files to a served state or a minted token.
  \<^item> \<open>Threads\<close>: threads over a shared state, each with a counter of its own, in any order, and the
    interface \<open>pool_invariant\<close>. \<open>Limiter_Threads\<close> (\<open>auth.rs\<close>), \<open>Delta_Threads\<close> (\<open>publish_level_delta\<close> of
    \<open>api/handlers.rs\<close>) and \<open>Engine_Threads\<close> (\<open>market_maker/engine.rs\<close>) cut the operations of \<open>Auth\<close>,
    \<open>Subscriptions\<close> and \<open>Market_Maker\<close> into the accesses that the code makes one at a time.
  \<^item> \<open>Server\<close> (\<open>state.rs\<close>): construction, clean-up, and the transition system of the whole server.
  \<^item> \<open>Analytics\<close> (\<open>api/handlers.rs\<close>): health, statistics, the volatility surface with its cache,
    greeks, the enriched snapshot and the order-book metrics.
  \<^item> \<open>Json\<close>, \<open>Wire_Requests\<close>, \<open>Wire_Responses\<close>, \<open>Wire_Market\<close> (\<open>models.rs\<close>, \<open>api/controls.rs\<close>,
    \<open>db/schema.rs\<close>; \<open>types.rs\<close> of \<open>src/crates/orderbook-client/src/\<close>): JSON values, and what each of the
    two crates writes and reads of every request and response. \<open>enc\<close> writes, \<open>dec\<close> reads; \<open>c\<close> is the
    client's side and \<open>s\<close> the server's.
  \<^item> \<open>Client\<close>, \<open>Client_Ws\<close> (\<open>client.rs\<close>, \<open>error.rs\<close>, \<open>websocket.rs\<close> of the client crate): the request of
    every method, the reading of a response, and the WebSocket client with its two tasks. They
    meet the server at the route table (\<open>Gateway\<close>) and at \<open>handle_client_message\<close> (\<open>Subscriptions\<close>).
  \<^item> \<open>Api\<close> (\<open>api/routes.rs\<close>, the signatures of the handlers, \<open>client.rs\<close>): the server as one function of a
    request - route table, gate, extractors, handler, answer - and the client's calls through it.
  \<^item> \<open>Shutdown\<close> (\<open>main.rs\<close>, \<open>run\<close> of \<open>simulation.rs\<close>): the life of a serving process as labelled steps -
    requests, connections, the loops of the background tasks, the signal, the drain, the flag, the
    wait for the tasks and the return.

  State and steps. A handler is a function from the state to the new state and a result, \<open>Inl\<close> of an
  error or \<open>Inr\<close> of a response; every early return of the source is a branch. Handlers are atomic
  steps, and \<open>server_step\<close> interleaves them in any order with engine commands, simulator ticks,
  WebSocket messages and the clean-up. Where threads meet inside an operation and the code has a
  comment on it - the rate limiter, the publication of a delta, the engine - the operation is also
  modelled as the sequence of its accesses, interleaved with every other thread; run alone, each
  is the one-step operation (\<open>limiter_alone_is_atomic\<close>, \<open>engine_alone_is_atomic\<close>). Other
  interleavings inside one handler are not modelled. The clock, the id generator and freshly drawn identifiers are arguments.

  Parameters. Code that is not under \<open>src/\<close> is an argument: the order-book library (\<open>exchange\<close>), its
  counters (\<open>book_stats\<close>), its snapshots (\<open>snapshot_lib\<close>), the calendar, the JWT library, \<open>libm\<close>, the
  random walks (\<open>walk_lib\<close>), whether axum's graceful shutdown waits for connections upgraded to WebSockets, the database reads, the solver of implied volatilities (\<open>iv_lib\<close>), the
  percent-encoding of the \<open>url\<close> crate (\<open>url_lib\<close>), the text of a JSON value and of a query string. What a theorem assumes of them is a named
  hypothesis: a match conserves the quantity (\<open>conserves_quantity\<close>), a cancellation removes at most
  the named order (\<open>cancel_only_removes\<close>), ids print and parse back (\<open>ids_roundtrip\<close>), lookups
  follow creations (\<open>hierarchy_laws\<close>, \<open>resting_laws\<close>), a snapshot carries its book
  (\<open>snapshot_laws\<close>), a pushed path segment decodes to itself (\<open>url_laws\<close>), a printed JSON value
  parses to itself (\<open>json_text\<close>). \<open>Demo_Exchange\<close> and the demo values show that they can hold, and the witnesses
  apply the theorems there.

  What the lemmas show. The frames and the \<open>app_ok\<close> lemmas: every handler keeps the stores consistent.
  The \<open>_cases\<close> rules and the outcome theorems: what each handler does on each branch. The interface
  interpretations: the candle store and the snapshot store evict only what is oldest, the engine's
  orders and their index determine each other, the surface cache holds only sweeps at
  the spot they are filed under, and the server keeps its invariant. Those of \<open>pool_invariant\<close> say
  what holds of every interleaving: the cap of the limiter, the numbers of the deltas, and in the
  engine that every id the index, the tracked orders or a running thread holds has been drawn, and
  an id about to be tracked is held by one thread alone. The \<open>_read\<close> lemmas: what one
  crate writes the other reads as the value it stands for. In \<open>Api\<close> the parts meet: a request is at most
  one step of the server, and a call of the client is the handler applied to its arguments.
  In \<open>Shutdown\<close> that state is carried by the life of the process: every step keeps it consistent, also
  a tick cut in the middle; \<open>closes\<close> bounds the shortest way to the return and \<open>left\<close> what can still come before it. \<open>client_calls\<close> lists every method of the
  client with the handler it is meant for. The findings
  among them (\<open>demo_cancel_wrong_book\<close>, \<open>kill_switch_bypassed\<close>, \<open>kill_switch_leaves_quotes\<close>,
  \<open>days_book_restores_elsewhere\<close>, \<open>date_reads_days_book\<close>, \<open>tiny_spacing_zero_strike\<close>,
  \<open>huge_retention_is_negative\<close>, \<open>snapshot_takes_sequence\<close>, \<open>hyphen_wildcard_never_matches\<close>,
  \<open>shared_date_listed_twice\<close>, \<open>failed_price_is_default\<close>, \<open>wide_spread_reads_zero\<close>,
  \<open>default_ohlc_query_refused\<close>, \<open>nan_greek_unreadable\<close>, \<open>dot_segments_vanish\<close>,
  \<open>plain_subscribe_ignored\<close>, \<open>dev_certificate_passes_guard\<close>, \<open>missing_values\<close>,
  \<open>fill_orphans_quote\<close>, \<open>requote_survives_kill_switch\<close>, \<open>stale_delta_numbered_last\<close>,
  \<open>resync_loses_admissions\<close>, \<open>open_socket_blocks\<close>) show behaviour that differs from what the comments say.

  Bounds. No fuel is used except in the admission loop of the rate limiter, whose two rounds are proved
  enough: a full map always yields a slot at the first. Sequence numbers, counters and prices are
  64-bit words that wrap where the source wraps.

  Not modelled. The database layer (SQL), logging, the OpenAPI document, listeners and the timers of the
  background tasks: I/O. The test crates under \<open>src/crates\<close>; the timers and the broadcast channels
  behind a connection (their outcomes are its inputs); the transport and the bounded channels of the
  client. Of JSON the rules of the
  derived serializers for fields, options and variants are modelled, its text is not. The handlers of
  \<open>Analytics\<close> read the server's state and are not steps of \<open>server_step\<close>; the cache of the
  surface is part of the state of \<open>Api\<close>. What axum answers itself, the CORS and trace layers and the
  Swagger UI are outside of \<open>serve\<close>. A restore does not touch the tracked orders, and it leaves books
  that were empty at the snapshot as they are: the code does neither.
\<close>

end
